(* ===== verification/Gateway_Prelude.thy ===== *)
theory Gateway_Prelude
  imports Main "HOL-Library.Word" "HOL-Library.Sublist" "HOL-Library.Char_ord"
    "HOL-Library.List_Lexorder" "HOL-Library.Product_Lexorder"
begin

text \<open>
  Shared vocabulary of the development: results and errors, the part of Rust's standard
  library the gateway uses (byte strings, \<open>trim\<close>, \<open>String::from_utf8_lossy\<close>, ASCII case,
  durations, saturating arithmetic), \<open>HashMap\<close>s as association lists in iteration order,
  and the lemma collections the component theories feed to the simplifier.

  Rust strings and byte slices are both \<^typ>\<open>string\<close>: a \<^typ>\<open>char\<close> is one byte, so
  \<open>length\<close> is \<open>len()\<close> and a multi-byte character is several list elements.
\<close>

named_theorems rust_simps \<open>characteristic equations of modelled standard-library functions\<close>
named_theorems gw_defs \<open>definitions unfolded together by the component proofs\<close>

section \<open>Results\<close>

type_synonym ('a, 'e) result = "'e + 'a"

abbreviation Ok :: "'a \<Rightarrow> ('a, 'e) result" where "Ok \<equiv> Inr"
abbreviation Err :: "'e \<Rightarrow> ('a, 'e) result" where "Err \<equiv> Inl"

definition is_ok :: "('a, 'e) result \<Rightarrow> bool" where
  "is_ok r = (case r of Inl _ \<Rightarrow> False | Inr _ \<Rightarrow> True)"

lemma is_ok_simps [simp]: "is_ok (Ok x)" "\<not> is_ok (Err e)"
  by (simp_all add: is_ok_def)

lemma is_ok_iff: "is_ok r \<longleftrightarrow> (\<exists>x. r = Ok x)"
  by (cases r) simp_all

text \<open>A \<open>for\<close> loop whose body may return early with an error: the first error wins.\<close>

fun for_each :: "('a \<Rightarrow> (unit, 'e) result) \<Rightarrow> 'a list \<Rightarrow> (unit, 'e) result" where
  "for_each f [] = Ok ()"
| "for_each f (x # xs) = (case f x of Inl e \<Rightarrow> Err e | Inr _ \<Rightarrow> for_each f xs)"

lemma for_each_ok: "for_each f xs = Ok () \<longleftrightarrow> (\<forall>x \<in> set xs. f x = Ok ())"
  by (induction xs) (auto split: sum.splits)

lemma seq_ok: "(case r of Inl e \<Rightarrow> Err e | Inr _ \<Rightarrow> s) = Ok x \<longleftrightarrow> is_ok r \<and> s = Ok x"
  by (cases r) simp_all

lemma is_ok_unit: "is_ok r \<longleftrightarrow> r = Ok ()"
  by (cases r) simp_all

lemma for_each_is_ok: "is_ok (for_each f xs) \<longleftrightarrow> (\<forall>x \<in> set xs. f x = Ok ())"
  by (simp add: is_ok_iff for_each_ok)

text \<open>\<open>Result::and_then\<close>, which is also what the \<open>?\<close> operator does to the rest of a block.\<close>

definition and_then :: "('a, 'e) result \<Rightarrow> ('a \<Rightarrow> ('b, 'e) result) \<Rightarrow> ('b, 'e) result" where
  "and_then r f = (case r of Inl e \<Rightarrow> Err e | Inr x \<Rightarrow> f x)"

lemma and_then_simps [simp]: "and_then (Ok x) f = f x" "and_then (Err e) f = Err e"
  by (simp_all add: and_then_def)

lemma and_then_Ok: "and_then r f = Ok y \<longleftrightarrow> (\<exists>x. r = Ok x \<and> f x = Ok y)"
  by (cases r) simp_all

lemma and_then_Err: "and_then r f = Err e \<longleftrightarrow> r = Err e \<or> (\<exists>x. r = Ok x \<and> f x = Err e)"
  by (cases r) auto

lemma case_sum_Ok: "(case r of Inl e \<Rightarrow> Err (g e) | Inr x \<Rightarrow> h x) = Ok y \<longleftrightarrow> (\<exists>x. r = Ok x \<and> h x = Ok y)"
  by (cases r) simp_all

definition ok_or :: "'e \<Rightarrow> 'a option \<Rightarrow> ('a, 'e) result" where
  "ok_or e a = (case a of None \<Rightarrow> Err e | Some x \<Rightarrow> Ok x)"

lemma ok_or_simps [simp]: "ok_or e None = Err e" "ok_or e (Some x) = Ok x"
  by (simp_all add: ok_or_def)

lemma ok_or_Ok: "ok_or e a = Ok x \<longleftrightarrow> a = Some x"
  by (cases a) simp_all

text \<open>\<open>if cond { return Err(e); }\<close>\<close>

definition ensure :: "bool \<Rightarrow> 'e \<Rightarrow> (unit, 'e) result" where
  "ensure b e = (if b then Ok () else Err e)"

lemma ensure_Ok: "ensure b e = Ok u \<longleftrightarrow> b"
  by (simp add: ensure_def)

lemma ensure_simps [simp]: "ensure True e = Ok ()" "ensure False e = Err e"
  by (simp_all add: ensure_def)

section \<open>Byte strings\<close>

definition starts_with :: "string \<Rightarrow> string \<Rightarrow> bool" where
  "starts_with s p = (take (length p) s = p)"

definition ends_with :: "string \<Rightarrow> string \<Rightarrow> bool" where
  "ends_with s p = starts_with (rev s) (rev p)"

definition strip_prefix :: "string \<Rightarrow> string \<Rightarrow> string option" where
  "strip_prefix s p = (if starts_with s p then Some (drop (length p) s) else None)"

definition strip_suffix :: "string \<Rightarrow> string \<Rightarrow> string option" where
  "strip_suffix s p = (if ends_with s p then Some (take (length s - length p) s) else None)"

lemma starts_with_prefix: "starts_with s p \<longleftrightarrow> prefix p s"
  unfolding starts_with_def by (metis append_eq_conv_conj prefix_def)

lemma ends_with_suffix: "ends_with s p \<longleftrightarrow> suffix p s"
  by (simp add: ends_with_def starts_with_prefix suffix_to_prefix)

lemma starts_with_append [rust_simps]: "starts_with (p @ s) p"
  by (simp add: starts_with_def)

lemma ends_with_append [rust_simps]: "ends_with (s @ p) p"
  by (simp add: ends_with_def starts_with_def)

lemma ends_withE:
  assumes "ends_with s p"
  obtains r where "s = r @ p"
  using assms by (auto simp: ends_with_suffix suffix_def)

text \<open>\<open>str::trim_end_matches(c)\<close> and \<open>str::trim_start_matches(c)\<close> for one character.\<close>

definition trim_start_matches :: "char \<Rightarrow> string \<Rightarrow> string" where
  "trim_start_matches c s = dropWhile (\<lambda>x. x = c) s"

definition trim_end_matches :: "char \<Rightarrow> string \<Rightarrow> string" where
  "trim_end_matches c s = rev (dropWhile (\<lambda>x. x = c) (rev s))"

definition to_ascii_lowercase_byte :: "char \<Rightarrow> char" where
  "to_ascii_lowercase_byte c =
     (if 65 \<le> (of_char c :: nat) \<and> (of_char c :: nat) \<le> 90 then char_of ((of_char c :: nat) + 32) else c)"

definition to_ascii_lowercase :: "string \<Rightarrow> string" where
  "to_ascii_lowercase s = map to_ascii_lowercase_byte s"

text \<open>\<open>u8::is_ascii_whitespace\<close>: space, tab, line feed, form feed, carriage return.\<close>

definition is_ascii_whitespace :: "char \<Rightarrow> bool" where
  "is_ascii_whitespace c = (let n = (of_char c :: nat) in n = 32 \<or> n = 9 \<or> n = 10 \<or> n = 12 \<or> n = 13)"

definition is_ascii_alphanumeric :: "char \<Rightarrow> bool" where
  "is_ascii_alphanumeric c = (let n = (of_char c :: nat) in
     (48 \<le> n \<and> n \<le> 57) \<or> (65 \<le> n \<and> n \<le> 90) \<or> (97 \<le> n \<and> n \<le> 122))"

subsection \<open>\<open>str::trim\<close>\<close>

text \<open>
  \<open>trim\<close> removes Unicode White\_Space at both ends. \<open>ws_len\<close> is the number of bytes of the
  white-space character the string starts with (0 when it starts with none), on the UTF-8
  encoding: U+0009--U+000D, U+0020, U+0085, U+00A0, U+1680, U+2000--U+200A, U+2028,
  U+2029, U+202F, U+205F, U+3000. \<open>ws_len_rev\<close> is the same for the last character, on the
  reversed string.
\<close>

definition ws3 :: "nat \<Rightarrow> nat \<Rightarrow> nat \<Rightarrow> bool" where
  "ws3 a b c \<longleftrightarrow>
     (a = 225 \<and> b = 154 \<and> c = 128) \<or>
     (a = 226 \<and> b = 128 \<and> (128 \<le> c \<and> c \<le> 138 \<or> c = 168 \<or> c = 169 \<or> c = 175)) \<or>
     (a = 226 \<and> b = 129 \<and> c = 159) \<or>
     (a = 227 \<and> b = 128 \<and> c = 128)"

definition ws1 :: "nat \<Rightarrow> bool" where
  "ws1 a \<longleftrightarrow> 9 \<le> a \<and> a \<le> 13 \<or> a = 32"

definition ws2 :: "nat \<Rightarrow> nat \<Rightarrow> bool" where
  "ws2 a b \<longleftrightarrow> a = 194 \<and> (b = 133 \<or> b = 160)"

fun ws_len :: "string \<Rightarrow> nat" where
  "ws_len (a # b # c # r) =
     (if ws1 (of_char a) then 1 else if ws2 (of_char a) (of_char b) then 2
      else if ws3 (of_char a) (of_char b) (of_char c) then 3 else 0)"
| "ws_len [a, b] = (if ws1 (of_char a) then 1 else if ws2 (of_char a) (of_char b) then 2 else 0)"
| "ws_len [a] = (if ws1 (of_char a) then 1 else 0)"
| "ws_len [] = 0"

fun ws_len_rev :: "string \<Rightarrow> nat" where
  "ws_len_rev (c # b # a # r) =
     (if ws1 (of_char c) then 1 else if ws2 (of_char b) (of_char c) then 2
      else if ws3 (of_char a) (of_char b) (of_char c) then 3 else 0)"
| "ws_len_rev [c, b] = (if ws1 (of_char c) then 1 else if ws2 (of_char b) (of_char c) then 2 else 0)"
| "ws_len_rev [c] = (if ws1 (of_char c) then 1 else 0)"
| "ws_len_rev [] = 0"

lemma ws_len_nonempty: "0 < ws_len s \<Longrightarrow> s \<noteq> []"
  by auto

lemma ws_len_rev_nonempty: "0 < ws_len_rev s \<Longrightarrow> s \<noteq> []"
  by auto

function trim_start :: "string \<Rightarrow> string" where
  "trim_start s = (if 0 < ws_len s then trim_start (drop (ws_len s) s) else s)"
  by pat_completeness auto
termination
  by (relation "measure length") (auto intro!: diff_less dest: ws_len_nonempty)

function trim_rev :: "string \<Rightarrow> string" where
  "trim_rev s = (if 0 < ws_len_rev s then trim_rev (drop (ws_len_rev s) s) else s)"
  by pat_completeness auto
termination
  by (relation "measure length") (auto intro!: diff_less dest: ws_len_rev_nonempty)

declare trim_start.simps [simp del] trim_rev.simps [simp del]

definition trim_end :: "string \<Rightarrow> string" where
  "trim_end s = rev (trim_rev (rev s))"

definition trim :: "string \<Rightarrow> string" where
  "trim s = trim_end (trim_start s)"

lemma trim_start_none: "ws_len s = 0 \<Longrightarrow> trim_start s = s"
  by (simp add: trim_start.simps)

lemma trim_rev_none: "ws_len_rev s = 0 \<Longrightarrow> trim_rev s = s"
  by (simp add: trim_rev.simps)

lemma ws_len_trim_start [simp]: "ws_len (trim_start s) = 0"
proof (induction s rule: trim_start.induct)
  case (1 s)
  then show ?case by (cases "0 < ws_len s") (simp_all add: trim_start.simps [of s])
qed

lemma ws_len_rev_trim_rev [simp]: "ws_len_rev (trim_rev s) = 0"
proof (induction s rule: trim_rev.induct)
  case (1 s)
  then show ?case by (cases "0 < ws_len_rev s") (simp_all add: trim_rev.simps [of s])
qed

lemma suffix_trim_rev: "suffix (trim_rev s) s"
proof (induction s rule: trim_rev.induct)
  case (1 s)
  then show ?case
    by (cases "0 < ws_len_rev s") (auto simp: trim_rev.simps [of s] intro: suffix_order.trans suffix_drop)
qed

lemma prefix_trim_end: "prefix (trim_end s) s"
  using suffix_trim_rev [of "rev s"] by (simp add: trim_end_def suffix_to_prefix)

lemma ws_len_append: "0 < ws_len s \<Longrightarrow> 0 < ws_len (s @ t)"
  by (induction s rule: ws_len.induct; cases t; cases "tl t") (auto split: if_splits)

lemma trim_idem [rust_simps]: "trim (trim s) = trim s"
proof -
  obtain t where t: "trim_start s = trim s @ t"
    using prefix_trim_end [of "trim_start s"] by (auto simp: trim_def prefix_def)
  have "ws_len (trim s) = 0"
    using ws_len_append [of "trim s" t] ws_len_trim_start [of s] by (auto simp: t)
  moreover have "trim_rev (rev (trim s)) = rev (trim s)"
    by (simp add: trim_def trim_end_def trim_rev_none)
  ultimately show ?thesis
    by (metis rev_rev_ident trim_def trim_end_def trim_start_none)
qed

subsection \<open>\<open>String::from_utf8_lossy\<close>\<close>

text \<open>
  The length of the next well-formed character, or of the maximal ill-formed part that is
  replaced by U+FFFD, with a flag that tells which of the two it is.
\<close>

definition utf8_cont :: "char \<Rightarrow> bool" where
  "utf8_cont b \<longleftrightarrow> 128 \<le> (of_char b :: nat) \<and> (of_char b :: nat) \<le> 191"

definition utf8_second :: "nat \<Rightarrow> char \<Rightarrow> bool" where
  "utf8_second n b \<longleftrightarrow> (let m = (of_char b :: nat) in
     if n = 224 then 160 \<le> m \<and> m \<le> 191
     else if n = 237 then 128 \<le> m \<and> m \<le> 159
     else if n = 240 then 144 \<le> m \<and> m \<le> 191
     else if n = 244 then 128 \<le> m \<and> m \<le> 143
     else 128 \<le> m \<and> m \<le> 191)"

fun utf8_step :: "string \<Rightarrow> nat \<times> bool" where
  "utf8_step [] = (1, False)"
| "utf8_step (a # r) =
     (let n = (of_char a :: nat) in
      if n < 128 then (1, True)
      else if 194 \<le> n \<and> n \<le> 223 then
        (case r of b # _ \<Rightarrow> if utf8_cont b then (2, True) else (1, False) | [] \<Rightarrow> (1, False))
      else if 224 \<le> n \<and> n \<le> 239 then
        (case r of [] \<Rightarrow> (1, False)
         | b # r' \<Rightarrow> if \<not> utf8_second n b then (1, False)
           else (case r' of [] \<Rightarrow> (2, False)
                 | c # _ \<Rightarrow> if utf8_cont c then (3, True) else (2, False)))
      else if 240 \<le> n \<and> n \<le> 244 then
        (case r of [] \<Rightarrow> (1, False)
         | b # r' \<Rightarrow> if \<not> utf8_second n b then (1, False)
           else (case r' of [] \<Rightarrow> (2, False)
                 | c # r'' \<Rightarrow> if \<not> utf8_cont c then (2, False)
                   else (case r'' of [] \<Rightarrow> (3, False)
                         | d # _ \<Rightarrow> if utf8_cont d then (4, True) else (3, False))))
      else (1, False))"

lemma utf8_step_pos: "0 < fst (utf8_step s)"
  by (cases s) (auto simp: Let_def split: list.splits)

definition replacement_char :: string where
  "replacement_char = [char_of (239::nat), char_of (191::nat), char_of (189::nat)]"

function from_utf8_lossy :: "string \<Rightarrow> string" where
  "from_utf8_lossy s =
     (if s = [] then []
      else (if snd (utf8_step s) then take (fst (utf8_step s)) s else replacement_char)
           @ from_utf8_lossy (drop (fst (utf8_step s)) s))"
  by pat_completeness auto
termination
  by (relation "measure length") (auto simp: utf8_step_pos)

declare from_utf8_lossy.simps [simp del]

definition is_ascii :: "string \<Rightarrow> bool" where
  "is_ascii s = list_all (\<lambda>c. (of_char c :: nat) < 128) s"

lemma from_utf8_lossy_Nil [simp]: "from_utf8_lossy [] = []"
  by (simp add: from_utf8_lossy.simps)

lemma from_utf8_lossy_ascii [rust_simps]: "is_ascii s \<Longrightarrow> from_utf8_lossy s = s"
proof (induction s)
  case (Cons a s)
  then show ?case by (simp add: from_utf8_lossy.simps [of "a # s"] is_ascii_def)
qed simp

text \<open>\<open>str::from_utf8(s).is_ok()\<close>\<close>

function is_utf8 :: "string \<Rightarrow> bool" where
  "is_utf8 s = (if s = [] then True else snd (utf8_step s) \<and> is_utf8 (drop (fst (utf8_step s)) s))"
  by pat_completeness auto
termination
  by (relation "measure length") (auto simp: utf8_step_pos)

declare is_utf8.simps [simp del]

lemma is_utf8_ascii [rust_simps]: "is_ascii s \<Longrightarrow> is_utf8 s"
proof (induction s)
  case Nil
  then show ?case by (simp add: is_utf8.simps)
next
  case (Cons a s)
  then show ?case by (simp add: is_utf8.simps [of "a # s"] is_ascii_def)
qed

subsection \<open>\<open>str::split\<close>\<close>

fun split_on :: "char \<Rightarrow> string \<Rightarrow> string list" where
  "split_on c [] = [[]]"
| "split_on c (x # xs) = (if x = c then [] # split_on c xs else (case split_on c xs of y # ys \<Rightarrow> (x # y) # ys | [] \<Rightarrow> [[x]]))"

lemma split_on_not_empty [simp]: "split_on c s \<noteq> []"
  by (induction s) (auto split: list.splits)

lemma split_on_none: "c \<notin> set s \<Longrightarrow> split_on c s = [s]"
  by (induction s) auto

lemma split_on_append: "c \<notin> set s \<Longrightarrow> split_on c (s @ c # t) = s # split_on c t"
  by (induction s) auto

text \<open>A string that begins and ends with visible ASCII characters is not changed by \<open>trim\<close>.\<close>

definition visible :: "char \<Rightarrow> bool" where
  "visible c \<longleftrightarrow> 33 \<le> (of_char c :: nat) \<and> (of_char c :: nat) < 128"

lemma ws_len_visible: "visible c \<Longrightarrow> ws_len (c # s) = 0" "visible c \<Longrightarrow> ws_len_rev (c # s) = 0"
  by (cases "c # s" rule: ws_len.cases; force simp: visible_def ws1_def ws2_def ws3_def)
     (cases "c # s" rule: ws_len_rev.cases; force simp: visible_def ws1_def ws2_def ws3_def)

lemma trim_visible: "s \<noteq> [] \<Longrightarrow> visible (hd s) \<Longrightarrow> visible (last s) \<Longrightarrow> trim s = s"
proof -
  assume s: "s \<noteq> []" "visible (hd s)" "visible (last s)"
  then have "ws_len s = 0" using ws_len_visible(1) [of "hd s" "tl s"] by simp
  moreover have "ws_len_rev (rev s) = 0"
    using s ws_len_visible(2) [of "last s" "rev (butlast s)"] by (metis append_butlast_last_id rev_eq_Cons_iff rev_rev_ident)
  ultimately show ?thesis by (simp add: trim_def trim_end_def trim_start_none trim_rev_none)
qed

section \<open>Hash maps\<close>

text \<open>
  A \<open>HashMap\<close> is the association list of its entries in iteration order, which Rust leaves
  unspecified: a definition that iterates takes the order from the list, and a theorem
  quantifies over every list, hence over every order. Keys are pairwise distinct in
  a well-formed map.
\<close>

type_synonym ('k, 'v) hmap = "('k \<times> 'v) list"

abbreviation hget :: "('k, 'v) hmap \<Rightarrow> 'k \<Rightarrow> 'v option" where
  "hget m k \<equiv> map_of m k"

definition hmap_ok :: "('k, 'v) hmap \<Rightarrow> bool" where
  "hmap_ok m = distinct (map fst m)"

fun hinsert :: "'k \<Rightarrow> 'v \<Rightarrow> ('k, 'v) hmap \<Rightarrow> ('k, 'v) hmap" where
  "hinsert k v [] = [(k, v)]"
| "hinsert k v ((a, b) # m) = (if a = k then (k, v) # m else (a, b) # hinsert k v m)"

definition hremove :: "'k \<Rightarrow> ('k, 'v) hmap \<Rightarrow> ('k, 'v) hmap" where
  "hremove k m = filter (\<lambda>p. fst p \<noteq> k) m"

lemma hget_hinsert [simp]: "hget (hinsert k v m) x = (if x = k then Some v else hget m x)"
  by (induction k v m rule: hinsert.induct) auto

lemma hget_hremove [simp]: "hget (hremove k m) x = (if x = k then None else hget m x)"
  unfolding hremove_def by (induction m) auto

lemma keys_hinsert: "set (map fst (hinsert k v m)) = insert k (set (map fst m))"
  by (induction k v m rule: hinsert.induct) auto

lemma hmap_ok_hinsert [simp]: "hmap_ok m \<Longrightarrow> hmap_ok (hinsert k v m)"
  unfolding hmap_ok_def
  by (induction k v m rule: hinsert.induct) (auto simp: keys_hinsert [simplified])

lemma hmap_ok_hremove [simp]: "hmap_ok m \<Longrightarrow> hmap_ok (hremove k m)"
  unfolding hmap_ok_def hremove_def by (induction m) auto

lemma hget_set: "hget m k = Some v \<Longrightarrow> (k, v) \<in> set m"
  by (rule map_of_SomeD)

lemma hget_iff: "hmap_ok m \<Longrightarrow> hget m k = Some v \<longleftrightarrow> (k, v) \<in> set m"
  by (simp add: hmap_ok_def)

section \<open>Ordered maps\<close>

text \<open>A \<open>BTreeMap\<close> is the association list of its entries in ascending key order.\<close>

type_synonym ('k, 'v) bmap = "('k \<times> 'v) list"

fun binsert :: "'k::linorder \<Rightarrow> 'v \<Rightarrow> ('k, 'v) bmap \<Rightarrow> ('k, 'v) bmap" where
  "binsert k v [] = [(k, v)]"
| "binsert k v ((a, b) # m) =
     (if k < a then (k, v) # (a, b) # m else if k = a then (k, v) # m else (a, b) # binsert k v m)"

definition bmap_ok :: "('k::linorder, 'v) bmap \<Rightarrow> bool" where
  "bmap_ok m = sorted_wrt (<) (map fst m)"

lemma bget_binsert [simp]: "map_of (binsert k v m) x = (if x = k then Some v else map_of m x)"
  by (induction k v m rule: binsert.induct) auto

lemma keys_binsert: "fst ` set (binsert k v m) = insert k (fst ` set m)"
  by (induction k v m rule: binsert.induct) auto

lemma bmap_ok_Nil [simp]: "bmap_ok []"
  by (simp add: bmap_ok_def)

lemma bmap_ok_binsert [simp]: "bmap_ok m \<Longrightarrow> bmap_ok (binsert k v m)"
  unfolding bmap_ok_def
proof (induction k v m rule: binsert.induct)
  case (2 k v a b m)
  then show ?case by (auto simp: keys_binsert dest: less_trans)
qed simp

lemma bmap_ok_distinct: "bmap_ok m \<Longrightarrow> distinct (map fst m)"
  unfolding bmap_ok_def by (simp add: strict_sorted_iff)

lemma binsert_set:
  assumes "bmap_ok m"
  shows "set (binsert k v m) = insert (k, v) {p \<in> set m. fst p \<noteq> k}"
proof -
  have d: "distinct (map fst m)" "distinct (map fst (binsert k v m))"
    using assms by (simp_all add: bmap_ok_distinct)
  have "p \<in> set (binsert k v m) \<longleftrightarrow> p \<in> insert (k, v) {p \<in> set m. fst p \<noteq> k}" for p
    using map_of_eq_Some_iff [OF d(1), of "fst p" "snd p"]
      map_of_eq_Some_iff [OF d(2), of "fst p" "snd p"] by (cases p) (auto split: if_splits)
  then show ?thesis by blast
qed

section \<open>Durations and fixed-width integers\<close>

text \<open>
  A \<open>std::time::Duration\<close> is its number of nanoseconds; an \<open>Instant\<close> or a UTC timestamp is a
  number of nanoseconds on its time line.
\<close>

type_synonym duration = nat
type_synonym u8 = "8 word"
type_synonym u32 = "32 word"
type_synonym u64 = "64 word"
type_synonym i32 = "32 word"
type_synonym i64 = "64 word"
type_synonym usize = "64 word"

definition duration_from_millis :: "nat \<Rightarrow> duration" where
  "duration_from_millis n = n * 1000000"

definition duration_from_secs :: "nat \<Rightarrow> duration" where
  "duration_from_secs n = n * 1000000000"

definition as_millis :: "duration \<Rightarrow> nat" where
  "as_millis d = d div 1000000"

lemma as_millis_le: "duration_from_millis (as_millis d) \<le> d"
  by (simp add: duration_from_millis_def as_millis_def)

lemma as_millis_from_millis [rust_simps]: "as_millis (duration_from_millis n) = n"
  by (simp add: as_millis_def duration_from_millis_def)

text \<open>\<open>Instant::checked_add\<close>: \<open>None\<close> when the instant would leave the 63-bit second range.\<close>

definition instant_checked_add :: "nat \<Rightarrow> duration \<Rightarrow> nat option" where
  "instant_checked_add t d = (if t + d < 2 ^ 63 * 1000000000 then Some (t + d) else None)"

definition saturating_add :: "'a::len word \<Rightarrow> 'a word \<Rightarrow> 'a word" where
  "saturating_add a b = (if unat a + unat b < 2 ^ LENGTH('a) then a + b else - 1)"

lemma unat_saturating_add:
  "unat (saturating_add a b) = min (unat a + unat b) (2 ^ LENGTH('a) - 1)" for a :: "'a::len word"
proof (cases "unat a + unat b < 2 ^ LENGTH('a)")
  case True
  then show ?thesis by (simp add: saturating_add_def unat_word_ariths)
next
  case False
  then have "saturating_add a b = - 1" by (simp add: saturating_add_def)
  moreover have "unat (- 1 :: 'a word) = 2 ^ LENGTH('a) - 1"
    by (simp add: unsigned_minus_1_eq_mask mask_eq_exp_minus_1)
  ultimately show ?thesis using False by simp
qed

definition i64_max :: int where
  "i64_max = 2 ^ 63 - 1"

section \<open>Decimal numerals\<close>

text \<open>\<open>format!("{n}")\<close> of an unsigned number.\<close>

definition digit_char :: "nat \<Rightarrow> char" where
  "digit_char d = char_of (48 + d)"

fun show_nat :: "nat \<Rightarrow> string" where
  "show_nat n = (if n < 10 then [digit_char n] else show_nat (n div 10) @ [digit_char (n mod 10)])"

declare show_nat.simps [simp del]

text \<open>\<open>str::parse::<u64>\<close>: an optional plus sign and at least one decimal digit, within 64 bits.\<close>

fun parse_digits :: "nat \<Rightarrow> string \<Rightarrow> nat option" where
  "parse_digits acc [] = Some acc"
| "parse_digits acc (c # cs) =
     (let n = (of_char c :: nat) in
      if 48 \<le> n \<and> n \<le> 57 then parse_digits (acc * 10 + (n - 48)) cs else None)"

definition parse_unsigned :: "nat \<Rightarrow> string \<Rightarrow> nat option" where
  "parse_unsigned bits s =
     (let ds = (if starts_with s ''+'' then tl s else s) in
      if ds = [] then None
      else case parse_digits 0 ds of None \<Rightarrow> None
           | Some n \<Rightarrow> if n < 2 ^ bits then Some n else None)"

lemma parse_digits_append:
  "parse_digits acc (xs @ ys) = (case parse_digits acc xs of None \<Rightarrow> None | Some n \<Rightarrow> parse_digits n ys)"
  by (induction acc xs rule: parse_digits.induct) (auto simp: Let_def)

lemma of_char_digit: "d < 10 \<Longrightarrow> (of_char (digit_char d) :: nat) = 48 + d"
  by (simp add: digit_char_def)

lemma parse_show_nat: "parse_digits 0 (show_nat n) = Some n"
proof (induction n rule: show_nat.induct)
  case (1 n)
  then show ?case
    by (cases "n < 10") (simp_all add: show_nat.simps [of n] parse_digits_append of_char_digit)
qed

lemma show_nat_inj: "show_nat m = show_nat n \<Longrightarrow> m = n"
  by (metis option.inject parse_show_nat)

lemma show_nat_digits: "c \<in> set (show_nat n) \<Longrightarrow> 48 \<le> (of_char c :: nat) \<and> (of_char c :: nat) \<le> 57"
proof (induction n rule: show_nat.induct)
  case (1 n)
  then show ?case
    by (cases "n < 10") (auto simp: show_nat.simps [of n] of_char_digit)
qed

text \<open>\<open>'{name}'\<close> in a format string.\<close>

definition quoted :: "string \<Rightarrow> string" where
  "quoted s = CHR 0x27 # s @ [CHR 0x27]"

section \<open>Lists\<close>

text \<open>\<open>Iterator::enumerate\<close>.\<close>

definition enumerate0 :: "'a list \<Rightarrow> (nat \<times> 'a) list" where
  "enumerate0 xs = zip [0..<length xs] xs"

lemma set_enumerate0: "set (enumerate0 xs) = {(i, xs ! i) | i. i < length xs}"
  by (auto simp: enumerate0_def set_zip intro!: exI)

lemma map_snd_enumerate0 [simp]: "map snd (enumerate0 xs) = xs"
  by (simp add: enumerate0_def)

lemma find_Some_iff_first:
  "List.find P xs = Some x \<longleftrightarrow>
   (\<exists>us vs. xs = us @ x # vs \<and> P x \<and> (\<forall>u \<in> set us. \<not> P u))"
proof
  assume "List.find P xs = Some x"
  then show "\<exists>us vs. xs = us @ x # vs \<and> P x \<and> (\<forall>u \<in> set us. \<not> P u)"
  proof (induction xs)
    case (Cons a xs)
    show ?case
    proof (cases "P a")
      case True
      with Cons.prems show ?thesis by (auto intro: exI [of _ "[]"])
    next
      case False
      with Cons obtain us vs where "xs = us @ x # vs" "P x" "\<forall>u \<in> set us. \<not> P u" by auto
      then have "a # xs = (a # us) @ x # vs \<and> P x \<and> (\<forall>u \<in> set (a # us). \<not> P u)"
        using False by simp
      then show ?thesis by blast
    qed
  qed simp
next
  assume "\<exists>us vs. xs = us @ x # vs \<and> P x \<and> (\<forall>u \<in> set us. \<not> P u)"
  then obtain us vs where "xs = us @ x # vs" "P x" "\<forall>u \<in> set us. \<not> P u" by blast
  then show "List.find P xs = Some x" by (induction us arbitrary: xs) auto
qed

lemma find_NoneD: "List.find P xs = None \<Longrightarrow> x \<in> set xs \<Longrightarrow> \<not> P x"
  by (auto simp: find_None_iff)

end
