(* ===== verification/Breaker_Spec.thy ===== *)
theory Breaker_Spec
  imports Gateway_Prelude
begin

text \<open>
  The contract of the account circuit breaker, which the program implements twice: on the
  in-memory state of \<open>src/infra/health.rs\<close> and on the database row of
  \<open>src/infra/db/health.rs\<close>. The abstract breaker is the triple (cooldown end, failure count,
  start of the failure window); an implementation refines it through its \<open>core\<close> projection.
  Times are nanoseconds since the epoch (\<^typ>\<open>int\<close>), durations nanoseconds (\<^typ>\<open>nat\<close>).
\<close>

record breaker =
  br_cooldown_until :: "int option"
  br_failures :: nat
  br_window_start :: "int option"

definition breaker_reset :: breaker where
  "breaker_reset = \<lparr>br_cooldown_until = None, br_failures = 0, br_window_start = None\<rparr>"

definition cooldown_active :: "int \<Rightarrow> int option \<Rightarrow> bool" where
  "cooldown_active now until = (case until of None \<Rightarrow> False | Some u \<Rightarrow> now < u)"

text \<open>
  \<open>signed_duration_since(started).to_std()\<close> fails on a negative difference, and then the window
  counts as expired.
\<close>

definition window_expired :: "nat \<Rightarrow> int \<Rightarrow> int option \<Rightarrow> bool" where
  "window_expired window now started =
     (case started of None \<Rightarrow> True | Some s \<Rightarrow> now < s \<or> int window < now - s)"

text \<open>
  One counted failure: a failure inside an active cooldown changes nothing, otherwise it opens
  or continues the window, and from the threshold on starts a cooldown of \<open>delay k\<close> where \<open>k\<close>
  counts the failures since the threshold. The count is taken up to \<open>count_cap\<close> and stored up
  to \<open>cap\<close> (the two differ in the database, which counts in \<open>u32\<close> and stores \<open>i32\<close>).
\<close>

definition breaker_fail ::
  "(nat \<Rightarrow> nat) \<Rightarrow> nat \<Rightarrow> nat \<Rightarrow> nat \<Rightarrow> nat \<Rightarrow> int \<Rightarrow> breaker \<Rightarrow> breaker \<times> bool" where
  "breaker_fail delay window threshold count_cap cap now b =
     (if cooldown_active now (br_cooldown_until b) then (b, False)
      else let expired = window_expired window now (br_window_start b);
               failures = (if expired then 1 else min (br_failures b + 1) count_cap);
               start = (if expired then Some now else br_window_start b)
           in if threshold \<le> failures
              then (\<lparr>br_cooldown_until = Some (now + int (delay (failures - threshold + 1))),
                     br_failures = min failures cap, br_window_start = start\<rparr>, True)
              else (\<lparr>br_cooldown_until = None, br_failures = min failures cap, br_window_start = start\<rparr>, False))"

section \<open>Backoff schedules\<close>

text \<open>A delay schedule that starts at most at \<open>base\<close>, at most doubles, and is capped.\<close>

locale backoff_schedule =
  fixes delay :: "nat \<Rightarrow> nat" and base maximum :: nat
  assumes delay_one: "delay 1 \<le> base"
    and delay_mono: "1 \<le> k \<Longrightarrow> delay k \<le> delay (Suc k)"
    and delay_double: "1 \<le> k \<Longrightarrow> delay (Suc k) \<le> 2 * delay k"
    and delay_max: "delay k \<le> maximum"

section \<open>Implementations\<close>

text \<open>
  An implementation keeps its breaker in a state of its own; \<open>live\<close> are the states in which
  observations count (a disabled account's row is left alone).
\<close>

locale breaker_impl = backoff_schedule +
  fixes window threshold count_cap cap :: nat
    and core :: "'s \<Rightarrow> breaker"
    and live :: "'s \<Rightarrow> bool"
    and fail :: "'e \<Rightarrow> int \<Rightarrow> 's \<Rightarrow> 's \<times> bool"
    and succeed :: "'e \<Rightarrow> int \<Rightarrow> 's \<Rightarrow> 's"
  assumes threshold_pos: "1 \<le> threshold"
    and cap_threshold: "threshold \<le> cap"
    and cap_count: "cap \<le> count_cap"
    and fail_refines: "live s \<Longrightarrow> br_failures (core s) \<le> cap \<Longrightarrow>
      (core (fst (fail e now s)), snd (fail e now s)) = breaker_fail delay window threshold count_cap cap now (core s)"
    and succeed_resets: "live s \<Longrightarrow> core (succeed e now s) = breaker_reset"
    and fail_live: "live (fst (fail e now s)) = live s"
    and succeed_live: "live (succeed e now s) = live s"
    and dead_unchanged: "\<not> live s \<Longrightarrow> fail e now s = (s, False) \<and> succeed e now s = s"

datatype 'e breaker_event = Fail 'e int | Succeed 'e int

text \<open>
  A history of observations applied to a state, with the lengths of the cooldowns it started.
\<close>

fun breaker_run ::
  "('s \<Rightarrow> breaker) \<Rightarrow> ('e \<Rightarrow> int \<Rightarrow> 's \<Rightarrow> 's \<times> bool) \<Rightarrow> ('e \<Rightarrow> int \<Rightarrow> 's \<Rightarrow> 's)
   \<Rightarrow> 'e breaker_event list \<Rightarrow> 's \<Rightarrow> 's \<times> int list" where
  "breaker_run core fail succeed [] s = (s, [])"
| "breaker_run core fail succeed (Succeed e now # evs) s =
     breaker_run core fail succeed evs (succeed e now s)"
| "breaker_run core fail succeed (Fail e now # evs) s =
     (let (s', started) = fail e now s;
          (s'', ds) = breaker_run core fail succeed evs s'
      in (s'', if started then (the (br_cooldown_until (core s')) - now) # ds else ds))"

section \<open>Facts about the abstract breaker\<close>

definition breaker_inv :: "(nat \<Rightarrow> nat) \<Rightarrow> nat \<Rightarrow> nat \<Rightarrow> nat \<Rightarrow> breaker \<Rightarrow> bool" where
  "breaker_inv delay base threshold cap b \<longleftrightarrow>
     br_failures b \<le> cap \<and>
     (br_failures b < threshold \<longrightarrow> br_cooldown_until b = None) \<and>
     (threshold \<le> br_failures b \<longrightarrow>
        (\<exists>u w. br_cooldown_until b = Some u \<and> br_window_start b = Some w \<and> w \<le> u \<and>
           int (delay (br_failures b - threshold + 2)) \<le> u - w + int base))"

lemma breaker_inv_reset: "1 \<le> threshold \<Longrightarrow> breaker_inv delay base threshold cap breaker_reset"
  by (simp add: breaker_inv_def breaker_reset_def)

context backoff_schedule
begin

lemma delay_le:
  assumes "1 \<le> k" "k \<le> l"
  shows "delay k \<le> delay l"
  using assms(2)
proof (induction l rule: dec_induct)
  case (step n)
  with delay_mono [of n] assms(1) show ?case by simp
qed simp

lemma delay_two: "delay 2 \<le> delay 1 + base"
  using delay_double [of 1] delay_one by (simp add: numeral_2_eq_2)

lemma breaker_fail_expired:
  assumes "\<not> cooldown_active now (br_cooldown_until b)" "window_expired window now (br_window_start b)"
    and "1 \<le> threshold" "threshold \<le> cap" "cap \<le> count_cap" "breaker_fail delay window threshold count_cap cap now b = (b', started)"
  shows "breaker_inv delay base threshold cap b' \<and>
    (started \<longrightarrow> the (br_cooldown_until b') - now \<le> int base)"
  using assms delay_one delay_two
  by (auto simp: breaker_fail_def Let_def breaker_inv_def numeral_2_eq_2 split: if_splits)

lemma breaker_fail_counted:
  assumes inv: "breaker_inv delay base threshold cap b"
    and quiet: "\<not> cooldown_active now (br_cooldown_until b)"
    and open_: "\<not> window_expired window now (br_window_start b)"
    and t: "1 \<le> threshold" "threshold \<le> cap" "cap \<le> count_cap"
    and fail: "breaker_fail delay window threshold count_cap cap now b = (b', started)"
  shows "breaker_inv delay base threshold cap b' \<and>
    (started \<longrightarrow> the (br_cooldown_until b') - now \<le> int (base + window))"
proof -
  let ?n = "min (br_failures b + 1) count_cap"
  from open_ obtain w where w: "br_window_start b = Some w" "w \<le> now" "now - w \<le> int window"
    by (auto simp: window_expired_def split: option.splits)
  show ?thesis
  proof (cases "threshold \<le> ?n")
    case False
    with fail quiet open_ t show ?thesis by (auto simp: breaker_fail_def Let_def breaker_inv_def)
  next
    case True
    let ?d = "delay (?n - threshold + 1)"
    have b': "b' = \<lparr>br_cooldown_until = Some (now + int ?d), br_failures = min ?n cap, br_window_start = Some w\<rparr>"
      using fail quiet open_ w True by (simp add: breaker_fail_def Let_def)
    have d: "int ?d \<le> now - w + int base"
    proof (cases "threshold \<le> br_failures b")
      case True
      with inv obtain u where u: "br_cooldown_until b = Some u"
        "int (delay (br_failures b - threshold + 2)) \<le> u - w + int base"
        using w(1) by (auto simp: breaker_inv_def)
      from quiet u(1) have "u \<le> now" by (simp add: cooldown_active_def)
      moreover have "?d \<le> delay (br_failures b - threshold + 2)"
        using delay_le [of "?n - threshold + 1" "br_failures b - threshold + 2"] True by linarith
      ultimately show ?thesis using u(2) by linarith
    next
      case False
      with True have "?n - threshold + 1 = 1" by auto
      with delay_one w(2) show ?thesis by simp
    qed
    moreover have "delay (min ?n cap - threshold + 2) \<le> 2 * ?d"
    proof -
      have "delay (min ?n cap - threshold + 2) \<le> delay (?n - threshold + 2)" by (rule delay_le) auto
      also have "\<dots> \<le> 2 * ?d" using delay_double [of "?n - threshold + 1"] by (simp add: numeral_2_eq_2)
      finally show ?thesis .
    qed
    ultimately have "breaker_inv delay base threshold cap b'"
      using True w(2) t(2) by (simp add: b' breaker_inv_def) linarith
    with d w(3) show ?thesis by (simp add: b')
  qed
qed

end

section \<open>Facts about every implementation\<close>

context breaker_impl
begin

lemma fail_step:
  assumes "live s" "breaker_inv delay base threshold cap (core s)" "fail e now s = (s', started)"
  shows "live s' \<and> breaker_inv delay base threshold cap (core s') \<and>
    (started \<longrightarrow> the (br_cooldown_until (core s')) - now \<le> int (base + window))"
proof -
  from assms(2) have "br_failures (core s) \<le> cap" by (simp add: breaker_inv_def)
  with assms(1,3) fail_refines [of s e now]
  have step: "breaker_fail delay window threshold count_cap cap now (core s) = (core s', started)" by simp
  from assms(1,3) have l: "live s'" using fail_live [of e now s] by simp
  consider "cooldown_active now (br_cooldown_until (core s))"
    | "\<not> cooldown_active now (br_cooldown_until (core s))" "window_expired window now (br_window_start (core s))"
    | "\<not> cooldown_active now (br_cooldown_until (core s))" "\<not> window_expired window now (br_window_start (core s))"
    by blast
  then show ?thesis
  proof cases
    case 1
    with step have "core s' = core s" "\<not> started" by (auto simp: breaker_fail_def)
    with l assms(2) show ?thesis by simp
  next
    case 2
    with breaker_fail_expired [OF 2 threshold_pos cap_threshold cap_count step] l show ?thesis by auto
  next
    case 3
    with breaker_fail_counted [OF assms(2) 3 threshold_pos cap_threshold cap_count step] l show ?thesis by auto
  qed
qed

lemma run_bounded:
  assumes "breaker_inv delay base threshold cap (core s)" "breaker_run core fail succeed evs s = (s', ds)"
  shows "\<forall>d \<in> set ds. d \<le> int (base + window)"
  using assms
proof (induction evs arbitrary: s s' ds)
  case (Cons ev evs)
  show ?case
  proof (cases ev)
    case (Succeed e now)
    have "breaker_inv delay base threshold cap (core (succeed e now s))"
      using Cons.prems(1) dead_unchanged [of s e now] succeed_resets [of s e now] threshold_pos
      by (cases "live s") (simp_all add: breaker_inv_reset)
    from Cons.IH [OF this] Cons.prems(2) Succeed show ?thesis by simp
  next
    case (Fail e now)
    obtain t started where t: "fail e now s = (t, started)" by (cases "fail e now s") auto
    obtain ds' where ds: "breaker_run core fail succeed evs t = (s', ds')"
      "ds = (if started then (the (br_cooldown_until (core t)) - now) # ds' else ds')"
      using Cons.prems(2) t Fail by (auto split: prod.splits)
    have "breaker_inv delay base threshold cap (core t) \<and>
        (started \<longrightarrow> the (br_cooldown_until (core t)) - now \<le> int (base + window))"
      using fail_step [OF _ Cons.prems(1) t] dead_unchanged [of s e now] t Cons.prems(1)
      by (cases "live s") auto
    with Cons.IH [OF _ ds(1)] ds(2) show ?thesis by auto
  qed
qed simp

lemma fail_in_cooldown:
  assumes "live s" "br_failures (core s) \<le> cap" "cooldown_active now (br_cooldown_until (core s))"
  shows "core (fst (fail e now s)) = core s \<and> \<not> snd (fail e now s)"
  using fail_refines [OF assms(1,2), of e now] assms(3) by (simp add: breaker_fail_def)

lemma breaker_run_snoc:
  "breaker_run core fail succeed (xs @ [Fail e now]) u =
     (let (v, ds) = breaker_run core fail succeed xs u; (w, started) = fail e now v
      in (w, if started then ds @ [the (br_cooldown_until (core w)) - now] else ds))"
  by (induction core fail succeed xs u rule: breaker_run.induct) (auto split: prod.splits)

text \<open>Consecutive failures of one window, from a state whose last observation was a success.\<close>

lemma fails_in_window:
  assumes "live s" "core s = breaker_reset" "length evs < threshold" "0 < length evs"
    and "\<forall>ev \<in> set evs. \<exists>e now. ev = Fail e now \<and> t \<le> now \<and> now - t \<le> int window"
    and "\<exists>e. hd evs = Fail e t"
    and "breaker_run core fail succeed evs s = (s', ds)"
  shows "ds = [] \<and> live s' \<and> core s' =
    \<lparr>br_cooldown_until = None, br_failures = length evs, br_window_start = Some t\<rparr>"
  using assms
proof (induction evs arbitrary: s' ds rule: rev_induct)
  case (snoc ev evs)
  from snoc.prems(5) obtain e now where ev: "ev = Fail e now" "t \<le> now" "now - t \<le> int window" by auto
  show ?case
  proof (cases "evs = []")
    case True
    with snoc.prems ev have "now = t" by auto
    moreover have "br_failures (core s) \<le> cap" using snoc.prems(2) by (simp add: breaker_reset_def)
    ultimately show ?thesis
      using fail_refines [OF snoc.prems(1), of e t] fail_live [of e t s] snoc.prems ev True threshold_pos cap_threshold cap_count
      by (auto simp: breaker_fail_def cooldown_active_def window_expired_def breaker_reset_def Let_def
          split: prod.splits)
  next
    case False
    obtain v ds' where v: "breaker_run core fail succeed evs s = (v, ds')"
      by (cases "breaker_run core fail succeed evs s") auto
    from snoc.IH [OF snoc.prems(1,2) _ _ _ _ v] snoc.prems False
    have ih: "ds' = []" "live v" "core v = \<lparr>br_cooldown_until = None, br_failures = length evs, br_window_start = Some t\<rparr>"
      by (auto simp: hd_append)
    have cap: "br_failures (core v) \<le> cap" using ih(3) snoc.prems(3) cap_threshold by simp
    from fail_refines [OF ih(2) cap, of e now] fail_live [of e now v] ih ev snoc.prems(3,7) v cap_threshold cap_count
    show ?thesis
      by (auto simp: breaker_run_snoc breaker_fail_def cooldown_active_def window_expired_def Let_def split: prod.splits)
  qed
qed simp

lemma threshold_trips:
  assumes "live s" "core s = breaker_reset" "length evs = threshold"
    and "\<forall>ev \<in> set evs. \<exists>e now. ev = Fail e now \<and> t \<le> now \<and> now - t \<le> int window"
    and "\<exists>e. hd evs = Fail e t" "\<exists>e. last evs = Fail e now"
    and "breaker_run core fail succeed evs s = (s', ds)"
  shows "ds = [int (delay 1)] \<and> br_cooldown_until (core s') = Some (now + int (delay 1))"
proof -
  from assms(3) threshold_pos obtain xs ev where evs: "evs = xs @ [ev]" by (cases evs rule: rev_cases) auto
  with assms(6) obtain e where ev: "ev = Fail e now" by auto
  show ?thesis
  proof (cases "xs = []")
    case True
    with assms(3) evs have "threshold = 1" by simp
    moreover have "br_failures (core s) \<le> cap" using assms(2) by (simp add: breaker_reset_def)
    ultimately show ?thesis
      using fail_refines [OF assms(1), of e now] assms(2,7) evs ev True cap_threshold
      by (auto simp: breaker_fail_def cooldown_active_def window_expired_def breaker_reset_def Let_def
          split: prod.splits)
  next
    case False
    obtain v ds' where v: "breaker_run core fail succeed xs s = (v, ds')"
      by (cases "breaker_run core fail succeed xs s") auto
    from fails_in_window [OF assms(1,2) _ _ _ _ v, of t] assms evs False
    have ih: "ds' = []" "live v" "core v = \<lparr>br_cooldown_until = None, br_failures = length xs, br_window_start = Some t\<rparr>"
      by (auto simp: hd_append)
    have len: "threshold = length xs + 1" using assms(3) evs by simp
    have now: "t \<le> now" "now - t \<le> int window" using assms(4) evs ev by auto
    have "br_failures (core v) \<le> cap" using ih(3) len cap_threshold by simp
    from fail_refines [OF ih(2) this, of e now] ih(1,3) evs ev assms(7) v len now cap_threshold cap_count
    show ?thesis
      by (auto simp: breaker_run_snoc breaker_fail_def cooldown_active_def window_expired_def Let_def
          split: prod.splits)
  qed
qed

end

section \<open>Histories\<close>

text \<open>The abstract breaker as a machine of its own, with counts that never saturate.\<close>

definition spec_fail :: "(nat \<Rightarrow> nat) \<Rightarrow> nat \<Rightarrow> nat \<Rightarrow> 'e \<Rightarrow> int \<Rightarrow> breaker \<Rightarrow> breaker \<times> bool" where
  "spec_fail delay window threshold e now b =
     breaker_fail delay window threshold (Suc (br_failures b)) (Suc (br_failures b)) now b"

definition spec_succeed :: "'e \<Rightarrow> int \<Rightarrow> breaker \<Rightarrow> breaker" where
  "spec_succeed e now b = breaker_reset"

lemma breaker_fail_below_cap:
  assumes "Suc (br_failures b) \<le> cap" "cap \<le> count_cap"
  shows "breaker_fail delay window threshold count_cap cap now b = spec_fail delay window threshold e now b"
  using assms by (auto simp: spec_fail_def breaker_fail_def Let_def min_def)

lemma spec_fail_count: "br_failures (fst (spec_fail delay window threshold e now b)) \<le> Suc (br_failures b)"
  by (auto simp: spec_fail_def breaker_fail_def Let_def)

context breaker_impl
begin

lemma run_refines:
  assumes "live s" "br_failures (core s) + length evs \<le> cap"
  shows "(core (fst (breaker_run core fail succeed evs s)), snd (breaker_run core fail succeed evs s)) =
    breaker_run (\<lambda>b. b) (spec_fail delay window threshold) spec_succeed evs (core s)"
  using assms
proof (induction evs arbitrary: s)
  case (Cons ev evs)
  show ?case
  proof (cases ev)
    case (Succeed e now)
    have "br_failures (core (succeed e now s)) + length evs \<le> cap"
      using Cons.prems by (simp add: succeed_resets breaker_reset_def)
    with Cons.IH [of "succeed e now s"] Cons.prems Succeed show ?thesis
      by (simp add: succeed_live succeed_resets spec_succeed_def)
  next
    case (Fail e now)
    let ?s = "fst (fail e now s)"
    from Cons.prems have cap: "Suc (br_failures (core s)) \<le> cap" by simp
    with fail_refines [of s e now] Cons.prems
    have step: "(core ?s, snd (fail e now s)) = spec_fail delay window threshold e now (core s)"
      by (simp add: breaker_fail_below_cap [OF cap cap_count])
    then have "br_failures (core ?s) \<le> Suc (br_failures (core s))"
      using spec_fail_count [of delay window threshold e now "core s"] by (metis fst_conv)
    with Cons.IH [of ?s] Cons.prems have
      "(core (fst (breaker_run core fail succeed evs ?s)), snd (breaker_run core fail succeed evs ?s)) =
        breaker_run (\<lambda>b. b) (spec_fail delay window threshold) spec_succeed evs (core ?s)"
      by (simp add: fail_live)
    with step [symmetric] Fail show ?thesis
      by (simp add: Let_def case_prod_beta prod_eq_iff)
  qed
qed simp

end

end
