(* ===== verification/Json_Value.thy ===== *)
theory Json_Value
  imports Gateway_Prelude
begin

text \<open>
  \<open>serde_json::Value\<close> as the gateway uses it: the enum with its three number shapes, the
  accessors \<open>get\<close>, \<open>as_str\<close>, \<open>as_i64\<close>, \dots, and the two third-party operations as parameters
  of the definitions that call them: a parser \<open>parse :: string \<Rightarrow> json option\<close>
  (\<open>from_str\<close>, \<open>from_slice\<close>) and a printer \<open>print :: json \<Rightarrow> string\<close> (\<open>to_string\<close>, \<open>to_vec\<close>).
  An object is a \<open>BTreeMap\<close>: its entries in ascending key order.
\<close>

datatype json_number = PosInt u64 | NegInt i64 | FloatNumber u64

datatype json =
    JNull
  | JBool bool
  | JNumber json_number
  | JString string
  | JArray "json list"
  | JObject "(string \<times> json) list"

type_synonym json_parser = "string \<Rightarrow> json option"
type_synonym json_printer = "json \<Rightarrow> string"

fun json_get :: "json \<Rightarrow> string \<Rightarrow> json option" where
  "json_get (JObject m) k = map_of m k"
| "json_get _ _ = None"

fun json_is_null :: "json \<Rightarrow> bool" where
  "json_is_null JNull = True"
| "json_is_null _ = False"

fun json_as_str :: "json \<Rightarrow> string option" where
  "json_as_str (JString s) = Some s"
| "json_as_str _ = None"

fun json_as_bool :: "json \<Rightarrow> bool option" where
  "json_as_bool (JBool b) = Some b"
| "json_as_bool _ = None"

fun json_as_array :: "json \<Rightarrow> json list option" where
  "json_as_array (JArray xs) = Some xs"
| "json_as_array _ = None"

fun json_as_object :: "json \<Rightarrow> (string \<times> json) list option" where
  "json_as_object (JObject m) = Some m"
| "json_as_object _ = None"

fun json_as_i64 :: "json \<Rightarrow> i64 option" where
  "json_as_i64 (JNumber (PosInt n)) = (if unat n < 2 ^ 63 then Some n else None)"
| "json_as_i64 (JNumber (NegInt n)) = Some n"
| "json_as_i64 _ = None"

fun json_as_u64 :: "json \<Rightarrow> u64 option" where
  "json_as_u64 (JNumber (PosInt n)) = Some n"
| "json_as_u64 _ = None"

text \<open>\<open>Value::from(i64)\<close>: a non-negative number is stored unsigned.\<close>

definition json_of_i64 :: "i64 \<Rightarrow> json" where
  "json_of_i64 n = JNumber (if unat n < 2 ^ 63 then PosInt n else NegInt n)"

lemma json_as_i64_of_i64 [simp]: "json_as_i64 (json_of_i64 n) = Some n"
  by (simp add: json_of_i64_def)

definition json_path2 :: "json \<Rightarrow> string \<Rightarrow> string \<Rightarrow> json option" where
  "json_path2 v a b = Option.bind (json_get v a) (\<lambda>w. json_get w b)"

definition json_path3 :: "json \<Rightarrow> string \<Rightarrow> string \<Rightarrow> string \<Rightarrow> json option" where
  "json_path3 v a b c = Option.bind (json_path2 v a b) (\<lambda>w. json_get w c)"

text \<open>\<open>Option::or\<close> and \<open>Option::or_else\<close>.\<close>

definition or_else :: "'a option \<Rightarrow> 'a option \<Rightarrow> 'a option" where
  "or_else a b = (case a of Some x \<Rightarrow> Some x | None \<Rightarrow> b)"

lemma or_else_simps [simp]:
  "or_else None b = b" "or_else (Some x) b = Some x" "or_else a None = a"
  by (simp_all add: or_else_def split: option.splits)

lemma or_else_Some: "or_else a b = Some x \<longleftrightarrow> a = Some x \<or> (a = None \<and> b = Some x)"
  by (auto simp: or_else_def split: option.splits)

lemma or_else_None: "or_else a b = None \<longleftrightarrow> a = None \<and> b = None"
  by (auto simp: or_else_def split: option.splits)

definition option_filter :: "('a \<Rightarrow> bool) \<Rightarrow> 'a option \<Rightarrow> 'a option" where
  "option_filter P a = (case a of None \<Rightarrow> None | Some x \<Rightarrow> if P x then Some x else None)"

lemma option_filter_simps [simp]:
  "option_filter P None = None"
  "option_filter P (Some x) = (if P x then Some x else None)"
  by (simp_all add: option_filter_def)

lemma option_filter_Some: "option_filter P a = Some x \<longleftrightarrow> a = Some x \<and> P x"
  by (cases a) auto

definition unwrap_or :: "'a \<Rightarrow> 'a option \<Rightarrow> 'a" where
  "unwrap_or d a = (case a of Some x \<Rightarrow> x | None \<Rightarrow> d)"

lemma unwrap_or_simps [simp]: "unwrap_or d None = d" "unwrap_or d (Some x) = x"
  by (simp_all add: unwrap_or_def)

end
