(* ===== verification/Domain_Protocol.thy ===== *)
theory Domain_Protocol
  imports Gateway_Prelude
begin

text \<open>
  \<open>src/domain/protocol.rs\<close>: the three northbound protocols, their names, the aliases the
  parser accepts, and the derived order (declaration order).
\<close>

datatype protocol = OpenAiChatCompletions | OpenAiResponses | AnthropicMessages

definition protocol_ALL :: "protocol list" where
  "protocol_ALL = [OpenAiChatCompletions, OpenAiResponses, AnthropicMessages]"

fun protocol_to_string :: "protocol \<Rightarrow> string" where
  "protocol_to_string OpenAiChatCompletions = ''openai_chat_completions''"
| "protocol_to_string OpenAiResponses = ''openai_responses''"
| "protocol_to_string AnthropicMessages = ''anthropic_messages''"

definition protocol_from_str :: "string \<Rightarrow> (protocol, unit) result" where
  "protocol_from_str value =
     (if value = ''openai_chat_completions'' \<or> value = ''chat_completions'' then Ok OpenAiChatCompletions
      else if value = ''openai_responses'' \<or> value = ''responses'' then Ok OpenAiResponses
      else if value = ''anthropic_messages'' \<or> value = ''messages'' \<or> value = ''claude'' then Ok AnthropicMessages
      else Err ())"

fun protocol_index :: "protocol \<Rightarrow> nat" where
  "protocol_index OpenAiChatCompletions = 0"
| "protocol_index OpenAiResponses = 1"
| "protocol_index AnthropicMessages = 2"

lemma protocol_index_inj: "protocol_index p = protocol_index q \<longleftrightarrow> p = q"
  by (cases p; cases q) simp_all

instantiation protocol :: linorder
begin

definition less_eq_protocol :: "protocol \<Rightarrow> protocol \<Rightarrow> bool" where
  "less_eq_protocol p q = (protocol_index p \<le> protocol_index q)"

definition less_protocol :: "protocol \<Rightarrow> protocol \<Rightarrow> bool" where
  "less_protocol p q = (protocol_index p < protocol_index q)"

instance
proof
  fix x y z :: protocol
  show "(x < y) = (x \<le> y \<and> \<not> y \<le> x)"
    by (auto simp: less_eq_protocol_def less_protocol_def)
  show "x \<le> x"
    by (simp add: less_eq_protocol_def)
  show "x \<le> y \<Longrightarrow> y \<le> z \<Longrightarrow> x \<le> z"
    by (simp add: less_eq_protocol_def)
  show "x \<le> y \<Longrightarrow> y \<le> x \<Longrightarrow> x = y"
    by (simp add: less_eq_protocol_def protocol_index_inj [symmetric])
  show "x \<le> y \<or> y \<le> x"
    by (auto simp: less_eq_protocol_def)
qed

end

lemma set_protocol_ALL [simp]: "set protocol_ALL = UNIV"
proof -
  have "p \<in> set protocol_ALL" for p by (cases p) (simp_all add: protocol_ALL_def)
  then show ?thesis by blast
qed

lemma protocol_ALL_sorted: "sorted_wrt (<) protocol_ALL"
  by (simp add: protocol_ALL_def less_protocol_def)

lemma distinct_protocol_ALL [simp]: "distinct protocol_ALL"
  by (simp add: protocol_ALL_def)

lemma protocol_from_to_string [simp]: "protocol_from_str (protocol_to_string p) = Ok p"
  by (cases p) (simp_all add: protocol_from_str_def)

lemma protocol_to_string_inj: "protocol_to_string p = protocol_to_string q \<Longrightarrow> p = q"
  by (metis Inr_inject protocol_from_to_string)

end
