(* ===== verification/Infra_Db_Health.thy ===== *)
theory Infra_Db_Health
  imports Breaker_Spec Json_Value Domain_Protocol
begin

text \<open>
  \<open>src/infra/db/health.rs\<close>: the persisted account health row and its two transactions.

  The database is its accounts table (rows in \<open>id\<close> order) and the append-only
  \<open>account_health_events\<close>. A transaction holds the row lock (\<open>FOR UPDATE\<close>) from its read to
  its commit, so it is one step on the database. Where the driver reports an error is an
  argument: before the commit (the transaction rolls back) or on the read that follows it.
  \<open>from_std\<close> stands for \<open>chrono::Duration::from_std\<close>.
\<close>

type_synonym date_time = int

record account_health_row =
  hr_account_id :: string
  hr_enabled :: bool
  hr_source_enabled :: bool
  hr_health_status :: string
  hr_health_source :: string
  hr_cooldown_until :: "date_time option"
  hr_consecutive_failures :: int
  hr_failure_window_started_at :: "date_time option"
  hr_last_error :: "string option"
  hr_last_success_at :: "date_time option"
  hr_health_updated_at :: "date_time option"
  hr_last_probe_at :: "date_time option"
  hr_last_probe_status :: "string option"
  hr_last_probe_error :: "string option"
  hr_account_updated_at :: date_time

record account_health_event =
  he_account_id :: string
  he_status :: string
  he_source :: string
  he_observed_at :: date_time
  he_cooldown_until :: "date_time option"
  he_consecutive_failures :: int
  he_error_code :: "string option"
  he_error_message :: "string option"
  he_connection_test_id :: "i64 option"
  he_latency_ms :: "i64 option"

record health_db =
  db_accounts :: "account_health_row list"
  db_events :: "account_health_event list"

datatype sqlx_error = RowNotFound | DriverError

datatype db_fault = NoFault | FaultBeforeCommit | FaultAfterCommit

section \<open>Sanitising\<close>

definition normalize_health_source :: "string \<Rightarrow> string" where
  "normalize_health_source source =
     (if source \<in> {''passive'', ''probe'', ''manual'', ''startup''} then source else ''unknown'')"

definition safe_errors :: "string list" where
  "safe_errors =
     [''upstream request failed'', ''retryable upstream response'', ''upstream stream failed'',
      ''upstream connection failed'', ''upstream request timed out'', ''account credential unavailable'']"

definition sanitize_health_error :: "string option \<Rightarrow> string option" where
  "sanitize_health_error value =
     map_option (\<lambda>v. if trim v \<in> set safe_errors then trim v else ''upstream request failed'') value"

definition sanitize_health_code :: "string option \<Rightarrow> string option" where
  "sanitize_health_code value = map_option (\<lambda>v.
     if trim v \<noteq> [] \<and> length (trim v) \<le> 64 \<and>
        list_all (\<lambda>c. is_ascii_alphanumeric c \<or> c = CHR ''_'' \<or> c = CHR ''-'') (trim v)
     then trim v else ''upstream_failure'') value"

section \<open>Backoff\<close>

text \<open>
  Milliseconds in 128 bits: \<open>saturating_mul\<close> clamps at \<open>2^128 - 1\<close>, the result at \<open>u64::MAX\<close>.
\<close>

definition db_exponential_backoff :: "duration \<Rightarrow> duration \<Rightarrow> nat \<Rightarrow> duration" where
  "db_exponential_backoff base maximum failures =
     (if failures = 0 then 0
      else let base_ms = as_millis base;
               max_ms = max (as_millis maximum) base_ms;
               shift = min (failures - 1) 63;
               multiplier = 2 ^ shift;
               delay_ms = min (min (base_ms * multiplier) (2 ^ 128 - 1)) max_ms
           in duration_from_millis (min delay_ms (2 ^ 64 - 1)))"

section \<open>Rows\<close>

definition find_row :: "string \<Rightarrow> account_health_row list \<Rightarrow> account_health_row option" where
  "find_row aid rows = List.find (\<lambda>r. hr_account_id r = aid) rows"

definition update_row ::
  "string \<Rightarrow> (account_health_row \<Rightarrow> account_health_row) \<Rightarrow> account_health_row list \<Rightarrow> account_health_row list" where
  "update_row aid f rows = map (\<lambda>r. if hr_account_id r = aid then f r else r) rows"

text \<open>\<open>i32::try_from(failures).unwrap_or(i32::MAX)\<close> of a \<open>u32\<close>.\<close>

definition to_i32 :: "nat \<Rightarrow> int" where
  "to_i32 n = (if n < 2 ^ 31 then int n else 2 ^ 31 - 1)"

text \<open>The values the failure transaction computes: failures, window start, cooldown end, status.\<close>

definition failure_values ::
  "(duration \<Rightarrow> int option) \<Rightarrow> duration \<Rightarrow> duration \<Rightarrow> nat \<Rightarrow> duration \<Rightarrow> date_time \<Rightarrow> account_health_row
   \<Rightarrow> nat \<times> date_time option \<times> date_time option \<times> string" where
  "failure_values from_std base_cooldown max_cooldown threshold window observed_at current =
     (let active = cooldown_active observed_at (hr_cooldown_until current);
          expired = window_expired window observed_at (hr_failure_window_started_at current);
          counted = nat (max (hr_consecutive_failures current) 0) in
      if active then (counted, hr_failure_window_started_at current, hr_cooldown_until current, ''cooling_down'')
      else
        let failures = (if expired then 1 else (counted + 1) mod 2 ^ 32);
            started = (if expired then Some observed_at else hr_failure_window_started_at current) in
        if threshold \<le> failures then
          let breaker_failures = (failures - threshold + 1) mod 2 ^ 32;
              delay = db_exponential_backoff base_cooldown max_cooldown breaker_failures;
              until = observed_at + (case from_std delay of Some d \<Rightarrow> d | None \<Rightarrow> 0)
          in (failures, started, Some until, ''cooling_down'')
        else (failures, started, None, ''unhealthy''))"

text \<open>The \<open>UPDATE accounts\<close> of the failure transaction.\<close>

definition failure_update ::
  "string \<Rightarrow> string option \<Rightarrow> date_time \<Rightarrow> nat \<times> date_time option \<times> date_time option \<times> string
   \<Rightarrow> account_health_row \<Rightarrow> account_health_row" where
  "failure_update source error_message observed_at = (\<lambda>(failures, started, until, status) r.
     r\<lparr>hr_health_status := status, hr_cooldown_until := until,
       hr_last_error := sanitize_health_error error_message, hr_last_success_at := None,
       hr_health_source := source, hr_health_updated_at := Some observed_at,
       hr_consecutive_failures := to_i32 failures, hr_failure_window_started_at := started,
       hr_last_probe_at := (if source = ''probe'' then Some observed_at else hr_last_probe_at r),
       hr_last_probe_status := (if source = ''probe'' then Some ''failed'' else hr_last_probe_status r),
       hr_last_probe_error := (if source = ''probe'' then sanitize_health_error error_message
                               else hr_last_probe_error r)\<rparr>)"

definition success_update :: "string \<Rightarrow> string \<Rightarrow> date_time \<Rightarrow> account_health_row \<Rightarrow> account_health_row" where
  "success_update source status observed_at r =
     r\<lparr>hr_health_status := status, hr_cooldown_until := None, hr_last_error := None,
       hr_last_success_at := Some observed_at, hr_health_source := source,
       hr_health_updated_at := Some observed_at, hr_consecutive_failures := 0,
       hr_failure_window_started_at := None,
       hr_last_probe_at := (if source = ''probe'' then Some observed_at else hr_last_probe_at r),
       hr_last_probe_status := (if source = ''probe'' then Some ''succeeded'' else hr_last_probe_status r),
       hr_last_probe_error := (if source = ''probe'' then None else hr_last_probe_error r)\<rparr>"

section \<open>Transactions\<close>

definition account_health :: "bool \<Rightarrow> string \<Rightarrow> health_db \<Rightarrow> (account_health_row option, sqlx_error) result" where
  "account_health ok aid db = (if ok then Ok (find_row aid (db_accounts db)) else Err DriverError)"

definition account_health_all :: "bool \<Rightarrow> health_db \<Rightarrow> (account_health_row list, sqlx_error) result" where
  "account_health_all ok db = (if ok then Ok (db_accounts db) else Err DriverError)"

record failure_args =
  fa_base_cooldown :: duration
  fa_max_cooldown :: duration
  fa_failure_threshold :: nat
  fa_failure_window :: duration
  fa_source :: string
  fa_error_code :: "string option"
  fa_error_message :: "string option"
  fa_latency_ms :: "i64 option"
  fa_connection_test_id :: "i64 option"

definition failure_event ::
  "failure_args \<Rightarrow> string \<Rightarrow> date_time \<Rightarrow> nat \<times> date_time option \<times> date_time option \<times> string \<Rightarrow> account_health_event" where
  "failure_event args aid observed_at = (\<lambda>(failures, started, until, status).
     \<lparr>he_account_id = aid, he_status = status, he_source = normalize_health_source (fa_source args),
      he_observed_at = observed_at, he_cooldown_until = until, he_consecutive_failures = to_i32 failures,
      he_error_code = sanitize_health_code (fa_error_code args),
      he_error_message = sanitize_health_error (fa_error_message args),
      he_connection_test_id = fa_connection_test_id args, he_latency_ms = fa_latency_ms args\<rparr>)"

definition record_account_health_failure ::
  "(duration \<Rightarrow> int option) \<Rightarrow> db_fault \<Rightarrow> failure_args \<Rightarrow> string \<Rightarrow> date_time \<Rightarrow> health_db
   \<Rightarrow> health_db \<times> (account_health_row \<times> bool, sqlx_error) result" where
  "record_account_health_failure from_std fault args aid observed_at db =
     (if fault = FaultBeforeCommit then (db, Err DriverError)
      else case find_row aid (db_accounts db) of
        None \<Rightarrow> (db, Err RowNotFound)
      | Some current \<Rightarrow>
          if \<not> hr_enabled current \<or> \<not> hr_source_enabled current then (db, Ok (current, False))
          else
            let values = failure_values from_std (fa_base_cooldown args) (fa_max_cooldown args)
                  (fa_failure_threshold args) (fa_failure_window args) observed_at current;
                (_, _, until, status) = values;
                active = cooldown_active observed_at (hr_cooldown_until current);
                rows = update_row aid (failure_update (normalize_health_source (fa_source args))
                         (fa_error_message args) observed_at values) (db_accounts db);
                events = (if status \<noteq> hr_health_status current
                          then db_events db @ [failure_event args aid observed_at values] else db_events db);
                db' = \<lparr>db_accounts = rows, db_events = events\<rparr>
            in (db', case account_health (fault = NoFault) aid db' of
                       Inl e \<Rightarrow> Err e
                     | Inr None \<Rightarrow> Err RowNotFound
                     | Inr (Some health) \<Rightarrow> Ok (health, \<not> active \<and> until \<noteq> None)))"

definition record_account_health_success ::
  "db_fault \<Rightarrow> string \<Rightarrow> date_time \<Rightarrow> string \<Rightarrow> i64 option \<Rightarrow> i64 option \<Rightarrow> health_db
   \<Rightarrow> health_db \<times> (account_health_row, sqlx_error) result" where
  "record_account_health_success fault aid observed_at source connection_test_id latency_ms db =
     (if fault = FaultBeforeCommit then (db, Err DriverError)
      else case find_row aid (db_accounts db) of
        None \<Rightarrow> (db, Err RowNotFound)
      | Some current \<Rightarrow>
          if \<not> hr_enabled current \<or> \<not> hr_source_enabled current then (db, Ok current)
          else
            let source = normalize_health_source source;
                status = (if hr_enabled current then ''healthy'' else ''disabled'');
                recovered = (hr_health_status current \<noteq> status);
                rows = update_row aid (success_update source status observed_at) (db_accounts db);
                event = \<lparr>he_account_id = aid, he_status = status, he_source = source,
                         he_observed_at = observed_at, he_cooldown_until = None, he_consecutive_failures = 0,
                         he_error_code = None, he_error_message = None,
                         he_connection_test_id = connection_test_id, he_latency_ms = latency_ms\<rparr>;
                db' = \<lparr>db_accounts = rows, db_events = (if recovered then db_events db @ [event] else db_events db)\<rparr>
            in (db', case account_health (fault = NoFault) aid db' of
                       Inl e \<Rightarrow> Err e
                     | Inr None \<Rightarrow> Err RowNotFound
                     | Inr (Some health) \<Rightarrow> Ok health))"

end
