(* ===== verification/Infra_Health.thy ===== *)
theory Infra_Health
  imports Infra_Db_Health
begin

text \<open>
  \<open>src/infra/health.rs\<close>: the health registry of upstream accounts. With a database every
  observation is a transaction on the account's row (\<open>Infra_Db_Health\<close>); without one the registry
  keeps a map of states in memory. Both follow the circuit breaker of \<open>Breaker_Spec\<close>.
\<close>

section \<open>Configuration\<close>

record health_config =
  hc_cooldown :: duration
  hc_max_cooldown :: duration
  hc_stale_after :: duration
  hc_failure_threshold :: nat
  hc_failure_window :: duration

definition health_config_default :: health_config where
  "health_config_default =
     \<lparr>hc_cooldown = duration_from_secs 30, hc_max_cooldown = duration_from_secs (30 * 60),
      hc_stale_after = duration_from_secs (10 * 60), hc_failure_threshold = 3,
      hc_failure_window = duration_from_secs 60\<rparr>"

type_synonym env = "string \<Rightarrow> string option"

definition env_u32 :: "env \<Rightarrow> string \<Rightarrow> nat \<Rightarrow> nat" where
  "env_u32 env name dflt = unwrap_or dflt (Option.bind (env name) (parse_unsigned 32))"

definition env_duration_ms :: "env \<Rightarrow> string \<Rightarrow> duration \<Rightarrow> duration" where
  "env_duration_ms env name dflt =
     unwrap_or dflt (map_option duration_from_millis (Option.bind (env name) (parse_unsigned 64)))"

definition env_duration_secs :: "env \<Rightarrow> string \<Rightarrow> duration \<Rightarrow> duration" where
  "env_duration_secs env name dflt =
     unwrap_or dflt (map_option duration_from_secs (Option.bind (env name) (parse_unsigned 64)))"

definition health_config_from_env :: "env \<Rightarrow> health_config" where
  "health_config_from_env env =
     (let d = health_config_default in
      \<lparr>hc_cooldown = env_duration_ms env ''GATEWAY_HEALTH_COOLDOWN_MS'' (hc_cooldown d),
       hc_max_cooldown = env_duration_ms env ''GATEWAY_HEALTH_MAX_COOLDOWN_MS'' (hc_max_cooldown d),
       hc_stale_after = env_duration_secs env ''GATEWAY_HEALTH_STALE_AFTER_SECS'' (hc_stale_after d),
       hc_failure_threshold = env_u32 env ''GATEWAY_HEALTH_FAILURE_THRESHOLD'' (hc_failure_threshold d),
       hc_failure_window = env_duration_secs env ''GATEWAY_HEALTH_FAILURE_WINDOW_SECS'' (hc_failure_window d)\<rparr>)"

definition normalized :: "health_config \<Rightarrow> health_config" where
  "normalized c =
     (let cooldown = max (hc_cooldown c) (duration_from_millis 1) in
      \<lparr>hc_cooldown = cooldown, hc_max_cooldown = max (hc_max_cooldown c) cooldown,
       hc_stale_after = max (hc_stale_after c) (duration_from_millis 1),
       hc_failure_threshold = max (hc_failure_threshold c) 1,
       hc_failure_window = max (hc_failure_window c) (duration_from_millis 1)\<rparr>)"

section \<open>State\<close>

record account_health =
  ah_available :: bool
  ah_source_enabled :: bool
  ah_consecutive_failures :: nat
  ah_cooldown_remaining_ms :: nat
  ah_status :: string
  ah_source :: string
  ah_stale :: bool
  ah_updated_at :: "date_time option"
  ah_cooldown_until :: "date_time option"
  ah_last_error :: "string option"
  ah_last_success_at :: "date_time option"
  ah_last_probe_at :: "date_time option"
  ah_last_probe_status :: "string option"
  ah_last_probe_error :: "string option"

record memory_account_state =
  ms_status :: string
  ms_source :: string
  ms_cooldown_until :: "date_time option"
  ms_consecutive_failures :: nat
  ms_failure_window_started_at :: "date_time option"
  ms_updated_at :: "date_time option"
  ms_last_error :: "string option"
  ms_last_success_at :: "date_time option"
  ms_last_probe_at :: "date_time option"
  ms_last_probe_status :: "string option"
  ms_last_probe_error :: "string option"
  ms_enabled :: bool

record health_registry =
  hg_config :: health_config
  hg_database :: "health_db option"
  hg_state :: "(string, memory_account_state) hmap"

definition with_config_and_clock :: "health_config \<Rightarrow> health_registry" where
  "with_config_and_clock c = \<lparr>hg_config = normalized c, hg_database = None, hg_state = []\<rparr>"

definition with_database_config_and_clock :: "health_db \<Rightarrow> health_config \<Rightarrow> health_registry" where
  "with_database_config_and_clock db c = \<lparr>hg_config = normalized c, hg_database = Some db, hg_state = []\<rparr>"

definition memory_unknown :: memory_account_state where
  "memory_unknown =
     \<lparr>ms_status = ''unknown'', ms_source = ''unknown'', ms_cooldown_until = None, ms_consecutive_failures = 0,
      ms_failure_window_started_at = None, ms_updated_at = None, ms_last_error = None,
      ms_last_success_at = None, ms_last_probe_at = None, ms_last_probe_status = None,
      ms_last_probe_error = None, ms_enabled = True\<rparr>"

section \<open>Helpers\<close>

definition normalize_source :: "string \<Rightarrow> string" where
  "normalize_source source =
     (if source \<in> {''passive'', ''probe'', ''manual'', ''startup''} then source else ''unknown'')"

definition sanitize_error :: "string option \<Rightarrow> string option" where
  "sanitize_error value =
     map_option (\<lambda>v. if trim v \<in> set safe_errors then trim v else ''upstream request failed'') value"

definition exponential_backoff :: "duration \<Rightarrow> duration \<Rightarrow> nat \<Rightarrow> duration" where
  "exponential_backoff base maximum failures =
     (if failures = 0 then 0
      else let base_ms = as_millis base;
               max_ms = max (as_millis maximum) base_ms;
               shift = min (failures - 1) 63;
               multiplier = 2 ^ shift;
               delay_ms = min (min (base_ms * multiplier) (2 ^ 128 - 1)) max_ms
           in duration_from_millis (min delay_ms (2 ^ 64 - 1)))"

definition stale :: "(duration \<Rightarrow> int option) \<Rightarrow> date_time \<Rightarrow> date_time option \<Rightarrow> duration \<Rightarrow> bool" where
  "stale from_std now updated_at stale_after =
     (case updated_at of None \<Rightarrow> True
      | Some u \<Rightarrow> (case from_std stale_after of None \<Rightarrow> True | Some d \<Rightarrow> d \<le> now - u))"

definition cooldown_remaining :: "date_time \<Rightarrow> date_time option \<Rightarrow> nat" where
  "cooldown_remaining now until =
     (case until of None \<Rightarrow> 0
      | Some u \<Rightarrow> if u < now then 0 else min (as_millis (nat (u - now))) (2 ^ 64 - 1))"

definition health_status_name :: "bool \<Rightarrow> bool \<Rightarrow> bool \<Rightarrow> string \<Rightarrow> bool \<Rightarrow> string" where
  "health_status_name enabled is_stale active status failing =
     (if \<not> enabled then ''disabled''
      else if is_stale then ''stale''
      else if active then ''cooling_down''
      else if status = ''healthy'' then ''healthy''
      else if status = ''unhealthy'' \<or> status = ''cooling_down'' then ''unhealthy''
      else if failing then ''unhealthy''
      else ''unknown'')"

definition health_from_row ::
  "(duration \<Rightarrow> int option) \<Rightarrow> account_health_row \<Rightarrow> date_time \<Rightarrow> duration \<Rightarrow> account_health" where
  "health_from_row from_std row now stale_after =
     (let updated_at = or_else (hr_health_updated_at row) (Some (hr_account_updated_at row));
          is_stale = stale from_std now updated_at stale_after;
          active = cooldown_active now (hr_cooldown_until row);
          status = health_status_name (hr_enabled row \<and> hr_source_enabled row) is_stale active
                     (hr_health_status row) (0 < hr_consecutive_failures row)
      in \<lparr>ah_available = (hr_enabled row \<and> hr_source_enabled row \<and> (\<not> active \<or> is_stale) \<and> status \<noteq> ''disabled''),
          ah_source_enabled = hr_source_enabled row,
          ah_consecutive_failures = nat (max (hr_consecutive_failures row) 0),
          ah_cooldown_remaining_ms = cooldown_remaining now (hr_cooldown_until row),
          ah_status = status, ah_source = normalize_source (hr_health_source row), ah_stale = is_stale,
          ah_updated_at = updated_at, ah_cooldown_until = hr_cooldown_until row,
          ah_last_error = sanitize_error (hr_last_error row), ah_last_success_at = hr_last_success_at row,
          ah_last_probe_at = hr_last_probe_at row, ah_last_probe_status = hr_last_probe_status row,
          ah_last_probe_error = sanitize_error (hr_last_probe_error row)\<rparr>)"

definition memory_health ::
  "(duration \<Rightarrow> int option) \<Rightarrow> memory_account_state \<Rightarrow> date_time \<Rightarrow> duration \<Rightarrow> account_health" where
  "memory_health from_std s now stale_after =
     (let is_stale = stale from_std now (ms_updated_at s) stale_after;
          active = cooldown_active now (ms_cooldown_until s);
          status = health_status_name (ms_enabled s) is_stale active (ms_status s) (0 < ms_consecutive_failures s)
      in \<lparr>ah_available = (ms_enabled s \<and> (\<not> active \<or> is_stale) \<and> status \<noteq> ''disabled''),
          ah_source_enabled = True, ah_consecutive_failures = ms_consecutive_failures s,
          ah_cooldown_remaining_ms = cooldown_remaining now (ms_cooldown_until s),
          ah_status = status, ah_source = normalize_source (ms_source s), ah_stale = is_stale,
          ah_updated_at = ms_updated_at s, ah_cooldown_until = ms_cooldown_until s,
          ah_last_error = ms_last_error s, ah_last_success_at = ms_last_success_at s,
          ah_last_probe_at = ms_last_probe_at s, ah_last_probe_status = ms_last_probe_status s,
          ah_last_probe_error = ms_last_probe_error s\<rparr>)"

definition unknown_health :: "bool \<Rightarrow> string \<Rightarrow> account_health" where
  "unknown_health available source =
     \<lparr>ah_available = available, ah_source_enabled = True, ah_consecutive_failures = 0,
      ah_cooldown_remaining_ms = 0, ah_status = ''unknown'', ah_source = source, ah_stale = True,
      ah_updated_at = None, ah_cooldown_until = None, ah_last_error = None, ah_last_success_at = None,
      ah_last_probe_at = None, ah_last_probe_status = None, ah_last_probe_error = None\<rparr>"

section \<open>Reading\<close>

text \<open>\<open>ok\<close> says whether the database read succeeds.\<close>

definition get_health ::
  "(duration \<Rightarrow> int option) \<Rightarrow> bool \<Rightarrow> date_time \<Rightarrow> string \<Rightarrow> health_registry \<Rightarrow> account_health" where
  "get_health from_std ok now aid g =
     (case hg_database g of
        Some db \<Rightarrow>
          (case Infra_Db_Health.account_health ok aid db of
             Inr (Some row) \<Rightarrow> health_from_row from_std row now (hc_stale_after (hg_config g))
           | Inr None \<Rightarrow> unknown_health False ''unknown''
           | Inl _ \<Rightarrow> unknown_health False ''database'')
      | None \<Rightarrow>
          (case hget (hg_state g) aid of
             Some s \<Rightarrow> memory_health from_std s now (hc_stale_after (hg_config g))
           | None \<Rightarrow> unknown_health True ''unknown''))"

definition is_available ::
  "(duration \<Rightarrow> int option) \<Rightarrow> bool \<Rightarrow> date_time \<Rightarrow> string \<Rightarrow> health_registry \<Rightarrow> bool" where
  "is_available from_std ok now aid g =
     (case hg_database g of
        Some db \<Rightarrow>
          (case Infra_Db_Health.account_health ok aid db of
             Inr (Some row) \<Rightarrow> ah_available (health_from_row from_std row now (hc_stale_after (hg_config g)))
           | Inr None \<Rightarrow> False
           | Inl _ \<Rightarrow> False)
      | None \<Rightarrow>
          (case hget (hg_state g) aid of
             Some s \<Rightarrow> ah_available (memory_health from_std s now (hc_stale_after (hg_config g)))
           | None \<Rightarrow> True))"

definition all_health ::
  "(duration \<Rightarrow> int option) \<Rightarrow> bool \<Rightarrow> date_time \<Rightarrow> health_registry \<Rightarrow> (string, account_health) hmap" where
  "all_health from_std ok now g =
     (case hg_database g of
        Some db \<Rightarrow>
          (case account_health_all ok db of
             Inr rows \<Rightarrow> fold (\<lambda>row m. hinsert (hr_account_id row)
                            (health_from_row from_std row now (hc_stale_after (hg_config g))) m) rows []
           | Inl _ \<Rightarrow> [])
      | None \<Rightarrow> map (\<lambda>(aid, s). (aid, memory_health from_std s now (hc_stale_after (hg_config g)))) (hg_state g))"

section \<open>Transitions\<close>

text \<open>
  The body of \<open>mark_memory_failure\<close> on the account's entry, and of \<open>mark_success_with_source\<close>
  without a database.
\<close>

definition memory_failure_entry ::
  "(duration \<Rightarrow> int option) \<Rightarrow> health_config \<Rightarrow> date_time \<Rightarrow> string \<Rightarrow> string option
   \<Rightarrow> memory_account_state \<Rightarrow> memory_account_state \<times> bool" where
  "memory_failure_entry from_std c now source error_message s =
     (let active = cooldown_active now (ms_cooldown_until s);
          (s1, started) =
            (if active then (s, False)
             else
               let expired = window_expired (hc_failure_window c) now (ms_failure_window_started_at s);
                   failures = (if expired then 1 else min (ms_consecutive_failures s + 1) (2 ^ 32 - 1));
                   window = (if expired then Some now else ms_failure_window_started_at s);
                   s' = s\<lparr>ms_consecutive_failures := failures, ms_failure_window_started_at := window\<rparr>
               in if hc_failure_threshold c \<le> failures then
                    let breaker_failures = (failures - hc_failure_threshold c + 1) mod 2 ^ 32;
                        delay = exponential_backoff (hc_cooldown c) (hc_max_cooldown c) breaker_failures
                    in (s'\<lparr>ms_cooldown_until := Some (now + (case from_std delay of Some d \<Rightarrow> d | None \<Rightarrow> 0))\<rparr>, True)
                  else (s'\<lparr>ms_cooldown_until := None\<rparr>, False));
          status = (if ms_enabled s1 \<and> cooldown_active now (ms_cooldown_until s1) then ''cooling_down''
                    else if ms_enabled s1 then ''unhealthy'' else ''disabled'');
          s2 = s1\<lparr>ms_status := status, ms_source := normalize_source source, ms_updated_at := Some now,
                  ms_last_error := sanitize_error error_message, ms_last_success_at := None\<rparr>;
          s3 = (if source = ''probe''
                then s2\<lparr>ms_last_probe_at := Some now, ms_last_probe_status := Some ''failed'',
                        ms_last_probe_error := sanitize_error error_message\<rparr>
                else s2)
      in (s3, started))"

definition memory_success_entry ::
  "date_time \<Rightarrow> string \<Rightarrow> memory_account_state \<Rightarrow> memory_account_state" where
  "memory_success_entry now source s =
     (let s1 = s\<lparr>ms_status := (if ms_enabled s then ''healthy'' else ''disabled''),
                 ms_source := normalize_source source, ms_cooldown_until := None,
                 ms_consecutive_failures := 0, ms_failure_window_started_at := None,
                 ms_updated_at := Some now, ms_last_error := None, ms_last_success_at := Some now\<rparr>
      in if source = ''probe''
         then s1\<lparr>ms_last_probe_at := Some now, ms_last_probe_status := Some ''succeeded'',
                 ms_last_probe_error := None\<rparr>
         else s1)"

definition mark_memory_failure ::
  "(duration \<Rightarrow> int option) \<Rightarrow> date_time \<Rightarrow> string \<Rightarrow> string \<Rightarrow> string option \<Rightarrow> health_registry
   \<Rightarrow> health_registry \<times> bool" where
  "mark_memory_failure from_std now aid source error_message g =
     (let s = unwrap_or memory_unknown (hget (hg_state g) aid);
          (s', started) = memory_failure_entry from_std (hg_config g) now source error_message s
      in (g\<lparr>hg_state := hinsert aid s' (hg_state g)\<rparr>, started))"

definition registry_failure_args ::
  "health_config \<Rightarrow> string \<Rightarrow> string option \<Rightarrow> string option \<Rightarrow> i64 option \<Rightarrow> i64 option \<Rightarrow> failure_args" where
  "registry_failure_args c source error_code error_message latency_ms connection_test_id =
     \<lparr>fa_base_cooldown = hc_cooldown c, fa_max_cooldown = hc_max_cooldown c,
      fa_failure_threshold = hc_failure_threshold c, fa_failure_window = hc_failure_window c,
      fa_source = source, fa_error_code = error_code, fa_error_message = error_message,
      fa_latency_ms = latency_ms, fa_connection_test_id = connection_test_id\<rparr>"

definition mark_failure_with_details ::
  "(duration \<Rightarrow> int option) \<Rightarrow> db_fault \<Rightarrow> date_time \<Rightarrow> string \<Rightarrow> string \<Rightarrow> string option \<Rightarrow> string option
   \<Rightarrow> health_registry \<Rightarrow> health_registry \<times> bool" where
  "mark_failure_with_details from_std fault now aid source error_code error_message g =
     (case hg_database g of
        Some db \<Rightarrow>
          (let (db', r) = record_account_health_failure from_std fault
                 (registry_failure_args (hg_config g) source error_code error_message None None) aid now db
           in (g\<lparr>hg_database := Some db'\<rparr>, case r of Inr (_, started) \<Rightarrow> started | Inl _ \<Rightarrow> False))
      | None \<Rightarrow> mark_memory_failure from_std now aid source error_message g)"

definition mark_probe_failure ::
  "(duration \<Rightarrow> int option) \<Rightarrow> db_fault \<Rightarrow> date_time \<Rightarrow> string \<Rightarrow> i64 option \<Rightarrow> string option \<Rightarrow> string option
   \<Rightarrow> i64 option \<Rightarrow> health_registry \<Rightarrow> health_registry" where
  "mark_probe_failure from_std fault now aid connection_test_id error_code error_message latency_ms g =
     (case hg_database g of
        Some db \<Rightarrow>
          g\<lparr>hg_database := Some (fst (record_account_health_failure from_std fault
              (registry_failure_args (hg_config g) ''probe'' error_code error_message latency_ms connection_test_id)
              aid now db))\<rparr>
      | None \<Rightarrow> fst (mark_memory_failure from_std now aid ''probe'' error_message g))"

definition mark_success_with_source ::
  "db_fault \<Rightarrow> date_time \<Rightarrow> string \<Rightarrow> string \<Rightarrow> i64 option \<Rightarrow> i64 option \<Rightarrow> health_registry \<Rightarrow> health_registry" where
  "mark_success_with_source fault now aid source connection_test_id latency_ms g =
     (case hg_database g of
        Some db \<Rightarrow>
          g\<lparr>hg_database := Some (fst (record_account_health_success fault aid now source
              connection_test_id latency_ms db))\<rparr>
      | None \<Rightarrow>
          (let s = unwrap_or memory_unknown (hget (hg_state g) aid)
           in g\<lparr>hg_state := hinsert aid (memory_success_entry now source s) (hg_state g)\<rparr>))"

definition mark_success :: "db_fault \<Rightarrow> date_time \<Rightarrow> string \<Rightarrow> health_registry \<Rightarrow> health_registry" where
  "mark_success fault now aid g = mark_success_with_source fault now aid ''passive'' None None g"

text \<open>The fields of \<open>ConnectionTestRecord\<close> that \<open>apply_connection_test\<close> reads.\<close>

record connection_test_record =
  ct_id :: i64
  ct_account_id :: "string option"
  ct_status :: string
  ct_latency_ms :: i64
  ct_error_code :: "string option"
  ct_error_message :: "string option"

definition apply_connection_test ::
  "(duration \<Rightarrow> int option) \<Rightarrow> db_fault \<Rightarrow> date_time \<Rightarrow> connection_test_record \<Rightarrow> health_registry \<Rightarrow> health_registry" where
  "apply_connection_test from_std fault now rec g =
     (case ct_account_id rec of
        None \<Rightarrow> g
      | Some aid \<Rightarrow>
          let latency = Some (if 0 \<le>s ct_latency_ms rec then ct_latency_ms rec else 0) in
          if ct_status rec = ''succeeded''
          then mark_success_with_source fault now aid ''probe'' (Some (ct_id rec)) latency g
          else mark_probe_failure from_std fault now aid (Some (ct_id rec)) (ct_error_code rec)
                 (ct_error_message rec) latency g)"

end
