(* ===== verification/Health_Breaker.thy ===== *)
theory Health_Breaker
  imports Infra_Health
begin

text \<open>
  Correctness of the health registry: both of its back ends implement the circuit breaker of
  \<open>Breaker_Spec\<close>, and what follows for an account's availability.

  The locale \<open>health_clock\<close> collects what the breaker relies on: the documented behaviour of
  \<open>chrono::Duration::from_std\<close> (exact up to \<open>i64::MAX\<close> milliseconds) and a configuration in that
  range.
\<close>

definition chrono_max :: duration where
  "chrono_max = duration_from_millis (2 ^ 63 - 1)"

locale health_clock =
  fixes from_std :: "duration \<Rightarrow> int option" and config :: health_config
  assumes from_std_exact: "d \<le> chrono_max \<Longrightarrow> from_std d = Some (int d)"
    and cooldown_range: "hc_cooldown config \<le> chrono_max"
    and max_cooldown_range: "hc_max_cooldown config \<le> chrono_max"
    and threshold_range: "hc_failure_threshold config < 2 ^ 31"

section \<open>The backoff schedule\<close>

lemma as_millis_mono: "a \<le> b \<Longrightarrow> as_millis a \<le> as_millis b"
  by (simp add: as_millis_def div_le_mono)

lemma duration_from_millis_mono: "a \<le> b \<Longrightarrow> duration_from_millis a \<le> duration_from_millis b"
  by (simp add: duration_from_millis_def)

lemma duration_from_millis_double: "duration_from_millis (2 * a) = 2 * duration_from_millis a"
  by (simp add: duration_from_millis_def)

lemma min_double: "min (min (2 * a) c) d \<le> 2 * min (min a c) d" for a :: nat
  by linarith

lemma backoffs_equal: "db_exponential_backoff = exponential_backoff"
  by (rule ext)+ (simp add: db_exponential_backoff_def exponential_backoff_def)

lemma exponential_backoff_eq:
  "exponential_backoff base maximum (Suc k) =
     duration_from_millis (min (min (min (as_millis base * 2 ^ min k 63) (2 ^ 128 - 1))
       (max (as_millis maximum) (as_millis base))) (2 ^ 64 - 1))"
  by (simp add: exponential_backoff_def Let_def)

lemma backoff_one:
  "exponential_backoff base maximum (Suc 0) = duration_from_millis (min (as_millis base) (2 ^ 64 - 1))"
  unfolding exponential_backoff_eq by (simp add: min_def max_def)

lemma backoff_mono:
  "exponential_backoff base maximum (Suc k) \<le> exponential_backoff base maximum (Suc (Suc k))"
proof -
  have "2 ^ min k 63 \<le> (2 :: nat) ^ min (Suc k) 63" by (intro power_increasing) auto
  then show ?thesis
    unfolding exponential_backoff_eq
    by (intro duration_from_millis_mono min.mono mult_le_mono order_refl)
qed

lemma backoff_double:
  "exponential_backoff base maximum (Suc (Suc k)) \<le> 2 * exponential_backoff base maximum (Suc k)"
proof -
  have "(2 :: nat) ^ min (Suc k) 63 \<le> 2 ^ Suc (min k 63)" by (intro power_increasing) auto
  then have "as_millis base * 2 ^ min (Suc k) 63 \<le> 2 * (as_millis base * 2 ^ min k 63)" by simp
  then have "min (min (min (as_millis base * 2 ^ min (Suc k) 63) c) d) e \<le>
      2 * min (min (min (as_millis base * 2 ^ min k 63) c) d) e" for c d e :: nat
    by linarith
  then show ?thesis
    unfolding exponential_backoff_eq duration_from_millis_double [symmetric]
    by (rule duration_from_millis_mono)
qed

lemma backoff_max: "exponential_backoff base maximum k \<le> max maximum base"
proof (cases k)
  case (Suc j)
  have "exponential_backoff base maximum k \<le> duration_from_millis (max (as_millis maximum) (as_millis base))"
    unfolding Suc exponential_backoff_eq by (rule duration_from_millis_mono) simp
  also have "\<dots> = duration_from_millis (as_millis (max maximum base))"
    using max_of_mono [of as_millis maximum base] as_millis_mono by (simp add: monoI)
  also have "\<dots> \<le> max maximum base" by (rule as_millis_le)
  finally show ?thesis .
qed (simp add: exponential_backoff_def)

text \<open>
  \<open>exponential_backoff\<close> is a bounded doubling schedule: the first delay is the base cut to
  whole milliseconds (clamped to \<open>u64\<close>), each further failure at most doubles and never shortens
  the delay, and no delay exceeds the larger of base and maximum, for every input, also where
  the 128-bit product saturates or the shift stops at 63. The database's copy of the routine
  is the same function.
\<close>

theorem exponential_backoff_schedule:
  "exponential_backoff base maximum 0 = 0 \<and>
   exponential_backoff base maximum (Suc 0) = duration_from_millis (min (as_millis base) (2 ^ 64 - 1)) \<and>
   exponential_backoff base maximum (Suc k) \<le> exponential_backoff base maximum (Suc (Suc k)) \<and>
   exponential_backoff base maximum (Suc (Suc k)) \<le> 2 * exponential_backoff base maximum (Suc k) \<and>
   exponential_backoff base maximum k \<le> max maximum base \<and>
   db_exponential_backoff base maximum k = exponential_backoff base maximum k"
  using backoff_one backoff_mono backoff_double backoff_max
  by (simp add: backoffs_equal) (simp add: exponential_backoff_def)

section \<open>The two back ends\<close>

type_synonym observation = "string \<times> string option"

definition mem_core :: "memory_account_state \<Rightarrow> breaker" where
  "mem_core s = \<lparr>br_cooldown_until = ms_cooldown_until s, br_failures = ms_consecutive_failures s,
                 br_window_start = ms_failure_window_started_at s\<rparr>"

definition mem_fail ::
  "(duration \<Rightarrow> int option) \<Rightarrow> health_config \<Rightarrow> observation \<Rightarrow> int \<Rightarrow> memory_account_state
   \<Rightarrow> memory_account_state \<times> bool" where
  "mem_fail from_std config e now s =
     memory_failure_entry from_std (normalized config) now (fst e) (snd e) s"

definition mem_succeed :: "observation \<Rightarrow> int \<Rightarrow> memory_account_state \<Rightarrow> memory_account_state" where
  "mem_succeed e now s = memory_success_entry now (fst e) s"

definition row_core :: "account_health_row \<Rightarrow> breaker" where
  "row_core r = \<lparr>br_cooldown_until = hr_cooldown_until r, br_failures = nat (max (hr_consecutive_failures r) 0),
                 br_window_start = hr_failure_window_started_at r\<rparr>"

definition row_live :: "account_health_row \<Rightarrow> bool" where
  "row_live r \<longleftrightarrow> hr_enabled r \<and> hr_source_enabled r"

definition row_fail ::
  "(duration \<Rightarrow> int option) \<Rightarrow> health_config \<Rightarrow> observation \<Rightarrow> int \<Rightarrow> account_health_row
   \<Rightarrow> account_health_row \<times> bool" where
  "row_fail from_std config e now r =
     (let c = normalized config;
          values = failure_values from_std (hc_cooldown c) (hc_max_cooldown c) (hc_failure_threshold c)
                     (hc_failure_window c) now r
      in if row_live r
         then (failure_update (normalize_health_source (fst e)) (snd e) now values r,
               \<not> cooldown_active now (hr_cooldown_until r) \<and> fst (snd (snd values)) \<noteq> None)
         else (r, False))"

definition row_succeed :: "observation \<Rightarrow> int \<Rightarrow> account_health_row \<Rightarrow> account_health_row" where
  "row_succeed e now r =
     (if row_live r then success_update (normalize_health_source (fst e)) ''healthy'' now r else r)"

lemma normalized_facts:
  "1 \<le> hc_failure_threshold (normalized c)"
  "hc_cooldown (normalized c) \<le> hc_max_cooldown (normalized c)"
  by (simp_all add: normalized_def Let_def)

context health_clock
begin

abbreviation delay :: "nat \<Rightarrow> nat" where
  "delay \<equiv> exponential_backoff (hc_cooldown (normalized config)) (hc_max_cooldown (normalized config))"

lemma normalized_range:
  "hc_max_cooldown (normalized config) \<le> chrono_max" "hc_failure_threshold (normalized config) < 2 ^ 31"
proof -
  have "duration_from_millis 1 \<le> chrono_max" by (simp add: chrono_max_def duration_from_millis_def)
  then show "hc_max_cooldown (normalized config) \<le> chrono_max"
    using cooldown_range max_cooldown_range by (simp add: normalized_def Let_def)
  show "hc_failure_threshold (normalized config) < 2 ^ 31"
    using threshold_range by (simp add: normalized_def Let_def)
qed

lemma from_std_delay: "from_std (delay k) = Some (int (delay k))"
proof (rule from_std_exact)
  have "delay k \<le> hc_max_cooldown (normalized config)"
    using backoff_max [of "hc_cooldown (normalized config)" "hc_max_cooldown (normalized config)" k]
      normalized_facts(2) [of config] by (simp add: max_def)
  with normalized_range(1) show "delay k \<le> chrono_max" by simp
qed

lemma schedule: "backoff_schedule delay (hc_cooldown (normalized config)) (hc_max_cooldown (normalized config))"
proof
  show "delay 1 \<le> hc_cooldown (normalized config)"
    using backoff_one [of "hc_cooldown (normalized config)"] as_millis_le [of "hc_cooldown (normalized config)"]
      duration_from_millis_mono [of "min (as_millis (hc_cooldown (normalized config))) (2 ^ 64 - 1)"]
    by (metis One_nat_def dual_order.trans min.cobounded1)
  show "delay k \<le> hc_max_cooldown (normalized config)" for k
    using backoff_max [of "hc_cooldown (normalized config)" "hc_max_cooldown (normalized config)" k]
      normalized_facts(2) [of config] by (simp add: max_def)
  show "delay k \<le> delay (Suc k)" if "1 \<le> k" for k
    using that backoff_mono by (cases k) auto
  show "delay (Suc k) \<le> 2 * delay k" if "1 \<le> k" for k
    using that backoff_double by (cases k) auto
qed

end

section \<open>Both back ends implement the breaker\<close>

lemma mem_core_simps [simp]:
  "br_cooldown_until (mem_core s) = ms_cooldown_until s" "br_failures (mem_core s) = ms_consecutive_failures s"
  "br_window_start (mem_core s) = ms_failure_window_started_at s"
  by (simp_all add: mem_core_def)

lemma mem_success_core: "mem_core (memory_success_entry now source s) = breaker_reset"
  by (simp add: memory_success_entry_def mem_core_def breaker_reset_def Let_def)

lemma row_core_simps [simp]:
  "br_cooldown_until (row_core r) = hr_cooldown_until r"
  "br_failures (row_core r) = nat (max (hr_consecutive_failures r) 0)"
  "br_window_start (row_core r) = hr_failure_window_started_at r"
  by (simp_all add: row_core_def)

context health_clock
begin

lemma mem_fail_refines:
  assumes "ms_consecutive_failures s \<le> 2 ^ 32 - 1"
  shows "(mem_core (fst (mem_fail from_std config e now s)), snd (mem_fail from_std config e now s)) =
    breaker_fail delay (hc_failure_window (normalized config)) (hc_failure_threshold (normalized config))
      (2 ^ 32 - 1) (2 ^ 32 - 1) now (mem_core s)"
proof -
  let ?t = "hc_failure_threshold (normalized config)"
  have wrap: "(n - ?t + 1) mod 2 ^ 32 = n - ?t + 1" if "n \<le> 2 ^ 32 - 1" for n
    using that normalized_facts(1) [of config] by (intro mod_less) auto
  have one: "min 1 (2 ^ 32 - 1 :: nat) = 1" by simp
  show ?thesis
    by (auto simp: mem_fail_def memory_failure_entry_def breaker_fail_def mem_core_def Let_def
        from_std_delay wrap [simplified])
qed

lemma row_fail_refines:
  assumes live: "row_live r" and cap: "br_failures (row_core r) \<le> 2 ^ 31 - 1"
  shows "(row_core (fst (row_fail from_std config e now r)), snd (row_fail from_std config e now r)) =
    breaker_fail delay (hc_failure_window (normalized config)) (hc_failure_threshold (normalized config))
      (2 ^ 31) (2 ^ 31 - 1) now (row_core r)"
proof -
  let ?t = "hc_failure_threshold (normalized config)"
  let ?n = "nat (max (hr_consecutive_failures r) 0)"
  have n: "?n \<le> 2 ^ 31 - 1" using cap by simp
  define f where "f = (if window_expired (hc_failure_window (normalized config)) now
      (hr_failure_window_started_at r) then 1 else min (?n + 1) (2 ^ 31))"
  have "(?n + 1) mod 2 ^ 32 = min (?n + 1) (2 ^ 31)" using n by simp
  then have count: "(if window_expired (hc_failure_window (normalized config)) now
      (hr_failure_window_started_at r) then 1 else (?n + 1) mod 2 ^ 32) = f" by (simp add: f_def)
  have f: "f \<le> 2 ^ 31" by (simp add: f_def)
  have wrap: "(f - ?t + 1) mod 2 ^ 32 = f - ?t + 1"
    using f normalized_facts(1) [of config] by (intro mod_less) auto
  have store: "nat (max (to_i32 m) 0) = min m (2 ^ 31 - 1)" for m by (auto simp: to_i32_def)
  show ?thesis
  proof (cases "cooldown_active now (hr_cooldown_until r)")
    case True
    then show ?thesis
      using live n by (simp add: row_fail_def failure_values_def breaker_fail_def Let_def failure_update_def
          row_core_def store del: power_numeral)
  next
    case False
    then show ?thesis
      using live unfolding row_fail_def failure_values_def breaker_fail_def Let_def backoffs_equal
        row_core_simps count f_def [symmetric] wrap from_std_delay
      by (simp add: failure_update_def row_core_def store)
  qed
qed

end

sublocale health_clock \<subseteq> mem: breaker_impl delay "hc_cooldown (normalized config)"
  "hc_max_cooldown (normalized config)" "hc_failure_window (normalized config)"
  "hc_failure_threshold (normalized config)" "2 ^ 32 - 1" "2 ^ 32 - 1" mem_core "\<lambda>_. True"
  "mem_fail from_std config" mem_succeed
proof (rule breaker_impl.intro [OF schedule], unfold_locales)
  show "1 \<le> hc_failure_threshold (normalized config)" by (rule normalized_facts)
  show "hc_failure_threshold (normalized config) \<le> 2 ^ 32 - 1" using normalized_range(2) by simp
  show "(mem_core (fst (mem_fail from_std config e now s)), snd (mem_fail from_std config e now s)) =
      breaker_fail delay (hc_failure_window (normalized config)) (hc_failure_threshold (normalized config))
        (2 ^ 32 - 1) (2 ^ 32 - 1) now (mem_core s)" if "br_failures (mem_core s) \<le> 2 ^ 32 - 1" for s e now
    using that by (intro mem_fail_refines) simp
  show "mem_core (mem_succeed e now s) = breaker_reset" for s e now
    by (simp add: mem_succeed_def mem_success_core)
qed simp_all

sublocale health_clock \<subseteq> row: breaker_impl delay "hc_cooldown (normalized config)"
  "hc_max_cooldown (normalized config)" "hc_failure_window (normalized config)"
  "hc_failure_threshold (normalized config)" "2 ^ 31" "2 ^ 31 - 1" row_core row_live
  "row_fail from_std config" row_succeed
proof (rule breaker_impl.intro [OF schedule], unfold_locales)
  show "1 \<le> hc_failure_threshold (normalized config)" by (rule normalized_facts)
  show "hc_failure_threshold (normalized config) \<le> 2 ^ 31 - 1" using normalized_range(2) by simp
  show "(row_core (fst (row_fail from_std config e now r)), snd (row_fail from_std config e now r)) =
      breaker_fail delay (hc_failure_window (normalized config)) (hc_failure_threshold (normalized config))
        (2 ^ 31) (2 ^ 31 - 1) now (row_core r)"
    if "row_live r" "br_failures (row_core r) \<le> 2 ^ 31 - 1" for r e now
    using that by (rule row_fail_refines)
  show "row_core (row_succeed e now r) = breaker_reset" if "row_live r" for r e now
    using that by (simp add: row_succeed_def success_update_def row_core_def breaker_reset_def)
  show "row_live (fst (row_fail from_std config e now r)) = row_live r" for r e now
    by (simp add: row_fail_def Let_def failure_update_def row_live_def split: prod.splits)
  show "row_live (row_succeed e now r) = row_live r" for r e now
    by (simp add: row_succeed_def success_update_def row_live_def)
  show "row_fail from_std config e now r = (r, False) \<and> row_succeed e now r = r" if "\<not> row_live r" for r e now
    using that by (simp add: row_fail_def row_succeed_def Let_def)
qed simp

text \<open>What the two refinements give for whole histories.\<close>

context health_clock
begin

lemmas row_run_refines = row.run_refines
lemmas mem_run_refines = mem.run_refines [OF TrueI]

end

text \<open>The locale on the default configuration, with an exact conversion.\<close>

definition exact_from_std :: "duration \<Rightarrow> int option" where
  "exact_from_std d = (if d \<le> chrono_max then Some (int d) else None)"

interpretation default_clock: health_clock exact_from_std health_config_default
proof
  have "duration_from_secs 1800 \<le> chrono_max"
    by (simp add: chrono_max_def duration_from_millis_def duration_from_secs_def)
  then show "hc_max_cooldown health_config_default \<le> chrono_max" "hc_cooldown health_config_default \<le> chrono_max"
    by (simp_all add: health_config_default_def duration_from_secs_def)
qed (simp_all add: exact_from_std_def health_config_default_def)

section \<open>The registry as a state machine\<close>

text \<open>
  Observations reach the registry in any order, for any account, at any time the clock
  shows, and with any database fault. A registry starts empty, or on a database whose accounts
  have no failure history.
\<close>

inductive registry_step :: "(duration \<Rightarrow> int option) \<Rightarrow> health_registry \<Rightarrow> health_registry \<Rightarrow> bool"
  for from_std where
  failure: "registry_step from_std g
     (fst (mark_failure_with_details from_std fault now aid source code msg g))"
| success: "registry_step from_std g (mark_success_with_source fault now aid source test_id latency g)"
| probe: "registry_step from_std g (apply_connection_test from_std fault now rec g)"

inductive registry_reachable ::
  "(duration \<Rightarrow> int option) \<Rightarrow> health_config \<Rightarrow> health_registry \<Rightarrow> bool" for from_std config where
  memory: "registry_reachable from_std config (with_config_and_clock config)"
| database: "\<forall>r \<in> set (db_accounts db). row_core r = breaker_reset \<Longrightarrow>
     registry_reachable from_std config (with_database_config_and_clock db config)"
| step: "registry_reachable from_std config g \<Longrightarrow> registry_step from_std g g' \<Longrightarrow>
     registry_reachable from_std config g'"

definition state_ok :: "health_config \<Rightarrow> nat \<Rightarrow> breaker \<Rightarrow> bool" where
  "state_ok config cap b \<longleftrightarrow>
     breaker_inv (exponential_backoff (hc_cooldown (normalized config)) (hc_max_cooldown (normalized config)))
       (hc_cooldown (normalized config)) (hc_failure_threshold (normalized config)) cap b"

definition registry_inv :: "health_config \<Rightarrow> health_registry \<Rightarrow> bool" where
  "registry_inv config g \<longleftrightarrow> hg_config g = normalized config \<and>
     (\<forall>p \<in> set (hg_state g). state_ok config (2 ^ 32 - 1) (mem_core (snd p)) \<and> ms_enabled (snd p)) \<and>
     (\<forall>db r. hg_database g = Some db \<longrightarrow> r \<in> set (db_accounts db) \<longrightarrow>
        state_ok config (2 ^ 31 - 1) (row_core r))"

lemma state_ok_reset: "state_ok config cap breaker_reset"
  unfolding state_ok_def by (rule breaker_inv_reset) (rule normalized_facts)

lemma memory_unknown_core: "mem_core memory_unknown = breaker_reset"
  by (simp add: mem_core_def memory_unknown_def breaker_reset_def)

lemma memory_unknown_enabled: "ms_enabled memory_unknown"
  by (simp add: memory_unknown_def)

lemma memory_failure_enabled: "ms_enabled (fst (memory_failure_entry from_std c now source msg s)) = ms_enabled s"
  by (simp add: memory_failure_entry_def Let_def split: prod.splits)

lemma memory_success_enabled: "ms_enabled (memory_success_entry now source s) = ms_enabled s"
  by (simp add: memory_success_entry_def Let_def)

lemma hinsert_set: "p \<in> set (hinsert k v m) \<Longrightarrow> p = (k, v) \<or> p \<in> set m"
  by (induction k v m rule: hinsert.induct) (auto split: if_splits)

lemma update_row_set:
  "r \<in> set (update_row aid f rows) \<Longrightarrow> r \<in> set rows \<or> (\<exists>q \<in> set rows. hr_account_id q = aid \<and> r = f q)"
  by (auto simp: update_row_def split: if_splits)

lemma failure_update_core:
  "row_core (failure_update source msg now values r) = row_core (failure_update source msg now values q)"
  by (auto simp: failure_update_def row_core_def split: prod.splits)

lemma find_row_in: "find_row aid rows = Some r \<Longrightarrow> r \<in> set rows \<and> hr_account_id r = aid"
  by (auto simp: find_row_def find_Some_iff)

lemma find_row_update:
  assumes "\<And>r. hr_account_id (f r) = hr_account_id r"
  shows "find_row aid (update_row aid f rows) = map_option f (find_row aid rows)"
    and "aid' \<noteq> aid \<Longrightarrow> find_row aid' (update_row aid f rows) = find_row aid' rows"
  using assms by (induction rows) (auto simp: find_row_def update_row_def)

text \<open>The failure transaction on the account's row is \<open>row_fail\<close>.\<close>

definition row_args :: "health_config \<Rightarrow> failure_args \<Rightarrow> bool" where
  "row_args config args \<longleftrightarrow>
     fa_base_cooldown args = hc_cooldown (normalized config) \<and>
     fa_max_cooldown args = hc_max_cooldown (normalized config) \<and>
     fa_failure_threshold args = hc_failure_threshold (normalized config) \<and>
     fa_failure_window args = hc_failure_window (normalized config)"

lemma record_failure_cases:
  assumes "row_args config args"
    and "record_account_health_failure from_std fault args aid now db = (db', result)"
  obtains (unchanged) "db' = db" "\<forall>h. result \<noteq> Ok (h, True)"
  | (applied) r where "find_row aid (db_accounts db) = Some r" "row_live r" "fault \<noteq> FaultBeforeCommit"
      "find_row aid (db_accounts db') = Some (fst (row_fail from_std config (fa_source args, fa_error_message args) now r))"
      "\<forall>q \<in> set (db_accounts db'). q \<in> set (db_accounts db) \<or>
         row_core q = row_core (fst (row_fail from_std config (fa_source args, fa_error_message args) now r))"
      "\<forall>h started. result = Ok (h, started) \<longrightarrow>
         started = snd (row_fail from_std config (fa_source args, fa_error_message args) now r)"
proof -
  consider (fault) "fault = FaultBeforeCommit" | (missing) "fault \<noteq> FaultBeforeCommit" "find_row aid (db_accounts db) = None"
    | (dead) r where "fault \<noteq> FaultBeforeCommit" "find_row aid (db_accounts db) = Some r" "\<not> row_live r"
    | (live) r where "fault \<noteq> FaultBeforeCommit" "find_row aid (db_accounts db) = Some r" "row_live r"
    by (cases "find_row aid (db_accounts db)") auto
  then show thesis
  proof cases
    case (live r)
    let ?f = "failure_update (normalize_health_source (fa_source args)) (fa_error_message args) now
       (failure_values from_std (fa_base_cooldown args) (fa_max_cooldown args)
                  (fa_failure_threshold args) (fa_failure_window args) now r)"
    have row: "fst (row_fail from_std config (fa_source args, fa_error_message args) now r) = ?f r"
      using live(3) assms(1) by (simp add: row_fail_def row_args_def Let_def)
    have ident: "hr_account_id (?f q) = hr_account_id q" for q
      by (simp add: failure_update_def split: prod.splits)
    have rows: "db_accounts db' = update_row aid ?f (db_accounts db)"
      using assms(2) live by (auto simp: record_account_health_failure_def Let_def row_live_def split: prod.splits)
    show thesis
    proof (rule applied)
      show "find_row aid (db_accounts db') = Some (fst (row_fail from_std config (fa_source args, fa_error_message args) now r))"
        using find_row_update(1) [of ?f, OF ident] live(2) row by (simp add: rows)
      show "\<forall>q \<in> set (db_accounts db'). q \<in> set (db_accounts db) \<or>
          row_core q = row_core (fst (row_fail from_std config (fa_source args, fa_error_message args) now r))"
        unfolding rows row using failure_update_core by (blast dest: update_row_set)
      show "\<forall>h started. result = Ok (h, started) \<longrightarrow>
          started = snd (row_fail from_std config (fa_source args, fa_error_message args) now r)"
        using assms live
        by (auto simp: record_account_health_failure_def row_fail_def row_args_def Let_def row_live_def
            split: prod.splits sum.splits option.splits)
    qed (use live in simp_all)
  qed (use assms(2) unchanged in \<open>auto simp: record_account_health_failure_def row_live_def\<close>)
qed

lemma record_success_cases:
  assumes "record_account_health_success fault aid now source test_id latency db = (db', result)"
  obtains (unchanged) "db' = db" "fault = NoFault \<longrightarrow> (\<forall>r. find_row aid (db_accounts db) = Some r \<longrightarrow> \<not> row_live r)"
  | (applied) r where "find_row aid (db_accounts db) = Some r" "row_live r"
      "find_row aid (db_accounts db') = Some (row_succeed (source, None) now r)"
      "\<forall>q \<in> set (db_accounts db'). q \<in> set (db_accounts db) \<or> row_core q = breaker_reset"
proof -
  consider (fault) "fault = FaultBeforeCommit" | (missing) "fault \<noteq> FaultBeforeCommit" "find_row aid (db_accounts db) = None"
    | (dead) r where "fault \<noteq> FaultBeforeCommit" "find_row aid (db_accounts db) = Some r" "\<not> row_live r"
    | (live) r where "fault \<noteq> FaultBeforeCommit" "find_row aid (db_accounts db) = Some r" "row_live r"
    by (cases "find_row aid (db_accounts db)") auto
  then show thesis
  proof cases
    case (live r)
    let ?f = "success_update (normalize_health_source source) ''healthy'' now"
    have rows: "db_accounts db' = update_row aid ?f (db_accounts db)"
      using assms live by (auto simp: record_account_health_success_def Let_def row_live_def)
    have "hr_account_id (?f q) = hr_account_id q" for q by (simp add: success_update_def)
    then have "find_row aid (db_accounts db') = Some (row_succeed (source, None) now r)"
      using find_row_update(1) [of ?f aid] live by (simp add: rows row_succeed_def)
    moreover have "row_core (?f q) = breaker_reset" for q
      by (simp add: success_update_def row_core_def breaker_reset_def)
    then have "\<forall>q \<in> set (db_accounts db'). q \<in> set (db_accounts db) \<or> row_core q = breaker_reset"
      unfolding rows by (blast dest: update_row_set)
    ultimately show thesis using applied live by blast
  qed (use assms unchanged in \<open>auto simp: record_account_health_success_def row_live_def\<close>)
qed

lemma registry_args: "hg_config g = normalized config \<Longrightarrow> row_args config (registry_failure_args (hg_config g) s c m l t)"
  by (simp add: row_args_def registry_failure_args_def)

definition registry_cooldown :: "string \<Rightarrow> health_registry \<Rightarrow> int option" where
  "registry_cooldown aid g =
     (case hg_database g of
        Some db \<Rightarrow> Option.bind (find_row aid (db_accounts db)) hr_cooldown_until
      | None \<Rightarrow> Option.bind (hget (hg_state g) aid) ms_cooldown_until)"

definition lockout_bound :: "health_config \<Rightarrow> int" where
  "lockout_bound config = int (hc_cooldown (normalized config) + hc_failure_window (normalized config))"

context health_clock
begin

lemmas row_fails_in_window = row.fails_in_window
lemmas row_threshold_trips = row.threshold_trips

lemma memory_failure_keeps:
  assumes inv: "registry_inv config g" and db: "hg_database g = None"
    and mark: "mark_memory_failure from_std now aid source msg g = (g', started)"
  shows "registry_inv config g' \<and>
    (started \<longrightarrow> (\<exists>u. registry_cooldown aid g' = Some u \<and> u - now \<le> lockout_bound config))"
proof -
  let ?s = "unwrap_or memory_unknown (hget (hg_state g) aid)"
  obtain s' st where s': "mem_fail from_std config (source, msg) now ?s = (s', st)"
    by (cases "mem_fail from_std config (source, msg) now ?s") auto
  have g': "g' = g\<lparr>hg_state := hinsert aid s' (hg_state g)\<rparr>" and st: "started = st"
    using mark s' inv by (auto simp: mark_memory_failure_def mem_fail_def registry_inv_def Let_def split: prod.splits)
  have ok: "state_ok config (2 ^ 32 - 1) (mem_core ?s)"
    using inv by (cases "hget (hg_state g) aid")
      (auto simp: registry_inv_def memory_unknown_core state_ok_reset dest!: map_of_SomeD)
  have step: "state_ok config (2 ^ 32 - 1) (mem_core s') \<and>
      (st \<longrightarrow> the (ms_cooldown_until s') - now \<le> lockout_bound config)"
    using mem.fail_step [OF TrueI ok [unfolded state_ok_def] s'] unfolding state_ok_def lockout_bound_def by simp
  have "ms_enabled ?s"
    using inv by (cases "hget (hg_state g) aid")
      (auto simp: registry_inv_def memory_unknown_enabled dest!: map_of_SomeD)
  then have en: "ms_enabled s'"
    using s' memory_failure_enabled [of from_std "normalized config" now source msg ?s]
    by (simp add: mem_fail_def)
  have some: "ms_cooldown_until s' \<noteq> None" if st
    using that s' by (auto simp: mem_fail_def memory_failure_entry_def Let_def split: if_splits prod.splits)
  show ?thesis
    using inv step some db en
    by (auto simp: registry_inv_def g' st registry_cooldown_def dest!: hinsert_set)
qed

lemma database_failure_keeps:
  assumes inv: "registry_inv config g" and db: "hg_database g = Some db" and args: "row_args config args"
    and rec: "record_account_health_failure from_std fault args aid now db = (db', result)"
    and g': "g' = g\<lparr>hg_database := Some db'\<rparr>"
  shows "registry_inv config g' \<and>
    (\<forall>h. result = Ok (h, True) \<longrightarrow> (\<exists>u. registry_cooldown aid g' = Some u \<and> u - now \<le> lockout_bound config))"
  using args rec
proof (cases rule: record_failure_cases)
  case unchanged
  with inv db show ?thesis by (simp add: g' registry_inv_def)
next
  case (applied r)
  let ?e = "(fa_source args, fa_error_message args)"
  obtain r' st where r': "row_fail from_std config ?e now r = (r', st)"
    by (cases "row_fail from_std config ?e now r") auto
  have "state_ok config (2 ^ 31 - 1) (row_core r)"
    using inv db find_row_in [OF applied(1)] by (auto simp: registry_inv_def)
  from row.fail_step [OF applied(2) this [unfolded state_ok_def] r']
  have step: "state_ok config (2 ^ 31 - 1) (row_core r')" "st \<longrightarrow> the (hr_cooldown_until r') - now \<le> lockout_bound config"
    by (simp_all add: state_ok_def lockout_bound_def)
  have "hr_cooldown_until r' \<noteq> None" if st
    using that r' by (auto simp: row_fail_def failure_update_def Let_def split: if_splits prod.splits)
  with step applied r' inv db show ?thesis
    by (fastforce simp: g' registry_inv_def registry_cooldown_def)
qed

lemma failure_keeps:
  assumes "registry_inv config g"
    and "mark_failure_with_details from_std fault now aid source code msg g = (g', started)"
  shows "registry_inv config g' \<and>
    (started \<longrightarrow> (\<exists>u. registry_cooldown aid g' = Some u \<and> u - now \<le> lockout_bound config))"
proof (cases "hg_database g")
  case None
  with assms show ?thesis by (simp add: mark_failure_with_details_def memory_failure_keeps)
next
  case (Some db)
  obtain db' result where rec: "record_account_health_failure from_std fault
      (registry_failure_args (hg_config g) source code msg None None) aid now db = (db', result)"
    by (cases "record_account_health_failure from_std fault
      (registry_failure_args (hg_config g) source code msg None None) aid now db") auto
  from assms(2) Some rec have "g' = g\<lparr>hg_database := Some db'\<rparr>"
    "started = (case result of Inr (_, started) \<Rightarrow> started | Inl _ \<Rightarrow> False)"
    by (auto simp: mark_failure_with_details_def)
  with database_failure_keeps [OF assms(1) Some registry_args rec] assms(1) show ?thesis
    by (auto simp: registry_inv_def split: sum.splits prod.splits)
qed

lemma success_keeps:
  assumes "registry_inv config g"
  shows "registry_inv config (mark_success_with_source fault now aid source test_id latency g)"
proof (cases "hg_database g")
  case None
  with assms show ?thesis
    using state_ok_reset
    by (cases "hget (hg_state g) aid")
      (auto simp: mark_success_with_source_def registry_inv_def mem_success_core Let_def memory_success_enabled
        memory_unknown_enabled dest!: hinsert_set map_of_SomeD)
next
  case (Some db)
  obtain db' result where rec: "record_account_health_success fault aid now source test_id latency db = (db', result)"
    by (cases "record_account_health_success fault aid now source test_id latency db") auto
  from rec show ?thesis
  proof (cases rule: record_success_cases)
    case unchanged
    with assms Some rec show ?thesis by (simp add: mark_success_with_source_def registry_inv_def)
  next
    case (applied r)
    with assms Some rec show ?thesis
      by (fastforce simp: mark_success_with_source_def registry_inv_def state_ok_reset)
  qed
qed

lemma probe_failure_keeps:
  assumes "registry_inv config g"
  shows "registry_inv config (mark_probe_failure from_std fault now aid test_id code msg latency g)"
proof (cases "hg_database g")
  case None
  then show ?thesis
    using memory_failure_keeps [OF assms None, of now aid "''probe''" msg]
    by (cases "mark_memory_failure from_std now aid ''probe'' msg g") (simp add: mark_probe_failure_def)
next
  case (Some db)
  let ?args = "registry_failure_args (hg_config g) ''probe'' code msg latency test_id"
  obtain db' result where rec: "record_account_health_failure from_std fault ?args aid now db = (db', result)"
    by (cases "record_account_health_failure from_std fault ?args aid now db") auto
  with database_failure_keeps [OF assms Some registry_args rec refl] assms Some show ?thesis
    by (simp add: mark_probe_failure_def registry_inv_def)
qed

lemma step_keeps: "registry_step from_std g g' \<Longrightarrow> registry_inv config g \<Longrightarrow> registry_inv config g'"
proof (induction rule: registry_step.induct)
  case (failure g fault now aid source code msg)
  then show ?case
    using failure_keeps [of g fault now aid source code msg]
    by (cases "mark_failure_with_details from_std fault now aid source code msg g") simp
next
  case (probe g fault now rec)
  then show ?case
    by (auto simp: apply_connection_test_def Let_def success_keeps probe_failure_keeps split: option.splits)
qed (rule success_keeps)

lemma reachable_inv: "registry_reachable from_std config g \<Longrightarrow> registry_inv config g"
proof (induction rule: registry_reachable.induct)
  case (step g g')
  then show ?case using step_keeps by blast
qed (auto simp: registry_inv_def with_config_and_clock_def with_database_config_and_clock_def state_ok_reset)

end

section \<open>Availability\<close>

lemma row_available:
  "ah_available (health_from_row from_std r now sa) \<longleftrightarrow> row_live r \<and>
     (\<not> cooldown_active now (hr_cooldown_until r) \<or>
      stale from_std now (or_else (hr_health_updated_at r) (Some (hr_account_updated_at r))) sa)"
  by (auto simp: health_from_row_def Let_def row_live_def health_status_name_def)

lemma memory_available:
  "ah_available (memory_health from_std s now sa) \<longleftrightarrow> ms_enabled s \<and>
     (\<not> cooldown_active now (ms_cooldown_until s) \<or> stale from_std now (ms_updated_at s) sa)"
  by (auto simp: memory_health_def Let_def health_status_name_def)

text \<open>An account the registry counts: known and enabled, or not yet seen by an in-memory registry.\<close>

definition registry_live :: "string \<Rightarrow> health_registry \<Rightarrow> bool" where
  "registry_live aid g =
     (case hg_database g of
        Some db \<Rightarrow> (case find_row aid (db_accounts db) of Some r \<Rightarrow> row_live r | None \<Rightarrow> False)
      | None \<Rightarrow> True)"

lemma registry_inv_enabled: "registry_inv config g \<Longrightarrow> hget (hg_state g) aid = Some s \<Longrightarrow> ms_enabled s"
  by (auto simp: registry_inv_def dest!: map_of_SomeD)

lemma available_outside_cooldown:
  assumes "registry_inv config g" "registry_live aid g" "\<not> cooldown_active now (registry_cooldown aid g)"
  shows "is_available from_std True now aid g"
  using assms
  by (auto simp: is_available_def registry_live_def registry_cooldown_def row_available
      memory_available Infra_Db_Health.account_health_def split: option.splits dest: registry_inv_enabled)

lemma started_live:
  assumes "registry_inv config g" "mark_failure_with_details from_std fault now aid source code msg g = (g', True)"
  shows "registry_live aid g'"
proof (cases "hg_database g")
  case None
  with assms(2) show ?thesis
    by (auto simp: mark_failure_with_details_def mark_memory_failure_def registry_live_def Let_def split: prod.splits)
next
  case (Some db)
  let ?args = "registry_failure_args (hg_config g) source code msg None None"
  from assms(1) have args: "row_args config ?args" by (intro registry_args) (simp add: registry_inv_def)
  obtain db' result where rec: "record_account_health_failure from_std fault ?args aid now db = (db', result)"
    by (cases "record_account_health_failure from_std fault ?args aid now db") auto
  from assms(2) Some rec obtain h where g': "g' = g\<lparr>hg_database := Some db'\<rparr>" "result = Ok (h, True)"
    by (auto simp: mark_failure_with_details_def split: sum.splits)
  from args rec show ?thesis
  proof (cases rule: record_failure_cases)
    case (applied r)
    then show ?thesis
      by (auto simp: g' registry_live_def row_fail_def row_live_def failure_update_def Let_def split: prod.splits)
  qed (use g' in simp)
qed

text \<open>
  C5: the lock-out of an account is short and lifts by itself. In every state the registry can
  reach, in memory or on the database, through any sequence of failures, successes and probes for
  any accounts at any clock readings and with any database faults, a failure that starts
  a cooldown starts one of at most the base cooldown plus the failure window, and from then on
  the account is available again at every later time, whatever the configured maximum is.
\<close>

theorem lockout_bounded:
  assumes "health_clock from_std config" and "registry_reachable from_std config g"
    and "mark_failure_with_details from_std fault now aid source code msg g = (g', True)"
  shows "\<exists>u. registry_cooldown aid g' = Some u \<and> u - now \<le> lockout_bound config \<and>
    (\<forall>t \<ge> now + lockout_bound config. is_available from_std True t aid g')"
proof -
  from assms have inv: "registry_inv config g" by (simp add: health_clock.reachable_inv)
  with health_clock.failure_keeps [OF assms(1) inv assms(3)]
  obtain u where "registry_inv config g'" "registry_cooldown aid g' = Some u" "u - now \<le> lockout_bound config" by auto
  moreover from this have "is_available from_std True t aid g'" if "now + lockout_bound config \<le> t" for t
    using that started_live [OF inv assms(3)]
    by (intro available_outside_cooldown) (auto simp: cooldown_active_def)
  ultimately show ?thesis by blast
qed

definition sample_row :: account_health_row where
  "sample_row =
     \<lparr>hr_account_id = ''a1'', hr_enabled = True, hr_source_enabled = True, hr_health_status = ''healthy'',
      hr_health_source = ''passive'', hr_cooldown_until = None, hr_consecutive_failures = 0,
      hr_failure_window_started_at = None, hr_last_error = None, hr_last_success_at = None,
      hr_health_updated_at = None, hr_last_probe_at = None, hr_last_probe_status = None,
      hr_last_probe_error = None, hr_account_updated_at = 0\<rparr>"

definition sample_registry :: health_registry where
  "sample_registry =
     fst (mark_failure_with_details exact_from_std NoFault 2000000000 ''a1'' ''passive'' None None
       (fst (mark_failure_with_details exact_from_std NoFault 1000000000 ''a1'' ''passive'' None None
          (with_database_config_and_clock \<lparr>db_accounts = [sample_row], db_events = []\<rparr> health_config_default))))"

lemma sample_registry_reachable: "registry_reachable exact_from_std health_config_default sample_registry"
  unfolding sample_registry_def
  by (intro registry_reachable.step [OF _ registry_step.failure] registry_reachable.database)
    (simp add: sample_row_def row_core_def breaker_reset_def)

lemma sample_registry_eq:
  "hg_config sample_registry = normalized health_config_default"
  "hg_database sample_registry = Some \<lparr>db_accounts =
     [sample_row\<lparr>hr_health_status := ''unhealthy'', hr_consecutive_failures := 2,
        hr_failure_window_started_at := Some 1000000000, hr_health_updated_at := Some 2000000000\<rparr>],
     db_events = [\<lparr>he_account_id = ''a1'', he_status = ''unhealthy'', he_source = ''passive'',
        he_observed_at = 1000000000, he_cooldown_until = None, he_consecutive_failures = 1,
        he_error_code = None, he_error_message = None, he_connection_test_id = None, he_latency_ms = None\<rparr>]\<rparr>"
  by (simp_all add: sample_registry_def mark_failure_with_details_def with_database_config_and_clock_def
      record_account_health_failure_def find_row_def sample_row_def registry_failure_args_def Let_def
      failure_values_def cooldown_active_def window_expired_def normalized_def health_config_default_def
      duration_from_secs_def duration_from_millis_def update_row_def failure_update_def to_i32_def
      normalize_health_source_def sanitize_health_error_def sanitize_health_code_def
      Infra_Db_Health.account_health_def failure_event_def)

theorem lockout_bounded_witness:
  "\<exists>g'. mark_failure_with_details exact_from_std NoFault 3000000000 ''a1'' ''passive'' None None sample_registry
      = (g', True) \<and>
    (\<forall>t \<ge> 3000000000 + lockout_bound health_config_default. is_available exact_from_std True t ''a1'' g')"
proof -
  have "snd (mark_failure_with_details exact_from_std NoFault 3000000000 ''a1'' ''passive'' None None sample_registry)"
    by (simp add: sample_registry_eq mark_failure_with_details_def sample_row_def
        record_account_health_failure_def find_row_def registry_failure_args_def Let_def
        failure_values_def cooldown_active_def window_expired_def normalized_def health_config_default_def
        duration_from_secs_def duration_from_millis_def update_row_def failure_update_def
        Infra_Db_Health.account_health_def)
  then obtain g' where g': "mark_failure_with_details exact_from_std NoFault 3000000000 ''a1'' ''passive'' None None
      sample_registry = (g', True)" by (metis (full_types) prod.collapse)
  with lockout_bounded [OF default_clock.health_clock_axioms sample_registry_reachable this] show ?thesis by blast
qed

text \<open>With the default configuration the bound is 90 seconds, far below the 30 minute maximum.\<close>

lemma default_maximum_unreachable:
  "lockout_bound health_config_default = 90000000000"
  "lockout_bound health_config_default < int (hc_max_cooldown health_config_default)"
  by (simp_all add: lockout_bound_def normalized_def health_config_default_def duration_from_secs_def
      duration_from_millis_def Let_def)

text \<open>
  A success restores an account at once. After a successful observation is recorded (and
  the database transaction goes through), a counted account is available at every time, has
  no cooldown and no counted failures, and is reported healthy, or stale once the observation is old.
\<close>

theorem success_restores:
  assumes "health_clock from_std config" and "registry_reachable from_std config g" and "registry_live aid g"
    and g': "g' = mark_success_with_source NoFault now aid source test_id latency g"
  shows "registry_cooldown aid g' = None \<and> is_available from_std True t aid g' \<and>
    ah_consecutive_failures (get_health from_std True t aid g') = 0 \<and>
    ah_status (get_health from_std True t aid g') \<in> {''healthy'', ''stale''}"
proof (cases "hg_database g")
  case None
  have "registry_inv config g" using assms by (simp add: health_clock.reachable_inv)
  then have "ms_enabled (unwrap_or memory_unknown (hget (hg_state g) aid))"
    by (cases "hget (hg_state g) aid") (auto simp: memory_unknown_enabled dest: registry_inv_enabled)
  with None show ?thesis
    by (simp add: g' mark_success_with_source_def registry_cooldown_def is_available_def get_health_def Let_def
        memory_available memory_success_entry_def cooldown_active_def memory_health_def health_status_name_def)
next
  case (Some db)
  obtain db' result where rec: "record_account_health_success NoFault aid now source test_id latency db = (db', result)"
    by (cases "record_account_health_success NoFault aid now source test_id latency db") auto
  then have db': "hg_database g' = Some db'" "hg_config g' = hg_config g"
    using Some by (simp_all add: g' mark_success_with_source_def)
  from rec show ?thesis
  proof (cases rule: record_success_cases)
    case unchanged
    with assms(3) Some show ?thesis by (simp add: registry_live_def split: option.splits)
  next
    case (applied r)
    with db' show ?thesis
      by (simp add: registry_cooldown_def is_available_def get_health_def Infra_Db_Health.account_health_def
          row_available row_succeed_def success_update_def row_live_def cooldown_active_def health_from_row_def
          health_status_name_def Let_def)
  qed
qed

theorem success_restores_witness:
  "is_available exact_from_std True 5000000000 ''a1''
     (mark_success_with_source NoFault 4000000000 ''a1'' ''passive'' None None sample_registry)"
proof -
  have "registry_live ''a1'' sample_registry"
    by (simp add: registry_live_def sample_registry_eq find_row_def sample_row_def row_live_def)
  from success_restores [OF default_clock.health_clock_axioms sample_registry_reachable this refl]
  show ?thesis by blast
qed

text \<open>
  The breaker counts to its threshold within one window. On an enabled account's row with no
  failure history, fewer failures than the threshold inside one failure window start no
  cooldown, and the failure that reaches the threshold starts exactly one, of the base
  length and counted from that failure's time.
\<close>

theorem threshold_exact:
  assumes clock: "health_clock from_std config" and row: "row_live r" "row_core r = breaker_reset"
    and window: "\<forall>ev \<in> set evs. \<exists>e n. ev = Fail e n \<and> t \<le> n \<and> n - t \<le> int (hc_failure_window (normalized config))"
    and ends: "\<exists>e. hd evs = Fail e t" "\<exists>e. last evs = Fail e now" "evs \<noteq> []"
    and run: "breaker_run row_core (row_fail from_std config) row_succeed evs r = (r', ds)"
  shows "(length evs < hc_failure_threshold (normalized config) \<longrightarrow> ds = [] \<and> hr_cooldown_until r' = None) \<and>
    (length evs = hc_failure_threshold (normalized config) \<longrightarrow>
       (let d = int (exponential_backoff (hc_cooldown (normalized config)) (hc_max_cooldown (normalized config)) 1)
        in ds = [d] \<and> hr_cooldown_until r' = Some (now + d)))"
proof (rule conjI; rule impI)
  assume "length evs < hc_failure_threshold (normalized config)"
  from health_clock.row_fails_in_window [OF clock row this _ window ends(1) run] ends(3)
  show "ds = [] \<and> hr_cooldown_until r' = None" by (auto simp: row_core_def)
next
  assume "length evs = hc_failure_threshold (normalized config)"
  from health_clock.row_threshold_trips [OF clock row this window ends(1,2) run]
  show "let d = int (exponential_backoff (hc_cooldown (normalized config)) (hc_max_cooldown (normalized config)) 1)
        in ds = [d] \<and> hr_cooldown_until r' = Some (now + d)" by (simp add: Let_def)
qed

theorem threshold_exact_witness:
  "\<exists>r' ds. breaker_run row_core (row_fail exact_from_std health_config_default) row_succeed
      [Fail (''passive'', None) 5, Fail (''passive'', None) 6] sample_row = (r', ds) \<and> ds = []"
proof -
  let ?evs = "[Fail (''passive'', None) 5, Fail (''passive'', None) 6] :: observation breaker_event list"
  obtain r' ds where run: "breaker_run row_core (row_fail exact_from_std health_config_default) row_succeed
      ?evs sample_row = (r', ds)" by (metis prod.collapse)
  have t: "hc_failure_threshold (normalized health_config_default) = 3"
    "hc_failure_window (normalized health_config_default) = 60000000000"
    by (simp_all add: normalized_def health_config_default_def duration_from_secs_def duration_from_millis_def Let_def)
  have row: "row_live sample_row" "row_core sample_row = breaker_reset"
    by (simp_all add: sample_row_def row_live_def row_core_def breaker_reset_def)
  have "(length ?evs < hc_failure_threshold (normalized health_config_default) \<longrightarrow> ds = [] \<and> hr_cooldown_until r' = None)"
    using threshold_exact [OF default_clock.health_clock_axioms row, of ?evs 5 6 r' ds] run t by fastforce
  with run t show ?thesis by simp
qed



section \<open>Isolation, faults and history\<close>

lemma failure_other_row:
  assumes "aid' \<noteq> aid"
  shows "find_row aid' (db_accounts (fst (record_account_health_failure from_std fault args aid now db)))
    = find_row aid' (db_accounts db)"
proof -
  have "hr_account_id (failure_update s m now v q) = hr_account_id q" for s m v q
    by (simp add: failure_update_def split: prod.splits)
  then show ?thesis
    by (simp add: record_account_health_failure_def Let_def find_row_update(2) [OF _ assms] split: option.splits prod.splits)
qed

lemma success_other_row:
  assumes "aid' \<noteq> aid"
  shows "find_row aid' (db_accounts (fst (record_account_health_success fault aid now source test_id latency db)))
    = find_row aid' (db_accounts db)"
proof -
  have "hr_account_id (success_update s st now q) = hr_account_id q" for s st q
    by (simp add: success_update_def)
  then show ?thesis
    by (simp add: record_account_health_success_def Let_def find_row_update(2) [OF _ assms] split: option.splits)
qed

text \<open>What the registry's answers about one account depend on.\<close>

definition registry_view ::
  "string \<Rightarrow> health_registry \<Rightarrow> health_config \<times> account_health_row option option \<times> memory_account_state option" where
  "registry_view aid g =
     (hg_config g, map_option (\<lambda>db. find_row aid (db_accounts db)) (hg_database g),
      if hg_database g = None then hget (hg_state g) aid else None)"

lemma get_health_view:
  assumes "registry_view aid g = registry_view aid g'"
  shows "get_health from_std ok t aid g = get_health from_std ok t aid g' \<and>
    is_available from_std ok t aid g = is_available from_std ok t aid g'"
  using assms
  by (cases "hg_database g"; cases "hg_database g'")
    (auto simp: registry_view_def get_health_def is_available_def Infra_Db_Health.account_health_def
      split: option.splits)

lemma memory_failure_view:
  assumes "aid' \<noteq> aid" "hg_database g = None"
  shows "registry_view aid' (fst (mark_memory_failure from_std now aid source msg g)) = registry_view aid' g"
  using assms by (simp add: registry_view_def mark_memory_failure_def Let_def split: prod.splits)

lemma failure_view:
  assumes "aid' \<noteq> aid"
  shows "registry_view aid' (fst (mark_failure_with_details from_std fault now aid source code msg g)) =
    registry_view aid' g"
proof (cases "hg_database g")
  case (Some db)
  let ?r = "record_account_health_failure from_std fault
      (registry_failure_args (hg_config g) source code msg None None) aid now db"
  have "fst (mark_failure_with_details from_std fault now aid source code msg g) = g\<lparr>hg_database := Some (fst ?r)\<rparr>"
    using Some by (simp add: mark_failure_with_details_def split: prod.splits)
  with Some show ?thesis by (simp add: registry_view_def failure_other_row [OF assms])
qed (simp add: mark_failure_with_details_def memory_failure_view assms)

lemma probe_failure_view:
  assumes "aid' \<noteq> aid"
  shows "registry_view aid' (mark_probe_failure from_std fault now aid test_id code msg latency g) =
    registry_view aid' g"
proof (cases "hg_database g")
  case None
  with memory_failure_view [OF assms] show ?thesis by (simp add: mark_probe_failure_def)
qed (simp add: mark_probe_failure_def registry_view_def failure_other_row assms)

lemma success_view:
  "aid' \<noteq> aid \<Longrightarrow> registry_view aid' (mark_success_with_source fault now aid source test_id latency g) =
   registry_view aid' g"
  by (cases "hg_database g")
    (simp_all add: mark_success_with_source_def registry_view_def success_other_row Let_def)

text \<open>
  Accounts are independent. Recording a failure, a success or a connection test for one account
  changes neither the reported health nor the availability of any other account, with or without a
  database and whatever faults it has.
\<close>

theorem accounts_independent:
  assumes "aid' \<noteq> aid" and "ct_account_id rec = Some aid"
    and "g' \<in> {fst (mark_failure_with_details from_std fault now aid source code msg g),
               mark_success_with_source fault now aid source test_id latency g,
               apply_connection_test from_std fault now rec g}"
  shows "get_health from_std ok t aid' g' = get_health from_std ok t aid' g \<and>
    is_available from_std ok t aid' g' = is_available from_std ok t aid' g"
proof (rule get_health_view)
  show "registry_view aid' g' = registry_view aid' g"
    using assms by (auto simp: failure_view success_view probe_failure_view apply_connection_test_def Let_def)
qed

theorem accounts_independent_witness:
  "is_available exact_from_std True 9 ''b''
     (mark_success_with_source NoFault 4 ''a1'' ''passive'' None None sample_registry) =
   is_available exact_from_std True 9 ''b'' sample_registry"
proof -
  let ?rec = "\<lparr>ct_id = 1, ct_account_id = Some ''a1'', ct_status = ''succeeded'', ct_latency_ms = 1,
    ct_error_code = None, ct_error_message = None\<rparr>"
  show ?thesis
    by (rule accounts_independent [where aid = "''a1''" and rec = ?rec and fault = NoFault and now = 4
          and source = "''passive''" and test_id = None and latency = None, THEN conjunct2]) simp_all
qed

text \<open>
  The failure transaction is atomic and its history has no noise. A driver error before
  the commit changes nothing and reports no cooldown; a missing or disabled account
  changes nothing; otherwise exactly one event is appended when the stored status of the
  account changes and none when it does not.
\<close>

theorem failure_transaction:
  assumes "record_account_health_failure from_std fault args aid now db = (db', result)"
  shows "(fault = FaultBeforeCommit \<longrightarrow> db' = db \<and> \<not> is_ok result) \<and>
    (case find_row aid (db_accounts db) of
       None \<Rightarrow> db' = db \<and> \<not> is_ok result
     | Some r \<Rightarrow>
         (\<not> (hr_enabled r \<and> hr_source_enabled r) \<longrightarrow> db' = db) \<and>
         (hr_enabled r \<and> hr_source_enabled r \<and> fault \<noteq> FaultBeforeCommit \<longrightarrow>
            (\<exists>r'. find_row aid (db_accounts db') = Some r' \<and>
               (if hr_health_status r' = hr_health_status r then db_events db' = db_events db
                else \<exists>e. db_events db' = db_events db @ [e] \<and> he_account_id e = aid \<and>
                       he_status e = hr_health_status r' \<and> he_cooldown_until e = hr_cooldown_until r'))))"
proof (cases "fault \<noteq> FaultBeforeCommit \<and> (\<exists>r. find_row aid (db_accounts db) = Some r \<and> hr_enabled r \<and> hr_source_enabled r)")
  case True
  then obtain r where r: "find_row aid (db_accounts db) = Some r" "hr_enabled r" "hr_source_enabled r"
    and fault: "fault \<noteq> FaultBeforeCommit" by auto
  obtain n w u st where v: "failure_values from_std (fa_base_cooldown args) (fa_max_cooldown args)
      (fa_failure_threshold args) (fa_failure_window args) now r = (n, w, u, st)" by (metis prod_cases4)
  let ?f = "failure_update (normalize_health_source (fa_source args)) (fa_error_message args) now (n, w, u, st)"
  have "hr_account_id (?f q) = hr_account_id q" for q by (simp add: failure_update_def)
  from find_row_update(1) [of ?f, OF this] r(1)
  have "find_row aid (update_row aid ?f (db_accounts db)) = Some (?f r)" by simp
  with assms r fault show ?thesis
    by (auto simp: record_account_health_failure_def v Let_def failure_update_def failure_event_def)
qed (use assms in \<open>auto simp: record_account_health_failure_def split: option.splits if_splits\<close>)

theorem failure_transaction_witness:
  "fst (record_account_health_failure exact_from_std FaultBeforeCommit
     (registry_failure_args health_config_default ''passive'' None None None None) ''a1'' 7
     \<lparr>db_accounts = [sample_row], db_events = []\<rparr>) = \<lparr>db_accounts = [sample_row], db_events = []\<rparr>"
proof -
  let ?db = "\<lparr>db_accounts = [sample_row], db_events = []\<rparr>"
  let ?args = "registry_failure_args health_config_default ''passive'' None None None None"
  obtain db' result where
    "record_account_health_failure exact_from_std FaultBeforeCommit ?args ''a1'' 7 ?db = (db', result)"
    by (metis prod.collapse)
  with failure_transaction [OF this] show ?thesis by simp
qed

definition error_safe :: "string option \<Rightarrow> bool" where
  "error_safe e \<longleftrightarrow> (case e of None \<Rightarrow> True | Some m \<Rightarrow> m \<in> set safe_errors)"

lemma sanitize_error_safe: "error_safe (sanitize_error e)"
  by (simp add: error_safe_def sanitize_error_def safe_errors_def split: option.splits)

lemma sanitizers_equal: "sanitize_health_error = sanitize_error"
  by (rule ext) (simp add: sanitize_health_error_def sanitize_error_def)

definition memory_errors_safe :: "health_registry \<Rightarrow> bool" where
  "memory_errors_safe g \<longleftrightarrow>
     (\<forall>p \<in> set (hg_state g). error_safe (ms_last_error (snd p)) \<and> error_safe (ms_last_probe_error (snd p)))"

lemma entry_errors_safe:
  assumes "memory_errors_safe g"
  shows "error_safe (ms_last_error (unwrap_or memory_unknown (hget (hg_state g) aid))) \<and>
    error_safe (ms_last_probe_error (unwrap_or memory_unknown (hget (hg_state g) aid)))"
  using assms by (cases "hget (hg_state g) aid")
    (auto simp: memory_errors_safe_def memory_unknown_def error_safe_def dest!: map_of_SomeD)

lemma memory_failure_entry_errors:
  "ms_last_error (fst (memory_failure_entry from_std c now source msg s)) = sanitize_error msg"
  "ms_last_probe_error (fst (memory_failure_entry from_std c now source msg s)) =
     (if source = ''probe'' then sanitize_error msg else ms_last_probe_error s)"
  by (simp_all add: memory_failure_entry_def Let_def split: prod.splits)

lemma memory_failure_errors:
  assumes "memory_errors_safe g"
  shows "memory_errors_safe (fst (mark_memory_failure from_std now aid source msg g))"
  using assms entry_errors_safe [OF assms, of aid]
    memory_failure_entry_errors [of from_std "hg_config g" now source msg "unwrap_or memory_unknown (hget (hg_state g) aid)"]
  by (auto simp: mark_memory_failure_def memory_errors_safe_def Let_def sanitize_error_safe
      split: prod.splits if_splits dest!: hinsert_set)

lemma success_errors:
  assumes "memory_errors_safe g"
  shows "memory_errors_safe (mark_success_with_source fault now aid source test_id latency g)"
  using assms entry_errors_safe [OF assms, of aid]
  by (auto simp: mark_success_with_source_def memory_errors_safe_def memory_success_entry_def Let_def error_safe_def
      split: option.splits if_splits dest!: hinsert_set)

lemma step_errors: "registry_step from_std g g' \<Longrightarrow> memory_errors_safe g \<Longrightarrow> memory_errors_safe g'"
proof (induction rule: registry_step.induct)
  case (failure g fault now aid source code msg)
  then show ?case
    by (cases "hg_database g")
      (simp_all add: mark_failure_with_details_def memory_failure_errors split: prod.splits,
        simp add: memory_errors_safe_def)
next
  case (probe g fault now rec)
  have "memory_errors_safe (mark_probe_failure from_std fault now aid test_id code msg latency g)" for aid test_id code msg latency
    using probe by (cases "hg_database g")
      (simp_all add: mark_probe_failure_def memory_failure_errors, simp add: memory_errors_safe_def)
  with probe show ?case by (auto simp: apply_connection_test_def Let_def success_errors split: option.splits)
qed (rule success_errors)

text \<open>
  No upstream text leaks through account health. In every reachable registry the last
  error and the last probe error reported for any account are absent or one of six fixed
  sentences, whatever message an observation carried and whatever a database row holds.
\<close>

theorem reported_errors_safe:
  assumes "registry_reachable from_std config g"
  shows "error_safe (ah_last_error (get_health from_std ok t aid g)) \<and>
    error_safe (ah_last_probe_error (get_health from_std ok t aid g))"
proof -
  from assms have safe: "memory_errors_safe g"
  proof (induction rule: registry_reachable.induct)
    case (step g g')
    then show ?case using step_errors by blast
  qed (simp_all add: memory_errors_safe_def with_config_and_clock_def with_database_config_and_clock_def)
  have unknown: "error_safe (ah_last_error (unknown_health b s))" "error_safe (ah_last_probe_error (unknown_health b s))" for b s
    by (simp_all add: unknown_health_def error_safe_def)
  show ?thesis
  proof (cases "hg_database g")
    case None
    with entry_errors_safe [OF safe, of aid] unknown show ?thesis
      by (cases "hget (hg_state g) aid") (simp_all add: get_health_def memory_health_def Let_def)
  next
    case (Some db)
    with unknown show ?thesis
      by (cases ok; cases "find_row aid (db_accounts db)")
        (simp_all add: get_health_def Infra_Db_Health.account_health_def health_from_row_def Let_def
          sanitize_error_safe)
  qed
qed

theorem reported_errors_safe_witness:
  "error_safe (ah_last_error (get_health exact_from_std True 3 ''a1'' sample_registry))"
  using reported_errors_safe [OF sample_registry_reachable] by blast

end
