(* ===== verification/Proxy_Usage.thy ===== *)
theory Proxy_Usage
  imports Json_Value
begin

text \<open>
  \<open>src/proxy/usage.rs\<close>, the part that reads token counters: normalisation of the providers'
  usage objects, the cumulative SSE accumulator, the identity an upstream reports, and the
  choice between reported, estimated and missing usage. \<open>tokenize\<close> stands for the number of
  tokens the \<open>cl100k\<close> tokenizer finds in a text; counters are \<open>i64\<close> and wrap like the release
  build.
\<close>

record usage_report =
  ur_input_tokens :: i64
  ur_output_tokens :: i64
  ur_reasoning_tokens :: i64
  ur_cached_tokens :: i64
  ur_cache_read_tokens :: i64
  ur_cache_creation_tokens :: i64
  ur_total_tokens :: i64
  ur_source :: string

definition MAX_ESTIMATE_BYTES :: nat where
  "MAX_ESTIMATE_BYTES = 256 * 1024"

definition usage_missing :: usage_report where
  "usage_missing =
     \<lparr>ur_input_tokens = 0, ur_output_tokens = 0, ur_reasoning_tokens = 0, ur_cached_tokens = 0,
      ur_cache_read_tokens = 0, ur_cache_creation_tokens = 0, ur_total_tokens = 0, ur_source = ''missing''\<rparr>"

definition is_present :: "usage_report \<Rightarrow> bool" where
  "is_present r \<longleftrightarrow>
     0 <s ur_input_tokens r \<or> 0 <s ur_output_tokens r \<or> 0 <s ur_reasoning_tokens r \<or>
     0 <s ur_cached_tokens r \<or> 0 <s ur_cache_read_tokens r \<or> 0 <s ur_cache_creation_tokens r \<or>
     0 <s ur_total_tokens r"

section \<open>Usage objects\<close>

definition get_i64 :: "json \<Rightarrow> string \<Rightarrow> i64 option" where
  "get_i64 v key = Option.bind (json_get v key) json_as_i64"

definition i64_at :: "json \<Rightarrow> string \<Rightarrow> i64" where
  "i64_at v key = unwrap_or 0 (get_i64 v key)"

definition usage_value :: "json \<Rightarrow> json option" where
  "usage_value v =
     or_else (json_get v ''usage'')
       (or_else (json_path2 v ''response'' ''usage'')
         (or_else (json_path2 v ''message'' ''usage'') (json_path2 v ''delta'' ''usage'')))"

definition report_from_usage :: "json \<Rightarrow> usage_report" where
  "report_from_usage usage =
     (let inp = (if json_get usage ''input_tokens'' \<noteq> None then i64_at usage ''input_tokens''
                 else i64_at usage ''prompt_tokens'');
          outp = (if json_get usage ''output_tokens'' \<noteq> None then i64_at usage ''output_tokens''
                  else i64_at usage ''completion_tokens'');
          reasoning =
            unwrap_or (i64_at usage ''reasoning_tokens'')
              (or_else (map_option (\<lambda>v. i64_at v ''reasoning_tokens'') (json_get usage ''output_tokens_details''))
                 (map_option (\<lambda>v. i64_at v ''reasoning_tokens'') (json_get usage ''completion_tokens_details'')));
          (cache_read, cache_creation) =
            (case or_else (json_get usage ''input_tokens_details'') (json_get usage ''prompt_tokens_details'') of
               Some details \<Rightarrow> (i64_at details ''cached_tokens'', 0)
             | None \<Rightarrow> (i64_at usage ''cache_read_input_tokens'' + i64_at usage ''cached_tokens'',
                        i64_at usage ''cache_creation_input_tokens''));
          total = unwrap_or (inp + outp) (get_i64 usage ''total_tokens'')
      in \<lparr>ur_input_tokens = inp, ur_output_tokens = outp, ur_reasoning_tokens = reasoning,
          ur_cached_tokens = cache_read + cache_creation, ur_cache_read_tokens = cache_read,
          ur_cache_creation_tokens = cache_creation, ur_total_tokens = total, ur_source = ''upstream''\<rparr>)"

definition extract_json :: "json \<Rightarrow> usage_report option" where
  "extract_json v =
     (case usage_value v of None \<Rightarrow> None
      | Some usage \<Rightarrow> let r = report_from_usage usage in if is_present r then Some r else None)"

section \<open>The SSE accumulator\<close>

text \<open>
  \<open>serde_json::Map\<close> is a \<open>BTreeMap\<close>; \<open>binsert\<close> keeps its key order.
\<close>

definition token_keys :: "string list" where
  "token_keys = [''input_tokens'', ''prompt_tokens'', ''output_tokens'', ''completion_tokens'']"

definition counter_keys :: "string list" where
  "counter_keys =
     [''input_tokens'', ''prompt_tokens'', ''output_tokens'', ''completion_tokens'', ''total_tokens'',
      ''reasoning_tokens'', ''cached_tokens'', ''cache_read_input_tokens'', ''cache_creation_input_tokens'']"

definition detail_keys :: "(string \<times> string) list" where
  "detail_keys =
     [(''input_tokens_details'', ''cached_tokens''), (''prompt_tokens_details'', ''cached_tokens''),
      (''output_tokens_details'', ''reasoning_tokens''), (''completion_tokens_details'', ''reasoning_tokens'')]"

definition bremove :: "'k \<Rightarrow> ('k, 'v) bmap \<Rightarrow> ('k, 'v) bmap" where
  "bremove k m = filter (\<lambda>p. fst p \<noteq> k) m"

definition merge_counter :: "json \<Rightarrow> string \<Rightarrow> (string, json) bmap \<Rightarrow> (string, json) bmap" where
  "merge_counter usage key m =
     (case get_i64 usage key of Some n \<Rightarrow> binsert key (json_of_i64 n) m | None \<Rightarrow> m)"

definition merge_detail :: "json \<Rightarrow> string \<times> string \<Rightarrow> (string, json) bmap \<Rightarrow> (string, json) bmap" where
  "merge_detail usage = (\<lambda>(details, key) m.
     case Option.bind (json_path2 usage details key) json_as_i64 of
       Some n \<Rightarrow> binsert details (JObject [(key, json_of_i64 n)]) m
     | None \<Rightarrow> m)"

definition merge_sse_usage :: "(string, json) bmap \<Rightarrow> json \<Rightarrow> (string, json) bmap" where
  "merge_sse_usage current usage =
     (let stale = (get_i64 usage ''total_tokens'' = None \<and> list_ex (\<lambda>key. get_i64 usage key \<noteq> None) token_keys);
          current = (if stale then bremove ''total_tokens'' current else current)
      in fold (merge_detail usage) detail_keys (fold (merge_counter usage) counter_keys current))"

record sse_usage_accumulator =
  su_counters :: "(string, json) bmap"
  su_data_event_count :: u64
  su_json_parse_failures :: u64
  su_json_without_usage :: u64

definition sse_usage_default :: sse_usage_accumulator where
  "sse_usage_default =
     \<lparr>su_counters = [], su_data_event_count = 0, su_json_parse_failures = 0, su_json_without_usage = 0\<rparr>"

definition usage_observe :: "string \<Rightarrow> json option \<Rightarrow> sse_usage_accumulator \<Rightarrow> sse_usage_accumulator" where
  "usage_observe data parsed a =
     (if data = [] \<or> data = ''[DONE]'' then a
      else let a = a\<lparr>su_data_event_count := saturating_add (su_data_event_count a) 1\<rparr> in
        case parsed of
          Some v \<Rightarrow>
            (case usage_value v of
               Some usage \<Rightarrow> a\<lparr>su_counters := merge_sse_usage (su_counters a) usage\<rparr>
             | None \<Rightarrow> a\<lparr>su_json_without_usage := saturating_add (su_json_without_usage a) 1\<rparr>)
        | None \<Rightarrow> a\<lparr>su_json_parse_failures := saturating_add (su_json_parse_failures a) 1\<rparr>)"

definition usage_accumulated :: "sse_usage_accumulator \<Rightarrow> usage_report option" where
  "usage_accumulated a =
     (if su_counters a = [] then None
      else Some ((report_from_usage (JObject (su_counters a)))\<lparr>ur_source := ''parsed''\<rparr>))"

section \<open>Response identity\<close>

record response_identity =
  ri_model :: "string option"
  ri_reasoning_effort :: "string option"

definition response_identity_default :: response_identity where
  "response_identity_default = \<lparr>ri_model = None, ri_reasoning_effort = None\<rparr>"

definition non_empty_string :: "json option \<Rightarrow> string option" where
  "non_empty_string v = option_filter (\<lambda>t. t \<noteq> []) (map_option trim (Option.bind v json_as_str))"

definition response_identity_from_json :: "json \<Rightarrow> response_identity" where
  "response_identity_from_json v =
     \<lparr>ri_model = or_else (non_empty_string (json_get v ''model''))
        (or_else (non_empty_string (json_path2 v ''response'' ''model''))
                 (non_empty_string (json_path2 v ''message'' ''model''))),
      ri_reasoning_effort = or_else (non_empty_string (json_get v ''reasoning_effort''))
        (or_else (non_empty_string (json_path2 v ''reasoning'' ''effort''))
                 (non_empty_string (json_path3 v ''response'' ''reasoning'' ''effort'')))\<rparr>"

definition identity_observe :: "json \<Rightarrow> response_identity \<Rightarrow> response_identity" where
  "identity_observe v i =
     (let new = response_identity_from_json v in
      \<lparr>ri_model = or_else (ri_model i) (ri_model new),
       ri_reasoning_effort = or_else (ri_reasoning_effort i) (ri_reasoning_effort new)\<rparr>)"

definition requested_reasoning_effort :: "json_parser \<Rightarrow> string \<Rightarrow> string option" where
  "requested_reasoning_effort parse request_body =
     (case parse request_body of None \<Rightarrow> None
      | Some v \<Rightarrow>
          or_else (non_empty_string (json_get v ''reasoning_effort''))
            (or_else (non_empty_string (json_path2 v ''reasoning'' ''effort''))
                     (non_empty_string (json_get v ''effort''))))"

section \<open>Estimates\<close>

definition estimate :: "(string \<Rightarrow> nat) \<Rightarrow> string \<Rightarrow> string \<Rightarrow> usage_report" where
  "estimate tokenize inp outp =
     (let i = word_of_nat (tokenize (from_utf8_lossy inp));
          t = word_of_nat (tokenize (from_utf8_lossy outp))
      in usage_missing\<lparr>ur_input_tokens := i, ur_output_tokens := t, ur_total_tokens := i + t,
                       ur_source := ''estimated''\<rparr>)"

definition observe_json_response ::
  "json_parser \<Rightarrow> (string \<Rightarrow> nat) \<Rightarrow> bool \<Rightarrow> string \<Rightarrow> string \<Rightarrow> usage_report \<times> response_identity" where
  "observe_json_response parse tokenize success request response =
     (let parsed = parse response;
          report = unwrap_or (if success then estimate tokenize request response else usage_missing)
                     (Option.bind parsed extract_json);
          identity = unwrap_or response_identity_default (map_option response_identity_from_json parsed)
      in (report, identity))"

section \<open>The accumulator keeps the last reported values\<close>

lemma map_of_bremove: "map_of (bremove k m) x = (if x = k then None else map_of m x)"
  unfolding bremove_def by (induction m) auto

lemma fold_merge_counter:
  assumes "distinct keys"
  shows "map_of (fold (merge_counter usage) keys m) k =
    (if k \<in> set keys then (case get_i64 usage k of Some n \<Rightarrow> Some (json_of_i64 n) | None \<Rightarrow> map_of m k) else map_of m k)"
  using assms
  by (induction keys arbitrary: m) (auto simp: merge_counter_def bget_binsert split: option.splits)

lemma fold_merge_detail_other:
  assumes "d \<notin> fst ` set ks"
  shows "map_of (fold (merge_detail usage) ks m) d = map_of m d"
  using assms by (induction ks arbitrary: m) (auto simp: merge_detail_def bget_binsert split: option.splits)

definition reports_tokens :: "json \<Rightarrow> bool" where
  "reports_tokens usage \<longleftrightarrow> (\<exists>key \<in> set token_keys. get_i64 usage key \<noteq> None)"

lemma merge_lookup:
  assumes "k \<in> set counter_keys"
  shows "map_of (merge_sse_usage m usage) k =
    (case get_i64 usage k of
       Some n \<Rightarrow> Some (json_of_i64 n)
     | None \<Rightarrow> if k = ''total_tokens'' \<and> reports_tokens usage then None else map_of m k)"
proof -
  have "k \<notin> fst ` set detail_keys" using assms by (auto simp: counter_keys_def detail_keys_def)
  moreover have "distinct counter_keys" by (simp add: counter_keys_def)
  moreover have "list_ex (\<lambda>key. get_i64 usage key \<noteq> None) token_keys \<longleftrightarrow> reports_tokens usage"
    by (auto simp: reports_tokens_def list_ex_iff)
  ultimately show ?thesis
    using assms
    by (auto simp: merge_sse_usage_def Let_def fold_merge_detail_other fold_merge_counter map_of_bremove
        split: option.splits)
qed

text \<open>The specification: the last value reported for a key, and the total as last reported unless outdated.\<close>

definition last_reported :: "string \<Rightarrow> json list \<Rightarrow> i64 option" where
  "last_reported k us = foldl (\<lambda>a u. or_else (get_i64 u k) a) None us"

definition last_total :: "json list \<Rightarrow> i64 option" where
  "last_total us =
     foldl (\<lambda>a u. or_else (get_i64 u ''total_tokens'') (if reports_tokens u then None else a)) None us"

lemma foldl_merge_counter:
  assumes "k \<in> set counter_keys" "k \<noteq> ''total_tokens''"
  shows "map_of (foldl merge_sse_usage [] us) k = map_option json_of_i64 (last_reported k us)"
  using assms
  by (induction us rule: rev_induct) (auto simp: last_reported_def merge_lookup or_else_def split: option.splits)

lemma foldl_merge_total:
  "map_of (foldl merge_sse_usage [] us) ''total_tokens'' = map_option json_of_i64 (last_total us)"
proof -
  have "''total_tokens'' \<in> set counter_keys" by (simp add: counter_keys_def)
  then show ?thesis
    by (induction us rule: rev_induct) (auto simp: last_total_def merge_lookup or_else_def split: option.splits)
qed

text \<open>
  Usage accumulated over a stream is what the provider last reported. After any
  sequence of usage objects, input and output are the last values reported for them under either
  provider's name, where a reported zero counts and an omitted counter keeps its value; the
  total is the last explicit total unless a later object reported other counters without
  one, and then it is input plus output (wrapping at 64 bits); cached is read plus creation.
\<close>

theorem sse_usage_last_reported:
  "let r = report_from_usage (JObject (foldl merge_sse_usage [] us)) in
   ur_input_tokens r = unwrap_or (unwrap_or 0 (last_reported ''prompt_tokens'' us)) (last_reported ''input_tokens'' us) \<and>
   ur_output_tokens r = unwrap_or (unwrap_or 0 (last_reported ''completion_tokens'' us)) (last_reported ''output_tokens'' us) \<and>
   ur_total_tokens r = unwrap_or (ur_input_tokens r + ur_output_tokens r) (last_total us) \<and>
   ur_cached_tokens r = ur_cache_read_tokens r + ur_cache_creation_tokens r"
proof -
  let ?c = "foldl merge_sse_usage [] us"
  have k: "map_of ?c ''input_tokens'' = map_option json_of_i64 (last_reported ''input_tokens'' us)"
    "map_of ?c ''prompt_tokens'' = map_option json_of_i64 (last_reported ''prompt_tokens'' us)"
    "map_of ?c ''output_tokens'' = map_option json_of_i64 (last_reported ''output_tokens'' us)"
    "map_of ?c ''completion_tokens'' = map_option json_of_i64 (last_reported ''completion_tokens'' us)"
    by (rule foldl_merge_counter; simp add: counter_keys_def)+
  show ?thesis
    by (cases "last_reported ''input_tokens'' us"; cases "last_reported ''prompt_tokens'' us";
        cases "last_reported ''output_tokens'' us"; cases "last_reported ''completion_tokens'' us";
        cases "last_total us")
      (simp_all add: report_from_usage_def i64_at_def get_i64_def k foldl_merge_total Let_def split: prod.splits)
qed

lemma usage_observe_counters:
  assumes "data \<noteq> []" "data \<noteq> ''[DONE]''" "usage_value v = Some u"
  shows "su_counters (usage_observe data (Some v) a) = merge_sse_usage (su_counters a) u"
  using assms by (simp add: usage_observe_def Let_def)

end
