(* ===== verification/Infra_Db_Usage.thy ===== *)
theory Infra_Db_Usage
  imports Infra_Db_Health Proxy_Usage
begin

text \<open>
  The usage tables of \<open>src/infra/db.rs\<close> and the write of \<open>src/infra/db/usage.rs\<close>: one row per
  request and one per upstream attempt, inserted in one transaction whose conflict clauses
  make it idempotent.
\<close>

record usage_event =
  ue_request_id :: string
  ue_virtual_key_id :: "int option"
  ue_provider_id :: string
  ue_account_id :: string
  ue_model :: string
  ue_logical_model :: string
  ue_upstream_model_id :: "string option"
  ue_source_id :: string
  ue_client_source :: string
  ue_protocol_in :: string
  ue_protocol_upstream :: string
  ue_mode :: string
  ue_status_code :: int
  ue_success :: bool
  ue_retry_count :: int
  ue_latency_ms :: i64
  ue_ttft_ms :: "i64 option"
  ue_input_tokens :: i64
  ue_output_tokens :: i64
  ue_reasoning_tokens :: i64
  ue_cached_tokens :: i64
  ue_cache_read_tokens :: i64
  ue_cache_creation_tokens :: i64
  ue_total_tokens :: i64
  ue_usage_source :: string
  ue_degraded :: bool
  ue_route_id :: "string option"
  ue_streamed :: bool
  ue_error_summary :: "string option"
  ue_fallback_reason :: "string option"
  ue_response_model :: "string option"
  ue_requested_reasoning_effort :: "string option"
  ue_response_reasoning_effort :: "string option"

record usage_attempt =
  ua_attempt_no :: int
  ua_provider_id :: string
  ua_source_id :: string
  ua_account_id :: string
  ua_upstream_model_id :: "string option"
  ua_status_code :: int
  ua_success :: bool
  ua_latency_ms :: i64

text \<open>The rows of \<open>usage_events\<close> and of \<open>usage_event_attempts\<close> (with the request they belong to).\<close>

record usage_db =
  ud_events :: "usage_event list"
  ud_attempts :: "(string \<times> usage_attempt) list"

definition insert_event :: "usage_event \<Rightarrow> usage_db \<Rightarrow> usage_db" where
  "insert_event e db =
     (if ue_request_id e \<in> ue_request_id ` set (ud_events db) then db
      else db\<lparr>ud_events := ud_events db @ [e]\<rparr>)"

definition insert_attempt :: "string \<Rightarrow> usage_attempt \<Rightarrow> usage_db \<Rightarrow> usage_db" where
  "insert_attempt rid a db =
     (if (rid, ua_attempt_no a) \<in> (\<lambda>(r, x). (r, ua_attempt_no x)) ` set (ud_attempts db) then db
      else db\<lparr>ud_attempts := ud_attempts db @ [(rid, a)]\<rparr>)"

definition usage_rows :: "usage_event \<Rightarrow> usage_attempt list \<Rightarrow> usage_db \<Rightarrow> usage_db" where
  "usage_rows e attempts db = fold (insert_attempt (ue_request_id e)) attempts (insert_event e db)"

definition insert_usage_with_attempts ::
  "db_fault \<Rightarrow> usage_event \<Rightarrow> usage_attempt list \<Rightarrow> usage_db \<Rightarrow> usage_db \<times> (unit, sqlx_error) result" where
  "insert_usage_with_attempts fault e attempts db =
     (case fault of
        NoFault \<Rightarrow> (usage_rows e attempts db, Ok ())
      | FaultBeforeCommit \<Rightarrow> (db, Err DriverError)
      | FaultAfterCommit \<Rightarrow> (usage_rows e attempts db, Err DriverError))"

section \<open>Keys\<close>

definition event_keys :: "usage_db \<Rightarrow> string list" where
  "event_keys db = map ue_request_id (ud_events db)"

definition attempt_keys :: "usage_db \<Rightarrow> (string \<times> int) list" where
  "attempt_keys db = map (\<lambda>(r, a). (r, ua_attempt_no a)) (ud_attempts db)"

definition usage_db_ok :: "usage_db \<Rightarrow> bool" where
  "usage_db_ok db \<longleftrightarrow>
     distinct (event_keys db) \<and> distinct (attempt_keys db) \<and> fst ` set (attempt_keys db) \<subseteq> set (event_keys db)"

lemma event_keys_insert:
  "event_keys (insert_event e db) =
     (if ue_request_id e \<in> set (event_keys db) then event_keys db else event_keys db @ [ue_request_id e])"
  by (simp add: event_keys_def insert_event_def)

lemma attempt_keys_insert:
  "attempt_keys (insert_attempt rid a db) =
     (if (rid, ua_attempt_no a) \<in> set (attempt_keys db) then attempt_keys db
      else attempt_keys db @ [(rid, ua_attempt_no a)])"
  by (simp add: attempt_keys_def insert_attempt_def)

lemma insert_other [simp]:
  "attempt_keys (insert_event e db) = attempt_keys db"
  "ud_attempts (insert_event e db) = ud_attempts db"
  "ud_events (insert_attempt rid a db) = ud_events db"
  "event_keys (insert_attempt rid a db) = event_keys db"
  by (simp_all add: event_keys_def attempt_keys_def insert_event_def insert_attempt_def)

lemma fold_attempts_events [simp]:
  "ud_events (fold (insert_attempt rid) as db) = ud_events db"
  "event_keys (fold (insert_attempt rid) as db) = event_keys db"
  by (induction as arbitrary: db) simp_all

lemma fold_attempts_keys:
  "set (attempt_keys (fold (insert_attempt rid) as db)) =
     set (attempt_keys db) \<union> Pair rid ` ua_attempt_no ` set as"
  by (induction as arbitrary: db) (auto simp: attempt_keys_insert)

lemma fold_attempts_distinct:
  "distinct (attempt_keys db) \<Longrightarrow> distinct (attempt_keys (fold (insert_attempt rid) as db))"
  by (induction as arbitrary: db) (auto simp: attempt_keys_insert)

lemma usage_db_ok_rows: "usage_db_ok db \<Longrightarrow> usage_db_ok (usage_rows e as db)"
  by (auto simp: usage_db_ok_def usage_rows_def fold_attempts_distinct fold_attempts_keys event_keys_insert)

lemma insert_attempt_present:
  "(rid, ua_attempt_no a) \<in> set (attempt_keys db) \<Longrightarrow> insert_attempt rid a db = db"
  by (auto simp: insert_attempt_def attempt_keys_def)

lemma fold_attempts_present:
  "Pair rid ` ua_attempt_no ` set as \<subseteq> set (attempt_keys db) \<Longrightarrow> fold (insert_attempt rid) as db = db"
  by (induction as) (auto simp: insert_attempt_present)

lemma usage_rows_idem: "usage_rows e as (usage_rows e as db) = usage_rows e as db"
proof -
  let ?d = "usage_rows e as db"
  have "insert_event e ?d = ?d"
    using event_keys_insert [of e db] by (auto simp: insert_event_def usage_rows_def event_keys_def)
  moreover have "fold (insert_attempt (ue_request_id e)) as ?d = ?d"
    by (rule fold_attempts_present) (simp add: usage_rows_def fold_attempts_keys)
  ultimately show ?thesis by (simp add: usage_rows_def [of e as ?d])
qed

section \<open>The rows of one request\<close>

definition rows_of :: "string \<Rightarrow> usage_db \<Rightarrow> usage_event list \<times> usage_attempt list" where
  "rows_of rid db =
     (filter (\<lambda>e. ue_request_id e = rid) (ud_events db), map snd (filter (\<lambda>(r, _). r = rid) (ud_attempts db)))"

lemma insert_event_rows:
  "rows_of (ue_request_id e) (insert_event e db) =
     (if fst (rows_of (ue_request_id e) db) = [] then [e] else fst (rows_of (ue_request_id e) db),
      snd (rows_of (ue_request_id e) db))"
  by (auto simp: rows_of_def insert_event_def filter_empty_conv image_iff)

lemma insert_attempt_rows:
  "rows_of rid (insert_attempt rid a db) =
     (fst (rows_of rid db),
      if ua_attempt_no a \<in> ua_attempt_no ` set (snd (rows_of rid db)) then snd (rows_of rid db)
      else snd (rows_of rid db) @ [a])"
  by (force simp: rows_of_def insert_attempt_def image_iff)

lemma fold_attempts_rows:
  "distinct (map ua_attempt_no (snd (rows_of rid db) @ as)) \<Longrightarrow>
   rows_of rid (fold (insert_attempt rid) as db) = (fst (rows_of rid db), snd (rows_of rid db) @ as)"
  by (induction as arbitrary: db) (auto simp: insert_attempt_rows)

lemma fold_attempts_rows_present:
  "ua_attempt_no ` set as \<subseteq> ua_attempt_no ` set (snd (rows_of rid db)) \<Longrightarrow>
   rows_of rid (fold (insert_attempt rid) as db) = rows_of rid db"
proof (induction as arbitrary: db)
  case (Cons a as)
  then have "rows_of rid (insert_attempt rid a db) = rows_of rid db" by (simp add: insert_attempt_rows)
  with Cons show ?case by simp
qed simp

lemma usage_rows_fresh:
  assumes "rows_of (ue_request_id e) db = ([], [])" "distinct (map ua_attempt_no as)"
  shows "rows_of (ue_request_id e) (usage_rows e as db) = ([e], as)"
  using assms by (simp add: usage_rows_def fold_attempts_rows insert_event_rows)

lemma usage_rows_again:
  assumes "rows_of (ue_request_id e) db = ([e], as)"
  shows "rows_of (ue_request_id e) (usage_rows e as db) = ([e], as)"
proof -
  have "rows_of (ue_request_id e) (insert_event e db) = ([e], as)" using assms by (simp add: insert_event_rows)
  then show ?thesis by (simp add: usage_rows_def fold_attempts_rows_present)
qed

end
