(* ===== verification/Infra_Virtual_Keys.thy ===== *)
theory Infra_Virtual_Keys
  imports Infra_Db_Health
begin

text \<open>
  \<open>src/infra/db/virtual_keys.rs\<close>: the keys clients authenticate with. Only a digest of a key is
  stored; \<open>digest\<close> stands for the hexadecimal SHA-256. The table's unique constraint on the digest is
  part of the insert. \<open>now\<close> is the gateway's clock and \<open>tx_now\<close> the database's, which is constant
  within a transaction.
\<close>

section \<open>The table\<close>

record virtual_key =
  vk_id :: int
  vk_name :: string
  vk_key_prefix :: string
  vk_key_hash :: string
  vk_key_ciphertext :: "string option"
  vk_allowed_models :: json
  vk_scopes :: json
  vk_key_group :: "string option"
  vk_enabled :: bool
  vk_updated_at :: date_time
  vk_last_used_at :: "date_time option"
  vk_expires_at :: "date_time option"
  vk_revoked_at :: "date_time option"
  vk_replaced_by_id :: "int option"
  vk_overlap_until :: "date_time option"
  vk_origin :: string

record key_db =
  kd_keys :: "virtual_key list"
  kd_next_id :: int

record virtual_key_material =
  vm_raw :: string
  vm_prefix :: string
  vm_hash :: string

record rotation_options =
  ro_overlap :: duration
  ro_expires_at :: "date_time option"
  ro_name :: "string option"
  ro_allowed_models :: "string list option"
  ro_scopes :: "string list option"
  ro_key_group :: "string option option"

record virtual_key_rotation =
  vr_old_id :: int
  vr_new_id :: int
  vr_key_prefix :: string
  vr_key :: string
  vr_overlap_until :: "date_time option"

datatype virtual_key_error = KeyDatabase sqlx_error | KeyNotFound | KeyConflict string | KeyValidation string

definition VIRTUAL_KEY_INVOKE_SCOPE :: string where
  "VIRTUAL_KEY_INVOKE_SCOPE = ''gateway:invoke''"

definition VIRTUAL_KEY_MODELS_SCOPE :: string where
  "VIRTUAL_KEY_MODELS_SCOPE = ''gateway:models:read''"

section \<open>Helpers\<close>

definition key_material :: "(string \<Rightarrow> string) \<Rightarrow> string \<Rightarrow> virtual_key_material" where
  "key_material digest uuid_simple =
     (let raw = ''gw_'' @ uuid_simple in \<lparr>vm_raw = raw, vm_prefix = take 11 raw, vm_hash = digest raw\<rparr>)"

definition json_strings :: "string list \<Rightarrow> json" where
  "json_strings xs = JArray (map JString xs)"

definition scopes_json :: "string list \<Rightarrow> json" where
  "scopes_json scopes = (if scopes = [] then JArray [JString VIRTUAL_KEY_INVOKE_SCOPE] else json_strings scopes)"

definition allowed_models_allow :: "json \<Rightarrow> string option \<Rightarrow> bool" where
  "allowed_models_allow v model =
     (let allowed = unwrap_or [] (json_as_array v) in
      allowed = [] \<or> model = None \<or> list_ex (\<lambda>item. json_as_str item = model \<or> json_as_str item = Some ''*'') allowed)"

definition scope_allow :: "json \<Rightarrow> string \<Rightarrow> bool" where
  "scope_allow v required =
     list_ex (\<lambda>item. json_as_str item = Some ''*'' \<or> json_as_str item = Some required \<or>
         (required = VIRTUAL_KEY_MODELS_SCOPE \<and> json_as_str item = Some VIRTUAL_KEY_INVOKE_SCOPE))
       (unwrap_or [] (json_as_array v))"

fun validate_virtual_key_scopes :: "string list \<Rightarrow> (unit, string) result" where
  "validate_virtual_key_scopes [] = Ok ()"
| "validate_virtual_key_scopes (scope # rest) =
     (if scope \<in> {VIRTUAL_KEY_INVOKE_SCOPE, VIRTUAL_KEY_MODELS_SCOPE, ''*''} then validate_virtual_key_scopes rest
      else Err (''unsupported virtual key scope '' @ quoted scope))"

definition find_key :: "int \<Rightarrow> key_db \<Rightarrow> virtual_key option" where
  "find_key kid db = List.find (\<lambda>k. vk_id k = kid) (kd_keys db)"

definition update_keys :: "(virtual_key \<Rightarrow> bool) \<Rightarrow> (virtual_key \<Rightarrow> virtual_key) \<Rightarrow> key_db \<Rightarrow> key_db" where
  "update_keys P f db = db\<lparr>kd_keys := map (\<lambda>k. if P k then f k else k) (kd_keys db)\<rparr>"

text \<open>The row \<open>INSERT\<close> of a create or a rotation, which fails on a digest already present.\<close>

definition new_key ::
  "date_time \<Rightarrow> string \<Rightarrow> virtual_key_material \<Rightarrow> string option \<Rightarrow> json \<Rightarrow> json \<Rightarrow> string option \<Rightarrow> date_time option
   \<Rightarrow> string \<Rightarrow> int \<Rightarrow> virtual_key" where
  "new_key tx_now name material ciphertext models scopes key_group expires_at origin kid =
     \<lparr>vk_id = kid, vk_name = name, vk_key_prefix = vm_prefix material, vk_key_hash = vm_hash material,
      vk_key_ciphertext = ciphertext, vk_allowed_models = models, vk_scopes = scopes, vk_key_group = key_group,
      vk_enabled = True, vk_updated_at = tx_now, vk_last_used_at = None, vk_expires_at = expires_at,
      vk_revoked_at = None, vk_replaced_by_id = None, vk_overlap_until = None, vk_origin = origin\<rparr>"

definition insert_key :: "(int \<Rightarrow> virtual_key) \<Rightarrow> key_db \<Rightarrow> (int \<times> key_db, sqlx_error) result" where
  "insert_key mk db =
     (let kid = kd_next_id db; k = mk kid in
      if vk_key_hash k \<in> vk_key_hash ` set (kd_keys db) then Err DriverError
      else Ok (kid, db\<lparr>kd_keys := kd_keys db @ [k], kd_next_id := kid + 1\<rparr>))"

section \<open>Lifecycle\<close>

definition create_virtual_key_with_material ::
  "date_time \<Rightarrow> string \<Rightarrow> string list \<Rightarrow> string list \<Rightarrow> date_time option \<Rightarrow> string option \<Rightarrow> string
   \<Rightarrow> virtual_key_material \<Rightarrow> string option \<Rightarrow> key_db \<Rightarrow> key_db \<times> (int \<times> string, sqlx_error) result" where
  "create_virtual_key_with_material tx_now name allowed_models scopes expires_at key_group origin material ciphertext db =
     (case insert_key (new_key tx_now name material ciphertext (json_strings allowed_models) (scopes_json scopes)
             key_group expires_at origin) db of
        Inl e \<Rightarrow> (db, Err e)
      | Inr (kid, db') \<Rightarrow> (db', Ok (kid, vm_raw material)))"

definition revoke_virtual_key :: "date_time \<Rightarrow> int \<Rightarrow> key_db \<Rightarrow> key_db \<times> bool" where
  "revoke_virtual_key tx_now kid db =
     (let hit = (\<lambda>k. vk_id k = kid \<and> vk_enabled k \<and> vk_revoked_at k = None) in
      (update_keys hit (\<lambda>k. k\<lparr>vk_enabled := False, vk_revoked_at := or_else (vk_revoked_at k) (Some tx_now),
                              vk_updated_at := tx_now\<rparr>) db,
       list_ex hit (kd_keys db)))"

definition retire_key :: "date_time \<Rightarrow> int \<Rightarrow> date_time option \<Rightarrow> virtual_key \<Rightarrow> virtual_key" where
  "retire_key tx_now new_id overlap_until k =
     k\<lparr>vk_replaced_by_id := Some new_id, vk_overlap_until := overlap_until,
       vk_enabled := (if overlap_until = None then False else vk_enabled k),
       vk_revoked_at := (if overlap_until = None then or_else (vk_revoked_at k) (Some tx_now) else vk_revoked_at k),
       vk_updated_at := tx_now\<rparr>"

definition rotate_virtual_key_with_material ::
  "(duration \<Rightarrow> int option) \<Rightarrow> date_time \<Rightarrow> date_time \<Rightarrow> int \<Rightarrow> rotation_options \<Rightarrow> virtual_key_material
   \<Rightarrow> string option \<Rightarrow> key_db \<Rightarrow> key_db \<times> (virtual_key_rotation, virtual_key_error) result" where
  "rotate_virtual_key_with_material from_std now tx_now kid options material ciphertext db =
     (if duration_from_secs 86400 < ro_overlap options then
        (db, Err (KeyValidation ''overlap window must be at most 86400 seconds''))
      else case find_key kid db of
        None \<Rightarrow> (db, Err KeyNotFound)
      | Some old \<Rightarrow>
          if \<not> vk_enabled old \<or> vk_revoked_at old \<noteq> None then
            (db, Err (KeyConflict ''virtual key is disabled or revoked''))
          else if (case vk_expires_at old of Some e \<Rightarrow> e \<le> now | None \<Rightarrow> False) then
            (db, Err (KeyConflict ''virtual key is expired''))
          else if vk_replaced_by_id old \<noteq> None then
            (db, Err (KeyConflict ''virtual key has already been rotated''))
          else
            case (if ro_overlap options = 0 then Ok None
                  else case from_std (ro_overlap options) of
                         None \<Rightarrow> Err (KeyValidation ''invalid overlap window'')
                       | Some d \<Rightarrow> Ok (Some (now + d))) of
              Inl e \<Rightarrow> (db, Err e)
            | Inr overlap_until \<Rightarrow>
                let models = unwrap_or (vk_allowed_models old) (map_option json_strings (ro_allowed_models options));
                    scopes = unwrap_or (vk_scopes old) (map_option scopes_json (ro_scopes options));
                    expires_at = or_else (ro_expires_at options) (vk_expires_at old);
                    name = unwrap_or (vk_name old) (ro_name options);
                    key_group = or_else (Option.bind (ro_key_group options) (\<lambda>g. g)) (vk_key_group old)
                in case insert_key (new_key tx_now name material ciphertext models scopes key_group expires_at ''rotated'') db of
                     Inl e \<Rightarrow> (db, Err (KeyDatabase e))
                   | Inr (new_id, db') \<Rightarrow>
                       (update_keys (\<lambda>k. vk_id k = kid) (retire_key tx_now new_id overlap_until) db',
                        Ok \<lparr>vr_old_id = kid, vr_new_id = new_id, vr_key_prefix = vm_prefix material,
                            vr_key = vm_raw material, vr_overlap_until = overlap_until\<rparr>))"

section \<open>Authentication\<close>

definition key_active :: "date_time \<Rightarrow> virtual_key \<Rightarrow> bool" where
  "key_active tx_now k \<longleftrightarrow>
     vk_enabled k \<and> vk_revoked_at k = None \<and>
     (case vk_expires_at k of None \<Rightarrow> True | Some e \<Rightarrow> tx_now < e) \<and>
     (vk_replaced_by_id k = None \<or> (case vk_overlap_until k of Some u \<Rightarrow> tx_now < u | None \<Rightarrow> False))"

definition authenticate_scope ::
  "(string \<Rightarrow> string) \<Rightarrow> db_fault \<Rightarrow> date_time \<Rightarrow> string \<Rightarrow> string option \<Rightarrow> string \<Rightarrow> key_db
   \<Rightarrow> key_db \<times> ((int \<times> string \<times> string) option, sqlx_error) result" where
  "authenticate_scope digest fault tx_now raw model required_scope db =
     (case List.find (\<lambda>k. vk_key_hash k = digest raw \<and> key_active tx_now k) (kd_keys db) of
        None \<Rightarrow> (db, if fault = NoFault then Ok None else Err DriverError)
      | Some k \<Rightarrow>
          if \<not> allowed_models_allow (vk_allowed_models k) model \<or> \<not> scope_allow (vk_scopes k) required_scope
          then (db, if fault = NoFault then Ok None else Err DriverError)
          else
            let hit = (\<lambda>r. vk_id r = vk_id k \<and> key_active tx_now r);
                updated = length (filter hit (kd_keys db));
                db' = update_keys hit (\<lambda>r. r\<lparr>vk_last_used_at := Some tx_now\<rparr>) db
            in case fault of
                 NoFault \<Rightarrow> (db', Ok (if updated = 1 then Some (vk_id k, vk_name k, vk_key_prefix k) else None))
               | FaultBeforeCommit \<Rightarrow> (db, Err DriverError)
               | FaultAfterCommit \<Rightarrow> (db', Err DriverError))"

definition authenticate_virtual_key_with_identity ::
  "(string \<Rightarrow> string) \<Rightarrow> db_fault \<Rightarrow> date_time \<Rightarrow> string \<Rightarrow> string option \<Rightarrow> key_db
   \<Rightarrow> key_db \<times> ((int \<times> string \<times> string) option, sqlx_error) result" where
  "authenticate_virtual_key_with_identity digest fault tx_now raw model db =
     authenticate_scope digest fault tx_now raw model VIRTUAL_KEY_INVOKE_SCOPE db"

section \<open>Well-formed tables\<close>

definition key_db_ok :: "key_db \<Rightarrow> bool" where
  "key_db_ok db \<longleftrightarrow> distinct (map vk_id (kd_keys db)) \<and> distinct (map vk_key_hash (kd_keys db)) \<and>
     (\<forall>i \<in> set (map vk_id (kd_keys db)). i < kd_next_id db)"

lemma update_keys_map:
  assumes "\<And>k. vk_id (f k) = vk_id k" "\<And>k. vk_key_hash (f k) = vk_key_hash k"
  shows "map vk_id (kd_keys (update_keys P f db)) = map vk_id (kd_keys db)"
    "map vk_key_hash (kd_keys (update_keys P f db)) = map vk_key_hash (kd_keys db)"
    "kd_next_id (update_keys P f db) = kd_next_id db"
  using assms by (simp_all add: update_keys_def)

lemma update_keys_cong:
  "(\<And>r. r \<in> set (kd_keys db) \<Longrightarrow> P r = Q r) \<Longrightarrow> update_keys P f db = update_keys Q f db"
  by (simp add: update_keys_def)

lemma key_db_ok_update:
  assumes "key_db_ok db" "\<And>k. vk_id (f k) = vk_id k" "\<And>k. vk_key_hash (f k) = vk_key_hash k"
  shows "key_db_ok (update_keys P f db)"
  using assms(1) unfolding key_db_ok_def update_keys_map [of f P db, OF assms(2,3)] .

lemma key_db_ok_insert:
  assumes "key_db_ok db" "insert_key mk db = Ok (kid, db')" "\<And>i. vk_id (mk i) = i"
  shows "key_db_ok db'"
  using assms by (force simp: insert_key_def key_db_ok_def Let_def split: if_splits)

lemma new_key_simps [simp]:
  "vk_id (new_key n nm m c am sc g e orig kid) = kid" "vk_key_hash (new_key n nm m c am sc g e orig kid) = vm_hash m"
  by (simp_all add: new_key_def)

lemma retire_key_simps [simp]:
  "vk_id (retire_key n i u k) = vk_id k" "vk_key_hash (retire_key n i u k) = vk_key_hash k"
  by (simp_all add: retire_key_def)

text \<open>Any operation on the table, with any arguments and clocks.\<close>

inductive key_step :: "key_db \<Rightarrow> key_db \<Rightarrow> bool" where
  create: "key_step db (fst (create_virtual_key_with_material tx_now name models scopes expires_at grp origin material
     ciphertext db))"
| revoke: "key_step db (fst (revoke_virtual_key tx_now kid db))"
| rotate: "key_step db (fst (rotate_virtual_key_with_material from_std now tx_now kid options material ciphertext db))"
| authenticate: "key_step db (fst (authenticate_scope digest fault tx_now raw model scope db))"

inductive_cases key_stepE: "key_step db db'"

section \<open>A key never regains power\<close>

lemma update_keys_row:
  "k \<in> set (kd_keys db) \<Longrightarrow> (if P k then f k else k) \<in> set (kd_keys (update_keys P f db))"
  by (auto simp: update_keys_def)

lemma insert_key_keeps: "insert_key mk db = Ok (kid, db') \<Longrightarrow> set (kd_keys db) \<subseteq> set (kd_keys db')"
  by (auto simp: insert_key_def Let_def split: if_splits)

text \<open>\<open>k'\<close> is a later state of the row \<open>k\<close>: never active when \<open>k\<close> would not be.\<close>

definition key_later :: "virtual_key \<Rightarrow> virtual_key \<Rightarrow> bool" where
  "key_later k k' \<longleftrightarrow> vk_key_hash k' = vk_key_hash k \<and> (\<forall>t. key_active t k' \<longrightarrow> key_active t k)"

lemma key_later_refl [simp, intro]: "key_later k k"
  by (simp add: key_later_def)

lemma key_later_trans: "key_later k k' \<Longrightarrow> key_later k' k'' \<Longrightarrow> key_later k k''"
  by (simp add: key_later_def)

lemma rows_later:
  assumes "\<And>k. P k \<Longrightarrow> key_later k (f k)" "k \<in> set (kd_keys db)"
  shows "\<exists>k' \<in> set (kd_keys (update_keys P f db)). key_later k k'"
  using update_keys_row [OF assms(2), of P f] assms(1) [of k] by (auto intro: key_later_refl split: if_splits)

lemma retire_later: "vk_replaced_by_id k = None \<Longrightarrow> key_later k (retire_key tx_now i u k)"
  by (auto simp: key_later_def key_active_def retire_key_def split: if_splits)

lemma find_key_unique:
  "key_db_ok db \<Longrightarrow> find_key kid db = Some old \<Longrightarrow> k \<in> set (kd_keys db) \<Longrightarrow> vk_id k = kid \<Longrightarrow> k = old"
  unfolding key_db_ok_def find_key_def by (metis (mono_tags, lifting) distinct_map find_Some_iff inj_onD nth_mem)

lemma rotate_cases:
  assumes "rotate_virtual_key_with_material from_std now tx_now kid options material ciphertext db = (db', r)"
  obtains "db' = db" "\<nexists>x. r = Ok x"
  | old u new_id db1 where "find_key kid db = Some old" "vk_replaced_by_id old = None"
      "insert_key (new_key tx_now (unwrap_or (vk_name old) (ro_name options)) material ciphertext
         (unwrap_or (vk_allowed_models old) (map_option json_strings (ro_allowed_models options)))
         (unwrap_or (vk_scopes old) (map_option scopes_json (ro_scopes options)))
         (or_else (Option.bind (ro_key_group options) (\<lambda>g. g)) (vk_key_group old))
         (or_else (ro_expires_at options) (vk_expires_at old)) ''rotated'') db = Ok (new_id, db1)"
      "db' = update_keys (\<lambda>k. vk_id k = kid) (retire_key tx_now new_id u) db1"
      "r = Ok \<lparr>vr_old_id = kid, vr_new_id = new_id, vr_key_prefix = vm_prefix material, vr_key = vm_raw material,
        vr_overlap_until = u\<rparr>"
  using assms
  by (auto simp: rotate_virtual_key_with_material_def Let_def split: if_splits option.splits sum.splits prod.splits)

lemma key_step_ok: "key_step db db' \<Longrightarrow> key_db_ok db \<Longrightarrow> key_db_ok db'"
proof (induction rule: key_step.induct)
  case (create db tx_now name models scopes expires_at grp origin material ciphertext)
  then show ?case
    by (auto simp: create_virtual_key_with_material_def split: sum.splits intro: key_db_ok_insert)
next
  case (revoke db tx_now kid)
  then show ?case by (simp add: revoke_virtual_key_def Let_def key_db_ok_update)
next
  case (rotate db from_std now tx_now kid options material ciphertext)
  obtain db' r where run: "rotate_virtual_key_with_material from_std now tx_now kid options material ciphertext db = (db', r)"
    by fastforce
  from run show ?case
  proof (cases rule: rotate_cases)
    case 1
    with rotate run show ?thesis by simp
  next
    case (2 old u new_id db1)
    with key_db_ok_insert [OF rotate 2(3)] run show ?thesis by (simp add: key_db_ok_update)
  qed
next
  case (authenticate db digest fault tx_now raw model scope)
  then show ?case
    by (auto simp: authenticate_scope_def Let_def key_db_ok_update split: option.split db_fault.split)
qed

lemma key_step_later: "key_step db db' \<Longrightarrow> key_db_ok db \<Longrightarrow> k \<in> set (kd_keys db) \<Longrightarrow> \<exists>k' \<in> set (kd_keys db'). key_later k k'"
proof (induction rule: key_step.induct)
  case (create db tx_now name models scopes expires_at grp origin material ciphertext)
  then show ?case
    by (auto simp: create_virtual_key_with_material_def split: sum.split dest!: insert_key_keeps)
next
  case (revoke db tx_now kid)
  show ?case
    unfolding revoke_virtual_key_def Let_def fst_conv
    by (rule rows_later [OF _ revoke(2)]) (simp add: key_later_def key_active_def)
next
  case (rotate db from_std now tx_now kid options material ciphertext)
  obtain db' r where run: "rotate_virtual_key_with_material from_std now tx_now kid options material ciphertext db = (db', r)"
    by fastforce
  from run show ?case
  proof (cases rule: rotate_cases)
    case 1
    with rotate run show ?thesis by auto
  next
    case (2 old u new_id db1)
    from rotate(2) insert_key_keeps [OF 2(3)] have k: "k \<in> set (kd_keys db1)" by auto
    have "key_later k (if vk_id k = kid then retire_key tx_now new_id u k else k)"
      using find_key_unique [OF rotate(1) 2(1) rotate(2)] 2(2) retire_later by auto
    with update_keys_row [OF k, of "\<lambda>k. vk_id k = kid" "retire_key tx_now new_id u"] show ?thesis
      unfolding run fst_conv 2(4) by blast
  qed
next
  case (authenticate db digest fault tx_now raw model scope)
  have "\<exists>k' \<in> set (kd_keys (update_keys P (\<lambda>r. r\<lparr>vk_last_used_at := Some tx_now\<rparr>) db)). key_later k k'" for P
    by (rule rows_later [OF _ authenticate(2)]) (simp add: key_later_def key_active_def)
  with authenticate(2) show ?case
    by (auto simp: authenticate_scope_def Let_def split: option.split db_fault.split)
qed

lemma key_steps_later:
  assumes "key_step\<^sup>*\<^sup>* db db'" "key_db_ok db" "k \<in> set (kd_keys db)"
  shows "key_db_ok db' \<and> (\<exists>k' \<in> set (kd_keys db'). key_later k k')"
  using assms(1)
proof (induction rule: rtranclp_induct)
  case base
  with assms show ?case using key_later_refl by blast
next
  case (step db1 db2)
  then show ?case using key_step_ok key_step_later key_later_trans by meson
qed

lemma authenticate_row:
  assumes "authenticate_scope digest fault tx_now raw model scope db = (db', Ok (Some (kid, name, pre)))"
  shows "\<exists>k \<in> set (kd_keys db). vk_id k = kid \<and> vk_name k = name \<and> vk_key_prefix k = pre \<and> vk_key_hash k = digest raw \<and>
    key_active tx_now k \<and> allowed_models_allow (vk_allowed_models k) model \<and> scope_allow (vk_scopes k) scope \<and>
    db' = update_keys (\<lambda>r. vk_id r = kid \<and> key_active tx_now r) (\<lambda>r. r\<lparr>vk_last_used_at := Some tx_now\<rparr>) db"
proof (cases "List.find (\<lambda>k. vk_key_hash k = digest raw \<and> key_active tx_now k) (kd_keys db)")
  case None
  with assms show ?thesis by (auto simp: authenticate_scope_def split: if_splits)
next
  case (Some k)
  have "k \<in> set (kd_keys db)" "vk_key_hash k = digest raw" "key_active tx_now k"
    using Some by (auto simp: find_Some_iff)
  moreover have "allowed_models_allow (vk_allowed_models k) model \<and> scope_allow (vk_scopes k) scope \<and> fault = NoFault"
    using assms Some by (auto simp: authenticate_scope_def Let_def split: if_splits db_fault.splits)
  ultimately show ?thesis
    using assms Some by (auto simp: authenticate_scope_def Let_def split: if_splits)
qed

definition key_over :: "date_time \<Rightarrow> virtual_key \<Rightarrow> bool" where
  "key_over t k \<longleftrightarrow>
     \<not> vk_enabled k \<or> vk_revoked_at k \<noteq> None \<or> (case vk_expires_at k of Some e \<Rightarrow> e \<le> t | None \<Rightarrow> False) \<or>
     (vk_replaced_by_id k \<noteq> None \<and> (case vk_overlap_until k of Some u \<Rightarrow> u \<le> t | None \<Rightarrow> True))"

lemma key_over_inactive: "key_over t k \<Longrightarrow> t \<le> s \<Longrightarrow> \<not> key_active s k"
  by (auto simp: key_over_def key_active_def split: option.splits)

text \<open>
  C7: a request authenticates only with a live key. A virtual key that is disabled or revoked,
  that expires by time \<open>t\<close>, or that was rotated and whose overlap window ends by \<open>t\<close> does
  not authenticate at any time from \<open>t\<close> on, whatever sequence of creations, revocations,
  rotations and authentications happens in between.
\<close>

theorem ended_key_never_authenticates:
  assumes "key_db_ok db" "k \<in> set (kd_keys db)" "key_over t k" "digest raw = vk_key_hash k"
    and "key_step\<^sup>*\<^sup>* db db'" "t \<le> tx_now"
  shows "snd (authenticate_virtual_key_with_identity digest fault tx_now raw model db') \<in> {Ok None, Err DriverError}"
proof (rule ccontr)
  assume no: "\<not> ?thesis"
  obtain db2 r where run: "authenticate_virtual_key_with_identity digest fault tx_now raw model db' = (db2, r)" by fastforce
  have "r \<in> {Ok None, Err DriverError} \<or> (\<exists>kid name pre. r = Ok (Some (kid, name, pre)))"
    using run
    by (auto simp: authenticate_virtual_key_with_identity_def authenticate_scope_def Let_def
        split: option.splits if_splits db_fault.splits)
  with no run obtain kid name pre where "r = Ok (Some (kid, name, pre))" by auto
  with run authenticate_row obtain k2 where k2: "k2 \<in> set (kd_keys db')" "vk_key_hash k2 = digest raw" "key_active tx_now k2"
    unfolding authenticate_virtual_key_with_identity_def by blast
  from key_steps_later [OF assms(5,1,2)] obtain k1 where k1: "key_db_ok db'" "k1 \<in> set (kd_keys db')" "key_later k k1" by blast
  then have "k1 = k2"
    using k2 assms(4) unfolding key_db_ok_def key_later_def by (metis distinct_map inj_onD)
  with k1 k2 key_over_inactive [OF assms(3,6)] show False by (auto simp: key_later_def)
qed

definition sample_key :: virtual_key where
  "sample_key =
     new_key 0 ''ci'' \<lparr>vm_raw = ''gw_1'', vm_prefix = ''gw_1'', vm_hash = ''gw_1''\<rparr> None (json_strings [''m'']) (scopes_json [])
       None (Some 100) ''created'' 1"

theorem ended_key_never_authenticates_witness:
  "snd (authenticate_virtual_key_with_identity (\<lambda>raw. raw) NoFault 100 ''gw_1'' (Some ''m'')
     (fst (revoke_virtual_key 90 7 \<lparr>kd_keys = [sample_key], kd_next_id = 2\<rparr>))) \<in> {Ok None, Err DriverError} \<and>
   snd (authenticate_virtual_key_with_identity (\<lambda>raw. raw) NoFault 99 ''gw_1'' (Some ''m'')
     \<lparr>kd_keys = [sample_key], kd_next_id = 2\<rparr>) = Ok (Some (1, ''ci'', ''gw_1''))"
proof
  show "snd (authenticate_virtual_key_with_identity (\<lambda>raw. raw) NoFault 100 ''gw_1'' (Some ''m'')
     (fst (revoke_virtual_key 90 7 \<lparr>kd_keys = [sample_key], kd_next_id = 2\<rparr>))) \<in> {Ok None, Err DriverError}"
    by (rule ended_key_never_authenticates [of "\<lparr>kd_keys = [sample_key], kd_next_id = 2\<rparr>" sample_key 100])
      (auto simp: key_db_ok_def sample_key_def key_over_def new_key_def intro: key_step.revoke)
  show "snd (authenticate_virtual_key_with_identity (\<lambda>raw. raw) NoFault 99 ''gw_1'' (Some ''m'')
     \<lparr>kd_keys = [sample_key], kd_next_id = 2\<rparr>) = Ok (Some (1, ''ci'', ''gw_1''))"
    by code_simp
qed

text \<open>
  What a successful authentication proves, and what it changes. The presented key's digest is
  that of a row that is active now, whose model list is empty or names the requested model (or
  the wildcard) and whose scopes include invoking; the only change to the table is that
  row's last use.
\<close>

theorem authentication_sound:
  assumes "key_db_ok db"
    and "authenticate_virtual_key_with_identity digest fault tx_now raw (Some model) db = (db', Ok (Some (kid, name, pre)))"
  shows "\<exists>k \<in> set (kd_keys db). vk_id k = kid \<and> vk_name k = name \<and> vk_key_prefix k = pre \<and> vk_key_hash k = digest raw \<and>
    key_active tx_now k \<and>
    (json_as_array (vk_allowed_models k) \<in> {None, Some []} \<or>
     (\<exists>v \<in> set (the (json_as_array (vk_allowed_models k))). v = JString model \<or> v = JString ''*'')) \<and>
    (\<exists>v \<in> set (the (json_as_array (vk_scopes k))). v = JString ''gateway:invoke'' \<or> v = JString ''*'') \<and>
    db' = update_keys (\<lambda>r. r = k) (\<lambda>r. r\<lparr>vk_last_used_at := Some tx_now\<rparr>) db"
proof -
  have str: "json_as_str v = Some x \<longleftrightarrow> v = JString x" for v x by (cases v) auto
  from authenticate_row [OF assms(2) [unfolded authenticate_virtual_key_with_identity_def VIRTUAL_KEY_INVOKE_SCOPE_def]]
  obtain k where k: "k \<in> set (kd_keys db)" "vk_id k = kid" "vk_name k = name" "vk_key_prefix k = pre"
    "vk_key_hash k = digest raw" "key_active tx_now k" "allowed_models_allow (vk_allowed_models k) (Some model)"
    "scope_allow (vk_scopes k) ''gateway:invoke''"
    "db' = update_keys (\<lambda>r. vk_id r = kid \<and> key_active tx_now r) (\<lambda>r. r\<lparr>vk_last_used_at := Some tx_now\<rparr>) db"
    by (elim bexE conjE) (rule that)
  have "r = k" if "r \<in> set (kd_keys db)" "vk_id r = kid" for r
    using that k(1,2) assms(1) unfolding key_db_ok_def by (metis distinct_map inj_onD)
  then have "db' = update_keys (\<lambda>r. r = k) (\<lambda>r. r\<lparr>vk_last_used_at := Some tx_now\<rparr>) db"
    unfolding k(9) using k(2,6) by (intro update_keys_cong) auto
  moreover have "json_as_array (vk_allowed_models k) \<in> {None, Some []} \<or>
     (\<exists>v \<in> set (the (json_as_array (vk_allowed_models k))). v = JString model \<or> v = JString ''*'')"
    using k(7) by (cases "json_as_array (vk_allowed_models k)") (auto simp: allowed_models_allow_def list_ex_iff str)
  moreover have "\<exists>v \<in> set (the (json_as_array (vk_scopes k))). v = JString ''gateway:invoke'' \<or> v = JString ''*''"
    using k(8) by (cases "json_as_array (vk_scopes k)") (auto simp: scope_allow_def list_ex_iff str VIRTUAL_KEY_MODELS_SCOPE_def)
  ultimately show ?thesis using k by blast
qed

theorem authentication_sound_witness:
  "\<exists>k \<in> set [sample_key]. vk_id k = 1 \<and> key_active 99 k"
proof -
  have "authenticate_virtual_key_with_identity (\<lambda>raw. raw) NoFault 99 ''gw_1'' (Some ''m'')
     \<lparr>kd_keys = [sample_key], kd_next_id = 2\<rparr> =
    (\<lparr>kd_keys = [sample_key\<lparr>vk_last_used_at := Some 99\<rparr>], kd_next_id = 2\<rparr>, Ok (Some (1, ''ci'', ''gw_1'')))"
    by (simp add: authenticate_virtual_key_with_identity_def authenticate_scope_def sample_key_def new_key_def key_active_def
        allowed_models_allow_def scope_allow_def json_strings_def scopes_json_def update_keys_def)
  from authentication_sound [OF _ this] show ?thesis by (auto simp: key_db_ok_def sample_key_def)
qed

end
