(* ===== verification/Http_Response.thy ===== *)
theory Http_Response
  imports Proxy_Usage Domain_Protocol
begin

text \<open>
  HTTP messages as the gateway handles them, and \<open>src/http/response.rs\<close>: the error envelopes of the
  management and protocol endpoints.

  A status is its number. A header map is the list of its (name, value) pairs with lower-case
  names. A body is either buffered bytes or a live stream of some type. The response extensions
  the gateway uses (the usage report and the upstream's identity) are fields.
\<close>

section \<open>Messages\<close>

type_synonym header_map = "(string \<times> string) list"

datatype 'b body = FullBody string | StreamBody 'b

record 'b response =
  rp_status :: nat
  rp_headers :: header_map
  rp_body :: "'b body"
  rp_usage :: "usage_report option"
  rp_identity :: "response_identity option"

definition is_success :: "nat \<Rightarrow> bool" where
  "is_success status \<longleftrightarrow> 200 \<le> status \<and> status < 300"

definition is_server_error :: "nat \<Rightarrow> bool" where
  "is_server_error status \<longleftrightarrow> 500 \<le> status \<and> status < 600"

text \<open>
  \<open>HeaderValue::to_str\<close> succeeds on visible ASCII and tabs; \<open>HeaderValue::from_str\<close> on every
  byte but control characters other than tab.
\<close>

definition header_to_str :: "string \<Rightarrow> string option" where
  "header_to_str v =
     (if list_all (\<lambda>c. (32 \<le> (of_char c :: nat) \<and> (of_char c :: nat) < 127) \<or> (of_char c :: nat) = 9) v
      then Some v else None)"

definition header_value_ok :: "string \<Rightarrow> bool" where
  "header_value_ok v =
     list_all (\<lambda>c. (32 \<le> (of_char c :: nat) \<and> (of_char c :: nat) \<noteq> 127) \<or> (of_char c :: nat) = 9) v"

definition header_str :: "header_map \<Rightarrow> string \<Rightarrow> string option" where
  "header_str h name = Option.bind (hget h name) header_to_str"

section \<open>Error envelopes\<close>

definition json_response :: "json_printer \<Rightarrow> nat \<Rightarrow> json \<Rightarrow> 'b response" where
  "json_response print status v =
     \<lparr>rp_status = status, rp_headers = [(''content-type'', ''application/json'')],
      rp_body = FullBody (print v), rp_usage = None, rp_identity = None\<rparr>"

definition error_response :: "json_printer \<Rightarrow> nat \<Rightarrow> string \<Rightarrow> string \<Rightarrow> 'b response" where
  "error_response print status code message =
     json_response print status
       (JObject [(''error'', JObject [(''code'', JString code), (''message'', JString message), (''type'', JString code)])])"

definition anthropic_standard_error_type :: "string \<Rightarrow> string" where
  "anthropic_standard_error_type code =
     (if code \<in> {''invalid_json'', ''missing_required_parameter'', ''unsupported_protocol'',
                 ''lossy_conversion_not_allowed''} then ''invalid_request_error''
      else if code = ''unauthorized'' then ''authentication_error''
      else if code = ''request_too_large'' then ''request_too_large''
      else if code = ''request_body_read_failed'' then ''invalid_request_error''
      else if code = ''route_not_found'' then ''not_found_error''
      else if code = ''account_cooling_down'' then ''overloaded_error''
      else ''api_error'')"

definition data_plane_error_body :: "protocol \<Rightarrow> string \<Rightarrow> string \<Rightarrow> string \<Rightarrow> json" where
  "data_plane_error_body p code message request_id =
     (case p of
        AnthropicMessages \<Rightarrow>
          JObject [(''error'', JObject [(''code'', JString code), (''message'', JString message),
                                        (''type'', JString (anthropic_standard_error_type code))]),
                   (''request_id'', JString request_id), (''type'', JString ''error'')]
      | _ \<Rightarrow>
          JObject [(''error'', JObject [(''code'', JString code), (''message'', JString message),
                                        (''type'', JString code)]),
                   (''request_id'', JString request_id)])"

definition data_plane_error_response ::
  "json_printer \<Rightarrow> protocol \<Rightarrow> nat \<Rightarrow> string \<Rightarrow> string \<Rightarrow> string \<Rightarrow> 'b response" where
  "data_plane_error_response print p status code message request_id =
     (let r = json_response print status (data_plane_error_body p code message request_id) in
      if header_value_ok request_id then r\<lparr>rp_headers := hinsert ''x-request-id'' request_id (rp_headers r)\<rparr> else r)"

lemma data_plane_error_status [simp]:
  "rp_status (data_plane_error_response print p status code message rid) = status"
  "rp_usage (data_plane_error_response print p status code message rid) = None"
  "rp_identity (data_plane_error_response print p status code message rid) = None"
  by (simp_all add: data_plane_error_response_def json_response_def Let_def)

lemma data_plane_error_content_type:
  "hget (rp_headers (data_plane_error_response print p status code message rid)) ''content-type'' =
   Some ''application/json''"
  by (simp add: data_plane_error_response_def json_response_def Let_def)

text \<open>
  Every data-plane error has the envelope its protocol expects. The body is JSON whose
  \<open>error.code\<close> and \<open>error.message\<close> are the gateway's, with the request id at the top level; for
  Anthropic the type is \<open>error\<close> with a standard error type, for the OpenAI protocols the error's
  type is its code. A well-formed request id is also sent as \<open>x-request-id\<close>.
\<close>

theorem data_plane_error_envelope:
  "let r = data_plane_error_response print p status code message rid;
       v = data_plane_error_body p code message rid in
   rp_body r = FullBody (print v) \<and> rp_status r = status \<and>
   json_path2 v ''error'' ''code'' = Some (JString code) \<and>
   json_path2 v ''error'' ''message'' = Some (JString message) \<and>
   json_get v ''request_id'' = Some (JString rid) \<and>
   hget (rp_headers r) ''x-request-id'' = (if header_value_ok rid then Some rid else None) \<and>
   (if p = AnthropicMessages
    then json_get v ''type'' = Some (JString ''error'') \<and>
         (\<exists>t \<in> {''invalid_request_error'', ''authentication_error'', ''request_too_large'', ''not_found_error'',
                ''overloaded_error'', ''api_error''}. json_path2 v ''error'' ''type'' = Some (JString t))
    else json_get v ''type'' = None \<and> json_path2 v ''error'' ''type'' = Some (JString code))"
  by (cases p)
    (simp_all add: data_plane_error_response_def json_response_def data_plane_error_body_def json_path2_def Let_def
      anthropic_standard_error_type_def)

end
