(* ===== verification/Auth.thy ===== *)
theory Auth
  imports Infra_Virtual_Keys Http_Response
begin

text \<open>
  \<open>src/auth.rs\<close>: who may use the gateway. Administration has one key; the data plane accepts the
  static \<open>GATEWAY_API_KEY\<close> or a virtual key. \<open>digest\<close> stands for SHA-256 and \<open>env\<close> for the process
  environment.
\<close>

datatype auth_identity = StaticApiKey | VirtualKey int string string

definition supplied_key :: "header_map \<Rightarrow> string option" where
  "supplied_key headers =
     or_else (Option.bind (header_str headers ''authorization'') (\<lambda>v. strip_prefix v ''Bearer ''))
       (header_str headers ''x-api-key'')"

definition key_matches_digest :: "(string \<Rightarrow> string) \<Rightarrow> string \<Rightarrow> string \<Rightarrow> bool" where
  "key_matches_digest digest expected supplied = (expected = digest supplied)"

record admin_auth =
  aa_key_digest :: "string option"

definition admin_from_key :: "(string \<Rightarrow> string) \<Rightarrow> string option \<Rightarrow> admin_auth" where
  "admin_from_key digest key = \<lparr>aa_key_digest = map_option digest key\<rparr>"

definition admin_from_env :: "(string \<Rightarrow> string) \<Rightarrow> (string \<Rightarrow> string option) \<Rightarrow> admin_auth" where
  "admin_from_env digest env = admin_from_key digest (option_filter (\<lambda>k. k \<noteq> []) (env ''GATEWAY_ADMIN_KEY''))"

definition admin_is_configured :: "admin_auth \<Rightarrow> bool" where
  "admin_is_configured a = (aa_key_digest a \<noteq> None)"

definition admin_authorized :: "(string \<Rightarrow> string) \<Rightarrow> admin_auth \<Rightarrow> header_map \<Rightarrow> bool" where
  "admin_authorized digest a headers =
     (case (aa_key_digest a, supplied_key headers) of
        (Some expected, Some supplied) \<Rightarrow> key_matches_digest digest expected supplied
      | _ \<Rightarrow> False)"

fun auth_virtual_key_id :: "auth_identity \<Rightarrow> int option" where
  "auth_virtual_key_id (VirtualKey kid _ _) = Some kid"
| "auth_virtual_key_id StaticApiKey = None"

fun default_client_source :: "auth_identity \<Rightarrow> string" where
  "default_client_source StaticApiKey = ''static_api_key''"
| "default_client_source (VirtualKey _ name pre) = (if name = [] then pre else name)"

definition static_key_accepts ::
  "(string \<Rightarrow> string) \<Rightarrow> (string \<Rightarrow> string option) \<Rightarrow> header_map \<Rightarrow> bool" where
  "static_key_accepts digest env headers =
     (case env ''GATEWAY_API_KEY'' of
        None \<Rightarrow> False
      | Some expected \<Rightarrow>
          (case supplied_key headers of None \<Rightarrow> False
           | Some supplied \<Rightarrow> key_matches_digest digest (digest expected) supplied))"

definition authorized_with_db ::
  "(string \<Rightarrow> string) \<Rightarrow> (string \<Rightarrow> string option) \<Rightarrow> db_fault \<Rightarrow> date_time \<Rightarrow> header_map \<Rightarrow> string option
   \<Rightarrow> key_db option \<Rightarrow> auth_identity option \<times> key_db option" where
  "authorized_with_db digest env fault tx_now headers model database =
     (if static_key_accepts digest env headers then (Some StaticApiKey, database)
      else case database of
             None \<Rightarrow> (if env ''GATEWAY_API_KEY'' = None then Some StaticApiKey else None, None)
           | Some db \<Rightarrow>
               (case supplied_key headers of
                  None \<Rightarrow> (None, Some db)
                | Some key \<Rightarrow>
                    let (db', r) = authenticate_virtual_key_with_identity digest fault tx_now key model db
                    in (case r of Inr (Some (kid, name, pre)) \<Rightarrow> Some (VirtualKey kid name pre) | _ \<Rightarrow> None,
                        Some db')))"

section \<open>Who is admitted\<close>

text \<open>
  C8: the data plane fails closed. A request is admitted only in one of three ways: with
  the digest of the configured static key; anonymously when there is neither a static key nor
  a database; or with a virtual key whose row is active and allows the model. A database
  error or a missing key never admits.
\<close>

theorem data_plane_fails_closed:
  assumes "authorized_with_db digest env fault tx_now headers model database = (Some identity, database')"
  shows "(identity = StaticApiKey \<and>
      ((\<exists>expected supplied. env ''GATEWAY_API_KEY'' = Some expected \<and> supplied_key headers = Some supplied \<and>
          digest expected = digest supplied) \<or>
       (env ''GATEWAY_API_KEY'' = None \<and> database = None))) \<or>
    (\<exists>kid name pre db k key. identity = VirtualKey kid name pre \<and> database = Some db \<and> supplied_key headers = Some key \<and>
       fault = NoFault \<and> k \<in> set (kd_keys db) \<and> vk_id k = kid \<and> vk_key_hash k = digest key \<and> key_active tx_now k \<and>
       allowed_models_allow (vk_allowed_models k) model \<and> scope_allow (vk_scopes k) ''gateway:invoke'')"
proof (cases "static_key_accepts digest env headers")
  case True
  with assms show ?thesis
    by (auto simp: authorized_with_db_def static_key_accepts_def key_matches_digest_def split: option.splits)
next
  case False
  show ?thesis
  proof (cases database)
    case None
    with assms False show ?thesis by (auto simp: authorized_with_db_def split: if_splits)
  next
    case (Some db)
    with assms False obtain key where key: "supplied_key headers = Some key"
      by (auto simp: authorized_with_db_def split: option.splits)
    obtain db' r where run: "authenticate_virtual_key_with_identity digest fault tx_now key model db = (db', r)" by fastforce
    with assms False Some key obtain kid name pre where r: "r = Ok (Some (kid, name, pre))" "identity = VirtualKey kid name pre"
      by (auto simp: authorized_with_db_def split: sum.splits option.splits)
    have "fault = NoFault"
      using run r by (auto simp: authenticate_virtual_key_with_identity_def authenticate_scope_def Let_def
          split: option.splits if_splits db_fault.splits)
    moreover from authenticate_row [OF run [unfolded r authenticate_virtual_key_with_identity_def VIRTUAL_KEY_INVOKE_SCOPE_def]]
    obtain k where "k \<in> set (kd_keys db)" "vk_id k = kid" "vk_key_hash k = digest key" "key_active tx_now k"
      "allowed_models_allow (vk_allowed_models k) model" "scope_allow (vk_scopes k) ''gateway:invoke''" by blast
    ultimately show ?thesis using Some key r(2) by blast
  qed
qed

theorem data_plane_fails_closed_witness:
  "\<exists>kid name pre. VirtualKey 1 ''ci'' ''gw_1'' = VirtualKey kid name pre \<and> key_active 99 sample_key"
proof -
  have "authorized_with_db (\<lambda>raw. raw) (\<lambda>_. None) NoFault 99 [(''x-api-key'', ''gw_1'')] (Some ''m'')
     (Some \<lparr>kd_keys = [sample_key], kd_next_id = 2\<rparr>) =
    (Some (VirtualKey 1 ''ci'' ''gw_1''), Some \<lparr>kd_keys = [sample_key\<lparr>vk_last_used_at := Some 99\<rparr>], kd_next_id = 2\<rparr>)"
    by (simp add: authorized_with_db_def static_key_accepts_def supplied_key_def header_str_def header_to_str_def
        authenticate_virtual_key_with_identity_def authenticate_scope_def sample_key_def new_key_def key_active_def
        allowed_models_allow_def scope_allow_def json_strings_def scopes_json_def update_keys_def)
  from data_plane_fails_closed [OF this] show ?thesis by auto
qed

text \<open>
  The administration key is never empty; the static data-plane key may be, and then an empty
  \<open>x-api-key\<close> header is accepted.
\<close>

lemma admin_key_not_empty:
  "env ''GATEWAY_ADMIN_KEY'' = Some [] \<Longrightarrow> \<not> admin_authorized digest (admin_from_env digest env) headers"
  by (simp add: admin_from_env_def admin_from_key_def admin_authorized_def)

lemma empty_static_key_accepts:
  "env ''GATEWAY_API_KEY'' = Some [] \<Longrightarrow>
   fst (authorized_with_db digest env fault tx_now [(''x-api-key'', [])] model database) = Some StaticApiKey"
  by (simp add: authorized_with_db_def static_key_accepts_def supplied_key_def header_str_def header_to_str_def
      key_matches_digest_def)

end
