(* ===== verification/Domain_Config.thy ===== *)
theory Domain_Config
  imports Domain_Protocol Json_Value
begin

text \<open>
  \<open>src/domain/config.rs\<close>: the configuration types, their validation, and the resolution of the
  effective protocol declaration and feature set of a (provider, account, model).

  The adapter registry depends on the build: it is empty in production and holds one entry in
  unit tests. The definitions take it as their first argument; \<open>adapter_registry\<close> is the
  production value and \<open>test_adapter_registry\<close> the \<open>cfg(test)\<close> value.
\<close>

section \<open>Types\<close>

datatype protocol_mode = ProtocolMode_Native | ProtocolMode_Adapter | ProtocolMode_Unsupported

datatype capability_mode = CapabilityMode_Native | CapabilityMode_Translated | CapabilityMode_Unsupported

record protocol_capability =
  pc_mode :: protocol_mode
  pc_source_protocol :: "protocol option"
  pc_adapter :: "string option"

record capabilities =
  cap_streaming :: capability_mode
  cap_tools :: capability_mode
  cap_tool_streaming :: capability_mode
  cap_thinking :: capability_mode
  cap_web_search :: capability_mode
  cap_file_search :: capability_mode
  cap_vision :: capability_mode
  cap_usage :: capability_mode

record adapter_definition =
  ad_name :: string
  ad_from_protocol :: protocol
  ad_to_protocol :: protocol
  ad_features :: capabilities

type_synonym adapter_registry = "(string, adapter_definition) hmap"
type_synonym capability_matrix = "(protocol, protocol_capability) hmap"

record model_override =
  mo_protocol_capabilities :: capability_matrix
  mo_capabilities :: "capabilities option"

record provider_config =
  pv_id :: string
  pv_name :: string
  pv_base_url :: string
  pv_models :: "string list"
  pv_native_protocols :: "protocol list"
  pv_endpoints :: "(protocol, string) hmap"
  pv_capabilities :: capabilities
  pv_protocol_capabilities :: capability_matrix
  pv_model_overrides :: "(string, model_override) hmap"

record account_config =
  ac_id :: string
  ac_provider_id :: string
  ac_display_name :: string
  ac_credential_env :: "string option"
  ac_credential_ciphertext :: "string option"
  ac_credential :: "string option"
  ac_enabled :: bool
  ac_weight :: u32
  ac_protocol_capabilities :: capability_matrix
  ac_capabilities :: "capabilities option"
  ac_model_overrides :: "(string, model_override) hmap"
  ac_model_map :: "(string, string) hmap"

record route_config =
  rc_id :: string
  rc_model :: string
  rc_provider_id :: string
  rc_protocols :: "protocol list"
  rc_primary_account_id :: string
  rc_fallback_accounts :: "string list"
  rc_strategy :: string
  rc_mode :: string
  rc_adapter :: "string option"
  rc_allow_lossy_conversion :: bool

record gateway_config =
  gc_listen_addr :: string
  gc_providers :: "provider_config list"
  gc_accounts :: "account_config list"
  gc_routes :: "route_config list"

definition capabilities_default :: capabilities where
  "capabilities_default =
     \<lparr>cap_streaming = CapabilityMode_Unsupported, cap_tools = CapabilityMode_Unsupported,
      cap_tool_streaming = CapabilityMode_Unsupported, cap_thinking = CapabilityMode_Unsupported,
      cap_web_search = CapabilityMode_Unsupported, cap_file_search = CapabilityMode_Unsupported,
      cap_vision = CapabilityMode_Unsupported, cap_usage = CapabilityMode_Unsupported\<rparr>"

definition capabilities_native :: capabilities where
  "capabilities_native =
     \<lparr>cap_streaming = CapabilityMode_Native, cap_tools = CapabilityMode_Native,
      cap_tool_streaming = CapabilityMode_Native, cap_thinking = CapabilityMode_Native,
      cap_web_search = CapabilityMode_Native, cap_file_search = CapabilityMode_Native,
      cap_vision = CapabilityMode_Native, cap_usage = CapabilityMode_Native\<rparr>"

definition adapter_registry :: adapter_registry where
  "adapter_registry = []"

definition test_adapter_registry :: adapter_registry where
  "test_adapter_registry =
     [(''kimi_responses_adapter'',
       \<lparr>ad_name = ''kimi_responses_adapter'',
        ad_from_protocol = OpenAiResponses,
        ad_to_protocol = AnthropicMessages,
        ad_features =
          \<lparr>cap_streaming = CapabilityMode_Translated, cap_tools = CapabilityMode_Translated,
           cap_tool_streaming = CapabilityMode_Translated, cap_thinking = CapabilityMode_Translated,
           cap_web_search = CapabilityMode_Translated, cap_file_search = CapabilityMode_Unsupported,
           cap_vision = CapabilityMode_Translated, cap_usage = CapabilityMode_Translated\<rparr>\<rparr>)]"

definition adapter_definition :: "adapter_registry \<Rightarrow> string \<Rightarrow> adapter_definition option" where
  "adapter_definition reg name = hget reg name"

definition protocol_capability_native :: protocol_capability where
  "protocol_capability_native =
     \<lparr>pc_mode = ProtocolMode_Native, pc_source_protocol = None, pc_adapter = None\<rparr>"

definition protocol_capability_unsupported :: protocol_capability where
  "protocol_capability_unsupported =
     \<lparr>pc_mode = ProtocolMode_Unsupported, pc_source_protocol = None, pc_adapter = None\<rparr>"

definition protocol_capability_adapter :: "protocol \<Rightarrow> string \<Rightarrow> protocol_capability" where
  "protocol_capability_adapter source name =
     \<lparr>pc_mode = ProtocolMode_Adapter, pc_source_protocol = Some source, pc_adapter = Some name\<rparr>"

section \<open>Reading declarations\<close>

text \<open>
  The hand-written \<open>Deserialize\<close> implementations. \<open>CapabilityMode\<close> accepts a legacy boolean, a
  name, or an object with a \<open>mode\<close> name; \<open>ProtocolCapability\<close> accepts a bare mode or an object.
\<close>

definition capability_mode_from_name :: "string \<Rightarrow> (capability_mode, string) result" where
  "capability_mode_from_name name =
     (if name = ''native'' then Ok CapabilityMode_Native
      else if name = ''translated'' then Ok CapabilityMode_Translated
      else if name = ''unsupported'' then Ok CapabilityMode_Unsupported
      else Err (''unknown capability mode: '' @ name))"

definition untagged_error :: string where
  "untagged_error = ''data did not match any variant of untagged enum Repr''"

definition capability_mode_deserialize :: "json \<Rightarrow> (capability_mode, string) result" where
  "capability_mode_deserialize v =
     (case v of
        JBool b \<Rightarrow> Ok (if b then CapabilityMode_Native else CapabilityMode_Unsupported)
      | JString name \<Rightarrow> capability_mode_from_name name
      | _ \<Rightarrow> (case Option.bind (json_get v ''mode'') json_as_str of
               Some name \<Rightarrow> capability_mode_from_name name
             | None \<Rightarrow> Err untagged_error))"

fun capability_mode_serialize :: "capability_mode \<Rightarrow> json" where
  "capability_mode_serialize CapabilityMode_Native = JString ''native''"
| "capability_mode_serialize CapabilityMode_Translated = JString ''translated''"
| "capability_mode_serialize CapabilityMode_Unsupported = JString ''unsupported''"

section \<open>Validation of one declaration\<close>

text \<open>
  Errors are the source's messages. \<open>VPanic\<close> is the panic of an \<open>expect\<close>; that it never
  happens is a theorem below, not an assumption.
\<close>

datatype validation_error = VErr string | VPanic

definition validate_capability :: "protocol_capability \<Rightarrow> protocol \<Rightarrow> (unit, string) result" where
  "validate_capability c target =
     (case pc_mode c of
        ProtocolMode_Native \<Rightarrow>
          if pc_source_protocol c \<noteq> None \<or> pc_adapter c \<noteq> None
          then Err (protocol_to_string target @ '': native mode cannot set source_protocol or adapter'')
          else Ok ()
      | ProtocolMode_Adapter \<Rightarrow>
          (case pc_source_protocol c of
             None \<Rightarrow> Err (protocol_to_string target @ '': adapter mode requires source_protocol'')
           | Some source \<Rightarrow>
               if source = target
               then Err (protocol_to_string target @ '': adapter source_protocol must differ from target'')
               else (case pc_adapter c of
                       Some name \<Rightarrow>
                         if trim name \<noteq> [] then Ok ()
                         else Err (protocol_to_string target @ '': adapter mode requires adapter'')
                     | None \<Rightarrow> Err (protocol_to_string target @ '': adapter mode requires adapter'')))
      | ProtocolMode_Unsupported \<Rightarrow>
          if pc_source_protocol c \<noteq> None \<or> pc_adapter c \<noteq> None
          then Err (protocol_to_string target @ '': unsupported mode cannot set source_protocol or adapter'')
          else Ok ())"

definition has_endpoint :: "(protocol, string) hmap \<Rightarrow> protocol \<Rightarrow> bool" where
  "has_endpoint endpoints p =
     (case hget endpoints p of None \<Rightarrow> False | Some endpoint \<Rightarrow> trim endpoint \<noteq> [])"

section \<open>Validation of a matrix\<close>

definition pc_scope :: "string \<Rightarrow> protocol \<Rightarrow> string" where
  "pc_scope scope p = scope @ ''.protocol_capabilities.'' @ protocol_to_string p"

definition validate_matrix_legacy ::
  "(protocol, string) hmap \<Rightarrow> string \<Rightarrow> protocol \<Rightarrow> (unit, validation_error) result" where
  "validate_matrix_legacy endpoints scope p =
     (if has_endpoint endpoints p then Ok ()
      else Err (VErr (scope @ ''.native_protocols.'' @ protocol_to_string p @
                      '': native protocol requires an endpoint'')))"

definition validate_matrix_entry ::
  "adapter_registry \<Rightarrow> (protocol, string) hmap \<Rightarrow> string \<Rightarrow> protocol \<times> protocol_capability
   \<Rightarrow> (unit, validation_error) result" where
  "validate_matrix_entry reg endpoints scope = (\<lambda>(p, c).
     case validate_capability c p of
       Inl error \<Rightarrow> Err (VErr (pc_scope scope p @ '': '' @ error))
     | Inr _ \<Rightarrow>
         if pc_mode c = ProtocolMode_Native \<and> \<not> has_endpoint endpoints p
         then Err (VErr (pc_scope scope p @ '': native protocol requires an endpoint''))
         else if pc_mode c = ProtocolMode_Adapter then
           (case (pc_source_protocol c, pc_adapter c) of
              (Some source, Some name) \<Rightarrow>
                (case adapter_definition reg name of
                   None \<Rightarrow> Err (VErr (pc_scope scope p @ ''.adapter: unknown adapter '' @ quoted name))
                 | Some d \<Rightarrow>
                     if ad_from_protocol d \<noteq> p \<or> ad_to_protocol d \<noteq> source
                     then Err (VErr (pc_scope scope p @ '': adapter '' @ quoted name @ '' direction is '' @
                            protocol_to_string (ad_from_protocol d) @ '' -> '' @
                            protocol_to_string (ad_to_protocol d) @ '', configured '' @
                            protocol_to_string p @ '' -> '' @ protocol_to_string source))
                     else Ok ())
            | _ \<Rightarrow> Err VPanic)
         else Ok ())"

definition validate_matrix_source ::
  "capability_matrix \<Rightarrow> (protocol, string) hmap \<Rightarrow> protocol list \<Rightarrow> string
   \<Rightarrow> protocol \<times> protocol_capability \<Rightarrow> (unit, validation_error) result" where
  "validate_matrix_source matrix endpoints legacy_native scope = (\<lambda>(p, c).
     if pc_mode c \<noteq> ProtocolMode_Adapter then Ok ()
     else case pc_source_protocol c of
       None \<Rightarrow> Err VPanic
     | Some source \<Rightarrow>
         (case hget matrix source of
            Some source_capability \<Rightarrow>
              (case pc_mode source_capability of
                 ProtocolMode_Native \<Rightarrow>
                   if has_endpoint endpoints source then Ok ()
                   else Err (VErr (pc_scope scope p @ ''.source_protocol: native source '' @
                          protocol_to_string source @ '' requires an endpoint''))
               | ProtocolMode_Adapter \<Rightarrow>
                   Err (VErr (pc_scope scope p @ ''.source_protocol: multi-segment adapter chain via '' @
                     protocol_to_string source @ '' is not allowed''))
               | ProtocolMode_Unsupported \<Rightarrow>
                   Err (VErr (pc_scope scope p @ ''.source_protocol: source protocol '' @
                     protocol_to_string source @ '' is unsupported'')))
          | None \<Rightarrow>
              if \<not> has_endpoint endpoints source \<and> source \<notin> set legacy_native
              then Err (VErr (pc_scope scope p @ ''.source_protocol: source protocol '' @
                     protocol_to_string source @ '' is unavailable''))
              else Ok ()))"

definition validate_matrix ::
  "adapter_registry \<Rightarrow> capability_matrix \<Rightarrow> (protocol, string) hmap \<Rightarrow> protocol list \<Rightarrow> string
   \<Rightarrow> (unit, validation_error) result" where
  "validate_matrix reg matrix endpoints legacy_native scope =
     (case for_each (validate_matrix_legacy endpoints scope) legacy_native of
        Inl e \<Rightarrow> Err e
      | Inr _ \<Rightarrow>
          (case for_each (validate_matrix_entry reg endpoints scope) matrix of
             Inl e \<Rightarrow> Err e
           | Inr _ \<Rightarrow> for_each (validate_matrix_source matrix endpoints legacy_native scope) matrix))"

definition validate_override_source ::
  "capability_matrix \<Rightarrow> (protocol, string) hmap \<Rightarrow> string
   \<Rightarrow> protocol \<times> protocol_capability \<Rightarrow> (unit, validation_error) result" where
  "validate_override_source base endpoints scope = (\<lambda>(target, c).
     if pc_mode c \<noteq> ProtocolMode_Adapter then Ok ()
     else case pc_source_protocol c of
       None \<Rightarrow> Err VPanic
     | Some source \<Rightarrow>
         (case hget base source of
            None \<Rightarrow> Ok ()
          | Some base_capability \<Rightarrow>
              (case pc_mode base_capability of
                 ProtocolMode_Unsupported \<Rightarrow>
                   Err (VErr (pc_scope scope target @ ''.source_protocol: source protocol '' @
                     protocol_to_string source @ '' is unsupported in the base matrix''))
               | ProtocolMode_Adapter \<Rightarrow>
                   Err (VErr (pc_scope scope target @ ''.source_protocol: multi-segment adapter chain via '' @
                     protocol_to_string source @ '' is not allowed''))
               | ProtocolMode_Native \<Rightarrow>
                   if has_endpoint endpoints source then Ok ()
                   else Err (VErr (pc_scope scope target @ ''.source_protocol: native source '' @
                          protocol_to_string source @ '' requires an endpoint'')))))"

definition validate_override_matrix ::
  "adapter_registry \<Rightarrow> capability_matrix \<Rightarrow> capability_matrix \<Rightarrow> (protocol, string) hmap
   \<Rightarrow> protocol list \<Rightarrow> string \<Rightarrow> (unit, validation_error) result" where
  "validate_override_matrix reg matrix base endpoints legacy_native scope =
     (case validate_matrix reg matrix endpoints legacy_native scope of
        Inl e \<Rightarrow> Err e
      | Inr _ \<Rightarrow> for_each (validate_override_source base endpoints scope) matrix)"

section \<open>Lookups\<close>

definition provider :: "gateway_config \<Rightarrow> string \<Rightarrow> provider_config option" where
  "provider cfg pid = List.find (\<lambda>p. pv_id p = pid) (gc_providers cfg)"

definition account :: "gateway_config \<Rightarrow> string \<Rightarrow> account_config option" where
  "account cfg aid = List.find (\<lambda>a. ac_id a = aid) (gc_accounts cfg)"

definition override_pattern_matches :: "string \<Rightarrow> string \<Rightarrow> bool" where
  "override_pattern_matches pattern model =
     (pattern = ''*'' \<or> (ends_with pattern ''*'' \<and> starts_with model (take (length pattern - 1) pattern)))"

definition find_model_override :: "(string, model_override) hmap \<Rightarrow> string \<Rightarrow> model_override option" where
  "find_model_override overrides model =
     (case hget overrides model of
        Some m \<Rightarrow> Some m
      | None \<Rightarrow> map_option snd (List.find (\<lambda>(pattern, _). override_pattern_matches pattern model) overrides))"

text \<open>
  Effective protocol declaration. Precedence: account and model, provider and model, account,
  provider, legacy \<open>native_protocols\<close> with an endpoint, unsupported.
\<close>

definition protocol_capability ::
  "gateway_config \<Rightarrow> string \<Rightarrow> string option \<Rightarrow> string \<Rightarrow> protocol \<Rightarrow> protocol_capability" where
  "protocol_capability cfg provider_id account_id model p =
     (let pv = provider cfg provider_id;
          ac = Option.bind account_id (account cfg);
          override = (\<lambda>os. Option.bind (find_model_override os model)
                             (\<lambda>m. hget (mo_protocol_capabilities m) p))
      in case Option.bind ac (\<lambda>a. override (ac_model_overrides a)) of Some value \<Rightarrow> value | None \<Rightarrow>
         case Option.bind pv (\<lambda>v. override (pv_model_overrides v)) of Some value \<Rightarrow> value | None \<Rightarrow>
         case Option.bind ac (\<lambda>a. hget (ac_protocol_capabilities a) p) of Some value \<Rightarrow> value | None \<Rightarrow>
         case pv of
           None \<Rightarrow> protocol_capability_unsupported
         | Some v \<Rightarrow>
             (case hget (pv_protocol_capabilities v) p of
                Some value \<Rightarrow> value
              | None \<Rightarrow>
                  if p \<in> set (pv_native_protocols v) \<and> hget (pv_endpoints v) p \<noteq> None
                  then protocol_capability_native
                  else protocol_capability_unsupported))"

definition effective_protocol_capabilities ::
  "gateway_config \<Rightarrow> string \<Rightarrow> string option \<Rightarrow> string \<Rightarrow> capability_matrix" where
  "effective_protocol_capabilities cfg provider_id account_id model =
     map (\<lambda>p. (p, protocol_capability cfg provider_id account_id model p)) protocol_ALL"

definition capabilities_of :: "gateway_config \<Rightarrow> string \<Rightarrow> string option \<Rightarrow> string \<Rightarrow> capabilities" where
  "capabilities_of cfg provider_id account_id model =
     (let pv = provider cfg provider_id;
          ac = Option.bind account_id (account cfg);
          override = (\<lambda>os. Option.bind (find_model_override os model) mo_capabilities)
      in case Option.bind ac (\<lambda>a. override (ac_model_overrides a)) of Some value \<Rightarrow> value | None \<Rightarrow>
         case Option.bind pv (\<lambda>v. override (pv_model_overrides v)) of Some value \<Rightarrow> value | None \<Rightarrow>
         case Option.bind ac ac_capabilities of Some value \<Rightarrow> value | None \<Rightarrow>
         case pv of Some v \<Rightarrow> pv_capabilities v | None \<Rightarrow> capabilities_default)"

fun push_new :: "string list \<Rightarrow> string list \<Rightarrow> string list" where
  "push_new acc [] = acc"
| "push_new acc (m # ms) = push_new (if m \<in> set acc then acc else acc @ [m]) ms"

definition config_models :: "gateway_config \<Rightarrow> string list" where
  "config_models cfg = push_new [] (concat (map pv_models (gc_providers cfg)))"

section \<open>Validation of a configuration\<close>

definition collect :: "(unit, 'e) result \<Rightarrow> 'e list" where
  "collect r = (case r of Inl e \<Rightarrow> [e] | Inr _ \<Rightarrow> [])"

definition indexed_scope :: "string \<Rightarrow> nat \<Rightarrow> string \<Rightarrow> string" where
  "indexed_scope kind i ident = kind @ ''['' @ show_nat i @ ''] ('' @ ident @ '')''"

definition validate_provider :: "adapter_registry \<Rightarrow> nat \<times> provider_config \<Rightarrow> validation_error list" where
  "validate_provider reg = (\<lambda>(i, v).
     let scope = indexed_scope ''providers'' i (pv_id v) in
     collect (validate_matrix reg (pv_protocol_capabilities v) (pv_endpoints v) (pv_native_protocols v) scope) @
     concat (map (\<lambda>(model, m).
         collect (validate_override_matrix reg (mo_protocol_capabilities m) (pv_protocol_capabilities v)
           (pv_endpoints v) (pv_native_protocols v) (scope @ ''.model_overrides.'' @ model)))
       (pv_model_overrides v)))"

text \<open>\<open>HashMap::extend\<close>: later entries replace earlier ones.\<close>

definition hextend :: "('k, 'v) hmap \<Rightarrow> ('k, 'v) hmap \<Rightarrow> ('k, 'v) hmap" where
  "hextend base new = fold (\<lambda>(k, v) m. hinsert k v m) new base"

definition validate_account ::
  "adapter_registry \<Rightarrow> gateway_config \<Rightarrow> nat \<times> account_config \<Rightarrow> validation_error list" where
  "validate_account reg cfg = (\<lambda>(i, a).
     let scope = indexed_scope ''accounts'' i (ac_id a);
         pv = provider cfg (ac_provider_id a);
         endpoints = (case pv of Some v \<Rightarrow> pv_endpoints v | None \<Rightarrow> []);
         native = (case pv of Some v \<Rightarrow> pv_native_protocols v | None \<Rightarrow> []);
         base_matrix = (case pv of Some v \<Rightarrow> pv_protocol_capabilities v | None \<Rightarrow> []);
         account_base_matrix = hextend base_matrix (ac_protocol_capabilities a)
     in collect (validate_override_matrix reg (ac_protocol_capabilities a) base_matrix endpoints native scope) @
        concat (map (\<lambda>(model, m).
            collect (validate_override_matrix reg (mo_protocol_capabilities m) account_base_matrix
              endpoints native (scope @ ''.model_overrides.'' @ model)))
          (ac_model_overrides a)))"

definition validate_route_protocol ::
  "adapter_registry \<Rightarrow> gateway_config \<Rightarrow> route_config \<Rightarrow> provider_config \<Rightarrow> string
   \<Rightarrow> nat \<times> protocol \<Rightarrow> validation_error list" where
  "validate_route_protocol reg cfg r v scope = (\<lambda>(j, p).
     let protocol_scope = scope @ ''.protocols['' @ show_nat j @ ''] ('' @ protocol_to_string p @ '')'' in
     if rc_mode r = ''native'' then
       (if pc_mode (protocol_capability cfg (pv_id v) (Some (rc_primary_account_id r)) (rc_model r) p)
             \<noteq> ProtocolMode_Native
        then [VErr (protocol_scope @ '': native route requires a native protocol capability'')] else [])
     else if rc_mode r = ''adapter'' then
       (case rc_adapter r of
          None \<Rightarrow> [VErr (protocol_scope @ ''.adapter: adapter route requires adapter'')]
        | Some name \<Rightarrow>
            (case adapter_definition reg name of
               None \<Rightarrow> [VErr (protocol_scope @ ''.adapter: unknown adapter '' @ quoted name)]
             | Some d \<Rightarrow>
                 if ad_from_protocol d \<noteq> p
                 then [VErr (protocol_scope @ ''.adapter: adapter '' @ quoted name @ '' accepts '' @
                         protocol_to_string (ad_from_protocol d) @ '', not '' @ protocol_to_string p)]
                 else []))
     else if rc_mode r = ''unsupported'' then
       (if rc_adapter r \<noteq> None
        then [VErr (protocol_scope @ ''.adapter: unsupported route cannot set adapter'')] else [])
     else [VErr (scope @ ''.mode: unknown route mode '' @ quoted (rc_mode r) @
                 '' (expected native, adapter, or unsupported)'')])"

definition validate_route_fallback ::
  "gateway_config \<Rightarrow> route_config \<Rightarrow> provider_config \<Rightarrow> string \<Rightarrow> nat \<times> string \<Rightarrow> validation_error list" where
  "validate_route_fallback cfg r v scope = (\<lambda>(j, fallback_id).
     let fb_scope = scope @ ''.fallback_accounts['' @ show_nat j @ ''] ('' @ fallback_id @ '')'' in
     case account cfg fallback_id of
       None \<Rightarrow> [VErr (fb_scope @ '': unknown account'')]
     | Some fb \<Rightarrow>
         if ac_provider_id fb = pv_id v then []
         else (if rc_mode r = ''adapter''
               then [VErr (fb_scope @ '': adapter route cannot have cross-provider fallback'')] else []) @
              (case provider cfg (ac_provider_id fb) of
                 None \<Rightarrow> [VErr (fb_scope @ '': unknown provider '' @ quoted (ac_provider_id fb))]
               | Some fbv \<Rightarrow>
                   concat (map (\<lambda>p.
                     if pc_mode (protocol_capability cfg (pv_id fbv) (Some (ac_id fb)) (rc_model r) p)
                          \<noteq> ProtocolMode_Native
                     then [VErr (fb_scope @ '': cross-provider fallback requires native protocol '' @
                             protocol_to_string p @ '' on provider '' @ quoted (pv_id fbv))]
                     else []) (rc_protocols r))))"

definition validate_route ::
  "adapter_registry \<Rightarrow> gateway_config \<Rightarrow> nat \<times> route_config \<Rightarrow> validation_error list" where
  "validate_route reg cfg = (\<lambda>(i, r).
     let scope = indexed_scope ''routes'' i (rc_id r) in
     case provider cfg (rc_provider_id r) of
       None \<Rightarrow> [VErr (scope @ ''.provider_id: unknown provider '' @ rc_provider_id r)]
     | Some v \<Rightarrow>
         (if rc_protocols r = [] then [VErr (scope @ ''.protocols: must contain at least one protocol'')] else []) @
         concat (map (validate_route_protocol reg cfg r v scope) (enumerate0 (rc_protocols r))) @
         concat (map (validate_route_fallback cfg r v scope) (enumerate0 (rc_fallback_accounts r))))"

definition validate :: "adapter_registry \<Rightarrow> gateway_config \<Rightarrow> (unit, validation_error list) result" where
  "validate reg cfg =
     (let errors =
        concat (map (validate_provider reg) (enumerate0 (gc_providers cfg))) @
        concat (map (validate_account reg cfg) (enumerate0 (gc_accounts cfg))) @
        concat (map (validate_route reg cfg) (enumerate0 (gc_routes cfg)))
      in if errors = [] then Ok () else Err errors)"

section \<open>What validation guarantees\<close>

subsection \<open>One declaration\<close>

lemma validate_capability_adapter:
  assumes "validate_capability c p = Ok ()" and "pc_mode c = ProtocolMode_Adapter"
  obtains source name where "pc_source_protocol c = Some source" "pc_adapter c = Some name"
    "source \<noteq> p" "trim name \<noteq> []"
  using assms by (auto simp: validate_capability_def split: option.splits if_splits)

text \<open>A declaration in adapter mode that passed the entry check has both fields and the right direction.\<close>

lemma validate_matrix_entry_adapter:
  assumes "validate_matrix_entry reg endpoints scope (p, c) = Ok ()" and "pc_mode c = ProtocolMode_Adapter"
  obtains source name d where "pc_source_protocol c = Some source" "pc_adapter c = Some name"
    "source \<noteq> p" "adapter_definition reg name = Some d" "ad_from_protocol d = p" "ad_to_protocol d = source"
  using assms
  by (auto simp: validate_matrix_entry_def elim!: validate_capability_adapter
      split: sum.splits if_splits option.splits)

lemma validate_matrix_entry_not_panic: "validate_matrix_entry reg endpoints scope pc \<noteq> Err VPanic"
  by (cases pc)
    (auto simp: validate_matrix_entry_def validate_capability_def split: sum.splits if_splits option.splits
      protocol_mode.splits)

lemma for_each_not_err:
  assumes "\<And>x. x \<in> set xs \<Longrightarrow> f x \<noteq> Err e"
  shows "for_each f xs \<noteq> Err e"
  using assms by (induction xs) (auto split: sum.splits)

lemma validate_matrix_ok:
  "validate_matrix reg matrix endpoints legacy scope = Ok () \<longleftrightarrow>
     (\<forall>p \<in> set legacy. has_endpoint endpoints p) \<and>
     (\<forall>e \<in> set matrix. validate_matrix_entry reg endpoints scope e = Ok ()) \<and>
     (\<forall>e \<in> set matrix. validate_matrix_source matrix endpoints legacy scope e = Ok ())"
  by (simp add: validate_matrix_def seq_ok is_ok_unit for_each_ok validate_matrix_legacy_def)

lemma validate_matrix_not_panic: "validate_matrix reg matrix endpoints legacy scope \<noteq> Err VPanic"
proof -
  have 1: "for_each (validate_matrix_legacy endpoints scope) legacy \<noteq> Err VPanic"
    by (rule for_each_not_err) (simp add: validate_matrix_legacy_def)
  have 2: "for_each (validate_matrix_entry reg endpoints scope) matrix \<noteq> Err VPanic"
    by (rule for_each_not_err) (rule validate_matrix_entry_not_panic)
  have 3: "for_each (validate_matrix_source matrix endpoints legacy scope) matrix \<noteq> Err VPanic"
    if "for_each (validate_matrix_entry reg endpoints scope) matrix = Ok ()"
  proof (rule for_each_not_err)
    fix e assume "e \<in> set matrix"
    with that have "validate_matrix_entry reg endpoints scope e = Ok ()" by (simp add: for_each_ok)
    then show "validate_matrix_source matrix endpoints legacy scope e \<noteq> Err VPanic"
      by (cases e) (auto simp: validate_matrix_source_def split: option.splits protocol_mode.splits
          elim: validate_matrix_entry_adapter)
  qed
  show ?thesis using 1 2 3 by (auto simp: validate_matrix_def split: sum.splits)
qed

lemma validate_override_matrix_not_panic:
  "validate_override_matrix reg matrix base endpoints legacy scope \<noteq> Err VPanic"
proof -
  have "for_each (validate_override_source base endpoints scope) matrix \<noteq> Err VPanic"
    if "validate_matrix reg matrix endpoints legacy scope = Ok ()"
  proof (rule for_each_not_err)
    fix e assume "e \<in> set matrix"
    with that have "validate_matrix_entry reg endpoints scope e = Ok ()" by (simp add: validate_matrix_ok)
    then show "validate_override_source base endpoints scope e \<noteq> Err VPanic"
      by (cases e) (auto simp: validate_override_source_def split: option.splits protocol_mode.splits
          elim: validate_matrix_entry_adapter)
  qed
  then show ?thesis
    using validate_matrix_not_panic by (auto simp: validate_override_matrix_def split: sum.splits)
qed

lemma validate_override_matrix_base:
  "validate_override_matrix reg matrix base endpoints legacy scope = Ok () \<Longrightarrow>
   validate_matrix reg matrix endpoints legacy scope = Ok ()"
  by (auto simp: validate_override_matrix_def split: sum.splits)

subsection \<open>No panic\<close>

lemma collect_eq_Nil: "collect r = [] \<longleftrightarrow> is_ok r"
  by (cases r) (simp_all add: collect_def)

lemma collect_unit_Nil: "collect r = [] \<longleftrightarrow> r = Ok ()"
  by (cases r) (simp_all add: collect_def)

lemma panic_in_collect: "VPanic \<in> set (collect r) \<longleftrightarrow> r = Err VPanic"
  by (cases r) (auto simp: collect_def)

lemma validate_route_not_panic: "VPanic \<notin> set (validate_route reg cfg ir)"
  by (cases ir)
    (auto simp: validate_route_def validate_route_protocol_def validate_route_fallback_def Let_def
      split: option.splits if_splits)

text \<open>
  The two \<open>expect\<close> calls of \<open>validate_matrix\<close> and the one of \<open>validate_override_matrix\<close>
  never panic: whatever the configuration, \<open>GatewayConfig::validate\<close> returns its list of
  messages.
\<close>

theorem validate_never_panics:
  "VPanic \<notin> set (case validate reg cfg of Inl errors \<Rightarrow> errors | Inr _ \<Rightarrow> [])"
  using validate_route_not_panic
  by (auto simp: validate_def Let_def validate_provider_def validate_account_def panic_in_collect
      validate_matrix_not_panic validate_override_matrix_not_panic split: if_splits)

subsection \<open>Where an effective declaration comes from\<close>

lemma find_model_override_set: "find_model_override os model = Some m \<Longrightarrow> \<exists>k. (k, m) \<in> set os"
  by (auto simp: find_model_override_def find_Some_iff split: option.splits dest!: map_of_SomeD)
    (metis nth_mem)

definition account_matrix :: "account_config \<Rightarrow> capability_matrix \<Rightarrow> bool" where
  "account_matrix a M \<longleftrightarrow> M = ac_protocol_capabilities a \<or>
     (\<exists>k m. (k, m) \<in> set (ac_model_overrides a) \<and> M = mo_protocol_capabilities m)"

definition provider_matrix :: "provider_config \<Rightarrow> capability_matrix \<Rightarrow> bool" where
  "provider_matrix v M \<longleftrightarrow> M = pv_protocol_capabilities v \<or>
     (\<exists>k m. (k, m) \<in> set (pv_model_overrides v) \<and> M = mo_protocol_capabilities m)"

lemma protocol_capability_source:
  assumes "c = protocol_capability cfg pid aid model p"
  obtains (account) a M where "Option.bind aid (account cfg) = Some a" "account_matrix a M" "(p, c) \<in> set M"
  | (provider) v M where "provider cfg pid = Some v" "provider_matrix v M" "(p, c) \<in> set M"
  | (legacy) v where "provider cfg pid = Some v" "p \<in> set (pv_native_protocols v)"
      "c = protocol_capability_native"
  | (none) "c = protocol_capability_unsupported"
proof -
  let ?ov = "\<lambda>os. Option.bind (find_model_override os model) (\<lambda>m. hget (mo_protocol_capabilities m) p)"
  let ?ac = "Option.bind aid (account cfg)"
  have ov: "\<exists>k m. (k, m) \<in> set os \<and> (p, x) \<in> set (mo_protocol_capabilities m)" if "?ov os = Some x" for os x
    using that by (auto simp: bind_eq_Some_conv dest!: map_of_SomeD) (metis find_model_override_set)
  show ?thesis
  proof (cases "Option.bind ?ac (\<lambda>a. ?ov (ac_model_overrides a))")
    case 1: (Some x)
    then obtain a where a: "?ac = Some a" "?ov (ac_model_overrides a) = Some x"
      by (cases "?ac") auto
    from 1 assms have "c = x" by (simp add: protocol_capability_def Let_def)
    with ov [OF a(2)] a(1) show ?thesis by (metis (no_types) account_matrix_def account)
  next
    case 1: None
    show ?thesis
    proof (cases "Option.bind (provider cfg pid) (\<lambda>v. ?ov (pv_model_overrides v))")
      case 2: (Some x)
      then obtain v where v: "provider cfg pid = Some v" "?ov (pv_model_overrides v) = Some x"
        by (cases "provider cfg pid") auto
      from 1 2 assms have "c = x" by (simp add: protocol_capability_def Let_def)
      with ov [OF v(2)] v(1) show ?thesis by (metis (no_types) provider_matrix_def provider)
    next
      case 2: None
      with 1 assms show ?thesis
        unfolding protocol_capability_def Let_def
        by (auto split: option.splits if_splits simp: bind_eq_Some_conv account_matrix_def provider_matrix_def
            dest!: map_of_SomeD intro: account provider legacy none)
    qed
  qed
qed

subsection \<open>What an accepted configuration looks like\<close>

definition matrix_checked ::
  "adapter_registry \<Rightarrow> (protocol, string) hmap \<Rightarrow> protocol list \<Rightarrow> capability_matrix \<Rightarrow> bool" where
  "matrix_checked reg endpoints legacy M \<longleftrightarrow> (\<exists>scope. validate_matrix reg M endpoints legacy scope = Ok ())"

lemma set_concat_map_Nil: "concat (map f xs) = [] \<longleftrightarrow> (\<forall>x \<in> set xs. f x = [])"
  by auto

lemma enumerate0_ex: "x \<in> set xs \<Longrightarrow> \<exists>i. (i, x) \<in> set (enumerate0 xs)"
  by (auto simp: set_enumerate0 in_set_conv_nth)

lemma provider_in: "provider cfg pid = Some v \<Longrightarrow> v \<in> set (gc_providers cfg) \<and> pv_id v = pid"
  by (auto simp: provider_def find_Some_iff)

lemma account_in: "account cfg aid = Some a \<Longrightarrow> a \<in> set (gc_accounts cfg) \<and> ac_id a = aid"
  by (auto simp: account_def find_Some_iff)

lemma validate_ok_provider:
  assumes ok: "validate reg cfg = Ok ()" and v: "v \<in> set (gc_providers cfg)" and M: "provider_matrix v M"
  shows "matrix_checked reg (pv_endpoints v) (pv_native_protocols v) M"
proof -
  from enumerate0_ex [OF v] obtain i where "(i, v) \<in> set (enumerate0 (gc_providers cfg))" ..
  with ok have "validate_provider reg (i, v) = []"
    by (auto simp: validate_def Let_def split: if_splits)
  with M show ?thesis
    by (fastforce simp: validate_provider_def Let_def collect_unit_Nil provider_matrix_def matrix_checked_def
        dest: validate_override_matrix_base)
qed

lemma validate_ok_account:
  assumes ok: "validate reg cfg = Ok ()" and a: "a \<in> set (gc_accounts cfg)" and M: "account_matrix a M"
  shows "matrix_checked reg
     (case provider cfg (ac_provider_id a) of Some v \<Rightarrow> pv_endpoints v | None \<Rightarrow> [])
     (case provider cfg (ac_provider_id a) of Some v \<Rightarrow> pv_native_protocols v | None \<Rightarrow> []) M"
proof -
  from enumerate0_ex [OF a] obtain i where "(i, a) \<in> set (enumerate0 (gc_accounts cfg))" ..
  with ok have "validate_account reg cfg (i, a) = []"
    by (auto simp: validate_def Let_def split: if_splits)
  with M show ?thesis
    by (fastforce simp: validate_account_def Let_def collect_unit_Nil account_matrix_def matrix_checked_def
        dest: validate_override_matrix_base)
qed

lemma validate_ok_route:
  assumes "validate reg cfg = Ok ()" "ir \<in> set (enumerate0 (gc_routes cfg))"
  shows "validate_route reg cfg ir = []"
  using assms by (auto simp: validate_def Let_def split: if_splits)

lemma validate_route_Nil:
  assumes "validate_route reg cfg (i, r) = []"
  obtains v scope where "provider cfg (rc_provider_id r) = Some v"
    "\<forall>jp \<in> set (enumerate0 (rc_protocols r)). validate_route_protocol reg cfg r v scope jp = []"
  using assms by (auto simp: validate_route_def Let_def split: option.splits if_splits)

lemma matrix_checked_native:
  assumes "matrix_checked reg endpoints legacy M" "(p, c) \<in> set M" "pc_mode c = ProtocolMode_Native"
  shows "has_endpoint endpoints p"
  using assms
  by (fastforce simp: matrix_checked_def validate_matrix_ok validate_matrix_entry_def split: sum.splits if_splits)

lemma matrix_checked_legacy:
  assumes "matrix_checked reg endpoints legacy M" "p \<in> set legacy"
  shows "has_endpoint endpoints p"
  using assms by (auto simp: matrix_checked_def validate_matrix_ok)

lemma matrix_checked_adapter:
  assumes "matrix_checked reg endpoints legacy M" "(p, c) \<in> set M" "pc_mode c = ProtocolMode_Adapter"
  obtains source name d where "pc_source_protocol c = Some source" "pc_adapter c = Some name" "source \<noteq> p"
    "adapter_definition reg name = Some d" "ad_from_protocol d = p" "ad_to_protocol d = source"
    "has_endpoint endpoints source"
    "\<And>sc. hget M source = Some sc \<Longrightarrow> pc_mode sc = ProtocolMode_Native"
proof -
  from assms(1) obtain scope where ok: "validate_matrix reg M endpoints legacy scope = Ok ()"
    by (auto simp: matrix_checked_def)
  with assms(2) have e: "validate_matrix_entry reg endpoints scope (p, c) = Ok ()"
    and s: "validate_matrix_source M endpoints legacy scope (p, c) = Ok ()"
    by (auto simp: validate_matrix_ok)
  from e assms(3) obtain source name d where *: "pc_source_protocol c = Some source" "pc_adapter c = Some name"
    "source \<noteq> p" "adapter_definition reg name = Some d" "ad_from_protocol d = p" "ad_to_protocol d = source"
    by (rule validate_matrix_entry_adapter)
  have "has_endpoint endpoints source"
    using s * assms(1,3) matrix_checked_legacy
    by (auto simp: validate_matrix_source_def split: option.splits protocol_mode.splits if_splits)
  moreover have "pc_mode sc = ProtocolMode_Native" if "hget M source = Some sc" for sc
    using s * assms(3) that by (auto simp: validate_matrix_source_def split: protocol_mode.splits if_splits)
  ultimately show ?thesis using that * by blast
qed

text \<open>
  An accepted matrix has no adapter chain. Every adapter declaration names a registered
  adapter of exactly that direction, its source protocol differs from the target, has
  a non-empty endpoint, and is itself native wherever the matrix declares it.
\<close>

theorem validate_matrix_single_hop:
  assumes "validate_matrix reg M endpoints legacy scope = Ok ()"
    and "hget M p = Some c" and "pc_mode c = ProtocolMode_Adapter"
  shows "\<exists>source name d. pc_source_protocol c = Some source \<and> pc_adapter c = Some name \<and> source \<noteq> p \<and>
     adapter_definition reg name = Some d \<and> ad_from_protocol d = p \<and> ad_to_protocol d = source \<and>
     has_endpoint endpoints source \<and>
     (case hget M source of None \<Rightarrow> True | Some sc \<Rightarrow> pc_mode sc = ProtocolMode_Native)"
proof -
  have "matrix_checked reg endpoints legacy M" using assms(1) by (auto simp: matrix_checked_def)
  from this map_of_SomeD [OF assms(2)] assms(3) show ?thesis
    by (rule matrix_checked_adapter) (auto split: option.split)
qed

theorem validate_matrix_single_hop_witness:
  "\<exists>source name d. source \<noteq> OpenAiResponses \<and> adapter_definition test_adapter_registry name = Some d \<and>
     ad_to_protocol d = source"
proof -
  let ?M = "[(OpenAiResponses, protocol_capability_adapter AnthropicMessages ''kimi_responses_adapter''),
             (AnthropicMessages, protocol_capability_native)]"
  let ?E = "[(AnthropicMessages, ''/v1/messages'')]"
  have "validate_matrix test_adapter_registry ?M ?E [] ''p'' = Ok ()" by code_simp
  from validate_matrix_single_hop [OF this, of OpenAiResponses
      "protocol_capability_adapter AnthropicMessages ''kimi_responses_adapter''"]
  show ?thesis by (auto simp: protocol_capability_adapter_def)
qed

text \<open>
  In the production build the adapter registry is empty, so a configuration that validates
  never yields an adapter declaration for any provider, account, model and protocol: adapter
  dispatch is unreachable from validated configuration.
\<close>

theorem production_config_has_no_adapter:
  assumes "validate adapter_registry cfg = Ok ()"
  shows "pc_mode (protocol_capability cfg pid aid model p) \<noteq> ProtocolMode_Adapter"
proof
  let ?c = "protocol_capability cfg pid aid model p"
  assume adapter: "pc_mode ?c = ProtocolMode_Adapter"
  have no: "\<not> (matrix_checked adapter_registry E L M \<and> (p, ?c) \<in> set M)" for E L M
    using adapter
    by (auto elim!: matrix_checked_adapter simp: adapter_definition_def adapter_registry_def)
  from refl [of ?c] show False
  proof (cases rule: protocol_capability_source)
    case (account a M)
    then have "a \<in> set (gc_accounts cfg)" by (auto simp: bind_eq_Some_conv dest: account_in)
    with account no validate_ok_account [OF assms] show ?thesis by blast
  next
    case (provider v M)
    then have "v \<in> set (gc_providers cfg)" by (auto dest: provider_in)
    with provider no validate_ok_provider [OF assms] show ?thesis by blast
  qed (use adapter in \<open>simp_all add: protocol_capability_native_def protocol_capability_unsupported_def\<close>)
qed

definition sample_config :: gateway_config where
  "sample_config =
     \<lparr>gc_listen_addr = ''127.0.0.1:8080'',
      gc_providers =
        [\<lparr>pv_id = ''p'', pv_name = ''P'', pv_base_url = ''https://up.example/'', pv_models = [''m''],
          pv_native_protocols = [AnthropicMessages],
          pv_endpoints = [(AnthropicMessages, ''/v1/messages''), (OpenAiChatCompletions, ''/v1/chat'')],
          pv_capabilities = capabilities_native,
          pv_protocol_capabilities = [(OpenAiChatCompletions, protocol_capability_native)],
          pv_model_overrides = []\<rparr>],
      gc_accounts =
        [\<lparr>ac_id = ''a1'', ac_provider_id = ''p'', ac_display_name = ''A1'', ac_credential_env = None,
          ac_credential_ciphertext = None, ac_credential = Some ''k1'', ac_enabled = True, ac_weight = 1,
          ac_protocol_capabilities = [], ac_capabilities = None, ac_model_overrides = [], ac_model_map = []\<rparr>,
         \<lparr>ac_id = ''a2'', ac_provider_id = ''p'', ac_display_name = ''A2'', ac_credential_env = None,
          ac_credential_ciphertext = None, ac_credential = Some ''k2'', ac_enabled = True, ac_weight = 3,
          ac_protocol_capabilities = [], ac_capabilities = None, ac_model_overrides = [],
          ac_model_map = [(''m'', ''m-upstream'')]\<rparr>],
      gc_routes =
        [\<lparr>rc_id = ''r'', rc_model = ''m'', rc_provider_id = ''p'', rc_protocols = [AnthropicMessages],
          rc_primary_account_id = ''a1'', rc_fallback_accounts = [''a2''], rc_strategy = ''priority'',
          rc_mode = ''native'', rc_adapter = None, rc_allow_lossy_conversion = False\<rparr>]\<rparr>"

lemma sample_config_valid: "validate adapter_registry sample_config = Ok ()"
  by code_simp

theorem production_config_has_no_adapter_witness:
  "pc_mode (protocol_capability sample_config ''p'' (Some ''a1'') ''m'' AnthropicMessages) \<noteq> ProtocolMode_Adapter"
  by (rule production_config_has_no_adapter) (rule sample_config_valid)

text \<open>
  A native declaration is deliverable. In a validated configuration, whenever the effective
  declaration of a provider, an account of that provider (or none), a model and a protocol is
  native, the provider exists and has a non-blank endpoint for the protocol, whichever of the
  five layers the declaration came from.
\<close>

lemma validated_native_has_endpoint:
  assumes ok: "validate reg cfg = Ok ()"
    and native: "pc_mode (protocol_capability cfg pid aid model p) = ProtocolMode_Native"
    and own: "\<And>a. Option.bind aid (account cfg) = Some a \<Longrightarrow> ac_provider_id a = pid"
  shows "\<exists>v. provider cfg pid = Some v \<and> has_endpoint (pv_endpoints v) p"
proof -
  let ?c = "protocol_capability cfg pid aid model p"
  from refl [of ?c] show ?thesis
  proof (cases rule: protocol_capability_source)
    case (account a M)
    then have a: "a \<in> set (gc_accounts cfg)" by (auto simp: bind_eq_Some_conv dest: account_in)
    show ?thesis
      using matrix_checked_native [OF validate_ok_account [OF ok a account(2)] account(3) native] own [OF account(1)]
      by (auto simp: has_endpoint_def split: option.splits)
  next
    case (provider v M)
    then show ?thesis
      using matrix_checked_native [OF validate_ok_provider [OF ok _ provider(2)] provider(3) native]
      by (auto dest: provider_in)
  next
    case (legacy v)
    then show ?thesis
      using matrix_checked_legacy [OF validate_ok_provider [OF ok, of v "pv_protocol_capabilities v"]]
      by (auto dest: provider_in simp: provider_matrix_def)
  qed (use native in \<open>simp add: protocol_capability_unsupported_def\<close>)
qed

subsection \<open>Model overrides and map order\<close>

lemma find_unique:
  assumes "set xs = set ys" and "\<And>x y. x \<in> set xs \<Longrightarrow> y \<in> set xs \<Longrightarrow> P x \<Longrightarrow> P y \<Longrightarrow> x = y"
  shows "List.find P xs = List.find P ys"
proof (cases "List.find P xs")
  case None
  then have "\<forall>x \<in> set ys. \<not> P x" using assms(1) by (auto simp: find_None_iff)
  then show ?thesis using None by (metis find_None_iff)
next
  case (Some x)
  then have x: "x \<in> set xs" "P x" by (auto simp: find_Some_iff)
  then obtain y where "List.find P ys = Some y" using assms(1) by (metis find_None_iff not_None_eq)
  moreover from this have "y \<in> set xs" "P y" using assms(1) by (auto simp: find_Some_iff)
  ultimately show ?thesis using Some x assms(2) by metis
qed

text \<open>
  The override chosen for a model does not depend on the iteration order of the override
  map as long as the model has an exact entry or at most one wildcard entry matches it. (Two
  matching wildcards make the choice depend on the order: \<open>find_model_override_order\<close>.)
\<close>

theorem find_model_override_deterministic:
  assumes "hmap_ok os" "hmap_ok os'" "set os = set os'"
    and "model \<in> fst ` set os \<or>
         (\<forall>k \<in> fst ` set os. \<forall>l \<in> fst ` set os.
            override_pattern_matches k model \<longrightarrow> override_pattern_matches l model \<longrightarrow> k = l)"
  shows "find_model_override os model = find_model_override os' model"
proof -
  have same: "hget os model = hget os' model"
    using assms(1-3) by (metis hmap_ok_def map_of_inject_set)
  show ?thesis
  proof (cases "hget os model")
    case None
    then have one: "k = l" if "k \<in> fst ` set os" "l \<in> fst ` set os"
        "override_pattern_matches k model" "override_pattern_matches l model" for k l
      using assms(4) that by (metis map_of_eq_None_iff)
    have "List.find (\<lambda>(k, _). override_pattern_matches k model) os =
               List.find (\<lambda>(k, _). override_pattern_matches k model) os'"
    proof (rule find_unique [OF assms(3)])
      fix x y assume xy: "x \<in> set os" "y \<in> set os"
        "case x of (k, _) \<Rightarrow> override_pattern_matches k model" "case y of (k, _) \<Rightarrow> override_pattern_matches k model"
      have "fst x = fst y" by (rule one) (use xy in auto)
      with xy(1,2) assms(1) show "x = y"
        unfolding hmap_ok_def by (metis eq_key_imp_eq_value prod.collapse)
    qed
    with same show ?thesis unfolding find_model_override_def by metis
  qed (simp add: find_model_override_def same [symmetric])
qed

theorem find_model_override_deterministic_witness:
  "find_model_override
     [(''*'', \<lparr>mo_protocol_capabilities = [], mo_capabilities = None\<rparr>),
      (''gpt-4'', \<lparr>mo_protocol_capabilities = [], mo_capabilities = Some capabilities_native\<rparr>)] ''gpt-4'' =
   find_model_override
     [(''gpt-4'', \<lparr>mo_protocol_capabilities = [], mo_capabilities = Some capabilities_native\<rparr>),
      (''*'', \<lparr>mo_protocol_capabilities = [], mo_capabilities = None\<rparr>)] ''gpt-4''"
proof (rule find_model_override_deterministic, goal_cases)
  case 3
  show ?case by (simp only: list.set insert_commute)
next
  case 4
  show ?case by (rule disjI1) simp
qed (simp_all add: hmap_ok_def)

lemma find_model_override_order:
  "find_model_override [(''*'', a), (''gpt-*'', b)] ''gpt-4'' = Some a"
  "find_model_override [(''gpt-*'', b), (''*'', a)] ''gpt-4'' = Some b"
  by (simp_all add: find_model_override_def override_pattern_matches_def ends_with_def starts_with_def)

end
