(* ===== verification/Infra_Secrets.thy ===== *)
theory Infra_Secrets
  imports Domain_Config
begin

text \<open>
  Credential resolution and envelope encryption (\<open>infra/secrets.rs\<close>): the key ring and where it is
  loaded from, the envelope formats, encryption, decryption and rotation, and the resolution of
  an account's credential.

  The cryptography (AES-256-GCM, SHA-256), base64 and the JSON parser are a parameter, the record
  \<open>crypto\<close>; the random nonce is an argument. Zeroizing memory on drop is not modelled.
\<close>

record crypto =
  cr_seal :: "string \<Rightarrow> string \<Rightarrow> string \<Rightarrow> string \<Rightarrow> string option"
  cr_open :: "string \<Rightarrow> string \<Rightarrow> string \<Rightarrow> string \<Rightarrow> string option"
  cr_sha256 :: "string \<Rightarrow> string"
  cr_b64url_encode :: "string \<Rightarrow> string"
  cr_b64url_decode :: "string \<Rightarrow> string option"
  cr_b64_decode :: "string \<Rightarrow> string option"
  cr_parse :: json_parser

definition NONCE_LEN :: nat where "NONCE_LEN = 12"
definition TAG_LEN :: nat where "TAG_LEN = 16"
definition MAX_ENVELOPE_LEN :: nat where "MAX_ENVELOPE_LEN = 16 * 1024 * 1024"
definition MAX_KEY_VERSION_LEN :: nat where "MAX_KEY_VERSION_LEN = 64"

datatype secret_resolver_error =
    CredentialUnavailable | AmbiguousCredential | MasterKeyUnavailable | InvalidMasterKeyConfig
  | InvalidCiphertext | DecryptionFailed | InvalidPlaintext

fun secret_error_code :: "secret_resolver_error \<Rightarrow> string" where
  "secret_error_code CredentialUnavailable = ''credential_unavailable''"
| "secret_error_code AmbiguousCredential = ''credential_ambiguous''"
| "secret_error_code MasterKeyUnavailable = ''credential_master_key_unavailable''"
| "secret_error_code InvalidMasterKeyConfig = ''credential_master_key_invalid''"
| "secret_error_code InvalidCiphertext = ''credential_ciphertext_invalid''"
| "secret_error_code DecryptionFailed = ''credential_decryption_failed''"
| "secret_error_code InvalidPlaintext = ''credential_plaintext_invalid''"

fun secret_public_message :: "secret_resolver_error \<Rightarrow> string" where
  "secret_public_message CredentialUnavailable = ''account credential is unavailable''"
| "secret_public_message AmbiguousCredential = ''account credential configuration is ambiguous''"
| "secret_public_message MasterKeyUnavailable = ''credential master key is unavailable''"
| "secret_public_message InvalidMasterKeyConfig = ''credential master key configuration is invalid''"
| "secret_public_message InvalidCiphertext = ''account credential ciphertext is invalid''"
| "secret_public_message DecryptionFailed = ''account credential could not be decrypted''"
| "secret_public_message InvalidPlaintext = ''account credential plaintext is invalid''"

text \<open>\<open>SecretLease::new\<close>: a lease is a non-empty UTF-8 string.\<close>

definition lease_new :: "string \<Rightarrow> (string, secret_resolver_error) result" where
  "lease_new v = (if v = [] \<or> \<not> is_utf8 v then Err InvalidPlaintext else Ok v)"

record secret_resolver =
  kr_active_version :: string
  kr_keys :: "(string, string) bmap"

definition resolver_empty :: secret_resolver where
  "resolver_empty = \<lparr>kr_active_version = ''v1'', kr_keys = []\<rparr>"

section \<open>The key ring\<close>

definition version_byte :: "char \<Rightarrow> bool" where
  "version_byte b \<longleftrightarrow> is_ascii_alphanumeric b \<or> b \<in> {CHR ''.'', CHR ''_'', CHR ''-''}"

definition validate_key_version :: "string \<Rightarrow> (string, secret_resolver_error) result" where
  "validate_key_version v =
     (if v = [] \<or> MAX_KEY_VERSION_LEN < length v \<or> \<not> list_all version_byte v
      then Err InvalidMasterKeyConfig else Ok v)"

text \<open>
  \<open>u8::from_str_radix(s, 16)\<close> on a two-byte slice (a leading plus sign is accepted), and the loop over
  the slices. Slicing panics when the slice ends inside a character, that is when the next byte is
  a continuation byte.
\<close>

datatype load_failure = Refused secret_resolver_error | SlicePanic

definition hex_digit :: "char \<Rightarrow> nat option" where
  "hex_digit c =
     (let n = (of_char c :: nat) in
      if 48 \<le> n \<and> n \<le> 57 then Some (n - 48)
      else if 97 \<le> n \<and> n \<le> 102 then Some (n - 87)
      else if 65 \<le> n \<and> n \<le> 70 then Some (n - 55) else None)"

definition hex_byte :: "char \<Rightarrow> char \<Rightarrow> char option" where
  "hex_byte a b =
     (if a = CHR ''+'' then map_option char_of (hex_digit b)
      else case (hex_digit a, hex_digit b) of
             (Some x, Some y) \<Rightarrow> Some (char_of (16 * x + y))
           | _ \<Rightarrow> None)"

fun hex_bytes :: "string \<Rightarrow> (string option, load_failure) result" where
  "hex_bytes (a # b # rest) =
     (if rest \<noteq> [] \<and> utf8_cont (hd rest) then Err SlicePanic
      else case hex_byte a b of
             None \<Rightarrow> Ok None
           | Some x \<Rightarrow> and_then (hex_bytes rest) (\<lambda>xs. Ok (map_option (\<lambda>xs. x # xs) xs)))"
| "hex_bytes _ = Ok (Some [])"

definition decode_key_material :: "crypto \<Rightarrow> string \<Rightarrow> (string option, load_failure) result" where
  "decode_key_material cr v =
     (if \<not> is_utf8 v then Ok None
      else case strip_prefix v ''base64:'' of
             Some encoded \<Rightarrow> Ok (or_else (cr_b64_decode cr encoded) (cr_b64url_decode cr encoded))
           | None \<Rightarrow>
               (case strip_prefix v ''hex:'' of
                  Some encoded \<Rightarrow> if length encoded mod 2 \<noteq> 0 then Ok None else hex_bytes encoded
                | None \<Rightarrow> Ok None))"

definition derive_key :: "crypto \<Rightarrow> string \<Rightarrow> (string, load_failure) result" where
  "derive_key cr v =
     and_then (decode_key_material cr v) (\<lambda>m.
       let decoded = (case m of Some d \<Rightarrow> d | None \<Rightarrow> v)
       in Ok (if length decoded = 32 then decoded else cr_sha256 cr decoded))"

definition refuse :: "('a, secret_resolver_error) result \<Rightarrow> ('a, load_failure) result" where
  "refuse r = map_sum Refused id r"

fun insert_keys :: "crypto \<Rightarrow> (string \<times> string) list \<Rightarrow> (string, string) bmap \<Rightarrow> ((string, string) bmap, load_failure) result" where
  "insert_keys cr [] acc = Ok acc"
| "insert_keys cr ((version, v) # rest) acc =
     and_then (refuse (validate_key_version version)) (\<lambda>version.
       if v = [] then Err (Refused InvalidMasterKeyConfig)
       else and_then (derive_key cr v) (\<lambda>key. insert_keys cr rest (binsert version key acc)))"

definition from_keyring :: "crypto \<Rightarrow> string \<Rightarrow> (string \<times> string) list \<Rightarrow> (secret_resolver, load_failure) result" where
  "from_keyring cr active_version keys =
     and_then (refuse (validate_key_version active_version)) (\<lambda>active_version.
     and_then (insert_keys cr keys []) (\<lambda>normalized.
       if normalized \<noteq> [] \<and> map_of normalized active_version = None then Err (Refused InvalidMasterKeyConfig)
       else Ok \<lparr>kr_active_version = active_version, kr_keys = normalized\<rparr>))"

definition first_nonempty_env :: "(string \<Rightarrow> string option) \<Rightarrow> string list \<Rightarrow> string option" where
  "first_nonempty_env env names =
     foldr (\<lambda>name rest. case env name of Some v \<Rightarrow> if trim v \<noteq> [] then Some v else rest | None \<Rightarrow> rest) names None"

definition split_keyring :: "string \<Rightarrow> string list" where
  "split_keyring raw = concat (map (split_on CHR '';'') (split_on CHR '','' raw))"

definition split_once :: "char \<Rightarrow> string \<Rightarrow> (string \<times> string) option" where
  "split_once c s = (if c \<in> set s then Some (takeWhile (\<lambda>x. x \<noteq> c) s, tl (dropWhile (\<lambda>x. x \<noteq> c) s)) else None)"

definition keyring_entry :: "string \<Rightarrow> (string \<times> string, secret_resolver_error) result" where
  "keyring_entry entry =
     and_then (ok_or InvalidMasterKeyConfig (split_once CHR ''='' entry)) (\<lambda>(version, v).
       if v = [] then Err InvalidMasterKeyConfig else Ok (trim version, v))"

fun collect_results :: "('a, 'e) result list \<Rightarrow> ('a list, 'e) result" where
  "collect_results [] = Ok []"
| "collect_results (r # rs) = and_then r (\<lambda>x. and_then (collect_results rs) (\<lambda>xs. Ok (x # xs)))"

definition parse_keyring :: "crypto \<Rightarrow> string \<Rightarrow> ((string \<times> string) list, secret_resolver_error) result" where
  "parse_keyring cr raw =
     (let raw = trim raw in
      if starts_with raw ''{'' then
        and_then (ok_or InvalidMasterKeyConfig (Option.bind (cr_parse cr raw) json_as_object)) (\<lambda>object.
          collect_results (map (\<lambda>(version, v).
            and_then (ok_or InvalidMasterKeyConfig (json_as_str v)) (\<lambda>v. Ok (version, v))) object))
      else collect_results (map keyring_entry (filter (\<lambda>e. trim e \<noteq> []) (split_keyring raw))))"

definition resolver_from_env :: "crypto \<Rightarrow> (string \<Rightarrow> string option) \<Rightarrow> (secret_resolver, load_failure) result" where
  "resolver_from_env cr env =
     (let keyring_raw = first_nonempty_env env
            [''GATEWAY_CREDENTIAL_MASTER_KEYS'', ''GATEWAY_SECRET_MASTER_KEYS'', ''GATEWAY_ENCRYPTION_KEYS''];
          primary = first_nonempty_env env
            [''GATEWAY_CREDENTIAL_MASTER_KEY'', ''GATEWAY_SECRET_MASTER_KEY'', ''GATEWAY_ENCRYPTION_KEY''];
          primary_version = (case first_nonempty_env env
            [''GATEWAY_CREDENTIAL_MASTER_KEY_VERSION'', ''GATEWAY_SECRET_MASTER_KEY_VERSION'', ''GATEWAY_ENCRYPTION_KEY_VERSION'']
            of Some v \<Rightarrow> v | None \<Rightarrow> ''v1'');
          active = first_nonempty_env env
            [''GATEWAY_CREDENTIAL_ACTIVE_KEY_VERSION'', ''GATEWAY_SECRET_ACTIVE_KEY_VERSION'', ''GATEWAY_ENCRYPTION_ACTIVE_KEY_VERSION'']
      in and_then (case keyring_raw of Some raw \<Rightarrow> refuse (parse_keyring cr raw) | None \<Rightarrow> Ok []) (\<lambda>ring.
           let keys = ring @ (case primary of Some v \<Rightarrow> [(primary_version, v)] | None \<Rightarrow> []) in
           if keys = [] then Ok resolver_empty
           else from_keyring cr (case active of Some a \<Rightarrow> a | None \<Rightarrow> fst (last keys)) keys))"

definition has_master_key :: "secret_resolver \<Rightarrow> bool" where
  "has_master_key r \<longleftrightarrow> kr_keys r \<noteq> []"

section \<open>Envelopes\<close>

record envelope =
  en_key_version :: string
  en_nonce :: string
  en_ciphertext :: string

definition decode_b64 :: "crypto \<Rightarrow> string \<Rightarrow> (string, secret_resolver_error) result" where
  "decode_b64 cr v = ok_or InvalidCiphertext (or_else (cr_b64url_decode cr v) (cr_b64_decode cr v))"

definition decode_nonce :: "crypto \<Rightarrow> string \<Rightarrow> (string, secret_resolver_error) result" where
  "decode_nonce cr v =
     and_then (decode_b64 cr v) (\<lambda>bytes. if length bytes = NONCE_LEN then Ok bytes else Err InvalidCiphertext)"

definition decode_payload :: "crypto \<Rightarrow> string \<Rightarrow> (string, secret_resolver_error) result" where
  "decode_payload cr v =
     and_then (decode_b64 cr v) (\<lambda>bytes. if MAX_ENVELOPE_LEN < length bytes then Err InvalidCiphertext else Ok bytes)"

definition parse_json_envelope :: "crypto \<Rightarrow> string \<Rightarrow> (envelope, secret_resolver_error) result" where
  "parse_json_envelope cr v =
     and_then (ok_or InvalidCiphertext (cr_parse cr v)) (\<lambda>j.
     and_then (ok_or InvalidCiphertext (json_as_object j)) (\<lambda>_.
     and_then (ok_or InvalidCiphertext (Option.bind (json_get j ''version'') (\<lambda>x.
        or_else (json_as_str x) (map_option (\<lambda>n. ''v'' @ show_nat (unat n)) (json_as_u64 x))))) (\<lambda>version.
     and_then (ok_or InvalidCiphertext (Option.bind (or_else (json_get j ''key_version'') (json_get j ''key_id'')) json_as_str)) (\<lambda>key_version.
       if version \<noteq> ''v1'' then Err InvalidCiphertext else
     and_then (ok_or InvalidCiphertext (Option.bind (json_get j ''nonce'') json_as_str)) (\<lambda>nonce.
     and_then (ok_or InvalidCiphertext (Option.bind (json_get j ''ciphertext'') json_as_str)) (\<lambda>ciphertext.
     and_then (decode_nonce cr nonce) (\<lambda>nonce.
     and_then (decode_payload cr ciphertext) (\<lambda>ciphertext.
       if length ciphertext < TAG_LEN then Err InvalidCiphertext else
     and_then (validate_key_version key_version) (\<lambda>key_version.
       Ok \<lparr>en_key_version = key_version, en_nonce = nonce, en_ciphertext = ciphertext\<rparr>)))))))))"

definition envelope_fields :: "string \<Rightarrow> string list" where
  "envelope_fields v =
     (let fields = split_on (if CHR '':'' \<in> set v then CHR '':'' else CHR ''.'') v
      in if length fields = 5 \<and> (fields ! 0 = ''gwenc'' \<or> fields ! 0 = ''enc'') then tl fields else fields)"

definition parse_envelope :: "crypto \<Rightarrow> string \<Rightarrow> (envelope, secret_resolver_error) result" where
  "parse_envelope cr v =
     (if MAX_ENVELOPE_LEN < length v \<or> trim v = [] then Err InvalidCiphertext
      else
        let v = trim v in
        if starts_with v ''{'' then parse_json_envelope cr v
        else
          let fields = envelope_fields v in
          if length fields \<noteq> 4 \<or> fields ! 0 \<noteq> ''v1'' then Err InvalidCiphertext
          else
            and_then (validate_key_version (fields ! 1)) (\<lambda>key_version.
            and_then (decode_nonce cr (fields ! 2)) (\<lambda>nonce.
            and_then (decode_payload cr (fields ! 3)) (\<lambda>ciphertext.
              if length ciphertext < TAG_LEN then Err InvalidCiphertext
              else Ok \<lparr>en_key_version = key_version, en_nonce = nonce, en_ciphertext = ciphertext\<rparr>))))"

section \<open>Encryption and resolution\<close>

definition less_safe_key :: "string \<Rightarrow> (string, secret_resolver_error) result" where
  "less_safe_key key = (if length key = 32 then Ok key else Err InvalidMasterKeyConfig)"

text \<open>The random source either fails or fills the nonce.\<close>

definition encrypt :: "crypto \<Rightarrow> secret_resolver \<Rightarrow> string option \<Rightarrow> string \<Rightarrow> string \<Rightarrow> (string, secret_resolver_error) result" where
  "encrypt cr r random plaintext aad =
     (if plaintext = [] then Err InvalidPlaintext
      else
        and_then (ok_or MasterKeyUnavailable (map_of (kr_keys r) (kr_active_version r))) (\<lambda>key.
        and_then (ok_or MasterKeyUnavailable random) (\<lambda>nonce.
        and_then (if length nonce = NONCE_LEN then Ok () else Err InvalidCiphertext) (\<lambda>_.
        and_then (less_safe_key key) (\<lambda>key.
        and_then (ok_or DecryptionFailed (cr_seal cr key nonce aad plaintext)) (\<lambda>payload.
          Ok (''gwenc:v1:'' @ kr_active_version r @ '':'' @ cr_b64url_encode cr nonce @ '':'' @ cr_b64url_encode cr payload)))))))"

definition decrypt :: "crypto \<Rightarrow> secret_resolver \<Rightarrow> string \<Rightarrow> string \<Rightarrow> (string, secret_resolver_error) result" where
  "decrypt cr r ciphertext aad =
     and_then (parse_envelope cr ciphertext) (\<lambda>e.
     and_then (ok_or MasterKeyUnavailable (map_of (kr_keys r) (en_key_version e))) (\<lambda>key.
     and_then (if length (en_nonce e) = NONCE_LEN then Ok () else Err InvalidCiphertext) (\<lambda>_.
     and_then (less_safe_key key) (\<lambda>key.
     and_then (ok_or DecryptionFailed (cr_open cr key (en_nonce e) aad (en_ciphertext e))) lease_new))))"

definition account_aad :: "string \<Rightarrow> string \<Rightarrow> string" where
  "account_aad source_id account_id = ''my-ai-gateway/account/v1'' @ ''/'' @ source_id @ ''/'' @ account_id"

definition virtual_key_aad :: "string \<Rightarrow> string" where
  "virtual_key_aad key_prefix = ''my-ai-gateway/virtual-key/v1'' @ ''/'' @ key_prefix"

definition resolve_refs ::
  "crypto \<Rightarrow> (string \<Rightarrow> string option) \<Rightarrow> secret_resolver \<Rightarrow> string option \<Rightarrow> string option \<Rightarrow> string option \<Rightarrow> string
   \<Rightarrow> (string, secret_resolver_error) result" where
  "resolve_refs cr env r credential_env credential_ciphertext inline_credential aad =
     (let env_name = option_filter (\<lambda>v. trim v \<noteq> []) credential_env;
          ciphertext = option_filter (\<lambda>v. trim v \<noteq> []) credential_ciphertext;
          inline = option_filter (\<lambda>v. v \<noteq> []) inline_credential;
          configured = length (filter (\<lambda>x. x \<noteq> None) [env_name, ciphertext, inline])
      in if configured = 0 then Err CredentialUnavailable
         else if 1 < configured then Err AmbiguousCredential
         else case env_name of
                Some name \<Rightarrow>
                  and_then (ok_or CredentialUnavailable (option_filter (\<lambda>v. v \<noteq> []) (env name))) lease_new
              | None \<Rightarrow>
                  (case inline of
                     Some v \<Rightarrow> lease_new v
                   | None \<Rightarrow> decrypt cr r (case ciphertext of Some c \<Rightarrow> c | None \<Rightarrow> []) aad))"

definition resolve_account ::
  "crypto \<Rightarrow> (string \<Rightarrow> string option) \<Rightarrow> secret_resolver \<Rightarrow> string \<Rightarrow> string \<Rightarrow> string option \<Rightarrow> string option \<Rightarrow> string option
   \<Rightarrow> (string, secret_resolver_error) result" where
  "resolve_account cr env r source_id account_id credential_env credential_ciphertext inline_credential =
     resolve_refs cr env r credential_env credential_ciphertext inline_credential (account_aad source_id account_id)"

definition resolve_virtual_key ::
  "crypto \<Rightarrow> (string \<Rightarrow> string option) \<Rightarrow> secret_resolver \<Rightarrow> string \<Rightarrow> string \<Rightarrow> (string, secret_resolver_error) result" where
  "resolve_virtual_key cr env r key_prefix ciphertext =
     resolve_refs cr env r None (Some ciphertext) None (virtual_key_aad key_prefix)"

definition encrypt_for_account ::
  "crypto \<Rightarrow> secret_resolver \<Rightarrow> string option \<Rightarrow> string \<Rightarrow> string \<Rightarrow> string \<Rightarrow> (string, secret_resolver_error) result" where
  "encrypt_for_account cr r random source_id account_id plaintext =
     encrypt cr r random plaintext (account_aad source_id account_id)"

definition rotate :: "crypto \<Rightarrow> secret_resolver \<Rightarrow> string option \<Rightarrow> string \<Rightarrow> string \<Rightarrow> (string, secret_resolver_error) result" where
  "rotate cr r random ciphertext aad =
     and_then (decrypt cr r ciphertext aad) (\<lambda>plaintext. encrypt cr r random plaintext aad)"

definition rotate_for_account ::
  "crypto \<Rightarrow> secret_resolver \<Rightarrow> string option \<Rightarrow> string \<Rightarrow> string \<Rightarrow> string \<Rightarrow> (string, secret_resolver_error) result" where
  "rotate_for_account cr r random source_id account_id ciphertext =
     rotate cr r random ciphertext (account_aad source_id account_id)"

definition credential_configured :: "account_config \<Rightarrow> bool" where
  "credential_configured acct \<longleftrightarrow>
     option_filter (\<lambda>v. trim v \<noteq> []) (ac_credential_env acct) \<noteq> None \<or>
     option_filter (\<lambda>v. trim v \<noteq> []) (ac_credential_ciphertext acct) \<noteq> None \<or>
     option_filter (\<lambda>v. v \<noteq> []) (ac_credential acct) \<noteq> None"

definition resolve_account_credential_result ::
  "crypto \<Rightarrow> (string \<Rightarrow> string option) \<Rightarrow> secret_resolver \<Rightarrow> account_config \<Rightarrow> (string option, secret_resolver_error) result" where
  "resolve_account_credential_result cr env r acct =
     (case resolve_account cr env r (ac_provider_id acct) (ac_id acct) (ac_credential_env acct)
             (ac_credential_ciphertext acct) (ac_credential acct) of
        Inr lease \<Rightarrow> Ok (Some lease)
      | Inl e \<Rightarrow> if e = CredentialUnavailable \<and> \<not> credential_configured acct then Ok None else Err e)"

section \<open>What is assumed of the libraries\<close>

text \<open>
  Opening what was sealed under the same key, nonce and associated data gives the plaintext back,
  and the tag is 16 bytes long; base64 decodes what it encoded, over its alphabet, and never
  shortens; a SHA-256 digest has 32 bytes.
\<close>

definition b64url_char :: "char \<Rightarrow> bool" where
  "b64url_char c \<longleftrightarrow> is_ascii_alphanumeric c \<or> c = CHR ''-'' \<or> c = CHR ''_''"

definition crypto_laws :: "crypto \<Rightarrow> bool" where
  "crypto_laws cr \<longleftrightarrow>
     (\<forall>k n a p c. cr_seal cr k n a p = Some c \<longrightarrow> cr_open cr k n a c = Some p \<and> length c = length p + TAG_LEN) \<and>
     (\<forall>x. cr_b64url_decode cr (cr_b64url_encode cr x) = Some x \<and> list_all b64url_char (cr_b64url_encode cr x) \<and>
          length x \<le> length (cr_b64url_encode cr x)) \<and>
     (\<forall>x. length (cr_sha256 cr x) = 32)"

lemma alphanumeric_visible: "is_ascii_alphanumeric c \<Longrightarrow> visible c"
  by (auto simp: is_ascii_alphanumeric_def visible_def Let_def)

lemma b64url_visible: "b64url_char c \<Longrightarrow> visible c"
  unfolding b64url_char_def by (elim disjE) (simp_all add: alphanumeric_visible, simp_all add: visible_def)

lemma no_colon: "list_all b64url_char s \<Longrightarrow> CHR '':'' \<notin> set s" "list_all version_byte s \<Longrightarrow> CHR '':'' \<notin> set s"
  by (auto simp: list_all_iff b64url_char_def version_byte_def is_ascii_alphanumeric_def Let_def)

section \<open>Round trip\<close>

lemma envelope_fields_canonical:
  assumes "CHR '':'' \<notin> set v" "CHR '':'' \<notin> set n" "CHR '':'' \<notin> set c"
  shows "envelope_fields (''gwenc:v1:'' @ v @ '':'' @ n @ '':'' @ c) = [''v1'', v, n, c]"
proof -
  have "split_on CHR '':'' (''gwenc'' @ CHR '':'' # ''v1'' @ CHR '':'' # v @ CHR '':'' # n @ CHR '':'' # c) =
      [''gwenc'', ''v1'', v, n, c]"
    using assms by (simp add: split_on_append split_on_none)
  then show ?thesis by (simp add: envelope_fields_def)
qed

lemma decode_encoded:
  assumes "crypto_laws cr"
  shows "decode_b64 cr (cr_b64url_encode cr x) = Ok x"
  using assms by (simp add: crypto_laws_def decode_b64_def or_else_def)

lemma parse_canonical_envelope:
  assumes laws: "crypto_laws cr" and v: "validate_key_version v = Ok v" and n: "length n = NONCE_LEN" and c: "TAG_LEN \<le> length c"
    and len: "length (''gwenc:v1:'' @ v @ '':'' @ cr_b64url_encode cr n @ '':'' @ cr_b64url_encode cr c) \<le> MAX_ENVELOPE_LEN"
  shows "parse_envelope cr (''gwenc:v1:'' @ v @ '':'' @ cr_b64url_encode cr n @ '':'' @ cr_b64url_encode cr c) =
    Ok \<lparr>en_key_version = v, en_nonce = n, en_ciphertext = c\<rparr>"
proof -
  let ?c = "cr_b64url_encode cr c"
  let ?e = "''gwenc:v1:'' @ v @ '':'' @ cr_b64url_encode cr n @ '':'' @ ?c"
  from v have "list_all version_byte v" by (auto simp: validate_key_version_def split: if_splits)
  with laws have fields: "envelope_fields ?e = [''v1'', v, cr_b64url_encode cr n, ?c]"
    by (intro envelope_fields_canonical) (auto simp: no_colon crypto_laws_def)
  have lc: "length c \<le> length ?c" and alphabet: "list_all b64url_char ?c" using laws by (auto simp: crypto_laws_def)
  with c have ne: "?c \<noteq> []" by (auto simp: TAG_LEN_def)
  with alphabet have "visible (last ?c)" by (auto simp: list_all_iff b64url_visible)
  with ne have trim: "trim ?e = ?e" by (intro trim_visible) (auto simp: visible_def)
  have "length c \<le> MAX_ENVELOPE_LEN" using len lc by simp
  with n c have dec: "decode_nonce cr (cr_b64url_encode cr n) = Ok n" "decode_payload cr ?c = Ok c"
    by (simp_all add: decode_nonce_def decode_payload_def decode_encoded [OF laws])
  show ?thesis
    unfolding parse_envelope_def trim Let_def fields using len v dec c by (simp add: starts_with_def)
qed

lemma encrypt_Ok:
  assumes "encrypt cr r random plaintext aad = Ok env"
  obtains key nonce c where "map_of (kr_keys r) (kr_active_version r) = Some key" "length key = 32" "random = Some nonce"
    "length nonce = NONCE_LEN" "cr_seal cr key nonce aad plaintext = Some c" "plaintext \<noteq> []"
    "env = ''gwenc:v1:'' @ kr_active_version r @ '':'' @ cr_b64url_encode cr nonce @ '':'' @ cr_b64url_encode cr c"
  using assms
  by (auto simp: encrypt_def and_then_Ok ok_or_Ok less_safe_key_def simp del: append_Cons split: if_splits)

text \<open>The key ring a running process has.\<close>

definition resolver_ok :: "secret_resolver \<Rightarrow> bool" where
  "resolver_ok r \<longleftrightarrow>
     validate_key_version (kr_active_version r) = Ok (kr_active_version r) \<and> bmap_ok (kr_keys r) \<and>
     (kr_keys r \<noteq> [] \<longrightarrow> map_of (kr_keys r) (kr_active_version r) \<noteq> None) \<and>
     (\<forall>v k. map_of (kr_keys r) v = Some k \<longrightarrow> validate_key_version v = Ok v \<and> length k = 32)"

lemma envelope_open:
  assumes laws: "crypto_laws cr" and r: "resolver_ok r" and "encrypt cr r random plaintext aad = Ok env"
    and len: "length env \<le> MAX_ENVELOPE_LEN"
  shows "\<exists>e. parse_envelope cr env = Ok e \<and> en_key_version e = kr_active_version r \<and>
    (is_utf8 plaintext \<longrightarrow>
      (\<forall>later. map_of (kr_keys later) (kr_active_version r) = map_of (kr_keys r) (kr_active_version r) \<longrightarrow>
         decrypt cr later env aad = Ok plaintext))"
  using assms(3)
proof (rule encrypt_Ok)
  fix key nonce c
  assume e: "map_of (kr_keys r) (kr_active_version r) = Some key" "length key = 32" "length nonce = NONCE_LEN"
    "cr_seal cr key nonce aad plaintext = Some c" "plaintext \<noteq> []"
    "env = ''gwenc:v1:'' @ kr_active_version r @ '':'' @ cr_b64url_encode cr nonce @ '':'' @ cr_b64url_encode cr c"
  from laws e(4) have c: "cr_open cr key nonce aad c = Some plaintext" "TAG_LEN \<le> length c"
    unfolding crypto_laws_def by auto
  from r have "validate_key_version (kr_active_version r) = Ok (kr_active_version r)" by (simp add: resolver_ok_def)
  with parse_canonical_envelope [OF laws this e(3) c(2)] len e(6)
  have "parse_envelope cr env = Ok \<lparr>en_key_version = kr_active_version r, en_nonce = nonce, en_ciphertext = c\<rparr>" by simp
  with c(1) e show ?thesis by (simp add: decrypt_def less_safe_key_def lease_new_def)
qed

text \<open>
  C21: envelopes open again. What a resolver encrypts, every resolver that still has the key of
  that version decrypts, with the same associated data, to the same text, provided the
  envelope is within the 16 MiB the parser accepts. (Encryption itself does not check that.)
\<close>

theorem envelope_roundtrip:
  assumes "crypto_laws cr" "resolver_ok r" "encrypt cr r random plaintext aad = Ok env"
    and "is_utf8 plaintext" "length env \<le> MAX_ENVELOPE_LEN"
    and "map_of (kr_keys later) (kr_active_version r) = map_of (kr_keys r) (kr_active_version r)"
  shows "decrypt cr later env aad = Ok plaintext"
  using envelope_open [OF assms(1-3,5)] assms(4,6) by blast

definition toy_encode :: "string \<Rightarrow> string" where
  "toy_encode s = concat (map (\<lambda>c. let n = of_char c in [char_of (97 + n div 16 :: nat), char_of (97 + n mod 16 :: nat)]) s)"

fun toy_decode :: "string \<Rightarrow> string option" where
  "toy_decode (a # b # s) =
     map_option (\<lambda>t. char_of (16 * (of_char a - 97) + (of_char b - 97) :: nat) # t) (toy_decode s)"
| "toy_decode [] = Some []"
| "toy_decode [_] = None"

definition toy_crypto :: crypto where
  "toy_crypto =
     \<lparr>cr_seal = (\<lambda>k n a p. Some (p @ replicate TAG_LEN CHR ''t'')), cr_open = (\<lambda>k n a c. Some (take (length c - TAG_LEN) c)),
      cr_sha256 = (\<lambda>_. replicate 32 CHR ''k''), cr_b64url_encode = toy_encode, cr_b64url_decode = toy_decode,
      cr_b64_decode = toy_decode, cr_parse = (\<lambda>_. None)\<rparr>"

lemma toy_crypto_laws: "crypto_laws toy_crypto"
proof -
  have nibble: "b64url_char (char_of (97 + n :: nat))" if "n < 16" for n
    using that by (simp add: b64url_char_def is_ascii_alphanumeric_def)
  have high: "(97 + of_char a div 16) mod 256 = (97 + of_char a div 16 :: nat)" for a :: char
  proof -
    have "(of_char a :: nat) div 16 < 16" by (simp add: less_mult_imp_div_less)
    then show ?thesis by simp
  qed
  have "toy_decode (toy_encode x) = Some x \<and> list_all b64url_char (toy_encode x) \<and> length x \<le> length (toy_encode x)" for x
    by (induction x) (auto simp: toy_encode_def Let_def nibble high less_mult_imp_div_less)
  then show ?thesis by (simp add: crypto_laws_def toy_crypto_def)
qed

definition toy_resolver :: secret_resolver where
  "toy_resolver = \<lparr>kr_active_version = ''v1'', kr_keys = [(''v1'', replicate 32 CHR ''k'')]\<rparr>"

lemma toy_resolver_ok: "resolver_ok toy_resolver"
proof -
  have "validate_key_version ''v1'' = Ok ''v1''" by code_simp
  then show ?thesis by (simp add: resolver_ok_def toy_resolver_def bmap_ok_def)
qed

theorem envelope_roundtrip_witness:
  "\<exists>env. encrypt toy_crypto toy_resolver (Some (replicate 12 CHR ''n'')) ''secret'' ''aad'' = Ok env \<and>
     decrypt toy_crypto toy_resolver env ''aad'' = Ok ''secret''"
proof -
  define env where "env = ''gwenc:v1:v1:'' @ toy_encode (replicate 12 CHR ''n'') @ '':'' @ toy_encode (''secret'' @ replicate 16 CHR ''t'')"
  have e: "encrypt toy_crypto toy_resolver (Some (replicate 12 CHR ''n'')) ''secret'' ''aad'' = Ok env"
    by (simp add: encrypt_def toy_crypto_def toy_resolver_def NONCE_LEN_def TAG_LEN_def less_safe_key_def env_def)
  have u: "is_utf8 ''secret''" by (rule is_utf8_ascii) (simp add: is_ascii_def)
  have l: "length env \<le> MAX_ENVELOPE_LEN"
    by (simp add: env_def toy_encode_def MAX_ENVELOPE_LEN_def Let_def length_concat sum_list_replicate map_replicate)
  from e envelope_roundtrip [OF toy_crypto_laws toy_resolver_ok e u l refl] show ?thesis by blast
qed

section \<open>Loading the key ring\<close>

lemma validate_key_version_id: "validate_key_version v = Ok w \<Longrightarrow> w = v"
  by (simp add: validate_key_version_def split: if_splits)

lemma refuse_Ok: "refuse r = Ok x \<longleftrightarrow> r = Ok x"
  by (cases r) (simp_all add: refuse_def)

lemma derive_key_length: "crypto_laws cr \<Longrightarrow> derive_key cr v = Ok k \<Longrightarrow> length k = 32"
  by (auto simp: derive_key_def and_then_Ok Let_def crypto_laws_def split: if_splits)

definition keys_ok :: "(string, string) bmap \<Rightarrow> bool" where
  "keys_ok m \<longleftrightarrow> bmap_ok m \<and> (\<forall>v k. map_of m v = Some k \<longrightarrow> validate_key_version v = Ok v \<and> length k = 32)"

lemma insert_keys_ok:
  "crypto_laws cr \<Longrightarrow> insert_keys cr keys acc = Ok m \<Longrightarrow> keys_ok acc \<Longrightarrow> keys_ok m"
proof (induction cr keys acc rule: insert_keys.induct)
  case (2 cr version v rest acc)
  from "2.prems"(2) obtain w key where w: "validate_key_version version = Ok w" "derive_key cr v = Ok key" "v \<noteq> []"
    "insert_keys cr rest (binsert w key acc) = Ok m"
    by (auto simp: and_then_Ok refuse_Ok split: if_splits)
  moreover have "keys_ok (binsert w key acc)"
    using "2.prems"(3) w derive_key_length [OF "2.prems"(1)] validate_key_version_id [OF w(1)] by (auto simp: keys_ok_def)
  ultimately show ?case using "2.IH" [of w key] "2.prems"(1) by (simp add: refuse_Ok)
qed simp

lemma from_keyring_ok: "crypto_laws cr \<Longrightarrow> from_keyring cr active keys = Ok r \<Longrightarrow> resolver_ok r"
proof -
  assume laws: "crypto_laws cr" and "from_keyring cr active keys = Ok r"
  then obtain v m where "validate_key_version active = Ok v" "insert_keys cr keys [] = Ok m"
    "m \<noteq> [] \<longrightarrow> map_of m v \<noteq> None" "r = \<lparr>kr_active_version = v, kr_keys = m\<rparr>"
    by (auto simp: from_keyring_def and_then_Ok refuse_Ok split: if_splits)
  with insert_keys_ok [OF laws, of keys "[]" m] validate_key_version_id [of active v] show ?thesis
    by (simp add: resolver_ok_def keys_ok_def)
qed

text \<open>
  The loaded key ring is well formed. Whatever the environment, when the resolver loads its
  active version is a valid version name, the key of that version is present unless there are no keys
  at all, and every key has the 32 bytes AES-256 needs under a valid version name.
\<close>

theorem loaded_resolver_ok:
  assumes "crypto_laws cr" "resolver_from_env cr env = Ok r"
  shows "resolver_ok r"
proof -
  have "resolver_ok resolver_empty"
  proof -
    have "validate_key_version ''v1'' = Ok ''v1''" by code_simp
    then show ?thesis by (simp add: resolver_ok_def resolver_empty_def)
  qed
  with assms from_keyring_ok [OF assms(1)] show ?thesis
    by (auto simp: resolver_from_env_def Let_def and_then_Ok split: if_splits)
qed

theorem loaded_resolver_ok_witness:
  "\<exists>r. resolver_from_env toy_crypto ((\<lambda>_. None)(''GATEWAY_CREDENTIAL_MASTER_KEY'' \<mapsto> ''key'')) = Ok r \<and> resolver_ok r"
proof -
  let ?env = "(\<lambda>_. None)(''GATEWAY_CREDENTIAL_MASTER_KEY'' \<mapsto> ''key'')"
  have "trim ''key'' \<noteq> []" "validate_key_version ''v1'' = Ok ''v1''" "is_utf8 ''key''"
    by (code_simp, code_simp) (rule is_utf8_ascii, simp add: is_ascii_def)
  then have "is_ok (resolver_from_env toy_crypto ?env)"
    by (simp add: resolver_from_env_def first_nonempty_env_def from_keyring_def refuse_def derive_key_def
        decode_key_material_def strip_prefix_def starts_with_def Let_def)
  with loaded_resolver_ok [OF toy_crypto_laws] show ?thesis by (auto simp: is_ok_iff)
qed

section \<open>Resolution\<close>

lemma decrypt_lease: "decrypt cr r e aad = Ok c \<Longrightarrow> c \<noteq> [] \<and> is_utf8 c"
  by (auto simp: decrypt_def and_then_Ok lease_new_def split: if_splits)

text \<open>
  Credentials fail closed. An account without any reference resolves to no credential, and only
  such an account does: a configured reference that cannot be resolved is an error, never a request
  without credential. A resolved credential is a non-empty UTF-8 string and comes from the one
  reference that is configured.
\<close>

theorem credential_fails_closed:
  "(resolve_account_credential_result cr env r acct = Ok None \<longleftrightarrow> \<not> credential_configured acct) \<and>
   (\<forall>c. resolve_account_credential_result cr env r acct = Ok (Some c) \<longrightarrow>
      c \<noteq> [] \<and> is_utf8 c \<and>
      (let refs = [option_filter (\<lambda>v. trim v \<noteq> []) (ac_credential_env acct),
                   option_filter (\<lambda>v. trim v \<noteq> []) (ac_credential_ciphertext acct),
                   option_filter (\<lambda>v. v \<noteq> []) (ac_credential acct)]
       in length (filter (\<lambda>x. x \<noteq> None) refs) = 1 \<and>
          (\<forall>name. refs ! 0 = Some name \<longrightarrow> env name = Some c) \<and>
          (\<forall>e. refs ! 1 = Some e \<longrightarrow> decrypt cr r e (account_aad (ac_provider_id acct) (ac_id acct)) = Ok c) \<and>
          (\<forall>v. refs ! 2 = Some v \<longrightarrow> c = v)))"
proof -
  let ?e = "option_filter (\<lambda>v. trim v \<noteq> []) (ac_credential_env acct)"
  let ?c = "option_filter (\<lambda>v. trim v \<noteq> []) (ac_credential_ciphertext acct)"
  let ?i = "option_filter (\<lambda>v. v \<noteq> []) (ac_credential acct)"
  note defs = resolve_account_credential_result_def resolve_account_def resolve_refs_def credential_configured_def Let_def
  show ?thesis
    by (cases ?e; cases ?c; cases ?i)
      (auto simp: defs lease_new_def and_then_Ok ok_or_Ok option_filter_Some dest: decrypt_lease split: sum.splits if_splits)
qed

definition inline_account :: account_config where
  "inline_account =
     \<lparr>ac_id = ''a'', ac_provider_id = ''p'', ac_display_name = ''a'', ac_credential_env = None, ac_credential_ciphertext = None,
      ac_credential = Some ''key'', ac_enabled = True, ac_weight = 1, ac_protocol_capabilities = [], ac_capabilities = None,
      ac_model_overrides = [], ac_model_map = []\<rparr>"

theorem credential_fails_closed_witness:
  "resolve_account_credential_result toy_crypto (\<lambda>_. None) toy_resolver inline_account \<noteq> Ok None"
proof -
  have "credential_configured inline_account" by (simp add: credential_configured_def inline_account_def option_filter_def)
  then show ?thesis using credential_fails_closed [of toy_crypto "\<lambda>_. None" toy_resolver inline_account] by blast
qed

text \<open>Rotation keeps the text and moves it to the active key.\<close>

lemma rotate_keeps_plaintext:
  assumes "crypto_laws cr" "resolver_ok r" "decrypt cr r old aad = Ok plaintext" "rotate cr r random old aad = Ok new"
    and "length new \<le> MAX_ENVELOPE_LEN"
  shows "decrypt cr r new aad = Ok plaintext \<and> (\<exists>e. parse_envelope cr new = Ok e \<and> en_key_version e = kr_active_version r)"
proof -
  from assms(3,4) have enc: "encrypt cr r random plaintext aad = Ok new" by (simp add: rotate_def)
  from envelope_open [OF assms(1,2) enc assms(5)] decrypt_lease [OF assms(3)] show ?thesis by auto
qed

text \<open>
  The associated data binds an envelope to its account as long as source ids have no slash. With
  one, two accounts can share it, and the envelope of one opens under the other.
\<close>

lemma split_at_slash:
  assumes "CHR ''/'' \<notin> set a" "CHR ''/'' \<notin> set b" "a @ CHR ''/'' # x = b @ CHR ''/'' # y"
  shows "a = b \<and> x = y"
  using assms(3) split_on_append [OF assms(1), of x] split_on_append [OF assms(2), of y] by auto

lemma account_aad_binds:
  assumes "CHR ''/'' \<notin> set s" "CHR ''/'' \<notin> set s'" "account_aad s a = account_aad s' a'"
  shows "s = s' \<and> a = a'"
  using split_at_slash [OF assms(1,2), of a a'] assms(3) by (simp add: account_aad_def)

lemma account_aad_shared: "account_aad ''a/b'' ''c'' = account_aad ''a'' ''b/c''"
  by (simp add: account_aad_def)

text \<open>A key ring whose hexadecimal key has a two-byte character at an odd place panics while loading.\<close>

lemma hex_key_panics: "derive_key toy_crypto (''hex:a'' @ [char_of (195 :: nat), char_of (169 :: nat)] @ ''1'') = Err SlicePanic"
  by (simp add: derive_key_def decode_key_material_def strip_prefix_def starts_with_def is_utf8.simps utf8_cont_def utf8_second_def)

end
