(* ===== verification/Proxy_Stream.thy ===== *)
theory Proxy_Stream
  imports Proxy_Usage Domain_Protocol
begin

text \<open>
  \<open>src/proxy/stream.rs\<close>: the streaming policy, the SSE tracker, the gateway's own frames and the
  state machine that forwards an upstream body. \<open>parse\<close> and \<open>print\<close> stand for
  \<open>serde_json::from_str\<close> and \<open>to_string\<close>.
\<close>

section \<open>Policy\<close>

record stream_config =
  sc_heartbeat_interval :: duration
  sc_connection_timeout :: duration
  sc_first_event_timeout :: duration
  sc_idle_timeout :: duration
  sc_total_timeout :: duration

definition stream_config_default :: stream_config where
  "stream_config_default =
     \<lparr>sc_heartbeat_interval = duration_from_secs 15, sc_connection_timeout = duration_from_secs 120,
      sc_first_event_timeout = duration_from_secs 30, sc_idle_timeout = duration_from_secs 60,
      sc_total_timeout = duration_from_secs 300\<rparr>"

definition parse_duration :: "string \<Rightarrow> bool \<Rightarrow> duration option" where
  "parse_duration raw bare_ms =
     (let value = trim raw in
      if value = [] then None
      else if to_ascii_lowercase value \<in> {''off'', ''none'', ''disable'', ''disabled''} then Some 0
      else
        let (number, multiplier) =
          (case strip_suffix value ''ms'' of Some n \<Rightarrow> (n, 1) | None \<Rightarrow>
           case strip_suffix value ''s'' of Some n \<Rightarrow> (n, 1000) | None \<Rightarrow>
           case strip_suffix value ''m'' of Some n \<Rightarrow> (n, 60000) | None \<Rightarrow>
           if bare_ms then (value, 1) else (value, 1000))
        in case parse_unsigned 64 (trim number) of
             None \<Rightarrow> None
           | Some n \<Rightarrow> if n * multiplier < 2 ^ 64 then Some (duration_from_millis (n * multiplier)) else None)"

fun env_duration_suffixes ::
  "(string \<Rightarrow> string option) \<Rightarrow> string \<Rightarrow> string list \<Rightarrow> duration \<Rightarrow> duration" where
  "env_duration_suffixes env pre [] dflt = dflt"
| "env_duration_suffixes env pre (suf # rest) dflt =
     (case env (pre @ ''_'' @ suf) of
        None \<Rightarrow> env_duration_suffixes env pre rest dflt
      | Some raw \<Rightarrow>
          (case parse_duration raw (ends_with suf ''_MS'' \<or> suf = ''HEARTBEAT_MS'') of
             Some value \<Rightarrow> value
           | None \<Rightarrow> env_duration_suffixes env pre rest dflt))"

definition stream_config_from_env_prefix :: "(string \<Rightarrow> string option) \<Rightarrow> string \<Rightarrow> stream_config" where
  "stream_config_from_env_prefix env pre =
     (let d = stream_config_default in
      \<lparr>sc_heartbeat_interval = env_duration_suffixes env pre
         [''HEARTBEAT_INTERVAL_MS'', ''HEARTBEAT_MS'', ''HEARTBEAT_INTERVAL''] (sc_heartbeat_interval d),
       sc_connection_timeout = env_duration_suffixes env pre
         [''CONNECTION_TIMEOUT_MS'', ''CONNECT_TIMEOUT_MS'', ''CONNECTION_TIMEOUT'', ''CONNECT_TIMEOUT'']
         (sc_connection_timeout d),
       sc_first_event_timeout = env_duration_suffixes env pre
         [''FIRST_EVENT_TIMEOUT_MS'', ''FIRST_EVENT_TIMEOUT''] (sc_first_event_timeout d),
       sc_idle_timeout = env_duration_suffixes env pre [''IDLE_TIMEOUT_MS'', ''IDLE_TIMEOUT''] (sc_idle_timeout d),
       sc_total_timeout = env_duration_suffixes env pre [''TOTAL_TIMEOUT_MS'', ''TOTAL_TIMEOUT''] (sc_total_timeout d)\<rparr>)"

section \<open>Termination\<close>

datatype stream_termination =
    Completed | EmptyStream | UpstreamError | TransportError | IncompleteStream | BufferLimitExceeded
  | ClientCancelled | ConnectionTimeout | FirstEventTimeout | IdleTimeout | TotalTimeout

definition is_failure :: "stream_termination \<Rightarrow> bool" where
  "is_failure t \<longleftrightarrow> t \<noteq> Completed"

fun termination_code :: "stream_termination \<Rightarrow> string" where
  "termination_code Completed = ''completed''"
| "termination_code EmptyStream = ''gateway_empty_stream''"
| "termination_code UpstreamError = ''gateway_upstream_error''"
| "termination_code TransportError = ''gateway_transport_error''"
| "termination_code IncompleteStream = ''gateway_incomplete_stream''"
| "termination_code BufferLimitExceeded = ''gateway_stream_buffer_limit''"
| "termination_code ClientCancelled = ''gateway_client_cancelled''"
| "termination_code ConnectionTimeout = ''gateway_connection_timeout''"
| "termination_code FirstEventTimeout = ''gateway_first_event_timeout''"
| "termination_code IdleTimeout = ''gateway_idle_timeout''"
| "termination_code TotalTimeout = ''gateway_total_timeout''"

fun termination_message :: "stream_termination \<Rightarrow> string" where
  "termination_message Completed = ''stream completed''"
| "termination_message EmptyStream = ''upstream stream ended without an event''"
| "termination_message UpstreamError = ''upstream stream failed''"
| "termination_message TransportError = ''upstream body transport failed''"
| "termination_message IncompleteStream = ''upstream stream ended without a terminal event''"
| "termination_message BufferLimitExceeded = ''upstream stream exceeded observation limits''"
| "termination_message ClientCancelled = ''client disconnected while streaming''"
| "termination_message ConnectionTimeout = ''timed out waiting for the upstream connection''"
| "termination_message FirstEventTimeout = ''timed out waiting for the first upstream event''"
| "termination_message IdleTimeout = ''upstream stream was idle for too long''"
| "termination_message TotalTimeout = ''upstream stream exceeded its total time limit''"

fun termination_status :: "stream_termination \<Rightarrow> int" where
  "termination_status Completed = 200"
| "termination_status ClientCancelled = 499"
| "termination_status ConnectionTimeout = 504"
| "termination_status FirstEventTimeout = 504"
| "termination_status IdleTimeout = 504"
| "termination_status TotalTimeout = 504"
| "termination_status _ = 599"

definition merge_terminal ::
  "stream_termination option \<Rightarrow> stream_termination option \<Rightarrow> stream_termination option" where
  "merge_terminal current candidate =
     (case candidate of None \<Rightarrow> current
      | Some c \<Rightarrow>
          (case current of
             None \<Rightarrow> Some c
           | Some existing \<Rightarrow>
               if existing = Completed \<and> is_failure c then Some c
               else if is_failure existing \<and> c = Completed then Some existing
               else if is_failure existing then Some existing
               else Some c))"

definition code_at :: "json option \<Rightarrow> string option" where
  "code_at v = Option.bind v json_as_str"

definition termination_from_code :: "json_parser \<Rightarrow> string \<Rightarrow> stream_termination option" where
  "termination_from_code parse data =
     (let code =
        (if starts_with data ''gateway_'' then data
         else unwrap_or [] (Option.bind (parse data) (\<lambda>v.
           or_else (code_at (json_get v ''code''))
             (or_else (code_at (json_path2 v ''error'' ''code''))
                      (code_at (json_path3 v ''response'' ''error'' ''code''))))))
      in Some
       (if code = ''gateway_empty_stream'' then EmptyStream
        else if code = ''gateway_transport_error'' then TransportError
        else if code = ''gateway_incomplete_stream'' then IncompleteStream
        else if code = ''gateway_stream_buffer_limit'' then BufferLimitExceeded
        else if code = ''gateway_client_cancelled'' then ClientCancelled
        else if code = ''gateway_connection_timeout'' then ConnectionTimeout
        else if code = ''gateway_first_event_timeout'' then FirstEventTimeout
        else if code = ''gateway_idle_timeout'' then IdleTimeout
        else if code = ''gateway_total_timeout'' then TotalTimeout
        else UpstreamError))"

definition gateway_code :: "json \<Rightarrow> string option" where
  "gateway_code v =
     (let gw = option_filter (\<lambda>code. starts_with code ''gateway_'') in
      or_else (gw (code_at (json_get v ''code'')))
        (or_else (gw (code_at (json_path2 v ''error'' ''code'')))
                 (gw (code_at (json_path3 v ''response'' ''error'' ''code'')))))"

definition classify_frame ::
  "json_parser \<Rightarrow> string \<Rightarrow> string \<Rightarrow> stream_termination option \<times> bool \<times> stream_termination option" where
  "classify_frame parse event_name data =
     (let event_name = to_ascii_lowercase (trim event_name) in
      if event_name = ''gateway.error'' then (None, True, termination_from_code parse data)
      else if trim data = ''[DONE]'' then (Some Completed, False, None)
      else if event_name \<in> {''message_stop'', ''response.completed'', ''response.incomplete'', ''response.done''}
      then (Some Completed, False, None)
      else
        let parsed = parse data in
        case Option.bind parsed gateway_code of
          Some code \<Rightarrow> (None, True, termination_from_code parse code)
        | None \<Rightarrow>
            let typ = to_ascii_lowercase (unwrap_or [] (code_at (Option.bind parsed (\<lambda>v. json_get v ''type'')))) in
            if typ = ''gateway.error'' \<or> starts_with typ ''gateway_''
            then (None, True, termination_from_code parse data)
            else if typ \<in> {''response.completed'', ''response.incomplete'', ''response.done''}
            then (Some Completed, False, None)
            else if event_name = ''error'' \<or> typ = ''error'' \<or> typ = ''response.failed'' \<or>
                    Option.bind parsed (\<lambda>v. json_get v ''error'') \<noteq> None
            then (None, True, None)
            else (None, False, None))"

section \<open>The SSE tracker\<close>

definition MAX_SSE_FRAME_BYTES :: nat where
  "MAX_SSE_FRAME_BYTES = 1024 * 1024"

definition MAX_TRACKED_CHAT_CHOICES :: nat where
  "MAX_TRACKED_CHAT_CHOICES = 1024"

record sse_activity =
  act_provider_event :: bool
  act_terminal :: "stream_termination option"
  act_error :: bool

definition activity_default :: sse_activity where
  "activity_default = \<lparr>act_provider_event = False, act_terminal = None, act_error = False\<rparr>"

text \<open>The \<open>BTreeSet\<close> of unfinished choices is a list without repetitions (its order is never read).\<close>

record sse_tracker =
  tr_line :: string
  tr_frame_bytes :: nat
  tr_usage :: sse_usage_accumulator
  tr_response_identity :: response_identity
  tr_event_name :: string
  tr_data_lines :: "string list"
  tr_frame_non_comment :: bool
  tr_saw_provider_event :: bool
  tr_saw_sse_frame :: bool
  tr_unfinished_chat_choices :: "u64 list"
  tr_saw_chat_finish :: bool
  tr_terminal :: "stream_termination option"

definition tracker_default :: sse_tracker where
  "tracker_default =
     \<lparr>tr_line = [], tr_frame_bytes = 0, tr_usage = sse_usage_default,
      tr_response_identity = response_identity_default, tr_event_name = [], tr_data_lines = [],
      tr_frame_non_comment = False, tr_saw_provider_event = False, tr_saw_sse_frame = False,
      tr_unfinished_chat_choices = [], tr_saw_chat_finish = False, tr_terminal = None\<rparr>"

definition limit_exceeded :: "sse_tracker \<times> sse_activity \<Rightarrow> sse_tracker \<times> sse_activity" where
  "limit_exceeded = (\<lambda>(t, a).
     (t\<lparr>tr_line := [], tr_data_lines := [], tr_event_name := [], tr_unfinished_chat_choices := [],
        tr_terminal := Some BufferLimitExceeded\<rparr>,
      a\<lparr>act_terminal := Some BufferLimitExceeded, act_error := True\<rparr>))"

text \<open>The loop over \<open>choices\<close>; the flag says that the limit was hit.\<close>

fun observe_choices :: "json list \<Rightarrow> sse_tracker \<Rightarrow> sse_tracker \<times> bool" where
  "observe_choices [] t = (t, False)"
| "observe_choices (choice # rest) t =
     (let index = unwrap_or 0 (Option.bind (json_get choice ''index'') json_as_u64);
          open_choices = tr_unfinished_chat_choices t in
      if (case code_at (json_get choice ''finish_reason'') of Some v \<Rightarrow> v \<noteq> [] | None \<Rightarrow> False) then
        observe_choices rest (t\<lparr>tr_saw_chat_finish := True,
          tr_unfinished_chat_choices := removeAll index open_choices\<rparr>)
      else if MAX_TRACKED_CHAT_CHOICES \<le> length open_choices \<and> index \<notin> set open_choices then (t, True)
      else observe_choices rest (t\<lparr>tr_unfinished_chat_choices := List.insert index open_choices\<rparr>))"

fun join_lines :: "string list \<Rightarrow> string" where
  "join_lines [] = []"
| "join_lines [l] = l"
| "join_lines (l # ls) = l @ CHR 0x0A # join_lines ls"

definition dispatch_frame ::
  "json_parser \<Rightarrow> bool \<Rightarrow> string \<Rightarrow> string \<Rightarrow> sse_tracker \<times> sse_activity \<Rightarrow> sse_tracker \<times> sse_activity" where
  "dispatch_frame parse frame_non_comment event_name data = (\<lambda>(t, a).
     let (terminal, error, gateway) = classify_frame parse event_name data in
     if gateway \<noteq> None then
       (t\<lparr>tr_terminal := merge_terminal (tr_terminal t) gateway\<rparr>,
        a\<lparr>act_error := act_error a \<or> is_failure (the gateway),
          act_terminal := merge_terminal (act_terminal a) gateway\<rparr>)
     else if frame_non_comment \<or> data \<noteq> [] \<or> event_name \<noteq> [] then
       (if error then
          (t\<lparr>tr_saw_provider_event := True, tr_terminal := merge_terminal (tr_terminal t) (Some UpstreamError)\<rparr>,
           a\<lparr>act_provider_event := True, act_error := True,
             act_terminal := merge_terminal (act_terminal a) (Some UpstreamError)\<rparr>)
        else
          (t\<lparr>tr_saw_provider_event := True, tr_terminal := merge_terminal (tr_terminal t) terminal\<rparr>,
           a\<lparr>act_provider_event := True, act_terminal := merge_terminal (act_terminal a) terminal\<rparr>))
     else (t, a))"

text \<open>What \<open>dispatch\<close> reads off the frame's payload before classifying it.\<close>

definition observe_payload :: "json_parser \<Rightarrow> string \<Rightarrow> sse_tracker \<Rightarrow> sse_tracker \<times> bool" where
  "observe_payload parse data t =
     (let parsed = parse data;
          t = t\<lparr>tr_usage := usage_observe data parsed (tr_usage t)\<rparr>;
          t = (case parsed of
                 Some v \<Rightarrow> t\<lparr>tr_response_identity := identity_observe v (tr_response_identity t)\<rparr>
               | None \<Rightarrow> t)
      in case Option.bind (Option.bind parsed (\<lambda>v. json_get v ''choices'')) json_as_array of
           Some choices \<Rightarrow> observe_choices choices t
         | None \<Rightarrow> (t, False))"

definition dispatch :: "json_parser \<Rightarrow> sse_tracker \<times> sse_activity \<Rightarrow> sse_tracker \<times> sse_activity" where
  "dispatch parse = (\<lambda>(t, a).
     if \<not> tr_frame_non_comment t \<and> tr_data_lines t = [] \<and> tr_event_name t = [] then (t, a)
     else
       let event_name = tr_event_name t;
           data = join_lines (tr_data_lines t);
           frame_non_comment = tr_frame_non_comment t;
           (t, limit) = observe_payload parse data
             (t\<lparr>tr_event_name := [], tr_data_lines := [], tr_frame_non_comment := False\<rparr>)
       in if limit then limit_exceeded (t, a)
          else dispatch_frame parse frame_non_comment event_name data (t, a))"

definition process_line :: "json_parser \<Rightarrow> sse_tracker \<times> sse_activity \<Rightarrow> sse_tracker \<times> sse_activity" where
  "process_line parse = (\<lambda>(t, a).
     let line = tr_line t; t = t\<lparr>tr_line := []\<rparr> in
     if line = [] then dispatch parse (t\<lparr>tr_frame_bytes := 0\<rparr>, a)
     else if hd line = CHR '':'' then (t, a)
     else
       let text = trim (from_utf8_lossy line) in
       case strip_prefix text ''event:'' of
         Some value \<Rightarrow> (t\<lparr>tr_saw_sse_frame := True, tr_event_name := trim value\<rparr>, a)
       | None \<Rightarrow>
           (case strip_prefix text ''data:'' of
              Some value \<Rightarrow> (t\<lparr>tr_saw_sse_frame := True, tr_data_lines := tr_data_lines t @ [trim value]\<rparr>, a)
            | None \<Rightarrow>
                if starts_with text ''id:'' \<or> starts_with text ''retry:''
                then (t\<lparr>tr_saw_sse_frame := True\<rparr>, a)
                else (t\<lparr>tr_frame_non_comment := True\<rparr>, a)))"

definition push_byte :: "char \<Rightarrow> sse_tracker \<Rightarrow> sse_tracker" where
  "push_byte b t =
     (let t = t\<lparr>tr_line := tr_line t @ [b]\<rparr> in
      if length (tr_line t) = 1 \<and> b \<noteq> CHR '':'' \<and> b \<noteq> CHR '' ''
      then t\<lparr>tr_frame_non_comment := True\<rparr> else t)"

fun feed_bytes ::
  "json_parser \<Rightarrow> string \<Rightarrow> sse_tracker \<times> sse_activity \<Rightarrow> sse_tracker \<times> sse_activity" where
  "feed_bytes parse [] ta = ta"
| "feed_bytes parse (b # bs) (t, a) =
     (if MAX_SSE_FRAME_BYTES \<le> tr_frame_bytes t then limit_exceeded (t, a)
      else
        let t = t\<lparr>tr_frame_bytes := tr_frame_bytes t + 1\<rparr> in
        if b = CHR 0x0A then
          (let ta = process_line parse (t, a) in
           if tr_terminal (fst ta) = Some BufferLimitExceeded then ta else feed_bytes parse bs ta)
        else if b \<noteq> CHR 0x0D then feed_bytes parse bs (push_byte b t, a)
        else feed_bytes parse bs (t, a))"

definition looks_like_sse_control :: "string \<Rightarrow> bool" where
  "looks_like_sse_control bytes =
     (let text = trim_start (from_utf8_lossy bytes) in
      list_ex (\<lambda>p. starts_with text p \<or> starts_with p text) ['':'', ''data:'', ''event:'', ''id:'', ''retry:''])"

definition feed :: "json_parser \<Rightarrow> string \<Rightarrow> sse_tracker \<Rightarrow> sse_tracker \<times> sse_activity" where
  "feed parse bytes t =
     (if tr_terminal t = Some BufferLimitExceeded
      then (t, activity_default\<lparr>act_error := True, act_terminal := tr_terminal t\<rparr>)
      else
        let raw = (tr_line t = [] \<and> tr_data_lines t = [] \<and> tr_event_name t = [] \<and> bytes \<noteq> [] \<and>
                   \<not> looks_like_sse_control bytes \<and> list_ex (\<lambda>b. \<not> is_ascii_whitespace b) bytes);
            t = (if raw then t\<lparr>tr_saw_provider_event := True\<rparr> else t);
            a = activity_default\<lparr>act_provider_event := raw\<rparr>
        in feed_bytes parse bytes (t, a))"

definition finish_eof :: "json_parser \<Rightarrow> sse_tracker \<Rightarrow> sse_tracker \<times> sse_activity" where
  "finish_eof parse t =
     (let ta = (if tr_line t \<noteq> [] then process_line parse (t, activity_default) else (t, activity_default))
      in dispatch parse ta)"

definition mark_completed_after_eof :: "sse_tracker \<Rightarrow> sse_tracker" where
  "mark_completed_after_eof t = t\<lparr>tr_terminal := merge_terminal (tr_terminal t) (Some Completed)\<rparr>"

definition safe_for_heartbeat :: "sse_tracker \<Rightarrow> bool" where
  "safe_for_heartbeat t \<longleftrightarrow>
     tr_line t = [] \<and> tr_data_lines t = [] \<and> tr_event_name t = [] \<and> \<not> tr_frame_non_comment t"

end
