(* ===== verification/Stream_Tracker.thy ===== *)
theory Stream_Tracker
  imports Proxy_Stream
begin

text \<open>
  Properties of the SSE tracker: its state does not depend on how the transport cuts the byte
  stream, it is bounded, and failures stick.
\<close>

section \<open>Independence from chunk boundaries\<close>
















section \<open>Bounded memory\<close>

lemma length_from_utf8_lossy: "length (from_utf8_lossy s) \<le> 3 * length s"
proof (induction s rule: from_utf8_lossy.induct)
  case (1 s)
  show ?case
  proof (cases "s = []")
    case False
    let ?n = "fst (utf8_step s)"
    have n: "0 < ?n" by (rule utf8_step_pos)
    have "length (if snd (utf8_step s) then take ?n s else replacement_char) \<le> 3 * min ?n (length s)"
      using n False by (cases s) (auto simp: replacement_char_def min_def)
    moreover have "length (from_utf8_lossy (drop ?n s)) \<le> 3 * length (drop ?n s)"
      using 1 False by simp
    moreover have "length (from_utf8_lossy s) =
        length (if snd (utf8_step s) then take ?n s else replacement_char) + length (from_utf8_lossy (drop ?n s))"
      using False by (subst from_utf8_lossy.simps) simp
    moreover have "min ?n (length s) + length (drop ?n s) = length s" by simp
    ultimately show ?thesis by linarith
  qed simp
qed

lemma length_trim_start: "length (trim_start s) \<le> length s"
proof (induction s rule: trim_start.induct)
  case (1 s)
  then show ?case
    by (cases "0 < ws_len s") (auto simp: trim_start.simps [of s] intro: order_trans)
qed

lemma length_trim: "length (trim s) \<le> length s"
  using prefix_length_le [OF prefix_trim_end [of "trim_start s"]] length_trim_start [of s]
  by (simp add: trim_def)

lemma length_strip_prefix: "strip_prefix s p = Some r \<Longrightarrow> length r \<le> length s"
  by (auto simp: strip_prefix_def split: if_splits)

definition buffered :: "sse_tracker \<Rightarrow> nat" where
  "buffered t = sum_list (map length (tr_data_lines t)) + length (tr_event_name t)"

definition choices_ok :: "u64 list \<Rightarrow> bool" where
  "choices_ok cs \<longleftrightarrow> distinct cs \<and> length cs \<le> MAX_TRACKED_CHAT_CHOICES"

definition tracker_ok :: "sse_tracker \<Rightarrow> bool" where
  "tracker_ok t \<longleftrightarrow> tr_frame_bytes t \<le> MAX_SSE_FRAME_BYTES \<and> length (tr_line t) \<le> tr_frame_bytes t \<and>
     buffered t \<le> 3 * (tr_frame_bytes t - length (tr_line t)) \<and> choices_ok (tr_unfinished_chat_choices t)"

lemma choices_ok_remove: "choices_ok cs \<Longrightarrow> choices_ok (removeAll i cs)"
  unfolding choices_ok_def removeAll_filter_not_eq by (auto intro: order_trans [OF length_filter_le])

lemma observe_choices_keeps:
  "choices_ok (tr_unfinished_chat_choices t) \<Longrightarrow>
   choices_ok (tr_unfinished_chat_choices (fst (observe_choices cs t))) \<and>
   tr_line (fst (observe_choices cs t)) = tr_line t \<and> tr_frame_bytes (fst (observe_choices cs t)) = tr_frame_bytes t \<and>
   tr_data_lines (fst (observe_choices cs t)) = tr_data_lines t \<and>
   tr_event_name (fst (observe_choices cs t)) = tr_event_name t \<and>
   tr_terminal (fst (observe_choices cs t)) = tr_terminal t"
proof (induction cs t rule: observe_choices.induct)
  case (2 c cs t)
  have "choices_ok (List.insert i (tr_unfinished_chat_choices t))"
    if "\<not> (MAX_TRACKED_CHAT_CHOICES \<le> length (tr_unfinished_chat_choices t) \<and> i \<notin> set (tr_unfinished_chat_choices t))" for i
    using 2(3) that by (auto simp: choices_ok_def List.insert_def)
  with 2 choices_ok_remove show ?case by (simp add: Let_def)
qed simp

lemma observe_payload_keeps:
  assumes "choices_ok (tr_unfinished_chat_choices t)"
  shows "choices_ok (tr_unfinished_chat_choices (fst (observe_payload parse d t))) \<and>
    tr_line (fst (observe_payload parse d t)) = tr_line t \<and>
    tr_frame_bytes (fst (observe_payload parse d t)) = tr_frame_bytes t \<and>
    tr_data_lines (fst (observe_payload parse d t)) = tr_data_lines t \<and>
    tr_event_name (fst (observe_payload parse d t)) = tr_event_name t \<and>
    tr_terminal (fst (observe_payload parse d t)) = tr_terminal t"
  using assms
  by (auto simp: observe_payload_def Let_def observe_choices_keeps split: option.splits)

lemma dispatch_frame_keeps:
  "tr_line (fst (dispatch_frame parse n e d (t, a))) = tr_line t"
  "tr_frame_bytes (fst (dispatch_frame parse n e d (t, a))) = tr_frame_bytes t"
  "tr_data_lines (fst (dispatch_frame parse n e d (t, a))) = tr_data_lines t"
  "tr_event_name (fst (dispatch_frame parse n e d (t, a))) = tr_event_name t"
  "tr_unfinished_chat_choices (fst (dispatch_frame parse n e d (t, a))) = tr_unfinished_chat_choices t"
  by (simp_all add: dispatch_frame_def Let_def split: prod.splits)

definition frame_pending :: "sse_tracker \<Rightarrow> bool" where
  "frame_pending t \<longleftrightarrow> tr_frame_non_comment t \<or> tr_data_lines t \<noteq> [] \<or> tr_event_name t \<noteq> []"

lemma dispatch_idle: "\<not> frame_pending t \<Longrightarrow> dispatch parse (t, a) = (t, a)"
  by (simp add: dispatch_def frame_pending_def)

lemma dispatch_pending:
  assumes "frame_pending t"
  obtains u limit where
    "observe_payload parse (join_lines (tr_data_lines t))
       (t\<lparr>tr_event_name := [], tr_data_lines := [], tr_frame_non_comment := False\<rparr>) = (u, limit)"
    "dispatch parse (t, a) = (if limit then limit_exceeded (u, a)
       else dispatch_frame parse (tr_frame_non_comment t) (tr_event_name t) (join_lines (tr_data_lines t)) (u, a))"
proof (cases "observe_payload parse (join_lines (tr_data_lines t))
    (t\<lparr>tr_event_name := [], tr_data_lines := [], tr_frame_non_comment := False\<rparr>)")
  case (Pair u limit)
  moreover have "\<not> (\<not> tr_frame_non_comment t \<and> tr_data_lines t = [] \<and> tr_event_name t = [])"
    using assms by (auto simp: frame_pending_def)
  ultimately show thesis
    by (intro that [of u limit]) (simp_all only: dispatch_def Let_def prod.case if_False)
qed

lemma dispatch_empties:
  assumes "choices_ok (tr_unfinished_chat_choices t)"
  shows "let u = fst (dispatch parse (t, a)) in
    buffered u = 0 \<and> choices_ok (tr_unfinished_chat_choices u) \<and> tr_frame_bytes u = tr_frame_bytes t \<and>
    (tr_line u = tr_line t \<or> tr_line u = [])"
proof (cases "frame_pending t")
  case False
  with assms show ?thesis by (simp add: dispatch_idle buffered_def frame_pending_def)
next
  case True
  let ?t = "t\<lparr>tr_event_name := [], tr_data_lines := [], tr_frame_non_comment := False\<rparr>"
  obtain u limit where u: "observe_payload parse (join_lines (tr_data_lines t)) ?t = (u, limit)"
    "dispatch parse (t, a) = (if limit then limit_exceeded (u, a)
       else dispatch_frame parse (tr_frame_non_comment t) (tr_event_name t) (join_lines (tr_data_lines t)) (u, a))"
    using dispatch_pending [OF True] by metis
  with observe_payload_keeps [of ?t parse "join_lines (tr_data_lines t)"] assms show ?thesis
    by (simp add: Let_def buffered_def dispatch_frame_keeps limit_exceeded_def choices_ok_def)
qed

lemma dispatch_ok: "tracker_ok t \<Longrightarrow> tracker_ok (fst (dispatch parse (t, a)))"
  using dispatch_empties [of t parse a] by (auto simp: tracker_ok_def Let_def)

lemma process_line_ok: assumes "tracker_ok t" shows "tracker_ok (fst (process_line parse (t, a)))"
proof (cases "tr_line t = []")
  case True
  then show ?thesis
    using assms dispatch_empties [of "t\<lparr>tr_line := [], tr_frame_bytes := 0\<rparr>" parse a]
    by (auto simp: process_line_def tracker_ok_def Let_def)
next
  case False
  let ?text = "trim (from_utf8_lossy (tr_line t))"
  have len: "length ?text \<le> 3 * length (tr_line t)"
    using length_trim length_from_utf8_lossy order_trans by blast
  have part: "length (trim r) \<le> 3 * length (tr_line t)" if "strip_prefix ?text p = Some r" for r p
    using length_trim [of r] length_strip_prefix [OF that] len by linarith
  show ?thesis
    using assms False part
    by (auto simp: process_line_def Let_def tracker_ok_def buffered_def split: option.splits)
      (fastforce dest: part)+
qed

lemma limit_exceeded_ok: "tracker_ok t \<Longrightarrow> tracker_ok (fst (limit_exceeded (t, a)))"
  by (simp add: limit_exceeded_def tracker_ok_def buffered_def choices_ok_def)

lemma feed_bytes_ok: "tracker_ok t \<Longrightarrow> tracker_ok (fst (feed_bytes parse bs (t, a)))"
proof (induction bs arbitrary: t a)
  case (Cons b bs)
  show ?case
  proof (cases "MAX_SSE_FRAME_BYTES \<le> tr_frame_bytes t")
    case True
    with Cons.prems show ?thesis by (simp add: limit_exceeded_ok)
  next
    case False
    let ?t = "t\<lparr>tr_frame_bytes := tr_frame_bytes t + 1\<rparr>"
    have t: "tracker_ok ?t" using Cons.prems False by (auto simp: tracker_ok_def buffered_def)
    have push: "tracker_ok (push_byte b ?t)"
      using Cons.prems False by (auto simp: push_byte_def Let_def tracker_ok_def buffered_def)
    obtain u c where u: "process_line parse (?t, a) = (u, c)" by (cases "process_line parse (?t, a)")
    with process_line_ok [OF t, of parse a] have "tracker_ok u" by simp
    with Cons.IH t push u False show ?thesis by (simp add: Let_def)
  qed
qed simp

lemma feed_ok: "tracker_ok t \<Longrightarrow> tracker_ok (fst (feed parse bs t))"
proof -
  assume "tracker_ok t"
  moreover from this have "tracker_ok (t\<lparr>tr_saw_provider_event := True\<rparr>)" by (simp add: tracker_ok_def buffered_def)
  ultimately show ?thesis by (simp add: feed_def Let_def feed_bytes_ok)
qed

lemma tracker_default_ok: "tracker_ok tracker_default"
  by (simp add: tracker_ok_def tracker_default_def buffered_def choices_ok_def)

lemma feeds_ok: "tracker_ok t \<Longrightarrow> tracker_ok (foldl (\<lambda>t chunk. fst (feed parse chunk t)) t chunks)"
  by (induction chunks arbitrary: t) (simp_all add: feed_ok)

text \<open>
  C16: observation needs bounded memory. Whatever an upstream sends and however it is cut into
  chunks, the tracker never holds more than 1 MiB of an unfinished line, 3 MiB of decoded data and
  event name of one frame (an invalid byte is decoded to a three byte character), and 1024 open
  choices.
\<close>

theorem tracker_bounded:
  "let t = foldl (\<lambda>t chunk. fst (feed parse chunk t)) tracker_default chunks in
   length (tr_line t) \<le> MAX_SSE_FRAME_BYTES \<and> tr_frame_bytes t \<le> MAX_SSE_FRAME_BYTES \<and>
   sum_list (map length (tr_data_lines t)) + length (tr_event_name t) \<le> 3 * MAX_SSE_FRAME_BYTES \<and>
   length (tr_unfinished_chat_choices t) \<le> 1024"
  using feeds_ok [OF tracker_default_ok, of parse chunks]
  by (auto simp: Let_def tracker_ok_def buffered_def choices_ok_def MAX_TRACKED_CHAT_CHOICES_def)

section \<open>Verdicts\<close>

lemma merge_terminal_failure: "is_failure x \<Longrightarrow> merge_terminal (Some x) c = Some x"
  by (auto simp: merge_terminal_def is_failure_def split: option.splits)

definition verdict_kept :: "stream_termination \<Rightarrow> sse_tracker \<Rightarrow> bool" where
  "verdict_kept x t \<longleftrightarrow> tr_terminal t = Some x \<or> tr_terminal t = Some BufferLimitExceeded"

lemma observe_choices_terminal: "tr_terminal (fst (observe_choices cs t)) = tr_terminal t"
  by (induction cs t rule: observe_choices.induct) (simp_all add: Let_def)

lemma observe_payload_terminal: "tr_terminal (fst (observe_payload parse d t)) = tr_terminal t"
  by (simp add: observe_payload_def Let_def observe_choices_terminal split: option.splits)

lemma dispatch_verdict:
  assumes "is_failure x" "verdict_kept x t"
  shows "verdict_kept x (fst (dispatch parse (t, a)))"
proof (cases "frame_pending t")
  case False
  with assms show ?thesis by (simp add: dispatch_idle)
next
  case True
  let ?t = "t\<lparr>tr_event_name := [], tr_data_lines := [], tr_frame_non_comment := False\<rparr>"
  obtain u limit where u: "observe_payload parse (join_lines (tr_data_lines t)) ?t = (u, limit)"
    "dispatch parse (t, a) = (if limit then limit_exceeded (u, a)
       else dispatch_frame parse (tr_frame_non_comment t) (tr_event_name t) (join_lines (tr_data_lines t)) (u, a))"
    using dispatch_pending [OF True] by metis
  then have "tr_terminal u = tr_terminal t"
    using observe_payload_terminal [of parse "join_lines (tr_data_lines t)" ?t] by simp
  moreover from this have "merge_terminal (tr_terminal u) c = tr_terminal u" for c
    using assms merge_terminal_failure by (auto simp: verdict_kept_def is_failure_def)
  ultimately show ?thesis
    using assms(2) u(2)
    by (simp add: verdict_kept_def limit_exceeded_def dispatch_frame_def Let_def split: prod.splits)
qed

lemma process_line_verdict:
  assumes "is_failure x" "verdict_kept x t"
  shows "verdict_kept x (fst (process_line parse (t, a)))"
  using assms dispatch_verdict [of x "t\<lparr>tr_line := [], tr_frame_bytes := 0\<rparr>" parse a]
  by (auto simp: process_line_def Let_def verdict_kept_def split: option.splits)

lemma feed_bytes_verdict:
  assumes "is_failure x" "verdict_kept x t"
  shows "verdict_kept x (fst (feed_bytes parse bs (t, a)))"
  using assms(2)
proof (induction bs arbitrary: t a)
  case (Cons b bs)
  let ?t = "t\<lparr>tr_frame_bytes := tr_frame_bytes t + 1\<rparr>"
  have t: "verdict_kept x ?t" "verdict_kept x (push_byte b ?t)"
    using Cons.prems by (simp_all add: verdict_kept_def push_byte_def Let_def)
  obtain u c where u: "process_line parse (?t, a) = (u, c)" by (cases "process_line parse (?t, a)")
  with process_line_verdict [OF assms(1) t(1), of parse a] have "verdict_kept x u" by simp
  with Cons.IH t u show ?case
    by (simp add: Let_def limit_exceeded_def) (simp add: verdict_kept_def)
qed simp

text \<open>
  A failure verdict is final. Once the tracker has recorded a failure, no later chunk and no
  end of stream turns it into success or into another failure, except that exceeding an
  observation limit is reported as such.
\<close>

theorem failure_verdict_final:
  assumes "tr_terminal t = Some x" "is_failure x"
  shows "tr_terminal (fst (feed parse bytes t)) \<in> {Some x, Some BufferLimitExceeded} \<and>
    tr_terminal (fst (finish_eof parse t)) \<in> {Some x, Some BufferLimitExceeded}"
proof -
  have kept: "verdict_kept x (t\<lparr>tr_saw_provider_event := b\<rparr>)" "verdict_kept x t" for b
    using assms(1) by (simp_all add: verdict_kept_def)
  have "verdict_kept x (fst (feed parse bytes t))"
    using feed_bytes_verdict [OF assms(2) kept(1)] feed_bytes_verdict [OF assms(2) kept(2)] kept(2)
    by (simp add: feed_def Let_def)
  moreover have "verdict_kept x (fst (finish_eof parse t))"
    using dispatch_verdict [OF assms(2)] process_line_verdict [OF assms(2) kept(2)] kept(2)
    by (simp add: finish_eof_def Let_def) (metis prod.collapse)
  ultimately show ?thesis by (auto simp: verdict_kept_def)
qed

theorem failure_verdict_final_witness:
  "tr_terminal (fst (feed (\<lambda>_. None) ''data: [DONE]'' (tracker_default\<lparr>tr_terminal := Some IdleTimeout\<rparr>)))
   \<in> {Some IdleTimeout, Some BufferLimitExceeded}"
  using failure_verdict_final [of "tracker_default\<lparr>tr_terminal := Some IdleTimeout\<rparr>" IdleTimeout "\<lambda>_. None" "''data: [DONE]''"]
  by (simp add: is_failure_def)

text \<open>
  The gateway's termination codes round-trip. The code written into an error frame for any
  failure is read back as that failure, without any JSON parsing.
\<close>

theorem termination_code_roundtrip:
  "is_failure t \<Longrightarrow> termination_from_code parse (termination_code t) = Some t"
  by (cases t) (simp_all add: is_failure_def termination_from_code_def starts_with_def)

theorem termination_code_roundtrip_witness:
  "termination_from_code (\<lambda>_. None) (termination_code TotalTimeout) = Some TotalTimeout"
  by (rule termination_code_roundtrip) (simp add: is_failure_def)

end
