(* ===== verification/Proxy_Native.thy ===== *)
theory Proxy_Native
  imports Stream_Tracker
begin

text \<open>
  \<open>src/proxy/stream.rs\<close>, the forwarding half: the gateway's own frames and \<open>next_native\<close>, the loop
  that yields an upstream body to the client with heartbeats and time limits.

  A queued item is the provider's chunk or one of the gateway's four frames; \<open>item_bytes\<close> gives
  the bytes sent. One iteration of the loop reads the clock, and the outcome of its \<open>select!\<close> is an
  argument, so a run is a list of (clock reading at the top, clock reading in the handler,
  outcome).
\<close>

section \<open>Frames\<close>

definition newline :: string where
  "newline = [CHR 0x0A]"

definition HEARTBEAT_FRAME :: string where
  "HEARTBEAT_FRAME = '': gateway-heartbeat'' @ newline @ newline"

definition HEARTBEAT_MARKER :: string where
  "HEARTBEAT_MARKER = '': gateway-heartbeat''"

definition CHAT_DONE_FRAME :: string where
  "CHAT_DONE_FRAME = ''data: [DONE]'' @ newline @ newline"

definition is_gateway_heartbeat :: "string \<Rightarrow> bool" where
  "is_gateway_heartbeat bytes = (trim (from_utf8_lossy bytes) = HEARTBEAT_MARKER)"

definition gateway_error_payload :: "protocol \<Rightarrow> stream_termination \<Rightarrow> json" where
  "gateway_error_payload p t =
     (let err = JObject [(''code'', JString (termination_code t)), (''message'', JString (termination_message t)),
                         (''type'', JString (termination_code t))]
      in case p of
           OpenAiChatCompletions \<Rightarrow> JObject [(''error'', err)]
         | _ \<Rightarrow> JObject [(''error'', err), (''type'', JString ''error'')])"

definition gateway_error_frame :: "json_printer \<Rightarrow> protocol \<Rightarrow> stream_termination \<Rightarrow> string" where
  "gateway_error_frame print p t =
     (let body = print (gateway_error_payload p t) in
      case p of
        OpenAiChatCompletions \<Rightarrow> ''data: '' @ body @ newline @ newline @ ''data: [DONE]'' @ newline @ newline
      | _ \<Rightarrow> ''event: error'' @ newline @ ''data: '' @ body @ newline @ newline)"

section \<open>State\<close>

datatype native_item =
    ProviderChunk string | Heartbeat | Separator | ErrorFrame stream_termination | DoneFrame

definition item_bytes :: "json_printer \<Rightarrow> protocol \<Rightarrow> native_item \<Rightarrow> string" where
  "item_bytes print p item =
     (case item of
        ProviderChunk b \<Rightarrow> b
      | Heartbeat \<Rightarrow> HEARTBEAT_FRAME
      | Separator \<Rightarrow> newline @ newline
      | ErrorFrame t \<Rightarrow> gateway_error_frame print p t
      | DoneFrame \<Rightarrow> CHAT_DONE_FRAME)"

record native_state =
  ns_protocol :: protocol
  ns_config :: stream_config
  ns_request_started :: nat
  ns_connected_at :: nat
  ns_tracker :: sse_tracker
  ns_pending :: "native_item list"
  ns_finish_after_pending :: bool
  ns_done :: bool
  ns_next_heartbeat :: "nat option"
  ns_last_event :: "nat option"

text \<open>A zero duration disables a limit; \<open>checked_add\<close> may leave the range.\<close>

definition deadline_after :: "duration \<Rightarrow> nat \<Rightarrow> nat option" where
  "deadline_after d at = (if d = 0 then None else instant_checked_add at d)"

definition native_new :: "protocol \<Rightarrow> stream_config \<Rightarrow> nat \<Rightarrow> nat \<Rightarrow> native_state" where
  "native_new p config request_started connected_at =
     \<lparr>ns_protocol = p, ns_config = config, ns_request_started = request_started, ns_connected_at = connected_at,
      ns_tracker = tracker_default, ns_pending = [], ns_finish_after_pending = False, ns_done = False,
      ns_next_heartbeat = deadline_after (sc_heartbeat_interval config) connected_at, ns_last_event = None\<rparr>"

definition queue :: "native_item \<Rightarrow> native_state \<Rightarrow> native_state" where
  "queue item s = s\<lparr>ns_pending := ns_pending s @ [item]\<rparr>"

definition finish_pending :: "native_state \<Rightarrow> native_state" where
  "finish_pending s = s\<lparr>ns_finish_after_pending := True\<rparr>"

definition queue_failure :: "stream_termination \<Rightarrow> native_state \<Rightarrow> native_state" where
  "queue_failure t s =
     (let s = (if \<not> safe_for_heartbeat (ns_tracker s) \<or> t = BufferLimitExceeded then queue Separator s else s)
      in finish_pending (queue (ErrorFrame t) s))"

definition total_deadline :: "native_state \<Rightarrow> nat option" where
  "total_deadline s = deadline_after (sc_total_timeout (ns_config s)) (ns_request_started s)"

definition first_deadline :: "native_state \<Rightarrow> nat option" where
  "first_deadline s =
     (if tr_saw_provider_event (ns_tracker s) then None
      else deadline_after (sc_first_event_timeout (ns_config s)) (ns_connected_at s))"

definition idle_deadline :: "native_state \<Rightarrow> nat option" where
  "idle_deadline s = Option.bind (ns_last_event s) (deadline_after (sc_idle_timeout (ns_config s)))"

section \<open>One iteration\<close>

datatype select_event =
    UpstreamItem string | UpstreamErr | UpstreamEof
  | TotalElapsed | FirstElapsed | IdleElapsed | HeartbeatElapsed

definition native_eof :: "json_parser \<Rightarrow> native_state \<Rightarrow> native_state" where
  "native_eof parse s =
     (let t = fst (finish_eof parse (ns_tracker s));
          s = s\<lparr>ns_tracker := t\<rparr> in
      case tr_terminal t of
        Some _ \<Rightarrow> finish_pending s
      | None \<Rightarrow>
          if \<not> tr_saw_provider_event t then queue_failure EmptyStream s
          else if tr_saw_sse_frame t then
            (if ns_protocol s = OpenAiChatCompletions \<and> tr_saw_chat_finish t \<and> tr_unfinished_chat_choices t = []
             then finish_pending (queue DoneFrame (s\<lparr>ns_tracker := mark_completed_after_eof t\<rparr>))
             else queue_failure IncompleteStream s)
          else finish_pending s)"

definition native_select :: "json_parser \<Rightarrow> nat \<Rightarrow> select_event \<Rightarrow> native_state \<Rightarrow> native_state" where
  "native_select parse now ev s =
     (case ev of
        UpstreamItem bytes \<Rightarrow>
          if bytes = [] then s
          else
            let (t, activity) = feed parse bytes (ns_tracker s);
                s = s\<lparr>ns_tracker := t\<rparr>;
                s = (if act_provider_event activity
                     then s\<lparr>ns_last_event := Some now,
                            ns_next_heartbeat := deadline_after (sc_heartbeat_interval (ns_config s)) now\<rparr>
                     else s);
                s = queue (ProviderChunk bytes) s
            in if act_terminal activity = Some BufferLimitExceeded then queue_failure BufferLimitExceeded s
               else if act_error activity \<or> act_terminal activity \<noteq> None then finish_pending s
               else s
      | UpstreamErr \<Rightarrow> queue_failure TransportError s
      | UpstreamEof \<Rightarrow> native_eof parse s
      | TotalElapsed \<Rightarrow> queue_failure TotalTimeout s
      | FirstElapsed \<Rightarrow> queue_failure FirstEventTimeout s
      | IdleElapsed \<Rightarrow> queue_failure IdleTimeout s
      | HeartbeatElapsed \<Rightarrow>
          (let s = (if safe_for_heartbeat (ns_tracker s) then queue Heartbeat s else s)
           in s\<lparr>ns_next_heartbeat := deadline_after (sc_heartbeat_interval (ns_config s)) now\<rparr>))"

datatype native_out = Yielded native_item | Ended | Looping

definition reached :: "nat \<Rightarrow> nat option \<Rightarrow> bool" where
  "reached now d = (case d of None \<Rightarrow> False | Some t \<Rightarrow> t \<le> now)"

definition native_iterate ::
  "json_parser \<Rightarrow> nat \<times> nat \<times> select_event \<Rightarrow> native_state \<Rightarrow> native_out \<times> native_state" where
  "native_iterate parse = (\<lambda>(now, now', ev) s.
     case ns_pending s of
       item # rest \<Rightarrow> (Yielded item, s\<lparr>ns_pending := rest\<rparr>)
     | [] \<Rightarrow>
         if ns_done s \<or> ns_finish_after_pending s then (Ended, s\<lparr>ns_done := True\<rparr>)
         else if reached now (total_deadline s) then (Looping, queue_failure TotalTimeout s)
         else if reached now (first_deadline s) then (Looping, queue_failure FirstEventTimeout s)
         else if reached now (idle_deadline s) then (Looping, queue_failure IdleTimeout s)
         else (Looping, native_select parse now' ev s))"

section \<open>Runs\<close>

text \<open>The chunk an iteration takes from the upstream, when it gets to its \<open>select!\<close>.\<close>

definition taken :: "nat \<times> nat \<times> select_event \<Rightarrow> native_state \<Rightarrow> string list" where
  "taken = (\<lambda>(now, now', ev) s.
     if ns_pending s = [] \<and> \<not> ns_done s \<and> \<not> ns_finish_after_pending s \<and> \<not> reached now (total_deadline s) \<and>
        \<not> reached now (first_deadline s) \<and> \<not> reached now (idle_deadline s)
     then (case ev of UpstreamItem b \<Rightarrow> if b = [] then [] else [b] | _ \<Rightarrow> []) else [])"

fun native_run ::
  "json_parser \<Rightarrow> (nat \<times> nat \<times> select_event) list \<Rightarrow> native_state \<Rightarrow> native_item list \<times> string list \<times> native_state" where
  "native_run parse [] s = ([], [], s)"
| "native_run parse (i # is) s =
     (let (out, s') = native_iterate parse i s;
          (outs, ins, s'') = native_run parse is s'
      in ((case out of Yielded item \<Rightarrow> item # outs | _ \<Rightarrow> outs), taken i s @ ins, s''))"

fun provider_chunks :: "native_item list \<Rightarrow> string list" where
  "provider_chunks [] = []"
| "provider_chunks (ProviderChunk b # items) = b # provider_chunks items"
| "provider_chunks (_ # items) = provider_chunks items"

lemma provider_chunks_append [simp]: "provider_chunks (xs @ ys) = provider_chunks xs @ provider_chunks ys"
  by (induction xs rule: provider_chunks.induct) simp_all

lemma provider_chunks_Cons: "provider_chunks (x # xs) = provider_chunks [x] @ provider_chunks xs"
  by (cases x) simp_all

lemma queue_simps [simp]:
  "ns_pending (queue x s) = ns_pending s @ [x]" "ns_tracker (queue x s) = ns_tracker s"
  "ns_finish_after_pending (queue x s) = ns_finish_after_pending s" "ns_done (queue x s) = ns_done s"
  "ns_config (queue x s) = ns_config s" "ns_request_started (queue x s) = ns_request_started s"
  "ns_pending (finish_pending s) = ns_pending s" "ns_tracker (finish_pending s) = ns_tracker s"
  "ns_finish_after_pending (finish_pending s)" "ns_done (finish_pending s) = ns_done s"
  "ns_config (finish_pending s) = ns_config s" "ns_request_started (finish_pending s) = ns_request_started s"
  by (simp_all add: queue_def finish_pending_def)

lemma queue_failure_simps [simp]:
  "ns_tracker (queue_failure t s) = ns_tracker s" "ns_finish_after_pending (queue_failure t s)"
  "ns_done (queue_failure t s) = ns_done s"
  "provider_chunks (ns_pending (queue_failure t s)) = provider_chunks (ns_pending s)"
  by (simp_all add: queue_failure_def Let_def)

lemma native_eof_chunks [simp]: "provider_chunks (ns_pending (native_eof parse s)) = provider_chunks (ns_pending s)"
  by (simp add: native_eof_def Let_def split: option.splits)

lemma iterate_chunks:
  assumes "native_iterate parse i s = (out, s')"
  shows "(case out of Yielded item \<Rightarrow> provider_chunks [item] | _ \<Rightarrow> []) @ provider_chunks (ns_pending s') =
    provider_chunks (ns_pending s) @ taken i s"
proof -
  obtain now now' ev where i: "i = (now, now', ev)" by (cases i)
  show ?thesis
  proof (cases "ns_pending s")
    case (Cons x xs)
    with assms i show ?thesis by (cases x) (auto simp: native_iterate_def taken_def)
  next
    case Nil
    show ?thesis
      using assms i Nil
      by (auto simp: native_iterate_def taken_def native_select_def Let_def
          split: select_event.splits if_splits prod.splits)
  qed
qed

text \<open>
  C3: the client gets the provider's bytes unchanged and in order. In every run of the forwarding
  loop, at any clock readings and with any interleaving of timers, errors and chunks, the provider
  chunks yielded so far, followed by those still queued, are exactly the non-empty chunks
  taken from the upstream; the gateway's own frames are separate items.
\<close>

theorem native_passthrough:
  assumes "native_run parse is (native_new p config started connected) = (outs, ins, s)"
  shows "provider_chunks outs @ provider_chunks (ns_pending s) = ins"
proof -
  have "provider_chunks outs @ provider_chunks (ns_pending s') = provider_chunks (ns_pending s) @ ins"
    if "native_run parse is s = (outs, ins, s')" for s s' outs ins
    using that
  proof (induction "is" arbitrary: s outs ins)
    case (Cons i "is")
    obtain out u where u: "native_iterate parse i s = (out, u)" by (cases "native_iterate parse i s")
    obtain os cs where r: "native_run parse is u = (os, cs, s')"
      using Cons.prems u by (auto split: prod.splits)
    let ?o = "case out of Yielded item \<Rightarrow> [item] | _ \<Rightarrow> []"
    have "outs = ?o @ os" "ins = taken i s @ cs" using Cons.prems u r by (auto split: native_out.splits)
    moreover have "provider_chunks ?o @ provider_chunks (ns_pending u) = provider_chunks (ns_pending s) @ taken i s"
      using iterate_chunks [OF u] by (cases out) auto
    ultimately show ?case using Cons.IH [OF r] by (metis append_assoc provider_chunks_append)
  qed simp
  from this [OF assms] show ?thesis by (simp add: native_new_def)
qed

theorem native_passthrough_witness:
  "\<exists>outs ins s. native_run (\<lambda>_. None) [(0, 0, UpstreamItem ''data: x''), (0, 0, UpstreamErr)]
      (native_new AnthropicMessages stream_config_default 0 0) = (outs, ins, s) \<and>
    provider_chunks outs @ provider_chunks (ns_pending s) = ins"
proof -
  obtain outs ins s where "native_run (\<lambda>_. None) [(0, 0, UpstreamItem ''data: x''), (0, 0, UpstreamErr)]
      (native_new AnthropicMessages stream_config_default 0 0) = (outs, ins, s)" by (metis prod_cases3)
  with native_passthrough [OF this] show ?thesis by blast
qed

section \<open>The shape of the output\<close>

fun live_item :: "native_item \<Rightarrow> bool" where
  "live_item (ProviderChunk _) = True"
| "live_item Heartbeat = True"
| "live_item _ = False"

definition closing :: "native_item list \<Rightarrow> bool" where
  "closing ys \<longleftrightarrow> ys = [] \<or> ys = [DoneFrame] \<or> (\<exists>t. ys = [ErrorFrame t] \<or> ys = [Separator, ErrorFrame t])"

definition shape :: "native_item list \<Rightarrow> bool \<Rightarrow> bool" where
  "shape items finished \<longleftrightarrow>
     (\<exists>xs ys. items = xs @ ys \<and> list_all live_item xs \<and> closing ys \<and> (ys \<noteq> [] \<longrightarrow> finished))"

lemma shape_live: "\<not> fin \<Longrightarrow> shape items fin \<longleftrightarrow> list_all live_item items"
  by (auto simp: shape_def closing_def)

lemma shape_close: "list_all live_item items \<Longrightarrow> closing ys \<Longrightarrow> shape (items @ ys) True"
  by (auto simp: shape_def)

lemma shape_mono: "list_all live_item items \<Longrightarrow> shape items fin"
  by (auto simp: shape_def closing_def)

lemma queue_failure_pending:
  "ns_pending (queue_failure t s) = ns_pending s @
     (if \<not> safe_for_heartbeat (ns_tracker s) \<or> t = BufferLimitExceeded then [Separator, ErrorFrame t] else [ErrorFrame t])"
  by (simp add: queue_failure_def Let_def)

lemma closing_failure: "closing (if b then [Separator, ErrorFrame t] else [ErrorFrame t])"
  by (simp add: closing_def)

lemma shape_failure:
  "list_all live_item (hist @ ns_pending s) \<Longrightarrow>
   shape (hist @ ns_pending (queue_failure t s)) (ns_finish_after_pending (queue_failure t s))"
  using shape_close [OF _ closing_failure] by (simp add: queue_failure_pending flip: append_assoc)

lemma shape_eof:
  assumes "list_all live_item (hist @ ns_pending s)"
  shows "shape (hist @ ns_pending (native_eof parse s)) (ns_finish_after_pending (native_eof parse s))"
proof -
  have done_: "shape ((hist @ ns_pending s) @ [DoneFrame]) True"
    using assms by (intro shape_close) (simp_all add: closing_def)
  show ?thesis
    using assms done_ shape_mono shape_failure [of hist "s\<lparr>ns_tracker := fst (finish_eof parse (ns_tracker s))\<rparr>"]
    by (auto simp: native_eof_def Let_def split: option.splits)
qed

lemma shape_select:
  assumes "list_all live_item (hist @ ns_pending s)" "\<not> ns_finish_after_pending s"
  shows "shape (hist @ ns_pending (native_select parse now ev s)) (ns_finish_after_pending (native_select parse now ev s))"
proof (cases ev)
  case (UpstreamItem b)
  have live: "list_all live_item (hist @ ns_pending s @ [ProviderChunk b])" using assms by simp
  have fail: "shape (hist @ ns_pending (queue_failure BufferLimitExceeded (queue (ProviderChunk b) u)))
      (ns_finish_after_pending (queue_failure BufferLimitExceeded (queue (ProviderChunk b) u)))"
    if "ns_pending u = ns_pending s" for u
    using live that by (intro shape_failure) simp
  show ?thesis
    using assms live fail shape_mono UpstreamItem
    by (auto simp: native_select_def Let_def split: prod.splits)
next
  case HeartbeatElapsed
  then show ?thesis using assms shape_mono by (auto simp: native_select_def Let_def)
qed (use assms shape_failure shape_eof in \<open>simp_all add: native_select_def\<close>)

lemma shape_iterate:
  assumes "shape (hist @ ns_pending s) (ns_finish_after_pending s)" "native_iterate parse i s = (out, s')"
  shows "shape ((hist @ (case out of Yielded item \<Rightarrow> [item] | _ \<Rightarrow> [])) @ ns_pending s') (ns_finish_after_pending s')"
proof -
  obtain now now' ev where i: "i = (now, now', ev)" by (cases i)
  show ?thesis
  proof (cases "ns_pending s")
    case (Cons x xs)
    with assms i show ?thesis by (auto simp: native_iterate_def)
  next
    case Nil
    have live: "list_all live_item (hist @ ns_pending s)" if "\<not> ns_finish_after_pending s"
      using assms(1) that shape_live by blast
    show ?thesis
      using assms i Nil live shape_failure [of hist s] shape_select [of hist s]
      by (auto simp: native_iterate_def split: if_splits)
  qed
qed

text \<open>
  C4: a client never sees anything after the end. In every run the output is provider chunks and
  heartbeats followed by at most one closing sequence: nothing, the injected \<open>[DONE]\<close>, or a
  single error frame, optionally preceded by the separator that ends an interrupted provider
  frame. Once a closing frame is out the loop only ends.
\<close>

theorem native_output_shape:
  assumes "native_run parse is (native_new p config started connected) = (outs, ins, s)"
  shows "shape (outs @ ns_pending s) (ns_finish_after_pending s)"
proof -
  have "shape ((hist @ outs) @ ns_pending s') (ns_finish_after_pending s')"
    if "native_run parse is s = (outs, ins, s')" "shape (hist @ ns_pending s) (ns_finish_after_pending s)"
    for s s' outs ins hist
    using that
  proof (induction "is" arbitrary: s outs ins hist)
    case (Cons i "is")
    obtain out u where u: "native_iterate parse i s = (out, u)" by (cases "native_iterate parse i s")
    obtain os cs where r: "native_run parse is u = (os, cs, s')"
      using Cons.prems u by (auto split: prod.splits)
    let ?o = "case out of Yielded item \<Rightarrow> [item] | _ \<Rightarrow> []"
    have "outs = ?o @ os" using Cons.prems u r by (auto split: native_out.splits)
    with Cons.IH [OF r shape_iterate [OF Cons.prems(2) u]] show ?case by simp
  qed simp
  from this [OF assms, of "[]"] show ?thesis by (simp add: native_new_def shape_mono)
qed

theorem native_output_shape_witness:
  "\<exists>outs ins s. native_run (\<lambda>_. None) [(0, 0, UpstreamErr), (0, 0, UpstreamEof)]
      (native_new AnthropicMessages stream_config_default 0 0) = (outs, ins, s) \<and>
    shape (outs @ ns_pending s) (ns_finish_after_pending s)"
proof -
  obtain outs ins s where "native_run (\<lambda>_. None) [(0, 0, UpstreamErr), (0, 0, UpstreamEof)]
      (native_new AnthropicMessages stream_config_default 0 0) = (outs, ins, s)" by (metis prod_cases3)
  with native_output_shape [OF this] show ?thesis by blast
qed

section \<open>Heartbeats stay between frames\<close>

definition track :: "json_parser \<Rightarrow> string list \<Rightarrow> sse_tracker" where
  "track parse chunks = foldl (\<lambda>t chunk. fst (feed parse chunk t)) tracker_default chunks"

definition beats_ok :: "json_parser \<Rightarrow> native_item list \<Rightarrow> bool" where
  "beats_ok parse items \<longleftrightarrow>
     (\<forall>pre post. items = pre @ Heartbeat # post \<longrightarrow> safe_for_heartbeat (track parse (provider_chunks pre)))"

lemma beats_ok_other:
  assumes "beats_ok parse items" "Heartbeat \<notin> set new"
  shows "beats_ok parse (items @ new)"
  unfolding beats_ok_def
proof (intro allI impI)
  fix pre post assume eq: "items @ new = pre @ Heartbeat # post"
  then obtain zs where "items = pre @ Heartbeat # zs"
    using assms(2) by (auto simp: append_eq_append_conv2 append_eq_Cons_conv Cons_eq_append_conv)
  with assms(1) show "safe_for_heartbeat (track parse (provider_chunks pre))" by (auto simp: beats_ok_def)
qed

lemma beats_ok_beat:
  assumes "beats_ok parse items" "safe_for_heartbeat (track parse (provider_chunks items))"
  shows "beats_ok parse (items @ [Heartbeat])"
  unfolding beats_ok_def
proof (intro allI impI)
  fix pre post assume "items @ [Heartbeat] = pre @ Heartbeat # post"
  then consider "pre = items" | zs where "items = pre @ Heartbeat # zs"
    by (cases post rule: rev_cases) auto
  then show "safe_for_heartbeat (track parse (provider_chunks pre))"
    by cases (use assms in \<open>auto simp: beats_ok_def\<close>)
qed

definition beat_inv :: "json_parser \<Rightarrow> native_item list \<Rightarrow> native_state \<Rightarrow> bool" where
  "beat_inv parse hist s \<longleftrightarrow> beats_ok parse (hist @ ns_pending s) \<and>
     (ns_finish_after_pending s \<or> ns_tracker s = track parse (provider_chunks (hist @ ns_pending s)))"

lemma beat_inv_failure: "beat_inv parse hist s \<Longrightarrow> beat_inv parse hist (queue_failure t s)"
  using beats_ok_other [of parse "hist @ ns_pending s"]
  by (simp add: beat_inv_def queue_failure_pending)

lemma native_eof_pending:
  "\<exists>new. ns_pending (native_eof parse s) = ns_pending s @ new \<and> Heartbeat \<notin> set new \<and>
     ns_finish_after_pending (native_eof parse s)"
  by (simp add: native_eof_def Let_def queue_failure_pending split: option.split)

lemma beat_inv_eof: "beat_inv parse hist s \<Longrightarrow> beat_inv parse hist (native_eof parse s)"
  using beats_ok_other [of parse "hist @ ns_pending s"] native_eof_pending [of parse s]
  by (metis append_assoc beat_inv_def)

lemma track_snoc: "track parse (cs @ [c]) = fst (feed parse c (track parse cs))"
  by (simp add: track_def)

lemma beat_inv_item:
  assumes "beat_inv parse hist s" "\<not> ns_finish_after_pending s"
  shows "beat_inv parse hist (native_select parse now (UpstreamItem b) s)"
proof (cases "b = []")
  case False
  obtain t act where f: "feed parse b (ns_tracker s) = (t, act)" by (cases "feed parse b (ns_tracker s)")
  define u where "u = (if act_provider_event act
      then s\<lparr>ns_tracker := t, ns_last_event := Some now,
             ns_next_heartbeat := deadline_after (sc_heartbeat_interval (ns_config s)) now\<rparr>
      else s\<lparr>ns_tracker := t\<rparr>)"
  have u: "ns_tracker u = t" "ns_pending u = ns_pending s" by (simp_all add: u_def)
  have t: "t = track parse (provider_chunks (hist @ ns_pending s @ [ProviderChunk b]))"
    using assms f track_snoc [of parse "provider_chunks (hist @ ns_pending s)" b] by (simp add: beat_inv_def)
  have beats: "beats_ok parse (hist @ ns_pending s @ [ProviderChunk b])"
    using assms(1) beats_ok_other [of parse "hist @ ns_pending s" "[ProviderChunk b]"] by (simp add: beat_inv_def)
  have q: "beat_inv parse hist (queue (ProviderChunk b) u)" "beat_inv parse hist (finish_pending (queue (ProviderChunk b) u))"
    using t beats u by (simp_all add: beat_inv_def)
  have "native_select parse now (UpstreamItem b) s =
      (if act_terminal act = Some BufferLimitExceeded then queue_failure BufferLimitExceeded (queue (ProviderChunk b) u)
       else if act_error act \<or> act_terminal act \<noteq> None then finish_pending (queue (ProviderChunk b) u)
       else queue (ProviderChunk b) u)"
    using False f by (simp add: native_select_def u_def Let_def)
  with q beat_inv_failure show ?thesis by simp
qed (use assms in \<open>simp add: native_select_def\<close>)

lemma beat_inv_select:
  assumes "beat_inv parse hist s" "\<not> ns_finish_after_pending s"
  shows "beat_inv parse hist (native_select parse now ev s)"
proof (cases ev)
  case HeartbeatElapsed
  have tr: "ns_tracker s = track parse (provider_chunks (hist @ ns_pending s))" "beats_ok parse (hist @ ns_pending s)"
    using assms by (simp_all add: beat_inv_def)
  show ?thesis
    using HeartbeatElapsed tr beats_ok_beat [OF tr(2)]
    by (auto simp: native_select_def Let_def beat_inv_def)
qed (use assms beat_inv_item beat_inv_eof beat_inv_failure in \<open>simp_all add: native_select_def\<close>)

lemma beat_inv_iterate:
  assumes "beat_inv parse hist s" "native_iterate parse i s = (out, s')"
  shows "beat_inv parse (hist @ (case out of Yielded item \<Rightarrow> [item] | _ \<Rightarrow> [])) s'"
proof -
  obtain now now' ev where i: "i = (now, now', ev)" by (cases i)
  show ?thesis
  proof (cases "ns_pending s")
    case (Cons x xs)
    with assms i show ?thesis
      by (auto simp: native_iterate_def beat_inv_def provider_chunks_Cons [of x xs] simp del: provider_chunks.simps(2-))
  next
    case Nil
    show ?thesis
      using assms i Nil beat_inv_failure [OF assms(1)] beat_inv_select [OF assms(1)]
      by (auto simp: native_iterate_def split: if_splits) (simp_all add: beat_inv_def)
  qed
qed

text \<open>
  A heartbeat never lands inside a provider frame. Whenever a heartbeat is among the items
  sent or queued, the provider bytes before it end between two frames: no partial line, no
  data or event line and no other frame content is pending.
\<close>

theorem heartbeat_between_frames:
  assumes "native_run parse is (native_new p config started connected) = (outs, ins, s)"
    and "outs @ ns_pending s = pre @ Heartbeat # post"
  shows "safe_for_heartbeat (foldl (\<lambda>t chunk. fst (feed parse chunk t)) tracker_default (provider_chunks pre))"
proof -
  have "beat_inv parse (hist @ outs) s'"
    if "native_run parse is s = (outs, ins, s')" "beat_inv parse hist s" for s s' outs ins hist
    using that
  proof (induction "is" arbitrary: s outs ins hist)
    case (Cons i "is")
    obtain out u where u: "native_iterate parse i s = (out, u)" by (cases "native_iterate parse i s")
    obtain os cs where r: "native_run parse is u = (os, cs, s')"
      using Cons.prems u by (auto split: prod.splits)
    let ?o = "case out of Yielded item \<Rightarrow> [item] | _ \<Rightarrow> []"
    have "outs = ?o @ os" using Cons.prems u r by (auto split: native_out.splits)
    with Cons.IH [OF r beat_inv_iterate [OF Cons.prems(2) u]] show ?case by simp
  qed simp
  moreover have "beat_inv parse [] (native_new p config started connected)"
    by (simp add: beat_inv_def native_new_def beats_ok_def track_def)
  ultimately have "beat_inv parse outs s" using assms(1) by (metis append_Nil)
  with assms(2) show ?thesis by (auto simp: beat_inv_def beats_ok_def track_def)
qed

theorem heartbeat_between_frames_witness:
  "safe_for_heartbeat (foldl (\<lambda>t chunk. fst (feed (\<lambda>_. None) chunk t)) tracker_default [])"
proof -
  have "native_run (\<lambda>_. None) [(0, 0, HeartbeatElapsed)] (native_new AnthropicMessages stream_config_default 0 0)
      = ([], [], snd (snd (native_run (\<lambda>_. None) [(0, 0, HeartbeatElapsed)]
           (native_new AnthropicMessages stream_config_default 0 0)))) \<and>
      ns_pending (snd (snd (native_run (\<lambda>_. None) [(0, 0, HeartbeatElapsed)]
           (native_new AnthropicMessages stream_config_default 0 0)))) = [Heartbeat]"
    by (simp add: native_iterate_def native_new_def taken_def reached_def total_deadline_def first_deadline_def
        idle_deadline_def deadline_after_def instant_checked_add_def stream_config_default_def duration_from_secs_def
        native_select_def safe_for_heartbeat_def tracker_default_def Let_def queue_def)
  then show ?thesis
    using heartbeat_between_frames [where pre = "[]" and post = "[]"] by (metis append_Nil provider_chunks.simps(1))
qed

section \<open>The total time limit ends the stream\<close>

definition work_left :: "native_state \<Rightarrow> nat" where
  "work_left s = length (ns_pending s) + (if ns_done s then 0 else if ns_finish_after_pending s then 1 else 4)"

lemma native_select_fixed:
  "ns_config (native_select parse now ev s) = ns_config s \<and>
   ns_request_started (native_select parse now ev s) = ns_request_started s"
  by (cases ev)
    (auto simp: native_select_def native_eof_def queue_failure_def Let_def split: prod.splits option.splits)

lemma total_deadline_fixed: "native_iterate parse i s = (out, s') \<Longrightarrow> total_deadline s' = total_deadline s"
  using native_select_fixed
  by (cases i) (auto simp: native_iterate_def total_deadline_def queue_failure_def Let_def
      split: list.splits if_splits)

lemma overdue_iterate:
  assumes "reached (fst i) (total_deadline s)" "native_iterate parse i s = (out, s')"
  shows "work_left s' \<le> work_left s - 1 \<and> taken i s = []"
proof -
  obtain now now' ev where i: "i = (now, now', ev)" by (cases i)
  show ?thesis
  proof (cases "ns_pending s")
    case (Cons x xs)
    with assms i show ?thesis by (auto simp: native_iterate_def work_left_def taken_def)
  next
    case Nil
    with assms i show ?thesis
      by (auto simp: native_iterate_def work_left_def taken_def queue_failure_pending split: if_splits)
  qed
qed

lemma overdue_run:
  assumes "\<forall>i \<in> set is. reached (fst i) (total_deadline s)" "native_run parse is s = (outs, ins, s')"
  shows "work_left s' \<le> work_left s - length is \<and> ins = []"
  using assms
proof (induction "is" arbitrary: s outs ins)
  case (Cons i "is")
  obtain out u where u: "native_iterate parse i s = (out, u)" by (cases "native_iterate parse i s")
  obtain os cs where r: "native_run parse is u = (os, cs, s')"
    using Cons.prems u by (auto split: prod.splits)
  have "work_left s' \<le> work_left u - length is \<and> cs = []"
    using Cons.IH [OF _ r] Cons.prems(1) total_deadline_fixed [OF u] by simp
  moreover have "work_left u \<le> work_left s - 1 \<and> taken i s = []"
    using overdue_iterate [OF _ u] Cons.prems(1) by simp
  ultimately show ?case using Cons.prems(2) u r by auto
qed simp

lemma run_deadline:
  "native_run parse is s = (outs, ins, s') \<Longrightarrow> total_deadline s' = total_deadline s"
proof (induction "is" arbitrary: s outs ins)
  case (Cons i "is")
  obtain out u where u: "native_iterate parse i s = (out, u)" by (cases "native_iterate parse i s")
  obtain os cs where r: "native_run parse is u = (os, cs, s')"
    using Cons.prems u by (auto split: prod.splits)
  from Cons.IH [OF r] total_deadline_fixed [OF u] show ?case by simp
qed simp

text \<open>
  C17: the total time limit ends every stream. From any state a stream can reach, once the clock
  has passed the request's start plus a non-zero total timeout, nothing more is taken from the
  upstream and the loop ends after yielding what is queued and at most three items more,
  whatever the upstream and the timers do.
\<close>

theorem total_timeout_ends:
  assumes "native_run parse before (native_new p config started connected) = (outsb, insb, s)"
    and "sc_total_timeout config \<noteq> 0" and "started + sc_total_timeout config < 2 ^ 63 * 1000000000"
    and "\<forall>i \<in> set after. started + sc_total_timeout config \<le> fst i"
    and "length (ns_pending s) + 4 \<le> length after"
    and "native_run parse after s = (outs, ins, s')"
  shows "ns_done s' \<and> ns_pending s' = [] \<and> ins = []"
proof -
  have "total_deadline s = Some (started + sc_total_timeout config)"
    using run_deadline [OF assms(1)] assms(2,3)
    by (simp add: total_deadline_def native_new_def deadline_after_def instant_checked_add_def)
  with overdue_run [OF _ assms(6)] assms(4) have "work_left s' \<le> work_left s - length after" "ins = []"
    by (simp_all add: reached_def)
  moreover have "work_left s \<le> length (ns_pending s) + 4" by (simp add: work_left_def)
  ultimately have "work_left s' = 0" "ins = []" using assms(5) by simp_all
  then show ?thesis by (auto simp: work_left_def split: if_splits)
qed

theorem total_timeout_ends_witness:
  "\<exists>outs ins s'. native_run (\<lambda>_. None) (replicate 4 (duration_from_secs 300, 0, UpstreamItem ''x''))
     (native_new AnthropicMessages stream_config_default 0 0) = (outs, ins, s') \<and> ns_done s' \<and> ins = []"
proof -
  let ?after = "replicate 4 (duration_from_secs 300, 0, UpstreamItem ''x'')"
  let ?s = "native_new AnthropicMessages stream_config_default 0 0"
  obtain outs ins s' where run: "native_run (\<lambda>_. None) ?after ?s = (outs, ins, s')" by (metis prod_cases3)
  have "ns_done s' \<and> ns_pending s' = [] \<and> ins = []"
    by (rule total_timeout_ends [where before = "[]" and started = 0 and connected = 0 and p = AnthropicMessages
          and config = stream_config_default and outsb = "[]" and insb = "[]", OF _ _ _ _ _ run])
      (simp_all add: stream_config_default_def duration_from_secs_def native_new_def)
  with run show ?thesis by blast
qed

end
