(* ===== verification/Net_Addr.thy ===== *)
theory Net_Addr
  imports Gateway_Prelude
begin

unbundle bit_operations_syntax

text \<open>
  The part of Rust's \<open>std::net\<close> the gateway uses: IPv4 and IPv6 addresses with their order,
  octets, segments and class tests, and the standard address parser
  (\<open>IpAddr::from_str\<close>) written as the recursive descent it is.
\<close>

section \<open>Addresses\<close>

type_synonym u16 = "16 word"
type_synonym u128 = "128 word"

datatype ip_addr = V4 u32 | V6 u128

text \<open>The derived order of \<open>IpAddr\<close>: every IPv4 address before every IPv6 address.\<close>

instantiation ip_addr :: linorder
begin

definition less_eq_ip_addr :: "ip_addr \<Rightarrow> ip_addr \<Rightarrow> bool" where
  "a \<le> b \<longleftrightarrow> (case (a, b) of (V4 x, V4 y) \<Rightarrow> x \<le> y | (V4 _, V6 _) \<Rightarrow> True | (V6 _, V4 _) \<Rightarrow> False | (V6 x, V6 y) \<Rightarrow> x \<le> y)"

definition less_ip_addr :: "ip_addr \<Rightarrow> ip_addr \<Rightarrow> bool" where
  "a < b \<longleftrightarrow> a \<le> b \<and> \<not> b \<le> (a :: ip_addr)"

instance
  by standard (auto simp: less_eq_ip_addr_def less_ip_addr_def split: ip_addr.splits)

end

definition octets :: "u32 \<Rightarrow> u8 list" where
  "octets ip = [ucast (drop_bit 24 ip), ucast (drop_bit 16 ip), ucast (drop_bit 8 ip), ucast ip]"

definition segments :: "u128 \<Rightarrow> u16 list" where
  "segments ip = map (\<lambda>i. ucast (drop_bit (16 * (7 - i)) ip)) [0..<8]"

text \<open>\<open>u32::from_be_bytes\<close>, \<open>Ipv4Addr::new\<close> and \<open>Ipv6Addr::from([u16; 8])\<close>.\<close>

definition from_octets :: "u8 list \<Rightarrow> u32" where
  "from_octets bs = foldl (\<lambda>acc b. push_bit 8 acc OR ucast b) 0 bs"

definition from_segments :: "u16 list \<Rightarrow> u128" where
  "from_segments ss = foldl (\<lambda>acc s. push_bit 16 acc OR ucast s) 0 ss"

definition ipv4_octet :: "u32 \<Rightarrow> nat \<Rightarrow> u8" where
  "ipv4_octet ip i = octets ip ! i"

definition ipv4_is_unspecified :: "u32 \<Rightarrow> bool" where
  "ipv4_is_unspecified ip \<longleftrightarrow> octets ip = [0, 0, 0, 0]"

definition ipv4_is_loopback :: "u32 \<Rightarrow> bool" where
  "ipv4_is_loopback ip \<longleftrightarrow> octets ip ! 0 = 127"

definition ipv4_is_private :: "u32 \<Rightarrow> bool" where
  "ipv4_is_private ip \<longleftrightarrow>
     octets ip ! 0 = 10 \<or>
     octets ip ! 0 = 172 \<and> 16 \<le> octets ip ! 1 \<and> octets ip ! 1 \<le> 31 \<or>
     octets ip ! 0 = 192 \<and> octets ip ! 1 = 168"

definition ipv4_is_link_local :: "u32 \<Rightarrow> bool" where
  "ipv4_is_link_local ip \<longleftrightarrow> octets ip ! 0 = 169 \<and> octets ip ! 1 = 254"

definition ipv4_is_multicast :: "u32 \<Rightarrow> bool" where
  "ipv4_is_multicast ip \<longleftrightarrow> 224 \<le> octets ip ! 0 \<and> octets ip ! 0 \<le> 239"

definition ipv4_is_broadcast :: "u32 \<Rightarrow> bool" where
  "ipv4_is_broadcast ip \<longleftrightarrow> octets ip = [255, 255, 255, 255]"

definition ipv4_is_documentation :: "u32 \<Rightarrow> bool" where
  "ipv4_is_documentation ip \<longleftrightarrow> take 3 (octets ip) \<in> {[192, 0, 2], [198, 51, 100], [203, 0, 113]}"

definition ipv6_is_unspecified :: "u128 \<Rightarrow> bool" where
  "ipv6_is_unspecified ip \<longleftrightarrow> ip = 0"

definition ipv6_is_multicast :: "u128 \<Rightarrow> bool" where
  "ipv6_is_multicast ip \<longleftrightarrow> segments ip ! 0 AND 0xff00 = 0xff00"

section \<open>The address parser\<close>

definition to_digit :: "nat \<Rightarrow> char \<Rightarrow> nat option" where
  "to_digit radix c =
     (let n = (of_char c :: nat);
          d = (if 48 \<le> n \<and> n \<le> 57 then n - 48
               else if 97 \<le> n \<and> n \<le> 122 then n - 87
               else if 65 \<le> n \<and> n \<le> 90 then n - 55 else 36)
      in if d < radix then Some d else None)"

text \<open>
  \<open>read_number\<close>: the longest run of digits, refused when it overflows the type, has more than
  \<open>max_digits\<close> digits, or (in decimal) starts with a superfluous zero. A reader returns the value and the rest.
\<close>

fun read_digits :: "nat \<Rightarrow> nat \<Rightarrow> nat \<Rightarrow> nat \<Rightarrow> nat \<Rightarrow> string \<Rightarrow> (nat \<times> nat \<times> string) option" where
  "read_digits radix bound max_digits acc count [] = Some (acc, count, [])"
| "read_digits radix bound max_digits acc count (c # cs) =
     (case to_digit radix c of
        None \<Rightarrow> Some (acc, count, c # cs)
      | Some d \<Rightarrow>
          if bound \<le> acc * radix + d \<or> max_digits \<le> count then None
          else read_digits radix bound max_digits (acc * radix + d) (count + 1) cs)"

definition read_number :: "nat \<Rightarrow> nat \<Rightarrow> nat \<Rightarrow> bool \<Rightarrow> string \<Rightarrow> (nat \<times> string) option" where
  "read_number radix bound max_digits allow_zero_prefix s =
     (case read_digits radix bound max_digits 0 0 s of
        None \<Rightarrow> None
      | Some (n, count, rest) \<Rightarrow>
          if count = 0 then None
          else if \<not> allow_zero_prefix \<and> starts_with s ''0'' \<and> 1 < count then None
          else Some (n, rest))"

definition read_given_char :: "char \<Rightarrow> string \<Rightarrow> string option" where
  "read_given_char c s = (case s of [] \<Rightarrow> None | x # xs \<Rightarrow> if x = c then Some xs else None)"

definition read_separator :: "char \<Rightarrow> nat \<Rightarrow> (string \<Rightarrow> ('a \<times> string) option) \<Rightarrow> string \<Rightarrow> ('a \<times> string) option" where
  "read_separator sep i inner s =
     (if 0 < i then Option.bind (read_given_char sep s) inner else inner s)"

fun read_octets :: "nat \<Rightarrow> nat \<Rightarrow> string \<Rightarrow> (u8 list \<times> string) option" where
  "read_octets i 0 s = Some ([], s)"
| "read_octets i (Suc n) s =
     (case read_separator CHR ''.'' i (read_number 10 256 3 False) s of
        None \<Rightarrow> None
      | Some (b, s) \<Rightarrow> map_option (\<lambda>(bs, rest). (word_of_nat b # bs, rest)) (read_octets (i + 1) n s))"

definition read_ipv4_addr :: "string \<Rightarrow> (u32 \<times> string) option" where
  "read_ipv4_addr s = map_option (\<lambda>(bs, rest). (from_octets bs, rest)) (read_octets 0 4 s)"

text \<open>\<open>read_groups\<close>: up to \<open>limit\<close> groups, the last two possibly an embedded IPv4 address.\<close>

function read_groups :: "nat \<Rightarrow> nat \<Rightarrow> string \<Rightarrow> u16 list \<times> bool \<times> string" where
  "read_groups limit i s =
     (if limit \<le> i then ([], False, s)
      else
        case (if i < limit - 1 then read_separator CHR '':'' i read_ipv4_addr s else None) of
          Some (v4, rest) \<Rightarrow> ([ucast (drop_bit 16 v4), ucast v4], True, rest)
        | None \<Rightarrow>
            (case read_separator CHR '':'' i (read_number 16 65536 4 True) s of
               None \<Rightarrow> ([], False, s)
             | Some (g, rest) \<Rightarrow>
                 let (gs, v4, rest) = read_groups limit (i + 1) rest in (word_of_nat g # gs, v4, rest)))"
  by pat_completeness auto
termination by (relation "measure (\<lambda>(limit, i, s). limit - i)") auto

definition read_ipv6_addr :: "string \<Rightarrow> (u128 \<times> string) option" where
  "read_ipv6_addr s =
     (let (head, head_ipv4, s) = read_groups 8 0 s in
      if length head = 8 then Some (from_segments head, s)
      else if head_ipv4 then None
      else
        case Option.bind (read_given_char CHR '':'' s) (read_given_char CHR '':'') of
          None \<Rightarrow> None
        | Some s \<Rightarrow>
            let (tail, _, s) = read_groups (8 - (length head + 1)) 0 s
            in Some (from_segments (head @ replicate (8 - length head - length tail) 0 @ tail), s))"

definition ip_from_str :: "string \<Rightarrow> ip_addr option" where
  "ip_from_str s =
     (case (case read_ipv4_addr s of
              Some (a, rest) \<Rightarrow> Some (V4 a, rest)
            | None \<Rightarrow> map_option (\<lambda>(a, rest). (V6 a, rest)) (read_ipv6_addr s)) of
        Some (ip, []) \<Rightarrow> Some ip
      | _ \<Rightarrow> None)"

declare read_groups.simps [simp del]

section \<open>Prefixes as intervals\<close>

text \<open>
  The octet view and the prefix test of an address, in terms of its numeric value: the source
  tests octets for some ranges and masked words for others.
\<close>

lemma octets_nth:
  "octets ip ! 0 = ucast (drop_bit 24 ip)" "octets ip ! Suc 0 = ucast (drop_bit 16 ip)"
  "octets ip ! 2 = ucast (drop_bit 8 ip)" "octets ip ! 3 = ucast ip"
  by (simp_all add: octets_def numeral_2_eq_2 numeral_3_eq_3)

lemma unat_drop_bit: "unat (drop_bit n w) = unat (w :: 'a::len word) div 2 ^ n"
  by (metis drop_bit_eq_div unat_drop_bit_eq)

lemma unat_octet: "unat (ucast (drop_bit n (ip :: u32)) :: u8) = unat ip div 2 ^ n mod 256"
  by (simp add: unsigned_ucast_eq take_bit_eq_mod unat_drop_bit)

lemma mask_eq_div:
  fixes a b :: "'a::len word"
  shows "a AND push_bit n (- 1) = b AND push_bit n (- 1) \<longleftrightarrow> unat a div 2 ^ n = unat b div 2 ^ n"
proof -
  have mask: "a AND push_bit n (- 1) = push_bit n (drop_bit n a)" for a :: "'a word"
    by (rule bit_word_eqI) (auto simp: bit_simps)
  have unmask: "drop_bit n (a AND push_bit n (- 1)) = drop_bit n a" for a :: "'a word"
    by (rule bit_word_eqI) (auto simp: bit_simps dest: bit_imp_le_length)
  have "a AND push_bit n (- 1) = b AND push_bit n (- 1) \<longleftrightarrow> drop_bit n a = drop_bit n b"
    using mask unmask by metis
  then show ?thesis by (simp add: unat_drop_bit [symmetric] word_unat_eq_iff)
qed

end
