(* ===== verification/Source_Url.thy ===== *)
theory Source_Url
  imports Net_Addr
begin

unbundle bit_operations_syntax

text \<open>
  The policy that keeps the gateway from being used to reach internal services
  (\<open>source_url.rs\<close>) and the client that carries it (\<open>http.rs\<close>): URL checks, the DNS resolver
  that validates every answer, the redirect policy and the operator's allowlist.

  The URL parser (crate \<open>url\<close>), the network parser (crate \<open>ipnet\<close>) and name lookup are parameters.
  A \<open>Url\<close> is seen through its accessors, an \<open>IpNet\<close> through its membership test.
\<close>

record url =
  url_as_str :: string
  url_scheme :: string
  url_username :: string
  url_password :: "string option"
  url_host_str :: "string option"
  url_port :: "u16 option"
  url_port_or_known_default :: "u16 option"
  url_path :: string
  url_query :: "string option"
  url_fragment :: "string option"

type_synonym url_parser = "string \<Rightarrow> url option"
type_synonym ip_net = "ip_addr \<Rightarrow> bool"
type_synonym net_parser = "string \<Rightarrow> ip_net option"
type_synonym socket_addr = "ip_addr \<times> u16 \<times> u32 \<times> u32"

definition MAX_REDIRECTS :: nat where
  "MAX_REDIRECTS = 5"

datatype source_url_policy_error =
  InvalidAllowlist | InvalidUrl | DisallowedTarget | DnsResolutionFailed | NoResolvedAddresses | RedirectBlocked

definition is_policy_violation :: "source_url_policy_error \<Rightarrow> bool" where
  "is_policy_violation e \<longleftrightarrow> e \<in> {DisallowedTarget, RedirectBlocked, InvalidUrl}"

fun policy_error_message :: "source_url_policy_error \<Rightarrow> string" where
  "policy_error_message InvalidAllowlist = ''source URL allowlist contains an invalid entry''"
| "policy_error_message InvalidUrl = ''source URL is invalid''"
| "policy_error_message DisallowedTarget = ''source URL target is blocked by server policy''"
| "policy_error_message DnsResolutionFailed = ''source URL DNS resolution failed''"
| "policy_error_message NoResolvedAddresses = ''source URL DNS resolution returned no addresses''"
| "policy_error_message RedirectBlocked = ''source URL redirect is blocked by server policy''"

record source_url_policy =
  sp_allowed_hosts :: "string list"
  sp_allowed_ips :: "ip_addr list"
  sp_allowed_networks :: "ip_net list"

definition policy_default :: source_url_policy where
  "policy_default = \<lparr>sp_allowed_hosts = [], sp_allowed_ips = [], sp_allowed_networks = []\<rparr>"

section \<open>Hosts and addresses\<close>

definition normalize_host :: "string \<Rightarrow> string" where
  "normalize_host host =
     (let host = trim_end_matches CHR ''.'' host
      in to_ascii_lowercase
           (case Option.bind (strip_prefix host ''['') (\<lambda>h. strip_suffix h '']'') of Some h \<Rightarrow> h | None \<Rightarrow> host))"

definition is_local_hostname :: "string \<Rightarrow> bool" where
  "is_local_hostname host \<longleftrightarrow>
     host = ''localhost'' \<or> ends_with host ''.localhost'' \<or> ends_with host ''.local'' \<or>
     ends_with host ''.internal'' \<or> ends_with host ''.home'' \<or> ends_with host ''.lan'' \<or> CHR ''.'' \<notin> set host"

definition is_metadata_hostname :: "string \<Rightarrow> bool" where
  "is_metadata_hostname host \<longleftrightarrow>
     host \<in> {''metadata.google.internal'', ''metadata.aws.internal'', ''instance-data.ec2.internal'',
             ''metadata.azure.internal''}"

definition mapped_ipv4 :: "u128 \<Rightarrow> u32 option" where
  "mapped_ipv4 ip =
     (let s = segments ip in
      if take 5 s = [0, 0, 0, 0, 0] \<and> s ! 5 = 0xffff
      then Some (from_octets [ucast (drop_bit 8 (s ! 6)), ucast (s ! 6), ucast (drop_bit 8 (s ! 7)), ucast (s ! 7)])
      else None)"

definition is_metadata_ipv4 :: "u32 \<Rightarrow> bool" where
  "is_metadata_ipv4 ip \<longleftrightarrow>
     octets ip \<in> {[169, 254, 169, 254], [169, 254, 170, 2], [169, 254, 170, 23], [100, 100, 100, 200]}"

definition is_metadata_ip :: "ip_addr \<Rightarrow> bool" where
  "is_metadata_ip ip =
     (case ip of
        V4 ip \<Rightarrow> is_metadata_ipv4 ip
      | V6 ip \<Rightarrow> segments ip = [0xfd00, 0x0ec2, 0, 0, 0, 0, 0, 0x0254] \<or>
                 (case mapped_ipv4 ip of Some v4 \<Rightarrow> is_metadata_ipv4 v4 | None \<Rightarrow> False))"

definition is_never_allowed_ipv4 :: "u32 \<Rightarrow> bool" where
  "is_never_allowed_ipv4 ip \<longleftrightarrow>
     is_metadata_ip (V4 ip) \<or> ipv4_is_unspecified ip \<or> ipv4_is_multicast ip \<or> ipv4_is_broadcast ip"

definition is_never_allowed_ip :: "ip_addr \<Rightarrow> bool" where
  "is_never_allowed_ip ip =
     (if is_metadata_ip ip then True
      else case ip of
             V4 ip \<Rightarrow> ipv4_is_unspecified ip \<or> ipv4_is_multicast ip \<or> ipv4_is_broadcast ip
           | V6 ip \<Rightarrow> ipv6_is_unspecified ip \<or> ipv6_is_multicast ip \<or>
                      (case mapped_ipv4 ip of Some v4 \<Rightarrow> is_never_allowed_ipv4 v4 | None \<Rightarrow> False))"

definition ipv4_in :: "u32 \<Rightarrow> u8 list \<Rightarrow> nat \<Rightarrow> bool" where
  "ipv4_in ip network bits =
     (let m = (if 32 - bits < 32 then push_bit (32 - bits) (- 1) else 0)
      in ip AND m = from_octets network AND m)"

definition ipv6_in :: "u128 \<Rightarrow> u16 list \<Rightarrow> nat \<Rightarrow> bool" where
  "ipv6_in ip network bits =
     (let m = (if 128 - bits < 128 then push_bit (128 - bits) (- 1) else 0)
      in ip AND m = from_segments network AND m)"

definition is_public_ipv4 :: "u32 \<Rightarrow> bool" where
  "is_public_ipv4 ip \<longleftrightarrow>
     \<not> (ipv4_is_unspecified ip \<or> ipv4_is_loopback ip \<or> ipv4_is_private ip \<or> ipv4_is_link_local ip \<or>
        ipv4_is_multicast ip \<or> ipv4_is_broadcast ip \<or> ipv4_is_documentation ip \<or>
        ipv4_in ip [0, 0, 0, 0] 8 \<or> ipv4_in ip [100, 64, 0, 0] 10 \<or> ipv4_in ip [192, 0, 0, 0] 24 \<or>
        ipv4_in ip [192, 88, 99, 0] 24 \<or> ipv4_in ip [198, 18, 0, 0] 15 \<or> ipv4_in ip [240, 0, 0, 0] 4)"

definition is_public_ipv6 :: "u128 \<Rightarrow> bool" where
  "is_public_ipv6 ip \<longleftrightarrow>
     ipv6_in ip [0x2000, 0, 0, 0, 0, 0, 0, 0] 3 \<and> \<not> ipv6_in ip [0x2001, 0, 0, 0, 0, 0, 0, 0] 23 \<and>
     \<not> ipv6_in ip [0x2001, 0x0db8, 0, 0, 0, 0, 0, 0] 32 \<and> \<not> ipv6_in ip [0x2002, 0, 0, 0, 0, 0, 0, 0] 16"

definition is_public_ip :: "ip_addr \<Rightarrow> bool" where
  "is_public_ip ip =
     (case ip of
        V4 ip \<Rightarrow> is_public_ipv4 ip
      | V6 ip \<Rightarrow> (case mapped_ipv4 ip of None \<Rightarrow> is_public_ipv6 ip | Some v4 \<Rightarrow> is_public_ipv4 v4))"

section \<open>The policy\<close>

definition ip_is_allowed :: "source_url_policy \<Rightarrow> ip_addr \<Rightarrow> bool \<Rightarrow> bool" where
  "ip_is_allowed pol ip host_is_allowed =
     (if is_never_allowed_ip ip then False
      else is_public_ip ip \<or> host_is_allowed \<or> ip \<in> set (sp_allowed_ips pol) \<or>
           list_ex (\<lambda>network. network ip) (sp_allowed_networks pol))"

definition validate_ip :: "source_url_policy \<Rightarrow> ip_addr \<Rightarrow> bool \<Rightarrow> (unit, source_url_policy_error) result" where
  "validate_ip pol ip host_is_allowed =
     (if ip_is_allowed pol ip host_is_allowed then Ok () else Err DisallowedTarget)"

definition validate_url_common :: "source_url_policy \<Rightarrow> url \<Rightarrow> (unit, source_url_policy_error) result" where
  "validate_url_common pol u =
     (if url_scheme u \<notin> {''http'', ''https''} \<or> url_username u \<noteq> [] \<or> url_password u \<noteq> None \<or> url_port u = Some 0
      then Err InvalidUrl
      else case url_host_str u of
             None \<Rightarrow> Err InvalidUrl
           | Some h \<Rightarrow>
               let host = normalize_host h in
               if is_metadata_hostname host then Err DisallowedTarget
               else case ip_from_str host of
                      Some ip \<Rightarrow> validate_ip pol ip False
                    | None \<Rightarrow> if is_local_hostname host \<and> host \<notin> set (sp_allowed_hosts pol)
                              then Err DisallowedTarget else Ok ())"

definition validate_request_url :: "source_url_policy \<Rightarrow> url \<Rightarrow> (unit, source_url_policy_error) result" where
  "validate_request_url pol u =
     and_then (validate_url_common pol u) (\<lambda>_. ensure (url_fragment u = None) InvalidUrl)"

definition validate_base_url :: "url_parser \<Rightarrow> source_url_policy \<Rightarrow> string \<Rightarrow> (url, source_url_policy_error) result" where
  "validate_base_url parse_url pol v =
     and_then (ok_or InvalidUrl (parse_url v)) (\<lambda>u.
     and_then (validate_url_common pol u) (\<lambda>_.
       if url_query u \<noteq> None \<or> url_fragment u \<noteq> None then Err InvalidUrl else Ok u))"

definition parse_request_url :: "url_parser \<Rightarrow> source_url_policy \<Rightarrow> string \<Rightarrow> (url, source_url_policy_error) result" where
  "parse_request_url parse_url pol v =
     and_then (ok_or InvalidUrl (parse_url v)) (\<lambda>u.
     and_then (validate_request_url pol u) (\<lambda>_. Ok u))"

definition validate_resolved_addresses ::
  "source_url_policy \<Rightarrow> string \<Rightarrow> socket_addr list \<Rightarrow> (unit, source_url_policy_error) result" where
  "validate_resolved_addresses pol host addresses =
     (if addresses = [] then Err NoResolvedAddresses
      else
        let host = normalize_host host in
        if is_metadata_hostname host then Err DisallowedTarget
        else
          let host_is_allowed = (host \<in> set (sp_allowed_hosts pol)) in
          if list_all (\<lambda>a. ip_is_allowed pol (fst a) host_is_allowed) addresses then Ok () else Err DisallowedTarget)"

text \<open>The resolver installed in the HTTP client: look up, sort, drop duplicates, validate every answer.\<close>

definition resolve ::
  "(string \<Rightarrow> socket_addr list option) \<Rightarrow> source_url_policy \<Rightarrow> string \<Rightarrow> (socket_addr list, source_url_policy_error) result" where
  "resolve lookup_host pol host =
     and_then (ok_or DnsResolutionFailed (lookup_host host)) (\<lambda>found.
       let addresses = remdups_adj (sort found)
       in and_then (validate_resolved_addresses pol host addresses) (\<lambda>_. Ok addresses))"

definition same_origin :: "url \<Rightarrow> url \<Rightarrow> bool" where
  "same_origin l r \<longleftrightarrow>
     url_scheme l = url_scheme r \<and> url_host_str l = url_host_str r \<and>
     url_port_or_known_default l = url_port_or_known_default r"

text \<open>A redirect attempt: the URLs already requested, the first of them first, and the next one.\<close>

definition redirect_policy :: "source_url_policy \<Rightarrow> url list \<Rightarrow> url \<Rightarrow> (unit, source_url_policy_error) result" where
  "redirect_policy pol previous next_url =
     (if MAX_REDIRECTS < length previous \<or> list_ex (\<lambda>u. url_as_str u = url_as_str next_url) previous \<or>
         (case previous of [] \<Rightarrow> True | initial # _ \<Rightarrow> \<not> same_origin initial next_url) \<or>
         \<not> is_ok (validate_request_url pol next_url)
      then Err RedirectBlocked else Ok ())"

section \<open>The allowlist\<close>

definition allow_host :: "url_parser \<Rightarrow> string \<Rightarrow> (string, source_url_policy_error) result" where
  "allow_host parse_url entry =
     and_then (ok_or InvalidAllowlist (parse_url (''http://'' @ entry @ ''/''))) (\<lambda>candidate.
     and_then (ok_or InvalidAllowlist (url_host_str candidate)) (\<lambda>host.
       if url_port candidate \<noteq> None \<or> url_username candidate \<noteq> [] \<or> url_password candidate \<noteq> None \<or>
          url_path candidate \<noteq> ''/'' \<or> url_query candidate \<noteq> None \<or> url_fragment candidate \<noteq> None \<or> CHR ''*'' \<in> set entry
       then Err InvalidAllowlist else Ok (normalize_host host)))"

definition allow_entry ::
  "url_parser \<Rightarrow> net_parser \<Rightarrow> string \<Rightarrow> source_url_policy \<Rightarrow> (source_url_policy, source_url_policy_error) result" where
  "allow_entry parse_url parse_net entry pol =
     (if CHR ''/'' \<in> set entry then
        and_then (ok_or InvalidAllowlist (parse_net entry)) (\<lambda>network.
          Ok (pol\<lparr>sp_allowed_networks := sp_allowed_networks pol @ [network]\<rparr>))
      else case ip_from_str entry of
             Some ip \<Rightarrow> Ok (pol\<lparr>sp_allowed_ips := List.insert ip (sp_allowed_ips pol)\<rparr>)
           | None \<Rightarrow> and_then (allow_host parse_url entry) (\<lambda>host.
               Ok (pol\<lparr>sp_allowed_hosts := List.insert host (sp_allowed_hosts pol)\<rparr>)))"

fun allow_entries ::
  "url_parser \<Rightarrow> net_parser \<Rightarrow> string list \<Rightarrow> source_url_policy \<Rightarrow> (source_url_policy, source_url_policy_error) result" where
  "allow_entries parse_url parse_net [] pol = Ok pol"
| "allow_entries parse_url parse_net (entry # rest) pol =
     and_then (allow_entry parse_url parse_net entry pol) (allow_entries parse_url parse_net rest)"

definition from_allowlist ::
  "url_parser \<Rightarrow> net_parser \<Rightarrow> string \<Rightarrow> (source_url_policy, source_url_policy_error) result" where
  "from_allowlist parse_url parse_net v =
     allow_entries parse_url parse_net (filter (\<lambda>e. e \<noteq> []) (map trim (split_on CHR '','' v))) policy_default"

datatype env_var = Present string | NotPresent | NotUnicode

definition policy_from_env ::
  "url_parser \<Rightarrow> net_parser \<Rightarrow> (string \<Rightarrow> env_var) \<Rightarrow> (source_url_policy, source_url_policy_error) result" where
  "policy_from_env parse_url parse_net env =
     (case env ''GATEWAY_SOURCE_URL_ALLOWLIST'' of
        Present v \<Rightarrow> from_allowlist parse_url parse_net v
      | NotPresent \<Rightarrow> Ok policy_default
      | NotUnicode \<Rightarrow> Err InvalidAllowlist)"

section \<open>The client\<close>

text \<open>
  \<open>SourceHttpClient::post\<close> refuses a URL before a request exists; errors of a request under way
  carry the policy error in their chain of sources.
\<close>

definition client_post :: "url_parser \<Rightarrow> source_url_policy \<Rightarrow> string \<Rightarrow> (url, source_url_policy_error) result" where
  "client_post parse_url pol v = parse_request_url parse_url pol v"

definition client_request :: "source_url_policy \<Rightarrow> url \<Rightarrow> (url, source_url_policy_error) result" where
  "client_request pol u = and_then (validate_request_url pol u) (\<lambda>_. Ok u)"

definition reqwest_error_is_policy_violation :: "source_url_policy_error option list \<Rightarrow> bool" where
  "reqwest_error_is_policy_violation chain =
     list_ex (\<lambda>e. case e of Some p \<Rightarrow> is_policy_violation p | None \<Rightarrow> False) chain"

section \<open>Address classes as ranges\<close>

lemma div_mod_256: "b < 256 \<Longrightarrow> (v div 256 = a \<and> v mod 256 = b) \<longleftrightarrow> v = a * 256 + (b :: nat)"
  by (metis div_mult_mod_eq div_mult_self3 div_less add.right_neutral mod_mult_self3 mod_less zero_neq_numeral add.commute)

lemma div_eq_interval: "0 < m \<Longrightarrow> u div m = k \<longleftrightarrow> k * m \<le> u \<and> u < (k + 1) * (m :: nat)"
  by (metis Suc_eq_plus1 div_nat_eqI div_times_less_eq_dividend dividend_less_div_times mult.commute mult_Suc)

lemma unat_u32: "unat (ip :: u32) < 4294967296"
  using unsigned_less [of ip, where 'a = nat] by simp

lemma unat_u8: "unat (b :: u8) < 256"
  using unsigned_less [of b, where 'a = nat] by simp

lemma unat_octet0: "unat (octets ip ! 0) = unat ip div 16777216"
  using unat_u32 [of ip] by (simp add: octets_nth unat_octet mod_less div_less)

lemma unat_octet_nth:
  "unat (octets ip ! Suc 0) = unat ip div 65536 mod 256" "unat (octets ip ! 2) = unat ip div 256 mod 256"
  "unat (octets ip ! 3) = unat ip mod 256"
  using unat_octet [of 0 ip] by (simp_all add: octets_nth unat_octet)

lemma octets01_eq: "octets ip ! 0 = a \<and> octets ip ! Suc 0 = b \<longleftrightarrow> unat ip div 65536 = unat a * 256 + unat b"
  using div_mod_256 [of "unat b" "unat ip div 65536" "unat a"] unat_u8 [of b]
  by (simp add: word_unat_eq_iff unat_octet0 unat_octet_nth div_mult2_eq [symmetric])

lemma take3_eq: "take 3 (octets ip) = [a, b, c] \<longleftrightarrow> unat ip div 256 = (unat a * 256 + unat b) * 256 + unat c"
proof -
  have "take 3 (octets ip) = [a, b, c] \<longleftrightarrow> (octets ip ! 0 = a \<and> octets ip ! Suc 0 = b) \<and> octets ip ! 2 = c"
    by (auto simp: octets_def numeral_3_eq_3 numeral_2_eq_2)
  also have "\<dots> \<longleftrightarrow> unat ip div 65536 = unat a * 256 + unat b \<and> unat ip div 256 mod 256 = unat c"
    unfolding octets01_eq by (simp add: word_unat_eq_iff unat_octet_nth)
  also have "\<dots> \<longleftrightarrow> unat ip div 256 = (unat a * 256 + unat b) * 256 + unat c"
    using div_mod_256 [of "unat c" "unat ip div 256" "unat a * 256 + unat b"] unat_u8 [of c]
    by (simp add: div_mult2_eq [symmetric])
  finally show ?thesis .
qed

lemma octets_eq: "octets ip = [a, b, c, d] \<longleftrightarrow> unat ip = ((unat a * 256 + unat b) * 256 + unat c) * 256 + unat d"
proof -
  have "octets ip = [a, b, c, d] \<longleftrightarrow> take 3 (octets ip) = [a, b, c] \<and> octets ip ! 3 = d"
    by (auto simp: octets_def numeral_3_eq_3 numeral_2_eq_2)
  also have "\<dots> \<longleftrightarrow> unat ip div 256 = (unat a * 256 + unat b) * 256 + unat c \<and> unat ip mod 256 = unat d"
    unfolding take3_eq by (simp add: word_unat_eq_iff unat_octet_nth)
  finally show ?thesis unfolding div_mod_256 [OF unat_u8] .
qed

lemma ipv4_in_div: "0 < bits \<Longrightarrow> ipv4_in ip net bits \<longleftrightarrow> unat ip div 2 ^ (32 - bits) = unat (from_octets net) div 2 ^ (32 - bits)"
  using mask_eq_div [of ip "32 - bits" "from_octets net"] by (simp add: ipv4_in_def)

lemma network_values:
  "unat (from_octets [0, 0, 0, 0]) = 0" "unat (from_octets [100, 64, 0, 0]) = 0x64400000" "unat (from_octets [192, 0, 0, 0]) = 0xC0000000"
  "unat (from_octets [192, 88, 99, 0]) = 0xC0586300" "unat (from_octets [198, 18, 0, 0]) = 0xC6120000" "unat (from_octets [240, 0, 0, 0]) = 0xF0000000"
  by (simp_all add: from_octets_def)

definition ipv4_special_ranges :: "(nat \<times> nat) list" where
  "ipv4_special_ranges =
     [(0x00000000, 0x01000000), (0x0A000000, 0x0B000000), (0x64400000, 0x64800000), (0x7F000000, 0x80000000),
      (0xA9FE0000, 0xA9FF0000), (0xAC100000, 0xAC200000), (0xC0000000, 0xC0000100), (0xC0000200, 0xC0000300),
      (0xC0586300, 0xC0586400), (0xC0A80000, 0xC0A90000), (0xC6120000, 0xC6140000), (0xC6336400, 0xC6336500),
      (0xCB007100, 0xCB007200), (0xE0000000, 0xF0000000), (0xF0000000, 0x100000000)]"

definition in_range :: "nat \<Rightarrow> (nat \<times> nat) list \<Rightarrow> bool" where
  "in_range n rs \<longleftrightarrow> list_ex (\<lambda>(lo, hi). lo \<le> n \<and> n < hi) rs"

lemma in_range_simps: "in_range n [] = False" "in_range n ((lo, hi) # rs) = (lo \<le> n \<and> n < hi \<or> in_range n rs)"
  by (simp_all add: in_range_def)

lemma octet0_class:
  "octets ip ! 0 = c \<longleftrightarrow> unat c * 16777216 \<le> unat ip \<and> unat ip < (unat c + 1) * 16777216"
  by (simp only: word_unat_eq_iff unat_octet0 div_eq_interval zero_less_numeral)

lemma octets01_class:
  "octets ip ! 0 = a \<and> octets ip ! Suc 0 = b \<longleftrightarrow>
   (unat a * 256 + unat b) * 65536 \<le> unat ip \<and> unat ip < (unat a * 256 + unat b + 1) * 65536"
  by (simp only: octets01_eq div_eq_interval zero_less_numeral)

lemma take3_class:
  "take 3 (octets ip) = [a, b, c] \<longleftrightarrow>
   ((unat a * 256 + unat b) * 256 + unat c) * 256 \<le> unat ip \<and> unat ip < ((unat a * 256 + unat b) * 256 + unat c + 1) * 256"
  by (simp only: take3_eq div_eq_interval zero_less_numeral)

lemma le_div_interval:
  assumes "0 < m"
  shows "k \<le> u div m \<longleftrightarrow> k * m \<le> (u :: nat)" "u div m \<le> k \<longleftrightarrow> u < (k + 1) * m"
  using less_eq_div_iff_mult_less_eq [OF assms] div_less_iff_less_mult [OF assms, of u "k + 1"]
  by (simp_all flip: less_Suc_eq_le)

lemma second_octet_range:
  "v div 256 = a \<and> b \<le> v mod 256 \<and> v mod 256 \<le> c \<longleftrightarrow> a * 256 + b \<le> v \<and> v \<le> a * 256 + (c :: nat)"
  if "b < 256" "c < 256"
proof
  have v: "v = v div 256 * 256 + v mod 256" by simp
  { assume "v div 256 = a \<and> b \<le> v mod 256 \<and> v mod 256 \<le> c"
    with v show "a * 256 + b \<le> v \<and> v \<le> a * 256 + c" by linarith }
  assume r: "a * 256 + b \<le> v \<and> v \<le> a * 256 + c"
  with that have "v div 256 = a" by (intro iffD2 [OF div_eq_interval]) auto
  with r v show "v div 256 = a \<and> b \<le> v mod 256 \<and> v mod 256 \<le> c" by linarith
qed

lemma private_ranges:
  "ipv4_is_private ip \<longleftrightarrow> in_range (unat ip) [(0x0A000000, 0x0B000000), (0xAC100000, 0xAC200000), (0xC0A80000, 0xC0A90000)]"
proof -
  have "octets ip ! 0 = 172 \<and> 16 \<le> octets ip ! Suc 0 \<and> octets ip ! Suc 0 \<le> 31 \<longleftrightarrow>
    0xAC100000 \<le> unat ip \<and> unat ip < 0xAC200000"
    using second_octet_range [of 16 31 "unat ip div 65536" 172]
    by (simp add: word_unat_eq_iff word_le_nat_alt unat_octet0 unat_octet_nth div_mult2_eq [symmetric] le_div_interval)
  then show ?thesis
    using octets01_class [of ip 192 168] octet0_class [of ip 10]
    by (simp add: ipv4_is_private_def in_range_simps)
qed

lemma in_networks:
  "ipv4_in ip [0, 0, 0, 0] 8 \<longleftrightarrow> unat ip < 0x01000000"
  "ipv4_in ip [100, 64, 0, 0] 10 \<longleftrightarrow> 0x64400000 \<le> unat ip \<and> unat ip < 0x64800000"
  "ipv4_in ip [192, 0, 0, 0] 24 \<longleftrightarrow> 0xC0000000 \<le> unat ip \<and> unat ip < 0xC0000100"
  "ipv4_in ip [192, 88, 99, 0] 24 \<longleftrightarrow> 0xC0586300 \<le> unat ip \<and> unat ip < 0xC0586400"
  "ipv4_in ip [198, 18, 0, 0] 15 \<longleftrightarrow> 0xC6120000 \<le> unat ip \<and> unat ip < 0xC6140000"
  "ipv4_in ip [240, 0, 0, 0] 4 \<longleftrightarrow> 0xF0000000 \<le> unat ip"
  using unat_u32 [of ip]
  by (simp_all add: ipv4_in_div network_values div_eq_interval)

lemma octet_classes:
  "ipv4_is_multicast ip \<longleftrightarrow> 0xE0000000 \<le> unat ip \<and> unat ip < 0xF0000000"
  "ipv4_is_loopback ip \<longleftrightarrow> 0x7F000000 \<le> unat ip \<and> unat ip < 0x80000000"
  "ipv4_is_link_local ip \<longleftrightarrow> 0xA9FE0000 \<le> unat ip \<and> unat ip < 0xA9FF0000"
  "ipv4_is_unspecified ip \<longleftrightarrow> unat ip = 0" "ipv4_is_broadcast ip \<longleftrightarrow> unat ip = 0xFFFFFFFF"
  using octet0_class [of ip 127] octets01_class [of ip 169 254] octets_eq [of ip 0 0 0 0] octets_eq [of ip 255 255 255 255]
  by (simp_all add: ipv4_is_multicast_def word_le_nat_alt unat_octet0 le_div_interval
        ipv4_is_loopback_def ipv4_is_link_local_def ipv4_is_unspecified_def ipv4_is_broadcast_def)

lemma documentation_ranges:
  "ipv4_is_documentation ip \<longleftrightarrow>
     in_range (unat ip) [(0xC0000200, 0xC0000300), (0xC6336400, 0xC6336500), (0xCB007100, 0xCB007200)]"
  unfolding ipv4_is_documentation_def insert_iff empty_iff take3_class by (simp add: in_range_simps)

definition covers :: "(nat \<times> nat) list \<Rightarrow> (nat \<times> nat) list \<Rightarrow> bool" where
  "covers rs' rs = list_all (\<lambda>(lo, hi). list_ex (\<lambda>(lo', hi'). lo' \<le> lo \<and> hi \<le> hi') rs') rs"

lemma in_range_covers:
  assumes "covers rs' rs" "in_range n rs"
  shows "in_range n rs'"
proof -
  from assms(2) obtain lo hi where "(lo, hi) \<in> set rs" "lo \<le> n" "n < hi" by (auto simp: in_range_def list_ex_iff)
  moreover from this(1) assms(1) obtain lo' hi' where "(lo', hi') \<in> set rs'" "lo' \<le> lo" "hi \<le> hi'"
    by (fastforce simp: covers_def list_all_iff list_ex_iff)
  ultimately have "(lo', hi') \<in> set rs'" "lo' \<le> n" "n < hi'" by linarith+
  then show ?thesis by (auto simp: in_range_def list_ex_iff)
qed

text \<open>
  Which IPv4 addresses count as public. The tests of the source, some on octets, some on
  masked words, together accept exactly the addresses outside the special-purpose blocks: this
  network, private, shared, loopback, link-local, protocol assignments, documentation, 6to4 relay,
  benchmarking, multicast and reserved.
\<close>

theorem public_ipv4_ranges: "is_public_ipv4 ip \<longleftrightarrow> \<not> in_range (unat ip) ipv4_special_ranges"
proof -
  define tested :: "(nat \<times> nat) list" where
    "tested = [(0, 1), (0x7F000000, 0x80000000), (0x0A000000, 0x0B000000), (0xAC100000, 0xAC200000), (0xC0A80000, 0xC0A90000),
       (0xA9FE0000, 0xA9FF0000), (0xE0000000, 0xF0000000), (0xFFFFFFFF, 0x100000000),
       (0xC0000200, 0xC0000300), (0xC6336400, 0xC6336500), (0xCB007100, 0xCB007200),
       (0, 0x01000000), (0x64400000, 0x64800000), (0xC0000000, 0xC0000100), (0xC0586300, 0xC0586400),
       (0xC6120000, 0xC6140000), (0xF0000000, 0x100000000)]"
  have ends: "0 \<le> unat ip \<and> unat ip < 1 \<longleftrightarrow> unat ip = 0"
    "0xFFFFFFFF \<le> unat ip \<and> unat ip < 0x100000000 \<longleftrightarrow> unat ip = 0xFFFFFFFF"
    "0 \<le> unat ip \<and> unat ip < 0x01000000 \<longleftrightarrow> unat ip < 0x01000000"
    "0xF0000000 \<le> unat ip \<and> unat ip < 0x100000000 \<longleftrightarrow> 0xF0000000 \<le> unat ip" using unat_u32 [of ip] by auto
  have "is_public_ipv4 ip \<longleftrightarrow> \<not> in_range (unat ip) tested"
    unfolding is_public_ipv4_def private_ranges documentation_ranges octet_classes in_networks tested_def in_range_simps ends
    by (simp only: disj_assoc simp_thms)
  moreover have "covers ipv4_special_ranges tested" "covers tested ipv4_special_ranges"
    by (simp_all add: covers_def tested_def ipv4_special_ranges_def)
  ultimately show ?thesis using in_range_covers by blast
qed

section \<open>What the client may contact\<close>

text \<open>
  The addresses the client can connect to for a URL it accepts: the literal address of the
  URL, or what the policy's resolver lets through.
\<close>

definition contacted :: "(string \<Rightarrow> socket_addr list option) \<Rightarrow> source_url_policy \<Rightarrow> url \<Rightarrow> ip_addr list" where
  "contacted lookup_host pol u =
     (case (validate_request_url pol u, url_host_str u) of
        (Inr _, Some h) \<Rightarrow>
          (case ip_from_str (normalize_host h) of
             Some ip \<Rightarrow> [ip]
           | None \<Rightarrow> (case resolve lookup_host pol h of Inr addresses \<Rightarrow> map fst addresses | Inl _ \<Rightarrow> []))
      | _ \<Rightarrow> [])"

definition operator_allows :: "source_url_policy \<Rightarrow> string \<Rightarrow> ip_addr \<Rightarrow> bool" where
  "operator_allows pol host ip \<longleftrightarrow>
     normalize_host host \<in> set (sp_allowed_hosts pol) \<or> ip \<in> set (sp_allowed_ips pol) \<or>
     list_ex (\<lambda>network. network ip) (sp_allowed_networks pol)"

lemma resolve_Ok:
  assumes "resolve lookup_host pol host = Ok addresses"
  shows "addresses \<noteq> [] \<and> \<not> is_metadata_hostname (normalize_host host) \<and>
    (\<forall>a \<in> set addresses. ip_is_allowed pol (fst a) (normalize_host host \<in> set (sp_allowed_hosts pol)))"
  using assms
  by (auto simp: resolve_def and_then_Ok Let_def validate_resolved_addresses_def list_all_iff split: if_splits)

lemma validate_url_common_literal:
  assumes "validate_url_common pol u = Ok ()" "url_host_str u = Some h" "ip_from_str (normalize_host h) = Some ip"
  shows "ip_is_allowed pol ip False"
  using assms by (auto simp: validate_url_common_def Let_def validate_ip_def split: if_splits)

text \<open>IPv4 addresses written as IPv6 addresses are no way around the checks.\<close>

definition to_ipv6_mapped :: "u32 \<Rightarrow> u128" where
  "to_ipv6_mapped ip = push_bit 32 (mask 16) OR ucast ip"

lemma mapped_ipv4_to_ipv6_mapped [simp]: "mapped_ipv4 (to_ipv6_mapped ip) = Some ip"
proof -
  let ?m = "to_ipv6_mapped ip"
  have seg: "segments ?m = [0, 0, 0, 0, 0, mask 16, ucast (drop_bit 16 ip), ucast ip]"
    unfolding segments_def to_ipv6_mapped_def
    by (simp add: upt_rec; intro conjI; rule bit_word_eqI; auto simp: bit_simps dest: bit_imp_le_length)
  have "from_octets [ucast (drop_bit 8 (ucast (drop_bit 16 ip) :: u16)), ucast (ucast (drop_bit 16 ip) :: u16),
      ucast (drop_bit 8 (ucast ip :: u16)), ucast (ucast ip :: u16)] = ip"
    by (rule bit_word_eqI) (auto simp: from_octets_def bit_simps)
  with seg show ?thesis by (simp add: mapped_ipv4_def mask_eq_exp_minus_1)
qed

lemma mapped_same_class:
  "is_public_ip (V6 (to_ipv6_mapped ip)) \<longleftrightarrow> is_public_ip (V4 ip)"
  "is_never_allowed_ip (V4 ip) \<Longrightarrow> is_never_allowed_ip (V6 (to_ipv6_mapped ip))"
  by (auto simp: is_public_ip_def is_never_allowed_ip_def is_never_allowed_ipv4_def is_metadata_ip_def split: if_splits)

text \<open>The metadata services of the large clouds and of container runtimes, in every notation.\<close>

definition metadata_endpoints :: "ip_addr set" where
  "metadata_endpoints =
     (let v4 = {0xA9FEA9FE, 0xA9FEAA02, 0xA9FEAA17, 0x646464C8}
      in V4 ` v4 \<union> V6 ` to_ipv6_mapped ` v4 \<union> {V6 0xFD000EC2000000000000000000000254})"

lemma metadata_never_allowed: "ip \<in> metadata_endpoints \<Longrightarrow> is_never_allowed_ip ip"
proof -
  have "is_never_allowed_ip (V4 a)" if "a \<in> {0xA9FEA9FE, 0xA9FEAA02, 0xA9FEAA17, 0x646464C8}" for a
    using that unfolding is_never_allowed_ip_def is_metadata_ip_def is_metadata_ipv4_def octets_eq insert_iff empty_iff
    by (elim disjE) simp_all
  moreover have "is_never_allowed_ip (V6 0xFD000EC2000000000000000000000254)"
    by (simp add: is_never_allowed_ip_def is_metadata_ip_def segments_def upt_rec)
  moreover assume "ip \<in> metadata_endpoints"
  ultimately show ?thesis using mapped_same_class(2) unfolding metadata_endpoints_def Let_def by blast
qed

text \<open>
  C20: internal services are out of reach. Whatever URL is configured, whatever the name service
  answers and whatever the operator's allowlist says, an address the client contacts is never a cloud
  metadata service (in any notation), nor an unspecified, multicast or broadcast address; and it is
  public unless the operator allowed its host, the address itself or a network it lies in.
\<close>

theorem contacted_allowed:
  assumes "ip \<in> set (contacted lookup_host pol u)"
  shows "ip \<notin> metadata_endpoints \<and> \<not> is_never_allowed_ip ip \<and> (is_public_ip ip \<or> (\<exists>h. url_host_str u = Some h \<and> operator_allows pol h ip))"
proof -
  from assms obtain h where h: "url_host_str u = Some h" and ok: "validate_request_url pol u = Ok ()"
    by (cases "url_host_str u"; cases "validate_request_url pol u") (simp_all add: contacted_def)
  from ok have common: "validate_url_common pol u = Ok ()" by (auto simp: validate_request_url_def and_then_Ok)
  have "\<exists>b. ip_is_allowed pol ip b \<and> (b \<longrightarrow> normalize_host h \<in> set (sp_allowed_hosts pol))"
  proof (cases "ip_from_str (normalize_host h)")
    case (Some ip')
    with validate_url_common_literal [OF common h] assms h ok show ?thesis by (auto simp: contacted_def)
  next
    case None
    with assms h ok obtain addresses where "resolve lookup_host pol h = Ok addresses" "ip \<in> fst ` set addresses"
      by (cases "resolve lookup_host pol h") (auto simp: contacted_def)
    with resolve_Ok show ?thesis by blast
  qed
  with h metadata_never_allowed [of ip] show ?thesis
    by (auto simp: ip_is_allowed_def operator_allows_def split: if_splits)
qed

definition sample_url :: "string \<Rightarrow> url" where
  "sample_url host =
     \<lparr>url_as_str = ''https://'' @ host @ ''/v1'', url_scheme = ''https'', url_username = [], url_password = None,
      url_host_str = Some host, url_port = None, url_port_or_known_default = Some 443, url_path = ''/v1'',
      url_query = None, url_fragment = None\<rparr>"

lemma sample_host: "normalize_host ''x.org'' = ''x.org''"
  by code_simp

lemma sample_url_literal: "ip_from_str (normalize_host ''x.org'') = None"
proof -
  have digits: "read_number radix bound n b ''x.org'' = None" if "radix \<le> 16" for radix bound n b
    using that by (simp add: read_number_def to_digit_def)
  have "read_octets 0 (Suc 3) ''x.org'' = None" by (subst read_octets.simps) (simp add: read_separator_def digits)
  then have v4: "read_ipv4_addr ''x.org'' = None" by (simp add: read_ipv4_addr_def)
  then have "read_groups 8 0 ''x.org'' = ([], False, ''x.org'')"
    by (subst read_groups.simps) (simp add: read_separator_def digits)
  with v4 show ?thesis by (simp add: sample_host ip_from_str_def read_ipv6_addr_def read_given_char_def)
qed

lemma sample_url_valid:
  assumes "url_scheme u = ''https''" "url_username u = []" "url_password u = None" "url_host_str u = Some ''x.org''"
    "url_port u = None" "url_fragment u = None"
  shows "validate_request_url policy_default u = Ok ()"
proof -
  have "\<not> is_metadata_hostname (normalize_host ''x.org'')" "\<not> is_local_hostname (normalize_host ''x.org'')" by code_simp+
  with sample_url_literal assms show ?thesis by (simp add: validate_request_url_def validate_url_common_def Let_def)
qed

theorem contacted_allowed_witness:
  "is_public_ip (V4 0x08080808)"
proof -
  have "ip_is_allowed policy_default (V4 0x08080808) False"
    by (simp add: ip_is_allowed_def is_never_allowed_ip_def is_metadata_ip_def is_metadata_ipv4_def is_public_ip_def
        is_public_ipv4_def octet_classes private_ranges documentation_ranges in_networks in_range_simps octets_eq)
  then have "V4 0x08080808 \<in> set (contacted (\<lambda>_. Some [(V4 0x08080808, 0, 0, 0)]) policy_default (sample_url ''x.org''))"
    using sample_url_literal sample_url_valid [of "sample_url ''x.org''"]
    by (simp add: contacted_def sample_url_def resolve_def validate_resolved_addresses_def policy_default_def Let_def
        is_metadata_hostname_def sample_host)
  from contacted_allowed [OF this] show ?thesis by (simp add: operator_allows_def policy_default_def)
qed

section \<open>Redirects\<close>

text \<open>
  The URLs one call requests: the first is checked by the client, each further one is a redirect
  that the policy followed.
\<close>

definition redirect_chain :: "source_url_policy \<Rightarrow> url list \<Rightarrow> bool" where
  "redirect_chain pol us \<longleftrightarrow>
     us \<noteq> [] \<and> client_request pol (hd us) = Ok (hd us) \<and>
     (\<forall>k \<in> {1..<length us}. redirect_policy pol (take k us) (us ! k) = Ok ())"

lemma redirect_policy_Ok:
  assumes "redirect_policy pol previous u = Ok ()"
  shows "length previous \<le> MAX_REDIRECTS \<and> url_as_str u \<notin> url_as_str ` set previous \<and>
    same_origin (hd previous) u \<and> is_ok (validate_request_url pol u)"
  using assms by (cases previous) (auto simp: redirect_policy_def list_ex_iff image_iff split: if_splits)

lemma redirect_chain_snoc:
  assumes "redirect_chain pol (us @ [u])" "us \<noteq> []"
  shows "redirect_chain pol us \<and> redirect_policy pol us u = Ok ()"
proof -
  have "redirect_policy pol (take k (us @ [u])) ((us @ [u]) ! k) = Ok ()" if "k \<in> {1..length us}" for k
    using assms(1) that by (auto simp: redirect_chain_def)
  from this [of "length us"] this assms show ?thesis
    by (force simp: redirect_chain_def nth_append Suc_le_eq)
qed

text \<open>
  Redirects are confined. One call requests at most six URLs, no URL twice, all with the
  scheme, host and port of the first, and every one of them passes the same checks as the first.
\<close>

theorem redirects_confined:
  assumes "redirect_chain pol us"
  shows "length us \<le> MAX_REDIRECTS + 1 \<and> distinct (map url_as_str us) \<and>
    (\<forall>u \<in> set us. same_origin (hd us) u \<and> is_ok (validate_request_url pol u))"
  using assms
proof (induction us rule: rev_induct)
  case (snoc u us)
  show ?case
  proof (cases "us = []")
    case True
    with snoc.prems show ?thesis
      by (auto simp: redirect_chain_def client_request_def and_then_Ok MAX_REDIRECTS_def same_origin_def)
  next
    case False
    with redirect_chain_snoc [OF snoc.prems] snoc.IH redirect_policy_Ok [of pol us u] show ?thesis by auto
  qed
qed (simp add: redirect_chain_def)

theorem redirects_confined_witness:
  "same_origin (sample_url ''x.org'') (sample_url ''x.org''\<lparr>url_as_str := ''https://x.org/v2''\<rparr>)"
proof -
  let ?a = "sample_url ''x.org''" and ?b = "sample_url ''x.org''\<lparr>url_as_str := ''https://x.org/v2''\<rparr>"
  have "validate_request_url policy_default ?a = Ok ()" "validate_request_url policy_default ?b = Ok ()"
    by (simp_all add: sample_url_valid sample_url_def)
  then have "client_request policy_default ?a = Ok ?a" "redirect_policy policy_default [?a] ?b = Ok ()"
    by (simp_all add: client_request_def redirect_policy_def MAX_REDIRECTS_def same_origin_def sample_url_def)
  then have "redirect_chain policy_default [?a, ?b]" by (simp add: redirect_chain_def)
  from redirects_confined [OF this] show ?thesis by simp
qed

end
