(* ===== verification/Gateway_World.thy ===== *)
theory Gateway_World
  imports Infra_Health Infra_Db_Usage Auth Infra_Secrets Proxy_Native Source_Url
begin

text \<open>
  What a request handler sees of the outside: the shared state it reads and writes between its
  awaits, and the third-party operations it calls.

  The world holds the health registry, the usage and key tables, both clocks and the records
  handed to metrics and system events. Other requests run between the awaits of a handler: \<open>pl_tick\<close>
  stands for everything they do and is applied before each read of shared state, so a statement
  that holds for every platform holds under every such interference. The field \<open>w_outside\<close> is state of the
  environment itself (the network, a random source), of any type.
\<close>

datatype metric =
    MAttempt protocol string string int bool
  | MCooldown string string
  | MProxyRequest protocol string nat bool
  | MStreamStart
  | MStreamEnd
  | MTtft protocol string nat
  | MTokens string string nat

record system_event =
  se_category :: string
  se_event_type :: string
  se_severity :: string
  se_subject :: string
  se_message :: string
  se_subject_id :: string
  se_correlation_id :: string
  se_details :: json

record 'w world =
  w_health :: health_registry
  w_read_ok :: bool
  w_fault :: db_fault
  w_usage :: usage_db
  w_keys :: key_db
  w_now :: date_time
  w_instant :: nat
  w_metrics :: "metric list"
  w_events :: "system_event list"
  w_outside :: 'w

record http_request =
  rq_url :: string
  rq_headers :: header_map
  rq_body :: string

text \<open>An error of the HTTP client: the policy errors in its chain of sources, and whether it is a timeout.\<close>

record reqwest_error =
  rq_sources :: "source_url_policy_error option list"
  rq_timeout :: bool

text \<open>
  An upstream response: status, headers, the live stream, and how long reading the whole body
  takes with its outcome. A \<open>send\<close> likewise takes some time and has an outcome; a call that the
  peer never answers is one that takes longer than every deadline.
\<close>

record 'b upstream =
  up_status :: nat
  up_headers :: header_map
  up_stream :: 'b
  up_read_time :: duration
  up_read :: "(string, reqwest_error) result"

text \<open>The immutable parts of the process: whether it has a database, its environment, its libraries.\<close>

record ('w, 'b) platform =
  pl_has_db :: bool
  pl_env :: env
  pl_digest :: "string \<Rightarrow> string"
  pl_tick :: "'w world \<Rightarrow> 'w world"
  pl_send :: "http_request \<Rightarrow> 'w world \<Rightarrow> duration \<times> ('b upstream, reqwest_error) result \<times> 'w"
  pl_parse_url :: url_parser
  pl_policy :: source_url_policy
  pl_crypto :: crypto
  pl_secrets :: secret_resolver
  pl_parse :: json_parser
  pl_print :: json_printer
  pl_tokenize :: "string \<Rightarrow> nat"
  pl_from_std :: "duration \<Rightarrow> int option"
  pl_rfc2822 :: "string \<Rightarrow> date_time option"

definition advance :: "duration \<Rightarrow> 'w world \<Rightarrow> 'w world" where
  "advance d w = w\<lparr>w_instant := w_instant w + d, w_now := w_now w + int d\<rparr>"

text \<open>
  \<open>tokio::time::timeout\<close> of an operation that takes \<open>t\<close>: its value when it is ready by the limit.
\<close>

definition await_within :: "duration option \<Rightarrow> duration \<Rightarrow> 'a \<Rightarrow> 'w world \<Rightarrow> 'a option \<times> 'w world" where
  "await_within limit t x w =
     (case limit of
        None \<Rightarrow> (Some x, advance t w)
      | Some d \<Rightarrow> if t \<le> d then (Some x, advance t w) else (None, advance d w))"

definition emit_metric :: "metric \<Rightarrow> 'w world \<Rightarrow> 'w world" where
  "emit_metric m w = w\<lparr>w_metrics := w_metrics w @ [m]\<rparr>"

definition emit_event :: "system_event \<Rightarrow> 'w world \<Rightarrow> 'w world" where
  "emit_event e w = w\<lparr>w_events := w_events w @ [e]\<rparr>"

text \<open>The registry operations on the shared state, each after an interference step.\<close>

definition read_health :: "('w, 'b) platform \<Rightarrow> string \<Rightarrow> 'w world \<Rightarrow> Infra_Health.account_health \<times> 'w world" where
  "read_health pl aid w =
     (let w = pl_tick pl w in (get_health (pl_from_std pl) (w_read_ok w) (w_now w) aid (w_health w), w))"

definition read_available :: "('w, 'b) platform \<Rightarrow> string \<Rightarrow> 'w world \<Rightarrow> bool \<times> 'w world" where
  "read_available pl aid w =
     (let w = pl_tick pl w in (is_available (pl_from_std pl) (w_read_ok w) (w_now w) aid (w_health w), w))"

definition write_failure ::
  "('w, 'b) platform \<Rightarrow> string \<Rightarrow> string \<Rightarrow> string \<Rightarrow> 'w world \<Rightarrow> bool \<times> 'w world" where
  "write_failure pl aid code message w =
     (let w = pl_tick pl w;
          (g, started) = mark_failure_with_details (pl_from_std pl) (w_fault w) (w_now w) aid ''passive''
                           (Some code) (Some message) (w_health w)
      in (started, w\<lparr>w_health := g\<rparr>))"

definition write_success :: "('w, 'b) platform \<Rightarrow> string \<Rightarrow> 'w world \<Rightarrow> 'w world" where
  "write_success pl aid w =
     (let w = pl_tick pl w in w\<lparr>w_health := mark_success (w_fault w) (w_now w) aid (w_health w)\<rparr>)"

lemma advance_simps [simp]:
  "w_instant (advance d w) = w_instant w + d" "w_health (advance d w) = w_health w"
  "w_metrics (advance d w) = w_metrics w" "w_events (advance d w) = w_events w"
  by (simp_all add: advance_def)

lemma await_within_cases:
  "await_within limit t x w =
     (if (case limit of None \<Rightarrow> True | Some d \<Rightarrow> t \<le> d) then (Some x, advance t w)
      else (None, advance (case limit of Some d \<Rightarrow> d | None \<Rightarrow> 0) w))"
  by (simp add: await_within_def split: option.split)

section \<open>Sample environment\<close>

text \<open>A platform whose sends answer by a given function, for examples.\<close>

definition sample_platform :: "(http_request \<Rightarrow> duration \<times> (unit upstream, reqwest_error) result) \<Rightarrow> (unit, unit) platform" where
  "sample_platform f =
     \<lparr>pl_has_db = True, pl_env = (\<lambda>_. None), pl_digest = (\<lambda>k. k), pl_tick = (\<lambda>w. w), pl_send = (\<lambda>r w. (fst (f r), snd (f r), ())), pl_parse_url = (\<lambda>_. Some (sample_url ''x.org'')),
      pl_policy = policy_default,
      pl_crypto = toy_crypto, pl_secrets = toy_resolver, pl_parse = (\<lambda>_. None), pl_print = (\<lambda>_. []), pl_tokenize = length,
      pl_from_std = (\<lambda>d. Some (int d)), pl_rfc2822 = (\<lambda>_. None)\<rparr>"

lemma sample_client_post [simp]:
  "client_post (\<lambda>_. Some (sample_url ''x.org'')) policy_default s = Ok (sample_url ''x.org'')"
  using sample_url_valid [of "sample_url ''x.org''"] by (simp add: client_post_def parse_request_url_def sample_url_def)

definition sample_upstream :: "nat \<Rightarrow> unit upstream" where
  "sample_upstream status =
     \<lparr>up_status = status, up_headers = [], up_stream = (), up_read_time = 0, up_read = Ok []\<rparr>"

definition sample_world :: "unit world" where
  "sample_world =
     \<lparr>w_health = with_config_and_clock health_config_default, w_read_ok = True, w_fault = NoFault,
      w_usage = \<lparr>ud_events = [], ud_attempts = []\<rparr>,
      w_keys = \<lparr>kd_keys = [], kd_next_id = 1\<rparr>, w_now = 0, w_instant = 0, w_metrics = [], w_events = [],
      w_outside = ()\<rparr>"

definition sample_account :: "string \<Rightarrow> account_config" where
  "sample_account aid =
     \<lparr>ac_id = aid, ac_provider_id = ''p'', ac_display_name = aid, ac_credential_env = None,
      ac_credential_ciphertext = None, ac_credential = Some ''k'', ac_enabled = True, ac_weight = 1,
      ac_protocol_capabilities = [], ac_capabilities = None, ac_model_overrides = [], ac_model_map = []\<rparr>"

end
