(* ===== verification/Proxy_Transport.thy ===== *)
theory Proxy_Transport
  imports Gateway_World
begin

text \<open>
  \<open>src/proxy/transport.rs\<close>: one request to an upstream. The body is rewritten for the chosen
  model, the headers are filtered and credentialed, the send and a buffered read are bounded by
  the configured timeouts, and the response headers are copied back.
\<close>

section \<open>Errors\<close>

datatype transport_error = MissingEndpoint | SourceUrlBlocked | RequestFailed | Timeout stream_termination

fun transport_message :: "transport_error \<Rightarrow> string" where
  "transport_message MissingEndpoint = ''provider endpoint is not configured''"
| "transport_message SourceUrlBlocked = ''upstream source URL is blocked by server policy''"
| "transport_message RequestFailed = ''upstream request failed''"
| "transport_message (Timeout t) = termination_message t"

fun transport_status_code :: "transport_error \<Rightarrow> int" where
  "transport_status_code (Timeout t) = termination_status t"
| "transport_status_code _ = 599"

definition map_reqwest_error :: "reqwest_error \<Rightarrow> transport_error" where
  "map_reqwest_error e =
     (if reqwest_error_is_policy_violation (rq_sources e) then SourceUrlBlocked
      else if rq_timeout e then Timeout ConnectionTimeout
      else RequestFailed)"

section \<open>The body for one attempt\<close>

record prepared_model_request =
  pm_body :: string
  pm_upstream_model_id :: string

definition prepare_model_request ::
  "json_parser \<Rightarrow> json_printer \<Rightarrow> string \<Rightarrow> string \<Rightarrow> string \<Rightarrow> prepared_model_request" where
  "prepare_model_request parse print body requested_model upstream_model_id =
     (let unchanged = \<lparr>pm_body = body, pm_upstream_model_id = requested_model\<rparr> in
      if upstream_model_id = requested_model then unchanged
      else case parse body of
             None \<Rightarrow> unchanged
           | Some payload \<Rightarrow>
               (case json_as_object payload of
                  None \<Rightarrow> unchanged
                | Some obj \<Rightarrow>
                    \<lparr>pm_body = print (JObject (binsert ''model'' (JString upstream_model_id) obj)),
                     pm_upstream_model_id = upstream_model_id\<rparr>))"

section \<open>Deadlines\<close>

definition request_deadline :: "nat \<Rightarrow> stream_config \<Rightarrow> nat option" where
  "request_deadline request_started config =
     (if sc_total_timeout config = 0 then None
      else instant_checked_add request_started (sc_total_timeout config))"

definition earliest_send_timeout ::
  "nat \<Rightarrow> nat \<Rightarrow> stream_config \<Rightarrow> (duration \<times> stream_termination) option" where
  "earliest_send_timeout now request_started config =
     (let total = (if sc_total_timeout config = 0 then None
                   else instant_checked_add request_started (sc_total_timeout config));
          connection = (if sc_connection_timeout config = 0 then None
                        else instant_checked_add now (sc_connection_timeout config))
      in case (total, connection) of
           (None, None) \<Rightarrow> None
         | (Some d, None) \<Rightarrow> Some (d - now, TotalTimeout)
         | (None, Some d) \<Rightarrow> Some (d - now, ConnectionTimeout)
         | (Some td, Some cd) \<Rightarrow>
             if td \<le> cd then Some (td - now, TotalTimeout) else Some (cd - now, ConnectionTimeout))"

section \<open>Headers\<close>

definition withheld_request_headers :: "string list" where
  "withheld_request_headers = [''host'', ''content-length'', ''authorization'', ''x-api-key'', ''accept-encoding'']"

definition withheld_response_headers :: "string list" where
  "withheld_response_headers = [''connection'', ''keep-alive'', ''transfer-encoding'', ''content-length'']"

definition upstream_request_headers ::
  "protocol \<Rightarrow> account_config \<Rightarrow> string option \<Rightarrow> header_map \<Rightarrow> header_map" where
  "upstream_request_headers protocol acct credential headers =
     filter (\<lambda>(name, _). name \<notin> set withheld_request_headers) headers @
     (case or_else credential (ac_credential acct) of
        None \<Rightarrow> []
      | Some c \<Rightarrow> if protocol = AnthropicMessages then [(''x-api-key'', c)]
                  else [(''authorization'', ''Bearer '' @ c)])"

text \<open>Each copied header is \<open>insert\<close>ed, which replaces an earlier value of the same name.\<close>

definition copy_response_headers :: "header_map \<Rightarrow> header_map" where
  "copy_response_headers headers =
     fold (\<lambda>(name, v) h. if name \<in> set withheld_response_headers then h else hinsert name v h) headers []"

section \<open>Forwarding\<close>

definition wants_stream :: "json_parser \<Rightarrow> string \<Rightarrow> bool" where
  "wants_stream parse body =
     unwrap_or False (Option.bind (parse body) (\<lambda>v. Option.bind (json_get v ''stream'') json_as_bool))"

definition status_from_u16 :: "nat \<Rightarrow> nat" where
  "status_from_u16 n = (if 100 \<le> n \<and> n < 1000 then n else 502)"

type_synonym 'b live = "native_state \<times> 'b"

definition receive_buffered ::
  "('w, 'b) platform \<Rightarrow> string \<Rightarrow> stream_config \<Rightarrow> nat \<Rightarrow> 'b upstream \<Rightarrow> 'w world
   \<Rightarrow> ('b live response, transport_error) result \<times> 'w world" where
  "receive_buffered pl request_payload config request_started up w =
     (let limit = map_option (\<lambda>d. d - w_instant w) (request_deadline request_started config);
          (read, w) = await_within limit (up_read_time up) (up_read up) w
      in case read of
           None \<Rightarrow> (Err (Timeout TotalTimeout), w)
         | Some (Inl e) \<Rightarrow> (Err (map_reqwest_error e), w)
         | Some (Inr bytes) \<Rightarrow>
             let status = status_from_u16 (up_status up);
                 (report, identity) = observe_json_response (pl_parse pl) (pl_tokenize pl) (is_success status)
                                        request_payload bytes
             in (Ok \<lparr>rp_status = status, rp_headers = copy_response_headers (up_headers up), rp_body = FullBody bytes,
                     rp_usage = Some report, rp_identity = Some identity\<rparr>, w))"

definition receive_stream ::
  "protocol \<Rightarrow> stream_config \<Rightarrow> nat \<Rightarrow> 'b upstream \<Rightarrow> 'w world \<Rightarrow> 'b live response" where
  "receive_stream protocol config request_started up w =
     \<lparr>rp_status = status_from_u16 (up_status up), rp_headers = copy_response_headers (up_headers up),
      rp_body = StreamBody (native_new protocol config request_started (w_instant w), up_stream up),
      rp_usage = None, rp_identity = None\<rparr>"

definition forward_url_with_config ::
  "('w, 'b) platform \<Rightarrow> string \<Rightarrow> account_config \<Rightarrow> string option \<Rightarrow> protocol \<Rightarrow> header_map \<Rightarrow> string
   \<Rightarrow> stream_config \<Rightarrow> nat \<Rightarrow> 'w world \<Rightarrow> ('b live response, transport_error) result \<times> 'w world" where
  "forward_url_with_config pl url acct credential protocol headers body config request_started w =
     (if \<not> is_ok (client_post (pl_parse_url pl) (pl_policy pl) url) then (Err SourceUrlBlocked, w)
      else
        let request = \<lparr>rq_url = url, rq_headers = upstream_request_headers protocol acct credential headers,
                       rq_body = body\<rparr>;
            send_timeout = earliest_send_timeout (w_instant w) request_started config;
            termination = (case send_timeout of Some (_, t) \<Rightarrow> t | None \<Rightarrow> TotalTimeout)
        in if (case send_timeout of Some (d, _) \<Rightarrow> d = 0 | None \<Rightarrow> False) then (Err (Timeout termination), w)
           else
             let (t, outcome, outside) = pl_send pl request w;
                 (sent, w) = await_within (map_option fst send_timeout) t outcome (w\<lparr>w_outside := outside\<rparr>)
             in case sent of
                  None \<Rightarrow> (Err (Timeout termination), w)
                | Some (Inl e) \<Rightarrow> (Err (map_reqwest_error e), w)
                | Some (Inr up) \<Rightarrow>
                    if wants_stream (pl_parse pl) body
                    then (Ok (receive_stream protocol config request_started up w), w)
                    else receive_buffered pl body config request_started up w)"

definition forward_with_config ::
  "('w, 'b) platform \<Rightarrow> provider_config \<Rightarrow> account_config \<Rightarrow> string option \<Rightarrow> protocol \<Rightarrow> header_map \<Rightarrow> string
   \<Rightarrow> stream_config \<Rightarrow> nat \<Rightarrow> 'w world \<Rightarrow> ('b live response, transport_error) result \<times> 'w world" where
  "forward_with_config pl prov acct credential protocol headers body config request_started w =
     (case hget (pv_endpoints prov) protocol of
        None \<Rightarrow> (Err MissingEndpoint, w)
      | Some endpoint \<Rightarrow>
          forward_url_with_config pl (trim_end_matches CHR ''/'' (pv_base_url prov) @ endpoint) acct credential
            protocol headers body config request_started w)"

definition usage_from_response :: "'b response \<Rightarrow> usage_report option" where
  "usage_from_response r = rp_usage r"

definition response_identity_from_response :: "'b response \<Rightarrow> response_identity" where
  "response_identity_from_response r = unwrap_or response_identity_default (rp_identity r)"

section \<open>The model that is recorded is the model that is sent\<close>

lemma prepare_unchanged:
  assumes "upstream = requested \<or> (\<nexists>obj. parse body = Some (JObject obj))"
  shows "prepare_model_request parse print body requested upstream = \<lparr>pm_body = body, pm_upstream_model_id = requested\<rparr>"
proof (cases "parse body")
  case (Some v)
  then show ?thesis using assms by (cases v) (auto simp: prepare_model_request_def Let_def)
qed (simp add: prepare_model_request_def Let_def)

text \<open>
  The model recorded for an attempt is the model that is sent. For a JSON object that asks for the
  requested model, the prepared body parses to the same object except that its model is
  the recorded upstream model, which is the model of the chosen upstream; without a mapping
  the bytes are those of the client. (The hypothesis is that the JSON library reads back the
  object it has just written.)
\<close>

theorem prepared_model_sent:
  assumes "parse body = Some (JObject obj)" "map_of obj ''model'' = Some (JString requested)"
    and "parse (print (JObject (binsert ''model'' (JString upstream) obj))) =
      Some (JObject (binsert ''model'' (JString upstream) obj))"
  defines "r \<equiv> prepare_model_request parse print body requested upstream"
  shows "(\<exists>obj'. parse (pm_body r) = Some (JObject obj') \<and>
      map_of obj' ''model'' = Some (JString (pm_upstream_model_id r)) \<and>
      (\<forall>k. k \<noteq> ''model'' \<longrightarrow> map_of obj' k = map_of obj k)) \<and>
    pm_upstream_model_id r = upstream \<and> (upstream = requested \<longrightarrow> pm_body r = body)"
  using assms by (cases "upstream = requested") (auto simp: prepare_model_request_def)

theorem prepared_model_sent_witness:
  "pm_body (prepare_model_request
      (\<lambda>s. if s = ''in'' then Some (JObject [(''model'', JString ''gpt'')])
           else if s = ''out'' then Some (JObject [(''model'', JString ''gpt-4'')]) else None)
      (\<lambda>v. if v = JObject [(''model'', JString ''gpt-4'')] then ''out'' else ''in'') ''in'' ''gpt'' ''gpt-4'') = ''out'' \<and>
   pm_upstream_model_id (prepare_model_request
      (\<lambda>s. if s = ''in'' then Some (JObject [(''model'', JString ''gpt'')])
           else if s = ''out'' then Some (JObject [(''model'', JString ''gpt-4'')]) else None)
      (\<lambda>v. if v = JObject [(''model'', JString ''gpt-4'')] then ''out'' else ''in'') ''in'' ''gpt'' ''gpt-4'') = ''gpt-4''"
  using prepared_model_sent [of "\<lambda>s. if s = ''in'' then Some (JObject [(''model'', JString ''gpt'')])
           else if s = ''out'' then Some (JObject [(''model'', JString ''gpt-4'')]) else None" "''in''"
      "[(''model'', JString ''gpt'')]" "''gpt''" "\<lambda>v. if v = JObject [(''model'', JString ''gpt-4'')] then ''out'' else ''in''"
      "''gpt-4''"]
  by (simp add: prepare_model_request_def)

section \<open>Client credentials stay at the gateway\<close>

lemma upstream_headers_withheld:
  "filter (\<lambda>(name, _). name \<notin> set withheld_request_headers) hs = filter (\<lambda>(name, _). name \<notin> set withheld_request_headers) hs'
   \<Longrightarrow> upstream_request_headers p acct credential hs = upstream_request_headers p acct credential hs'"
  by (simp add: upstream_request_headers_def)

text \<open>
  C9: what a client sends to authenticate to the gateway never reaches an upstream. Forwarding
  does not depend on the client's \<open>authorization\<close>, \<open>x-api-key\<close>, \<open>host\<close>,
  \<open>content-length\<close> and \<open>accept-encoding\<close> headers, and the credential headers of the upstream
  request are exactly the account's own, in the form its protocol uses.
\<close>

theorem client_credentials_withheld:
  assumes "filter (\<lambda>(name, _). name \<notin> set withheld_request_headers) hs =
    filter (\<lambda>(name, _). name \<notin> set withheld_request_headers) hs'"
  shows "forward_url_with_config pl url acct credential p hs body config started w =
      forward_url_with_config pl url acct credential p hs' body config started w \<and>
    filter (\<lambda>(name, _). name \<in> set withheld_request_headers) (upstream_request_headers p acct credential hs) =
      (case or_else credential (ac_credential acct) of
         None \<Rightarrow> []
       | Some c \<Rightarrow> if p = AnthropicMessages then [(''x-api-key'', c)] else [(''authorization'', ''Bearer '' @ c)])"
  using upstream_headers_withheld [OF assms]
  by (simp add: forward_url_with_config_def)
    (auto simp: upstream_request_headers_def withheld_request_headers_def filter_empty_conv split: option.split)

theorem client_credentials_withheld_witness:
  "\<forall>pl :: (unit, unit) platform. \<forall>url acct credential p body config started w.
   forward_url_with_config pl url acct credential p [(''authorization'', ''Bearer gateway-key''), (''x-trace'', ''1'')]
     body config started w =
   forward_url_with_config pl url acct credential p [(''x-api-key'', ''other''), (''x-trace'', ''1'')] body config started w"
proof (intro allI)
  fix pl :: "(unit, unit) platform" and url acct credential p body config started w
  show "forward_url_with_config pl url acct credential p [(''authorization'', ''Bearer gateway-key''), (''x-trace'', ''1'')]
     body config started w =
   forward_url_with_config pl url acct credential p [(''x-api-key'', ''other''), (''x-trace'', ''1'')] body config started w"
    by (rule client_credentials_withheld [THEN conjunct1]) (simp add: withheld_request_headers_def)
qed

section \<open>Response headers\<close>

lemma copy_headers_fold:
  "copy_response_headers hs =
   fold (\<lambda>(name, v). hinsert name v) (filter (\<lambda>(name, _). name \<notin> set withheld_response_headers) hs) []"
proof -
  have "fold (\<lambda>(name, v) h. if name \<in> set ws then h else hinsert name v h) hs h =
    fold (\<lambda>(name, v). hinsert name v) (filter (\<lambda>(name, _). name \<notin> set ws) hs) h" for h :: header_map and ws
    by (induction hs arbitrary: h) auto
  then show ?thesis by (simp add: copy_response_headers_def)
qed

lemma fold_hinsert: "hget (fold (\<lambda>(name, v). hinsert name v) hs h) = hget h ++ map_of (rev hs)"
  by (induction hs arbitrary: h) (auto simp: map_add_def fun_eq_iff split: option.split)

lemma fold_hinsert_ok: "hmap_ok h \<Longrightarrow> hmap_ok (fold (\<lambda>(name, v). hinsert name v) hs h)"
  by (induction hs arbitrary: h) auto

lemma map_of_filter_name: "map_of (filter (\<lambda>(name, _). P name) hs) n = (if P n then map_of hs n else None)"
  by (induction hs) auto

text \<open>
  The response headers a client sees. Connection-level headers are dropped and every other
  name has one value, the last one the upstream sent for it (so of several \<open>set-cookie\<close>
  headers only the last is delivered).
\<close>

theorem response_headers_copied:
  "hget (copy_response_headers hs) name =
     (if name \<in> {''connection'', ''keep-alive'', ''transfer-encoding'', ''content-length''} then None
      else map_of (rev hs) name) \<and>
   distinct (map fst (copy_response_headers hs))"
proof -
  have "hmap_ok (copy_response_headers hs)" by (simp add: copy_headers_fold fold_hinsert_ok hmap_ok_def [of "[]"])
  moreover have "hget (copy_response_headers hs) name = (if name \<in> set withheld_response_headers then None
      else map_of (rev hs) name)"
    by (simp add: copy_headers_fold fold_hinsert rev_filter map_of_filter_name)
  ultimately show ?thesis by (simp add: hmap_ok_def withheld_response_headers_def)
qed

section \<open>Time limits\<close>

lemma await_within_bound:
  assumes "await_within (Some d) t x w = (r, w')"
  shows "w_instant w \<le> w_instant w'" "w_instant w' \<le> w_instant w + d"
  using assms by (auto simp: await_within_def split: if_splits)

lemma send_timeout_total:
  assumes "sc_total_timeout config \<noteq> 0" "instant_checked_add started (sc_total_timeout config) = Some deadline"
  shows "\<exists>d t. earliest_send_timeout now started config = Some (d, t) \<and> d \<le> deadline - now"
  using assms by (auto simp: earliest_send_timeout_def Let_def split: option.split)

lemma receive_buffered_bound:
  assumes "request_deadline started config = Some deadline" "receive_buffered pl body config started up w = (r, w')"
  shows "w_instant w' \<le> max (w_instant w) deadline \<and> w_instant w \<le> w_instant w'"
proof -
  obtain rd w1 where rd: "await_within (Some (deadline - w_instant w)) (up_read_time up) (up_read up) w = (rd, w1)"
    by fastforce
  with assms have "w' = w1"
    by (auto simp: receive_buffered_def Let_def split: option.splits sum.splits prod.splits)
  with await_within_bound [OF rd] show ?thesis by auto
qed

text \<open>
  C18: the total timeout bounds forwarding. With a total timeout configured (and a deadline in the
  range of the clock), sending the request and, for a response that is not streamed, reading
  all of it ends by the request's deadline, or at once when the deadline has passed already.
\<close>

theorem forward_within_total_timeout:
  assumes "sc_total_timeout config \<noteq> 0" "started + sc_total_timeout config < 2 ^ 63 * 1000000000"
    and "forward_url_with_config pl url acct credential p hs body config started w = (r, w')"
  shows "w_instant w \<le> w_instant w' \<and> w_instant w' \<le> max (w_instant w) (started + sc_total_timeout config)"
proof -
  let ?D = "started + sc_total_timeout config"
  have D: "instant_checked_add started (sc_total_timeout config) = Some ?D" "request_deadline started config = Some ?D"
    using assms(1,2) by (simp_all add: instant_checked_add_def request_deadline_def)
  from send_timeout_total [OF assms(1) D(1)] obtain d t where
    dt: "earliest_send_timeout (w_instant w) started config = Some (d, t)" "d \<le> ?D - w_instant w" by blast
  show ?thesis
  proof (cases "\<not> is_ok (client_post (pl_parse_url pl) (pl_policy pl) url) \<or> d = 0")
    case True
    then show ?thesis using assms(3) dt by (auto simp: forward_url_with_config_def Let_def split: if_splits)
  next
    case False
    define rq where "rq = \<lparr>rq_url = url, rq_headers = upstream_request_headers p acct credential hs, rq_body = body\<rparr>"
    obtain st outcome outside where send: "pl_send pl rq w = (st, outcome, outside)" by (metis prod_cases3)
    obtain sent w1 where aw: "await_within (Some d) st outcome (w\<lparr>w_outside := outside\<rparr>) = (sent, w1)" by fastforce
    have w1: "w_instant w \<le> w_instant w1" "w_instant w1 \<le> max (w_instant w) ?D"
      using await_within_bound [OF aw] dt(2) by auto
    have "(r, w') = (case sent of None \<Rightarrow> (Err (Timeout t), w1)
        | Some (Inl e) \<Rightarrow> (Err (map_reqwest_error e), w1)
        | Some (Inr up) \<Rightarrow> if wants_stream (pl_parse pl) body then (Ok (receive_stream p config started up w1), w1)
                          else receive_buffered pl body config started up w1)"
      using assms(3) False dt send aw by (cases sent) (simp_all add: forward_url_with_config_def Let_def rq_def)
    then have "w' = w1 \<or> (\<exists>up. receive_buffered pl body config started up w1 = (r, w'))"
      by (auto split: option.splits sum.splits if_splits)
    with receive_buffered_bound [OF D(2)] w1 show ?thesis by fastforce
  qed
qed

theorem forward_within_total_timeout_witness:
  "let (r, w') = forward_url_with_config (sample_platform (\<lambda>_. (9, Ok (sample_upstream 200)))) [] (sample_account ''a'') None
      OpenAiResponses [] [] (stream_config_default\<lparr>sc_total_timeout := 5\<rparr>) 0 sample_world
   in r = Err (Timeout TotalTimeout) \<and> w_instant w' \<le> 5"
proof -
  let ?config = "stream_config_default\<lparr>sc_total_timeout := 5\<rparr>"
  obtain r w' where run: "forward_url_with_config (sample_platform (\<lambda>_. (9, Ok (sample_upstream 200)))) []
      (sample_account ''a'') None OpenAiResponses [] [] ?config 0 sample_world = (r, w')" by fastforce
  then have "r = Err (Timeout TotalTimeout)"
    by (auto simp: forward_url_with_config_def sample_platform_def sample_world_def earliest_send_timeout_def
        instant_checked_add_def stream_config_default_def duration_from_secs_def await_within_def Let_def)
  moreover have "w_instant w' \<le> 5"
    using forward_within_total_timeout [OF _ _ run] by (simp add: sample_world_def)
  ultimately show ?thesis using run by simp
qed

end
