(* ===== verification/Domain_Routing.thy ===== *)
theory Domain_Routing
  imports Domain_Config
begin

text \<open>
  \<open>src/domain/routing.rs\<close>: resolution of an ingress (protocol, model) pair to a route.

  A resolver built from a runtime snapshot looks the pair up in the published routes; one
  built from the file configuration ranks the matching routes (exact model, longest prefix,
  wildcard, native before other modes, configuration order) and takes the first that resolves.
\<close>

section \<open>Types\<close>

record runtime_binding =
  rb_binding_id :: i64
  rb_source_id :: string
  rb_provider_id :: string
  rb_account_id :: string
  rb_upstream_model_id :: string
  rb_protocol_upstream :: protocol
  rb_upstream_endpoint :: string
  rb_mode :: string
  rb_adapter :: "string option"
  rb_effective_capabilities :: capabilities
  rb_degraded_features :: "string list"

text \<open>\<open>ResolvedBinding\<close> has the same fields as \<open>RuntimeBinding\<close>.\<close>

type_synonym resolved_binding = runtime_binding

record runtime_route =
  rt_route_id :: string
  rt_model :: string
  rt_protocol :: protocol
  rt_strategy :: string
  rt_request_timeout_ms :: "i64 option"
  rt_max_retries :: "i32 option"
  rt_allow_lossy_conversion :: bool
  rt_bindings :: "runtime_binding list"

record resolved_route =
  rr_route_id :: string
  rr_strategy :: string
  rr_request_timeout_ms :: "i64 option"
  rr_max_retries :: "i32 option"
  rr_protocol :: protocol
  rr_protocol_in :: protocol
  rr_protocol_upstream :: protocol
  rr_model :: string
  rr_requested_model :: string
  rr_upstream_model_id :: string
  rr_source_id :: string
  rr_provider_id :: string
  rr_primary_account_id :: string
  rr_fallback_accounts :: "string list"
  rr_fallback_bindings :: "resolved_binding list"
  rr_binding_id :: "i64 option"
  rr_upstream_endpoint :: string
  rr_mode :: string
  rr_adapter :: "string option"
  rr_effective_capabilities :: capabilities
  rr_degraded_features :: "string list"
  rr_allow_lossy_conversion :: bool

record route_resolution_error =
  re_code :: string
  re_message :: string
  re_route_id :: "string option"

record route_resolver =
  rs_config :: gateway_config
  rs_runtime_routes :: "runtime_route list option"

definition is_degraded :: "resolved_route \<Rightarrow> bool" where
  "is_degraded route = (rr_degraded_features route \<noteq> [])"

definition route_error :: "string \<Rightarrow> string \<Rightarrow> string option \<Rightarrow> route_resolution_error" where
  "route_error code message route_id = \<lparr>re_code = code, re_message = message, re_route_id = route_id\<rparr>"

definition from_runtime :: "gateway_config \<Rightarrow> runtime_route list \<Rightarrow> route_resolver" where
  "from_runtime cfg routes = \<lparr>rs_config = cfg, rs_runtime_routes = Some routes\<rparr>"

definition is_runtime_snapshot :: "route_resolver \<Rightarrow> bool" where
  "is_runtime_snapshot rs = (rs_runtime_routes rs \<noteq> None)"

section \<open>Capabilities of a route\<close>

text \<open>
  One expansion of the \<open>intersect!\<close> macro: the feature's name, the adapter's mode (native
  when there is no adapter), the model's mode, and the degraded features so far.
\<close>

definition intersect_field ::
  "bool \<Rightarrow> string \<Rightarrow> capability_mode \<Rightarrow> capability_mode \<Rightarrow> string list
   \<Rightarrow> (capability_mode \<times> string list, string) result" where
  "intersect_field allow_lossy name adapter_mode source degraded =
     (if adapter_mode = CapabilityMode_Unsupported \<and> source \<noteq> CapabilityMode_Unsupported then
        (if \<not> allow_lossy then Err name else Ok (CapabilityMode_Unsupported, degraded @ [name]))
      else if adapter_mode = CapabilityMode_Translated \<and> source = CapabilityMode_Native then
        Ok (CapabilityMode_Translated, degraded @ [name])
      else if source = CapabilityMode_Unsupported then Ok (CapabilityMode_Unsupported, degraded)
      else Ok (adapter_mode, degraded))"

definition intersect_capabilities ::
  "capabilities \<Rightarrow> capabilities option \<Rightarrow> bool \<Rightarrow> (capabilities \<times> string list, string) result" where
  "intersect_capabilities model adapter allow_lossy =
     (let f = (\<lambda>name field degraded. intersect_field allow_lossy name
                 (case adapter of Some a \<Rightarrow> field a | None \<Rightarrow> CapabilityMode_Native) (field model) degraded) in
      and_then (f ''streaming'' cap_streaming []) (\<lambda>(m1, d).
      and_then (f ''tools'' cap_tools d) (\<lambda>(m2, d).
      and_then (f ''tool_streaming'' cap_tool_streaming d) (\<lambda>(m3, d).
      and_then (f ''thinking'' cap_thinking d) (\<lambda>(m4, d).
      and_then (f ''web_search'' cap_web_search d) (\<lambda>(m5, d).
      and_then (f ''file_search'' cap_file_search d) (\<lambda>(m6, d).
      and_then (f ''vision'' cap_vision d) (\<lambda>(m7, d).
      and_then (f ''usage'' cap_usage d) (\<lambda>(m8, d).
        Ok (\<lparr>cap_streaming = m1, cap_tools = m2, cap_tool_streaming = m3, cap_thinking = m4,
             cap_web_search = m5, cap_file_search = m6, cap_vision = m7, cap_usage = m8\<rparr>, d))))))))))"

section \<open>Endpoints and model patterns\<close>

definition join_endpoint :: "string \<Rightarrow> string \<Rightarrow> string" where
  "join_endpoint base endpoint =
     (if starts_with endpoint ''http://'' \<or> starts_with endpoint ''https://'' then endpoint
      else trim_end_matches (CHR ''/'') base @ ''/'' @ trim_start_matches (CHR ''/'') endpoint)"

definition model_match_rank :: "string \<Rightarrow> string \<Rightarrow> (bool \<times> nat) option" where
  "model_match_rank pattern model =
     (if pattern = model then Some (True, length pattern)
      else if pattern = ''*'' then Some (False, 0)
      else if ends_with pattern ''*'' \<and> starts_with model (take (length pattern - 1) pattern)
           then Some (False, length pattern - 1)
      else None)"

section \<open>Runtime snapshot routes\<close>

definition no_route :: "protocol \<Rightarrow> string \<Rightarrow> route_resolution_error" where
  "no_route p model = route_error ''route_not_found''
     (''no route matches protocol '' @ protocol_to_string p @ '' and model '' @ quoted model) None"

definition resolve_runtime_route ::
  "runtime_route list \<Rightarrow> protocol \<Rightarrow> string \<Rightarrow> (resolved_route, route_resolution_error) result" where
  "resolve_runtime_route routes p model =
     (case List.find (\<lambda>route. rt_protocol route = p \<and> rt_model route = model) routes of
        None \<Rightarrow> Err (no_route p model)
      | Some route \<Rightarrow>
          (case rt_bindings route of
             [] \<Rightarrow> Err (route_error ''route_unavailable''
                     (''route '' @ quoted (rt_route_id route) @ '' has no available binding'')
                     (Some (rt_route_id route)))
           | primary # fallback_bindings \<Rightarrow>
               Ok \<lparr>rr_route_id = rt_route_id route, rr_strategy = rt_strategy route,
                   rr_request_timeout_ms = rt_request_timeout_ms route, rr_max_retries = rt_max_retries route,
                   rr_protocol = p, rr_protocol_in = p, rr_protocol_upstream = rb_protocol_upstream primary,
                   rr_model = model, rr_requested_model = model,
                   rr_upstream_model_id = rb_upstream_model_id primary,
                   rr_source_id = rb_source_id primary, rr_provider_id = rb_provider_id primary,
                   rr_primary_account_id = rb_account_id primary,
                   rr_fallback_accounts = map rb_account_id fallback_bindings,
                   rr_fallback_bindings = fallback_bindings,
                   rr_binding_id = Some (rb_binding_id primary),
                   rr_upstream_endpoint = rb_upstream_endpoint primary, rr_mode = rb_mode primary,
                   rr_adapter = rb_adapter primary,
                   rr_effective_capabilities = rb_effective_capabilities primary,
                   rr_degraded_features = rb_degraded_features primary,
                   rr_allow_lossy_conversion = rt_allow_lossy_conversion route\<rparr>))"

section \<open>Configuration routes\<close>

definition check_fallback ::
  "gateway_config \<Rightarrow> route_config \<Rightarrow> provider_config \<Rightarrow> string \<Rightarrow> (unit, route_resolution_error) result" where
  "check_fallback cfg r v fallback =
     (case account cfg fallback of
        None \<Rightarrow> Err (route_error ''fallback_account_not_found''
                  (''route references unknown fallback account '' @ quoted fallback) (Some (rc_id r)))
      | Some a \<Rightarrow>
          if ac_provider_id a \<noteq> pv_id v
          then Err (route_error ''fallback_provider_mismatch''
                  (''fallback account '' @ quoted fallback @ '' belongs to provider '' @ quoted (ac_provider_id a))
                  (Some (rc_id r)))
          else Ok ())"

text \<open>The \<open>match route.mode\<close> of \<open>resolve_candidate\<close>.\<close>

definition route_dispatch ::
  "adapter_registry \<Rightarrow> gateway_config \<Rightarrow> route_config \<Rightarrow> provider_config \<Rightarrow> account_config \<Rightarrow> protocol \<Rightarrow> string
   \<Rightarrow> (protocol \<times> string \<times> string option \<times> capabilities option, route_resolution_error) result" where
  "route_dispatch reg cfg r v a p model =
     (let declared = protocol_capability cfg (pv_id v) (Some (ac_id a)) model p;
          err = (\<lambda>code message. route_error code message (Some (rc_id r))) in
      if rc_mode r = ''native'' then
        (if pc_mode declared \<noteq> ProtocolMode_Native
         then Err (err ''unsupported_protocol'' (''protocol '' @ protocol_to_string p @
                '' is not natively supported for model '' @ quoted model))
         else Ok (p, ''native'', None, None))
      else if rc_mode r = ''adapter'' then
        and_then (ok_or (err ''adapter_missing'' ''adapter route requires an adapter name'') (rc_adapter r)) (\<lambda>name.
        and_then (ok_or (err ''adapter_unknown'' (''unknown adapter '' @ quoted name))
                    (adapter_definition reg name)) (\<lambda>d.
        and_then (ensure (ad_from_protocol d = p)
                    (err ''adapter_direction_mismatch'' (''adapter '' @ quoted name @ '' accepts '' @
                       protocol_to_string (ad_from_protocol d) @ '', not '' @ protocol_to_string p))) (\<lambda>_.
        and_then (ensure (pc_mode declared = ProtocolMode_Adapter \<and> pc_adapter declared = Some name \<and>
                          pc_source_protocol declared = Some (ad_to_protocol d))
                    (err ''adapter_capability_mismatch'' (''route adapter '' @ quoted name @
                       '' does not match the effective protocol capability''))) (\<lambda>_.
        and_then (ensure (pc_mode (protocol_capability cfg (pv_id v) (Some (ac_id a)) model (ad_to_protocol d))
                            = ProtocolMode_Native)
                    (err ''adapter_source_unsupported'' (''adapter source protocol '' @
                       protocol_to_string (ad_to_protocol d) @ '' is not natively available''))) (\<lambda>_.
          Ok (ad_to_protocol d, ''adapter'', Some name, Some (ad_features d)))))))
      else if rc_mode r = ''unsupported'' then
        Err (err ''unsupported_protocol'' (''route '' @ quoted (rc_id r) @ '' explicitly marks protocol '' @
               protocol_to_string p @ '' unsupported''))
      else Err (err ''invalid_route_mode'' (''unknown route mode '' @ quoted (rc_mode r))))"

text \<open>The \<open>ResolvedRoute\<close> literal at the end of \<open>resolve_candidate\<close>.\<close>

definition config_route ::
  "route_config \<Rightarrow> provider_config \<Rightarrow> account_config \<Rightarrow> protocol \<Rightarrow> string \<Rightarrow> protocol \<Rightarrow> string \<Rightarrow> string option
   \<Rightarrow> string \<Rightarrow> capabilities \<Rightarrow> string list \<Rightarrow> resolved_route" where
  "config_route r v a p model upstream mode adapter_name endpoint effective degraded =
     \<lparr>rr_route_id = rc_id r, rr_strategy = rc_strategy r, rr_request_timeout_ms = None,
      rr_max_retries = None, rr_protocol = p, rr_protocol_in = p, rr_protocol_upstream = upstream,
      rr_model = model, rr_requested_model = model, rr_upstream_model_id = model,
      rr_source_id = pv_id v, rr_provider_id = pv_id v, rr_primary_account_id = ac_id a,
      rr_fallback_accounts = rc_fallback_accounts r, rr_fallback_bindings = [], rr_binding_id = None,
      rr_upstream_endpoint = join_endpoint (pv_base_url v) endpoint, rr_mode = mode,
      rr_adapter = adapter_name, rr_effective_capabilities = effective,
      rr_degraded_features = degraded,
      rr_allow_lossy_conversion = rc_allow_lossy_conversion r\<rparr>"

definition resolve_candidate ::
  "adapter_registry \<Rightarrow> gateway_config \<Rightarrow> nat \<Rightarrow> protocol \<Rightarrow> string
   \<Rightarrow> (resolved_route, route_resolution_error) result" where
  "resolve_candidate reg cfg index p model =
     (let r = gc_routes cfg ! index;
          err = (\<lambda>code message. route_error code message (Some (rc_id r))) in
      and_then (ok_or (err ''provider_not_found''
                         (''route references unknown provider '' @ quoted (rc_provider_id r)))
                  (provider cfg (rc_provider_id r))) (\<lambda>v.
      and_then (ok_or (err ''account_not_found''
                         (''route references unknown primary account '' @ quoted (rc_primary_account_id r)))
                  (account cfg (rc_primary_account_id r))) (\<lambda>a.
      and_then (ensure (ac_provider_id a = pv_id v)
                  (err ''account_provider_mismatch''
                     (''primary account '' @ quoted (ac_id a) @ '' belongs to provider '' @
                      quoted (ac_provider_id a)))) (\<lambda>_.
      and_then (for_each (check_fallback cfg r v) (rc_fallback_accounts r)) (\<lambda>_.
      and_then (route_dispatch reg cfg r v a p model) (\<lambda>(upstream, mode, adapter_name, adapter_features).
      and_then (ok_or (err ''endpoint_missing''
                         (''provider '' @ quoted (pv_id v) @ '' has no endpoint for '' @ protocol_to_string upstream))
                  (hget (pv_endpoints v) upstream)) (\<lambda>endpoint.
      and_then (ensure (trim endpoint \<noteq> [])
                  (err ''endpoint_missing''
                     (''provider '' @ quoted (pv_id v) @ '' has an empty endpoint for '' @
                      protocol_to_string upstream))) (\<lambda>_.
      (case intersect_capabilities (capabilities_of cfg (pv_id v) (Some (ac_id a)) model) adapter_features
              (rc_allow_lossy_conversion r) of
         Inl feature \<Rightarrow> Err (err ''lossy_conversion_not_allowed''
                              (''feature '' @ quoted feature @ '' cannot be represented by adapter''))
       | Inr (effective, degraded) \<Rightarrow>
           Ok (config_route r v a p model upstream mode adapter_name endpoint effective degraded))))))))))"

type_synonym candidate = "nat \<times> nat \<times> bool \<times> nat"

definition candidate_of :: "protocol \<Rightarrow> string \<Rightarrow> nat \<times> route_config \<Rightarrow> candidate option" where
  "candidate_of p model = (\<lambda>(index, r).
     if p \<in> set (rc_protocols r) then
       map_option (\<lambda>(exact, specificity).
          (index, specificity, exact, if rc_mode r = ''native'' then 0 else 1)) (model_match_rank (rc_model r) model)
     else None)"

text \<open>\<open>sort_by_key\<close> with \<open>(!exact, Reverse(specificity), mode_rank)\<close>; the sort is stable.\<close>

definition candidate_key :: "candidate \<Rightarrow> bool \<times> int \<times> nat" where
  "candidate_key = (\<lambda>(_, specificity, exact, mode_rank). (\<not> exact, - int specificity, mode_rank))"

definition candidates :: "gateway_config \<Rightarrow> protocol \<Rightarrow> string \<Rightarrow> candidate list" where
  "candidates cfg p model = sort_key candidate_key (List.map_filter (candidate_of p model) (enumerate0 (gc_routes cfg)))"

fun try_candidates ::
  "(nat \<Rightarrow> ('r, 'e) result) \<Rightarrow> 'e \<Rightarrow> 'e option \<Rightarrow> candidate list \<Rightarrow> (nat \<times> 'r, 'e) result" where
  "try_candidates resolve none last_error [] = Err (case last_error of Some e \<Rightarrow> e | None \<Rightarrow> none)"
| "try_candidates resolve none last_error (c # cs) =
     (case resolve (fst c) of
        Inr route \<Rightarrow> Ok (fst c, route)
      | Inl e \<Rightarrow> try_candidates resolve none (Some e) cs)"

definition resolve_selected ::
  "adapter_registry \<Rightarrow> gateway_config \<Rightarrow> protocol \<Rightarrow> string
   \<Rightarrow> (nat \<times> resolved_route, route_resolution_error) result" where
  "resolve_selected reg cfg p model =
     try_candidates (\<lambda>index. resolve_candidate reg cfg index p model) (no_route p model) None
       (candidates cfg p model)"

definition resolve_detailed ::
  "adapter_registry \<Rightarrow> route_resolver \<Rightarrow> protocol \<Rightarrow> string
   \<Rightarrow> (resolved_route, route_resolution_error) result" where
  "resolve_detailed reg rs p model =
     (case rs_runtime_routes rs of
        Some routes \<Rightarrow> resolve_runtime_route routes p model
      | None \<Rightarrow> (case resolve_selected reg (rs_config rs) p model of Inl e \<Rightarrow> Err e | Inr (_, route) \<Rightarrow> Ok route))"

section \<open>Feature intersection\<close>

definition capability_fields :: "(string \<times> (capabilities \<Rightarrow> capability_mode)) list" where
  "capability_fields =
     [(''streaming'', cap_streaming), (''tools'', cap_tools), (''tool_streaming'', cap_tool_streaming),
      (''thinking'', cap_thinking), (''web_search'', cap_web_search), (''file_search'', cap_file_search),
      (''vision'', cap_vision), (''usage'', cap_usage)]"

definition adapter_mode :: "capabilities option \<Rightarrow> (capabilities \<Rightarrow> capability_mode) \<Rightarrow> capability_mode" where
  "adapter_mode adapter field = (case adapter of Some a \<Rightarrow> field a | None \<Rightarrow> CapabilityMode_Native)"

definition feature_lost :: "capability_mode \<Rightarrow> capability_mode \<Rightarrow> bool" where
  "feature_lost a s \<longleftrightarrow> a = CapabilityMode_Unsupported \<and> s \<noteq> CapabilityMode_Unsupported"

definition feature_degraded :: "capability_mode \<Rightarrow> capability_mode \<Rightarrow> bool" where
  "feature_degraded a s \<longleftrightarrow> feature_lost a s \<or> a = CapabilityMode_Translated \<and> s = CapabilityMode_Native"

definition feature_mode :: "capability_mode \<Rightarrow> capability_mode \<Rightarrow> capability_mode" where
  "feature_mode a s = (if s = CapabilityMode_Unsupported then CapabilityMode_Unsupported else a)"

lemma intersect_field_eq:
  "intersect_field lossy name a s d =
     (if \<not> lossy \<and> feature_lost a s then Err name
      else Ok (feature_mode a s, d @ (if feature_degraded a s then [name] else [])))"
  by (auto simp: intersect_field_def feature_lost_def feature_degraded_def feature_mode_def)

lemma filter_append_if: "(if P x then [f x] else []) @ map f (filter P xs) = map f (filter P (x # xs))"
  by simp

text \<open>
  \<open>intersect_capabilities\<close> fails exactly when lossy conversion is forbidden and the adapter
  cannot represent some feature the model has, and then names the first such feature in
  declaration order. Otherwise every feature gets the adapter's mode, or stays
  unsupported when the model does not have it, and the degraded list holds, in
  declaration order, exactly the features that were lost or went from native to translated.
\<close>

theorem intersect_capabilities_spec:
  "intersect_capabilities model adapter lossy =
     (case List.find (\<lambda>(_, f). \<not> lossy \<and> feature_lost (adapter_mode adapter f) (f model)) capability_fields of
        Some (name, _) \<Rightarrow> Err name
      | None \<Rightarrow>
          Ok (\<lparr>cap_streaming = feature_mode (adapter_mode adapter cap_streaming) (cap_streaming model),
               cap_tools = feature_mode (adapter_mode adapter cap_tools) (cap_tools model),
               cap_tool_streaming = feature_mode (adapter_mode adapter cap_tool_streaming) (cap_tool_streaming model),
               cap_thinking = feature_mode (adapter_mode adapter cap_thinking) (cap_thinking model),
               cap_web_search = feature_mode (adapter_mode adapter cap_web_search) (cap_web_search model),
               cap_file_search = feature_mode (adapter_mode adapter cap_file_search) (cap_file_search model),
               cap_vision = feature_mode (adapter_mode adapter cap_vision) (cap_vision model),
               cap_usage = feature_mode (adapter_mode adapter cap_usage) (cap_usage model)\<rparr>,
              map fst (filter (\<lambda>(_, f). feature_degraded (adapter_mode adapter f) (f model)) capability_fields)))"
  unfolding intersect_capabilities_def Let_def intersect_field_eq adapter_mode_def [symmetric] capability_fields_def
  by simp

lemma intersect_field_native:
  "intersect_field lossy name CapabilityMode_Native s d = Ok (feature_mode CapabilityMode_Native s, d)"
  by (simp add: intersect_field_def feature_mode_def)

lemma intersect_native_ok: "\<exists>c. intersect_capabilities model None lossy = Ok (c, [])"
  by (simp add: intersect_capabilities_def Let_def intersect_field_native)

text \<open>
  A feature the model only has translated is reported native when there is no adapter: the
  intersection is not the weaker of the two modes in that one case.
\<close>

lemma intersect_raises_translated:
  "cap_tools model = CapabilityMode_Translated \<Longrightarrow>
   intersect_capabilities model None lossy = Ok (c, d) \<Longrightarrow> cap_tools c = CapabilityMode_Native"
  by (auto simp: intersect_capabilities_def Let_def intersect_field_native feature_mode_def)

section \<open>Preference order\<close>

definition preferred :: "candidate \<Rightarrow> candidate \<Rightarrow> bool" where
  "preferred = (\<lambda>(j, specificity, exact, mode_rank) (j', specificity', exact', mode_rank').
     exact \<and> \<not> exact' \<or> exact = exact' \<and>
       (specificity' < specificity \<or> specificity = specificity' \<and>
         (mode_rank < mode_rank' \<or> mode_rank = mode_rank' \<and> j < j')))"

lemma preferred_key:
  "preferred = (\<lambda>c d. candidate_key c < candidate_key d \<or> candidate_key c = candidate_key d \<and> fst c < fst d)"
  by (intro ext) (auto simp: preferred_def candidate_key_def less_prod_def split: prod.splits)

lemma preferred_asym: "preferred c d \<Longrightarrow> \<not> preferred d c"
  unfolding preferred_key by (metis less_asym order_less_irrefl)

lemma insort_key_stable:
  fixes f :: "nat \<times> 'a \<Rightarrow> 'k::linorder"
  assumes "sorted_wrt (\<lambda>x y. f x < f y \<or> f x = f y \<and> fst x < fst y) ys" "\<forall>y \<in> set ys. fst x < fst y"
  shows "sorted_wrt (\<lambda>x y. f x < f y \<or> f x = f y \<and> fst x < fst y) (insort_key f x ys)"
  using assms by (induction ys) (auto simp: set_insort_key)

lemma sort_key_stable:
  fixes f :: "nat \<times> 'a \<Rightarrow> 'k::linorder"
  assumes "sorted_wrt (\<lambda>x y. fst x < fst y) xs"
  shows "sorted_wrt (\<lambda>x y. f x < f y \<or> f x = f y \<and> fst x < fst y) (sort_key f xs)"
  using assms by (induction xs) (auto intro!: insort_key_stable)

lemma candidate_of_index: "candidate_of p model (i, r) = Some c \<Longrightarrow> fst c = i"
  by (auto simp: candidate_of_def split: if_splits)

lemma set_map_filter: "set (List.map_filter f xs) = {y. \<exists>x \<in> set xs. f x = Some y}"
  by (induction xs) (auto simp: List.map_filter_simps split: option.splits)

lemma map_filter_sorted:
  assumes "sorted_wrt (\<lambda>x y. fst x < fst y) xs" "\<And>x y. x \<in> set xs \<Longrightarrow> f x = Some y \<Longrightarrow> fst y = fst x"
  shows "sorted_wrt (\<lambda>x y. fst x < fst y) (List.map_filter f xs)"
  using assms
proof (induction xs)
  case (Cons x xs)
  have less: "fst y < fst z" if "f x = Some y" "f w = Some z" "w \<in> set xs" for y z w
    using that Cons.prems by (metis list.set_intros sorted_wrt.simps(2))
  from Cons have "sorted_wrt (\<lambda>x y. fst x < fst y) (List.map_filter f xs)" by simp
  with less show ?case by (auto simp: List.map_filter_simps set_map_filter split: option.splits)
qed (simp add: List.map_filter_simps)

lemma enumerate0_sorted: "sorted_wrt (\<lambda>x y. fst x < fst y) (enumerate0 xs)"
  by (auto simp: enumerate0_def sorted_wrt_iff_nth_less)

lemma candidates_sorted: "sorted_wrt preferred (candidates cfg p model)"
  unfolding candidates_def preferred_key
  by (intro sort_key_stable map_filter_sorted enumerate0_sorted) (auto dest: candidate_of_index)

lemma candidates_set:
  "c \<in> set (candidates cfg p model) \<longleftrightarrow>
   (\<exists>i < length (gc_routes cfg). candidate_of p model (i, gc_routes cfg ! i) = Some c)"
  unfolding candidates_def set_sort set_map_filter set_enumerate0 by blast

lemma try_candidates_Ok:
  assumes "try_candidates f none e cs = Ok (i, r)"
  obtains us c vs where "cs = us @ c # vs" "fst c = i" "f i = Ok r" "\<forall>u \<in> set us. \<not> is_ok (f (fst u))"
  using assms
proof (induction f none e cs arbitrary: thesis rule: try_candidates.induct)
  case (2 f none e c cs)
  show ?case
  proof (cases "f (fst c)")
    case (Inl e')
    with 2(3) have "try_candidates f none (Some e') cs = Ok (i, r)" by simp
    then obtain us d vs where "cs = us @ d # vs" "fst d = i" "f i = Ok r" "\<forall>u \<in> set us. \<not> is_ok (f (fst u))"
      by (rule 2(1) [OF Inl, rotated])
    then show ?thesis using Inl by (intro 2(2) [of "c # us" d vs]) auto
  next
    case (Inr x)
    with 2(3) show ?thesis by (intro 2(2) [of "[]" c cs]) auto
  qed
qed simp

lemma try_candidates_is_ok: "is_ok (try_candidates f none e cs) \<longleftrightarrow> (\<exists>c \<in> set cs. is_ok (f (fst c)))"
  by (induction f none e cs rule: try_candidates.induct) (auto split: sum.splits)

text \<open>
  C14: the resolver picks the most preferred route that resolves. The chosen index is a route
  for the protocol whose pattern matches the model, and every matching route that is preferred
  to it (exact before prefix, longer prefix before shorter, native before other modes, earlier
  in the file on a tie) fails to resolve.
\<close>

theorem resolve_selected_preferred:
  assumes "resolve_selected reg cfg p model = Ok (i, route)"
  shows "\<exists>c. i < length (gc_routes cfg) \<and> candidate_of p model (i, gc_routes cfg ! i) = Some c \<and>
    resolve_candidate reg cfg i p model = Ok route \<and>
    (\<forall>j < length (gc_routes cfg). \<forall>d. candidate_of p model (j, gc_routes cfg ! j) = Some d \<longrightarrow>
       preferred d c \<longrightarrow> \<not> is_ok (resolve_candidate reg cfg j p model))"
proof -
  from assms obtain us c vs where cs: "candidates cfg p model = us @ c # vs" and c: "fst c = i"
    and ok: "resolve_candidate reg cfg i p model = Ok route"
    and before: "\<forall>u \<in> set us. \<not> is_ok (resolve_candidate reg cfg (fst u) p model)"
    unfolding resolve_selected_def by (rule try_candidates_Ok) auto
  have "c \<in> set (candidates cfg p model)" by (simp add: cs)
  then have cand: "i < length (gc_routes cfg)" "candidate_of p model (i, gc_routes cfg ! i) = Some c"
    using c by (auto simp: candidates_set dest: candidate_of_index)
  have "d \<in> set us" if "j < length (gc_routes cfg)" "candidate_of p model (j, gc_routes cfg ! j) = Some d"
    "preferred d c" for j d
  proof -
    from that have "d \<in> set (us @ c # vs)" unfolding cs [symmetric] candidates_set by blast
    moreover have "\<not> preferred d c" if "d \<in> set (c # vs)"
      using candidates_sorted [of cfg p model] that preferred_asym unfolding cs sorted_wrt_append sorted_wrt.simps
      by (metis set_ConsD)
    ultimately show ?thesis using that(3) by auto
  qed
  moreover have "fst d = j" if "candidate_of p model (j, gc_routes cfg ! j) = Some d" for j d
    using that by (rule candidate_of_index)
  ultimately show ?thesis using before cand ok by metis
qed

theorem resolve_selected_preferred_witness:
  "is_ok (resolve_candidate adapter_registry sample_config 0 AnthropicMessages ''m'')"
proof -
  have "is_ok (resolve_selected adapter_registry sample_config AnthropicMessages ''m'')" by code_simp
  then obtain i route where "resolve_selected adapter_registry sample_config AnthropicMessages ''m'' = Ok (i, route)"
    by (auto simp: is_ok_iff)
  from resolve_selected_preferred [OF this]
  have "i < length (gc_routes sample_config)"
    "resolve_candidate adapter_registry sample_config i AnthropicMessages ''m'' = Ok route" by blast+
  then show ?thesis by (simp add: sample_config_def)
qed

text \<open>
  Resolution does not give up early. The resolver succeeds exactly when some route of
  the protocol whose pattern matches the model resolves.
\<close>

theorem resolve_selected_complete:
  "is_ok (resolve_selected reg cfg p model) \<longleftrightarrow>
   (\<exists>i < length (gc_routes cfg). candidate_of p model (i, gc_routes cfg ! i) \<noteq> None \<and>
      is_ok (resolve_candidate reg cfg i p model))"
proof -
  have "is_ok (resolve_selected reg cfg p model) \<longleftrightarrow>
      (\<exists>c i. i < length (gc_routes cfg) \<and> candidate_of p model (i, gc_routes cfg ! i) = Some c \<and>
         is_ok (resolve_candidate reg cfg (fst c) p model))"
    unfolding resolve_selected_def try_candidates_is_ok Bex_def candidates_set by blast
  also have "\<dots> \<longleftrightarrow> (\<exists>i c. i < length (gc_routes cfg) \<and> candidate_of p model (i, gc_routes cfg ! i) = Some c \<and>
         is_ok (resolve_candidate reg cfg i p model))"
    using candidate_of_index by metis
  finally show ?thesis by blast
qed

section \<open>What a resolved route promises\<close>

lemma check_fallback_ok:
  "check_fallback cfg r v f = Ok () \<longleftrightarrow> (\<exists>a. account cfg f = Some a \<and> ac_provider_id a = pv_id v)"
  by (auto simp: check_fallback_def split: option.splits)

lemma route_dispatch_ok:
  assumes "route_dispatch reg cfg r v a p model = Ok (upstream, mode, ad, feats)"
  shows "pc_mode (protocol_capability cfg (pv_id v) (Some (ac_id a)) model upstream) = ProtocolMode_Native \<and>
    mode = rc_mode r \<and> (mode = ''native'' \<longrightarrow> upstream = p \<and> ad = None \<and> feats = None) \<and>
    (mode = ''adapter'' \<longrightarrow> ad = rc_adapter r)"
  using assms
  by (auto simp: route_dispatch_def Let_def and_then_Ok ok_or_Ok ensure_Ok split: if_splits)

lemma config_route_simps [simp]:
  "rr_protocol_upstream (config_route r v a p model up mode ad ep eff deg) = up"
  "rr_upstream_endpoint (config_route r v a p model up mode ad ep eff deg) = join_endpoint (pv_base_url v) ep"
  "rr_provider_id (config_route r v a p model up mode ad ep eff deg) = pv_id v"
  "rr_primary_account_id (config_route r v a p model up mode ad ep eff deg) = ac_id a"
  "rr_fallback_accounts (config_route r v a p model up mode ad ep eff deg) = rc_fallback_accounts r"
  "rr_protocol_in (config_route r v a p model up mode ad ep eff deg) = p"
  "rr_degraded_features (config_route r v a p model up mode ad ep eff deg) = deg"
  by (simp_all add: config_route_def)

lemma resolve_candidate_ok:
  assumes "resolve_candidate reg cfg i p model = Ok route" and "r = gc_routes cfg ! i"
  obtains v a upstream mode ad feats endpoint eff deg where "provider cfg (rc_provider_id r) = Some v"
    "account cfg (rc_primary_account_id r) = Some a" "ac_provider_id a = pv_id v"
    "\<forall>f \<in> set (rc_fallback_accounts r). check_fallback cfg r v f = Ok ()"
    "route_dispatch reg cfg r v a p model = Ok (upstream, mode, ad, feats)"
    "hget (pv_endpoints v) upstream = Some endpoint" "trim endpoint \<noteq> []"
    "route = config_route r v a p model upstream mode ad endpoint eff deg"
  using assms(1)
  unfolding resolve_candidate_def Let_def assms(2) [symmetric]
  by (auto simp: and_then_Ok ok_or_Ok ensure_Ok for_each_ok case_sum_Ok)

text \<open>
  A route resolved from the configuration is servable. Its upstream protocol is declared
  native for the route's provider, primary account and model, the provider has a non-blank
  endpoint for it from which the target URL is built, and the primary and every fallback
  account exist and belong to the route's provider.
\<close>

theorem resolve_candidate_sound:
  assumes "resolve_candidate reg cfg i p model = Ok route"
  shows "\<exists>v endpoint. provider cfg (rc_provider_id (gc_routes cfg ! i)) = Some v \<and>
     rr_provider_id route = pv_id v \<and> rr_protocol_in route = p \<and>
     pc_mode (protocol_capability cfg (pv_id v) (Some (rr_primary_account_id route)) model
                (rr_protocol_upstream route)) = ProtocolMode_Native \<and>
     hget (pv_endpoints v) (rr_protocol_upstream route) = Some endpoint \<and> trim endpoint \<noteq> [] \<and>
     rr_upstream_endpoint route = join_endpoint (pv_base_url v) endpoint \<and>
     (\<forall>f \<in> insert (rr_primary_account_id route) (set (rr_fallback_accounts route)).
        \<exists>a. account cfg f = Some a \<and> ac_provider_id a = pv_id v)"
proof -
  let ?r = "gc_routes cfg ! i"
  from assms refl obtain v a upstream mode ad feats endpoint eff deg where *:
    "provider cfg (rc_provider_id ?r) = Some v"
    "account cfg (rc_primary_account_id ?r) = Some a" "ac_provider_id a = pv_id v"
    "\<forall>f \<in> set (rc_fallback_accounts ?r). check_fallback cfg ?r v f = Ok ()"
    "route_dispatch reg cfg ?r v a p model = Ok (upstream, mode, ad, feats)"
    "hget (pv_endpoints v) upstream = Some endpoint" "trim endpoint \<noteq> []"
    "route = config_route ?r v a p model upstream mode ad endpoint eff deg"
    by (rule resolve_candidate_ok)
  moreover from *(2) have "ac_id a = rc_primary_account_id ?r" by (auto dest: account_in)
  ultimately show ?thesis using route_dispatch_ok [OF *(5)] by (auto simp: check_fallback_ok)
qed

theorem resolve_candidate_sound_witness:
  "\<exists>v endpoint. provider sample_config ''p'' = Some v \<and>
     hget (pv_endpoints v) AnthropicMessages = Some endpoint \<and> trim endpoint \<noteq> []"
proof -
  have "is_ok (resolve_candidate adapter_registry sample_config 0 AnthropicMessages ''m'')" by code_simp
  then obtain route where route: "resolve_candidate adapter_registry sample_config 0 AnthropicMessages ''m'' = Ok route"
    by (auto simp: is_ok_iff)
  have up: "rr_protocol_upstream route = AnthropicMessages"
    using route refl by (rule resolve_candidate_ok) (auto dest!: route_dispatch_ok simp: sample_config_def)
  from resolve_candidate_sound [OF route] show ?thesis by (auto simp: up sample_config_def)
qed

text \<open>
  C15: validation is enough for the resolver. In a validated configuration a native route
  resolves for each of its protocols and its own model name, with nothing degraded and
  the ingress protocol unchanged, as soon as its primary account and its fallback accounts
  exist and belong to the route's provider.
\<close>

theorem validated_native_route_resolves:
  assumes ok: "validate reg cfg = Ok ()" and i: "i < length (gc_routes cfg)" and r: "r = gc_routes cfg ! i"
    and mode: "rc_mode r = ''native''" and p: "p \<in> set (rc_protocols r)"
    and accounts: "\<forall>f \<in> insert (rc_primary_account_id r) (set (rc_fallback_accounts r)).
        \<exists>a. account cfg f = Some a \<and> ac_provider_id a = rc_provider_id r"
  shows "\<exists>route. resolve_candidate reg cfg i p (rc_model r) = Ok route \<and> rr_protocol_upstream route = p \<and>
     rr_degraded_features route = [] \<and> rr_primary_account_id route = rc_primary_account_id r"
proof -
  from accounts obtain a where a: "account cfg (rc_primary_account_id r) = Some a" "ac_provider_id a = rc_provider_id r"
    by auto
  then have aid: "ac_id a = rc_primary_account_id r" by (auto dest: account_in)
  from i r have "(i, r) \<in> set (enumerate0 (gc_routes cfg))" by (auto simp: set_enumerate0)
  with ok have "validate_route reg cfg (i, r) = []" by (rule validate_ok_route)
  then obtain v scope where v: "provider cfg (rc_provider_id r) = Some v"
    and protocols: "\<forall>jp \<in> set (enumerate0 (rc_protocols r)). validate_route_protocol reg cfg r v scope jp = []"
    by (rule validate_route_Nil)
  then have pid: "pv_id v = rc_provider_id r" by (auto dest: provider_in)
  from enumerate0_ex [OF p] obtain j where "(j, p) \<in> set (enumerate0 (rc_protocols r))" ..
  with protocols have "validate_route_protocol reg cfg r v scope (j, p) = []" by blast
  then have native: "pc_mode (protocol_capability cfg (pv_id v) (Some (ac_id a)) (rc_model r) p) = ProtocolMode_Native"
    using mode aid by (auto simp: validate_route_protocol_def Let_def split: if_splits)
  from validated_native_has_endpoint [OF ok native] a aid v pid have "has_endpoint (pv_endpoints v) p" by auto
  then obtain endpoint where "hget (pv_endpoints v) p = Some endpoint" "trim endpoint \<noteq> []"
    by (auto simp: has_endpoint_def split: option.splits)
  moreover have "for_each (check_fallback cfg r v) (rc_fallback_accounts r) = Ok ()"
    using accounts pid by (auto simp: for_each_ok check_fallback_ok)
  moreover have "route_dispatch reg cfg r v a p (rc_model r) = Ok (p, ''native'', None, None)"
    using mode native by (simp add: route_dispatch_def Let_def)
  moreover obtain c where "intersect_capabilities (capabilities_of cfg (pv_id v) (Some (ac_id a)) (rc_model r)) None
      (rc_allow_lossy_conversion r) = Ok (c, [])"
    using intersect_native_ok by blast
  ultimately show ?thesis using a v pid aid r by (simp add: resolve_candidate_def Let_def)
qed

theorem validated_native_route_resolves_witness:
  "\<exists>route. resolve_candidate adapter_registry sample_config 0 AnthropicMessages ''m'' = Ok route \<and>
     rr_degraded_features route = []"
proof -
  have "\<exists>route. resolve_candidate adapter_registry sample_config 0 AnthropicMessages (rc_model (gc_routes sample_config ! 0))
      = Ok route \<and> rr_protocol_upstream route = AnthropicMessages \<and> rr_degraded_features route = [] \<and>
      rr_primary_account_id route = rc_primary_account_id (gc_routes sample_config ! 0)"
    by (rule validated_native_route_resolves [OF sample_config_valid _ refl])
      (simp_all add: sample_config_def account_def)
  then show ?thesis by (auto simp: sample_config_def)
qed

section \<open>Runtime routes\<close>

text \<open>
  A runtime route is resolved by exact protocol and model. The first published
  route for the pair decides; its first binding becomes the primary and all other bindings become
  the fallbacks, none dropped, repeated or reordered.
\<close>

theorem resolve_runtime_route_bindings:
  assumes "resolve_detailed reg (from_runtime cfg routes) p model = Ok route"
  shows "\<exists>rt us vs b. routes = us @ rt # vs \<and> rt_protocol rt = p \<and> rt_model rt = model \<and>
     (\<forall>u \<in> set us. \<not> (rt_protocol u = p \<and> rt_model u = model)) \<and>
     rt_bindings rt = b # rr_fallback_bindings route \<and>
     rr_primary_account_id route = rb_account_id b \<and> rr_binding_id route = Some (rb_binding_id b) \<and>
     rr_upstream_endpoint route = rb_upstream_endpoint b \<and>
     rr_primary_account_id route # rr_fallback_accounts route = map rb_account_id (rt_bindings rt)"
proof -
  from assms obtain rt where find: "List.find (\<lambda>route. rt_protocol route = p \<and> rt_model route = model) routes = Some rt"
    by (auto simp: resolve_detailed_def from_runtime_def resolve_runtime_route_def split: option.splits)
  then obtain us vs where "routes = us @ rt # vs" "rt_protocol rt = p" "rt_model rt = model"
    "\<forall>u \<in> set us. \<not> (rt_protocol u = p \<and> rt_model u = model)"
    by (auto simp: find_Some_iff_first)
  moreover from assms find obtain b where "rt_bindings rt = b # rr_fallback_bindings route"
    "rr_primary_account_id route = rb_account_id b" "rr_binding_id route = Some (rb_binding_id b)"
    "rr_upstream_endpoint route = rb_upstream_endpoint b"
    "rr_fallback_accounts route = map rb_account_id (rr_fallback_bindings route)"
    by (auto simp: resolve_detailed_def from_runtime_def resolve_runtime_route_def split: list.splits)
  ultimately show ?thesis
    by (intro exI [of _ rt] exI [of _ us] exI [of _ vs] exI [of _ b]) simp
qed

definition sample_binding :: "i64 \<Rightarrow> string \<Rightarrow> runtime_binding" where
  "sample_binding n aid =
     \<lparr>rb_binding_id = n, rb_source_id = ''s'', rb_provider_id = ''p'', rb_account_id = aid,
      rb_upstream_model_id = ''m-up'', rb_protocol_upstream = AnthropicMessages,
      rb_upstream_endpoint = ''https://up.example/v1/messages'', rb_mode = ''native'', rb_adapter = None,
      rb_effective_capabilities = capabilities_native, rb_degraded_features = []\<rparr>"

definition sample_runtime_route :: runtime_route where
  "sample_runtime_route =
     \<lparr>rt_route_id = ''r'', rt_model = ''m'', rt_protocol = AnthropicMessages, rt_strategy = ''priority'',
      rt_request_timeout_ms = None, rt_max_retries = Some 2, rt_allow_lossy_conversion = False,
      rt_bindings = [sample_binding 1 ''a1'', sample_binding 2 ''a2'']\<rparr>"

theorem resolve_runtime_route_bindings_witness:
  "\<exists>route (rt :: runtime_route) b. resolve_detailed adapter_registry (from_runtime sample_config [sample_runtime_route])
       AnthropicMessages ''m'' = Ok route \<and> rt_bindings rt = b # rr_fallback_bindings route"
proof -
  have "is_ok (resolve_detailed adapter_registry (from_runtime sample_config [sample_runtime_route])
      AnthropicMessages ''m'')" by code_simp
  then obtain route where "resolve_detailed adapter_registry (from_runtime sample_config [sample_runtime_route])
      AnthropicMessages ''m'' = Ok route" by (auto simp: is_ok_iff)
  with resolve_runtime_route_bindings [OF this] show ?thesis by blast
qed

section \<open>Where validation and resolution differ\<close>

text \<open>
  Validation accepts a fallback account of another provider (it only asks for a native
  declaration there), and it does not look the primary account up. The resolver refuses
  both.
\<close>

definition cross_provider_config :: gateway_config where
  "cross_provider_config = sample_config\<lparr>
     gc_providers := gc_providers sample_config @
       [(hd (gc_providers sample_config))\<lparr>pv_id := ''q''\<rparr>],
     gc_accounts := gc_accounts sample_config @
       [(hd (gc_accounts sample_config))\<lparr>ac_id := ''b'', ac_provider_id := ''q''\<rparr>],
     gc_routes := map (\<lambda>r. r\<lparr>rc_fallback_accounts := [''b'']\<rparr>) (gc_routes sample_config)\<rparr>"

lemma cross_provider_fallback_valid: "validate adapter_registry cross_provider_config = Ok ()"
  by code_simp

lemma cross_provider_fallback_refused:
  "resolve_selected adapter_registry cross_provider_config AnthropicMessages ''m'' =
   Err \<lparr>re_code = ''fallback_provider_mismatch'',
        re_message = ''fallback account '' @ quoted ''b'' @ '' belongs to provider '' @ quoted ''q'',
        re_route_id = Some ''r''\<rparr>"
  by code_simp

lemma unknown_primary_valid:
  "validate adapter_registry (sample_config\<lparr>gc_routes :=
     map (\<lambda>r. r\<lparr>rc_primary_account_id := ''ghost'', rc_fallback_accounts := []\<rparr>) (gc_routes sample_config)\<rparr>) = Ok ()"
  by code_simp

end
