(* ===== verification/Proxy_Attempt.thy ===== *)
theory Proxy_Attempt
  imports Proxy_Transport Domain_Routing
begin

text \<open>
  One upstream attempt and the choice of candidates: \<open>src/proxy/policy.rs\<close>, \<open>fallback.rs\<close>,
  \<open>forward.rs\<close> and \<open>attempt.rs\<close>.
\<close>

section \<open>Retry policy\<close>

definition MAX_SAME_ACCOUNT_RETRY_AFTER :: duration where
  "MAX_SAME_ACCOUNT_RETRY_AFTER = duration_from_secs 2"

definition primary_unavailable_reason :: "Infra_Health.account_health \<Rightarrow> string" where
  "primary_unavailable_reason h =
     (if ah_status h = ''disabled'' then ''account_disabled''
      else if ah_status h = ''cooling_down'' then ''account_cooling_down''
      else if ah_status h = ''unhealthy'' then ''account_unhealthy''
      else ''account_unavailable'')"

definition is_retryable :: "nat \<Rightarrow> bool" where
  "is_retryable status \<longleftrightarrow> status = 408 \<or> status = 429 \<or> is_server_error status"

definition retry_after_delay :: "(string \<Rightarrow> date_time option) \<Rightarrow> date_time \<Rightarrow> header_map \<Rightarrow> duration option" where
  "retry_after_delay rfc2822 now headers =
     (case header_str headers ''retry-after'' of
        None \<Rightarrow> None
      | Some raw \<Rightarrow>
          option_filter (\<lambda>delay. delay \<le> MAX_SAME_ACCOUNT_RETRY_AFTER)
            (case parse_unsigned 64 (trim raw) of
               Some seconds \<Rightarrow> Some (duration_from_secs seconds)
             | None \<Rightarrow>
                 (case rfc2822 (trim raw) of
                    None \<Rightarrow> None
                  | Some retry_at \<Rightarrow> if retry_at < now then None else Some (nat (retry_at - now)))))"

definition transport_error_status :: "transport_error \<Rightarrow> nat" where
  "transport_error_status e = (case e of Timeout _ \<Rightarrow> 504 | _ \<Rightarrow> 502)"

definition record_response_health ::
  "('w, 'b) platform \<Rightarrow> string \<Rightarrow> string \<Rightarrow> nat \<Rightarrow> 'w world \<Rightarrow> 'w world" where
  "record_response_health pl source_id account_id status w =
     (if is_retryable status then
        let (cooldown_started, w) =
              write_failure pl account_id (''upstream_http_'' @ show_nat status) ''retryable upstream response'' w
        in if cooldown_started then emit_metric (MCooldown source_id account_id) w else w
      else if is_success status then write_success pl account_id w
      else w)"

section \<open>Candidates\<close>

record fallback_candidate =
  fb_account :: account_config
  fb_provider :: provider_config
  fb_provider_id :: string
  fb_source_id :: string
  fb_upstream_model :: string
  fb_protocol_upstream :: protocol
  fb_mode :: string
  fb_upstream_endpoint :: "string option"
  fb_degraded_features :: "string list"

definition candidate_primary ::
  "resolved_route \<Rightarrow> account_config \<Rightarrow> provider_config \<Rightarrow> string \<Rightarrow> fallback_candidate" where
  "candidate_primary route acct prov model =
     \<lparr>fb_account = acct, fb_provider = prov, fb_provider_id = rr_provider_id route, fb_source_id = rr_source_id route,
      fb_upstream_model =
        (if rr_binding_id route = None then unwrap_or (rr_upstream_model_id route) (hget (ac_model_map acct) model)
         else rr_upstream_model_id route),
      fb_protocol_upstream = rr_protocol_upstream route, fb_mode = rr_mode route,
      fb_upstream_endpoint = Some (rr_upstream_endpoint route), fb_degraded_features = rr_degraded_features route\<rparr>"

text \<open>One iteration over \<open>route.fallback_bindings\<close>, and one over \<open>route.fallback_accounts\<close>.\<close>

definition binding_candidate ::
  "('w, 'b) platform \<Rightarrow> gateway_config \<Rightarrow> resolved_route \<Rightarrow> resolved_binding \<Rightarrow> 'w world
   \<Rightarrow> fallback_candidate option \<times> 'w world" where
  "binding_candidate pl cfg route b w =
     (if rb_account_id b = rr_primary_account_id route \<and>
         (rr_strategy route \<noteq> ''ordered_fallback'' \<or> rb_upstream_model_id b = rr_upstream_model_id route)
      then (None, w)
      else case account cfg (rb_account_id b) of
             None \<Rightarrow> (None, w)
           | Some acct \<Rightarrow>
               if \<not> ac_enabled acct then (None, w)
               else let (ok, w) = read_available pl (ac_id acct) w in
                 if \<not> ok then (None, w)
                 else case provider cfg (rb_source_id b) of
                        None \<Rightarrow> (None, w)
                      | Some prov \<Rightarrow>
                          (Some \<lparr>fb_account = acct, fb_provider = prov, fb_provider_id = rb_provider_id b,
                                 fb_source_id = rb_source_id b, fb_upstream_model = rb_upstream_model_id b,
                                 fb_protocol_upstream = rb_protocol_upstream b, fb_mode = rb_mode b,
                                 fb_upstream_endpoint = Some (rb_upstream_endpoint b),
                                 fb_degraded_features = rb_degraded_features b\<rparr>, w))"

definition account_candidate ::
  "('w, 'b) platform \<Rightarrow> gateway_config \<Rightarrow> resolved_route \<Rightarrow> string \<Rightarrow> protocol \<Rightarrow> string \<Rightarrow> 'w world
   \<Rightarrow> fallback_candidate option \<times> 'w world" where
  "account_candidate pl cfg route model p aid w =
     (if aid = rr_primary_account_id route then (None, w)
      else case account cfg aid of
             None \<Rightarrow> (None, w)
           | Some acct \<Rightarrow>
               if \<not> ac_enabled acct then (None, w)
               else let (ok, w) = read_available pl (ac_id acct) w in
                 if \<not> ok then (None, w)
                 else case provider cfg (ac_provider_id acct) of
                        None \<Rightarrow> (None, w)
                      | Some prov \<Rightarrow>
                          if ac_provider_id acct \<noteq> rr_source_id route \<and>
                             pc_mode (protocol_capability cfg (pv_id prov) (Some (ac_id acct)) model p) \<noteq> ProtocolMode_Native
                          then (None, w)
                          else
                            (Some \<lparr>fb_account = acct, fb_provider = prov, fb_provider_id = pv_id prov,
                                   fb_source_id = pv_id prov,
                                   fb_upstream_model = unwrap_or model (hget (ac_model_map acct) model),
                                   fb_protocol_upstream = rr_protocol_upstream route, fb_mode = rr_mode route,
                                   fb_upstream_endpoint = None, fb_degraded_features = rr_degraded_features route\<rparr>, w))"

fun collect_candidates :: "('x \<Rightarrow> 'w world \<Rightarrow> 'c option \<times> 'w world) \<Rightarrow> 'x list \<Rightarrow> 'w world \<Rightarrow> 'c list \<times> 'w world" where
  "collect_candidates f [] w = ([], w)"
| "collect_candidates f (x # xs) w =
     (let (c, w) = f x w; (cs, w) = collect_candidates f xs w in ((case c of Some y \<Rightarrow> y # cs | None \<Rightarrow> cs), w))"

definition retain_native :: "string \<Rightarrow> fallback_candidate list \<Rightarrow> fallback_candidate list" where
  "retain_native strategy cs =
     (if strategy \<noteq> ''ordered_fallback'' \<and> list_ex (\<lambda>c. fb_mode c = ''native'') cs
      then filter (\<lambda>c. fb_mode c = ''native'') cs else cs)"

definition available_fallback_candidates ::
  "('w, 'b) platform \<Rightarrow> gateway_config \<Rightarrow> resolved_route \<Rightarrow> string \<Rightarrow> protocol \<Rightarrow> 'w world
   \<Rightarrow> fallback_candidate list \<times> 'w world" where
  "available_fallback_candidates pl cfg route model p w =
     (if rr_fallback_bindings route \<noteq> []
      then let (cs, w) = collect_candidates (binding_candidate pl cfg route) (rr_fallback_bindings route) w
           in (retain_native (rr_strategy route) cs, w)
      else collect_candidates (account_candidate pl cfg route model p) (rr_fallback_accounts route) w)"

text \<open>
  The weighted choice: \<open>u32\<close> arithmetic that wraps, over the nanoseconds of the wall clock.
\<close>

definition candidate_weight :: "fallback_candidate \<Rightarrow> u32" where
  "candidate_weight c = max (ac_weight (fb_account c)) 1"

fun pick_index :: "u32 \<Rightarrow> nat \<Rightarrow> u32 \<Rightarrow> u32 list \<Rightarrow> nat" where
  "pick_index tick i cursor [] = 0"
| "pick_index tick i cursor (x # xs) =
     (let cursor = cursor + x in if tick < cursor then i else pick_index tick (i + 1) cursor xs)"

definition subsec_nanos :: "date_time \<Rightarrow> u32" where
  "subsec_nanos now = (if now < 0 then 0 else word_of_int (now mod 1000000000))"

definition weighted_index :: "date_time \<Rightarrow> u32 list \<Rightarrow> nat" where
  "weighted_index now weights = pick_index (subsec_nanos now mod max (sum_list weights) 1) 0 0 weights"

definition select_fallback_candidate ::
  "('w, 'b) platform \<Rightarrow> gateway_config \<Rightarrow> resolved_route \<Rightarrow> string \<Rightarrow> protocol \<Rightarrow> 'w world
   \<Rightarrow> fallback_candidate option \<times> 'w world" where
  "select_fallback_candidate pl cfg route model p w =
     (let (available, w) = available_fallback_candidates pl cfg route model p w in
      if available = [] then (None, w)
      else let w = pl_tick pl w in
        (Some (available ! weighted_index (w_now w) (map candidate_weight available)), w))"

section \<open>Forwarding\<close>

text \<open>No adapter is registered in production: an adapter-mode call fails closed.\<close>

definition dispatch_adapter :: "'w world \<Rightarrow> ('b live response, transport_error) result \<times> 'w world" where
  "dispatch_adapter w = (Err RequestFailed, w)"

definition resolve_credential ::
  "('w, 'b) platform \<Rightarrow> string \<Rightarrow> account_config \<Rightarrow> string \<Rightarrow> 'w world \<Rightarrow> string option \<times> 'w world" where
  "resolve_credential pl source_id acct request_id w =
     (case resolve_account_credential_result (pl_crypto pl) (pl_env pl) (pl_secrets pl) acct of
        Inr credential \<Rightarrow> (credential, w)
      | Inl e \<Rightarrow>
          (None, emit_event
            \<lparr>se_category = ''security'', se_event_type = ''credential.resolution_failed'', se_severity = ''error'',
             se_subject = ''account'', se_message = ''Account credential resolution failed'', se_subject_id = ac_id acct,
             se_correlation_id = request_id,
             se_details = JObject [(''error_code'', JString (secret_error_code e)), (''source_id'', JString source_id)]\<rparr> w))"

definition forward_fallback ::
  "('w, 'b) platform \<Rightarrow> provider_config \<Rightarrow> account_config \<Rightarrow> string \<Rightarrow> string \<Rightarrow> protocol \<Rightarrow> string \<Rightarrow> string option
   \<Rightarrow> header_map \<Rightarrow> string \<Rightarrow> stream_config \<Rightarrow> nat \<Rightarrow> 'w world
   \<Rightarrow> ('b live response, transport_error) result \<times> 'w world" where
  "forward_fallback pl prov acct source_id request_id p mode upstream_endpoint headers body config request_started w =
     (let (credential, w) = resolve_credential pl source_id acct request_id w in
      if mode = ''adapter'' then dispatch_adapter w
      else case upstream_endpoint of
             Some endpoint \<Rightarrow>
               forward_url_with_config pl endpoint acct credential p headers body config request_started w
           | None \<Rightarrow> forward_with_config pl prov acct credential p headers body config request_started w)"

section \<open>One attempt\<close>

record attempt_context =
  cx_headers :: header_map
  cx_body :: string
  cx_model :: string
  cx_protocol :: protocol
  cx_request_id :: string
  cx_stream_config :: stream_config
  cx_started :: nat

record 'b attempt_result =
  ar_result :: "('b live response, transport_error) result"
  ar_usage :: usage_attempt
  ar_request_body :: string

text \<open>\<open>usize as i32\<close> and the milliseconds of an elapsed time \<open>as i64\<close>.\<close>

definition usize_as_i32 :: "nat \<Rightarrow> int" where
  "usize_as_i32 n = sint (word_of_nat n :: i32)"

definition elapsed_ms :: "nat \<Rightarrow> nat \<Rightarrow> i64" where
  "elapsed_ms now since = word_of_nat (as_millis (now - since))"

definition execute ::
  "('w, 'b) platform \<Rightarrow> attempt_context \<Rightarrow> fallback_candidate \<Rightarrow> nat \<Rightarrow> bool \<Rightarrow> 'w world
   \<Rightarrow> 'b attempt_result \<times> 'w world" where
  "execute pl cx candidate attempt_no is_fallback w =
     (let prepared = prepare_model_request (pl_parse pl) (pl_print pl) (cx_body cx) (cx_model cx) (fb_upstream_model candidate);
          account_id = ac_id (fb_account candidate);
          w = pl_tick pl w;
          started = w_instant w;
          (result, w) = forward_fallback pl (fb_provider candidate) (fb_account candidate) (fb_source_id candidate)
                          (cx_request_id cx) (fb_protocol_upstream candidate) (fb_mode candidate)
                          (fb_upstream_endpoint candidate) (cx_headers cx) (pm_body prepared) (cx_stream_config cx)
                          (cx_started cx) w;
          latency_ms = elapsed_ms (w_instant w) started;
          (status_code, success, w) =
            (case result of
               Inr response \<Rightarrow>
                 (int (rp_status response), is_success (rp_status response),
                  record_response_health pl (fb_source_id candidate) account_id (rp_status response) w)
             | Inl e \<Rightarrow>
                 (transport_status_code e, False,
                  snd (write_failure pl account_id ''upstream_transport_error'' ''upstream request failed'' w)));
          w = emit_metric (MAttempt (cx_protocol cx) (fb_source_id candidate) account_id status_code is_fallback) w
      in (\<lparr>ar_result = result,
           ar_usage =
             \<lparr>ua_attempt_no = usize_as_i32 attempt_no, ua_provider_id = fb_provider_id candidate,
              ua_source_id = fb_source_id candidate, ua_account_id = account_id,
              ua_upstream_model_id = Some (pm_upstream_model_id prepared), ua_status_code = status_code,
              ua_success = success, ua_latency_ms = latency_ms\<rparr>,
           ar_request_body = pm_body prepared\<rparr>, w))"

end
