(* ===== verification/Proxy_Candidates.thy ===== *)
theory Proxy_Candidates
  imports Proxy_Attempt
begin

text \<open>
  Facts about the choice of fallback candidates and about one attempt.
\<close>

section \<open>Which accounts become candidates\<close>

text \<open>Reading candidates changes the world only by interference.\<close>

definition ticks :: "('w, 'b) platform \<Rightarrow> 'w world \<Rightarrow> 'w world \<Rightarrow> bool" where
  "ticks pl w v \<longleftrightarrow> (\<exists>n. v = (pl_tick pl ^^ n) w)"

lemma ticks_refl [simp]: "ticks pl w w"
  unfolding ticks_def by (rule exI [of _ 0]) simp

lemma ticks_tick [simp]: "ticks pl w (pl_tick pl w)"
  unfolding ticks_def by (rule exI [of _ 1]) simp

lemma ticks_trans: "ticks pl u v \<Longrightarrow> ticks pl v w \<Longrightarrow> ticks pl u w"
  unfolding ticks_def by (metis comp_apply funpow_add)

lemma collect_candidates_origin:
  assumes "c \<in> set (fst (collect_candidates f xs w))" "\<And>x v. ticks pl v (snd (f x v))"
  shows "\<exists>x \<in> set xs. \<exists>v. ticks pl w v \<and> fst (f x v) = Some c"
  using assms(1)
proof (induction xs arbitrary: w)
  case (Cons x xs)
  show ?case
  proof (cases "fst (f x w) = Some c")
    case True
    then show ?thesis by auto
  next
    case False
    with Cons.prems have "c \<in> set (fst (collect_candidates f xs (snd (f x w))))"
      by (auto simp: case_prod_beta Let_def split: option.splits)
    with Cons.IH assms(2) ticks_trans show ?thesis by (meson list.set_intros(2))
  qed
qed simp

lemma account_id: "account cfg aid = Some a \<Longrightarrow> ac_id a = aid"
  by (auto simp: account_def find_Some_iff)

text \<open>The registry reported the account available at some moment after \<open>w\<close>.\<close>

definition seen_available :: "('w, 'b) platform \<Rightarrow> string \<Rightarrow> 'w world \<Rightarrow> bool" where
  "seen_available pl aid w \<longleftrightarrow>
     (\<exists>v. ticks pl w v \<and> is_available (pl_from_std pl) (w_read_ok v) (w_now v) aid (w_health v))"

lemma read_available_seen: "fst (read_available pl aid w) \<Longrightarrow> seen_available pl aid w"
  unfolding read_available_def seen_available_def Let_def by (auto intro!: exI [of _ "pl_tick pl w"])

lemma seen_available_later: "ticks pl w v \<Longrightarrow> seen_available pl aid v \<Longrightarrow> seen_available pl aid w"
  unfolding seen_available_def using ticks_trans by blast

lemma read_available_world [simp]: "snd (read_available pl aid w) = pl_tick pl w"
  by (simp add: read_available_def Let_def)

lemma binding_candidate_ticks: "ticks pl w (snd (binding_candidate pl cfg route b w))"
  by (auto simp: binding_candidate_def case_prod_beta Let_def split: option.split)

lemma account_candidate_ticks: "ticks pl w (snd (account_candidate pl cfg route model p aid w))"
  by (auto simp: account_candidate_def case_prod_beta Let_def split: option.split)

lemma binding_candidate_spec:
  assumes "fst (binding_candidate pl cfg route b w) = Some c"
  shows "account cfg (rb_account_id b) = Some (fb_account c) \<and> ac_enabled (fb_account c) \<and>
    provider cfg (rb_source_id b) = Some (fb_provider c) \<and> seen_available pl (rb_account_id b) w \<and>
    fb_source_id c = rb_source_id b \<and> fb_upstream_model c = rb_upstream_model_id b \<and>
    fb_protocol_upstream c = rb_protocol_upstream b \<and> fb_mode c = rb_mode b \<and>
    (rb_account_id b = rr_primary_account_id route \<longrightarrow>
       rr_strategy route = ''ordered_fallback'' \<and> rb_upstream_model_id b \<noteq> rr_upstream_model_id route)"
  using assms read_available_seen [of pl "rb_account_id b" w]
  by (auto simp: binding_candidate_def case_prod_beta Let_def account_id split: if_splits option.splits)

lemma account_candidate_spec:
  assumes "fst (account_candidate pl cfg route model p aid w) = Some c"
  shows "account cfg aid = Some (fb_account c) \<and> ac_enabled (fb_account c) \<and> aid \<noteq> rr_primary_account_id route \<and>
    provider cfg (ac_provider_id (fb_account c)) = Some (fb_provider c) \<and> seen_available pl aid w \<and>
    (ac_provider_id (fb_account c) = rr_source_id route \<or>
     pc_mode (protocol_capability cfg (pv_id (fb_provider c)) (Some aid) model p) = ProtocolMode_Native)"
  using assms read_available_seen [of pl aid w]
  by (auto simp: account_candidate_def case_prod_beta Let_def account_id split: if_splits option.splits)

lemma retain_native_subset: "set (retain_native s cs) \<subseteq> set cs"
  by (auto simp: retain_native_def)

lemma fallback_candidate_cases:
  assumes "c \<in> set (fst (available_fallback_candidates pl cfg route model p w))"
  obtains (binding) b v where "b \<in> set (rr_fallback_bindings route)" "ticks pl w v"
      "fst (binding_candidate pl cfg route b v) = Some c"
  | (account) aid v where "rr_fallback_bindings route = []" "aid \<in> set (rr_fallback_accounts route)" "ticks pl w v"
      "fst (account_candidate pl cfg route model p aid v) = Some c"
proof (cases "rr_fallback_bindings route = []")
  case True
  with assms have "c \<in> set (fst (collect_candidates (account_candidate pl cfg route model p) (rr_fallback_accounts route) w))"
    by (simp add: available_fallback_candidates_def)
  from collect_candidates_origin [OF this, of pl] account_candidate_ticks account [OF True] show ?thesis by blast
next
  case False
  with assms retain_native_subset have
    "c \<in> set (fst (collect_candidates (binding_candidate pl cfg route) (rr_fallback_bindings route) w))"
    by (fastforce simp: available_fallback_candidates_def case_prod_beta)
  from collect_candidates_origin [OF this, of pl] binding_candidate_ticks binding show ?thesis by blast
qed

text \<open>
  Which accounts a request may fall back to. Every candidate is an enabled account of the
  configuration with a configured provider, the registry reported it available, and it is
  not the primary account (except, in an ordered route, for another upstream model); a candidate
  of another source must serve the protocol natively; and outside ordered routes one native
  binding excludes every converted one.
\<close>

theorem fallback_candidates_usable:
  assumes "c \<in> set (fst (available_fallback_candidates pl cfg route model p w))"
  defines "aid \<equiv> ac_id (fb_account c)"
  shows "account cfg aid = Some (fb_account c) \<and> ac_enabled (fb_account c) \<and> seen_available pl aid w \<and>
    (\<exists>pid. provider cfg pid = Some (fb_provider c)) \<and>
    (aid = rr_primary_account_id route \<longrightarrow>
       rr_strategy route = ''ordered_fallback'' \<and> fb_upstream_model c \<noteq> rr_upstream_model_id route) \<and>
    (rr_fallback_bindings route = [] \<longrightarrow> ac_provider_id (fb_account c) = rr_source_id route \<or>
       pc_mode (protocol_capability cfg (pv_id (fb_provider c)) (Some aid) model p) = ProtocolMode_Native) \<and>
    (rr_fallback_bindings route \<noteq> [] \<and> rr_strategy route \<noteq> ''ordered_fallback'' \<and>
     (\<exists>c' \<in> set (fst (available_fallback_candidates pl cfg route model p w)). fb_mode c' = ''native'')
       \<longrightarrow> fb_mode c = ''native'')"
proof -
  have native: "rr_fallback_bindings route \<noteq> [] \<and> rr_strategy route \<noteq> ''ordered_fallback'' \<and>
     (\<exists>c' \<in> set (fst (available_fallback_candidates pl cfg route model p w)). fb_mode c' = ''native'')
       \<longrightarrow> fb_mode c = ''native''"
    using assms(1)
    by (auto simp: available_fallback_candidates_def retain_native_def case_prod_beta list_ex_iff split: if_splits)
  from assms(1) show ?thesis
  proof (cases rule: fallback_candidate_cases)
    case (binding b v)
    from binding_candidate_spec [OF binding(3)] account_id [of cfg "rb_account_id b"] native binding(1)
      seen_available_later [OF binding(2)] show ?thesis
      unfolding aid_def by auto
  next
    case (account a v)
    from account_candidate_spec [OF account(4)] account_id [of cfg a] account(1)
      seen_available_later [OF account(3)] show ?thesis
      unfolding aid_def by auto
  qed
qed

definition sample_route :: resolved_route where
  "sample_route =
     \<lparr>rr_route_id = ''r'', rr_strategy = ''priority'', rr_request_timeout_ms = None, rr_max_retries = None,
      rr_protocol = AnthropicMessages, rr_protocol_in = AnthropicMessages, rr_protocol_upstream = AnthropicMessages,
      rr_model = ''m'', rr_requested_model = ''m'', rr_upstream_model_id = ''m'', rr_source_id = ''p'', rr_provider_id = ''p'',
      rr_primary_account_id = ''a1'', rr_fallback_accounts = [''a2''], rr_fallback_bindings = [], rr_binding_id = None,
      rr_upstream_endpoint = ''https://up.example/v1/messages'', rr_mode = ''native'', rr_adapter = None,
      rr_effective_capabilities = capabilities_native, rr_degraded_features = [], rr_allow_lossy_conversion = False\<rparr>"

abbreviation quiet_platform :: "(unit, unit) platform" where
  "quiet_platform \<equiv> sample_platform (\<lambda>_. (1, Ok (sample_upstream 200)))"

lemma sample_candidates:
  "map (ac_id \<circ> fb_account)
     (fst (available_fallback_candidates quiet_platform sample_config sample_route ''m'' AnthropicMessages sample_world)) =
   [''a2'']"
  by (simp add: available_fallback_candidates_def account_candidate_def sample_route_def sample_config_def account_def
      provider_def read_available_def is_available_def sample_platform_def sample_world_def with_config_and_clock_def)

theorem fallback_candidates_usable_witness:
  "account sample_config ''a2'' =
     Some (fb_account (hd (fst (available_fallback_candidates quiet_platform sample_config sample_route ''m''
       AnthropicMessages sample_world))))"
proof -
  let ?cs = "fst (available_fallback_candidates quiet_platform sample_config sample_route ''m'' AnthropicMessages sample_world)"
  from sample_candidates obtain c where c: "?cs = [c]" "ac_id (fb_account c) = ''a2''" by (auto simp: map_eq_Cons_conv)
  then show ?thesis
    using fallback_candidates_usable [of c quiet_platform sample_config sample_route "''m''" AnthropicMessages sample_world]
    by simp
qed

section \<open>The weighted choice\<close>

lemma pick_index_bound: "pick_index t i cur ws < max (i + length ws) 1"
  by (induction t i cur ws rule: pick_index.induct) (force simp: Let_def)+

lemma weighted_index_bound: "ws \<noteq> [] \<Longrightarrow> weighted_index now ws < length ws"
  using pick_index_bound [of "subsec_nanos now mod max (sum_list ws) 1" 0 0 ws]
  by (cases "length ws") (simp_all add: weighted_index_def)

lemma select_fallback_member:
  assumes "select_fallback_candidate pl cfg route model p w = (Some c, w')"
  shows "c \<in> set (fst (available_fallback_candidates pl cfg route model p w))"
  using assms weighted_index_bound [of "map candidate_weight (fst (available_fallback_candidates pl cfg route model p w))"]
  by (auto simp: select_fallback_candidate_def case_prod_beta Let_def split: if_splits intro!: nth_mem)

lemma pick_index_interval:
  assumes "unat cur + sum_list (map unat ws) < 2 ^ 32" "j < length ws"
    and "unat cur + sum_list (map unat (take j ws)) \<le> unat tick"
    and "unat tick < unat cur + sum_list (map unat (take (Suc j) ws))"
  shows "pick_index tick i cur ws = i + j"
  using assms
proof (induction ws arbitrary: i j cur)
  case (Cons x ws)
  have x: "unat (cur + x) = unat cur + unat x"
    using Cons.prems(1) by (subst unat_add_lem [symmetric]) simp_all
  show ?case
  proof (cases j)
    case 0
    then show ?thesis using Cons.prems x by (simp add: word_less_nat_alt)
  next
    case (Suc k)
    then have "\<not> tick < cur + x" using Cons.prems x by (simp add: word_less_nat_alt)
    with Suc Cons.prems x Cons.IH [of "cur + x" k "i + 1"] show ?thesis by simp
  qed
qed simp

lemma prefix_interval:
  fixes ns :: "nat list"
  assumes "t < sum_list ns"
  shows "\<exists>j < length ns. sum_list (take j ns) \<le> t \<and> t < sum_list (take (Suc j) ns)"
  using assms
proof (induction ns arbitrary: t)
  case (Cons n ns)
  show ?case
  proof (cases "t < n")
    case True
    then show ?thesis by (intro exI [of _ 0]) simp
  next
    case False
    with Cons.prems have "t - n < sum_list ns" by simp
    from Cons.IH [OF this] obtain j where "j < length ns" "sum_list (take j ns) \<le> t - n" "t - n < sum_list (take (Suc j) ns)"
      by blast
    then show ?thesis using False by (intro exI [of _ "Suc j"]) auto
  qed
qed simp

lemma pick_index_set:
  assumes "sum_list (map unat ws) < 2 ^ 32" "j < length ws"
  shows "{t. t < sum_list (map unat ws) \<and> pick_index (word_of_nat t) 0 0 ws = j} =
    {sum_list (map unat (take j ws)) ..< sum_list (map unat (take (Suc j) ws))}" (is "?A = ?B")
proof -
  have pick: "pick_index (word_of_nat t) 0 0 ws = k"
    if "k < length ws" "sum_list (map unat (take k ws)) \<le> t" "t < sum_list (map unat (take (Suc k) ws))" "t < 2 ^ 32"
    for t k
    using pick_index_interval [of 0 ws k "word_of_nat t" 0] assms(1) that by (simp add: unat_of_nat)
  have le: "sum_list (map unat (take k ws)) \<le> sum_list (map unat ws)" for k
    by (metis append_take_drop_id le_add1 map_append sum_list_append)
  show ?thesis
  proof (intro set_eqI iffI)
    fix t assume t: "t \<in> ?A"
    then obtain k where k: "k < length ws" "sum_list (map unat (take k ws)) \<le> t" "t < sum_list (map unat (take (Suc k) ws))"
      using prefix_interval [of t "map unat ws"] by (auto simp: take_map)
    with t pick [OF k] assms(1) have "k = j" by auto
    with k show "t \<in> ?B" by simp
  next
    fix t assume t: "t \<in> ?B"
    then have "t < sum_list (map unat ws)" using le [of "Suc j"] by auto
    then show "t \<in> ?A" using t pick [OF assms(2)] assms(1) by auto
  qed
qed

text \<open>
  The weighted choice is proportional. While the weights do not overflow 32 bits, the clock's
  nanoseconds modulo the total weight select each candidate for exactly as many of the possible
  values as its weight says.
\<close>

theorem weighted_choice_proportional:
  assumes "sum_list (map unat ws) < 2 ^ 32" "j < length ws" "ws ! j \<noteq> 0" "0 \<le> now"
  defines "tot \<equiv> sum_list (map unat ws)"
  shows "card {t. t < tot \<and> pick_index (word_of_nat t) 0 0 ws = j} = unat (ws ! j) \<and>
    weighted_index now ws = pick_index (word_of_nat (nat (now mod 1000000000) mod tot)) 0 0 ws"
proof -
  have step: "sum_list (map unat (take (Suc j) ws)) = sum_list (map unat (take j ws)) + unat (ws ! j)"
    using assms(2) by (simp add: take_Suc_conv_app_nth)
  have "unat (sum_list us) = sum_list (map unat us)" if "sum_list (map unat us) < 2 ^ 32" for us :: "u32 list"
    using that
  proof (induction us)
    case (Cons u us)
    then show ?case by (subst sum_list.Cons, subst unat_add_lem [THEN iffD1]) auto
  qed simp
  then have tot: "unat (sum_list ws) = tot" using assms(1) by (simp add: tot_def)
  have pos: "0 < tot"
  proof -
    have "unat (ws ! j) \<le> tot"
      unfolding tot_def using assms(2) by (simp add: member_le_sum_list)
    then show ?thesis using assms(3) unat_gt_0 [of "ws ! j"] by linarith
  qed
  then have "max (sum_list ws) 1 = sum_list ws"
    using tot by (simp add: max_def word_le_nat_alt word_unat_eq_iff)
  moreover have "unat (subsec_nanos now) = nat (now mod 1000000000)"
  proof -
    have "0 \<le> now mod 1000000000" "now mod 1000000000 < 2 ^ 32"
      using pos_mod_bound [of 1000000000 now] by simp_all
    then show ?thesis using assms(4) by (simp add: subsec_nanos_def unat_eq_nat_uint uint_word_of_int take_bit_int_eq_self)
  qed
  ultimately have "subsec_nanos now mod max (sum_list ws) 1 = word_of_nat (nat (now mod 1000000000) mod tot)"
    by (simp add: word_arith_nat_mod tot)
  then show ?thesis
    using pick_index_set [OF assms(1,2)] step by (simp add: weighted_index_def tot_def)
qed

theorem weighted_choice_proportional_witness:
  "card {t. t < 4 \<and> pick_index (word_of_nat t) 0 0 [1, 3] = 1} = 3"
  using weighted_choice_proportional [of "[1, 3]" 1 0] by simp

end
