(* ===== verification/Proxy_Observation.thy ===== *)
theory Proxy_Observation
  imports Proxy_Native Stream_Tracker
begin

text \<open>
  \<open>src/proxy/usage.rs\<close>, the observer of a streamed response: the estimate of reasoning tokens
  inside \<open><think>\<close> blocks, the guard that captures a bounded prefix and reports exactly once,
  and the choice of the usage to record from what was observed.
\<close>

section \<open>Reasoning estimate\<close>

record thinking_estimate =
  th_pending :: string
  th_inside :: bool
  th_unavailable :: bool
  th_tokens :: i64
  th_processed_bytes :: nat

definition thinking_default :: thinking_estimate where
  "thinking_default =
     \<lparr>th_pending = [], th_inside = False, th_unavailable = False, th_tokens = 0, th_processed_bytes = 0\<rparr>"

text \<open>\<open>i64::saturating_add\<close> of a non-negative number.\<close>

definition i64_saturating_add :: "i64 \<Rightarrow> i64 \<Rightarrow> i64" where
  "i64_saturating_add a b =
     (if sint a + sint b > i64_max then word_of_int i64_max
      else if sint a + sint b < - i64_max - 1 then word_of_int (- i64_max - 1) else a + b)"

definition thinking_byte :: "(string \<Rightarrow> nat) \<Rightarrow> char \<Rightarrow> thinking_estimate \<Rightarrow> thinking_estimate" where
  "thinking_byte tokenize byte s =
     (if th_unavailable s then s
      else
        let s = s\<lparr>th_pending := th_pending s @ [byte]\<rparr> in
        if th_inside s then
          (let s = s\<lparr>th_processed_bytes := th_processed_bytes s + 1\<rparr> in
           if MAX_ESTIMATE_BYTES < th_processed_bytes s then s\<lparr>th_unavailable := True, th_pending := []\<rparr>
           else if ends_with (th_pending s) ''</think>'' then
             (let block = take (length (th_pending s) - 8) (th_pending s) in
              s\<lparr>th_tokens := i64_saturating_add (th_tokens s) (word_of_nat (tokenize (from_utf8_lossy block))),
                th_pending := [], th_inside := False\<rparr>)
           else if MAX_ESTIMATE_BYTES \<le> length (th_pending s) then s\<lparr>th_unavailable := True, th_pending := []\<rparr>
           else s)
        else if ends_with (th_pending s) ''<think>'' then s\<lparr>th_pending := [], th_inside := True\<rparr>
        else if 7 \<le> length (th_pending s) then s\<lparr>th_pending := tl (th_pending s)\<rparr>
        else s)"

definition thinking_feed :: "(string \<Rightarrow> nat) \<Rightarrow> string \<Rightarrow> thinking_estimate \<Rightarrow> thinking_estimate" where
  "thinking_feed tokenize bytes s = fold (thinking_byte tokenize) bytes s"

definition thinking_result :: "thinking_estimate \<Rightarrow> i64 option" where
  "thinking_result s = (if \<not> th_unavailable s \<and> \<not> th_inside s then Some (th_tokens s) else None)"

section \<open>The guard\<close>

record stream_observation =
  so_captured :: string
  so_capture_truncated :: bool
  so_parsed_usage :: "usage_report option"
  so_estimated_reasoning_tokens :: "i64 option"
  so_response_model :: "string option"
  so_response_reasoning_effort :: "string option"
  so_ttft_ms :: "i64 option"
  so_failed :: bool
  so_termination :: stream_termination

text \<open>\<open>og_callback\<close> says whether the callback has not been called yet.\<close>

record observation_guard =
  og_callback :: bool
  og_thinking :: thinking_estimate
  og_captured :: string
  og_streamed_bytes :: u64
  og_capture_truncated :: bool
  og_ttft_ms :: "i64 option"
  og_termination :: "stream_termination option"
  og_tracker :: sse_tracker
  og_request_started :: nat

definition observation_new :: "nat \<Rightarrow> observation_guard" where
  "observation_new request_started =
     \<lparr>og_callback = True, og_thinking = thinking_default, og_captured = [], og_streamed_bytes = 0,
      og_capture_truncated = False, og_ttft_ms = None, og_termination = None, og_tracker = tracker_default,
      og_request_started = request_started\<rparr>"

fun split_inclusive :: "string \<Rightarrow> string list" where
  "split_inclusive [] = []"
| "split_inclusive (b # bs) =
     (if b = CHR 0x0A then [b] # split_inclusive bs
      else case split_inclusive bs of [] \<Rightarrow> [[b]] | seg # segs \<Rightarrow> (b # seg) # segs)"

definition has_provider_bytes :: "string \<Rightarrow> bool" where
  "has_provider_bytes bytes =
     (bytes \<noteq> [] \<and>
      (let text = from_utf8_lossy bytes in
       list_ex (\<lambda>line. trim line \<noteq> [] \<and> \<not> starts_with (trim line) '':'') (split_inclusive text) \<or>
       (CHR 0x0A \<notin> set text \<and> trim text \<noteq> [])))"

definition observe_segment :: "(string \<Rightarrow> nat) \<Rightarrow> string \<Rightarrow> observation_guard \<times> bool \<Rightarrow> observation_guard \<times> bool" where
  "observe_segment tokenize bytes = (\<lambda>(g, provider_activity).
     if is_gateway_heartbeat bytes then (g, provider_activity)
     else
       let remaining = MAX_ESTIMATE_BYTES - length (og_captured g) in
       (g\<lparr>og_thinking := thinking_feed tokenize bytes (og_thinking g),
          og_streamed_bytes := saturating_add (og_streamed_bytes g) (word_of_nat (length bytes)),
          og_capture_truncated := (og_capture_truncated g \<or> remaining < length bytes),
          og_captured := og_captured g @ take remaining bytes\<rparr>,
        provider_activity \<or> has_provider_bytes bytes))"

definition observe_chunk ::
  "json_parser \<Rightarrow> (string \<Rightarrow> nat) \<Rightarrow> nat \<Rightarrow> string \<Rightarrow> observation_guard \<Rightarrow> observation_guard" where
  "observe_chunk parse tokenize now chunk g =
     (let (t, activity) = feed parse chunk (og_tracker g);
          (g, provider_activity) =
            fold (observe_segment tokenize) (split_inclusive chunk) (g\<lparr>og_tracker := t\<rparr>, False);
          g = (if og_ttft_ms g = None \<and> \<not> (act_error activity \<and> \<not> act_provider_event activity) \<and> provider_activity
               then g\<lparr>og_ttft_ms := Some (word_of_nat (as_millis (now - og_request_started g)))\<rparr> else g)
      in if act_error activity then
           g\<lparr>og_termination := Some (unwrap_or UpstreamError (option_filter is_failure (act_terminal activity)))\<rparr>
         else case act_terminal activity of
                Some terminal \<Rightarrow> g\<lparr>og_termination := Some terminal\<rparr>
              | None \<Rightarrow> g)"

definition guard_complete ::
  "stream_termination \<Rightarrow> observation_guard \<Rightarrow> observation_guard \<times> stream_observation list" where
  "guard_complete termination g =
     (if \<not> og_callback g then (g, [])
      else
        let termination = unwrap_or termination (og_termination g) in
        (g\<lparr>og_termination := Some termination, og_callback := False, og_captured := []\<rparr>,
         [\<lparr>so_captured = og_captured g, so_capture_truncated = og_capture_truncated g,
           so_parsed_usage = usage_accumulated (tr_usage (og_tracker g)),
           so_estimated_reasoning_tokens = thinking_result (og_thinking g),
           so_response_model = ri_model (tr_response_identity (og_tracker g)),
           so_response_reasoning_effort = ri_reasoning_effort (tr_response_identity (og_tracker g)),
           so_ttft_ms = og_ttft_ms g, so_failed = is_failure termination, so_termination = termination\<rparr>]))"

text \<open>
  What the downstream does with the body: it takes the next item of the stream (a chunk, an error
  or the end), or drops the body, after which nothing follows.
\<close>

datatype body_event = BodyChunk string | BodyError | BodyEof

definition guard_eof :: "json_parser \<Rightarrow> observation_guard \<Rightarrow> observation_guard \<times> stream_observation list" where
  "guard_eof parse g =
     (let (t, activity) = finish_eof parse (og_tracker g); g = g\<lparr>og_tracker := t\<rparr> in
      if act_error activity then guard_complete (unwrap_or UpstreamError (act_terminal activity)) g
      else if tr_saw_provider_event t then
        guard_complete (unwrap_or (if tr_saw_sse_frame t then IncompleteStream else Completed) (tr_terminal t)) g
      else guard_complete EmptyStream g)"

definition observe_next ::
  "json_parser \<Rightarrow> (string \<Rightarrow> nat) \<Rightarrow> nat \<times> body_event \<Rightarrow> observation_guard
   \<Rightarrow> string list \<times> observation_guard \<times> stream_observation list" where
  "observe_next parse tokenize = (\<lambda>(now, ev) g.
     case ev of
       BodyChunk chunk \<Rightarrow> ([chunk], observe_chunk parse tokenize now chunk g, [])
     | BodyError \<Rightarrow> ([], guard_complete TransportError g)
     | BodyEof \<Rightarrow> ([], guard_eof parse g))"

fun observe_run ::
  "json_parser \<Rightarrow> (string \<Rightarrow> nat) \<Rightarrow> (nat \<times> body_event) list \<Rightarrow> observation_guard
   \<Rightarrow> string list \<times> observation_guard \<times> stream_observation list" where
  "observe_run parse tokenize [] g = ([], g, [])"
| "observe_run parse tokenize (e # es) g =
     (let (out, g, reports) = observe_next parse tokenize e g;
          (outs, g, more) = observe_run parse tokenize es g
      in (out @ outs, g, reports @ more))"

text \<open>The whole life of an observed body: the items taken, then the drop.\<close>

definition observe_stream_body ::
  "json_parser \<Rightarrow> (string \<Rightarrow> nat) \<Rightarrow> nat \<Rightarrow> (nat \<times> body_event) list \<Rightarrow> string list \<times> stream_observation list" where
  "observe_stream_body parse tokenize request_started es =
     (let (outs, g, reports) = observe_run parse tokenize es (observation_new request_started);
          (_, last) = guard_complete ClientCancelled g
      in (outs, reports @ last))"

section \<open>Usage of an observed stream\<close>

definition usage_for_stream_observation ::
  "(string \<Rightarrow> nat) \<Rightarrow> bool \<Rightarrow> string \<Rightarrow> stream_observation \<Rightarrow> usage_report" where
  "usage_for_stream_observation tokenize success request obs =
     (let report = unwrap_or
            (if success \<and> \<not> so_capture_truncated obs then estimate tokenize request (so_captured obs) else usage_missing)
            (so_parsed_usage obs)
      in if ur_reasoning_tokens report = 0 \<and> ur_source report \<noteq> ''missing''
         then report\<lparr>ur_reasoning_tokens := unwrap_or 0 (so_estimated_reasoning_tokens obs)\<rparr> else report)"

section \<open>One report, one bounded prefix\<close>

fun body_chunks :: "(nat \<times> body_event) list \<Rightarrow> string list" where
  "body_chunks [] = []"
| "body_chunks ((now, BodyChunk c) # es) = c # body_chunks es"
| "body_chunks (_ # es) = body_chunks es"

text \<open>The chunks up to the end or the first error.\<close>

fun seen_chunks :: "(nat \<times> body_event) list \<Rightarrow> string list" where
  "seen_chunks [] = []"
| "seen_chunks ((now, BodyChunk c) # es) = c # seen_chunks es"
| "seen_chunks (_ # es) = []"

text \<open>The provider's bytes: everything but the gateway's heartbeat lines.\<close>

definition payload :: "string list \<Rightarrow> string" where
  "payload chunks = concat (filter (\<lambda>seg. \<not> is_gateway_heartbeat seg) (concat (map split_inclusive chunks)))"

lemma payload_simps [simp]:
  "payload [] = []"
  "payload (c # cs) = concat (filter (\<lambda>seg. \<not> is_gateway_heartbeat seg) (split_inclusive c)) @ payload cs"
  by (simp_all add: payload_def)

definition capture_inv :: "string \<Rightarrow> observation_guard \<Rightarrow> bool" where
  "capture_inv P g \<longleftrightarrow> og_captured g = take MAX_ESTIMATE_BYTES P \<and>
     (og_capture_truncated g \<longleftrightarrow> MAX_ESTIMATE_BYTES < length P) \<and> og_callback g"

lemma capture_segment:
  assumes "capture_inv P g"
  shows "capture_inv (P @ (if is_gateway_heartbeat seg then [] else seg)) (fst (observe_segment tokenize seg (g, b)))"
  using assms by (auto simp: capture_inv_def observe_segment_def Let_def min_def)

lemma capture_segments:
  "capture_inv P g \<Longrightarrow>
   capture_inv (P @ concat (filter (\<lambda>seg. \<not> is_gateway_heartbeat seg) segs)) (fst (fold (observe_segment tokenize) segs (g, b)))"
proof (induction segs arbitrary: P g b)
  case (Cons seg segs)
  obtain g' b' where step: "observe_segment tokenize seg (g, b) = (g', b')" by fastforce
  have "capture_inv (P @ (if is_gateway_heartbeat seg then [] else seg)) g'"
    using capture_segment [OF Cons.prems, of seg tokenize b] step by simp
  from Cons.IH [OF this, of b'] show ?case by (simp add: step split: if_splits)
qed simp

lemma capture_chunk:
  assumes "capture_inv P g"
  shows "capture_inv (P @ concat (filter (\<lambda>seg. \<not> is_gateway_heartbeat seg) (split_inclusive chunk)))
    (observe_chunk parse tokenize now chunk g)"
proof -
  obtain t a where t: "feed parse chunk (og_tracker g) = (t, a)" by fastforce
  obtain g' b where g': "fold (observe_segment tokenize) (split_inclusive chunk) (g\<lparr>og_tracker := t\<rparr>, False) = (g', b)"
    by fastforce
  have "capture_inv P (g\<lparr>og_tracker := t\<rparr>)" using assms by (simp add: capture_inv_def)
  from capture_segments [OF this, of "split_inclusive chunk" tokenize False] g' t show ?thesis
    by (simp add: observe_chunk_def Let_def capture_inv_def split: option.split)
qed

lemma guard_complete_reports:
  "snd (guard_complete t g) = (if og_callback g then snd (guard_complete t g) else [])"
  "og_callback g \<Longrightarrow> \<exists>ob. snd (guard_complete t g) = [ob] \<and> so_captured ob = og_captured g \<and>
     so_capture_truncated ob = og_capture_truncated g \<and> so_termination ob = unwrap_or t (og_termination g) \<and>
     (so_failed ob \<longleftrightarrow> is_failure (so_termination ob))"
  "\<not> og_callback (fst (guard_complete t g))"
  by (auto simp: guard_complete_def Let_def)

lemma guard_eof_complete:
  "\<exists>t g'. guard_eof parse g = guard_complete t g' \<and> og_callback g' = og_callback g \<and> og_captured g' = og_captured g \<and>
     og_capture_truncated g' = og_capture_truncated g"
  unfolding guard_eof_def Let_def case_prod_beta by (auto intro!: exI)

lemma segments_callback [simp]: "og_callback (fst (fold (observe_segment tokenize) segs (g, b))) = og_callback g"
proof (induction segs arbitrary: g b)
  case (Cons seg segs)
  obtain g' b' where step: "observe_segment tokenize seg (g, b) = (g', b')" by fastforce
  then have "og_callback g' = og_callback g"
    by (auto simp: observe_segment_def Let_def split: if_splits)
  with Cons.IH step show ?case by simp
qed simp

lemma observe_chunk_callback [simp]: "og_callback (observe_chunk parse tokenize now chunk g) = og_callback g"
proof -
  obtain g' b where "fold (observe_segment tokenize) (split_inclusive chunk)
    (g\<lparr>og_tracker := fst (feed parse chunk (og_tracker g))\<rparr>, False) = (g', b)" by fastforce
  with segments_callback [of tokenize "split_inclusive chunk" "g\<lparr>og_tracker := fst (feed parse chunk (og_tracker g))\<rparr>" False]
  show ?thesis by (simp add: observe_chunk_def Let_def case_prod_beta split: option.split)
qed

lemma run_after_report:
  "\<not> og_callback g \<Longrightarrow> \<exists>g'. observe_run parse tokenize es g = (body_chunks es, g', []) \<and> \<not> og_callback g'"
proof (induction es arbitrary: g)
  case (Cons e es)
  obtain now ev where e: "e = (now, ev)" by fastforce
  show ?case
  proof (cases ev)
    case (BodyChunk c)
    with Cons.IH [of "observe_chunk parse tokenize now c g"] Cons.prems e show ?thesis
      by (auto simp: observe_next_def)
  next
    case BodyError
    with Cons.IH [of g] Cons.prems e show ?thesis by (auto simp: observe_next_def guard_complete_def)
  next
    case BodyEof
    obtain t g1 where c: "guard_eof parse g = guard_complete t g1" "og_callback g1 = og_callback g"
      using guard_eof_complete [of parse g] by blast
    then have "guard_eof parse g = (g1, [])" "\<not> og_callback g1" using Cons.prems by (simp_all add: guard_complete_def)
    with Cons.IH [of g1] e BodyEof show ?thesis by (auto simp: observe_next_def)
  qed
qed simp

lemma run_report:
  assumes "capture_inv P g"
  shows "\<exists>g' reports ob. observe_run parse tokenize es g = (body_chunks es, g', reports) \<and>
    reports @ snd (guard_complete ClientCancelled g') = [ob] \<and>
    (so_failed ob \<longleftrightarrow> is_failure (so_termination ob)) \<and>
    so_captured ob = take MAX_ESTIMATE_BYTES (P @ payload (seen_chunks es)) \<and>
    (so_capture_truncated ob \<longleftrightarrow> MAX_ESTIMATE_BYTES < length (P @ payload (seen_chunks es)))"
  using assms
proof (induction es arbitrary: P g)
  case Nil
  from Nil have "og_callback g" by (simp add: capture_inv_def)
  from guard_complete_reports(2) [OF this, of ClientCancelled] Nil show ?case
    by (auto simp: capture_inv_def)
next
  case (Cons e es)
  obtain now ev where e: "e = (now, ev)" by fastforce
  have stop: ?case if "snd (observe_next parse tokenize e g) = guard_complete t g1" "body_chunks (e # es) = body_chunks es"
    "seen_chunks (e # es) = []" "fst (observe_next parse tokenize e g) = []" "og_callback g1" "og_captured g1 = og_captured g"
    "og_capture_truncated g1 = og_capture_truncated g" for t g1
  proof -
    from guard_complete_reports(2) [OF that(5), of t] obtain ob where ob: "snd (guard_complete t g1) = [ob]"
      "so_captured ob = og_captured g1" "so_capture_truncated ob = og_capture_truncated g1"
      "so_failed ob \<longleftrightarrow> is_failure (so_termination ob)" by blast
    from run_after_report [OF guard_complete_reports(3), of parse tokenize es t g1] obtain g2 where
      "observe_run parse tokenize es (fst (guard_complete t g1)) = (body_chunks es, g2, [])" "\<not> og_callback g2" by blast
    with that ob Cons.prems show ?thesis
      by (intro exI [of _ g2] exI [of _ "[ob]"] exI [of _ ob])
        (auto simp: case_prod_beta Let_def guard_complete_def [of ClientCancelled] capture_inv_def)
  qed
  show ?case
  proof (cases ev)
    case (BodyChunk c)
    from Cons.IH [OF capture_chunk [OF Cons.prems, of c parse tokenize now]] obtain g' reports ob where
      ih: "observe_run parse tokenize es (observe_chunk parse tokenize now c g) = (body_chunks es, g', reports)"
      "reports @ snd (guard_complete ClientCancelled g') = [ob]" "so_failed ob \<longleftrightarrow> is_failure (so_termination ob)"
      "so_captured ob = take MAX_ESTIMATE_BYTES (P @ payload (seen_chunks (e # es)))"
      "so_capture_truncated ob \<longleftrightarrow> MAX_ESTIMATE_BYTES < length (P @ payload (seen_chunks (e # es)))"
      using e BodyChunk by auto
    then show ?thesis
      using e BodyChunk by (intro exI [of _ g'] exI [of _ reports] exI [of _ ob]) (simp add: observe_next_def)
  next
    case BodyError
    show ?thesis
      by (rule stop [of TransportError g]) (use e BodyError Cons.prems in \<open>auto simp: observe_next_def capture_inv_def\<close>)
  next
    case BodyEof
    obtain t g1 where c: "guard_eof parse g = guard_complete t g1" "og_callback g1 = og_callback g"
      "og_captured g1 = og_captured g" "og_capture_truncated g1 = og_capture_truncated g"
      using guard_eof_complete [of parse g] by blast
    show ?thesis
      by (rule stop [of t g1]) (use e BodyEof c Cons.prems in \<open>auto simp: observe_next_def capture_inv_def\<close>)
  qed
qed

text \<open>
  A streamed response is accounted exactly once. Whatever the client does (read to the end,
  hit an error, disconnect at any point), every chunk is forwarded unchanged and in order, exactly one
  observation is reported, its verdict and failure flag agree, and what it captured is the first
  256 KiB of the provider's bytes of the chunks seen until the end or the first error, marked as truncated exactly when there
  were more.
\<close>

theorem observed_exactly_once:
  "\<exists>ob. observe_stream_body parse tokenize started es = (body_chunks es, [ob]) \<and>
     (so_failed ob \<longleftrightarrow> so_termination ob \<noteq> Completed) \<and>
     so_captured ob = take (256 * 1024) (payload (seen_chunks es)) \<and>
     (so_capture_truncated ob \<longleftrightarrow> 256 * 1024 < length (payload (seen_chunks es)))"
proof -
  have "capture_inv [] (observation_new started)"
    by (simp add: capture_inv_def observation_new_def)
  from run_report [OF this, of parse tokenize es] show ?thesis
    by (auto simp: observe_stream_body_def case_prod_beta Let_def MAX_ESTIMATE_BYTES_def is_failure_def)
qed

section \<open>The estimate\<close>

text \<open>Usage is never invented for a failed or truncated stream.\<close>

lemma no_invented_usage:
  "so_parsed_usage ob = None \<Longrightarrow> \<not> success \<or> so_capture_truncated ob \<Longrightarrow>
   usage_for_stream_observation tokenize success request ob = usage_missing"
  by (auto simp: usage_for_stream_observation_def usage_missing_def Let_def)

lemma thinking_feed_append:
  "thinking_feed tokenize (xs @ ys) s = thinking_feed tokenize ys (thinking_feed tokenize xs s)"
  by (simp add: thinking_feed_def)

definition thinking_inv :: "thinking_estimate \<Rightarrow> bool" where
  "thinking_inv s \<longleftrightarrow>
     (if th_inside s then length (th_pending s) < MAX_ESTIMATE_BYTES else length (th_pending s) < 7)"

lemma thinking_byte_inv: "thinking_inv s \<Longrightarrow> thinking_inv (thinking_byte tokenize b s)"
  by (auto simp: thinking_inv_def thinking_byte_def Let_def MAX_ESTIMATE_BYTES_def)

lemma thinking_bounded:
  "thinking_inv s \<Longrightarrow> length (th_pending (thinking_feed tokenize bytes s)) < MAX_ESTIMATE_BYTES"
proof -
  assume "thinking_inv s"
  then have "thinking_inv (thinking_feed tokenize bytes s)"
    unfolding thinking_feed_def by (induction bytes arbitrary: s) (auto simp: thinking_byte_inv)
  then show ?thesis by (auto simp: thinking_inv_def MAX_ESTIMATE_BYTES_def split: if_splits)
qed

end
