(* ===== verification/Proxy_Completion.thy ===== *)
theory Proxy_Completion
  imports Proxy_Candidates Proxy_Observation
begin

text \<open>
  Attribution, completion and accounting of a request: \<open>src/proxy/attribution.rs\<close>,
  \<open>completion.rs\<close>, \<open>accounting.rs\<close> and the metrics wrapper of \<open>service.rs\<close>.
\<close>

section \<open>Attribution\<close>

text \<open>The first token of \<open>split_whitespace\<close>.\<close>

fun take_token :: "string \<Rightarrow> string" where
  "take_token [] = []"
| "take_token (c # cs) = (if ws_len (c # cs) \<noteq> 0 then [] else c # take_token cs)"

definition first_token :: "string \<Rightarrow> string option" where
  "first_token s = (let t = take_token (trim_start s) in if t = [] then None else Some t)"

definition KNOWN_CLIENT_USER_AGENTS :: "(string \<times> string) list" where
  "KNOWN_CLIENT_USER_AGENTS =
     [(''kimi-code-cli'', ''kimi-code-cli''), (''kimi-code'', ''kimi-code''), (''kimi_code'', ''kimi-code''),
      (''codex_app_server_daemon'', ''codex-cli''), (''codex_cli_rs'', ''codex-cli''),
      (''AsyncAnthropic/'', ''anthropic-sdk''), (''Anthropic/'', ''anthropic-sdk''),
      (''AsyncOpenAI/'', ''openai-sdk''), (''OpenAI/'', ''openai-sdk'')]"

definition known_client_user_agent :: "string \<Rightarrow> string option" where
  "known_client_user_agent user_agent =
     (case first_token (takeWhile (\<lambda>c. c \<noteq> CHR ''('') user_agent) of
        None \<Rightarrow> None
      | Some token \<Rightarrow>
          let product = trim_end_matches CHR ''/'' token in
          if product = [] then None
          else map_option snd (List.find (\<lambda>(pre, label). product = pre \<or> starts_with product pre) KNOWN_CLIENT_USER_AGENTS))"

definition trimmed_header :: "header_map \<Rightarrow> string \<Rightarrow> string option" where
  "trimmed_header headers name = option_filter (\<lambda>v. v \<noteq> []) (map_option trim (header_str headers name))"

definition client_source_from_headers :: "header_map \<Rightarrow> auth_identity option \<Rightarrow> string" where
  "client_source_from_headers headers auth =
     (case trimmed_header headers ''x-client-source'' of
        Some v \<Rightarrow> v
      | None \<Rightarrow>
          (case auth of
             Some identity \<Rightarrow> default_client_source identity
           | None \<Rightarrow>
               unwrap_or ''unknown''
                 (Option.bind (trimmed_header headers ''user-agent'') known_client_user_agent)))"

section \<open>The usage event\<close>

record final_upstream =
  fu_provider_id :: string
  fu_source_id :: string
  fu_account_id :: string
  fu_upstream_model_id :: string
  fu_protocol :: protocol
  fu_mode :: string
  fu_degraded :: bool

definition final_upstream_route :: "resolved_route \<Rightarrow> final_upstream" where
  "final_upstream_route route =
     \<lparr>fu_provider_id = rr_provider_id route, fu_source_id = rr_source_id route,
      fu_account_id = rr_primary_account_id route, fu_upstream_model_id = rr_upstream_model_id route,
      fu_protocol = rr_protocol_upstream route, fu_mode = rr_mode route, fu_degraded = is_degraded route\<rparr>"

definition final_upstream_candidate :: "fallback_candidate \<Rightarrow> final_upstream" where
  "final_upstream_candidate c =
     \<lparr>fu_provider_id = fb_provider_id c, fu_source_id = fb_source_id c, fu_account_id = ac_id (fb_account c),
      fu_upstream_model_id = fb_upstream_model c, fu_protocol = fb_protocol_upstream c, fu_mode = fb_mode c,
      fu_degraded = (fb_degraded_features c \<noteq> [])\<rparr>"

record request_completion =
  cp_route :: resolved_route
  cp_request_id :: string
  cp_virtual_key_id :: "int option"
  cp_client_source :: string
  cp_model :: string
  cp_protocol :: protocol
  cp_is_streamed :: bool
  cp_started :: nat
  cp_permit :: bool

definition completion_event ::
  "json_parser \<Rightarrow> nat \<Rightarrow> request_completion \<Rightarrow> 'b response \<Rightarrow> final_upstream \<Rightarrow> usage_attempt list
   \<Rightarrow> string option \<Rightarrow> string option \<Rightarrow> string \<Rightarrow> usage_event" where
  "completion_event parse now cp response upstream attempts fallback_reason error_summary request_body =
     (let usage = unwrap_or usage_missing (usage_from_response response);
          identity = response_identity_from_response response;
          status = rp_status response
      in \<lparr>ue_request_id = cp_request_id cp, ue_virtual_key_id = cp_virtual_key_id cp,
          ue_provider_id = fu_provider_id upstream, ue_account_id = fu_account_id upstream,
          ue_model = cp_model cp, ue_logical_model = cp_model cp,
          ue_upstream_model_id = Some (fu_upstream_model_id upstream), ue_source_id = fu_source_id upstream,
          ue_client_source = cp_client_source cp, ue_protocol_in = protocol_to_string (cp_protocol cp),
          ue_protocol_upstream = protocol_to_string (fu_protocol upstream), ue_mode = fu_mode upstream,
          ue_status_code = int status, ue_success = is_success status,
          ue_retry_count = usize_as_i32 (length attempts - 1), ue_latency_ms = elapsed_ms now (cp_started cp),
          ue_ttft_ms = None, ue_input_tokens = ur_input_tokens usage, ue_output_tokens = ur_output_tokens usage,
          ue_reasoning_tokens = ur_reasoning_tokens usage, ue_cached_tokens = ur_cached_tokens usage,
          ue_cache_read_tokens = ur_cache_read_tokens usage,
          ue_cache_creation_tokens = ur_cache_creation_tokens usage, ue_total_tokens = ur_total_tokens usage,
          ue_usage_source = ur_source usage, ue_degraded = fu_degraded upstream,
          ue_route_id = Some (rr_route_id (cp_route cp)), ue_streamed = cp_is_streamed cp,
          ue_error_summary = or_else error_summary
            (if is_success status then None else Some (''HTTP '' @ show_nat status)),
          ue_fallback_reason = fallback_reason, ue_response_model = ri_model identity,
          ue_requested_reasoning_effort = requested_reasoning_effort parse request_body,
          ue_response_reasoning_effort = ri_reasoning_effort identity\<rparr>)"

section \<open>Completion\<close>

definition contains_text :: "string \<Rightarrow> string \<Rightarrow> bool" where
  "contains_text s p = list_ex (\<lambda>i. starts_with (drop i s) p) [0..<length s + 1]"

definition is_event_stream :: "'b response \<Rightarrow> bool" where
  "is_event_stream response =
     (case header_str (rp_headers response) ''content-type'' of
        None \<Rightarrow> False
      | Some v \<Rightarrow> contains_text (to_ascii_lowercase v) ''text/event-stream'')"

text \<open>
  What a handler returns: a response whose accounting is done, or one whose body is observed and
  accounted when it ends. \<open>Panicked\<close> stands for the \<open>expect\<close> on the settlement permit.
\<close>

record stream_account =
  sa_event :: usage_event
  sa_request_body :: string
  sa_attempts :: "usage_attempt list"
  sa_started :: nat
  sa_protocol :: protocol
  sa_model :: string

datatype 'b served = Served "'b response" | Accounted stream_account "'b response" | Panicked

definition finish_proxy :: "protocol \<Rightarrow> string \<Rightarrow> bool \<Rightarrow> 'b response \<Rightarrow> 'w world \<Rightarrow> 'b served \<times> 'w world" where
  "finish_proxy p model is_stream response w =
     (Served response, emit_metric (MProxyRequest p model (rp_status response) is_stream) w)"

definition write_usage ::
  "('w, 'b) platform \<Rightarrow> usage_event \<Rightarrow> usage_attempt list \<Rightarrow> 'w world \<Rightarrow> 'w world \<times> (unit, sqlx_error) result" where
  "write_usage pl event attempts w =
     (let w = pl_tick pl w; (db, r) = insert_usage_with_attempts (w_fault w) event attempts (w_usage w)
      in (w\<lparr>w_usage := db\<rparr>, r))"

definition finish ::
  "('w, 'b) platform \<Rightarrow> request_completion \<Rightarrow> 'c response \<Rightarrow> final_upstream \<Rightarrow> usage_attempt list \<Rightarrow> string
   \<Rightarrow> string option \<Rightarrow> string option \<Rightarrow> 'w world \<Rightarrow> 'c served \<times> 'w world" where
  "finish pl cp response upstream attempts request_body fallback_reason error_summary w =
     (if pl_has_db pl then
        let event = completion_event (pl_parse pl) (w_instant w) cp response upstream attempts fallback_reason
                      error_summary request_body
        in if is_event_stream response then
             (if cp_permit cp
              then (Accounted \<lparr>sa_event = event, sa_request_body = request_body, sa_attempts = attempts,
                               sa_started = cp_started cp, sa_protocol = cp_protocol cp, sa_model = cp_model cp\<rparr> response,
                    emit_metric MStreamStart w)
              else (Panicked, w))
           else finish_proxy (cp_protocol cp) (cp_model cp) (cp_is_streamed cp) response
                  (fst (write_usage pl event attempts w))
      else finish_proxy (cp_protocol cp) (cp_model cp) (cp_is_streamed cp) response w)"

section \<open>Settling a stream\<close>

definition update_last :: "('a \<Rightarrow> 'a) \<Rightarrow> 'a list \<Rightarrow> 'a list" where
  "update_last f xs = (if xs = [] then [] else butlast xs @ [f (last xs)])"

definition observed_termination :: "stream_observation \<Rightarrow> stream_termination" where
  "observed_termination obs =
     (if so_failed obs \<and> \<not> is_failure (so_termination obs) then UpstreamError else so_termination obs)"

fun termination_summary :: "stream_termination \<Rightarrow> string" where
  "termination_summary UpstreamError = ''upstream stream error''"
| "termination_summary TransportError = ''upstream body transport error''"
| "termination_summary IncompleteStream = ''upstream stream ended without a terminal event''"
| "termination_summary BufferLimitExceeded = ''upstream stream observation limit exceeded''"
| "termination_summary EmptyStream = ''upstream stream ended without an event''"
| "termination_summary ClientCancelled = ''client disconnected''"
| "termination_summary ConnectionTimeout = ''upstream connection timeout''"
| "termination_summary FirstEventTimeout = ''first event timeout''"
| "termination_summary IdleTimeout = ''upstream idle timeout''"
| "termination_summary TotalTimeout = ''stream total timeout''"
| "termination_summary Completed = ''''"

definition finalize_stream_usage ::
  "(string \<Rightarrow> nat) \<Rightarrow> string \<Rightarrow> stream_observation \<Rightarrow> usage_event \<times> usage_attempt list \<Rightarrow> usage_event \<times> usage_attempt list" where
  "finalize_stream_usage tokenize request_body obs = (\<lambda>(event, attempts).
     let event = event\<lparr>ue_ttft_ms := so_ttft_ms obs, ue_response_model := so_response_model obs,
                       ue_response_reasoning_effort := so_response_reasoning_effort obs\<rparr>;
         termination = observed_termination obs;
         (event, attempts) =
           (if is_failure termination
            then (event\<lparr>ue_status_code := termination_status termination, ue_success := False,
                        ue_error_summary := Some (termination_summary termination)\<rparr>,
                  update_last (\<lambda>a. a\<lparr>ua_status_code := termination_status termination, ua_success := False\<rparr>) attempts)
            else (event, attempts));
         report = usage_for_stream_observation tokenize (ue_success event) request_body obs
     in (event\<lparr>ue_input_tokens := ur_input_tokens report, ue_output_tokens := ur_output_tokens report,
               ue_reasoning_tokens := ur_reasoning_tokens report, ue_cached_tokens := ur_cached_tokens report,
               ue_cache_read_tokens := ur_cache_read_tokens report,
               ue_cache_creation_tokens := ur_cache_creation_tokens report,
               ue_total_tokens := ur_total_tokens report, ue_usage_source := ur_source report\<rparr>, attempts))"

text \<open>
  \<open>retry_usage_write\<close>: the attempts 1, 2, 3 of its loop; \<open>None\<close> stands for the \<open>unreachable!\<close>
  after the loop.
\<close>

fun retry_attempts ::
  "('w world \<Rightarrow> 'w world \<times> (unit, 'e) result) \<Rightarrow> nat list \<Rightarrow> 'w world \<Rightarrow> 'w world \<times> (unit, 'e) result option" where
  "retry_attempts write [] w = (w, None)"
| "retry_attempts write (attempt # rest) w =
     (case write w of
        (w, Inr _) \<Rightarrow> (w, Some (Ok ()))
      | (w, Inl e) \<Rightarrow>
          if attempt < 3 then retry_attempts write rest (advance (duration_from_millis (100 * attempt)) w)
          else (w, Some (Err e)))"

definition retry_usage_write ::
  "('w world \<Rightarrow> 'w world \<times> (unit, 'e) result) \<Rightarrow> 'w world \<Rightarrow> 'w world \<times> (unit, 'e) result option" where
  "retry_usage_write write w = retry_attempts write [1, 2, 3] w"

definition upstream_failure :: "stream_observation \<Rightarrow> bool" where
  "upstream_failure obs \<longleftrightarrow>
     (so_failed obs \<and> \<not> is_failure (so_termination obs)) \<or>
     so_termination obs \<in> {UpstreamError, TransportError, IncompleteStream, BufferLimitExceeded}"

definition emit_tokens :: "string \<Rightarrow> string \<Rightarrow> i64 \<Rightarrow> 'w world \<Rightarrow> 'w world" where
  "emit_tokens model kind n w = (if 0 <s n then emit_metric (MTokens model kind (unat n)) w else w)"

text \<open>The callback of \<open>wrap_stream_usage\<close> with its spawned task.\<close>

definition settle_stream ::
  "('w, 'b) platform \<Rightarrow> stream_account \<Rightarrow> stream_observation \<Rightarrow> 'w world \<Rightarrow> 'w world" where
  "settle_stream pl sa obs w =
     (let w = pl_tick pl w;
          w = emit_metric MStreamEnd w;
          event = (sa_event sa)\<lparr>ue_latency_ms := elapsed_ms (w_instant w) (sa_started sa)\<rparr>;
          (event, attempts) = finalize_stream_usage (pl_tokenize pl) (sa_request_body sa) obs (event, sa_attempts sa);
          w = emit_metric (MProxyRequest (sa_protocol sa) (sa_model sa) (nat (ue_status_code event)) True) w;
          w = (case so_ttft_ms obs of
                 Some t \<Rightarrow> emit_metric (MTtft (sa_protocol sa) (sa_model sa) (unat t)) w
               | None \<Rightarrow> w);
          w = emit_tokens (sa_model sa) ''input'' (ue_input_tokens event) w;
          w = emit_tokens (sa_model sa) ''output'' (ue_output_tokens event) w;
          (w, r) = retry_usage_write (write_usage pl event attempts) w
      in if upstream_failure obs \<and> sa_attempts sa \<noteq> []
         then snd (write_failure pl (ua_account_id (last (sa_attempts sa))) ''upstream_stream_error''
                     ''upstream stream failed'' w)
         else w)"

section \<open>Verdict of a stream\<close>

lemma finalize_fields:
  fixes obs event attempts tokenize body
  defines "t \<equiv> observed_termination obs"
  defines "r \<equiv> finalize_stream_usage tokenize body obs (event, attempts)"
  shows "ue_success (fst r) \<longleftrightarrow> ue_success event \<and> t = Completed"
    and "ue_status_code (fst r) = (if t = Completed then ue_status_code event else termination_status t)"
    and "snd r = (if t = Completed then attempts
      else update_last (\<lambda>a. a\<lparr>ua_status_code := termination_status t, ua_success := False\<rparr>) attempts)"
    and "ue_usage_source (fst r) = ur_source (usage_for_stream_observation tokenize (ue_success (fst r)) body obs)"
    and "ue_total_tokens (fst r) = ur_total_tokens (usage_for_stream_observation tokenize (ue_success (fst r)) body obs)"
  unfolding r_def t_def by (simp_all add: finalize_stream_usage_def Let_def is_failure_def)

lemma observed_completed:
  "observed_termination obs = Completed \<longleftrightarrow> so_termination obs = Completed \<and> \<not> so_failed obs"
  by (auto simp: observed_termination_def is_failure_def)

lemma update_last_simps [simp]:
  "butlast (update_last f xs) = butlast xs" "length (update_last f xs) = length xs"
  "update_last f xs = [] \<longleftrightarrow> xs = []" "xs \<noteq> [] \<Longrightarrow> last (update_last f xs) = f (last xs)"
  by (auto simp: update_last_def)

text \<open>
  What a finished stream is recorded as. A request counts as successful exactly when its
  response did and the observation is a clean completion; a failed stream overrides the
  status of the event and of the last attempt alike with the status of its termination,
  leaves earlier attempts alone, and reports no usage beyond what the provider itself reported.
\<close>

theorem stream_verdict:
  assumes "finalize_stream_usage tokenize body obs (event, attempts) = (event', attempts')"
  defines "t \<equiv> observed_termination obs"
  shows "(ue_success event' \<longleftrightarrow> ue_success event \<and> so_termination obs = Completed \<and> \<not> so_failed obs) \<and>
    ue_status_code event' = (if t = Completed then ue_status_code event else termination_status t) \<and>
    (t = Completed \<longrightarrow> attempts' = attempts) \<and>
    (t \<noteq> Completed \<longrightarrow> butlast attempts' = butlast attempts \<and> length attempts' = length attempts \<and>
       (attempts' \<noteq> [] \<longrightarrow> ua_status_code (last attempts') = ue_status_code event' \<and> \<not> ua_success (last attempts'))) \<and>
    (\<not> ue_success event' \<and> so_parsed_usage obs = None \<longrightarrow>
       ue_usage_source event' = ''missing'' \<and> ue_total_tokens event' = 0)"
proof -
  note f = finalize_fields [of tokenize body obs event attempts, unfolded assms(1) fst_conv snd_conv, folded t_def]
  have "\<not> ue_success event' \<and> so_parsed_usage obs = None \<longrightarrow>
       ue_usage_source event' = ''missing'' \<and> ue_total_tokens event' = 0"
    using f(4,5) by (auto simp: no_invented_usage usage_missing_def)
  moreover have "t = Completed \<longleftrightarrow> so_termination obs = Completed \<and> \<not> so_failed obs"
    by (simp add: t_def observed_completed)
  ultimately show ?thesis using f(1-3) by simp
qed

definition sample_observation :: stream_observation where
  "sample_observation =
     \<lparr>so_captured = [], so_capture_truncated = False, so_parsed_usage = None, so_estimated_reasoning_tokens = None,
      so_response_model = None, so_response_reasoning_effort = None, so_ttft_ms = None, so_failed = True,
      so_termination = IdleTimeout\<rparr>"

definition sample_completion :: request_completion where
  "sample_completion =
     \<lparr>cp_route = sample_route, cp_request_id = ''req'', cp_virtual_key_id = None, cp_client_source = ''unknown'',
      cp_model = ''m'', cp_protocol = AnthropicMessages, cp_is_streamed = True, cp_started = 0, cp_permit = True\<rparr>"

definition sample_event :: usage_event where
  "sample_event =
     completion_event (\<lambda>_. None) 0 sample_completion
       (\<lparr>rp_status = 200, rp_headers = [], rp_body = FullBody [], rp_usage = None, rp_identity = None\<rparr> :: unit response)
       (final_upstream_route sample_route) [] None None []"

theorem stream_verdict_witness:
  "ue_status_code (fst (finalize_stream_usage length [] sample_observation (sample_event, []))) = 504 \<and>
   \<not> ue_success (fst (finalize_stream_usage length [] sample_observation (sample_event, [])))"
proof -
  obtain e as where run: "finalize_stream_usage length [] sample_observation (sample_event, []) = (e, as)" by fastforce
  have "observed_termination sample_observation = IdleTimeout" "so_termination sample_observation = IdleTimeout"
    by (simp_all add: sample_observation_def observed_termination_def is_failure_def)
  with stream_verdict [OF run] show ?thesis by (simp add: run)
qed

section \<open>The usage write\<close>

lemma retry_three:
  "retry_usage_write write w =
     (case write w of (w1, Inr _) \<Rightarrow> (w1, Some (Ok ())) | (w1, Inl _) \<Rightarrow>
       (case write (advance (duration_from_millis 100) w1) of (w2, Inr _) \<Rightarrow> (w2, Some (Ok ())) | (w2, Inl _) \<Rightarrow>
         (case write (advance (duration_from_millis 200) w2) of
            (w3, Inr _) \<Rightarrow> (w3, Some (Ok ())) | (w3, Inl e) \<Rightarrow> (w3, Some (Err e)))))"
  by (simp add: retry_usage_write_def split: prod.split sum.split)

definition usage_state :: "usage_event \<Rightarrow> usage_attempt list \<Rightarrow> 'w world \<Rightarrow> bool" where
  "usage_state e as w \<longleftrightarrow> rows_of (ue_request_id e) (w_usage w) \<in> {([], []), ([e], as)}"

lemma write_usage_state:
  assumes "\<And>w. rows_of (ue_request_id e) (w_usage (pl_tick pl w)) = rows_of (ue_request_id e) (w_usage w)"
    and "distinct (map ua_attempt_no as)" "usage_state e as w"
  shows "usage_state e as (fst (write_usage pl e as w)) \<and>
    (snd (write_usage pl e as w) = Ok () \<longrightarrow> rows_of (ue_request_id e) (w_usage (fst (write_usage pl e as w))) = ([e], as))"
proof -
  have "rows_of (ue_request_id e) (usage_rows e as db) = ([e], as)"
    if "rows_of (ue_request_id e) db \<in> {([], []), ([e], as)}" for db
    using that usage_rows_fresh [OF _ assms(2)] usage_rows_again by blast
  then show ?thesis
    using assms(1,3)
    by (auto simp: usage_state_def write_usage_def insert_usage_with_attempts_def Let_def case_prod_beta split: db_fault.splits)
qed

lemma usage_state_advance [simp]: "usage_state e as (advance d w) = usage_state e as w"
  by (simp add: usage_state_def advance_def)

lemma retry_state:
  assumes "\<And>v. usage_state e as v \<Longrightarrow> usage_state e as (fst (write v)) \<and>
      (snd (write v) = Ok () \<longrightarrow> rows_of (ue_request_id e) (w_usage (fst (write v))) = ([e], as))"
    and "usage_state e as w" "retry_attempts write ks w = (w', r)"
  shows "usage_state e as w' \<and> (r = Some (Ok ()) \<longrightarrow> rows_of (ue_request_id e) (w_usage w') = ([e], as))"
  using assms(2,3)
proof (induction ks arbitrary: w)
  case (Cons k ks)
  obtain v q where v: "write w = (v, q)" by fastforce
  note st = assms(1) [OF Cons.prems(1), unfolded v fst_conv snd_conv]
  show ?case
  proof (cases q)
    case (Inl err)
    with Cons.IH [of "advance (duration_from_millis (100 * k)) v"] Cons.prems(2) v st show ?thesis
      by (auto split: if_splits)
  next
    case (Inr u)
    with Cons.prems(2) v st show ?thesis by auto
  qed
qed simp

text \<open>
  C10: the usage of a stream is written once. Retrying the write up to three times, through any
  database faults, including commits that take effect but report a failure, and any
  interference that leaves this request's rows alone, always ends; it leaves either no row of the
  request or its event with all its attempts, never a duplicate and never a part, and a
  reported success means the rows are there.
\<close>

theorem usage_written_once:
  assumes "\<And>w. rows_of (ue_request_id e) (w_usage (pl_tick pl w)) = rows_of (ue_request_id e) (w_usage w)"
    and "distinct (map ua_attempt_no as)" "rows_of (ue_request_id e) (w_usage w) = ([], [])"
    and "retry_usage_write (write_usage pl e as) w = (w', r)"
  shows "r \<noteq> None \<and> rows_of (ue_request_id e) (w_usage w') \<in> {([], []), ([e], as)} \<and>
    (r = Some (Ok ()) \<longrightarrow> rows_of (ue_request_id e) (w_usage w') = ([e], as))"
proof -
  have "usage_state e as w" using assms(3) by (simp add: usage_state_def)
  from retry_state [OF write_usage_state [OF assms(1,2)] this assms(4) [unfolded retry_usage_write_def]]
  have "usage_state e as w' \<and> (r = Some (Ok ()) \<longrightarrow> rows_of (ue_request_id e) (w_usage w') = ([e], as))" .
  moreover have "r \<noteq> None"
    using assms(4) by (auto simp: retry_three split: prod.splits sum.splits)
  ultimately show ?thesis by (simp add: usage_state_def)
qed

theorem usage_written_once_witness:
  "rows_of (ue_request_id sample_event)
     (w_usage (fst (retry_usage_write (write_usage quiet_platform sample_event []) (sample_world\<lparr>w_fault := FaultAfterCommit\<rparr>))))
   \<in> {([], []), ([sample_event], [])}"
proof -
  obtain w r where run: "retry_usage_write (write_usage quiet_platform sample_event []) (sample_world\<lparr>w_fault := FaultAfterCommit\<rparr>) = (w, r)"
    by fastforce
  have "rows_of (ue_request_id sample_event) (w_usage (pl_tick quiet_platform v)) = rows_of (ue_request_id sample_event) (w_usage v)"
    for v by (simp add: sample_platform_def)
  from usage_written_once [OF this _ _ run] run show ?thesis by (simp add: rows_of_def sample_world_def)
qed

end
