(* ===== verification/Proxy_Settlement.thy ===== *)
theory Proxy_Settlement
  imports Gateway_Prelude
begin

text \<open>
  \<open>src/proxy/settlement.rs\<close>: admission of accounted requests. Two counting semaphores bound the
  outstanding requests and the concurrent writes; \<open>drain\<close> closes admission and takes every
  permit.

  Requests run concurrently, so an operation is a sequence of atomic steps (one per load, store or
  semaphore operation) and the system is a step relation over the request threads and the
  draining thread. A waiting \<open>acquire_many\<close> takes permits as they become free, in the order of
  the semaphore's queue.
\<close>

definition MAX_OUTSTANDING_ACCOUNTED_REQUESTS :: nat where
  "MAX_OUTSTANDING_ACCOUNTED_REQUESTS = 64"

definition MAX_CONCURRENT_WRITES :: nat where
  "MAX_CONCURRENT_WRITES = 8"

datatype admission_error = Saturated | Closing

text \<open>Where a request stands: inside \<open>try_reserve\<close>, holding its permit, or in its write task.\<close>

datatype request =
    Arrived | Checked | Acquired | Admitted | Spawned | Writing | Written | Finished
  | Rejected admission_error

datatype drainer = NotDraining | Waiting nat | Drained

record settlement =
  sm_permits :: nat
  sm_writes :: nat
  sm_capacity :: nat
  sm_closing :: bool
  sm_requests :: "request list"
  sm_drainer :: drainer

definition with_limits :: "nat \<Rightarrow> nat \<Rightarrow> settlement option" where
  "with_limits capacity writes =
     (if 0 < capacity \<and> 0 < writes
      then Some \<lparr>sm_permits = capacity, sm_writes = writes, sm_capacity = capacity, sm_closing = False,
                 sm_requests = [], sm_drainer = NotDraining\<rparr>
      else None)"

definition with_capacity :: "nat \<Rightarrow> settlement option" where
  "with_capacity capacity = with_limits capacity MAX_CONCURRENT_WRITES"

definition settlement_default :: "settlement option" where
  "settlement_default = with_capacity MAX_OUTSTANDING_ACCOUNTED_REQUESTS"

definition set_request :: "nat \<Rightarrow> request \<Rightarrow> settlement \<Rightarrow> settlement" where
  "set_request i r s = s\<lparr>sm_requests := (sm_requests s)[i := r]\<rparr>"

text \<open>\<open>try_reserve\<close>: load the flag, take a permit, load the flag again.\<close>

definition reserve_check :: "nat \<Rightarrow> settlement \<Rightarrow> settlement" where
  "reserve_check i s = set_request i (if sm_closing s then Rejected Closing else Checked) s"

definition reserve_acquire :: "nat \<Rightarrow> settlement \<Rightarrow> settlement" where
  "reserve_acquire i s =
     (if sm_permits s = 0 then set_request i (Rejected Saturated) s
      else set_request i Acquired (s\<lparr>sm_permits := sm_permits s - 1\<rparr>))"

definition reserve_recheck :: "nat \<Rightarrow> settlement \<Rightarrow> settlement" where
  "reserve_recheck i s =
     (if sm_closing s then set_request i (Rejected Closing) (s\<lparr>sm_permits := sm_permits s + 1\<rparr>)
      else set_request i Admitted s)"

text \<open>A permit is dropped with the request, or moves into the write task.\<close>

definition permit_drop :: "nat \<Rightarrow> settlement \<Rightarrow> settlement" where
  "permit_drop i s = set_request i Finished (s\<lparr>sm_permits := sm_permits s + 1\<rparr>)"

definition permit_spawn :: "nat \<Rightarrow> settlement \<Rightarrow> settlement" where
  "permit_spawn i s = set_request i Spawned s"

definition task_acquire_write :: "nat \<Rightarrow> settlement \<Rightarrow> settlement" where
  "task_acquire_write i s = set_request i Writing (s\<lparr>sm_writes := sm_writes s - 1\<rparr>)"

definition task_release_write :: "nat \<Rightarrow> settlement \<Rightarrow> settlement" where
  "task_release_write i s = set_request i Written (s\<lparr>sm_writes := sm_writes s + 1\<rparr>)"

definition drain_close :: "settlement \<Rightarrow> settlement" where
  "drain_close s = s\<lparr>sm_closing := True, sm_drainer := Waiting 0\<rparr>"

definition drain_take :: "nat \<Rightarrow> settlement \<Rightarrow> settlement" where
  "drain_take held s = s\<lparr>sm_permits := sm_permits s - 1, sm_drainer := Waiting (held + 1)\<rparr>"

text \<open>When \<open>drain\<close> returns it drops the permits it has collected.\<close>

definition drain_done :: "settlement \<Rightarrow> settlement" where
  "drain_done s = s\<lparr>sm_permits := sm_permits s + sm_capacity s, sm_drainer := Drained\<rparr>"

inductive settlement_step :: "settlement \<Rightarrow> settlement \<Rightarrow> bool" where
  arrive: "settlement_step s (s\<lparr>sm_requests := sm_requests s @ [Arrived]\<rparr>)"
| check: "i < length (sm_requests s) \<Longrightarrow> sm_requests s ! i = Arrived \<Longrightarrow> settlement_step s (reserve_check i s)"
| acquire: "i < length (sm_requests s) \<Longrightarrow> sm_requests s ! i = Checked \<Longrightarrow> settlement_step s (reserve_acquire i s)"
| recheck: "i < length (sm_requests s) \<Longrightarrow> sm_requests s ! i = Acquired \<Longrightarrow> settlement_step s (reserve_recheck i s)"
| release: "i < length (sm_requests s) \<Longrightarrow> sm_requests s ! i \<in> {Admitted, Written} \<Longrightarrow>
    settlement_step s (permit_drop i s)"
| spawn: "i < length (sm_requests s) \<Longrightarrow> sm_requests s ! i = Admitted \<Longrightarrow> settlement_step s (permit_spawn i s)"
| start_write: "i < length (sm_requests s) \<Longrightarrow> sm_requests s ! i = Spawned \<Longrightarrow> 0 < sm_writes s \<Longrightarrow>
    settlement_step s (task_acquire_write i s)"
| end_write: "i < length (sm_requests s) \<Longrightarrow> sm_requests s ! i = Writing \<Longrightarrow>
    settlement_step s (task_release_write i s)"
| close: "sm_drainer s = NotDraining \<Longrightarrow> settlement_step s (drain_close s)"
| drain: "sm_drainer s = Waiting held \<Longrightarrow> held < sm_capacity s \<Longrightarrow> 0 < sm_permits s \<Longrightarrow>
    settlement_step s (drain_take held s)"
| drained: "sm_drainer s = Waiting held \<Longrightarrow> held = sm_capacity s \<Longrightarrow> settlement_step s (drain_done s)"

inductive_cases settlement_stepE: "settlement_step s s'"

inductive settlement_reachable :: "nat \<Rightarrow> nat \<Rightarrow> settlement \<Rightarrow> bool" for capacity writes where
  start: "with_limits capacity writes = Some s \<Longrightarrow> settlement_reachable capacity writes s"
| step: "settlement_reachable capacity writes s \<Longrightarrow> settlement_step s s' \<Longrightarrow> settlement_reachable capacity writes s'"

section \<open>Permit accounting\<close>

definition holds_permit :: "request \<Rightarrow> bool" where
  "holds_permit r \<longleftrightarrow> r \<in> {Acquired, Admitted, Spawned, Writing, Written}"

definition holders :: "settlement \<Rightarrow> nat" where
  "holders s = length (filter holds_permit (sm_requests s))"

definition writers :: "settlement \<Rightarrow> nat" where
  "writers s = length (filter (\<lambda>r. r = Writing) (sm_requests s))"

definition drain_held :: "settlement \<Rightarrow> nat" where
  "drain_held s = (case sm_drainer s of NotDraining \<Rightarrow> 0 | Waiting n \<Rightarrow> n | Drained \<Rightarrow> 0)"

definition admitted :: "request \<Rightarrow> bool" where
  "admitted r \<longleftrightarrow> r \<in> {Admitted, Spawned, Writing, Written}"

definition settlement_inv :: "nat \<Rightarrow> nat \<Rightarrow> settlement \<Rightarrow> bool" where
  "settlement_inv capacity writes s \<longleftrightarrow>
     sm_capacity s = capacity \<and> sm_permits s + drain_held s + holders s = capacity \<and>
     sm_writes s + writers s = writes \<and> (sm_drainer s \<noteq> NotDraining \<longrightarrow> sm_closing s)"

definition drain_quiet :: "settlement \<Rightarrow> bool" where
  "drain_quiet s \<longleftrightarrow> (sm_drainer s = Drained \<longrightarrow> (\<forall>r \<in> set (sm_requests s). \<not> admitted r))"

lemma count_update:
  "i < length xs \<Longrightarrow> length (filter P (xs[i := y])) + (if P (xs ! i) then 1 else 0) =
   length (filter P xs) + (if P y then 1 else 0)"
proof (induction xs arbitrary: i)
  case (Cons x xs)
  then show ?case by (cases i) auto
qed simp

lemma holders_set:
  "i < length (sm_requests s) \<Longrightarrow>
   holders (set_request i r s) + (if holds_permit (sm_requests s ! i) then 1 else 0) =
   holders s + (if holds_permit r then 1 else 0)"
  by (simp add: holders_def set_request_def count_update)

lemma writers_set:
  "i < length (sm_requests s) \<Longrightarrow>
   writers (set_request i r s) + (if sm_requests s ! i = Writing then 1 else 0) =
   writers s + (if r = Writing then 1 else 0)"
  using count_update [of i "sm_requests s" "\<lambda>r. r = Writing" r]
  by (simp add: writers_def set_request_def)

lemma set_request_simps [simp]:
  "sm_permits (set_request i r s) = sm_permits s" "sm_writes (set_request i r s) = sm_writes s"
  "sm_capacity (set_request i r s) = sm_capacity s" "sm_closing (set_request i r s) = sm_closing s"
  "sm_drainer (set_request i r s) = sm_drainer s"
  "drain_held (set_request i r s) = drain_held s"
  by (simp_all add: set_request_def drain_held_def split: drainer.split)

lemma counters_upd [simp]:
  "holders (s\<lparr>sm_permits := n\<rparr>) = holders s" "holders (s\<lparr>sm_writes := n\<rparr>) = holders s"
  "writers (s\<lparr>sm_permits := n\<rparr>) = writers s" "writers (s\<lparr>sm_writes := n\<rparr>) = writers s"
  "drain_held (s\<lparr>sm_permits := n\<rparr>) = drain_held s" "drain_held (s\<lparr>sm_writes := n\<rparr>) = drain_held s"
  "sm_requests (s\<lparr>sm_permits := n\<rparr>) = sm_requests s"
  by (simp_all add: holders_def writers_def drain_held_def split: drainer.split)

lemma admitted_simps [simp]:
  "\<not> admitted Arrived" "\<not> admitted Checked" "\<not> admitted Acquired" "\<not> admitted Finished"
  "\<not> admitted (Rejected e)" "admitted Admitted" "admitted Spawned" "admitted Writing" "admitted Written"
  by (simp_all add: admitted_def)

lemma no_admitted_set:
  "\<forall>r \<in> set (sm_requests s). \<not> admitted r \<Longrightarrow> \<not> admitted r' \<Longrightarrow>
   \<forall>r \<in> set (sm_requests (set_request i r' s)). \<not> admitted r"
  using set_update_subset_insert by (fastforce simp: set_request_def)

lemma in_set_update: "x \<in> set (xs[i := y]) \<Longrightarrow> x = y \<or> x \<in> set xs"
  using set_update_subset_insert by fast

lemma no_admitted_nth:
  "\<forall>r \<in> set (sm_requests s). \<not> admitted r \<Longrightarrow> i < length (sm_requests s) \<Longrightarrow> \<not> admitted (sm_requests s ! i)"
  by simp

lemma holders_zero: "holders s = 0 \<Longrightarrow> \<forall>r \<in> set (sm_requests s). \<not> admitted r"
  by (auto simp: holders_def filter_empty_conv holds_permit_def admitted_def)

lemma settlement_inv_step:
  assumes "settlement_inv capacity writes s" "settlement_step s s'"
  shows "settlement_inv capacity writes s'"
  using assms(2,1)
proof (induction rule: settlement_step.induct)
  case (arrive s)
  then show ?case
    by (auto simp: settlement_inv_def holders_def writers_def drain_held_def holds_permit_def split: drainer.splits)
next
  case (check i s)
  then show ?case
    using holders_set [of i s] writers_set [of i s] by (simp add: settlement_inv_def reserve_check_def holds_permit_def)
next
  case (acquire i s)
  then show ?case
    using holders_set [of i s "Rejected Saturated"] writers_set [of i s "Rejected Saturated"]
      holders_set [of i "s\<lparr>sm_permits := sm_permits s - 1\<rparr>" Acquired]
      writers_set [of i "s\<lparr>sm_permits := sm_permits s - 1\<rparr>" Acquired]
    by (auto simp: settlement_inv_def reserve_acquire_def holds_permit_def)
next
  case (recheck i s)
  then show ?case
    using holders_set [of i s Admitted] writers_set [of i s Admitted]
      holders_set [of i "s\<lparr>sm_permits := sm_permits s + 1\<rparr>" "Rejected Closing"]
      writers_set [of i "s\<lparr>sm_permits := sm_permits s + 1\<rparr>" "Rejected Closing"]
    by (auto simp: settlement_inv_def reserve_recheck_def holds_permit_def)
next
  case (release i s)
  then show ?case
    using holders_set [of i "s\<lparr>sm_permits := sm_permits s + 1\<rparr>" Finished]
      writers_set [of i "s\<lparr>sm_permits := sm_permits s + 1\<rparr>" Finished]
    by (auto simp: settlement_inv_def permit_drop_def holds_permit_def)
next
  case (spawn i s)
  then show ?case
    using holders_set [of i s Spawned] writers_set [of i s Spawned]
    by (simp add: settlement_inv_def permit_spawn_def holds_permit_def)
next
  case (start_write i s)
  then show ?case
    using holders_set [of i "s\<lparr>sm_writes := sm_writes s - 1\<rparr>" Writing]
      writers_set [of i "s\<lparr>sm_writes := sm_writes s - 1\<rparr>" Writing]
    by (simp add: settlement_inv_def task_acquire_write_def holds_permit_def)
next
  case (end_write i s)
  then show ?case
    using holders_set [of i "s\<lparr>sm_writes := sm_writes s + 1\<rparr>" Written]
      writers_set [of i "s\<lparr>sm_writes := sm_writes s + 1\<rparr>" Written]
    by (simp add: settlement_inv_def task_release_write_def holds_permit_def)
qed (auto simp: settlement_inv_def drain_close_def drain_take_def drain_done_def drain_held_def holders_def writers_def)

lemma settlement_reachable_inv:
  "settlement_reachable capacity writes s \<Longrightarrow> settlement_inv capacity writes s"
proof (induction rule: settlement_reachable.induct)
  case (start s)
  then show ?case
    by (auto simp: with_limits_def settlement_inv_def holders_def writers_def drain_held_def split: if_splits)
qed (rule settlement_inv_step)

lemma drain_quiet_step:
  assumes "settlement_inv capacity writes s" "drain_quiet s" "settlement_step s s'"
  shows "drain_quiet s'"
  using assms(3,1,2)
proof (induction rule: settlement_step.induct)
  case (release i s)
  then show ?case
    using no_admitted_set [of "s\<lparr>sm_permits := sm_permits s + 1\<rparr>" Finished i]
    by (simp add: drain_quiet_def permit_drop_def)
next
  case (drained s held)
  then show ?case
    using holders_zero [of s] by (simp add: drain_quiet_def drain_done_def settlement_inv_def drain_held_def)
qed (auto simp: drain_quiet_def settlement_inv_def reserve_check_def reserve_acquire_def reserve_recheck_def
    permit_spawn_def task_acquire_write_def task_release_write_def drain_close_def drain_take_def set_request_def
    dest: no_admitted_nth in_set_update)

lemma settlement_reachable_quiet: "settlement_reachable capacity writes s \<Longrightarrow> drain_quiet s"
proof (induction rule: settlement_reachable.induct)
  case (start s)
  then show ?case by (auto simp: with_limits_def drain_quiet_def split: if_splits)
next
  case (step s s')
  then show ?case using drain_quiet_step settlement_reachable_inv by blast
qed

text \<open>
  C12: admission is bounded. In every reachable state, under any interleaving of requests, write
  tasks and a drain, at most \<open>capacity\<close> requests hold a permit (64 by default), at most
  \<open>writes\<close> tasks write at once (8 by default), and no permit is lost or duplicated.
\<close>

theorem settlement_bounded:
  assumes "settlement_reachable capacity writes s"
  shows "holders s \<le> capacity \<and> writers s \<le> writes \<and> sm_permits s + drain_held s + holders s = capacity"
  using settlement_reachable_inv [OF assms] by (auto simp: settlement_inv_def)

definition sample_settlement :: settlement where
  "sample_settlement =
     \<lparr>sm_permits = 2, sm_writes = 1, sm_capacity = 2, sm_closing = False, sm_requests = [], sm_drainer = NotDraining\<rparr>"

lemma sample_settlement_reachable: "settlement_reachable 2 1 sample_settlement"
  by (rule settlement_reachable.start) (simp add: with_limits_def sample_settlement_def)

theorem settlement_bounded_witness: "holders sample_settlement \<le> 2 \<and> writers sample_settlement \<le> 1"
  using settlement_bounded [OF sample_settlement_reachable] by blast

text \<open>
  C13: a completed drain has waited for everyone. When \<open>drain\<close> has returned, no request
  is admitted any more: none is streaming, waiting to write or writing. (A request that was between its
  two flag checks may still hold a permit for a moment; its second check rejects it.)
\<close>

theorem drain_waits:
  assumes "settlement_reachable capacity writes s" "sm_drainer s = Drained"
  shows "set (sm_requests s) \<inter> {Admitted, Spawned, Writing, Written} = {}"
  using settlement_reachable_quiet [OF assms(1)] assms(2) by (auto simp: drain_quiet_def admitted_def)

text \<open>
  A shutdown with one request in flight: it is admitted, the drain begins, the request still
  writes its usage and gives its permit back, and only then the drain returns.
\<close>

definition one_slot :: "nat \<Rightarrow> nat \<Rightarrow> request list \<Rightarrow> drainer \<Rightarrow> settlement" where
  "one_slot permits writes requests d =
     \<lparr>sm_permits = permits, sm_writes = writes, sm_capacity = 1, sm_closing = (d \<noteq> NotDraining),
      sm_requests = requests, sm_drainer = d\<rparr>"

lemma settlement_reachable_via:
  "settlement_reachable capacity writes s \<Longrightarrow> settlement_step s s' \<Longrightarrow> s' = t \<Longrightarrow> settlement_reachable capacity writes t"
  by (auto intro: settlement_reachable.step)

lemmas settlement_op_defs = one_slot_def set_request_def reserve_check_def reserve_acquire_def reserve_recheck_def
  permit_drop_def permit_spawn_def task_acquire_write_def task_release_write_def drain_close_def drain_take_def drain_done_def

lemma drained_reachable: "settlement_reachable 1 1 (one_slot 1 1 [Finished] Drained)"
proof -
  have "settlement_reachable 1 1 (one_slot 1 1 [] NotDraining)"
    by (rule settlement_reachable.start) (simp add: with_limits_def one_slot_def)
  then have "settlement_reachable 1 1 (one_slot 1 1 [Arrived] NotDraining)"
    by (rule settlement_reachable_via [OF _ settlement_step.arrive]) (simp add: one_slot_def)
  then have "settlement_reachable 1 1 (one_slot 1 1 [Checked] NotDraining)"
    by (rule settlement_reachable_via [OF _ settlement_step.check [of 0]]) (simp_all add: settlement_op_defs)
  then have "settlement_reachable 1 1 (one_slot 0 1 [Acquired] NotDraining)"
    by (rule settlement_reachable_via [OF _ settlement_step.acquire [of 0]]) (simp_all add: settlement_op_defs)
  then have "settlement_reachable 1 1 (one_slot 0 1 [Admitted] NotDraining)"
    by (rule settlement_reachable_via [OF _ settlement_step.recheck [of 0]]) (simp_all add: settlement_op_defs)
  then have "settlement_reachable 1 1 (one_slot 0 1 [Admitted] (Waiting 0))"
    by (rule settlement_reachable_via [OF _ settlement_step.close]) (simp_all add: settlement_op_defs)
  then have "settlement_reachable 1 1 (one_slot 0 1 [Spawned] (Waiting 0))"
    by (rule settlement_reachable_via [OF _ settlement_step.spawn [of 0]]) (simp_all add: settlement_op_defs)
  then have "settlement_reachable 1 1 (one_slot 0 0 [Writing] (Waiting 0))"
    by (rule settlement_reachable_via [OF _ settlement_step.start_write [of 0]]) (simp_all add: settlement_op_defs)
  then have "settlement_reachable 1 1 (one_slot 0 1 [Written] (Waiting 0))"
    by (rule settlement_reachable_via [OF _ settlement_step.end_write [of 0]]) (simp_all add: settlement_op_defs)
  then have "settlement_reachable 1 1 (one_slot 1 1 [Finished] (Waiting 0))"
    by (rule settlement_reachable_via [OF _ settlement_step.release [of 0]]) (simp_all add: settlement_op_defs)
  then have "settlement_reachable 1 1 (one_slot 0 1 [Finished] (Waiting 1))"
    by (rule settlement_reachable_via [OF _ settlement_step.drain [of _ 0]]) (simp_all add: settlement_op_defs)
  then show ?thesis
    by (rule settlement_reachable_via [OF _ settlement_step.drained [of _ 1]]) (simp_all add: settlement_op_defs)
qed

theorem drain_waits_witness:
  "set (sm_requests (one_slot 1 1 [Finished] Drained)) \<inter> {Admitted, Spawned, Writing, Written} = {}"
  by (rule drain_waits [OF drained_reachable]) (simp add: one_slot_def)

lemma set_request_nth:
  "i < length (sm_requests s) \<Longrightarrow> sm_requests (set_request i r s) ! j = (if j = i then r else sm_requests s ! j)"
  by (simp add: set_request_def nth_list_update)

text \<open>
  Nothing is admitted after closing. Once the closing flag is set it stays set, and a
  request that was not admitted before is never admitted after, in particular one that
  had already passed the first check or taken a permit.
\<close>

theorem no_admission_after_close:
  assumes "settlement_step\<^sup>*\<^sup>* s s'" "sm_closing s"
    and "j < length (sm_requests s)" "sm_requests s ! j \<in> {Arrived, Checked, Acquired}"
  shows "sm_closing s' \<and> j < length (sm_requests s') \<and>
    sm_requests s' ! j \<in> {Arrived, Checked, Acquired, Rejected Closing, Rejected Saturated}"
  using assms(1)
proof (induction rule: rtranclp_induct)
  case base
  then show ?case using assms by auto
next
  case (step t u)
  then have t: "sm_closing t" "j < length (sm_requests t)"
    "sm_requests t ! j \<in> {Arrived, Checked, Acquired, Rejected Closing, Rejected Saturated}" by auto
  from step(2) t show ?case
  proof (induction rule: settlement_step.induct)
    case (arrive t)
    then show ?case by (auto simp: nth_append)
  next
    case (release i t)
    then show ?case
      using set_request_nth [of i "t\<lparr>sm_permits := sm_permits t + 1\<rparr>" Finished j]
      by (cases "j = i") (auto simp: permit_drop_def set_request_def)
  qed (auto simp: reserve_check_def reserve_acquire_def reserve_recheck_def permit_spawn_def task_acquire_write_def
      task_release_write_def drain_close_def drain_take_def drain_done_def set_request_def nth_list_update)
qed

theorem no_admission_after_close_witness:
  "\<exists>s'. settlement_step\<^sup>*\<^sup>* (sample_settlement\<lparr>sm_closing := True, sm_requests := [Acquired]\<rparr>) s' \<and>
     sm_requests s' ! 0 = Rejected Closing"
proof -
  let ?s = "sample_settlement\<lparr>sm_closing := True, sm_requests := [Acquired]\<rparr>"
  have "settlement_step ?s (reserve_recheck 0 ?s)" by (rule settlement_step.recheck) simp_all
  then have run: "settlement_step\<^sup>*\<^sup>* ?s (reserve_recheck 0 ?s)" by simp
  have "sm_closing (reserve_recheck 0 ?s)"
    using no_admission_after_close [OF run, of 0] by simp
  with run show ?thesis by (intro exI [of _ "reserve_recheck 0 ?s"]) (simp add: reserve_recheck_def set_request_def)
qed

end
