(* ===== verification/Proxy_Service.thy ===== *)
theory Proxy_Service
  imports Proxy_Completion Proxy_Settlement
begin

text \<open>
  The request handler: \<open>src/proxy/ordered.rs\<close> and \<open>weighted.rs\<close> (the two candidate policies) and
  \<open>service.rs\<close> (the entry point of the three protocol endpoints). Log records are not modelled.
\<close>

section \<open>Ordered fallback\<close>

record 'b ordered_state =
  os_attempts :: "usage_attempt list"
  os_last_response :: "'b live response option"
  os_final_candidate :: "fallback_candidate option"
  os_request_body :: string
  os_total_timeout :: bool
  os_reason :: "string option"

definition account_reason :: "string option \<Rightarrow> bool" where
  "account_reason reason = (case reason of None \<Rightarrow> False | Some r \<Rightarrow> starts_with r ''account_'')"

text \<open>\<open>value as usize + 1\<close> of an \<open>i32\<close>: sign extension, then a wrapping addition.\<close>

definition attempt_limit :: "i32 option \<Rightarrow> usize" where
  "attempt_limit max_retries = (case max_retries of None \<Rightarrow> - 1 | Some v \<Rightarrow> scast v + 1)"

definition deadline_passed :: "attempt_context \<Rightarrow> 'w world \<Rightarrow> bool" where
  "deadline_passed cx w \<longleftrightarrow>
     sc_total_timeout (cx_stream_config cx) \<noteq> 0 \<and>
     sc_total_timeout (cx_stream_config cx) \<le> w_instant w - cx_started cx"

definition error_for ::
  "('w, 'b) platform \<Rightarrow> attempt_context \<Rightarrow> nat \<Rightarrow> string \<Rightarrow> string \<Rightarrow> 'c response" where
  "error_for pl cx status code message =
     data_plane_error_response (pl_print pl) (cx_protocol cx) status code message (cx_request_id cx)"

text \<open>What the loop does with an attempt: the new state, and whether to go on.\<close>

definition ordered_absorb ::
  "('w, 'b) platform \<Rightarrow> attempt_context \<Rightarrow> fallback_candidate \<Rightarrow> 'b attempt_result \<Rightarrow> 'b ordered_state
   \<Rightarrow> 'b ordered_state \<times> bool" where
  "ordered_absorb pl cx candidate attempted st =
     (let st = st\<lparr>os_request_body := ar_request_body attempted, os_attempts := os_attempts st @ [ar_usage attempted],
                 os_final_candidate := Some candidate\<rparr>
      in case ar_result attempted of
           Inr response \<Rightarrow>
             let retryable = is_retryable (rp_status response) in
             (st\<lparr>os_reason := (if retryable \<and> os_reason st = None
                                then Some (''upstream_http_'' @ show_nat (rp_status response)) else os_reason st),
                 os_last_response := Some response\<rparr>, retryable)
         | Inl e \<Rightarrow>
             let total = (e = Timeout TotalTimeout) in
             (st\<lparr>os_reason := or_else (os_reason st) (Some ''upstream_transport_error''), os_total_timeout := total,
                 os_last_response := Some (error_for pl cx (transport_error_status e)
                   (if total then ''gateway_total_timeout'' else ''upstream_request_failed'') (transport_message e))\<rparr>,
              \<not> total))"

fun ordered_loop ::
  "('w, 'b) platform \<Rightarrow> attempt_context \<Rightarrow> nat \<Rightarrow> fallback_candidate list \<Rightarrow> 'b ordered_state \<Rightarrow> 'w world
   \<Rightarrow> 'b ordered_state \<times> 'w world" where
  "ordered_loop pl cx limit [] st w = (st, w)"
| "ordered_loop pl cx limit (candidate # rest) st w =
     (if limit \<le> length (os_attempts st) then (st, w)
      else
        let (ok, w) = read_available pl (ac_id (fb_account candidate)) w in
        if \<not> ok then ordered_loop pl cx limit rest st w
        else if deadline_passed cx w then
          (st\<lparr>os_total_timeout := True,
              os_last_response := Some (error_for pl cx 504 ''gateway_total_timeout'' (termination_message TotalTimeout))\<rparr>, w)
        else
          let is_fallback = (os_attempts st \<noteq> [] \<or> account_reason (os_reason st));
              (attempted, w) = execute pl cx candidate (length (os_attempts st)) is_fallback w;
              (st, continue) = ordered_absorb pl cx candidate attempted st
          in if continue then ordered_loop pl cx limit rest st w else (st, w))"

definition ordered_primary ::
  "('w, 'b) platform \<Rightarrow> gateway_config \<Rightarrow> attempt_context \<Rightarrow> resolved_route \<Rightarrow> 'w world
   \<Rightarrow> fallback_candidate list \<times> string option \<times> 'w world" where
  "ordered_primary pl cfg cx route w =
     (case (account cfg (rr_primary_account_id route), provider cfg (rr_source_id route)) of
        (Some acct, Some prov) \<Rightarrow>
          let (health, w) = read_health pl (ac_id acct) w in
          if ac_enabled acct \<and> ah_available health then ([candidate_primary route acct prov (cx_model cx)], None, w)
          else ([], Some (if ac_enabled acct then primary_unavailable_reason health else ''account_disabled''), w)
      | _ \<Rightarrow> ([], None, w))"

definition proxy_ordered ::
  "('w, 'b) platform \<Rightarrow> gateway_config \<Rightarrow> attempt_context \<Rightarrow> request_completion \<Rightarrow> 'w world
   \<Rightarrow> 'b live served \<times> 'w world" where
  "proxy_ordered pl cfg cx cp w =
     (let route = cp_route cp;
          (primary, reason, w) = ordered_primary pl cfg cx route w;
          (fallbacks, w) = available_fallback_candidates pl cfg route (cx_model cx) (cx_protocol cx) w;
          (st, w) = ordered_loop pl cx (unat (attempt_limit (rr_max_retries route))) (primary @ fallbacks)
                      \<lparr>os_attempts = [], os_last_response = None, os_final_candidate = None,
                       os_request_body = cx_body cx, os_total_timeout = False, os_reason = reason\<rparr> w;
          response = unwrap_or (error_for pl cx 503 ''route_unavailable'' ''no upstream line is currently available'')
                       (os_last_response st);
          upstream = (case os_final_candidate st of
                        Some c \<Rightarrow> final_upstream_candidate c | None \<Rightarrow> final_upstream_route route);
          fallback_reason = (if 1 < length (os_attempts st) \<or> account_reason (os_reason st) then os_reason st else None)
      in finish pl cp response upstream (os_attempts st) (os_request_body st) fallback_reason
           (if os_total_timeout st then Some ''gateway_total_timeout'' else None) w)"

section \<open>Weighted fallback\<close>

definition unavailable_response :: "('w, 'b) platform \<Rightarrow> attempt_context \<Rightarrow> account_config \<Rightarrow> 'c response" where
  "unavailable_response pl cx acct =
     error_for pl cx 503 (if ac_enabled acct then ''account_cooling_down'' else ''account_disabled'')
       ''primary account is unavailable and no fallback succeeded''"

definition request_failed :: "('w, 'b) platform \<Rightarrow> attempt_context \<Rightarrow> transport_error \<Rightarrow> 'c response" where
  "request_failed pl cx e =
     error_for pl cx (transport_error_status e) ''upstream_request_failed'' (transport_message e)"

text \<open>The primary account is disabled or unavailable: one attempt at a fallback.\<close>

definition weighted_unavailable ::
  "('w, 'b) platform \<Rightarrow> gateway_config \<Rightarrow> attempt_context \<Rightarrow> request_completion \<Rightarrow> account_config \<Rightarrow> string
   \<Rightarrow> 'w world \<Rightarrow> 'b live served \<times> 'w world" where
  "weighted_unavailable pl cfg cx cp acct reason w =
     (let route = cp_route cp;
          (selected, w) = select_fallback_candidate pl cfg route (cx_model cx) (cx_protocol cx) w
      in case selected of
           None \<Rightarrow> finish pl cp (unavailable_response pl cx acct) (final_upstream_route route) [] (cx_body cx) (Some reason) None w
         | Some candidate \<Rightarrow>
             let (attempted, w) = execute pl cx candidate 0 True w;
                 response = (case ar_result attempted of
                               Inr r \<Rightarrow> r
                             | Inl (Timeout t) \<Rightarrow> request_failed pl cx (Timeout t)
                             | Inl _ \<Rightarrow> unavailable_response pl cx acct)
             in finish pl cp response (final_upstream_candidate candidate) [ar_usage attempted]
                  (ar_request_body attempted) (Some reason) None w)"

text \<open>
  The rest of a request after a failed first attempt: the response, the candidate it came from, the
  second attempt if there was one.
\<close>

record 'b weighted_outcome =
  wo_response :: "'b live response"
  wo_candidate :: fallback_candidate
  wo_second :: "usage_attempt option"
  wo_reason :: "string option"

definition weighted_second ::
  "('w, 'b) platform \<Rightarrow> attempt_context \<Rightarrow> fallback_candidate \<Rightarrow> bool \<Rightarrow> (transport_error \<Rightarrow> 'b live response) \<Rightarrow> string
   \<Rightarrow> 'w world \<Rightarrow> 'b weighted_outcome \<times> 'w world" where
  "weighted_second pl cx candidate is_fallback on_error reason w =
     (let (attempted, w) = execute pl cx candidate 1 is_fallback w
      in (\<lparr>wo_response = (case ar_result attempted of Inr r \<Rightarrow> r | Inl e \<Rightarrow> on_error e), wo_candidate = candidate,
           wo_second = Some (ar_usage attempted), wo_reason = Some reason\<rparr>, w))"

definition weighted_http_failure ::
  "('w, 'b) platform \<Rightarrow> gateway_config \<Rightarrow> attempt_context \<Rightarrow> resolved_route \<Rightarrow> fallback_candidate \<Rightarrow> 'b live response
   \<Rightarrow> 'w world \<Rightarrow> 'b weighted_outcome \<times> 'w world" where
  "weighted_http_failure pl cfg cx route primary response w =
     (let reason = ''upstream_http_'' @ show_nat (rp_status response);
          retry_after = (if rp_status response = 429
                         then retry_after_delay (pl_rfc2822 pl) (w_now w) (rp_headers response) else None);
          (available, w) = select_fallback_candidate pl cfg route (cx_model cx) (cx_protocol cx) w
      in case option_filter (\<lambda>_. available = None) retry_after of
           Some delay \<Rightarrow> weighted_second pl cx primary False (request_failed pl cx) reason (advance delay w)
         | None \<Rightarrow>
             let (selected, w) = select_fallback_candidate pl cfg route (cx_model cx) (cx_protocol cx) w
             in case selected of
                  Some candidate \<Rightarrow> weighted_second pl cx candidate True (\<lambda>_. response) reason w
                | None \<Rightarrow> (\<lparr>wo_response = response, wo_candidate = primary, wo_second = None, wo_reason = Some reason\<rparr>, w))"

definition weighted_transport_failure ::
  "('w, 'b) platform \<Rightarrow> gateway_config \<Rightarrow> attempt_context \<Rightarrow> resolved_route \<Rightarrow> fallback_candidate \<Rightarrow> transport_error
   \<Rightarrow> 'w world \<Rightarrow> 'b weighted_outcome \<times> 'w world" where
  "weighted_transport_failure pl cfg cx route primary e w =
     (let reason = ''upstream_transport_error'';
          (selected, w) = select_fallback_candidate pl cfg route (cx_model cx) (cx_protocol cx) w
      in case selected of
           Some candidate \<Rightarrow> weighted_second pl cx candidate True (request_failed pl cx) reason w
         | None \<Rightarrow> (\<lparr>wo_response = request_failed pl cx e, wo_candidate = primary, wo_second = None,
                     wo_reason = Some reason\<rparr>, w))"

definition weighted_primary ::
  "('w, 'b) platform \<Rightarrow> gateway_config \<Rightarrow> attempt_context \<Rightarrow> request_completion \<Rightarrow> account_config \<Rightarrow> provider_config
   \<Rightarrow> 'w world \<Rightarrow> 'b live served \<times> 'w world" where
  "weighted_primary pl cfg cx cp acct prov w =
     (let route = cp_route cp;
          primary = candidate_primary route acct prov (cx_model cx);
          (attempted, w) = execute pl cx primary 0 False w;
          (o2, w) =
            (case ar_result attempted of
               Inr response \<Rightarrow>
                 if is_retryable (rp_status response) then weighted_http_failure pl cfg cx route primary response w
                 else (\<lparr>wo_response = response, wo_candidate = primary, wo_second = None, wo_reason = None\<rparr>, w)
             | Inl e \<Rightarrow> weighted_transport_failure pl cfg cx route primary e w);
          attempts = ar_usage attempted # (case wo_second o2 of Some u \<Rightarrow> [u] | None \<Rightarrow> [])
      in finish pl cp (wo_response o2) (final_upstream_candidate (wo_candidate o2)) attempts (cx_body cx)
           (if 1 < length attempts then wo_reason o2 else None) None w)"

definition proxy_weighted ::
  "('w, 'b) platform \<Rightarrow> gateway_config \<Rightarrow> attempt_context \<Rightarrow> request_completion \<Rightarrow> 'w world
   \<Rightarrow> 'b live served \<times> 'w world" where
  "proxy_weighted pl cfg cx cp w =
     (let route = cp_route cp in
      case provider cfg (rr_source_id route) of
        None \<Rightarrow> finish_proxy (cx_protocol cx) (cx_model cx) (cp_is_streamed cp)
                  (error_for pl cx 502 ''provider_not_found'' ''route references an unknown provider'') w
      | Some prov \<Rightarrow>
          (case account cfg (rr_primary_account_id route) of
             None \<Rightarrow> finish_proxy (cx_protocol cx) (cx_model cx) (cp_is_streamed cp)
                       (error_for pl cx 502 ''account_not_found'' ''route references an unknown account'') w
           | Some acct \<Rightarrow>
               let (health, w) = read_health pl (ac_id acct) w in
               if \<not> ac_enabled acct then weighted_unavailable pl cfg cx cp acct ''account_disabled'' w
               else if \<not> ah_available health then
                 weighted_unavailable pl cfg cx cp acct (primary_unavailable_reason health) w
               else weighted_primary pl cfg cx cp acct prov w))"

section \<open>The entry point\<close>

text \<open>
  \<open>uuid\<close> is the request id drawn, \<open>admission\<close> the outcome of \<open>try_reserve\<close> (\<open>Proxy_Settlement\<close>), and
  \<open>rs\<close> the resolver of the live snapshot with its configuration.
\<close>

definition route_error_status :: "string \<Rightarrow> nat" where
  "route_error_status code =
     (if code = ''route_not_found'' then 404
      else if code \<in> {''account_disabled'', ''account_cooling_down''} then 503
      else 422)"

definition admission_code :: "admission_error \<Rightarrow> string" where
  "admission_code e = (case e of Saturated \<Rightarrow> ''settlement_capacity_exhausted'' | Closing \<Rightarrow> ''gateway_shutting_down'')"

definition request_stream_config :: "env \<Rightarrow> resolved_route \<Rightarrow> stream_config" where
  "request_stream_config env route =
     (let config = stream_config_from_env_prefix env ''GATEWAY_SSE'' in
      case rr_request_timeout_ms route of
        Some ms \<Rightarrow> config\<lparr>sc_total_timeout := duration_from_millis (unat ms)\<rparr>
      | None \<Rightarrow> config)"

definition authorize ::
  "('w, 'b) platform \<Rightarrow> header_map \<Rightarrow> string option \<Rightarrow> 'w world \<Rightarrow> auth_identity option \<times> 'w world" where
  "authorize pl headers model w =
     (let w = pl_tick pl w;
          (identity, keys) = authorized_with_db (pl_digest pl) (pl_env pl) (w_fault w) (w_now w) headers model
                               (if pl_has_db pl then Some (w_keys w) else None)
      in (identity, case keys of Some db \<Rightarrow> w\<lparr>w_keys := db\<rparr> | None \<Rightarrow> w))"

definition proxy_routed ::
  "('w, 'b) platform \<Rightarrow> gateway_config \<Rightarrow> string \<Rightarrow> header_map \<Rightarrow> string \<Rightarrow> protocol \<Rightarrow> nat \<Rightarrow> (unit, admission_error) result
   \<Rightarrow> auth_identity \<Rightarrow> string \<Rightarrow> bool \<Rightarrow> resolved_route \<Rightarrow> 'w world \<Rightarrow> 'b live served \<times> 'w world" where
  "proxy_routed pl cfg uuid headers body p started admission identity model is_streamed route w =
     (let cp = \<lparr>cp_route = route, cp_request_id = uuid, cp_virtual_key_id = auth_virtual_key_id identity,
                cp_client_source = client_source_from_headers headers (Some identity), cp_model = model,
                cp_protocol = p, cp_is_streamed = is_streamed, cp_started = started, cp_permit = pl_has_db pl\<rparr>;
          cx = \<lparr>cx_headers = headers, cx_body = body, cx_model = model, cx_protocol = p, cx_request_id = uuid,
                cx_stream_config = request_stream_config (pl_env pl) route, cx_started = started\<rparr>
      in case (if pl_has_db pl then admission else Ok ()) of
           Inl e \<Rightarrow> finish_proxy p model is_streamed
                      (data_plane_error_response (pl_print pl) p 503 (admission_code e)
                         ''stream accounting capacity is unavailable'' uuid) w
         | Inr _ \<Rightarrow>
             if rr_strategy route = ''ordered_fallback'' then proxy_ordered pl cfg cx cp w
             else proxy_weighted pl cfg cx cp w)"

definition proxy ::
  "('w, 'b) platform \<Rightarrow> adapter_registry \<Rightarrow> route_resolver \<Rightarrow> string \<Rightarrow> (unit, admission_error) result \<Rightarrow> header_map \<Rightarrow> string
   \<Rightarrow> protocol \<Rightarrow> 'w world \<Rightarrow> 'b live served \<times> 'w world" where
  "proxy pl reg rs uuid admission headers body p w =
     (let started = w_instant w;
          err = (\<lambda>status code message. data_plane_error_response (pl_print pl) p status code message uuid)
      in case pl_parse pl body of
           None \<Rightarrow> finish_proxy p ''default'' False (err 400 ''invalid_json'' ''request body must be valid JSON'') w
         | Some v \<Rightarrow>
             let model = Option.bind (json_get v ''model'') json_as_str;
                 is_streamed = unwrap_or False (Option.bind (json_get v ''stream'') json_as_bool);
                 (auth, w) = authorize pl headers model w
             in case auth of
                  None \<Rightarrow> finish_proxy p (unwrap_or ''default'' model) is_streamed
                            (err 401 ''unauthorized'' ''invalid or revoked virtual key'') w
                | Some identity \<Rightarrow>
                    (case option_filter (\<lambda>m. m \<noteq> []) model of
                       None \<Rightarrow> finish_proxy p ''default'' is_streamed
                                 (err 400 ''missing_required_parameter'' ''missing required field: model'') w
                     | Some model \<Rightarrow>
                         (case resolve_detailed reg rs p model of
                            Inl e \<Rightarrow> finish_proxy p model is_streamed
                                      (err (route_error_status (re_code e)) (re_code e) (re_message e)) w
                          | Inr route \<Rightarrow>
                              proxy_routed pl (rs_config rs) uuid headers body p started admission identity model
                                is_streamed route w)))"

end
