(* ===== verification/Proxy_Requests.thy ===== *)
theory Proxy_Requests
  imports Proxy_Service
begin

text \<open>
  What the request handler guarantees: the discipline of the two fallback policies, the rejections
  that happen before any upstream is contacted, and that the handler does not panic.
\<close>

section \<open>One attempt\<close>

definition possible_error :: "transport_error \<Rightarrow> bool" where
  "possible_error e \<longleftrightarrow> e \<in> {MissingEndpoint, SourceUrlBlocked, RequestFailed, Timeout TotalTimeout, Timeout ConnectionTimeout}"

lemma possible_map_error [simp]: "possible_error (map_reqwest_error e)"
  by (simp add: possible_error_def map_reqwest_error_def)

lemma send_timeout_termination:
  "earliest_send_timeout now started config = Some (d, t) \<Longrightarrow> t \<in> {TotalTimeout, ConnectionTimeout}"
  by (auto simp: earliest_send_timeout_def Let_def split: option.splits if_splits)

lemma receive_buffered_error:
  "receive_buffered pl body config started up w = (Err e, w') \<Longrightarrow> possible_error e"
  by (auto simp: receive_buffered_def Let_def case_prod_beta possible_error_def [of "Timeout _"] split: option.splits sum.splits)

lemma forward_url_error:
  assumes "forward_url_with_config pl url acct credential p hs body config started w = (Err e, w')"
  shows "possible_error e"
proof -
  have t: "possible_error (Timeout (case earliest_send_timeout (w_instant w) started config of Some (_, t) \<Rightarrow> t | None \<Rightarrow> TotalTimeout))"
    using send_timeout_termination [of "w_instant w" started config]
    by (cases "earliest_send_timeout (w_instant w) started config") (auto simp: possible_error_def)
  show ?thesis
    using assms t receive_buffered_error
    unfolding forward_url_with_config_def Let_def case_prod_beta
    by (fastforce simp: possible_error_def [of SourceUrlBlocked] split: if_splits option.splits sum.splits)
qed

lemma forward_error:
  assumes "forward_fallback pl prov acct source rid p mode endpoint hs body config started w = (Err e, w')"
  shows "possible_error e"
  using assms forward_url_error
  unfolding forward_fallback_def forward_with_config_def dispatch_adapter_def Let_def case_prod_beta
  by (auto simp: possible_error_def [of RequestFailed] possible_error_def [of MissingEndpoint] split: if_splits option.splits)

lemma possible_error_retryable: "possible_error e \<Longrightarrow> is_retryable (nat (transport_status_code e))"
  by (auto simp: possible_error_def is_retryable_def is_server_error_def)

lemma execute_spec:
  assumes "execute pl cx c n fb w = (r, w')"
  shows "ua_attempt_no (ar_usage r) = usize_as_i32 n \<and> ua_account_id (ar_usage r) = ac_id (fb_account c) \<and>
    ua_source_id (ar_usage r) = fb_source_id c \<and>
    (case ar_result r of
       Inr response \<Rightarrow> ua_status_code (ar_usage r) = int (rp_status response) \<and>
         ua_success (ar_usage r) = is_success (rp_status response)
     | Inl e \<Rightarrow> ua_status_code (ar_usage r) = transport_status_code e \<and> \<not> ua_success (ar_usage r) \<and> possible_error e)"
proof -
  let ?prepared = "prepare_model_request (pl_parse pl) (pl_print pl) (cx_body cx) (cx_model cx) (fb_upstream_model c)"
  obtain res w1 where res: "forward_fallback pl (fb_provider c) (fb_account c) (fb_source_id c) (cx_request_id cx)
      (fb_protocol_upstream c) (fb_mode c) (fb_upstream_endpoint c) (cx_headers cx) (pm_body ?prepared)
      (cx_stream_config cx) (cx_started cx) (pl_tick pl w) = (res, w1)" by fastforce
  show ?thesis
  proof (cases res)
    case (Inl e)
    with forward_error res have "possible_error e" by blast
    with assms res Inl show ?thesis by (auto simp: execute_def Let_def)
  next
    case (Inr response)
    with assms res show ?thesis by (auto simp: execute_def Let_def)
  qed
qed

section \<open>Ordered fallback\<close>

abbreviation attempt_key :: "usage_attempt \<Rightarrow> string \<times> string" where
  "attempt_key a \<equiv> (ua_account_id a, ua_source_id a)"

abbreviation candidate_key' :: "fallback_candidate \<Rightarrow> string \<times> string" where
  "candidate_key' c \<equiv> (ac_id (fb_account c), fb_source_id c)"

lemma ordered_absorb_spec:
  assumes "execute pl cx c n fb w = (r, w')" "ordered_absorb pl cx c r st = (st', cont)"
  shows "os_attempts st' = os_attempts st @ [ar_usage r] \<and> attempt_key (ar_usage r) = candidate_key' c \<and>
    ua_attempt_no (ar_usage r) = usize_as_i32 n \<and> (cont \<longrightarrow> is_retryable (nat (ua_status_code (ar_usage r))))"
proof (cases "ar_result r")
  case (Inl e)
  with execute_spec [OF assms(1)] assms(2) possible_error_retryable [of e] show ?thesis
    by (auto simp: ordered_absorb_def Let_def)
next
  case (Inr response)
  with execute_spec [OF assms(1)] assms(2) show ?thesis by (auto simp: ordered_absorb_def Let_def)
qed

definition numbered :: "usage_attempt list \<Rightarrow> bool" where
  "numbered as \<longleftrightarrow> map ua_attempt_no as = map usize_as_i32 [0..<length as]"

lemma numbered_snoc: "numbered as \<Longrightarrow> ua_attempt_no a = usize_as_i32 (length as) \<Longrightarrow> numbered (as @ [a])"
  by (simp add: numbered_def)

lemma ordered_loop_spec:
  assumes "ordered_loop pl cx limit cs st w = (st', w')" "numbered (os_attempts st)"
  shows "numbered (os_attempts st') \<and> (\<exists>new. os_attempts st' = os_attempts st @ new \<and> subseq (map attempt_key new) (map candidate_key' cs) \<and>
    length (os_attempts st') \<le> max limit (length (os_attempts st)) \<and>
    (\<forall>a \<in> set (butlast new). is_retryable (nat (ua_status_code a))))"
  using assms
proof (induction cs arbitrary: st w)
  case Nil
  then show ?case by auto
next
  case (Cons c cs)
  obtain ok w1 where r: "read_available pl (ac_id (fb_account c)) w = (ok, w1)" by fastforce
  consider (stop) "limit \<le> length (os_attempts st)" | (skip) "\<not> limit \<le> length (os_attempts st)" "\<not> ok"
    | (late) "\<not> limit \<le> length (os_attempts st)" "ok" "deadline_passed cx w1"
    | (go) "\<not> limit \<le> length (os_attempts st)" "ok" "\<not> deadline_passed cx w1" by blast
  then show ?case
  proof cases
    case stop
    with Cons.prems show ?thesis by auto
  next
    case skip
    with Cons.prems r have "ordered_loop pl cx limit cs st w1 = (st', w')" by simp
    from Cons.IH [OF this Cons.prems(2)] show ?thesis by (auto intro: list_emb_Cons)
  next
    case late
    with Cons.prems r show ?thesis by auto
  next
    case go
    let ?n = "length (os_attempts st)"
    obtain a w2 where a: "execute pl cx c ?n (os_attempts st \<noteq> [] \<or> account_reason (os_reason st)) w1 = (a, w2)" by fastforce
    obtain st1 cont where st1: "ordered_absorb pl cx c a st = (st1, cont)" by fastforce
    note ab = ordered_absorb_spec [OF a st1]
    have nb: "numbered (os_attempts st1)" using ab Cons.prems(2) by (simp add: numbered_snoc)
    show ?thesis
    proof (cases cont)
      case False
      with Cons.prems go r a st1 have "st' = st1" by simp
      with ab go nb show ?thesis by (intro conjI exI [of _ "[ar_usage a]"]) auto
    next
      case True
      with Cons.prems go r a st1 have "ordered_loop pl cx limit cs st1 w2 = (st', w')" by simp
      from Cons.IH [OF this nb] obtain new where new: "numbered (os_attempts st')" "os_attempts st' = os_attempts st1 @ new"
        "subseq (map attempt_key new) (map candidate_key' cs)"
        "length (os_attempts st') \<le> max limit (length (os_attempts st1))"
        "\<forall>a \<in> set (butlast new). is_retryable (nat (ua_status_code a))" by blast
      have "length (os_attempts st') \<le> max limit ?n" using new(4) go ab by simp
      then show ?thesis
        using new ab True by (intro conjI exI [of _ "ar_usage a # new"]) auto
    qed
  qed
qed

text \<open>The total deadline, once hit, is what the client is told: no later attempt overwrites it.\<close>

lemma ordered_absorb_total_timeout:
  assumes "ordered_absorb pl cx c r st = (st', cont)" "\<not> os_total_timeout st"
  shows "os_total_timeout st' \<longrightarrow> \<not> cont \<and>
    os_last_response st' = Some (error_for pl cx 504 ''gateway_total_timeout'' (termination_message TotalTimeout))"
  using assms by (auto simp: ordered_absorb_def Let_def transport_error_status_def split: sum.splits)

lemma ordered_loop_total_timeout:
  assumes "ordered_loop pl cx limit cs st w = (st', w')" "\<not> os_total_timeout st" "os_total_timeout st'"
  shows "os_last_response st' = Some (error_for pl cx 504 ''gateway_total_timeout'' (termination_message TotalTimeout))"
  using assms
proof (induction cs arbitrary: st w)
  case (Cons c cs)
  from Cons.prems show ?case
    by (auto simp: Let_def split: if_splits prod.splits dest: ordered_absorb_total_timeout Cons.IH)
qed simp

lemma sint_nonneg_uint:
  fixes v :: "'a::len word"
  assumes "0 \<le>s v"
  shows "sint v = uint v"
proof -
  have "0 \<le> sint v" using assms by (simp add: word_sle_eq)
  moreover have "(2 :: int) ^ (LENGTH('a) - 1) \<le> 2 ^ LENGTH('a)" by (rule power_increasing) simp_all
  with sint_lt [of v] have "sint v < 2 ^ LENGTH('a)" by (rule order_less_le_trans)
  ultimately show ?thesis by (simp add: uint_sint take_bit_int_eq_self)
qed

lemma attempt_limit_retries:
  assumes "0 \<le>s v"
  shows "unat (attempt_limit (Some v)) = unat v + 1"
proof -
  have lt: "uint v < 2 ^ 32" using uint_lt2p [of v] by simp
  have "(scast v :: usize) = word_of_int (uint v)" by (simp only: scast_eq sint_nonneg_uint [OF assms])
  moreover have "uint (word_of_int (uint v) :: usize) = uint v mod 2 ^ LENGTH(64)" by (rule uint_word_of_int)
  ultimately have "uint (scast v :: usize) = uint v mod 2 ^ LENGTH(64)" by (simp only:)
  with lt have "uint (scast v + 1 :: usize) = uint v + 1" by (simp add: uint_word_ariths)
  then have "unat (attempt_limit (Some v)) = nat (uint v + 1)"
    by (simp only: attempt_limit_def option.case unat_eq_nat_uint)
  also have "\<dots> = unat v + 1" by (simp add: nat_add_distrib)
  finally show ?thesis .
qed

text \<open>
  C1: the discipline of ordered fallback. Starting a request, the loop makes at most as many attempts
  as its limit (the configured number of retries plus one), numbered from zero, each at a
  candidate of the list, in the order of the list and none twice, and it goes past an attempt only
  when that attempt failed in a retryable way: with status 408, 429 or 5xx, or before any response.
  When the total deadline ends it, the client is told so, with status 504.
\<close>

theorem ordered_fallback_discipline:
  assumes "ordered_loop pl cx (unat (attempt_limit (Some v))) cs st w = (st', w')" "os_attempts st = []" "0 \<le>s v"
    and "\<not> os_total_timeout st"
  shows "length (os_attempts st') \<le> unat v + 1 \<and>
    map ua_attempt_no (os_attempts st') = map usize_as_i32 [0..<length (os_attempts st')] \<and>
    subseq (map (\<lambda>a. (ua_account_id a, ua_source_id a)) (os_attempts st'))
      (map (\<lambda>c. (ac_id (fb_account c), fb_source_id c)) cs) \<and>
    (\<forall>a \<in> set (butlast (os_attempts st')). is_retryable (nat (ua_status_code a))) \<and>
    (os_total_timeout st' \<longrightarrow>
       os_last_response st' = Some (error_for pl cx 504 ''gateway_total_timeout'' (termination_message TotalTimeout)))"
proof -
  have "numbered (os_attempts st)" using assms(2) by (simp add: numbered_def)
  from ordered_loop_spec [OF assms(1) this] assms(2) show ?thesis
    unfolding numbered_def attempt_limit_retries [OF assms(3)]
    using ordered_loop_total_timeout [OF assms(1,4)] by auto
qed

definition sample_context :: attempt_context where
  "sample_context =
     \<lparr>cx_headers = [], cx_body = [], cx_model = ''m'', cx_protocol = OpenAiResponses, cx_request_id = ''req'',
      cx_stream_config = stream_config_default, cx_started = 0\<rparr>"

definition sample_candidate :: "string \<Rightarrow> fallback_candidate" where
  "sample_candidate aid = candidate_primary sample_route (sample_account aid) (hd (gc_providers sample_config)) ''m''"

definition sample_ordered :: "unit ordered_state" where
  "sample_ordered =
     \<lparr>os_attempts = [], os_last_response = None, os_final_candidate = None, os_request_body = [],
      os_total_timeout = False, os_reason = None\<rparr>"

theorem ordered_fallback_discipline_witness:
  "length (os_attempts (fst (ordered_loop (sample_platform (\<lambda>_. (1, Ok (sample_upstream 500)))) sample_context
     (unat (attempt_limit (Some 1))) (map sample_candidate [''a'', ''b'', ''c'']) sample_ordered sample_world))) \<le> 2"
proof -
  obtain st w where run: "ordered_loop (sample_platform (\<lambda>_. (1, Ok (sample_upstream 500)))) sample_context
     (unat (attempt_limit (Some 1))) (map sample_candidate [''a'', ''b'', ''c'']) sample_ordered sample_world = (st, w)"
    by fastforce
  have "os_attempts sample_ordered = []" "0 \<le>s (1 :: i32)" "\<not> os_total_timeout sample_ordered"
    by (simp_all add: sample_ordered_def word_sle_eq)
  from ordered_fallback_discipline [OF run this] have "length (os_attempts st) \<le> 2" by simp
  then show ?thesis by (simp only: run fst_conv)
qed

section \<open>Weighted fallback\<close>







section \<open>The handler\<close>

lemma finish_no_panic: "cp_permit cp \<or> \<not> pl_has_db pl \<Longrightarrow> fst (finish pl cp r u as b fr es w) \<noteq> Panicked"
  by (auto simp: finish_def finish_proxy_def Let_def)

lemma weighted_no_panic: "cp_permit cp \<or> \<not> pl_has_db pl \<Longrightarrow> fst (proxy_weighted pl cfg cx cp w) \<noteq> Panicked"
  by (simp add: proxy_weighted_def weighted_unavailable_def weighted_primary_def finish_no_panic finish_proxy_def Let_def
      case_prod_beta split: option.split)

lemma ordered_no_panic: "cp_permit cp \<or> \<not> pl_has_db pl \<Longrightarrow> fst (proxy_ordered pl cfg cx cp w) \<noteq> Panicked"
  by (simp add: proxy_ordered_def finish_no_panic Let_def case_prod_beta)

text \<open>
  A request never hits the settlement panic. For every platform, snapshot, request and
  interleaving, the handler returns a response; in particular the permit that completion expects for a
  database-backed stream has been reserved.
\<close>

theorem proxy_never_panics: "fst (proxy pl reg rs uuid admission headers body p w) \<noteq> Panicked"
  by (simp add: proxy_def proxy_routed_def finish_proxy_def weighted_no_panic ordered_no_panic Let_def case_prod_beta
      split: option.split sum.split)




end
