(* ===== verification/Domain_Catalog.thy ===== *)
theory Domain_Catalog
  imports Domain_Config
begin

text \<open>
  \<open>src/domain/catalog.rs\<close>: the states of catalog records, model metadata with the origin of every
  field, how metadata of the upstream, of a preset and of the user are merged and refreshed, and
  the rules for a declared protocol capability.

  Metadata maps are \<open>BTreeMap\<close>s over the fields, in declaration order. The JSON error of \<open>serde\<close>
  is not modelled beyond its presence.
\<close>

section \<open>States\<close>

datatype catalog_status = CatalogStatus_Pending | CatalogStatus_Confirmed | CatalogStatus_Unavailable

fun catalog_status_as_str :: "catalog_status \<Rightarrow> string" where
  "catalog_status_as_str CatalogStatus_Pending = ''pending''"
| "catalog_status_as_str CatalogStatus_Confirmed = ''confirmed''"
| "catalog_status_as_str CatalogStatus_Unavailable = ''unavailable''"

definition catalog_status_from_str :: "string \<Rightarrow> (catalog_status, unit) result" where
  "catalog_status_from_str v =
     (if v = ''pending'' then Ok CatalogStatus_Pending else if v = ''confirmed'' then Ok CatalogStatus_Confirmed
      else if v = ''unavailable'' then Ok CatalogStatus_Unavailable else Err ())"

definition can_transition_to :: "catalog_status \<Rightarrow> catalog_status \<Rightarrow> bool" where
  "can_transition_to current next_status \<longleftrightarrow>
     current = next_status \<or>
     (current, next_status) \<in> {(CatalogStatus_Pending, CatalogStatus_Confirmed), (CatalogStatus_Pending, CatalogStatus_Unavailable),
        (CatalogStatus_Confirmed, CatalogStatus_Unavailable), (CatalogStatus_Unavailable, CatalogStatus_Pending)}"

datatype catalog_availability = CatalogAvailability_Unknown | CatalogAvailability_Available | CatalogAvailability_Unavailable

fun catalog_availability_as_str :: "catalog_availability \<Rightarrow> string" where
  "catalog_availability_as_str CatalogAvailability_Unknown = ''unknown''"
| "catalog_availability_as_str CatalogAvailability_Available = ''available''"
| "catalog_availability_as_str CatalogAvailability_Unavailable = ''unavailable''"

definition catalog_availability_from_str :: "string \<Rightarrow> (catalog_availability, unit) result" where
  "catalog_availability_from_str v =
     (if v = ''unknown'' then Ok CatalogAvailability_Unknown else if v = ''available'' then Ok CatalogAvailability_Available
      else if v = ''unavailable'' then Ok CatalogAvailability_Unavailable else Err ())"

datatype source_protocol_mode =
  SourceProtocolMode_Unknown | SourceProtocolMode_Native | SourceProtocolMode_Adapter | SourceProtocolMode_Unsupported

fun source_protocol_mode_as_str :: "source_protocol_mode \<Rightarrow> string" where
  "source_protocol_mode_as_str SourceProtocolMode_Unknown = ''unknown''"
| "source_protocol_mode_as_str SourceProtocolMode_Native = ''native''"
| "source_protocol_mode_as_str SourceProtocolMode_Adapter = ''adapter''"
| "source_protocol_mode_as_str SourceProtocolMode_Unsupported = ''unsupported''"

definition source_protocol_mode_from_str :: "string \<Rightarrow> (source_protocol_mode, unit) result" where
  "source_protocol_mode_from_str v =
     (if v = ''unknown'' then Ok SourceProtocolMode_Unknown else if v = ''native'' then Ok SourceProtocolMode_Native
      else if v = ''adapter'' then Ok SourceProtocolMode_Adapter
      else if v = ''unsupported'' then Ok SourceProtocolMode_Unsupported else Err ())"

definition is_routable :: "source_protocol_mode \<Rightarrow> bool" where
  "is_routable m \<longleftrightarrow> m \<in> {SourceProtocolMode_Native, SourceProtocolMode_Adapter}"

datatype metadata_source = MetadataSource_Upstream | MetadataSource_Preset | MetadataSource_User | MetadataSource_Unknown

fun metadata_source_to_string :: "metadata_source \<Rightarrow> string" where
  "metadata_source_to_string MetadataSource_Upstream = ''upstream''"
| "metadata_source_to_string MetadataSource_Preset = ''preset''"
| "metadata_source_to_string MetadataSource_User = ''user''"
| "metadata_source_to_string MetadataSource_Unknown = ''unknown''"

datatype catalog_error = CatalogError_Json | CatalogError_InvalidMetadata string | CatalogError_InvalidState string

definition metadata_source_from_str :: "string \<Rightarrow> (metadata_source, catalog_error) result" where
  "metadata_source_from_str v =
     (if v = ''upstream'' then Ok MetadataSource_Upstream else if v = ''preset'' then Ok MetadataSource_Preset
      else if v = ''user'' then Ok MetadataSource_User else if v = ''unknown'' then Ok MetadataSource_Unknown
      else Err (CatalogError_InvalidMetadata (''unknown metadata source '' @ quoted v)))"

section \<open>Metadata\<close>

datatype metadata_field =
    LogicalModelName | DisplayName | ContextWindow | MaxInputTokens | MaxOutputTokens | InputModalities | OutputModalities
  | Tools | Thinking | WebSearch | StructuredOutput | Streaming | Usage

definition metadata_field_ALL :: "metadata_field list" where
  "metadata_field_ALL =
     [LogicalModelName, DisplayName, ContextWindow, MaxInputTokens, MaxOutputTokens, InputModalities, OutputModalities,
      Tools, Thinking, WebSearch, StructuredOutput, Streaming, Usage]"

fun metadata_field_index :: "metadata_field \<Rightarrow> nat" where
  "metadata_field_index LogicalModelName = 0"
| "metadata_field_index DisplayName = 1"
| "metadata_field_index ContextWindow = 2"
| "metadata_field_index MaxInputTokens = 3"
| "metadata_field_index MaxOutputTokens = 4"
| "metadata_field_index InputModalities = 5"
| "metadata_field_index OutputModalities = 6"
| "metadata_field_index Tools = 7"
| "metadata_field_index Thinking = 8"
| "metadata_field_index WebSearch = 9"
| "metadata_field_index StructuredOutput = 10"
| "metadata_field_index Streaming = 11"
| "metadata_field_index Usage = 12"

lemma metadata_field_index_inj: "metadata_field_index f = metadata_field_index g \<Longrightarrow> f = g"
  by (cases f; cases g) simp_all

instantiation metadata_field :: linorder
begin

definition less_eq_metadata_field :: "metadata_field \<Rightarrow> metadata_field \<Rightarrow> bool" where
  "f \<le> g \<longleftrightarrow> metadata_field_index f \<le> metadata_field_index g"

definition less_metadata_field :: "metadata_field \<Rightarrow> metadata_field \<Rightarrow> bool" where
  "f < g \<longleftrightarrow> metadata_field_index f < metadata_field_index g"

instance
  by standard (auto simp: less_eq_metadata_field_def less_metadata_field_def intro: metadata_field_index_inj)

end

fun metadata_field_name :: "metadata_field \<Rightarrow> string" where
  "metadata_field_name LogicalModelName = ''logical_model_name''"
| "metadata_field_name DisplayName = ''display_name''"
| "metadata_field_name ContextWindow = ''context_window''"
| "metadata_field_name MaxInputTokens = ''max_input_tokens''"
| "metadata_field_name MaxOutputTokens = ''max_output_tokens''"
| "metadata_field_name InputModalities = ''input_modalities''"
| "metadata_field_name OutputModalities = ''output_modalities''"
| "metadata_field_name Tools = ''tools''"
| "metadata_field_name Thinking = ''thinking''"
| "metadata_field_name WebSearch = ''web_search''"
| "metadata_field_name StructuredOutput = ''structured_output''"
| "metadata_field_name Streaming = ''streaming''"
| "metadata_field_name Usage = ''usage''"

definition is_feature :: "metadata_field \<Rightarrow> bool" where
  "is_feature f \<longleftrightarrow> f \<in> {Tools, Thinking, WebSearch, StructuredOutput, Streaming, Usage}"

definition unknown_value :: "metadata_field \<Rightarrow> json" where
  "unknown_value f = (if is_feature f then JString ''unknown'' else JNull)"

datatype capability_support = CapabilitySupport_Supported | CapabilitySupport_Unsupported | CapabilitySupport_Unknown

type_synonym metadata_values = "(metadata_field, json) bmap"

definition nonblank :: "json \<Rightarrow> bool" where
  "nonblank v = (case json_as_str v of Some s \<Rightarrow> trim s \<noteq> [] | None \<Rightarrow> False)"

definition metadata_value_valid :: "metadata_field \<Rightarrow> json \<Rightarrow> bool" where
  "metadata_value_valid f v =
     (if f \<in> {LogicalModelName, DisplayName} then json_is_null v \<or> nonblank v
      else if f \<in> {ContextWindow, MaxInputTokens, MaxOutputTokens}
      then json_is_null v \<or> (case json_as_i64 v of Some n \<Rightarrow> 0 <s n | None \<Rightarrow> False)
      else if f \<in> {InputModalities, OutputModalities}
      then json_is_null v \<or> (case json_as_array v of Some items \<Rightarrow> list_all nonblank items | None \<Rightarrow> False)
      else if is_feature f
      then (case json_as_str v of Some s \<Rightarrow> s \<in> {''supported'', ''unsupported'', ''unknown''} | None \<Rightarrow> False)
      else False)"

definition metadata_validate :: "metadata_values \<Rightarrow> (unit, catalog_error) result" where
  "metadata_validate values =
     for_each (\<lambda>(f, v). if metadata_value_valid f v then Ok ()
       else Err (CatalogError_InvalidMetadata (''invalid value for metadata field '' @ quoted (metadata_field_name f)))) values"

definition metadata_from_fields :: "(metadata_field \<times> json) list \<Rightarrow> (metadata_values, catalog_error) result" where
  "metadata_from_fields entries =
     (let values = foldl (\<lambda>m (f, v). binsert f v m) [] entries
      in and_then (metadata_validate values) (\<lambda>_. Ok values))"

record catalog_metadata =
  cm_values :: metadata_values
  cm_field_sources :: "(metadata_field, metadata_source) bmap"

definition metadata_unknown :: catalog_metadata where
  "metadata_unknown =
     \<lparr>cm_values = map (\<lambda>f. (f, unknown_value f)) metadata_field_ALL,
      cm_field_sources = map (\<lambda>f. (f, MetadataSource_Unknown)) metadata_field_ALL\<rparr>"

definition is_unknown_value :: "metadata_field \<Rightarrow> json \<Rightarrow> bool" where
  "is_unknown_value f v \<longleftrightarrow> json_is_null v \<or> (is_feature f \<and> json_as_str v = Some ''unknown'')"

definition apply_value :: "metadata_source \<Rightarrow> metadata_field \<times> json \<Rightarrow> catalog_metadata \<Rightarrow> catalog_metadata" where
  "apply_value source = (\<lambda>(f, v) m.
     let unknown = is_unknown_value f v in
     if unknown \<and> source \<noteq> MetadataSource_User \<and> map_of (cm_field_sources m) f \<noteq> Some MetadataSource_Unknown then m
     else m\<lparr>cm_values := binsert f v (cm_values m),
            cm_field_sources := binsert f (if unknown \<and> source \<noteq> MetadataSource_User then MetadataSource_Unknown else source)
                                  (cm_field_sources m)\<rparr>)"

definition apply_values :: "metadata_values \<Rightarrow> metadata_source \<Rightarrow> catalog_metadata \<Rightarrow> catalog_metadata" where
  "apply_values values source m = foldl (\<lambda>m fv. apply_value source fv m) m values"

definition metadata_resolve :: "metadata_values \<Rightarrow> metadata_values option \<Rightarrow> (catalog_metadata, catalog_error) result" where
  "metadata_resolve upstream preset =
     and_then (metadata_validate upstream) (\<lambda>_.
     and_then (case preset of Some p \<Rightarrow> metadata_validate p | None \<Rightarrow> Ok ()) (\<lambda>_.
       let result = apply_values upstream MetadataSource_Upstream metadata_unknown
       in Ok (case preset of Some p \<Rightarrow> apply_values p MetadataSource_Preset result | None \<Rightarrow> result)))"

definition apply_user_overrides :: "metadata_values \<Rightarrow> catalog_metadata \<Rightarrow> (catalog_metadata, catalog_error) result" where
  "apply_user_overrides overrides m =
     and_then (metadata_validate overrides) (\<lambda>_. Ok (apply_values overrides MetadataSource_User m))"

definition keep_user_field :: "catalog_metadata \<Rightarrow> metadata_field \<Rightarrow> catalog_metadata \<Rightarrow> catalog_metadata" where
  "keep_user_field old f refreshed =
     (if map_of (cm_field_sources old) f = Some MetadataSource_User then
        case map_of (cm_values old) f of
          Some v \<Rightarrow> refreshed\<lparr>cm_values := binsert f v (cm_values refreshed),
                             cm_field_sources := binsert f MetadataSource_User (cm_field_sources refreshed)\<rparr>
        | None \<Rightarrow> refreshed
      else refreshed)"

definition refreshed_preserving_user_fields ::
  "catalog_metadata \<Rightarrow> bool \<Rightarrow> metadata_values \<Rightarrow> metadata_values option \<Rightarrow> (catalog_metadata, catalog_error) result" where
  "refreshed_preserving_user_fields old confirmed upstream preset =
     (if confirmed then Ok old
      else and_then (metadata_resolve upstream preset) (\<lambda>refreshed.
             Ok (foldl (\<lambda>m f. keep_user_field old f m) refreshed metadata_field_ALL)))"

section \<open>Declared capabilities\<close>

record source_model_capability_input =
  ci_source_id :: string
  ci_upstream_model_id :: string
  ci_protocol :: protocol
  ci_status :: catalog_status
  ci_mode :: source_protocol_mode
  ci_source_protocol :: "protocol option"
  ci_adapter :: "string option"
  ci_feature_capabilities :: "(string, capability_support) bmap"
  ci_field_source :: metadata_source
  ci_observed_at :: int

definition capability_input_validate ::
  "(string, adapter_definition) hmap \<Rightarrow> source_model_capability_input \<Rightarrow> (unit, catalog_error) result" where
  "capability_input_validate reg i =
     (if ci_status i = CatalogStatus_Confirmed \<and> ci_mode i = SourceProtocolMode_Unknown
      then Err (CatalogError_InvalidState ''unknown protocol capability cannot be confirmed'')
      else if ci_mode i = SourceProtocolMode_Adapter then
        and_then (ok_or (CatalogError_InvalidState ''adapter capability requires source_protocol'') (ci_source_protocol i)) (\<lambda>source_protocol.
        and_then (ok_or (CatalogError_InvalidState ''adapter capability requires adapter'')
                   (option_filter (\<lambda>v. trim v \<noteq> []) (ci_adapter i))) (\<lambda>adapter.
        and_then (ok_or (CatalogError_InvalidState (''unknown adapter '' @ quoted adapter)) (hget reg adapter)) (\<lambda>d.
          if ad_from_protocol d \<noteq> ci_protocol i \<or> ad_to_protocol d \<noteq> source_protocol
          then Err (CatalogError_InvalidState (''adapter '' @ quoted adapter @ '' does not implement '' @
                 protocol_to_string (ci_protocol i) @ '' -> '' @ protocol_to_string source_protocol))
          else Ok ())))
      else if ci_source_protocol i \<noteq> None \<or> ci_adapter i \<noteq> None
      then Err (CatalogError_InvalidState ''only adapter capability may set source_protocol and adapter'')
      else Ok ())"

record published_model =
  pb_id :: string
  pb_display_name :: string
  pb_account_ids :: "string list"

section \<open>Names\<close>

lemma catalog_names_roundtrip [simp]:
  "catalog_status_from_str (catalog_status_as_str s) = Ok s"
  "catalog_availability_from_str (catalog_availability_as_str a) = Ok a"
  "source_protocol_mode_from_str (source_protocol_mode_as_str p) = Ok p"
  "metadata_source_from_str (metadata_source_to_string o') = Ok o'"
  by ((cases s; simp add: catalog_status_from_str_def), (cases a; simp add: catalog_availability_from_str_def),
      (cases p; simp add: source_protocol_mode_from_str_def), (cases o'; simp add: metadata_source_from_str_def))

section \<open>Merging\<close>

text \<open>One field of a record: its value and where the value comes from.\<close>

definition field_state :: "catalog_metadata \<Rightarrow> metadata_field \<Rightarrow> json option \<times> metadata_source option" where
  "field_state m f = (map_of (cm_values m) f, map_of (cm_field_sources m) f)"

definition merge_field ::
  "metadata_source \<Rightarrow> metadata_field \<Rightarrow> json \<Rightarrow> json option \<times> metadata_source option \<Rightarrow> json option \<times> metadata_source option" where
  "merge_field source f v st =
     (if is_unknown_value f v \<and> source \<noteq> MetadataSource_User
      then if snd st = Some MetadataSource_Unknown then (Some v, Some MetadataSource_Unknown) else st
      else (Some v, Some source))"

lemma apply_value_field:
  "field_state (apply_value source (g, v) m) f = (if f = g then merge_field source f v (field_state m f) else field_state m f)"
  by (auto simp: apply_value_def field_state_def merge_field_def Let_def)

lemma apply_values_field:
  assumes "distinct (map fst vs)"
  shows "field_state (apply_values vs source m) f =
    (case map_of vs f of None \<Rightarrow> field_state m f | Some v \<Rightarrow> merge_field source f v (field_state m f))"
  using assms
proof (induction vs arbitrary: m)
  case Nil
  then show ?case by (simp add: apply_values_def)
next
  case (Cons gv vs)
  obtain g v where gv: "gv = (g, v)" by (cases gv)
  have step: "apply_values (gv # vs) source m = apply_values vs source (apply_value source gv m)"
    by (simp add: apply_values_def)
  have "map_of vs g = None" using Cons.prems gv by (simp add: map_of_eq_None_iff)
  with Cons.IH [of "apply_value source gv m"] Cons.prems show ?case
    unfolding step by (auto simp: gv apply_value_field split: option.split)
qed

lemma unknown_field: "field_state metadata_unknown f = (Some (unknown_value f), Some MetadataSource_Unknown)"
  by (cases f) (simp_all add: field_state_def metadata_unknown_def metadata_field_ALL_def)

definition known :: "metadata_values \<Rightarrow> metadata_field \<Rightarrow> json option" where
  "known values f = option_filter (\<lambda>v. \<not> is_unknown_value f v) (map_of values f)"

text \<open>What the documentation promises: user over preset over upstream over unknown.\<close>

definition best_field ::
  "metadata_values \<Rightarrow> metadata_values \<Rightarrow> metadata_values \<Rightarrow> metadata_field \<Rightarrow> (json \<times> metadata_source) option" where
  "best_field user preset upstream f =
     (case map_of user f of
        Some v \<Rightarrow> Some (v, MetadataSource_User)
      | None \<Rightarrow>
          (case known preset f of
             Some v \<Rightarrow> Some (v, MetadataSource_Preset)
           | None \<Rightarrow> map_option (\<lambda>v. (v, MetadataSource_Upstream)) (known upstream f)))"

lemma unknown_value_unknown [simp]: "is_unknown_value f (unknown_value f)"
  by (simp add: is_unknown_value_def unknown_value_def)

lemma known_cases: "known values f = (case map_of values f of Some v \<Rightarrow> if is_unknown_value f v then None else Some v | None \<Rightarrow> None)"
  by (simp add: known_def option_filter_def split: option.split)

lemma resolve_field:
  assumes "metadata_resolve upstream preset = Ok m" "distinct (map fst upstream)" "\<forall>p. preset = Some p \<longrightarrow> distinct (map fst p)"
  shows "case best_field [] (case preset of Some p \<Rightarrow> p | None \<Rightarrow> []) upstream f of
      Some (v, source) \<Rightarrow> field_state m f = (Some v, Some source)
    | None \<Rightarrow> \<exists>u. is_unknown_value f u \<and> field_state m f = (Some u, Some MetadataSource_Unknown)"
proof -
  from assms(1) have m: "m = (case preset of Some p \<Rightarrow> apply_values p MetadataSource_Preset
      (apply_values upstream MetadataSource_Upstream metadata_unknown)
    | None \<Rightarrow> apply_values upstream MetadataSource_Upstream metadata_unknown)"
    by (auto simp: metadata_resolve_def and_then_Ok Let_def split: option.splits)
  have up: "field_state (apply_values upstream MetadataSource_Upstream metadata_unknown) f =
      (case map_of upstream f of None \<Rightarrow> (Some (unknown_value f), Some MetadataSource_Unknown)
       | Some v \<Rightarrow> if is_unknown_value f v then (Some v, Some MetadataSource_Unknown) else (Some v, Some MetadataSource_Upstream))"
    by (simp add: apply_values_field [OF assms(2)] unknown_field merge_field_def split: option.split)
  show ?thesis
  proof (cases preset)
    case None
    then show ?thesis unfolding m using up by (auto simp: best_field_def known_cases split: option.split)
  next
    case (Some p)
    with assms(3) have "distinct (map fst p)" by simp
    from apply_values_field [OF this] Some show ?thesis
      unfolding m by (auto simp: up best_field_def known_cases merge_field_def split: option.split if_splits)
  qed
qed

text \<open>
  C22: metadata precedence. After resolving a discovered model against a preset and applying the
  user's overrides, every field has the value and the origin the documentation promises: the user's
  value if there is one, else a known preset value, else a known upstream value, else an unknown value
  marked unknown.
\<close>

theorem metadata_precedence:
  assumes "metadata_resolve upstream (Some preset) = Ok m" "apply_user_overrides user m = Ok m'"
    and "distinct (map fst upstream)" "distinct (map fst preset)" "distinct (map fst user)"
  shows "case best_field user preset upstream f of
      Some (v, source) \<Rightarrow> field_state m' f = (Some v, Some source)
    | None \<Rightarrow> \<exists>u. is_unknown_value f u \<and> field_state m' f = (Some u, Some MetadataSource_Unknown)"
proof -
  from assms(2) have "m' = apply_values user MetadataSource_User m" by (auto simp: apply_user_overrides_def and_then_Ok)
  with apply_values_field [OF assms(5)] have f: "field_state m' f =
      (case map_of user f of None \<Rightarrow> field_state m f | Some v \<Rightarrow> (Some v, Some MetadataSource_User))"
    by (simp add: merge_field_def split: option.split)
  have "best_field user preset upstream f = (case map_of user f of Some v \<Rightarrow> Some (v, MetadataSource_User)
      | None \<Rightarrow> best_field [] preset upstream f)"
    by (simp add: best_field_def split: option.split)
  then show ?thesis using resolve_field [OF assms(1,3), of f] assms(4) by (auto simp: f split: option.splits)
qed

theorem metadata_precedence_witness:
  "\<exists>m m'. metadata_resolve [(DisplayName, JString ''up'')] (Some [(DisplayName, JString ''pre''), (Tools, JString ''supported'')]) = Ok m \<and>
     apply_user_overrides [(DisplayName, JString ''mine'')] m = Ok m' \<and>
     field_state m' DisplayName = (Some (JString ''mine''), Some MetadataSource_User) \<and>
     field_state m' Tools = (Some (JString ''supported''), Some MetadataSource_Preset)"
proof -
  let ?up = "[(DisplayName, JString ''up'')]" and ?pre = "[(DisplayName, JString ''pre''), (Tools, JString ''supported'')]"
  let ?user = "[(DisplayName, JString ''mine'')]"
  have "is_ok (metadata_resolve ?up (Some ?pre))" "is_ok (metadata_validate ?user)" by code_simp+
  then obtain m m' where m: "metadata_resolve ?up (Some ?pre) = Ok m" "apply_user_overrides ?user m = Ok m'"
    by (auto simp: is_ok_iff apply_user_overrides_def)
  have "best_field ?user ?pre ?up DisplayName = Some (JString ''mine'', MetadataSource_User)"
    "best_field ?user ?pre ?up Tools = Some (JString ''supported'', MetadataSource_Preset)" by code_simp+
  with metadata_precedence [OF m, of DisplayName] metadata_precedence [OF m, of Tools] m show ?thesis by auto
qed

section \<open>Refreshing\<close>

lemma keep_user_fields:
  "field_state (foldl (\<lambda>m f. keep_user_field old f m) m fs) f =
     (if f \<in> set fs \<and> snd (field_state old f) = Some MetadataSource_User \<and> fst (field_state old f) \<noteq> None
      then field_state old f else field_state m f)"
proof (induction fs arbitrary: m)
  case (Cons g fs)
  have "field_state (keep_user_field old g m) f =
      (if f = g \<and> snd (field_state old f) = Some MetadataSource_User \<and> fst (field_state old f) \<noteq> None
       then field_state old f else field_state m f)"
    by (auto simp: keep_user_field_def field_state_def split: option.split)
  with Cons.IH [of "keep_user_field old g m"] show ?case by auto
qed simp

lemma metadata_field_ALL_all: "f \<in> set metadata_field_ALL"
  by (cases f) (simp_all add: metadata_field_ALL_def)

inductive refresh_step :: "catalog_metadata \<Rightarrow> catalog_metadata \<Rightarrow> bool" where
  "refreshed_preserving_user_fields old confirmed upstream preset = Ok new \<Longrightarrow> refresh_step old new"

lemma refresh_keeps_user_field:
  assumes "refresh_step old new" "field_state old f = (Some v, Some MetadataSource_User)"
  shows "field_state new f = (Some v, Some MetadataSource_User)"
  using assms
  by cases (auto simp: refreshed_preserving_user_fields_def and_then_Ok keep_user_fields metadata_field_ALL_all split: if_splits)

text \<open>
  What the user set stays. After the user overrides a field, however often discovery refreshes
  the record, with whatever upstream and preset metadata, confirmed or not, the field keeps the
  user's value and stays marked as the user's.
\<close>

theorem user_override_survives:
  assumes "apply_user_overrides user m = Ok m1" "distinct (map fst user)" "map_of user f = Some v" "refresh_step\<^sup>*\<^sup>* m1 m2"
  shows "field_state m2 f = (Some v, Some MetadataSource_User)"
  using assms(4)
proof (induction rule: rtranclp_induct)
  case base
  from assms(1) have "m1 = apply_values user MetadataSource_User m" by (auto simp: apply_user_overrides_def and_then_Ok)
  with apply_values_field [OF assms(2)] assms(3) show ?case by (simp add: merge_field_def)
next
  case (step m2 m3)
  from refresh_keeps_user_field [OF step(2) step.IH] show ?case .
qed

theorem user_override_survives_witness:
  "\<exists>m1 m2. apply_user_overrides [(DisplayName, JString ''mine'')] metadata_unknown = Ok m1 \<and>
     refreshed_preserving_user_fields m1 False [(DisplayName, JString ''up'')] None = Ok m2 \<and>
     field_state m2 DisplayName = (Some (JString ''mine''), Some MetadataSource_User)"
proof -
  let ?user = "[(DisplayName, JString ''mine'')]" and ?up = "[(DisplayName, JString ''up'')]"
  have "is_ok (metadata_validate ?user)" "is_ok (metadata_resolve ?up None)" by code_simp+
  then obtain m1 m2 where m: "apply_user_overrides ?user metadata_unknown = Ok m1"
      "refreshed_preserving_user_fields m1 False ?up None = Ok m2"
    by (auto simp: is_ok_iff apply_user_overrides_def refreshed_preserving_user_fields_def)
  then have "refresh_step m1 m2" by (auto intro: refresh_step.intros)
  with user_override_survives [OF m(1), of DisplayName "JString ''mine''" m2] m show ?thesis by auto
qed

end
