(* ===== verification/Control_Db.thy ===== *)
theory Control_Db
  imports Domain_Catalog Infra_Db_Health Infra_Secrets
begin

text \<open>
  The tables of the control plane (\<open>migrations/*.sql\<close>) as the code under \<open>src/control_plane/\<close> reads
  and writes them, and the text order of the database.

  A table is the list of its rows. Columns that no code of the control plane reads (the columns of
  \<open>routes\<close> and \<open>accounts\<close> kept for older rows) are left out. How PostgreSQL compares text depends
  on its collation, so the order is an argument of the queries; \<open>text_order\<close> collects what the
  queries rely on.
\<close>

section \<open>Errors\<close>

text \<open>
  \<open>src/control_plane/error.rs\<close>. A driver error is its SQLSTATE code and message when the server
  sent one; the texts of driver and JSON errors are carried, not computed.
\<close>

datatype sqlx_error = SqlxDatabase "string option" string | SqlxOther string

datatype control_plane_error =
    CpDatabase sqlx_error
  | CpJson string
  | CpNotFound string
  | CpConflict string
  | CpValidation "string list"
  | CpCredential secret_resolver_error
  | CpNoCiphertext

definition control_error_of_sqlx :: "sqlx_error \<Rightarrow> control_plane_error" where
  "control_error_of_sqlx e =
     (case e of
        SqlxDatabase code message \<Rightarrow>
          if code \<in> {Some ''23505'', Some ''40001''} then CpConflict message
          else if code \<in> {Some ''23503'', Some ''23514'', Some ''22P02''} then CpValidation [message]
          else CpDatabase e
      | SqlxOther _ \<Rightarrow> CpDatabase e)"

fun control_error_code :: "control_plane_error \<Rightarrow> string" where
  "control_error_code (CpDatabase _) = ''database_error''"
| "control_error_code (CpJson _) = ''validation_failed''"
| "control_error_code (CpValidation _) = ''validation_failed''"
| "control_error_code (CpNotFound _) = ''not_found''"
| "control_error_code (CpConflict _) = ''conflict''"
| "control_error_code (CpCredential e) = secret_error_code e"
| "control_error_code CpNoCiphertext = ''no_ciphertext''"

text \<open>\<open>if errors.is_empty() { Ok(()) } else { Err(Validation(errors)) }\<close>.\<close>

definition validation_result :: "string list \<Rightarrow> (unit, control_plane_error) result" where
  "validation_result errors = (if errors = [] then Ok () else Err (CpValidation errors))"

lemma validation_result_Ok [simp]: "validation_result errors = Ok () \<longleftrightarrow> errors = []"
  by (simp add: validation_result_def)

text \<open>\<open>i64\<close> in a format string.\<close>

definition show_int :: "int \<Rightarrow> string" where
  "show_int n = (if n < 0 then CHR ''-'' # show_nat (nat (- n)) else show_nat (nat n))"

section \<open>Rows\<close>

record provider_preset_row =
  pp_id :: string
  pp_version :: i32
  pp_definition :: json

record source_row =
  so_id :: string
  so_display_name :: string
  so_provider_preset_id :: string
  so_provider_preset_version :: i32
  so_provider_preset_snapshot :: json
  so_base_url :: string
  so_endpoints :: json
  so_auth_config :: json
  so_protocol_capabilities :: json
  so_enabled :: bool
  so_created_at :: date_time
  so_updated_at :: date_time

record account_row =
  ar_id :: string
  ar_source_id :: string
  ar_display_name :: string
  ar_credential_env :: "string option"
  ar_credential_ciphertext :: "string option"
  ar_enabled :: bool
  ar_weight :: i32
  ar_health_status :: string
  ar_health_source :: string
  ar_health_updated_at :: "date_time option"
  ar_consecutive_failures :: int
  ar_failure_window_started_at :: "date_time option"
  ar_cooldown_until :: "date_time option"
  ar_last_error :: "string option"
  ar_last_success_at :: "date_time option"
  ar_last_probe_at :: "date_time option"
  ar_last_probe_status :: "string option"
  ar_last_probe_error :: "string option"
  ar_created_at :: date_time
  ar_updated_at :: date_time

record source_model_row =
  sm_source_id :: string
  sm_upstream_model_id :: string
  sm_confirmation_status :: catalog_status
  sm_availability_status :: catalog_availability
  sm_raw_snapshot :: json
  sm_metadata :: json
  sm_field_sources :: json
  sm_matched_model_preset :: "(string \<times> i32) option"
  sm_first_discovered_at :: date_time
  sm_last_discovered_at :: date_time
  sm_confirmed_at :: "date_time option"
  sm_unavailable_at :: "date_time option"
  sm_created_at :: date_time
  sm_updated_at :: date_time

record capability_row =
  sc_source_id :: string
  sc_upstream_model_id :: string
  sc_protocol :: protocol
  sc_status :: catalog_status
  sc_mode :: source_protocol_mode
  sc_source_protocol :: "protocol option"
  sc_adapter :: "string option"
  sc_feature_capabilities :: json
  sc_field_source :: metadata_source
  sc_observed_at :: date_time
  sc_confirmed_at :: "date_time option"
  sc_unavailable_at :: "date_time option"
  sc_updated_at :: date_time

record logical_model_row =
  lm_id :: string
  lm_public_name :: string
  lm_display_name :: string
  lm_status :: catalog_status
  lm_metadata :: json
  lm_field_sources :: json
  lm_enabled :: bool
  lm_request_timeout_ms :: "i64 option"
  lm_max_retries :: "i32 option"
  lm_confirmed_at :: "date_time option"
  lm_unavailable_at :: "date_time option"
  lm_created_at :: date_time
  lm_updated_at :: date_time

record binding_row =
  bi_id :: i64
  bi_logical_model_id :: string
  bi_source_id :: string
  bi_account_id :: string
  bi_upstream_model_id :: string
  bi_protocol :: protocol
  bi_status :: catalog_status
  bi_enabled :: bool
  bi_priority :: i32
  bi_confirmed_at :: "date_time option"
  bi_unavailable_at :: "date_time option"
  bi_created_at :: date_time
  bi_updated_at :: date_time

record route_row =
  ro_id :: string
  ro_logical_model_id :: "string option"
  ro_protocols :: json
  ro_strategy :: string
  ro_allow_lossy_conversion :: bool
  ro_enabled :: bool
  ro_created_at :: date_time
  ro_updated_at :: date_time

record control_db =
  cd_presets :: "provider_preset_row list"
  cd_sources :: "source_row list"
  cd_accounts :: "account_row list"
  cd_source_models :: "source_model_row list"
  cd_capabilities :: "capability_row list"
  cd_logical_models :: "logical_model_row list"
  cd_bindings :: "binding_row list"
  cd_routes :: "route_row list"
  cd_health_events :: "account_health_event list"
  cd_revision :: int
  cd_snapshot_updated_at :: date_time

section \<open>Schema\<close>

text \<open>The primary keys, unique constraints and foreign keys of the tables.\<close>

definition capability_key :: "capability_row \<Rightarrow> string \<times> string \<times> protocol" where
  "capability_key c = (sc_source_id c, sc_upstream_model_id c, sc_protocol c)"

definition binding_key :: "binding_row \<Rightarrow> string \<times> string \<times> string \<times> string \<times> protocol" where
  "binding_key b = (bi_logical_model_id b, bi_source_id b, bi_account_id b, bi_upstream_model_id b, bi_protocol b)"

definition source_model_key :: "source_model_row \<Rightarrow> string \<times> string" where
  "source_model_key m = (sm_source_id m, sm_upstream_model_id m)"

definition account_key :: "account_row \<Rightarrow> string \<times> string" where
  "account_key a = (ar_id a, ar_source_id a)"

definition keys_ok :: "control_db \<Rightarrow> bool" where
  "keys_ok db \<longleftrightarrow>
     distinct (map (\<lambda>p. (pp_id p, pp_version p)) (cd_presets db)) \<and>
     distinct (map so_id (cd_sources db)) \<and> distinct (map ar_id (cd_accounts db)) \<and>
     distinct (map source_model_key (cd_source_models db)) \<and>
     distinct (map capability_key (cd_capabilities db)) \<and>
     distinct (map lm_id (cd_logical_models db)) \<and> distinct (map lm_public_name (cd_logical_models db)) \<and>
     distinct (map bi_id (cd_bindings db)) \<and> distinct (map binding_key (cd_bindings db)) \<and>
     distinct (map ro_id (cd_routes db))"

definition references_ok :: "control_db \<Rightarrow> bool" where
  "references_ok db \<longleftrightarrow>
     ar_source_id ` set (cd_accounts db) \<subseteq> so_id ` set (cd_sources db) \<and>
     sm_source_id ` set (cd_source_models db) \<subseteq> so_id ` set (cd_sources db) \<and>
     (\<lambda>c. (sc_source_id c, sc_upstream_model_id c)) ` set (cd_capabilities db) \<subseteq> source_model_key ` set (cd_source_models db) \<and>
     bi_logical_model_id ` set (cd_bindings db) \<subseteq> lm_id ` set (cd_logical_models db) \<and>
     (\<lambda>b. (bi_source_id b, bi_upstream_model_id b, bi_protocol b)) ` set (cd_bindings db) \<subseteq> capability_key ` set (cd_capabilities db) \<and>
     (\<lambda>b. (bi_account_id b, bi_source_id b)) ` set (cd_bindings db) \<subseteq> account_key ` set (cd_accounts db) \<and>
     (\<Union>r \<in> set (cd_routes db). set_option (ro_logical_model_id r)) \<subseteq> lm_id ` set (cd_logical_models db)"

definition schema_ok :: "control_db \<Rightarrow> bool" where
  "schema_ok db \<longleftrightarrow> keys_ok db \<and> references_ok db"

text \<open>\<open>UPDATE ... WHERE\<close>.\<close>

definition update_rows :: "('a \<Rightarrow> bool) \<Rightarrow> ('a \<Rightarrow> 'a) \<Rightarrow> 'a list \<Rightarrow> 'a list" where
  "update_rows P f xs = map (\<lambda>x. if P x then f x else x) xs"

lemma set_update_rows: "set (update_rows P f xs) = (\<lambda>x. if P x then f x else x) ` set xs"
  by (simp add: update_rows_def)

lemma map_update_rows: "(\<And>x. P x \<Longrightarrow> g (f x) = g x) \<Longrightarrow> map g (update_rows P f xs) = map g xs"
  by (simp add: update_rows_def)

lemma image_update_rows: "(\<And>x. P x \<Longrightarrow> g (f x) = g x) \<Longrightarrow> g ` set (update_rows P f xs) = g ` set xs"
  by (metis list.set_map map_update_rows)

lemma key_unique:
  "distinct (map f xs) \<Longrightarrow> x \<in> set xs \<Longrightarrow> y \<in> set xs \<Longrightarrow> f x = f y \<Longrightarrow> x = y"
  by (auto simp: distinct_map inj_on_def)

lemma update_rows_single:
  assumes "distinct (map key xs)" "old \<in> set xs" "key old = k" "q \<in> set (update_rows (\<lambda>r. key r = k) f xs)"
  shows "q = f old \<or> q \<in> set xs \<and> key q \<noteq> k"
proof -
  from assms(4) obtain r where r: "r \<in> set xs" "q = (if key r = k then f r else r)" by (auto simp: set_update_rows)
  show ?thesis
  proof (cases "key r = k")
    case True
    with key_unique [OF assms(1) r(1) assms(2)] assms(3) r(2) show ?thesis by simp
  qed (use r in simp)
qed

section \<open>ORDER BY\<close>

fun insert_by :: "('a \<Rightarrow> 'a \<Rightarrow> bool) \<Rightarrow> 'a \<Rightarrow> 'a list \<Rightarrow> 'a list" where
  "insert_by le x [] = [x]"
| "insert_by le x (y # ys) = (if le x y then x # y # ys else y # insert_by le x ys)"

definition sort_by :: "('a \<Rightarrow> 'a \<Rightarrow> bool) \<Rightarrow> 'a list \<Rightarrow> 'a list" where
  "sort_by le xs = foldr (insert_by le) xs []"

lemma set_insert_by [simp]: "set (insert_by le x xs) = insert x (set xs)"
  by (induction xs) auto

lemma set_sort_by [simp]: "set (sort_by le xs) = set xs"
  by (induction xs) (simp_all add: sort_by_def)

lemma length_insert_by [simp]: "length (insert_by le x xs) = Suc (length xs)"
  by (induction xs) simp_all

lemma length_sort_by [simp]: "length (sort_by le xs) = length xs"
  by (induction xs) (simp_all add: sort_by_def)

lemma distinct_insert_by [simp]: "distinct (insert_by le x xs) \<longleftrightarrow> x \<notin> set xs \<and> distinct xs"
  by (induction xs) auto

lemma distinct_sort_by [simp]: "distinct (sort_by le xs) = distinct xs"
proof (induction xs)
  case (Cons x xs)
  have "sort_by le (x # xs) = insert_by le x (sort_by le xs)" by (simp add: sort_by_def)
  with Cons show ?case by simp
qed (simp add: sort_by_def)

locale query_order =
  fixes le :: "'a \<Rightarrow> 'a \<Rightarrow> bool"
  assumes le_total: "le x y \<or> le y x"
    and le_trans: "le x y \<Longrightarrow> le y z \<Longrightarrow> le x z"
begin

lemma insert_by_sorted: "sorted_wrt le xs \<Longrightarrow> sorted_wrt le (insert_by le x xs)"
proof (induction xs)
  case (Cons y ys)
  show ?case
  proof (cases "le x y")
    case True
    with Cons.prems show ?thesis by (auto intro: le_trans)
  next
    case False
    with le_total have "le y x" by blast
    with Cons False show ?thesis by auto
  qed
qed simp

lemma sort_by_sorted: "sorted_wrt le (sort_by le xs)"
  by (induction xs) (simp_all add: sort_by_def insert_by_sorted)

end

text \<open>The order of a text column: a linear order, whatever the collation.\<close>

locale text_order = query_order +
  assumes le_antisym: "le x y \<Longrightarrow> le y x \<Longrightarrow> x = y"

text \<open>The byte order of strings, which is also the order of Rust's \<open>str\<close>.\<close>

definition byte_le :: "string \<Rightarrow> string \<Rightarrow> bool" where
  "byte_le x y \<longleftrightarrow> x \<le> y"

interpretation bytes: text_order byte_le
  by unfold_locales (auto simp: byte_le_def)

end
