(* ===== verification/Control_Snapshot.thy ===== *)
theory Control_Snapshot
  imports Control_Db Domain_Routing
begin

text \<open>
  \<open>src/control_plane/snapshot.rs\<close>: how the tables of the control plane become the runtime snapshot
  that requests are served from.

  The query is the join of six tables, written as a list comprehension with its \<open>WHERE\<close> clause and
  sorted by its \<open>ORDER BY\<close>; \<open>le\<close> is the database's text order and \<open>de\<close> gives the text of a JSON
  decoding error. Decoding a column is what the derived \<open>Deserialize\<close> implementations accept.
\<close>

section \<open>Columns in JSON\<close>

definition protocol_of_name :: "string \<Rightarrow> protocol option" where
  "protocol_of_name s = List.find (\<lambda>p. protocol_to_string p = s) protocol_ALL"

text \<open>A unit variant: its name, or an object with that single key and \<open>null\<close>.\<close>

fun decode_protocol :: "json \<Rightarrow> protocol option" where
  "decode_protocol (JString s) = protocol_of_name s"
| "decode_protocol (JObject [(s, JNull)]) = protocol_of_name s"
| "decode_protocol _ = None"

definition decode_protocols :: "json \<Rightarrow> protocol list option" where
  "decode_protocols v = Option.bind (json_as_array v) (\<lambda>items. those (map decode_protocol items))"

definition decode_endpoint :: "string \<times> json \<Rightarrow> (protocol \<times> string) option" where
  "decode_endpoint = (\<lambda>(k, v). Option.bind (protocol_of_name k) (\<lambda>p. map_option (Pair p) (json_as_str v)))"

definition decode_endpoints :: "json \<Rightarrow> (protocol, string) hmap option" where
  "decode_endpoints v = Option.bind (json_as_object v) (\<lambda>entries.
     map_option (foldl (\<lambda>m (p, e). hinsert p e m) []) (those (map decode_endpoint entries)))"

text \<open>\<open>serde_json::to_value\<close> of the same types.\<close>

definition encode_protocols :: "protocol list \<Rightarrow> json" where
  "encode_protocols ps = JArray (map (\<lambda>p. JString (protocol_to_string p)) ps)"

definition capability_value :: "json option \<Rightarrow> (capability_mode, string) result" where
  "capability_value value =
     (case value of
        None \<Rightarrow> Ok CapabilityMode_Unsupported
      | Some v \<Rightarrow>
          (case json_as_bool v of
             Some b \<Rightarrow> Ok (if b then CapabilityMode_Native else CapabilityMode_Unsupported)
           | None \<Rightarrow>
               (case json_as_str v of
                  Some s \<Rightarrow>
                    if s = ''supported'' \<or> s = ''native'' then Ok CapabilityMode_Native
                    else if s = ''translated'' then Ok CapabilityMode_Translated
                    else if s = ''unsupported'' \<or> s = ''unknown'' then Ok CapabilityMode_Unsupported
                    else Err (''unknown capability value '' @ quoted s)
                | None \<Rightarrow> Err ''capability values must be booleans or strings'')))"

definition capabilities_from_catalog :: "json \<Rightarrow> (capabilities, string) result" where
  "capabilities_from_catalog value =
     (if json_is_null value then Ok capabilities_default
      else and_then (ok_or ''expected a JSON object'' (json_as_object value)) (\<lambda>object.
        let mode = (\<lambda>name. capability_value (map_of object name)) in
        and_then (mode ''streaming'') (\<lambda>m1.
        and_then (mode ''tools'') (\<lambda>m2.
        and_then (mode ''tool_streaming'') (\<lambda>m3.
        and_then (mode ''thinking'') (\<lambda>m4.
        and_then (mode ''web_search'') (\<lambda>m5.
        and_then (mode ''file_search'') (\<lambda>m6.
        and_then (mode ''vision'') (\<lambda>m7.
        and_then (mode ''usage'') (\<lambda>m8.
          Ok \<lparr>cap_streaming = m1, cap_tools = m2, cap_tool_streaming = m3, cap_thinking = m4,
              cap_web_search = m5, cap_file_search = m6, cap_vision = m7, cap_usage = m8\<rparr>))))))))))"

section \<open>The query\<close>

text \<open>\<open>SnapshotRow\<close>: its columns come from these rows.\<close>

record snapshot_row =
  sr_route :: route_row
  sr_model :: logical_model_row
  sr_binding :: binding_row
  sr_source :: source_row
  sr_account :: account_row
  sr_source_model :: source_model_row
  sr_capability :: capability_row

definition snapshot_join :: "control_db \<Rightarrow> snapshot_row list" where
  "snapshot_join db =
     [\<lparr>sr_route = r, sr_model = lm, sr_binding = b, sr_source = s, sr_account = a, sr_source_model = sm,
       sr_capability = c\<rparr>.
        r \<leftarrow> cd_routes db, ro_enabled r,
        lm \<leftarrow> cd_logical_models db, ro_logical_model_id r = Some (lm_id lm) \<and> lm_enabled lm \<and> lm_status lm = CatalogStatus_Confirmed,
        b \<leftarrow> cd_bindings db, bi_logical_model_id b = lm_id lm \<and> bi_enabled b \<and> bi_status b = CatalogStatus_Confirmed,
        s \<leftarrow> cd_sources db, so_id s = bi_source_id b,
        a \<leftarrow> cd_accounts db, ar_id a = bi_account_id b \<and> ar_source_id a = bi_source_id b,
        sm \<leftarrow> cd_source_models db, sm_source_id sm = bi_source_id b \<and> sm_upstream_model_id sm = bi_upstream_model_id b \<and>
          sm_confirmation_status sm = CatalogStatus_Confirmed \<and> sm_availability_status sm = CatalogAvailability_Available,
        c \<leftarrow> cd_capabilities db, capability_key c = (bi_source_id b, bi_upstream_model_id b, bi_protocol b) \<and>
          sc_status c = CatalogStatus_Confirmed \<and> is_routable (sc_mode c)]"

text \<open>Within a route: protocol, priority descending, native first, binding.\<close>

definition snapshot_rank :: "snapshot_row \<Rightarrow> protocol \<times> int \<times> nat \<times> int" where
  "snapshot_rank x =
     (bi_protocol (sr_binding x), - sint (bi_priority (sr_binding x)),
      if sc_mode (sr_capability x) = SourceProtocolMode_Native then 0 else 1, sint (bi_id (sr_binding x)))"

definition snapshot_le :: "(string \<Rightarrow> string \<Rightarrow> bool) \<Rightarrow> snapshot_row \<Rightarrow> snapshot_row \<Rightarrow> bool" where
  "snapshot_le le x y =
     (if ro_id (sr_route x) \<noteq> ro_id (sr_route y) then le (ro_id (sr_route x)) (ro_id (sr_route y))
      else snapshot_rank x \<le> snapshot_rank y)"

definition snapshot_rows :: "(string \<Rightarrow> string \<Rightarrow> bool) \<Rightarrow> control_db \<Rightarrow> snapshot_row list" where
  "snapshot_rows le db = sort_by (snapshot_le le) (snapshot_join db)"

section \<open>One row\<close>

text \<open>
  The checks of one row, up to the first \<open>continue\<close>: \<open>None\<close> where the row is passed over, \<open>Some\<close> the
  error it adds, or the decoded endpoints of the source and the runtime binding.
\<close>

definition reject :: "string \<Rightarrow> 'a option \<Rightarrow> ('a, string option) result" where
  "reject message = ok_or (Some message)"

definition upstream_protocol :: "snapshot_row \<Rightarrow> (protocol, string option) result" where
  "upstream_protocol x =
     (case sc_mode (sr_capability x) of
        SourceProtocolMode_Native \<Rightarrow> Ok (bi_protocol (sr_binding x))
      | SourceProtocolMode_Adapter \<Rightarrow>
          reject (''binding '' @ show_int (sint (bi_id (sr_binding x))) @ '' adapter capability is missing source_protocol'')
            (sc_source_protocol (sr_capability x))
      | _ \<Rightarrow> Err None)"

definition adapter_features ::
  "adapter_registry \<Rightarrow> snapshot_row \<Rightarrow> protocol \<Rightarrow> (capabilities option, string option) result" where
  "adapter_features reg x upstream =
     (let label = ''binding '' @ show_int (sint (bi_id (sr_binding x))) in
      if sc_mode (sr_capability x) = SourceProtocolMode_Adapter then
        and_then (reject (label @ '' is missing adapter'') (sc_adapter (sr_capability x))) (\<lambda>name.
        and_then (reject (label @ '' uses unknown adapter '' @ quoted name) (adapter_definition reg name)) (\<lambda>d.
          if ad_from_protocol d \<noteq> bi_protocol (sr_binding x) \<or> ad_to_protocol d \<noteq> upstream
          then Err (Some (label @ '' adapter '' @ quoted name @ '' direction does not match '' @
                 protocol_to_string (bi_protocol (sr_binding x)) @ '' -> '' @ protocol_to_string upstream))
          else Ok (Some (ad_features d))))
      else Ok None)"

definition snapshot_binding ::
  "snapshot_row \<Rightarrow> protocol \<Rightarrow> string \<Rightarrow> capabilities \<Rightarrow> string list \<Rightarrow> runtime_binding" where
  "snapshot_binding x upstream endpoint effective degraded =
     \<lparr>rb_binding_id = bi_id (sr_binding x), rb_source_id = so_id (sr_source x),
      rb_provider_id = so_provider_preset_id (sr_source x), rb_account_id = ar_id (sr_account x),
      rb_upstream_model_id = bi_upstream_model_id (sr_binding x), rb_protocol_upstream = upstream,
      rb_upstream_endpoint = join_endpoint (so_base_url (sr_source x)) endpoint,
      rb_mode = (if sc_mode (sr_capability x) = SourceProtocolMode_Native then ''native'' else ''adapter''),
      rb_adapter = sc_adapter (sr_capability x), rb_effective_capabilities = effective,
      rb_degraded_features = degraded\<rparr>"

definition resolve_row ::
  "adapter_registry \<Rightarrow> (json \<Rightarrow> string) \<Rightarrow> snapshot_row \<Rightarrow> ((protocol, string) hmap \<times> runtime_binding, string option) result" where
  "resolve_row reg de x =
     (let r = sr_route x; b = sr_binding x; s = sr_source x; c = sr_capability x;
          label = ''binding '' @ show_int (sint (bi_id b)) in
      and_then (reject (''route '' @ quoted (ro_id r) @ ''.protocols is invalid: '' @ de (ro_protocols r))
                 (decode_protocols (ro_protocols r))) (\<lambda>route_protocols.
      if bi_protocol b \<notin> set route_protocols then Err None
      else
      and_then (reject (''source '' @ quoted (so_id s) @ ''.endpoints is invalid: '' @ de (so_endpoints s))
                 (decode_endpoints (so_endpoints s))) (\<lambda>endpoints.
      and_then (upstream_protocol x) (\<lambda>upstream.
      and_then (reject (label @ '' source '' @ quoted (so_id s) @ '' has no endpoint for '' @ protocol_to_string upstream)
                 (option_filter (\<lambda>e. trim e \<noteq> []) (hget endpoints upstream))) (\<lambda>endpoint.
      and_then (case capabilities_from_catalog (sc_feature_capabilities c) of
                  Ok m \<Rightarrow> Ok m
                | Err e \<Rightarrow> Err (Some (label @ '' feature_capabilities is invalid: '' @ e))) (\<lambda>source_capabilities.
      and_then (adapter_features reg x upstream) (\<lambda>features.
      and_then (case intersect_capabilities source_capabilities features (ro_allow_lossy_conversion r) of
                  Ok m \<Rightarrow> Ok m
                | Err feature \<Rightarrow> Err (Some (''route '' @ quoted (ro_id r) @ '' '' @ label @ '' would lose feature '' @
                    quoted feature @ '' without allow_lossy_conversion''))) (\<lambda>(effective, degraded).
        Ok (endpoints,
            snapshot_binding x upstream endpoint effective degraded)))))))))"

section \<open>The loop\<close>

record snapshot_acc =
  sa_providers :: "(string, provider_config) hmap"
  sa_accounts :: "(string, account_config) hmap"
  sa_routes :: "runtime_route list"
  sa_models :: "published_model list"
  sa_errors :: "string list"

definition push_error :: "string \<Rightarrow> snapshot_acc \<Rightarrow> snapshot_acc" where
  "push_error e acc = acc\<lparr>sa_errors := sa_errors acc @ [e]\<rparr>"

text \<open>\<open>entry(k).or_insert_with(v)\<close>, then an update of the entry.\<close>

definition entry_update :: "'k \<Rightarrow> 'v \<Rightarrow> ('v \<Rightarrow> 'v) \<Rightarrow> ('k, 'v) hmap \<Rightarrow> ('k, 'v) hmap" where
  "entry_update k v f m = hinsert k (f (case hget m k of Some v \<Rightarrow> v | None \<Rightarrow> v)) m"

definition snapshot_provider :: "snapshot_row \<Rightarrow> (protocol, string) hmap \<Rightarrow> provider_config" where
  "snapshot_provider x endpoints =
     \<lparr>pv_id = so_id (sr_source x), pv_name = so_display_name (sr_source x), pv_base_url = so_base_url (sr_source x),
      pv_models = [], pv_native_protocols = [], pv_endpoints = endpoints, pv_capabilities = capabilities_default,
      pv_protocol_capabilities = [], pv_model_overrides = []\<rparr>"

definition add_provider_model :: "string \<Rightarrow> provider_config \<Rightarrow> provider_config" where
  "add_provider_model model p =
     (if model \<in> set (pv_models p) then p else p\<lparr>pv_models := pv_models p @ [model]\<rparr>)"

definition snapshot_account :: "snapshot_row \<Rightarrow> account_config" where
  "snapshot_account x =
     \<lparr>ac_id = ar_id (sr_account x), ac_provider_id = so_id (sr_source x), ac_display_name = ar_display_name (sr_account x),
      ac_credential_env = ar_credential_env (sr_account x),
      ac_credential_ciphertext = ar_credential_ciphertext (sr_account x), ac_credential = None,
      ac_enabled = (ar_enabled (sr_account x) \<and> so_enabled (sr_source x)), ac_weight = ar_weight (sr_account x),
      ac_protocol_capabilities = [], ac_capabilities = None, ac_model_overrides = [], ac_model_map = []\<rparr>"

definition add_model_map :: "string \<Rightarrow> string \<Rightarrow> account_config \<Rightarrow> account_config" where
  "add_model_map public upstream a =
     (if hget (ac_model_map a) public = None then a\<lparr>ac_model_map := hinsert public upstream (ac_model_map a)\<rparr> else a)"

definition route_matches :: "snapshot_row \<Rightarrow> runtime_route \<Rightarrow> bool" where
  "route_matches x route \<longleftrightarrow>
     rt_route_id route = ro_id (sr_route x) \<and> rt_model route = lm_public_name (sr_model x) \<and>
     rt_protocol route = bi_protocol (sr_binding x)"

definition snapshot_route :: "snapshot_row \<Rightarrow> runtime_binding \<Rightarrow> runtime_route" where
  "snapshot_route x b =
     \<lparr>rt_route_id = ro_id (sr_route x), rt_model = lm_public_name (sr_model x), rt_protocol = bi_protocol (sr_binding x),
      rt_strategy = ro_strategy (sr_route x), rt_request_timeout_ms = lm_request_timeout_ms (sr_model x),
      rt_max_retries = lm_max_retries (sr_model x), rt_allow_lossy_conversion = ro_allow_lossy_conversion (sr_route x),
      rt_bindings = [b]\<rparr>"

text \<open>\<open>iter_mut().find\<close>: the first match is updated, else a new element is pushed.\<close>

fun update_first_or_push :: "('a \<Rightarrow> bool) \<Rightarrow> ('a \<Rightarrow> 'a) \<Rightarrow> 'a \<Rightarrow> 'a list \<Rightarrow> 'a list" where
  "update_first_or_push P f new [] = [new]"
| "update_first_or_push P f new (x # xs) = (if P x then f x # xs else x # update_first_or_push P f new xs)"

definition add_route :: "snapshot_row \<Rightarrow> runtime_binding \<Rightarrow> runtime_route list \<Rightarrow> runtime_route list" where
  "add_route x b =
     update_first_or_push (route_matches x) (\<lambda>route. route\<lparr>rt_bindings := rt_bindings route @ [b]\<rparr>) (snapshot_route x b)"

definition add_model :: "snapshot_row \<Rightarrow> published_model list \<Rightarrow> published_model list" where
  "add_model x =
     update_first_or_push (\<lambda>m. pb_id m = lm_public_name (sr_model x))
       (\<lambda>m. if ar_id (sr_account x) \<in> set (pb_account_ids m) then m
            else m\<lparr>pb_account_ids := pb_account_ids m @ [ar_id (sr_account x)]\<rparr>)
       \<lparr>pb_id = lm_public_name (sr_model x), pb_display_name = lm_display_name (sr_model x),
        pb_account_ids = [ar_id (sr_account x)]\<rparr>"

definition snapshot_step :: "adapter_registry \<Rightarrow> (json \<Rightarrow> string) \<Rightarrow> snapshot_row \<Rightarrow> snapshot_acc \<Rightarrow> snapshot_acc" where
  "snapshot_step reg de x acc =
     (case resolve_row reg de x of
        Err None \<Rightarrow> acc
      | Err (Some e) \<Rightarrow> push_error e acc
      | Ok (endpoints, binding) \<Rightarrow>
          let upstream = bi_upstream_model_id (sr_binding x); public = lm_public_name (sr_model x);
              aid = ar_id (sr_account x);
              acc = acc\<lparr>sa_providers := entry_update (so_id (sr_source x)) (snapshot_provider x endpoints)
                          (add_provider_model upstream) (sa_providers acc)\<rparr>
          in if sint (ar_weight (sr_account x)) \<le> 0
             then push_error (''account '' @ quoted aid @ '' has non-positive weight'') acc
             else let known = Option.bind (hget (sa_accounts acc) aid) (\<lambda>a. hget (ac_model_map a) public);
                      acc = acc\<lparr>sa_accounts := entry_update aid (snapshot_account x) (add_model_map public upstream) (sa_accounts acc)\<rparr>
                  in if known \<noteq> None \<and> known \<noteq> Some upstream \<and> ro_strategy (sr_route x) \<noteq> ''ordered_fallback''
                     then push_error (''account '' @ quoted aid @ '' has multiple upstream models for logical model '' @ quoted public) acc
                     else acc\<lparr>sa_routes := add_route x binding (sa_routes acc), sa_models := add_model x (sa_models acc)\<rparr>)"

definition snapshot_acc_empty :: snapshot_acc where
  "snapshot_acc_empty = \<lparr>sa_providers = [], sa_accounts = [], sa_routes = [], sa_models = [], sa_errors = []\<rparr>"

record runtime_snapshot =
  sn_config :: gateway_config
  sn_resolver :: route_resolver
  sn_models :: "published_model list"
  sn_revision :: int
  sn_generated_at :: date_time

definition snapshot_new ::
  "gateway_config \<Rightarrow> runtime_route list \<Rightarrow> published_model list \<Rightarrow> int \<Rightarrow> date_time \<Rightarrow> runtime_snapshot" where
  "snapshot_new config routes models revision generated_at =
     \<lparr>sn_config = config, sn_resolver = from_runtime config routes, sn_models = models, sn_revision = revision,
      sn_generated_at = generated_at\<rparr>"

definition snapshot_finish ::
  "snapshot_acc \<Rightarrow> string \<Rightarrow> int \<Rightarrow> date_time \<Rightarrow> (runtime_snapshot, control_plane_error) result" where
  "snapshot_finish acc listen_addr revision generated_at =
     (if sa_errors acc \<noteq> [] then Err (CpValidation (sa_errors acc))
      else Ok (snapshot_new
        \<lparr>gc_listen_addr = listen_addr, gc_providers = sort_key pv_id (map snd (sa_providers acc)),
         gc_accounts = sort_key ac_id (map snd (sa_accounts acc)), gc_routes = []\<rparr>
        (sa_routes acc) (sort_key pb_id (sa_models acc)) revision generated_at))"

definition build_snapshot ::
  "adapter_registry \<Rightarrow> (json \<Rightarrow> string) \<Rightarrow> (string \<Rightarrow> string \<Rightarrow> bool) \<Rightarrow> control_db \<Rightarrow> string \<Rightarrow> int \<Rightarrow> date_time
   \<Rightarrow> (runtime_snapshot, control_plane_error) result" where
  "build_snapshot reg de le db listen_addr revision generated_at =
     snapshot_finish (foldl (\<lambda>acc x. snapshot_step reg de x acc) snapshot_acc_empty (snapshot_rows le db))
       listen_addr revision generated_at"

section \<open>What the loop computes\<close>

text \<open>The accepted rows, with their endpoints and bindings, in query order.\<close>

type_synonym accepted_row = "snapshot_row \<times> (protocol, string) hmap \<times> runtime_binding"

abbreviation row_of :: "accepted_row \<Rightarrow> snapshot_row" where "row_of y \<equiv> fst y"
abbreviation endpoints_of :: "accepted_row \<Rightarrow> (protocol, string) hmap" where "endpoints_of y \<equiv> fst (snd y)"
abbreviation binding_of :: "accepted_row \<Rightarrow> runtime_binding" where "binding_of y \<equiv> snd (snd y)"

definition accepted_rows :: "adapter_registry \<Rightarrow> (json \<Rightarrow> string) \<Rightarrow> snapshot_row list \<Rightarrow> accepted_row list" where
  "accepted_rows reg de xs =
     List.map_filter (\<lambda>x. case resolve_row reg de x of Ok eb \<Rightarrow> Some (x, eb) | Err _ \<Rightarrow> None) xs"

definition collect_providers :: "accepted_row list \<Rightarrow> (string, provider_config) hmap" where
  "collect_providers ys =
     foldl (\<lambda>m y. entry_update (so_id (sr_source (row_of y))) (snapshot_provider (row_of y) (endpoints_of y))
              (add_provider_model (bi_upstream_model_id (sr_binding (row_of y)))) m) [] ys"

definition collect_accounts :: "accepted_row list \<Rightarrow> (string, account_config) hmap" where
  "collect_accounts ys =
     foldl (\<lambda>m y. entry_update (ar_id (sr_account (row_of y))) (snapshot_account (row_of y))
              (add_model_map (lm_public_name (sr_model (row_of y))) (bi_upstream_model_id (sr_binding (row_of y)))) m) [] ys"

definition collect_routes :: "accepted_row list \<Rightarrow> runtime_route list" where
  "collect_routes ys = foldl (\<lambda>rs y. add_route (row_of y) (binding_of y) rs) [] ys"

definition collect_models :: "accepted_row list \<Rightarrow> published_model list" where
  "collect_models ys = foldl (\<lambda>ms y. add_model (row_of y) ms) [] ys"

lemmas collect_defs = collect_providers_def collect_accounts_def collect_routes_def collect_models_def

lemma accepted_rows_simps [simp]:
  "accepted_rows reg de [] = []"
  "accepted_rows reg de (xs @ ys) = accepted_rows reg de xs @ accepted_rows reg de ys"
  "accepted_rows reg de [x] = (case resolve_row reg de x of Ok eb \<Rightarrow> [(x, eb)] | Err _ \<Rightarrow> [])"
  by (simp_all add: accepted_rows_def List.map_filter_def split: sum.split)

lemma accepted_rowsD:
  "(x, endpoints, b) \<in> set (accepted_rows reg de xs) \<longleftrightarrow> x \<in> set xs \<and> resolve_row reg de x = Ok (endpoints, b)"
  by (induction xs rule: rev_induct) (auto split: sum.splits)

lemma accepted_rows_row: "row_of ` set (accepted_rows reg de xs) = {x \<in> set xs. is_ok (resolve_row reg de x)}"
proof (induction xs rule: rev_induct)
  case (snoc x xs)
  then show ?case by (cases "resolve_row reg de x") auto
qed simp

lemma push_error_errors [simp]: "sa_errors (push_error e acc) \<noteq> []"
  by (simp add: push_error_def)

text \<open>A step that leaves no error had none before it, and either passed the row over or added all of it.\<close>

lemma snapshot_step_ok:
  assumes "sa_errors (snapshot_step reg de x acc) = []"
  shows "sa_errors acc = []"
    and "resolve_row reg de x = Err e \<Longrightarrow> snapshot_step reg de x acc = acc"
    and "resolve_row reg de x = Ok (endpoints, b) \<Longrightarrow> 0 < sint (ar_weight (sr_account x)) \<and>
      snapshot_step reg de x acc =
        acc\<lparr>sa_providers := entry_update (so_id (sr_source x)) (snapshot_provider x endpoints)
               (add_provider_model (bi_upstream_model_id (sr_binding x))) (sa_providers acc),
            sa_accounts := entry_update (ar_id (sr_account x)) (snapshot_account x)
               (add_model_map (lm_public_name (sr_model x)) (bi_upstream_model_id (sr_binding x))) (sa_accounts acc),
            sa_routes := add_route x b (sa_routes acc), sa_models := add_model x (sa_models acc)\<rparr>"
  using assms
  by (auto simp: snapshot_step_def Let_def push_error_def split: sum.splits option.splits if_splits prod.splits)

lemma snapshot_fold:
  assumes "sa_errors (foldl (\<lambda>acc x. snapshot_step reg de x acc) snapshot_acc_empty xs) = []"
  shows "foldl (\<lambda>acc x. snapshot_step reg de x acc) snapshot_acc_empty xs =
      \<lparr>sa_providers = collect_providers (accepted_rows reg de xs), sa_accounts = collect_accounts (accepted_rows reg de xs),
       sa_routes = collect_routes (accepted_rows reg de xs), sa_models = collect_models (accepted_rows reg de xs),
       sa_errors = []\<rparr>"
    and "\<forall>(x, e, b) \<in> set (accepted_rows reg de xs). 0 < sint (ar_weight (sr_account x))"
  using assms
proof (induction xs rule: rev_induct)
  case Nil
  { case 1 show ?case by (simp add: snapshot_acc_empty_def collect_defs) }
  { case 2 show ?case by simp }
next
  case (snoc x xs)
  let ?acc = "foldl (\<lambda>acc x. snapshot_step reg de x acc) snapshot_acc_empty xs"
  have step: "sa_errors (snapshot_step reg de x ?acc) = []" if
      "sa_errors (foldl (\<lambda>acc x. snapshot_step reg de x acc) snapshot_acc_empty (xs @ [x])) = []" using that by simp
  { case 1
    note ok = snapshot_step_ok [OF step [OF 1]]
    from snoc.IH(1) [OF ok(1)] ok(2,3) show ?case
      by (cases "resolve_row reg de x") (auto simp: collect_defs) }
  { case 2
    note ok = snapshot_step_ok [OF step [OF 2]]
    from snoc.IH(2) [OF ok(1)] ok(3) show ?case
      by (cases "resolve_row reg de x") auto }
qed

lemma update_first_or_push_key:
  assumes "distinct (map key xs)" "\<And>x. P x \<longleftrightarrow> key x = k"
  shows "update_first_or_push P f new xs =
    (if k \<in> key ` set xs then map (\<lambda>x. if P x then f x else x) xs else xs @ [new])"
  using assms(1)
proof (induction xs)
  case (Cons x xs)
  have "map (\<lambda>x. if P x then f x else x) xs = xs" if "P x"
    using that Cons.prems assms(2) by (intro map_idI) (metis distinct.simps(2) image_eqI list.simps(9) list.set_map)
  with Cons assms(2) show ?case by auto
qed simp

section \<open>Providers and accounts\<close>

lemma entry_fold:
  assumes "\<And>y v. erase (upd y v) = erase v"
  shows "hmap_ok (foldl (\<lambda>m y. entry_update (key y) (new y) (upd y) m) [] ys)"
    and "fst ` set (foldl (\<lambda>m y. entry_update (key y) (new y) (upd y) m) [] ys) = key ` set ys"
    and "hget (foldl (\<lambda>m y. entry_update (key y) (new y) (upd y) m) [] ys) k = Some v \<Longrightarrow>
      \<exists>y \<in> set ys. key y = k \<and> erase v = erase (new y)"
proof (induction ys arbitrary: v rule: rev_induct)
  case Nil
  { case 1 show ?case by (simp add: hmap_ok_def) }
  { case 2 show ?case by simp }
  { case 3 then show ?case by simp }
next
  case (snoc y ys)
  { case 1 from snoc.IH(1) show ?case by (simp add: entry_update_def) }
  { case 2 from snoc.IH(2) keys_hinsert show ?case by (auto simp: entry_update_def keys_hinsert [simplified]) }
  { case 3
    then show ?case using snoc.IH(3) [of v] snoc.IH(3) [of "the (hget (foldl (\<lambda>m y. entry_update (key y) (new y) (upd y) m) [] ys) k)"]
      by (auto simp: entry_update_def assms split: if_splits option.splits) }
qed

lemma collect_providers_spec:
  "hmap_ok (collect_providers ys)"
  "fst ` set (collect_providers ys) = (\<lambda>y. so_id (sr_source (row_of y))) ` set ys"
  "hget (collect_providers ys) k = Some p \<Longrightarrow>
     \<exists>y \<in> set ys. so_id (sr_source (row_of y)) = k \<and> p\<lparr>pv_models := []\<rparr> = snapshot_provider (row_of y) (endpoints_of y)"
proof -
  have erase: "(add_provider_model m p)\<lparr>pv_models := []\<rparr> = p\<lparr>pv_models := []\<rparr>" for m p
    by (simp add: add_provider_model_def)
  note spec = entry_fold [where erase = "\<lambda>p. p\<lparr>pv_models := []\<rparr>", OF erase, folded collect_providers_def]
  show "hmap_ok (collect_providers ys)" unfolding collect_providers_def by (rule spec(1))
  show "fst ` set (collect_providers ys) = (\<lambda>y. so_id (sr_source (row_of y))) ` set ys"
    unfolding collect_providers_def by (rule spec(2))
  show "\<exists>y \<in> set ys. so_id (sr_source (row_of y)) = k \<and> p\<lparr>pv_models := []\<rparr> = snapshot_provider (row_of y) (endpoints_of y)"
    if "hget (collect_providers ys) k = Some p"
    using spec(3) [OF that [unfolded collect_providers_def]] by (auto simp: snapshot_provider_def)
qed

lemma collect_accounts_spec:
  "hmap_ok (collect_accounts ys)"
  "fst ` set (collect_accounts ys) = (\<lambda>y. ar_id (sr_account (row_of y))) ` set ys"
  "hget (collect_accounts ys) k = Some a \<Longrightarrow>
     \<exists>y \<in> set ys. ar_id (sr_account (row_of y)) = k \<and> a\<lparr>ac_model_map := []\<rparr> = snapshot_account (row_of y)"
proof -
  have erase: "(add_model_map m u a)\<lparr>ac_model_map := []\<rparr> = a\<lparr>ac_model_map := []\<rparr>" for m u a
    by (simp add: add_model_map_def)
  note spec = entry_fold [where erase = "\<lambda>a. a\<lparr>ac_model_map := []\<rparr>", OF erase]
  show "hmap_ok (collect_accounts ys)" unfolding collect_accounts_def by (rule spec(1))
  show "fst ` set (collect_accounts ys) = (\<lambda>y. ar_id (sr_account (row_of y))) ` set ys"
    unfolding collect_accounts_def by (rule spec(2))
  show "\<exists>y \<in> set ys. ar_id (sr_account (row_of y)) = k \<and> a\<lparr>ac_model_map := []\<rparr> = snapshot_account (row_of y)"
    if "hget (collect_accounts ys) k = Some a"
    using spec(3) [OF that [unfolded collect_accounts_def]] by (auto simp: snapshot_account_def)
qed

section \<open>Routes and models\<close>

lemma update_first_or_push_keys:
  assumes "distinct (map key xs)" "\<And>x. P x \<longleftrightarrow> key x = k" "\<And>x. key (f x) = key x" "key new = k"
  shows "map key (update_first_or_push P f new xs) = (if k \<in> key ` set xs then map key xs else map key xs @ [k])"
  unfolding update_first_or_push_key [OF assms(1,2)] using assms(3,4) by (auto simp: o_def)

definition row_key :: "snapshot_row \<Rightarrow> string \<times> string \<times> protocol" where
  "row_key x = (ro_id (sr_route x), lm_public_name (sr_model x), bi_protocol (sr_binding x))"

definition route_key :: "runtime_route \<Rightarrow> string \<times> string \<times> protocol" where
  "route_key r = (rt_route_id r, rt_model r, rt_protocol r)"

lemma route_matches_key: "route_matches x r \<longleftrightarrow> route_key r = row_key x"
  by (auto simp: route_matches_def route_key_def row_key_def)

lemma route_key_simps [simp]:
  "route_key (r\<lparr>rt_bindings := bs\<rparr>) = route_key r" "route_key (snapshot_route x b) = row_key x"
  by (simp_all add: route_key_def row_key_def snapshot_route_def)

lemma collect_snoc [simp]:
  "collect_routes [] = []" "collect_routes (ys @ [y]) = add_route (row_of y) (binding_of y) (collect_routes ys)"
  "collect_models [] = []" "collect_models (ys @ [y]) = add_model (row_of y) (collect_models ys)"
  by (simp_all add: collect_routes_def collect_models_def)

lemma collect_routes_keys:
  "distinct (map route_key (collect_routes ys)) \<and>
   route_key ` set (collect_routes ys) = (\<lambda>y. row_key (row_of y)) ` set ys"
proof (induction ys rule: rev_induct)
  case (snoc y ys)
  let ?rs = "collect_routes ys" and ?x = "row_of y"
  have "map route_key (collect_routes (ys @ [y])) =
      (if row_key ?x \<in> route_key ` set ?rs then map route_key ?rs else map route_key ?rs @ [row_key ?x])"
    using snoc by (simp add: add_route_def update_first_or_push_keys [where k = "row_key ?x"] route_matches_key)
  note keys = this
  from arg_cong [OF keys, of set]
  have "route_key ` set (collect_routes (ys @ [y])) = insert (row_key ?x) (route_key ` set ?rs)"
    by (auto simp del: collect_snoc split: if_splits)
  with snoc keys show ?case by (simp del: collect_snoc split: if_splits)
qed simp

lemma collect_routes_bindings:
  "r \<in> set (collect_routes ys) \<Longrightarrow> rt_bindings r = map binding_of (filter (\<lambda>y. row_key (row_of y) = route_key r) ys)"
proof (induction ys arbitrary: r rule: rev_induct)
  case (snoc y ys)
  let ?rs = "collect_routes ys" and ?x = "row_of y"
  have keys: "distinct (map route_key ?rs)" "route_key ` set ?rs = (\<lambda>y. row_key (row_of y)) ` set ys"
    using collect_routes_keys [of ys] by auto
  have step: "collect_routes (ys @ [y]) =
      (if row_key ?x \<in> route_key ` set ?rs
       then map (\<lambda>r. if route_key r = row_key ?x then r\<lparr>rt_bindings := rt_bindings r @ [binding_of y]\<rparr> else r) ?rs
       else ?rs @ [snapshot_route ?x (binding_of y)])"
    using update_first_or_push_key [OF keys(1) route_matches_key [of ?x]]
    by (simp add: add_route_def) (simp add: route_matches_key)
  show ?case
  proof (cases "row_key ?x \<in> route_key ` set ?rs")
    case True
    with snoc.prems obtain q where q: "q \<in> set ?rs"
      "r = (if route_key q = row_key ?x then q\<lparr>rt_bindings := rt_bindings q @ [binding_of y]\<rparr> else q)"
      by (auto simp: step simp del: collect_snoc)
    with snoc.IH [OF q(1)] show ?thesis by auto
  next
    case False
    then have none: "filter (\<lambda>z. row_key (row_of z) = row_key ?x) ys = []"
      unfolding keys(2) by (auto simp: filter_empty_conv image_iff)
    from False snoc.prems consider "r \<in> set ?rs" | "r = snapshot_route ?x (binding_of y)"
      by (auto simp: step simp del: collect_snoc)
    then show ?thesis
    proof cases
      case 1
      with False have "row_key ?x \<noteq> route_key r" by (metis image_eqI)
      with snoc.IH [OF 1] show ?thesis by simp
    next
      case 2
      then have "route_key r = row_key ?x" "rt_bindings r = [binding_of y]" by (simp, simp add: snapshot_route_def)
      with none show ?thesis by simp
    qed
  qed
qed simp

lemma collect_models_keys:
  "distinct (map pb_id (collect_models ys)) \<and>
   pb_id ` set (collect_models ys) = (\<lambda>y. lm_public_name (sr_model (row_of y))) ` set ys"
proof (induction ys rule: rev_induct)
  case (snoc y ys)
  let ?ms = "collect_models ys" and ?k = "lm_public_name (sr_model (row_of y))"
  have "map pb_id (collect_models (ys @ [y])) = (if ?k \<in> pb_id ` set ?ms then map pb_id ?ms else map pb_id ?ms @ [?k])"
    using snoc by (simp add: add_model_def update_first_or_push_keys [where k = ?k])
  note keys = this
  from arg_cong [OF keys, of set]
  have "pb_id ` set (collect_models (ys @ [y])) = insert ?k (pb_id ` set ?ms)"
    by (auto simp del: collect_snoc split: if_splits)
  with snoc keys show ?case by (simp del: collect_snoc split: if_splits)
qed simp

section \<open>What a snapshot holds\<close>

lemma find_sorted_values:
  assumes "hmap_ok m" "\<And>k v. hget m k = Some v \<Longrightarrow> f v = k"
  shows "List.find (\<lambda>v. f v = k) (sort_key f (map snd m)) = hget m k"
proof -
  have vals: "v \<in> snd ` set m \<and> f v = k \<longleftrightarrow> hget m k = Some v" for v
  proof
    assume "v \<in> snd ` set m \<and> f v = k"
    then obtain k' where "(k', v) \<in> set m" "f v = k" by auto
    with assms show "hget m k = Some v" by (metis hget_iff)
  next
    assume "hget m k = Some v"
    with assms show "v \<in> snd ` set m \<and> f v = k" by (metis hget_set image_eqI snd_conv)
  qed
  show ?thesis
  proof (cases "List.find (\<lambda>v. f v = k) (sort_key f (map snd m))")
    case None
    then have "\<forall>v \<in> snd ` set m. f v \<noteq> k" by (auto simp: find_None_iff)
    with vals show ?thesis by (metis None not_None_eq)
  next
    case (Some v)
    then have "v \<in> set (sort_key f (map snd m)) \<and> f v = k" unfolding find_Some_iff by (metis nth_mem)
    then have "v \<in> snd ` set m \<and> f v = k" by simp
    with vals Some show ?thesis by simp
  qed
qed

definition published_rows ::
  "adapter_registry \<Rightarrow> (json \<Rightarrow> string) \<Rightarrow> (string \<Rightarrow> string \<Rightarrow> bool) \<Rightarrow> control_db \<Rightarrow> accepted_row list" where
  "published_rows reg de le db = accepted_rows reg de (snapshot_rows le db)"

lemma build_snapshot_Ok:
  assumes "build_snapshot reg de le db addr revision t = Ok snap"
  defines "ys \<equiv> published_rows reg de le db"
  shows "account (sn_config snap) aid = hget (collect_accounts ys) aid"
    and "provider (sn_config snap) sid = hget (collect_providers ys) sid"
    and "sn_resolver snap = from_runtime (sn_config snap) (collect_routes ys)"
    and "set (sn_models snap) = set (collect_models ys)"
    and "y \<in> set ys \<Longrightarrow> 0 < sint (ar_weight (sr_account (row_of y)))"
    and "sn_revision snap = revision"
proof -
  let ?acc = "foldl (\<lambda>acc x. snapshot_step reg de x acc) snapshot_acc_empty (snapshot_rows le db)"
  from assms(1) have err: "sa_errors ?acc = []" by (auto simp: build_snapshot_def snapshot_finish_def split: if_splits)
  note acc = snapshot_fold [OF err]
  from assms(1) err acc(1) have snap: "snap = snapshot_new
      \<lparr>gc_listen_addr = addr, gc_providers = sort_key pv_id (map snd (collect_providers ys)),
       gc_accounts = sort_key ac_id (map snd (collect_accounts ys)), gc_routes = []\<rparr>
      (collect_routes ys) (sort_key pb_id (collect_models ys)) revision t"
    by (simp add: build_snapshot_def snapshot_finish_def ys_def published_rows_def)
  have "ac_id a = k" if "hget (collect_accounts ys) k = Some a" for k a
  proof -
    from collect_accounts_spec(3) [OF that] obtain x where "ar_id (sr_account x) = k" "a\<lparr>ac_model_map := []\<rparr> = snapshot_account x"
      by blast
    then have "ac_id (a\<lparr>ac_model_map := []\<rparr>) = k" by (simp add: snapshot_account_def)
    then show ?thesis by simp
  qed
  from find_sorted_values [OF collect_accounts_spec(1) this]
  show "account (sn_config snap) aid = hget (collect_accounts ys) aid"
    by (simp add: snap snapshot_new_def account_def)
  have "pv_id p = k" if "hget (collect_providers ys) k = Some p" for k p
  proof -
    from collect_providers_spec(3) [OF that] obtain x e where "so_id (sr_source x) = k" "p\<lparr>pv_models := []\<rparr> = snapshot_provider x e"
      by blast
    then have "pv_id (p\<lparr>pv_models := []\<rparr>) = k" by (simp add: snapshot_provider_def)
    then show ?thesis by simp
  qed
  from find_sorted_values [OF collect_providers_spec(1) this]
  show "provider (sn_config snap) sid = hget (collect_providers ys) sid"
    by (simp add: snap snapshot_new_def provider_def)
  show "0 < sint (ar_weight (sr_account (row_of y)))" if "y \<in> set ys"
    using acc(2) that by (cases y) (auto simp: ys_def published_rows_def)
  show "sn_resolver snap = from_runtime (sn_config snap) (collect_routes ys)" "set (sn_models snap) = set (collect_models ys)"
    "sn_revision snap = revision"
    by (simp_all add: snap snapshot_new_def)
qed

lemma join_row:
  assumes "x \<in> set (snapshot_rows le db)"
  shows "sr_route x \<in> set (cd_routes db)" "sr_model x \<in> set (cd_logical_models db)" "sr_binding x \<in> set (cd_bindings db)"
    "sr_source x \<in> set (cd_sources db)" "sr_account x \<in> set (cd_accounts db)" "sr_capability x \<in> set (cd_capabilities db)"
    "ro_logical_model_id (sr_route x) = Some (lm_id (sr_model x))" "bi_logical_model_id (sr_binding x) = lm_id (sr_model x)"
    "so_id (sr_source x) = bi_source_id (sr_binding x)" "ar_source_id (sr_account x) = so_id (sr_source x)"
    "ar_id (sr_account x) = bi_account_id (sr_binding x)" "sr_source_model x \<in> set (cd_source_models db)"
    "sm_source_id (sr_source_model x) = bi_source_id (sr_binding x)"
    "sm_upstream_model_id (sr_source_model x) = bi_upstream_model_id (sr_binding x)"
    "capability_key (sr_capability x) = (bi_source_id (sr_binding x), bi_upstream_model_id (sr_binding x), bi_protocol (sr_binding x))"
  using assms by (auto simp: snapshot_rows_def snapshot_join_def)

lemma join_row_live:
  assumes "x \<in> set (snapshot_rows le db)"
  shows "ro_enabled (sr_route x)" "bi_enabled (sr_binding x)" "bi_status (sr_binding x) = CatalogStatus_Confirmed"
  using assms by (auto simp: snapshot_rows_def snapshot_join_def)

lemma resolve_row_binding:
  assumes "resolve_row reg de x = Ok (e, b)"
  shows "rb_binding_id b = bi_id (sr_binding x)" "rb_account_id b = ar_id (sr_account x)" "rb_source_id b = so_id (sr_source x)"
    "rb_provider_id b = so_provider_preset_id (sr_source x)"
    "\<exists>ps. decode_protocols (ro_protocols (sr_route x)) = Some ps \<and> bi_protocol (sr_binding x) \<in> set ps"
  using assms by (auto simp: resolve_row_def snapshot_binding_def reject_def ok_or_Ok Let_def and_then_Ok split: if_splits)

lemma published_row:
  assumes "y \<in> set (published_rows reg de le db)"
  shows "row_of y \<in> set (snapshot_rows le db)" "resolve_row reg de (row_of y) = Ok (endpoints_of y, binding_of y)"
  using assms accepted_rowsD [of "row_of y" "endpoints_of y" "binding_of y" reg de "snapshot_rows le db"]
  by (auto simp: published_rows_def)

text \<open>Resolving on a snapshot: the first route of the model and protocol, whose bindings are never empty.\<close>

lemma find_is_Some: "(\<exists>x \<in> set xs. P x) \<longleftrightarrow> (\<exists>x. List.find P xs = Some x)"
  by (metis find_None_iff not_None_eq)

lemma snapshot_resolves:
  assumes "build_snapshot reg de le db addr revision t = Ok snap"
  defines "ys \<equiv> published_rows reg de le db"
  shows "resolve_detailed reg' (sn_resolver snap) p m = Ok r \<Longrightarrow>
      \<exists>route \<in> set (collect_routes ys). rt_protocol route = p \<and> rt_model route = m \<and> rr_route_id r = rt_route_id route \<and>
        (\<exists>b. rt_bindings route = b # rr_fallback_bindings r \<and> rr_binding_id r = Some (rb_binding_id b) \<and>
           rr_primary_account_id r = rb_account_id b \<and> rr_source_id r = rb_source_id b \<and> rr_provider_id r = rb_provider_id b)"
    and "is_ok (resolve_detailed reg' (sn_resolver snap) p m) \<longleftrightarrow>
      (\<exists>route \<in> set (collect_routes ys). rt_protocol route = p \<and> rt_model route = m)"
proof -
  have det: "resolve_detailed reg' (sn_resolver snap) p m = resolve_runtime_route (collect_routes ys) p m"
    using build_snapshot_Ok(3) [OF assms(1)] by (simp add: resolve_detailed_def from_runtime_def ys_def)
  have ne: "rt_bindings route \<noteq> []" if "route \<in> set (collect_routes ys)" for route
  proof -
    from that have "route_key route \<in> route_key ` set (collect_routes ys)" by simp
    then obtain y where "y \<in> set ys" "row_key (row_of y) = route_key route"
      using collect_routes_keys [of ys] by auto
    then show ?thesis using collect_routes_bindings [OF that] by (auto simp: filter_empty_conv)
  qed
  show "\<exists>route \<in> set (collect_routes ys). rt_protocol route = p \<and> rt_model route = m \<and> rr_route_id r = rt_route_id route \<and>
        (\<exists>b. rt_bindings route = b # rr_fallback_bindings r \<and> rr_binding_id r = Some (rb_binding_id b) \<and>
           rr_primary_account_id r = rb_account_id b \<and> rr_source_id r = rb_source_id b \<and> rr_provider_id r = rb_provider_id b)"
    if "resolve_detailed reg' (sn_resolver snap) p m = Ok r"
  proof -
    from that obtain route where f: "List.find (\<lambda>route. rt_protocol route = p \<and> rt_model route = m) (collect_routes ys) = Some route"
      by (auto simp: det resolve_runtime_route_def split: option.splits)
    then have "route \<in> set (collect_routes ys) \<and> rt_protocol route = p \<and> rt_model route = m"
      by (metis (mono_tags, lifting) find_Some_iff nth_mem)
    moreover from that f ne [of route] have "\<exists>b. rt_bindings route = b # rr_fallback_bindings r \<and>
        rr_binding_id r = Some (rb_binding_id b) \<and> rr_primary_account_id r = rb_account_id b \<and> rr_source_id r = rb_source_id b \<and>
        rr_provider_id r = rb_provider_id b"
      "rr_route_id r = rt_route_id route"
      by (auto simp: det resolve_runtime_route_def split: list.splits)
    ultimately show ?thesis by blast
  qed
  show "is_ok (resolve_detailed reg' (sn_resolver snap) p m) \<longleftrightarrow>
      (\<exists>route \<in> set (collect_routes ys). rt_protocol route = p \<and> rt_model route = m)"
  proof
    assume "is_ok (resolve_detailed reg' (sn_resolver snap) p m)"
    then obtain route where "List.find (\<lambda>route. rt_protocol route = p \<and> rt_model route = m) (collect_routes ys) = Some route"
      by (auto simp: det resolve_runtime_route_def split: option.splits)
    then show "\<exists>route \<in> set (collect_routes ys). rt_protocol route = p \<and> rt_model route = m" unfolding find_is_Some by blast
  next
    assume "\<exists>route \<in> set (collect_routes ys). rt_protocol route = p \<and> rt_model route = m"
    then obtain route where f: "List.find (\<lambda>route. rt_protocol route = p \<and> rt_model route = m) (collect_routes ys) = Some route"
      unfolding find_is_Some by blast
    then have "route \<in> set (collect_routes ys)" by (metis (mono_tags, lifting) find_Some_iff nth_mem)
    with f ne [of route] show "is_ok (resolve_detailed reg' (sn_resolver snap) p m)"
      by (auto simp: det resolve_runtime_route_def split: list.splits)
  qed
qed

text \<open>The accounts a resolved route may be sent to, each with the source it is expected at.\<close>

definition resolved_lines :: "resolved_route \<Rightarrow> (string \<times> string) list" where
  "resolved_lines r =
     (rr_primary_account_id r, rr_source_id r) # map (\<lambda>b. (rb_account_id b, rb_source_id b)) (rr_fallback_bindings r)"

text \<open>A sample: one model with two bindings, of which the second has the higher priority.\<close>

definition sample_source :: source_row where
  "sample_source =
     \<lparr>so_id = ''s'', so_display_name = ''S'', so_provider_preset_id = ''custom'', so_provider_preset_version = 1,
      so_provider_preset_snapshot = JNull, so_base_url = ''https://up.example'',
      so_endpoints = JObject [(''openai_responses'', JString ''/v1/responses'')], so_auth_config = JNull,
      so_protocol_capabilities = JNull, so_enabled = True, so_created_at = 0, so_updated_at = 0\<rparr>"

definition sample_account_row :: "string \<Rightarrow> account_row" where
  "sample_account_row aid =
     \<lparr>ar_id = aid, ar_source_id = ''s'', ar_display_name = aid, ar_credential_env = Some ''K'',
      ar_credential_ciphertext = None, ar_enabled = True, ar_weight = 100, ar_health_status = ''unknown'',
      ar_health_source = ''passive'', ar_health_updated_at = None, ar_consecutive_failures = 0,
      ar_failure_window_started_at = None, ar_cooldown_until = None, ar_last_error = None, ar_last_success_at = None,
      ar_last_probe_at = None, ar_last_probe_status = None, ar_last_probe_error = None, ar_created_at = 0,
      ar_updated_at = 0\<rparr>"

definition sample_binding_row :: "i64 \<Rightarrow> string \<Rightarrow> i32 \<Rightarrow> binding_row" where
  "sample_binding_row i aid prio =
     \<lparr>bi_id = i, bi_logical_model_id = ''l'', bi_source_id = ''s'', bi_account_id = aid, bi_upstream_model_id = ''u'',
      bi_protocol = OpenAiResponses, bi_status = CatalogStatus_Confirmed, bi_enabled = True, bi_priority = prio,
      bi_confirmed_at = Some 0, bi_unavailable_at = None, bi_created_at = 0, bi_updated_at = 0\<rparr>"

definition sample_control_db :: control_db where
  "sample_control_db =
     \<lparr>cd_presets = [\<lparr>pp_id = ''custom'', pp_version = 1, pp_definition = JNull\<rparr>], cd_sources = [sample_source],
      cd_accounts = [sample_account_row ''a'', sample_account_row ''b''],
      cd_source_models = [\<lparr>sm_source_id = ''s'', sm_upstream_model_id = ''u'', sm_confirmation_status = CatalogStatus_Confirmed,
        sm_availability_status = CatalogAvailability_Available, sm_raw_snapshot = JNull, sm_metadata = JNull,
        sm_field_sources = JNull, sm_matched_model_preset = None, sm_first_discovered_at = 0, sm_last_discovered_at = 0,
        sm_confirmed_at = Some 0, sm_unavailable_at = None, sm_created_at = 0, sm_updated_at = 0\<rparr>],
      cd_capabilities = [\<lparr>sc_source_id = ''s'', sc_upstream_model_id = ''u'', sc_protocol = OpenAiResponses,
        sc_status = CatalogStatus_Confirmed, sc_mode = SourceProtocolMode_Native, sc_source_protocol = None,
        sc_adapter = None, sc_feature_capabilities = JNull, sc_field_source = MetadataSource_User, sc_observed_at = 0,
        sc_confirmed_at = Some 0, sc_unavailable_at = None, sc_updated_at = 0\<rparr>],
      cd_logical_models = [\<lparr>lm_id = ''l'', lm_public_name = ''m'', lm_display_name = ''M'', lm_status = CatalogStatus_Confirmed,
        lm_metadata = JNull, lm_field_sources = JNull, lm_enabled = True, lm_request_timeout_ms = None,
        lm_max_retries = None, lm_confirmed_at = Some 0, lm_unavailable_at = None, lm_created_at = 0, lm_updated_at = 0\<rparr>],
      cd_bindings = [sample_binding_row 1 ''a'' 0, sample_binding_row 2 ''b'' 5],
      cd_routes = [\<lparr>ro_id = ''r'', ro_logical_model_id = Some ''l'',
        ro_protocols = JArray [JString ''openai_responses''], ro_strategy = ''ordered_fallback'',
        ro_allow_lossy_conversion = False, ro_enabled = True, ro_created_at = 0, ro_updated_at = 0\<rparr>],
      cd_health_events = [], cd_revision = 0, cd_snapshot_updated_at = 0\<rparr>"

definition sample_snapshot :: runtime_snapshot where
  "sample_snapshot =
     projr (build_snapshot adapter_registry (\<lambda>_. []) byte_le sample_control_db ''127.0.0.1:80'' 1 0)"

lemma sample_keys_ok: "keys_ok sample_control_db"
  by code_simp

lemma sample_snapshot_built:
  "build_snapshot adapter_registry (\<lambda>_. []) byte_le sample_control_db ''127.0.0.1:80'' 1 0 = Ok sample_snapshot"
proof -
  have "is_ok (build_snapshot adapter_registry (\<lambda>_. []) byte_le sample_control_db ''127.0.0.1:80'' 1 0)" by code_simp
  then show ?thesis unfolding sample_snapshot_def by (auto simp: is_ok_iff)
qed

definition sample_resolved :: resolved_route where
  "sample_resolved = projr (resolve_detailed adapter_registry (sn_resolver sample_snapshot) OpenAiResponses ''m'')"

lemma sample_resolves:
  "resolve_detailed adapter_registry (sn_resolver sample_snapshot) OpenAiResponses ''m'' = Ok sample_resolved"
  "resolved_lines sample_resolved = [(''b'', ''s''), (''a'', ''s'')]"
proof -
  have "is_ok (resolve_detailed adapter_registry (sn_resolver sample_snapshot) OpenAiResponses ''m'')" by code_simp
  then show "resolve_detailed adapter_registry (sn_resolver sample_snapshot) OpenAiResponses ''m'' = Ok sample_resolved"
    unfolding sample_resolved_def by (auto simp: is_ok_iff)
  show "resolved_lines sample_resolved = [(''b'', ''s''), (''a'', ''s'')]" by code_simp
qed

text \<open>
  A snapshot has no dangling reference. When a snapshot is built, whatever a request resolves
  to on it, the primary account and the account of every fallback binding are in its configuration,
  belong to the source the binding names, which is in the configuration too, and have a positive
  weight.
\<close>

theorem snapshot_never_dangles:
  assumes "build_snapshot reg de le db addr revision t = Ok snap" "keys_ok db"
    and "resolve_detailed reg' (sn_resolver snap) p m = Ok r" "(aid, sid) \<in> set (resolved_lines r)"
  shows "\<exists>a v. account (sn_config snap) aid = Some a \<and> ac_provider_id a = sid \<and>
    provider (sn_config snap) sid = Some v \<and> 0 < sint (ac_weight a)"
proof -
  let ?ys = "published_rows reg de le db"
  note snap = build_snapshot_Ok [OF assms(1)]
  from snapshot_resolves(1) [OF assms(1,3)] obtain route where route: "route \<in> set (collect_routes ?ys)"
    and lines: "resolved_lines r = map (\<lambda>b. (rb_account_id b, rb_source_id b)) (rt_bindings route)"
    by (auto simp: resolved_lines_def)
  from assms(4) obtain y where y: "y \<in> set ?ys" "aid = rb_account_id (binding_of y)" "sid = rb_source_id (binding_of y)"
    unfolding lines collect_routes_bindings [OF route] by auto
  note row = published_row [OF y(1)]
  from y resolve_row_binding [OF row(2)] have ids: "aid = ar_id (sr_account (row_of y))" "sid = so_id (sr_source (row_of y))" by simp_all
  with y(1) have "aid \<in> fst ` set (collect_accounts ?ys)" "sid \<in> fst ` set (collect_providers ?ys)"
    by (auto simp: collect_accounts_spec(2) collect_providers_spec(2))
  then obtain a v where av: "hget (collect_accounts ?ys) aid = Some a" "hget (collect_providers ?ys) sid = Some v"
    by (metis map_of_eq_None_iff not_Some_eq)
  from collect_accounts_spec(3) [OF av(1)] obtain z where z: "z \<in> set ?ys" "ar_id (sr_account (row_of z)) = aid"
    "a\<lparr>ac_model_map := []\<rparr> = snapshot_account (row_of z)" by blast
  from z(3) have a: "ac_provider_id a = so_id (sr_source (row_of z))" "ac_weight a = ar_weight (sr_account (row_of z))"
    by (cases a; simp add: snapshot_account_def account_config.defs)+
  note row' = published_row [OF z(1)]
  have "sr_account (row_of z) = sr_account (row_of y)"
    using assms(2) z(2) ids(1) by (intro key_unique [of ar_id, OF _ join_row(5) [OF row'(1)] join_row(5) [OF row(1)]]) (simp_all add: keys_ok_def)
  then have "ac_provider_id a = sid" using a ids join_row(10) [OF row(1)] join_row(10) [OF row'(1)] by simp
  with av a(2) snap(1,2,5) z(1) show ?thesis by auto
qed

theorem snapshot_never_dangles_witness:
  "\<exists>a. resolve_detailed adapter_registry (sn_resolver sample_snapshot) OpenAiResponses ''m'' = Ok sample_resolved \<and>
     account (sn_config sample_snapshot) ''a'' = Some a \<and> ac_provider_id a = ''s''"
  using snapshot_never_dangles [OF sample_snapshot_built sample_keys_ok sample_resolves(1), of "''a''" "''s''"] sample_resolves
  by auto

text \<open>
  C23: what is published is what can be served. On a built snapshot a model resolves for a protocol
  exactly when the tables have a routable row for them (an enabled route and model, a confirmed
  enabled binding of an available model, whose protocols, endpoint, capabilities and adapter are in
  order), and the published models are exactly those that resolve for some protocol.
\<close>

theorem snapshot_serves_published:
  assumes "build_snapshot reg de le db addr revision t = Ok snap"
  shows "(is_ok (resolve_detailed reg' (sn_resolver snap) p m) \<longleftrightarrow>
      (\<exists>x \<in> set (snapshot_join db). lm_public_name (sr_model x) = m \<and> bi_protocol (sr_binding x) = p \<and> is_ok (resolve_row reg de x))) \<and>
    (m \<in> pb_id ` set (sn_models snap) \<longleftrightarrow> (\<exists>p. is_ok (resolve_detailed reg' (sn_resolver snap) p m)))"
proof -
  let ?ys = "published_rows reg de le db"
  have rows: "x \<in> row_of ` set ?ys \<longleftrightarrow> x \<in> set (snapshot_join db) \<and> is_ok (resolve_row reg de x)" for x
    unfolding published_rows_def accepted_rows_row by (simp add: snapshot_rows_def)
  have served: "is_ok (resolve_detailed reg' (sn_resolver snap) p m) \<longleftrightarrow>
      (\<exists>y \<in> set ?ys. lm_public_name (sr_model (row_of y)) = m \<and> bi_protocol (sr_binding (row_of y)) = p)" for p
  proof -
    have "(\<exists>route \<in> set (collect_routes ?ys). rt_protocol route = p \<and> rt_model route = m) \<longleftrightarrow>
        (\<exists>i. (i, m, p) \<in> route_key ` set (collect_routes ?ys))"
      by (auto simp: route_key_def image_iff) 
    also have "\<dots> \<longleftrightarrow> (\<exists>y \<in> set ?ys. lm_public_name (sr_model (row_of y)) = m \<and> bi_protocol (sr_binding (row_of y)) = p)"
      using collect_routes_keys [of ?ys] by (auto simp: row_key_def image_iff)
    finally show ?thesis using snapshot_resolves(2) [OF assms, of reg' p m] by simp
  qed
  have "m \<in> pb_id ` set (sn_models snap) \<longleftrightarrow> (\<exists>p. is_ok (resolve_detailed reg' (sn_resolver snap) p m))"
    using collect_models_keys [of ?ys] build_snapshot_Ok(4) [OF assms] by (auto simp: served image_iff)
  moreover
  have "(\<exists>y \<in> set ?ys. P (row_of y)) \<longleftrightarrow> (\<exists>x \<in> set (snapshot_join db). P x \<and> is_ok (resolve_row reg de x))" for P
    using rows by (metis (no_types, lifting) image_iff)
  note this [of "\<lambda>x. lm_public_name (sr_model x) = m \<and> bi_protocol (sr_binding x) = p"]
  ultimately show ?thesis unfolding served by simp
qed

theorem snapshot_serves_published_witness:
  "is_ok (resolve_detailed adapter_registry (sn_resolver sample_snapshot) OpenAiResponses ''m'') \<and>
   ''m'' \<in> pb_id ` set (sn_models sample_snapshot)"
  using snapshot_serves_published [OF sample_snapshot_built, of adapter_registry OpenAiResponses "''m''"] sample_resolves(1)
  by (metis is_ok_simps(1))

section \<open>The order of the bindings\<close>

text \<open>The join has no row twice, and a route and a binding determine a row.\<close>

lemma distinct_concat_map:
  assumes "distinct xs" "\<And>x. x \<in> set xs \<Longrightarrow> distinct (f x)" "\<And>x z. x \<in> set xs \<Longrightarrow> z \<in> set (f x) \<Longrightarrow> g z = x"
  shows "distinct (concat (map f xs))"
  using assms
proof (induction xs)
  case (Cons x xs)
  have "set (f x) \<inter> set (concat (map f xs)) = {}"
    using Cons.prems(1,3) by (auto dest: Cons.prems(3) [of x])
  with Cons show ?case by simp
qed simp

lemma distinct_join:
  assumes "keys_ok db"
  shows "distinct (snapshot_join db)"
proof -
  have "distinct (cd_routes db)" "distinct (cd_logical_models db)" "distinct (cd_bindings db)" "distinct (cd_sources db)"
    "distinct (cd_accounts db)" "distinct (cd_source_models db)" "distinct (cd_capabilities db)"
    using assms by (auto simp: keys_ok_def distinct_map)
  then show ?thesis unfolding snapshot_join_def
    by (auto intro!: distinct_concat_map [where g = sr_route] distinct_concat_map [where g = sr_model]
        distinct_concat_map [where g = sr_binding] distinct_concat_map [where g = sr_source]
        distinct_concat_map [where g = sr_account] distinct_concat_map [where g = sr_source_model]
        distinct_concat_map [where g = sr_capability])
qed

lemma join_row_determined:
  assumes "keys_ok db" "x \<in> set (snapshot_rows le db)" "y \<in> set (snapshot_rows le db)"
    and "ro_id (sr_route x) = ro_id (sr_route y)" "bi_id (sr_binding x) = bi_id (sr_binding y)"
  shows "x = y"
proof -
  note xs = join_row [OF assms(2)] and ys = join_row [OF assms(3)]
  note keys = assms(1) [unfolded keys_ok_def]
  have r: "sr_route x = sr_route y" using keys assms(4) by (intro key_unique [of ro_id, OF _ xs(1) ys(1)]) simp_all
  have b: "sr_binding x = sr_binding y" using keys assms(5) by (intro key_unique [of bi_id, OF _ xs(3) ys(3)]) simp_all
  have "sr_model x = sr_model y" using keys r xs(7) ys(7) by (intro key_unique [of lm_id, OF _ xs(2) ys(2)]) simp_all
  moreover have "sr_source x = sr_source y" using keys b xs(9) ys(9) by (intro key_unique [of so_id, OF _ xs(4) ys(4)]) simp_all
  moreover have "sr_account x = sr_account y" using keys b xs(11) ys(11) by (intro key_unique [of ar_id, OF _ xs(5) ys(5)]) simp_all
  moreover have "sr_source_model x = sr_source_model y" using keys b xs(13,14) ys(13,14)
    by (intro key_unique [of source_model_key, OF _ xs(12) ys(12)]) (simp_all add: source_model_key_def)
  moreover have "sr_capability x = sr_capability y" using keys b xs(15) ys(15)
    by (intro key_unique [of capability_key, OF _ xs(6) ys(6)]) simp_all
  ultimately show ?thesis using r b by (intro snapshot_row.equality) simp_all
qed

text \<open>The order in which bindings of one route are to be tried: priority, then native, then age.\<close>

definition tried_before :: "snapshot_row \<Rightarrow> snapshot_row \<Rightarrow> bool" where
  "tried_before x y \<longleftrightarrow>
     (let p = (\<lambda>x. sint (bi_priority (sr_binding x))); n = (\<lambda>x. sc_mode (sr_capability x) = SourceProtocolMode_Native) in
      p y < p x \<or> p x = p y \<and> (n x \<and> \<not> n y \<or> n x = n y \<and> sint (bi_id (sr_binding x)) \<le> sint (bi_id (sr_binding y))))"

lemma snapshot_order: "text_order le \<Longrightarrow> query_order (snapshot_le le)"
proof
  fix x y z
  assume "text_order le"
  then have lin: "query_order le" "\<And>a b. le a b \<Longrightarrow> le b a \<Longrightarrow> a = b"
    by (auto simp: text_order_def text_order_axioms_def)
  show "snapshot_le le x y \<or> snapshot_le le y x"
    using query_order.le_total [OF lin(1)] by (auto simp: snapshot_le_def)
  show "snapshot_le le x z" if "snapshot_le le x y" "snapshot_le le y z"
    using that query_order.le_trans [OF lin(1)] lin(2)
    by (auto simp: snapshot_le_def split: if_splits intro: order_trans)
qed

lemma rank_tried_before:
  "snapshot_rank x \<le> snapshot_rank y \<Longrightarrow> bi_protocol (sr_binding x) = bi_protocol (sr_binding y) \<Longrightarrow> tried_before x y"
  by (auto simp: snapshot_rank_def tried_before_def Let_def split: if_splits)

text \<open>
  The bindings of a route are tried in the order the tables give. On a built snapshot the
  primary binding and the fallback bindings of a resolved model are exactly the routable rows of its
  route and protocol, none left out and none twice, with higher priority first, then native before
  adapted, then older bindings first.
\<close>

theorem snapshot_bindings_ordered:
  assumes "text_order le" "build_snapshot reg de le db addr revision t = Ok snap"
    and "resolve_detailed reg' (sn_resolver snap) p m = Ok r" "keys_ok db"
  shows "distinct (the (rr_binding_id r) # map rb_binding_id (rr_fallback_bindings r)) \<and> (\<exists>xs. sorted_wrt tried_before xs \<and>
    set xs = {x \<in> set (snapshot_join db). ro_id (sr_route x) = rr_route_id r \<and> lm_public_name (sr_model x) = m \<and>
                bi_protocol (sr_binding x) = p \<and> is_ok (resolve_row reg de x)} \<and>
    map (\<lambda>x. bi_id (sr_binding x)) xs = the (rr_binding_id r) # map rb_binding_id (rr_fallback_bindings r))"
proof -
  let ?ys = "published_rows reg de le db"
  from snapshot_resolves(1) [OF assms(2,3)] obtain route where route: "route \<in> set (collect_routes ?ys)"
    and r: "route_key route = (rr_route_id r, m, p)"
      "map rb_binding_id (rt_bindings route) = the (rr_binding_id r) # map rb_binding_id (rr_fallback_bindings r)"
    by (auto simp: route_key_def)
  define ys where "ys = filter (\<lambda>y. row_key (row_of y) = (rr_route_id r, m, p)) ?ys"
  have sub: "map row_of (accepted_rows reg de xs) = filter (\<lambda>x. is_ok (resolve_row reg de x)) xs" for xs
    by (induction xs rule: rev_induct) (auto split: sum.splits)
  have xs: "map row_of ys = filter (\<lambda>x. row_key x = (rr_route_id r, m, p)) (filter (\<lambda>x. is_ok (resolve_row reg de x)) (snapshot_rows le db))"
    unfolding ys_def published_rows_def sub [symmetric] by (simp add: filter_map o_def)
  have "sorted_wrt (snapshot_le le) (snapshot_rows le db)"
    unfolding snapshot_rows_def by (rule query_order.sort_by_sorted [OF snapshot_order [OF assms(1)]])
  then have "sorted_wrt (snapshot_le le) (map row_of ys)" unfolding xs by (intro sorted_wrt_filter)
  then have "sorted_wrt tried_before (map row_of ys)"
    by (rule sorted_wrt_mono_rel [rotated]) (auto simp: xs row_key_def snapshot_le_def intro: rank_tried_before)
  moreover have "map (\<lambda>x. bi_id (sr_binding x)) (map row_of ys) = map rb_binding_id (rt_bindings route)"
    unfolding collect_routes_bindings [OF route] r ys_def
    by (auto dest: published_row(2) simp: resolve_row_binding(1))
  moreover have "set (map row_of ys) = {x \<in> set (snapshot_join db). ro_id (sr_route x) = rr_route_id r \<and>
      lm_public_name (sr_model x) = m \<and> bi_protocol (sr_binding x) = p \<and> is_ok (resolve_row reg de x)}"
    unfolding xs by (auto simp: snapshot_rows_def row_key_def)
  moreover have "distinct (map (\<lambda>x. bi_id (sr_binding x)) (map row_of ys))"
    using distinct_join [OF assms(4)]
    unfolding xs by (auto simp: distinct_map snapshot_rows_def inj_on_def row_key_def
        intro: join_row_determined [OF assms(4), of _ le, unfolded snapshot_rows_def set_sort_by])
  ultimately show ?thesis using r(2) by metis
qed

theorem snapshot_bindings_ordered_witness:
  "\<exists>xs. sorted_wrt tried_before xs \<and> map (\<lambda>x. bi_id (sr_binding x)) xs = [2, 1] \<and>
     the (rr_binding_id sample_resolved) # map rb_binding_id (rr_fallback_bindings sample_resolved) = [2, 1]"
proof -
  have "the (rr_binding_id sample_resolved) # map rb_binding_id (rr_fallback_bindings sample_resolved) = [2, 1]" by code_simp
  with snapshot_bindings_ordered [OF bytes.text_order_axioms sample_snapshot_built sample_resolves(1) sample_keys_ok]
  show ?thesis by auto
qed

end
