(* ===== verification/Control_Validation.thy ===== *)
theory Control_Validation
  imports Control_Snapshot Source_Url
begin

text \<open>
  \<open>src/control_plane/validation.rs\<close> and the input types of \<open>src/control_plane/types.rs\<close>: what the
  control plane checks before a write and, on the whole database, before a snapshot is published.

  \<open>control_env\<close> holds what comes from outside: the adapter registry of the build, the text of JSON
  errors, the database's text order, the URL parser and the policy, and which row a query with
  \<open>LIMIT 1\<close> and no \<open>ORDER BY\<close> returns.
\<close>

record control_env =
  ce_reg :: adapter_registry
  ce_de :: "json \<Rightarrow> string"
  ce_le :: "string \<Rightarrow> string \<Rightarrow> bool"
  ce_parse_url :: url_parser
  ce_policy :: source_url_policy
  ce_pick :: "string list \<Rightarrow> string"
  ce_constraint :: string

section \<open>Inputs\<close>

record source_write =
  sw_id :: string
  sw_display_name :: string
  sw_provider_preset_id :: string
  sw_provider_preset_version :: i32
  sw_base_url :: string
  sw_endpoints :: "(protocol, string) hmap"
  sw_auth_config :: json
  sw_protocol_capabilities :: json
  sw_enabled :: bool

record account_write =
  aw_id :: string
  aw_source_id :: string
  aw_display_name :: string
  aw_credential_env :: "string option"
  aw_credential_ciphertext :: "string option"
  aw_enabled :: bool
  aw_weight :: i32

record logical_model_write =
  lw_id :: string
  lw_public_name :: string
  lw_display_name :: string
  lw_status :: catalog_status
  lw_metadata :: json
  lw_field_sources :: json
  lw_enabled :: bool

record binding_write =
  bw_logical_model_id :: string
  bw_source_id :: string
  bw_account_id :: string
  bw_upstream_model_id :: string
  bw_protocol :: protocol
  bw_status :: catalog_status
  bw_enabled :: bool
  bw_priority :: i32

record route_write =
  rw_id :: string
  rw_logical_model_id :: string
  rw_protocols :: "protocol list"
  rw_strategy :: string
  rw_allow_lossy_conversion :: bool
  rw_enabled :: bool

section \<open>Shapes\<close>

definition validate_resource_id :: "string \<Rightarrow> string \<Rightarrow> string \<Rightarrow> (unit, control_plane_error) result" where
  "validate_resource_id path body kind =
     (if path \<noteq> body then Err (CpValidation [kind @ '' id in path and body must match'']) else Ok ())"

definition validate_nonempty :: "string \<Rightarrow> string \<Rightarrow> string list" where
  "validate_nonempty value field = (if trim value = [] then [field @ '' must not be empty''] else [])"

definition normalize_object :: "json \<Rightarrow> string \<Rightarrow> (json, control_plane_error) result" where
  "normalize_object value field =
     (if json_is_null value then Ok (JObject [])
      else if json_as_object value = None then Err (CpValidation [field @ '' must be a JSON object''])
      else Ok value)"

definition error_if :: "bool \<Rightarrow> string \<Rightarrow> string list" where
  "error_if c message = (if c then [message] else [])"

lemma error_if_Nil [simp]: "error_if c message = [] \<longleftrightarrow> \<not> c"
  by (simp add: error_if_def)

definition not_object :: "json \<Rightarrow> bool" where
  "not_object v \<longleftrightarrow> \<not> json_is_null v \<and> json_as_object v = None"

definition source_url_validation_message :: "string \<Rightarrow> source_url_policy_error \<Rightarrow> string" where
  "source_url_validation_message field e =
     (if e = InvalidUrl then field @ '' must be an http(s) URL without credentials, query, or fragment''
      else field @ '' is blocked by the server Source URL policy'')"

text \<open>The untagged reader of \<open>ProtocolCapability\<close>: a mode, or an object with one.\<close>

definition protocol_mode_of_name :: "string \<Rightarrow> protocol_mode option" where
  "protocol_mode_of_name s =
     (if s = ''native'' then Some ProtocolMode_Native else if s = ''adapter'' then Some ProtocolMode_Adapter
      else if s = ''unsupported'' then Some ProtocolMode_Unsupported else None)"

fun decode_protocol_mode :: "json \<Rightarrow> protocol_mode option" where
  "decode_protocol_mode (JString s) = protocol_mode_of_name s"
| "decode_protocol_mode (JObject [(s, JNull)]) = protocol_mode_of_name s"
| "decode_protocol_mode _ = None"

text \<open>An optional field with a default: missing and \<open>null\<close> both give \<open>None\<close>.\<close>

definition decode_optional :: "(json \<Rightarrow> 'a option) \<Rightarrow> json option \<Rightarrow> 'a option option" where
  "decode_optional f v =
     (case v of None \<Rightarrow> Some None | Some j \<Rightarrow> if json_is_null j then Some None else map_option Some (f j))"

definition decode_protocol_capability :: "json \<Rightarrow> protocol_capability option" where
  "decode_protocol_capability v =
     (case decode_protocol_mode v of
        Some m \<Rightarrow> Some \<lparr>pc_mode = m, pc_source_protocol = None, pc_adapter = None\<rparr>
      | None \<Rightarrow>
          Option.bind (json_as_object v) (\<lambda>object.
          Option.bind (Option.bind (map_of object ''mode'') decode_protocol_mode) (\<lambda>m.
          Option.bind (decode_optional decode_protocol (map_of object ''source_protocol'')) (\<lambda>source.
          Option.bind (decode_optional json_as_str (map_of object ''adapter'')) (\<lambda>adapter.
            Some \<lparr>pc_mode = m, pc_source_protocol = source, pc_adapter = adapter\<rparr>)))))"

definition decode_matrix :: "json \<Rightarrow> capability_matrix option" where
  "decode_matrix v = Option.bind (json_as_object v) (\<lambda>entries.
     map_option (foldl (\<lambda>m (p, c). hinsert p c m) [])
       (those (map (\<lambda>(k, c). Option.bind (protocol_of_name k) (\<lambda>p. map_option (Pair p) (decode_protocol_capability c))) entries)))"

text \<open>The texts of a validation; it never reaches its panics (\<open>validate_never_panics\<close>).\<close>

fun validation_text :: "validation_error \<Rightarrow> string" where
  "validation_text (VErr s) = s"
| "validation_text VPanic = []"

definition source_candidate :: "source_write \<Rightarrow> capability_matrix \<Rightarrow> gateway_config" where
  "source_candidate i matrix =
     \<lparr>gc_listen_addr = ''127.0.0.1:0'',
      gc_providers = [\<lparr>pv_id = sw_id i, pv_name = sw_display_name i, pv_base_url = sw_base_url i, pv_models = [],
        pv_native_protocols = [], pv_endpoints = sw_endpoints i, pv_capabilities = capabilities_default,
        pv_protocol_capabilities = matrix, pv_model_overrides = []\<rparr>],
      gc_accounts = [], gc_routes = []\<rparr>"

definition validate_source_input :: "control_env \<Rightarrow> source_write \<Rightarrow> (unit, control_plane_error) result" where
  "validate_source_input env i =
     (let matrix = decode_matrix (sw_protocol_capabilities i) in
      validation_result
       (validate_nonempty (sw_id i) ''source.id'' @
        validate_nonempty (sw_display_name i) ''source.display_name'' @
        validate_nonempty (sw_provider_preset_id i) ''source.provider_preset_id'' @
        error_if (sint (sw_provider_preset_version i) \<le> 0) ''source.provider_preset_version must be positive'' @
        (case validate_base_url (ce_parse_url env) (ce_policy env) (sw_base_url i) of
           Err e \<Rightarrow> [source_url_validation_message ''source.base_url'' e] | Ok _ \<Rightarrow> []) @
        error_if (not_object (sw_auth_config i)) ''source.auth_config must be a JSON object'' @
        error_if (not_object (sw_protocol_capabilities i)) ''source.protocol_capabilities must be a JSON object'' @
        concat (map (\<lambda>(p, e). error_if (trim e = []) (''source.endpoints.'' @ protocol_to_string p @ '' must not be empty'')) (sw_endpoints i)) @
        error_if (matrix = None) (''source.protocol_capabilities is invalid: '' @ ce_de env (sw_protocol_capabilities i)) @
        (case validate (ce_reg env) (source_candidate i (unwrap_or [] matrix)) of
           Err errors \<Rightarrow> map validation_text errors | Ok _ \<Rightarrow> [])))"

definition validate_persisted_source_urls :: "control_env \<Rightarrow> control_db \<Rightarrow> (unit, control_plane_error) result" where
  "validate_persisted_source_urls env db =
     validation_result (concat (map (\<lambda>s.
       case validate_base_url (ce_parse_url env) (ce_policy env) (so_base_url s) of
         Err e \<Rightarrow> [source_url_validation_message (''source '' @ quoted (so_id s) @ '' base_url'') e]
       | Ok _ \<Rightarrow> []) (sort_by (\<lambda>x y. ce_le env (so_id x) (so_id y)) (cd_sources db))))"

definition is_set :: "string option \<Rightarrow> bool" where
  "is_set v = (case v of Some s \<Rightarrow> trim s \<noteq> [] | None \<Rightarrow> False)"

definition validate_account_input :: "account_write \<Rightarrow> (unit, control_plane_error) result" where
  "validate_account_input i =
     validation_result
      (validate_nonempty (aw_id i) ''account.id'' @
       validate_nonempty (aw_source_id i) ''account.source_id'' @
       validate_nonempty (aw_display_name i) ''account.display_name'' @
       error_if (sint (aw_weight i) \<le> 0) ''account.weight must be positive'' @
       error_if (is_set (aw_credential_env i) = is_set (aw_credential_ciphertext i))
         ''account must set exactly one of credential_env or credential_ciphertext'')"

definition validate_logical_model_input :: "logical_model_write \<Rightarrow> (unit, control_plane_error) result" where
  "validate_logical_model_input i =
     validation_result
      (validate_nonempty (lw_id i) ''logical_model.id'' @
       validate_nonempty (lw_public_name i) ''logical_model.public_name'' @
       validate_nonempty (lw_display_name i) ''logical_model.display_name'' @
       error_if (not_object (lw_metadata i)) ''logical_model.metadata must be a JSON object'' @
       error_if (not_object (lw_field_sources i)) ''logical_model.field_sources must be a JSON object'')"

definition validate_binding_input_shape :: "binding_write \<Rightarrow> (unit, control_plane_error) result" where
  "validate_binding_input_shape i =
     validation_result
      (validate_nonempty (bw_logical_model_id i) ''model_binding.logical_model_id'' @
       validate_nonempty (bw_source_id i) ''model_binding.source_id'' @
       validate_nonempty (bw_account_id i) ''model_binding.account_id'' @
       validate_nonempty (bw_upstream_model_id i) ''model_binding.upstream_model_id'')"

definition validate_route_input_shape :: "route_write \<Rightarrow> (unit, control_plane_error) result" where
  "validate_route_input_shape i =
     validation_result
      (validate_nonempty (rw_id i) ''route.id'' @
       validate_nonempty (rw_logical_model_id i) ''route.logical_model_id'' @
       validate_nonempty (rw_strategy i) ''route.strategy'' @
       error_if (rw_protocols i = []) ''route.protocols must contain at least one protocol'' @
       error_if (length (remdups_adj (sort_key protocol_to_string (rw_protocols i))) \<noteq> length (rw_protocols i))
         ''route.protocols must not contain duplicates'')"

fun catalog_status_debug :: "catalog_status \<Rightarrow> string" where
  "catalog_status_debug CatalogStatus_Pending = ''Pending''"
| "catalog_status_debug CatalogStatus_Confirmed = ''Confirmed''"
| "catalog_status_debug CatalogStatus_Unavailable = ''Unavailable''"

definition validate_status_transition ::
  "catalog_status \<Rightarrow> catalog_status \<Rightarrow> string \<Rightarrow> (unit, control_plane_error) result" where
  "validate_status_transition current next_status kind =
     (if \<not> can_transition_to current next_status
      then Err (CpValidation [kind @ '' status cannot transition from '' @ catalog_status_debug current @ '' to '' @
             catalog_status_debug next_status @ ''; move unavailable records to pending before reconfirming''])
      else Ok ())"

section \<open>References\<close>

text \<open>\<open>LIMIT 1\<close> with no order.\<close>

definition limit_one :: "control_env \<Rightarrow> string list \<Rightarrow> string option" where
  "limit_one env xs = (if xs = [] then None else Some (ce_pick env xs))"

definition live_binding :: "binding_row \<Rightarrow> bool" where
  "live_binding b \<longleftrightarrow> bi_status b = CatalogStatus_Confirmed \<and> bi_enabled b"

definition other_families :: "control_db \<Rightarrow> binding_write \<Rightarrow> string list" where
  "other_families db i =
     remdups [so_provider_preset_id s. b \<leftarrow> cd_bindings db,
        bi_logical_model_id b = bw_logical_model_id i \<and> live_binding b \<and> bi_source_id b \<noteq> bw_source_id i,
        s \<leftarrow> cd_sources db, so_id s = bi_source_id b]"

definition validate_binding_family_constraint ::
  "control_env \<Rightarrow> control_db \<Rightarrow> binding_write \<Rightarrow> (unit, control_plane_error) result" where
  "validate_binding_family_constraint env db i =
     (case limit_one env (other_families db i) of
        None \<Rightarrow> Ok ()
      | Some existing \<Rightarrow>
          (case List.find (\<lambda>s. so_id s = bw_source_id i) (cd_sources db) of
             None \<Rightarrow> Ok ()
           | Some s \<Rightarrow>
               if so_provider_preset_id s \<noteq> existing
               then Err (CpValidation [''cross-family binding rejected: logical model '' @ quoted (bw_logical_model_id i) @
                      '' already has enabled bindings from provider family '' @ quoted existing @
                      ''; cannot add binding from family '' @ quoted (so_provider_preset_id s)])
               else Ok ()))"

record binding_validation_row =
  bv_model :: logical_model_row
  bv_source :: source_row
  bv_account :: account_row
  bv_source_model :: source_model_row
  bv_capability :: capability_row

definition binding_validation_rows :: "control_db \<Rightarrow> binding_write \<Rightarrow> binding_validation_row list" where
  "binding_validation_rows db i =
     [\<lparr>bv_model = lm, bv_source = s, bv_account = a, bv_source_model = sm, bv_capability = c\<rparr>.
        lm \<leftarrow> cd_logical_models db, lm_id lm = bw_logical_model_id i,
        s \<leftarrow> cd_sources db, so_id s = bw_source_id i,
        a \<leftarrow> cd_accounts db, ar_id a = bw_account_id i,
        sm \<leftarrow> cd_source_models db, sm_source_id sm = so_id s \<and> sm_upstream_model_id sm = bw_upstream_model_id i,
        c \<leftarrow> cd_capabilities db, capability_key c = (so_id s, sm_upstream_model_id sm, bw_protocol i)]"

definition validate_binding_reference ::
  "control_env \<Rightarrow> control_db \<Rightarrow> binding_write \<Rightarrow> (unit, control_plane_error) result" where
  "validate_binding_reference env db i =
     (case binding_validation_rows db i of
        [] \<Rightarrow> Err (CpValidation [''model binding references a missing LogicalModel, Source, Account, SourceModel, or SourceModelCapability''])
      | row # _ \<Rightarrow>
          if ar_source_id (bv_account row) \<noteq> bw_source_id i
          then Err (CpValidation [''account '' @ quoted (bw_account_id i) @ '' does not belong to source '' @ quoted (bw_source_id i)])
          else if bw_status i = CatalogStatus_Confirmed \<and> bw_enabled i then
            and_then (validation_result
              (error_if (lm_status (bv_model row) \<noteq> CatalogStatus_Confirmed \<or> \<not> lm_enabled (bv_model row))
                 ''confirmed enabled binding requires a confirmed enabled LogicalModel'' @
               error_if (\<not> so_enabled (bv_source row)) ''confirmed enabled binding requires an enabled Source'' @
               error_if (\<not> ar_enabled (bv_account row)) ''confirmed enabled binding requires an enabled Account'' @
               error_if (sm_confirmation_status (bv_source_model row) \<noteq> CatalogStatus_Confirmed \<or>
                     sm_availability_status (bv_source_model row) \<noteq> CatalogAvailability_Available)
                 ''confirmed enabled binding requires a confirmed available SourceModel'' @
               error_if (sc_status (bv_capability row) \<noteq> CatalogStatus_Confirmed \<or> \<not> is_routable (sc_mode (bv_capability row)))
                 ''confirmed enabled binding requires a confirmed native or adapter capability''))
             (\<lambda>_. validate_binding_family_constraint env db i)
          else Ok ())"

text \<open>The \<open>?\<close> operator of \<open>jsonb\<close>: an array element, an object key, or the string itself.\<close>

fun jsonb_exists :: "json \<Rightarrow> string \<Rightarrow> bool" where
  "jsonb_exists (JArray xs) s = (JString s \<in> set xs)"
| "jsonb_exists (JObject kvs) s = (s \<in> fst ` set kvs)"
| "jsonb_exists (JString t) s = (s = t)"
| "jsonb_exists _ s = False"

definition route_conflicts :: "control_db \<Rightarrow> route_write \<Rightarrow> protocol \<Rightarrow> string list" where
  "route_conflicts db i p =
     map ro_id (filter (\<lambda>r. ro_logical_model_id r = Some (rw_logical_model_id i) \<and> ro_id r \<noteq> rw_id i \<and> ro_enabled r \<and>
                          jsonb_exists (ro_protocols r) (protocol_to_string p)) (cd_routes db))"

definition has_routable_binding :: "control_db \<Rightarrow> string \<Rightarrow> protocol \<Rightarrow> bool" where
  "has_routable_binding db model p \<longleftrightarrow>
     (\<exists>b \<in> set (cd_bindings db). bi_logical_model_id b = model \<and> bi_protocol b = p \<and> bi_status b = CatalogStatus_Confirmed \<and>
       (\<exists>sm \<in> set (cd_source_models db). sm_source_id sm = bi_source_id b \<and> sm_upstream_model_id sm = bi_upstream_model_id b \<and>
          sm_confirmation_status sm = CatalogStatus_Confirmed \<and> sm_availability_status sm = CatalogAvailability_Available) \<and>
       (\<exists>c \<in> set (cd_capabilities db). capability_key c = (bi_source_id b, bi_upstream_model_id b, bi_protocol b) \<and>
          sc_status c = CatalogStatus_Confirmed \<and> is_routable (sc_mode c)))"

definition validate_route_reference ::
  "control_env \<Rightarrow> control_db \<Rightarrow> route_write \<Rightarrow> (unit, control_plane_error) result" where
  "validate_route_reference env db i =
     (if rw_logical_model_id i \<notin> lm_id ` set (cd_logical_models db)
      then Err (CpNotFound (''logical model '' @ quoted (rw_logical_model_id i) @ '' not found''))
      else validation_result (concat (map (\<lambda>p.
        (if rw_enabled i then
           (case limit_one env (route_conflicts db i p) of
              Some conflict \<Rightarrow> [''route protocol '' @ protocol_to_string p @ '' conflicts with enabled route '' @ quoted conflict]
            | None \<Rightarrow> [])
         else []) @
        error_if (\<not> has_routable_binding db (rw_logical_model_id i) p)
          (''route protocol '' @ protocol_to_string p @ '' has no confirmed, available model binding'')) (rw_protocols i))))"

section \<open>Capability chains\<close>

definition capability_label :: "capability_row \<Rightarrow> string" where
  "capability_label c = sc_source_id c @ ''/'' @ sc_upstream_model_id c @ ''/'' @ protocol_to_string (sc_protocol c)"

text \<open>The rows of one model come in protocol order; models in the text order of source and name.\<close>

definition capability_le :: "(string \<Rightarrow> string \<Rightarrow> bool) \<Rightarrow> capability_row \<times> source_row \<Rightarrow> capability_row \<times> source_row \<Rightarrow> bool" where
  "capability_le le x y =
     (let c = fst x; d = fst y in
      if sc_source_id c \<noteq> sc_source_id d then le (sc_source_id c) (sc_source_id d)
      else if sc_upstream_model_id c \<noteq> sc_upstream_model_id d then le (sc_upstream_model_id c) (sc_upstream_model_id d)
      else sc_protocol c \<le> sc_protocol d)"

definition chain_rows :: "control_env \<Rightarrow> control_db \<Rightarrow> (capability_row \<times> source_row) list" where
  "chain_rows env db =
     sort_by (capability_le (ce_le env))
       [(c, s). c \<leftarrow> cd_capabilities db, sc_status c = CatalogStatus_Confirmed \<and> is_routable (sc_mode c),
                s \<leftarrow> cd_sources db, so_id s = sc_source_id c]"

definition endpoint_error :: "source_row \<Rightarrow> (protocol, string) hmap \<Rightarrow> protocol \<Rightarrow> string list" where
  "endpoint_error s endpoints upstream =
     error_if (\<not> has_endpoint endpoints upstream)
       (''source '' @ quoted (so_id s) @ '' has no endpoint for upstream protocol '' @ protocol_to_string upstream)"

definition chain_errors :: "control_env \<Rightarrow> control_db \<Rightarrow> capability_row \<times> source_row \<Rightarrow> string list" where
  "chain_errors env db = (\<lambda>(c, s).
     case decode_endpoints (so_endpoints s) of
       None \<Rightarrow> [''source '' @ quoted (so_id s) @ ''.endpoints is invalid: '' @ ce_de env (so_endpoints s)]
     | Some endpoints \<Rightarrow>
         (case sc_mode c of
            SourceProtocolMode_Native \<Rightarrow> endpoint_error s endpoints (sc_protocol c)
          | SourceProtocolMode_Adapter \<Rightarrow>
              (case sc_source_protocol c of
                 None \<Rightarrow> [''capability '' @ capability_label c @ '' requires source_protocol'']
               | Some source \<Rightarrow>
                   (case sc_adapter c of
                      None \<Rightarrow> [''capability '' @ capability_label c @ '' requires adapter'']
                    | Some name \<Rightarrow>
                        (case adapter_definition (ce_reg env) name of
                           Some d \<Rightarrow>
                             error_if (\<not> (ad_from_protocol d = sc_protocol c \<and> ad_to_protocol d = source))
                               (''adapter '' @ quoted name @ '' implements '' @ protocol_to_string (ad_from_protocol d) @ '' -> '' @
                                protocol_to_string (ad_to_protocol d) @ '', not '' @ protocol_to_string (sc_protocol c) @ '' -> '' @
                                protocol_to_string source)
                         | None \<Rightarrow> [''unknown adapter '' @ quoted name]) @
                        error_if (\<not> (\<exists>n \<in> set (cd_capabilities db).
                                 capability_key n = (sc_source_id c, sc_upstream_model_id c, source) \<and>
                                 sc_status n = CatalogStatus_Confirmed \<and> sc_mode n = SourceProtocolMode_Native))
                          (''adapter capability '' @ capability_label c @ '' requires confirmed native source protocol '' @
                           protocol_to_string source) @
                        endpoint_error s endpoints source))
          | _ \<Rightarrow> []))"

definition validate_capability_chains :: "control_env \<Rightarrow> control_db \<Rightarrow> (unit, control_plane_error) result" where
  "validate_capability_chains env db = validation_result (concat (map (chain_errors env db) (chain_rows env db)))"

definition validate_custom_preset_not_shadowing_builtin ::
  "control_db \<Rightarrow> string \<Rightarrow> string \<Rightarrow> (unit, control_plane_error) result" where
  "validate_custom_preset_not_shadowing_builtin db source_id provider_preset_id =
     (if provider_preset_id \<noteq> ''custom'' then Ok ()
      else if \<exists>p \<in> set (cd_presets db). pp_id p = source_id \<and> pp_id p \<noteq> ''custom''
      then Err (CpValidation [''source '' @ quoted source_id @ '' matches a built-in provider preset; use provider_preset_id '' @
             quoted source_id @ '' instead of '' @ quoted ''custom''])
      else Ok ())"

end
