(* ===== verification/Control_Service.thy ===== *)
theory Control_Service
  imports Control_Validation
begin

text \<open>
  \<open>src/control_plane/service.rs\<close> and \<open>src/control_plane/repository.rs\<close>: how a write of the control
  plane becomes a committed database state and a published snapshot.

  A write runs in one serializable transaction, so it is a function of the state it starts from. A
  statement that breaks a constraint of the schema fails with the error the driver reports for it
  (\<open>constrained\<close>); a rejected candidate is rolled back; the commit itself may fail before or after
  it takes effect (\<^typ>\<open>db_fault\<close>). System events and log lines are not modelled.
\<close>

section \<open>Statements\<close>

definition unique_violation :: "control_env \<Rightarrow> control_plane_error" where
  "unique_violation env = control_error_of_sqlx (SqlxDatabase (Some ''23505'') (ce_constraint env))"

definition foreign_key_violation :: "control_env \<Rightarrow> control_plane_error" where
  "foreign_key_violation env = control_error_of_sqlx (SqlxDatabase (Some ''23503'') (ce_constraint env))"

definition check_violation :: "control_env \<Rightarrow> control_plane_error" where
  "check_violation env = control_error_of_sqlx (SqlxDatabase (Some ''23514'') (ce_constraint env))"

definition constrained :: "control_env \<Rightarrow> control_db \<Rightarrow> (control_db, control_plane_error) result" where
  "constrained env db =
     (if \<not> keys_ok db then Err (unique_violation env)
      else if \<not> references_ok db then Err (foreign_key_violation env) else Ok db)"

lemma constrained_Ok: "constrained env db = Ok db' \<longleftrightarrow> db' = db \<and> schema_ok db"
  by (auto simp: constrained_def schema_ok_def)

text \<open>The trigger \<open>validate_confirmed_model_binding\<close>, which runs on every binding written.\<close>

definition binding_trigger :: "control_db \<Rightarrow> binding_row \<Rightarrow> bool" where
  "binding_trigger db b \<longleftrightarrow>
     (live_binding b \<longrightarrow>
       (\<exists>lm \<in> set (cd_logical_models db). lm_id lm = bi_logical_model_id b \<and> lm_status lm = CatalogStatus_Confirmed \<and> lm_enabled lm) \<and>
       (\<exists>s \<in> set (cd_sources db). so_id s = bi_source_id b \<and> so_enabled s) \<and>
       (\<exists>a \<in> set (cd_accounts db). ar_id a = bi_account_id b \<and> ar_source_id a = bi_source_id b \<and> ar_enabled a) \<and>
       (\<exists>sm \<in> set (cd_source_models db). sm_source_id sm = bi_source_id b \<and> sm_upstream_model_id sm = bi_upstream_model_id b \<and>
          sm_confirmation_status sm = CatalogStatus_Confirmed \<and> sm_availability_status sm = CatalogAvailability_Available) \<and>
       (\<exists>c \<in> set (cd_capabilities db). capability_key c = (bi_source_id b, bi_upstream_model_id b, bi_protocol b) \<and>
          sc_status c = CatalogStatus_Confirmed \<and> is_routable (sc_mode c)))"

definition triggered :: "control_env \<Rightarrow> control_db \<Rightarrow> binding_row \<Rightarrow> (unit, control_plane_error) result" where
  "triggered env db b = ensure (binding_trigger db b) (check_violation env)"

definition find_or :: "control_plane_error \<Rightarrow> ('a \<Rightarrow> bool) \<Rightarrow> 'a list \<Rightarrow> ('a, control_plane_error) result" where
  "find_or e P xs = ok_or e (List.find P xs)"

definition ensure_source_exists :: "control_db \<Rightarrow> string \<Rightarrow> (unit, control_plane_error) result" where
  "ensure_source_exists db sid =
     ensure (sid \<in> so_id ` set (cd_sources db)) (CpNotFound (''source '' @ quoted sid @ '' not found''))"

section \<open>Manual health transitions\<close>

definition manual_health :: "bool \<Rightarrow> date_time \<Rightarrow> account_row \<Rightarrow> account_row" where
  "manual_health enabled observed_at a =
     a\<lparr>ar_health_status := (if enabled then ''unknown'' else ''disabled''), ar_cooldown_until := None,
       ar_consecutive_failures := 0, ar_failure_window_started_at := None, ar_last_error := None,
       ar_last_success_at := None, ar_health_source := ''manual'', ar_health_updated_at := Some observed_at,
       ar_last_probe_error := None\<rparr>"

definition manual_event :: "bool \<Rightarrow> date_time \<Rightarrow> account_row \<Rightarrow> account_health_event" where
  "manual_event enabled observed_at a =
     \<lparr>he_account_id = ar_id a, he_status = (if enabled then ''unknown'' else ''disabled''), he_source = ''manual'',
      he_observed_at = observed_at, he_cooldown_until = None, he_consecutive_failures = 0, he_error_code = None,
      he_error_message = None, he_connection_test_id = None, he_latency_ms = None\<rparr>"

definition manual_transition :: "(account_row \<Rightarrow> bool) \<Rightarrow> bool \<Rightarrow> date_time \<Rightarrow> control_db \<Rightarrow> control_db" where
  "manual_transition P enabled observed_at db =
     db\<lparr>cd_accounts := update_rows P (manual_health enabled observed_at) (cd_accounts db),
        cd_health_events := cd_health_events db @ map (manual_event enabled observed_at) (filter P (cd_accounts db))\<rparr>"

definition apply_manual_health_transition :: "string \<Rightarrow> bool \<Rightarrow> date_time \<Rightarrow> control_db \<Rightarrow> control_db" where
  "apply_manual_health_transition aid = manual_transition (\<lambda>a. ar_id a = aid)"

definition apply_manual_health_transition_for_source :: "string \<Rightarrow> bool \<Rightarrow> date_time \<Rightarrow> control_db \<Rightarrow> control_db" where
  "apply_manual_health_transition_for_source sid = manual_transition (\<lambda>a. ar_source_id a = sid)"

section \<open>Publishing\<close>

definition snapshot_of ::
  "control_env \<Rightarrow> string \<Rightarrow> control_db \<Rightarrow> (runtime_snapshot, control_plane_error) result" where
  "snapshot_of env listen_addr db =
     build_snapshot (ce_reg env) (ce_de env) (ce_le env) db listen_addr (cd_revision db) (cd_snapshot_updated_at db)"

definition load_snapshot_in_transaction ::
  "control_env \<Rightarrow> string \<Rightarrow> control_db \<Rightarrow> (runtime_snapshot, control_plane_error) result" where
  "load_snapshot_in_transaction env listen_addr db =
     and_then (validate_persisted_source_urls env db) (\<lambda>_.
     and_then (validate_capability_chains env db) (\<lambda>_. snapshot_of env listen_addr db))"

text \<open>The revision is a \<open>BIGINT\<close>: incrementing it past its range is a database error.\<close>

definition next_revision :: "date_time \<Rightarrow> control_db \<Rightarrow> (control_db, control_plane_error) result" where
  "next_revision clock db =
     (if i64_max \<le> cd_revision db
      then Err (control_error_of_sqlx (SqlxDatabase (Some ''22003'') ''bigint out of range''))
      else Ok (db\<lparr>cd_revision := cd_revision db + 1, cd_snapshot_updated_at := clock\<rparr>))"

definition finish_candidate ::
  "control_env \<Rightarrow> string \<Rightarrow> date_time \<Rightarrow> control_db \<Rightarrow> (control_db \<times> runtime_snapshot, control_plane_error) result" where
  "finish_candidate env listen_addr clock tx =
     and_then (validate_persisted_source_urls env tx) (\<lambda>_.
     and_then (validate_capability_chains env tx) (\<lambda>_.
     and_then (next_revision clock tx) (\<lambda>tx.
     and_then (snapshot_of env listen_addr tx) (\<lambda>snapshot. Ok (tx, snapshot)))))"

definition commit_error :: control_plane_error where
  "commit_error = control_error_of_sqlx (SqlxOther ''commit'')"

definition finish_write ::
  "control_env \<Rightarrow> string \<Rightarrow> db_fault \<Rightarrow> date_time \<Rightarrow> control_db \<Rightarrow> control_db
   \<Rightarrow> control_db \<times> (runtime_snapshot, control_plane_error) result" where
  "finish_write env listen_addr fault clock db tx =
     (case finish_candidate env listen_addr clock tx of
        Err e \<Rightarrow> (db, Err e)
      | Ok (tx, snapshot) \<Rightarrow>
          (case fault of
             NoFault \<Rightarrow> (tx, Ok snapshot)
           | FaultBeforeCommit \<Rightarrow> (db, Err commit_error)
           | FaultAfterCommit \<Rightarrow> (tx, Err commit_error)))"

text \<open>A transaction: its body, then publication; an error of the body rolls it back.\<close>

definition write_transaction ::
  "control_env \<Rightarrow> string \<Rightarrow> db_fault \<Rightarrow> date_time \<Rightarrow> (control_db \<Rightarrow> (control_db \<times> 'r, control_plane_error) result)
   \<Rightarrow> control_db \<Rightarrow> control_db \<times> ('r \<times> runtime_snapshot, control_plane_error) result" where
  "write_transaction env listen_addr fault clock body db =
     (case body db of
        Err e \<Rightarrow> (db, Err e)
      | Ok (tx, record) \<Rightarrow>
          (case finish_write env listen_addr fault clock db tx of
             (db', Ok snapshot) \<Rightarrow> (db', Ok (record, snapshot))
           | (db', Err e) \<Rightarrow> (db', Err e)))"

section \<open>What a write leaves behind\<close>

definition publishable :: "control_env \<Rightarrow> string \<Rightarrow> control_db \<Rightarrow> bool" where
  "publishable env listen_addr db = is_ok (load_snapshot_in_transaction env listen_addr db)"

lemma chain_errors_cong:
  "cd_capabilities db = cd_capabilities db' \<Longrightarrow> chain_errors env db x = chain_errors env db' x"
  by (cases x) (simp add: chain_errors_def cong: option.case_cong source_protocol_mode.case_cong)

lemma validations_cong:
  assumes "cd_sources db = cd_sources db'" "cd_capabilities db = cd_capabilities db'"
  shows "validate_persisted_source_urls env db = validate_persisted_source_urls env db'"
    "validate_capability_chains env db = validate_capability_chains env db'"
proof -
  show "validate_persisted_source_urls env db = validate_persisted_source_urls env db'"
    by (simp only: validate_persisted_source_urls_def assms)
  have "map (chain_errors env db) xs = map (chain_errors env db') xs" for xs
    using chain_errors_cong [OF assms(2)] by simp
  then show "validate_capability_chains env db = validate_capability_chains env db'"
    by (simp only: validate_capability_chains_def chain_rows_def assms)
qed

lemma validations_revision [simp]:
  "validate_persisted_source_urls env (db\<lparr>cd_revision := r, cd_snapshot_updated_at := t\<rparr>) = validate_persisted_source_urls env db"
  "validate_capability_chains env (db\<lparr>cd_revision := r, cd_snapshot_updated_at := t\<rparr>) = validate_capability_chains env db"
  by (rule validations_cong; simp)+

lemma finish_candidate_Ok:
  assumes "finish_candidate env listen_addr clock tx = Ok (tx', snapshot)"
  shows "tx' = tx\<lparr>cd_revision := cd_revision tx + 1, cd_snapshot_updated_at := clock\<rparr>"
    and "snapshot_of env listen_addr tx' = Ok snapshot" and "load_snapshot_in_transaction env listen_addr tx' = Ok snapshot"
  using assms
  by (auto simp: finish_candidate_def load_snapshot_in_transaction_def next_revision_def and_then_Ok split: if_splits)

text \<open>A write either leaves the database as it was, or leaves the body's state with a new revision.\<close>

lemma write_transaction_cases:
  assumes "write_transaction env listen_addr fault clock body db = (db', res)"
  obtains (unchanged) "db' = db" "\<not> is_ok res"
    | (committed) tx r snapshot where "body db = Ok (tx, r)"
        "db' = tx\<lparr>cd_revision := cd_revision tx + 1, cd_snapshot_updated_at := clock\<rparr>"
        "load_snapshot_in_transaction env listen_addr db' = Ok snapshot"
        "snapshot_of env listen_addr db' = Ok snapshot"
        "res = Ok (r, snapshot) \<or> res = Err commit_error"
proof (cases "body db")
  case (Inl e)
  with assms have "db' = db" "res = Err e" by (simp_all add: write_transaction_def)
  with unchanged show thesis by simp
next
  case (Inr txr)
  obtain tx r where tx: "txr = (tx, r)" by (cases txr)
  show thesis
  proof (cases "finish_candidate env listen_addr clock tx")
    case (Inl e)
    with Inr tx assms have "db' = db" "res = Err e" by (simp_all add: write_transaction_def finish_write_def)
    with unchanged show thesis by simp
  next
    case cand: (Inr p)
    obtain tx' snapshot where p: "p = (tx', snapshot)" by (cases p)
    note fin = finish_candidate_Ok [OF cand [unfolded p]]
    show thesis
    proof (cases fault)
      case FaultBeforeCommit
      with Inr tx cand p assms have "db' = db" "res = Err commit_error"
        by (simp_all add: write_transaction_def finish_write_def)
      with unchanged show thesis by simp
    qed (use Inr tx cand p assms fin committed [of tx r snapshot] in \<open>simp_all add: write_transaction_def finish_write_def\<close>)
  qed
qed

end
