(* ===== verification/Control_Writes.thy ===== *)
theory Control_Writes
  imports Control_Service
begin

text \<open>
  The writes of \<open>src/control_plane/accounts.rs\<close>, \<open>models.rs\<close>, \<open>bindings.rs\<close>, \<open>routes.rs\<close> and
  \<open>sources.rs\<close>, as bodies of a transaction: the checks and statements of one request, in order, on
  the state the transaction sees. The record a write returns is the row; the views of the API are its
  columns.

  \<open>now\<close> is the transaction's \<open>NOW()\<close>, \<open>utc\<close> the process clock and \<open>bid\<close> what the sequence of
  binding ids yields (sequences are not rolled back).
\<close>

section \<open>Accounts\<close>

definition account_conflict :: "string \<Rightarrow> control_plane_error" where
  "account_conflict aid = CpConflict (''account '' @ quoted aid @ '' already exists'')"

definition account_missing :: "string \<Rightarrow> control_plane_error" where
  "account_missing aid = CpNotFound (''account '' @ quoted aid @ '' not found'')"

definition fetch_account_tx :: "string \<Rightarrow> control_db \<Rightarrow> (account_row, control_plane_error) result" where
  "fetch_account_tx aid db = find_or (account_missing aid) (\<lambda>a. ar_id a = aid) (cd_accounts db)"

definition new_account_row :: "date_time \<Rightarrow> account_write \<Rightarrow> account_row" where
  "new_account_row now i =
     \<lparr>ar_id = aw_id i, ar_source_id = aw_source_id i, ar_display_name = aw_display_name i,
      ar_credential_env = aw_credential_env i, ar_credential_ciphertext = aw_credential_ciphertext i,
      ar_enabled = aw_enabled i, ar_weight = aw_weight i, ar_health_status = ''unknown'', ar_health_source = ''unknown'',
      ar_health_updated_at = None, ar_consecutive_failures = 0, ar_failure_window_started_at = None,
      ar_cooldown_until = None, ar_last_error = None, ar_last_success_at = None, ar_last_probe_at = None,
      ar_last_probe_status = None, ar_last_probe_error = None, ar_created_at = now, ar_updated_at = now\<rparr>"

definition create_account ::
  "control_env \<Rightarrow> date_time \<Rightarrow> date_time \<Rightarrow> account_write \<Rightarrow> control_db \<Rightarrow> (control_db \<times> account_row, control_plane_error) result" where
  "create_account env now utc i db =
     and_then (validate_account_input i) (\<lambda>_.
     and_then (ensure (aw_id i \<notin> ar_id ` set (cd_accounts db)) (account_conflict (aw_id i))) (\<lambda>_.
     and_then (ensure_source_exists db (aw_source_id i)) (\<lambda>_.
     and_then (constrained env (db\<lparr>cd_accounts := cd_accounts db @ [new_account_row now i]\<rparr>)) (\<lambda>tx.
     let tx = (if aw_enabled i then tx else apply_manual_health_transition (aw_id i) False utc tx) in
     and_then (fetch_account_tx (aw_id i) tx) (\<lambda>a. Ok (tx, a))))))"

definition written_account :: "date_time \<Rightarrow> account_write \<Rightarrow> account_row \<Rightarrow> account_row" where
  "written_account now i a =
     a\<lparr>ar_source_id := aw_source_id i, ar_display_name := aw_display_name i,
       ar_credential_ciphertext := aw_credential_ciphertext i, ar_credential_env := aw_credential_env i,
       ar_enabled := aw_enabled i, ar_weight := aw_weight i, ar_updated_at := now\<rparr>"

definition update_account ::
  "control_env \<Rightarrow> date_time \<Rightarrow> date_time \<Rightarrow> string \<Rightarrow> account_write \<Rightarrow> control_db \<Rightarrow> (control_db \<times> account_row, control_plane_error) result" where
  "update_account env now utc aid i db =
     and_then (validate_resource_id aid (aw_id i) ''account'') (\<lambda>_.
     and_then (validate_account_input i) (\<lambda>_.
     and_then (ensure_source_exists db (aw_source_id i)) (\<lambda>_.
     and_then (fetch_account_tx aid db) (\<lambda>previous.
     and_then (constrained env (db\<lparr>cd_accounts := update_rows (\<lambda>a. ar_id a = aid) (written_account now i) (cd_accounts db)\<rparr>)) (\<lambda>tx.
     let tx = (if ar_source_id previous \<noteq> aw_source_id i \<or> ar_enabled previous \<noteq> aw_enabled i
               then apply_manual_health_transition aid (aw_enabled i) utc tx else tx) in
     and_then (fetch_account_tx aid tx) (\<lambda>a. Ok (tx, a)))))))"

definition set_account_enabled ::
  "date_time \<Rightarrow> date_time \<Rightarrow> string \<Rightarrow> bool \<Rightarrow> control_db \<Rightarrow> (control_db \<times> account_row, control_plane_error) result" where
  "set_account_enabled now utc aid enabled db =
     and_then (fetch_account_tx aid db) (\<lambda>_.
     let tx = apply_manual_health_transition aid enabled utc
                (db\<lparr>cd_accounts := update_rows (\<lambda>a. ar_id a = aid)
                      (\<lambda>a. a\<lparr>ar_enabled := enabled, ar_updated_at := now\<rparr>) (cd_accounts db)\<rparr>) in
     and_then (fetch_account_tx aid tx) (\<lambda>a. Ok (tx, a)))"

text \<open>\<open>DELETE\<close> with its cascades.\<close>

definition drop_accounts :: "(account_row \<Rightarrow> bool) \<Rightarrow> control_db \<Rightarrow> control_db" where
  "drop_accounts P db =
     (let gone = ar_id ` {a \<in> set (cd_accounts db). P a} in
      db\<lparr>cd_accounts := filter (\<lambda>a. \<not> P a) (cd_accounts db),
         cd_bindings := filter (\<lambda>b. bi_account_id b \<notin> gone) (cd_bindings db),
         cd_health_events := filter (\<lambda>e. he_account_id e \<notin> gone) (cd_health_events db)\<rparr>)"

definition delete_account :: "string \<Rightarrow> control_db \<Rightarrow> (control_db \<times> unit, control_plane_error) result" where
  "delete_account aid db =
     and_then (fetch_account_tx aid db) (\<lambda>_. Ok (drop_accounts (\<lambda>a. ar_id a = aid) db, ()))"

definition rotate_account_credential ::
  "crypto \<Rightarrow> secret_resolver \<Rightarrow> string option \<Rightarrow> date_time \<Rightarrow> string \<Rightarrow> control_db \<Rightarrow> (control_db \<times> unit, control_plane_error) result" where
  "rotate_account_credential cr secrets random now aid db =
     and_then (find_or (CpNotFound ''account not found'') (\<lambda>a. ar_id a = aid) (cd_accounts db)) (\<lambda>a.
     and_then (ok_or CpNoCiphertext (ar_credential_ciphertext a)) (\<lambda>ciphertext.
     and_then (case rotate_for_account cr secrets random (ar_source_id a) aid ciphertext of
                 Ok rotated \<Rightarrow> Ok rotated | Err e \<Rightarrow> Err (CpCredential e)) (\<lambda>rotated.
       Ok (db\<lparr>cd_accounts := update_rows (\<lambda>a. ar_id a = aid)
                (\<lambda>a. a\<lparr>ar_credential_ciphertext := Some rotated, ar_updated_at := now\<rparr>) (cd_accounts db)\<rparr>, ()))))"

section \<open>Logical models\<close>

definition model_missing :: "string \<Rightarrow> control_plane_error" where
  "model_missing mid = CpNotFound (''logical model '' @ quoted mid @ '' not found'')"

definition fetch_logical_model_tx :: "string \<Rightarrow> control_db \<Rightarrow> (logical_model_row, control_plane_error) result" where
  "fetch_logical_model_tx mid db = find_or (model_missing mid) (\<lambda>m. lm_id m = mid) (cd_logical_models db)"

definition create_logical_model ::
  "control_env \<Rightarrow> date_time \<Rightarrow> date_time \<Rightarrow> logical_model_write \<Rightarrow> control_db
   \<Rightarrow> (control_db \<times> logical_model_row, control_plane_error) result" where
  "create_logical_model env now utc i db =
     and_then (validate_logical_model_input i) (\<lambda>_.
     and_then (ensure (lw_id i \<notin> lm_id ` set (cd_logical_models db))
                (CpConflict (''logical model '' @ quoted (lw_id i) @ '' already exists''))) (\<lambda>_.
     and_then (normalize_object (lw_metadata i) ''logical model metadata'') (\<lambda>metadata.
     and_then (normalize_object (lw_field_sources i) ''logical model field_sources'') (\<lambda>field_sources.
     let row = \<lparr>lm_id = lw_id i, lm_public_name = lw_public_name i, lm_display_name = lw_display_name i,
           lm_status = lw_status i, lm_metadata = metadata, lm_field_sources = field_sources, lm_enabled = lw_enabled i,
           lm_request_timeout_ms = None, lm_max_retries = None,
           lm_confirmed_at = (if lw_status i = CatalogStatus_Confirmed then Some utc else None),
           lm_unavailable_at = (if lw_status i = CatalogStatus_Unavailable then Some utc else None),
           lm_created_at = now, lm_updated_at = now\<rparr> in
     and_then (constrained env (db\<lparr>cd_logical_models := cd_logical_models db @ [row]\<rparr>)) (\<lambda>tx. Ok (tx, row))))))"

text \<open>The timestamps an \<open>UPDATE\<close> of a status sets.\<close>

definition confirmed_at_after :: "date_time \<Rightarrow> catalog_status \<Rightarrow> date_time option \<Rightarrow> date_time option" where
  "confirmed_at_after now status current =
     (if status = CatalogStatus_Confirmed then (case current of Some t \<Rightarrow> Some t | None \<Rightarrow> Some now) else current)"

definition unavailable_at_after :: "date_time \<Rightarrow> catalog_status \<Rightarrow> date_time option" where
  "unavailable_at_after now status = (if status = CatalogStatus_Unavailable then Some now else None)"

definition update_logical_model ::
  "control_env \<Rightarrow> date_time \<Rightarrow> string \<Rightarrow> logical_model_write \<Rightarrow> control_db
   \<Rightarrow> (control_db \<times> logical_model_row, control_plane_error) result" where
  "update_logical_model env now mid i db =
     and_then (validate_resource_id mid (lw_id i) ''logical model'') (\<lambda>_.
     and_then (validate_logical_model_input i) (\<lambda>_.
     and_then (fetch_logical_model_tx mid db) (\<lambda>current.
     and_then (validate_status_transition (lm_status current) (lw_status i) ''logical model'') (\<lambda>_.
     and_then (normalize_object (lw_metadata i) ''logical model metadata'') (\<lambda>metadata.
     and_then (normalize_object (lw_field_sources i) ''logical model field_sources'') (\<lambda>field_sources.
     and_then (constrained env (db\<lparr>cd_logical_models := update_rows (\<lambda>m. lm_id m = mid)
         (\<lambda>m. m\<lparr>lm_public_name := lw_public_name i, lm_display_name := lw_display_name i, lm_status := lw_status i,
                lm_metadata := metadata, lm_field_sources := field_sources, lm_enabled := lw_enabled i,
                lm_confirmed_at := confirmed_at_after now (lw_status i) (lm_confirmed_at m),
                lm_unavailable_at := unavailable_at_after now (lw_status i), lm_updated_at := now\<rparr>)
         (cd_logical_models db)\<rparr>)) (\<lambda>tx.
     and_then (fetch_logical_model_tx mid tx) (\<lambda>m. Ok (tx, m)))))))))"

definition set_logical_model_enabled ::
  "date_time \<Rightarrow> string \<Rightarrow> bool \<Rightarrow> control_db \<Rightarrow> (control_db \<times> logical_model_row, control_plane_error) result" where
  "set_logical_model_enabled now mid enabled db =
     and_then (fetch_logical_model_tx mid db) (\<lambda>_.
     let tx = db\<lparr>cd_logical_models := update_rows (\<lambda>m. lm_id m = mid) (\<lambda>m. m\<lparr>lm_enabled := enabled, lm_updated_at := now\<rparr>)
                   (cd_logical_models db)\<rparr> in
     and_then (fetch_logical_model_tx mid tx) (\<lambda>m. Ok (tx, m)))"

definition delete_logical_model :: "string \<Rightarrow> control_db \<Rightarrow> (control_db \<times> unit, control_plane_error) result" where
  "delete_logical_model mid db =
     and_then (fetch_logical_model_tx mid db) (\<lambda>_.
       Ok (db\<lparr>cd_logical_models := filter (\<lambda>m. lm_id m \<noteq> mid) (cd_logical_models db),
              cd_bindings := filter (\<lambda>b. bi_logical_model_id b \<noteq> mid) (cd_bindings db),
              cd_routes := filter (\<lambda>r. ro_logical_model_id r \<noteq> Some mid) (cd_routes db)\<rparr>, ()))"

section \<open>Bindings\<close>

definition binding_missing :: "i64 \<Rightarrow> control_plane_error" where
  "binding_missing i = CpNotFound (''model binding '' @ quoted (show_int (sint i)) @ '' not found'')"

definition fetch_model_binding_tx :: "i64 \<Rightarrow> control_db \<Rightarrow> (binding_row, control_plane_error) result" where
  "fetch_model_binding_tx bid db = find_or (binding_missing bid) (\<lambda>b. bi_id b = bid) (cd_bindings db)"

definition new_binding_row :: "date_time \<Rightarrow> date_time \<Rightarrow> i64 \<Rightarrow> binding_write \<Rightarrow> binding_row" where
  "new_binding_row now utc bid i =
     \<lparr>bi_id = bid, bi_logical_model_id = bw_logical_model_id i, bi_source_id = bw_source_id i,
      bi_account_id = bw_account_id i, bi_upstream_model_id = bw_upstream_model_id i, bi_protocol = bw_protocol i,
      bi_status = bw_status i, bi_enabled = bw_enabled i, bi_priority = bw_priority i,
      bi_confirmed_at = (if bw_status i = CatalogStatus_Confirmed then Some utc else None),
      bi_unavailable_at = (if bw_status i = CatalogStatus_Unavailable then Some utc else None),
      bi_created_at = now, bi_updated_at = now\<rparr>"

definition insert_binding ::
  "control_env \<Rightarrow> binding_row \<Rightarrow> control_db \<Rightarrow> (control_db, control_plane_error) result" where
  "insert_binding env row db =
     and_then (triggered env db row) (\<lambda>_. constrained env (db\<lparr>cd_bindings := cd_bindings db @ [row]\<rparr>))"

definition create_model_binding ::
  "control_env \<Rightarrow> date_time \<Rightarrow> date_time \<Rightarrow> i64 \<Rightarrow> binding_write \<Rightarrow> control_db
   \<Rightarrow> (control_db \<times> binding_row, control_plane_error) result" where
  "create_model_binding env now utc bid i db =
     and_then (validate_binding_input_shape i) (\<lambda>_.
     and_then (validate_binding_reference env db i) (\<lambda>_.
     and_then (insert_binding env (new_binding_row now utc bid i) db) (\<lambda>tx.
       Ok (tx, new_binding_row now utc bid i))))"

definition written_binding :: "date_time \<Rightarrow> binding_write \<Rightarrow> binding_row \<Rightarrow> binding_row" where
  "written_binding now i b =
     b\<lparr>bi_logical_model_id := bw_logical_model_id i, bi_source_id := bw_source_id i, bi_account_id := bw_account_id i,
       bi_upstream_model_id := bw_upstream_model_id i, bi_protocol := bw_protocol i, bi_status := bw_status i,
       bi_enabled := bw_enabled i, bi_priority := bw_priority i,
       bi_confirmed_at := confirmed_at_after now (bw_status i) (bi_confirmed_at b),
       bi_unavailable_at := unavailable_at_after now (bw_status i), bi_updated_at := now\<rparr>"

definition replace_binding ::
  "control_env \<Rightarrow> binding_row \<Rightarrow> control_db \<Rightarrow> (control_db, control_plane_error) result" where
  "replace_binding env row db =
     and_then (triggered env db row) (\<lambda>_.
       constrained env (db\<lparr>cd_bindings := update_rows (\<lambda>b. bi_id b = bi_id row) (\<lambda>_. row) (cd_bindings db)\<rparr>))"

definition update_model_binding ::
  "control_env \<Rightarrow> date_time \<Rightarrow> i64 \<Rightarrow> binding_write \<Rightarrow> control_db \<Rightarrow> (control_db \<times> binding_row, control_plane_error) result" where
  "update_model_binding env now bid i db =
     and_then (validate_binding_input_shape i) (\<lambda>_.
     and_then (fetch_model_binding_tx bid db) (\<lambda>current.
     and_then (validate_status_transition (bi_status current) (bw_status i) ''model binding'') (\<lambda>_.
     and_then (validate_binding_reference env db i) (\<lambda>_.
     and_then (replace_binding env (written_binding now i current) db) (\<lambda>tx.
       Ok (tx, written_binding now i current))))))"

definition binding_write_of :: "bool \<Rightarrow> binding_row \<Rightarrow> binding_write" where
  "binding_write_of enabled b =
     \<lparr>bw_logical_model_id = bi_logical_model_id b, bw_source_id = bi_source_id b, bw_account_id = bi_account_id b,
      bw_upstream_model_id = bi_upstream_model_id b, bw_protocol = bi_protocol b, bw_status = bi_status b,
      bw_enabled = enabled, bw_priority = bi_priority b\<rparr>"

definition set_model_binding_enabled ::
  "control_env \<Rightarrow> date_time \<Rightarrow> i64 \<Rightarrow> bool \<Rightarrow> control_db \<Rightarrow> (control_db \<times> binding_row, control_plane_error) result" where
  "set_model_binding_enabled env now bid enabled db =
     and_then (fetch_model_binding_tx bid db) (\<lambda>existing.
     and_then (if enabled then validate_binding_reference env db (binding_write_of enabled existing) else Ok ()) (\<lambda>_.
     let row = existing\<lparr>bi_enabled := enabled, bi_updated_at := now\<rparr> in
     and_then (replace_binding env row db) (\<lambda>tx. Ok (tx, row))))"

definition delete_model_binding :: "i64 \<Rightarrow> control_db \<Rightarrow> (control_db \<times> unit, control_plane_error) result" where
  "delete_model_binding bid db =
     and_then (fetch_model_binding_tx bid db) (\<lambda>_.
       Ok (db\<lparr>cd_bindings := filter (\<lambda>b. bi_id b \<noteq> bid) (cd_bindings db)\<rparr>, ()))"

section \<open>Routes\<close>

definition route_missing :: "string \<Rightarrow> control_plane_error" where
  "route_missing rid = CpNotFound (''route '' @ quoted rid @ '' not found'')"

text \<open>The view of a route joins its model, so a route without one is not found.\<close>

definition fetch_route_tx :: "string \<Rightarrow> control_db \<Rightarrow> (route_row, control_plane_error) result" where
  "fetch_route_tx rid db =
     find_or (route_missing rid)
       (\<lambda>r. ro_id r = rid \<and> (\<exists>m \<in> set (cd_logical_models db). ro_logical_model_id r = Some (lm_id m))) (cd_routes db)"

definition new_route_row :: "date_time \<Rightarrow> route_write \<Rightarrow> route_row" where
  "new_route_row now i =
     \<lparr>ro_id = rw_id i, ro_logical_model_id = Some (rw_logical_model_id i), ro_protocols = encode_protocols (rw_protocols i),
      ro_strategy = rw_strategy i, ro_allow_lossy_conversion = rw_allow_lossy_conversion i, ro_enabled = rw_enabled i,
      ro_created_at = now, ro_updated_at = now\<rparr>"

definition create_route ::
  "control_env \<Rightarrow> date_time \<Rightarrow> route_write \<Rightarrow> control_db \<Rightarrow> (control_db \<times> route_row, control_plane_error) result" where
  "create_route env now i db =
     and_then (validate_route_input_shape i) (\<lambda>_.
     and_then (ensure (rw_id i \<notin> ro_id ` set (cd_routes db)) (CpConflict (''route '' @ quoted (rw_id i) @ '' already exists''))) (\<lambda>_.
     and_then (validate_route_reference env db i) (\<lambda>_.
     and_then (constrained env (db\<lparr>cd_routes := cd_routes db @ [new_route_row now i]\<rparr>)) (\<lambda>tx.
     and_then (fetch_route_tx (rw_id i) tx) (\<lambda>r. Ok (tx, r))))))"

definition written_route :: "date_time \<Rightarrow> route_write \<Rightarrow> route_row \<Rightarrow> route_row" where
  "written_route now i r =
     r\<lparr>ro_logical_model_id := Some (rw_logical_model_id i), ro_protocols := encode_protocols (rw_protocols i),
       ro_strategy := rw_strategy i, ro_allow_lossy_conversion := rw_allow_lossy_conversion i,
       ro_enabled := rw_enabled i, ro_updated_at := now\<rparr>"

definition update_route ::
  "control_env \<Rightarrow> date_time \<Rightarrow> string \<Rightarrow> route_write \<Rightarrow> control_db \<Rightarrow> (control_db \<times> route_row, control_plane_error) result" where
  "update_route env now rid i db =
     and_then (validate_resource_id rid (rw_id i) ''route'') (\<lambda>_.
     and_then (validate_route_input_shape i) (\<lambda>_.
     and_then (validate_route_reference env db i) (\<lambda>_.
     and_then (ensure (rid \<in> ro_id ` set (cd_routes db)) (route_missing rid)) (\<lambda>_.
     and_then (constrained env (db\<lparr>cd_routes := update_rows (\<lambda>r. ro_id r = rid) (written_route now i) (cd_routes db)\<rparr>)) (\<lambda>tx.
     and_then (fetch_route_tx rid tx) (\<lambda>r. Ok (tx, r)))))))"

definition route_write_of :: "bool \<Rightarrow> protocol list \<Rightarrow> route_row \<Rightarrow> route_write" where
  "route_write_of enabled protocols r =
     \<lparr>rw_id = ro_id r, rw_logical_model_id = unwrap_or [] (ro_logical_model_id r), rw_protocols = protocols,
      rw_strategy = ro_strategy r, rw_allow_lossy_conversion = ro_allow_lossy_conversion r, rw_enabled = enabled\<rparr>"

definition set_route_enabled ::
  "control_env \<Rightarrow> date_time \<Rightarrow> string \<Rightarrow> bool \<Rightarrow> control_db \<Rightarrow> (control_db \<times> route_row, control_plane_error) result" where
  "set_route_enabled env now rid enabled db =
     and_then (fetch_route_tx rid db) (\<lambda>current.
     and_then (if enabled then
                 and_then (ok_or (CpJson (ce_de env (ro_protocols current))) (decode_protocols (ro_protocols current))) (\<lambda>protocols.
                   validate_route_reference env db (route_write_of enabled protocols current))
               else Ok ()) (\<lambda>_.
     let tx = db\<lparr>cd_routes := update_rows (\<lambda>r. ro_id r = rid) (\<lambda>r. r\<lparr>ro_enabled := enabled, ro_updated_at := now\<rparr>) (cd_routes db)\<rparr> in
     and_then (fetch_route_tx rid tx) (\<lambda>r. Ok (tx, r))))"

definition delete_route :: "string \<Rightarrow> control_db \<Rightarrow> (control_db \<times> unit, control_plane_error) result" where
  "delete_route rid db =
     and_then (ensure (rid \<in> ro_id ` set (cd_routes db)) (route_missing rid)) (\<lambda>_.
       Ok (db\<lparr>cd_routes := filter (\<lambda>r. ro_id r \<noteq> rid) (cd_routes db)\<rparr>, ()))"

section \<open>Sources\<close>

definition source_missing :: "string \<Rightarrow> control_plane_error" where
  "source_missing sid = CpNotFound (''source '' @ quoted sid @ '' not found'')"

text \<open>\<open>serde_json::to_value\<close> of the endpoints: an object, its keys in order.\<close>

definition encode_endpoints :: "(protocol, string) hmap \<Rightarrow> json" where
  "encode_endpoints endpoints =
     JObject (foldl (\<lambda>m (p, e). binsert (protocol_to_string p) (JString e) m) [] endpoints)"

definition create_source ::
  "control_env \<Rightarrow> date_time \<Rightarrow> source_write \<Rightarrow> control_db \<Rightarrow> (control_db \<times> source_row, control_plane_error) result" where
  "create_source env now i db =
     and_then (validate_source_input env i) (\<lambda>_.
     and_then (ensure (sw_id i \<notin> so_id ` set (cd_sources db)) (CpConflict (''source '' @ quoted (sw_id i) @ '' already exists''))) (\<lambda>_.
     and_then (find_or (CpNotFound (''provider preset '' @ quoted (sw_provider_preset_id i @ ''@'' @
                   show_int (sint (sw_provider_preset_version i))) @ '' not found''))
                (\<lambda>p. pp_id p = sw_provider_preset_id i \<and> pp_version p = sw_provider_preset_version i) (cd_presets db)) (\<lambda>preset.
     and_then (normalize_object (sw_auth_config i) ''source auth_config'') (\<lambda>auth_config.
     and_then (normalize_object (sw_protocol_capabilities i) ''source protocol_capabilities'') (\<lambda>protocol_capabilities.
     let row = \<lparr>so_id = sw_id i, so_display_name = sw_display_name i, so_provider_preset_id = sw_provider_preset_id i,
           so_provider_preset_version = sw_provider_preset_version i, so_provider_preset_snapshot = pp_definition preset,
           so_base_url = sw_base_url i, so_endpoints = encode_endpoints (sw_endpoints i), so_auth_config = auth_config,
           so_protocol_capabilities = protocol_capabilities, so_enabled = sw_enabled i, so_created_at = now,
           so_updated_at = now\<rparr> in
     and_then (constrained env (db\<lparr>cd_sources := cd_sources db @ [row]\<rparr>)) (\<lambda>tx. Ok (tx, row)))))))"

definition update_source ::
  "control_env \<Rightarrow> date_time \<Rightarrow> date_time \<Rightarrow> string \<Rightarrow> source_write \<Rightarrow> control_db \<Rightarrow> (control_db \<times> source_row, control_plane_error) result" where
  "update_source env now utc sid i db =
     and_then (validate_resource_id sid (sw_id i) ''source'') (\<lambda>_.
     and_then (validate_source_input env i) (\<lambda>_.
     and_then (find_or (source_missing sid) (\<lambda>s. so_id s = sid) (cd_sources db)) (\<lambda>current.
     and_then (ensure ((so_provider_preset_id current, so_provider_preset_version current) =
                       (sw_provider_preset_id i, sw_provider_preset_version i))
                (CpValidation [''a Source provider preset snapshot is immutable after creation''])) (\<lambda>_.
     and_then (normalize_object (sw_auth_config i) ''source auth_config'') (\<lambda>auth_config.
     and_then (normalize_object (sw_protocol_capabilities i) ''source protocol_capabilities'') (\<lambda>protocol_capabilities.
     let row = current\<lparr>so_display_name := sw_display_name i, so_base_url := sw_base_url i,
           so_endpoints := encode_endpoints (sw_endpoints i), so_auth_config := auth_config,
           so_protocol_capabilities := protocol_capabilities, so_enabled := sw_enabled i, so_updated_at := now\<rparr>;
         tx = db\<lparr>cd_sources := update_rows (\<lambda>s. so_id s = sid) (\<lambda>_. row) (cd_sources db)\<rparr>;
         tx = (if so_enabled current \<noteq> sw_enabled i then apply_manual_health_transition_for_source sid (sw_enabled i) utc tx else tx)
     in Ok (tx, row)))))))"

definition set_source_enabled ::
  "date_time \<Rightarrow> date_time \<Rightarrow> string \<Rightarrow> bool \<Rightarrow> control_db \<Rightarrow> (control_db \<times> source_row, control_plane_error) result" where
  "set_source_enabled now utc sid enabled db =
     and_then (find_or (source_missing sid) (\<lambda>s. so_id s = sid) (cd_sources db)) (\<lambda>current.
     let row = current\<lparr>so_enabled := enabled, so_updated_at := now\<rparr>;
         tx = db\<lparr>cd_sources := update_rows (\<lambda>s. so_id s = sid) (\<lambda>_. row) (cd_sources db)\<rparr>;
         tx = (if so_enabled current \<noteq> enabled then apply_manual_health_transition_for_source sid enabled utc tx else tx)
     in Ok (tx, row))"

definition delete_source :: "string \<Rightarrow> control_db \<Rightarrow> (control_db \<times> unit, control_plane_error) result" where
  "delete_source sid db =
     and_then (find_or (source_missing sid) (\<lambda>s. so_id s = sid) (cd_sources db)) (\<lambda>_.
       Ok ((drop_accounts (\<lambda>a. ar_source_id a = sid) db)
             \<lparr>cd_sources := filter (\<lambda>s. so_id s \<noteq> sid) (cd_sources db),
              cd_source_models := filter (\<lambda>m. sm_source_id m \<noteq> sid) (cd_source_models db),
              cd_capabilities := filter (\<lambda>c. sc_source_id c \<noteq> sid) (cd_capabilities db),
              cd_bindings := filter (\<lambda>b. bi_source_id b \<noteq> sid) (cd_bindings (drop_accounts (\<lambda>a. ar_source_id a = sid) db))\<rparr>, ()))"

end
