(* ===== verification/Control_Invariant.thy ===== *)
theory Control_Invariant
  imports Control_Writes
begin

text \<open>
  The invariant of the control-plane database: the schema's keys and references hold, every model is
  served by one provider family, no two enabled routes compete for a model and protocol, and the
  protocols of a route are stored as the code encodes them. Every write keeps it.
\<close>

section \<open>Invariants\<close>

text \<open>
  The provider families that serve a model: those of the sources of its confirmed enabled bindings.
\<close>

definition families :: "control_db \<Rightarrow> (string \<times> string) set" where
  "families db =
     {(bi_logical_model_id b, so_provider_preset_id s) | b s.
        b \<in> set (cd_bindings db) \<and> live_binding b \<and> s \<in> set (cd_sources db) \<and> so_id s = bi_source_id b}"

definition one_family :: "control_db \<Rightarrow> bool" where
  "one_family db \<longleftrightarrow> (\<forall>m f g. (m, f) \<in> families db \<longrightarrow> (m, g) \<in> families db \<longrightarrow> f = g)"

definition routes_disjoint :: "control_db \<Rightarrow> bool" where
  "routes_disjoint db \<longleftrightarrow>
     (\<forall>r \<in> set (cd_routes db). \<forall>q \<in> set (cd_routes db). \<forall>m p.
        ro_enabled r \<longrightarrow> ro_enabled q \<longrightarrow> ro_logical_model_id r = Some m \<longrightarrow> ro_logical_model_id q = Some m \<longrightarrow>
        jsonb_exists (ro_protocols r) (protocol_to_string p) \<longrightarrow> jsonb_exists (ro_protocols q) (protocol_to_string p) \<longrightarrow> ro_id r = ro_id q)"

definition routes_encoded :: "control_db \<Rightarrow> bool" where
  "routes_encoded db \<longleftrightarrow> (\<forall>r \<in> set (cd_routes db). \<exists>ps. ro_protocols r = encode_protocols ps)"

definition control_inv :: "control_db \<Rightarrow> bool" where
  "control_inv db \<longleftrightarrow> schema_ok db \<and> one_family db \<and> routes_disjoint db \<and> routes_encoded db"

definition pick_ok :: "control_env \<Rightarrow> bool" where
  "pick_ok env \<longleftrightarrow> (\<forall>xs. xs \<noteq> [] \<longrightarrow> ce_pick env xs \<in> set xs)"

lemma one_family_mono: "families db' \<subseteq> families db \<Longrightarrow> one_family db \<Longrightarrow> one_family db'"
  by (auto simp: one_family_def)

lemma familiesI:
  "b \<in> set (cd_bindings db) \<Longrightarrow> live_binding b \<Longrightarrow> s \<in> set (cd_sources db) \<Longrightarrow> so_id s = bi_source_id b \<Longrightarrow>
   (bi_logical_model_id b, so_provider_preset_id s) \<in> families db"
  unfolding families_def by blast

lemma families_cong:
  assumes "cd_bindings db' = cd_bindings db"
    and "(\<lambda>s. (so_id s, so_provider_preset_id s)) ` set (cd_sources db') \<subseteq> (\<lambda>s. (so_id s, so_provider_preset_id s)) ` set (cd_sources db)"
  shows "families db' \<subseteq> families db"
proof
  fix x
  assume "x \<in> families db'"
  then obtain b s where x: "x = (bi_logical_model_id b, so_provider_preset_id s)" "b \<in> set (cd_bindings db)" "live_binding b"
    "s \<in> set (cd_sources db')" "so_id s = bi_source_id b"
    using assms(1) by (auto simp: families_def)
  from x(4) have "(so_id s, so_provider_preset_id s) \<in> (\<lambda>s. (so_id s, so_provider_preset_id s)) ` set (cd_sources db')" by simp
  with assms(2) obtain t where "t \<in> set (cd_sources db)" "so_id t = so_id s" "so_provider_preset_id t = so_provider_preset_id s"
    by auto
  with x familiesI [of b db t] show "x \<in> families db" by simp
qed

lemma routes_inv_cong:
  assumes "cd_routes db' = cd_routes db"
  shows "routes_disjoint db' = routes_disjoint db" "routes_encoded db' = routes_encoded db"
  by (simp_all only: routes_disjoint_def routes_encoded_def assms)

lemma routes_disjoint_mono:
  assumes "routes_disjoint db"
    and same: "\<And>r. r \<in> set (cd_routes db') \<Longrightarrow> ro_enabled r \<Longrightarrow>
      \<exists>q \<in> set (cd_routes db). ro_enabled q \<and> ro_id q = ro_id r \<and> ro_logical_model_id q = ro_logical_model_id r \<and> ro_protocols q = ro_protocols r"
  shows "routes_disjoint db'"
  unfolding routes_disjoint_def
proof (intro ballI allI impI)
  fix r q m p
  assume rq: "r \<in> set (cd_routes db')" "q \<in> set (cd_routes db')" "ro_enabled r" "ro_enabled q"
    and m: "ro_logical_model_id r = Some m" "ro_logical_model_id q = Some m"
    and p: "jsonb_exists (ro_protocols r) (protocol_to_string p)" "jsonb_exists (ro_protocols q) (protocol_to_string p)"
  from same [OF rq(1,3)] same [OF rq(2,4)] obtain r' q' where
    "r' \<in> set (cd_routes db)" "ro_enabled r'" "ro_id r' = ro_id r" "ro_logical_model_id r' = ro_logical_model_id r" "ro_protocols r' = ro_protocols r"
    "q' \<in> set (cd_routes db)" "ro_enabled q'" "ro_id q' = ro_id q" "ro_logical_model_id q' = ro_logical_model_id q" "ro_protocols q' = ro_protocols q"
    by auto
  with assms(1) m p show "ro_id r = ro_id q" unfolding routes_disjoint_def by metis
qed

section \<open>Accounts, models and sources\<close>

lemma find_or_Ok: "find_or e P xs = Ok x \<Longrightarrow> x \<in> set xs \<and> P x"
  by (auto simp: find_or_def ok_or_Ok find_Some_iff)

text \<open>Writes that leave bindings, sources and routes alone.\<close>

lemma control_inv_accounts:
  assumes "control_inv db" "schema_ok db'" "cd_bindings db' = cd_bindings db" "cd_sources db' = cd_sources db" "cd_routes db' = cd_routes db"
  shows "control_inv db'"
proof -
  have "families db' \<subseteq> families db" using assms(3,4) by (intro families_cong) simp_all
  with one_family_mono assms(1) have "one_family db'" by (auto simp: control_inv_def)
  with assms(1,2) routes_inv_cong [OF assms(5)] show ?thesis by (simp add: control_inv_def)
qed

lemma manual_transition_simps [simp]:
  "cd_bindings (manual_transition P e t db) = cd_bindings db" "cd_sources (manual_transition P e t db) = cd_sources db"
  "cd_routes (manual_transition P e t db) = cd_routes db"
  by (simp_all add: manual_transition_def)

lemma schema_ok_accounts:
  assumes "schema_ok db" "\<And>x. P x \<Longrightarrow> ar_id (f x) = ar_id x \<and> ar_source_id (f x) = ar_source_id x"
  shows "schema_ok (db\<lparr>cd_accounts := update_rows P f (cd_accounts db)\<rparr>)"
  using assms by (simp add: schema_ok_def keys_ok_def references_ok_def map_update_rows image_update_rows account_key_def)

lemma schema_ok_models:
  assumes "schema_ok db" "\<And>x. P x \<Longrightarrow> lm_id (f x) = lm_id x \<and> lm_public_name (f x) = lm_public_name x"
  shows "schema_ok (db\<lparr>cd_logical_models := update_rows P f (cd_logical_models db)\<rparr>)"
  using assms by (simp add: schema_ok_def keys_ok_def references_ok_def map_update_rows image_update_rows)

lemma schema_ok_events: "schema_ok (db\<lparr>cd_health_events := es\<rparr>) = schema_ok db"
  by (simp add: schema_ok_def keys_ok_def references_ok_def)

lemma schema_ok_manual: "schema_ok db \<Longrightarrow> schema_ok (manual_transition P e t db)"
  using schema_ok_accounts [of db P "manual_health e t"] schema_ok_events
  by (simp add: manual_transition_def manual_health_def)

lemmas manual_transition_defs = apply_manual_health_transition_def apply_manual_health_transition_for_source_def

lemma create_account_inv: "control_inv db \<Longrightarrow> create_account env now utc i db = Ok (tx, a) \<Longrightarrow> control_inv tx"
  by (rule control_inv_accounts [of db])
    (auto simp: create_account_def and_then_Ok constrained_Ok Let_def manual_transition_defs intro: schema_ok_manual split: if_splits)

lemma update_account_inv: "control_inv db \<Longrightarrow> update_account env now utc aid i db = Ok (tx, a) \<Longrightarrow> control_inv tx"
  by (rule control_inv_accounts [of db])
    (auto simp: update_account_def and_then_Ok constrained_Ok Let_def manual_transition_defs intro: schema_ok_manual split: if_splits)

lemma set_account_enabled_inv: "control_inv db \<Longrightarrow> set_account_enabled now utc aid e db = Ok (tx, a) \<Longrightarrow> control_inv tx"
  by (rule control_inv_accounts [of db])
    (auto simp: set_account_enabled_def and_then_Ok Let_def manual_transition_defs control_inv_def intro!: schema_ok_manual schema_ok_accounts)

lemma rotate_account_credential_inv:
  "control_inv db \<Longrightarrow> rotate_account_credential cr sec rnd now aid db = Ok (tx, a) \<Longrightarrow> control_inv tx"
  by (rule control_inv_accounts [of db])
    (auto simp: rotate_account_credential_def and_then_Ok control_inv_def intro!: schema_ok_accounts)

lemma create_logical_model_inv: "control_inv db \<Longrightarrow> create_logical_model env now utc i db = Ok (tx, m) \<Longrightarrow> control_inv tx"
  by (rule control_inv_accounts [of db]) (auto simp: create_logical_model_def and_then_Ok constrained_Ok Let_def)

lemma update_logical_model_inv: "control_inv db \<Longrightarrow> update_logical_model env now mid i db = Ok (tx, m) \<Longrightarrow> control_inv tx"
  by (rule control_inv_accounts [of db]) (auto simp: update_logical_model_def and_then_Ok constrained_Ok)

lemma set_logical_model_enabled_inv: "control_inv db \<Longrightarrow> set_logical_model_enabled now mid e db = Ok (tx, m) \<Longrightarrow> control_inv tx"
  by (rule control_inv_accounts [of db])
    (auto simp: set_logical_model_enabled_def and_then_Ok Let_def control_inv_def intro!: schema_ok_models)

section \<open>Deletions\<close>

lemma control_inv_subset:
  assumes "control_inv db" "schema_ok db'" "set (cd_bindings db') \<subseteq> set (cd_bindings db)"
    and "set (cd_sources db') \<subseteq> set (cd_sources db)" "set (cd_routes db') \<subseteq> set (cd_routes db)"
  shows "control_inv db'"
proof -
  have "families db' \<subseteq> families db" using assms(3,4) unfolding families_def by blast
  with one_family_mono assms(1) have "one_family db'" by (auto simp: control_inv_def)
  moreover have "routes_disjoint db'"
  proof (rule routes_disjoint_mono)
    show "routes_disjoint db" using assms(1) by (simp add: control_inv_def)
  qed (use assms(5) in blast)
  moreover have "routes_encoded db'" using assms(1,5) by (auto simp: control_inv_def routes_encoded_def)
  ultimately show ?thesis using assms(2) by (simp add: control_inv_def)
qed

lemma binding_account:
  assumes "references_ok db" "b \<in> set (cd_bindings db)"
  shows "\<exists>a \<in> set (cd_accounts db). ar_id a = bi_account_id b \<and> ar_source_id a = bi_source_id b"
proof -
  from assms have "(bi_account_id b, bi_source_id b) \<in> account_key ` set (cd_accounts db)"
    by (auto simp: references_ok_def)
  then show ?thesis by (auto simp: account_key_def)
qed

lemma drop_accounts_simps [simp]:
  "cd_sources (drop_accounts P db) = cd_sources db" "cd_routes (drop_accounts P db) = cd_routes db"
  "set (cd_bindings (drop_accounts P db)) \<subseteq> set (cd_bindings db)"
  by (auto simp: drop_accounts_def Let_def)

lemma drop_accounts_keys: "keys_ok db \<Longrightarrow> keys_ok (drop_accounts P db)"
  by (simp add: keys_ok_def drop_accounts_def Let_def distinct_map_filter)

lemma drop_accounts_refs:
  assumes "references_ok db"
  shows "references_ok (drop_accounts P db)"
proof -
  have "(bi_account_id b, bi_source_id b) \<in> account_key ` {a \<in> set (cd_accounts db). \<not> P a}"
    if "b \<in> set (cd_bindings db)" "bi_account_id b \<notin> ar_id ` {a \<in> set (cd_accounts db). P a}" for b
  proof -
    from binding_account [OF assms that(1)] obtain a where a: "a \<in> set (cd_accounts db)" "account_key a = (bi_account_id b, bi_source_id b)"
      by (auto simp: account_key_def)
    moreover from a that(2) have "\<not> P a" by (metis (mono_tags, lifting) account_key_def fst_conv image_eqI mem_Collect_eq)
    ultimately show ?thesis by (metis (mono_tags, lifting) image_eqI mem_Collect_eq)
  qed
  then have "(\<lambda>b. (bi_account_id b, bi_source_id b)) ` set (cd_bindings (drop_accounts P db)) \<subseteq> account_key ` set (cd_accounts (drop_accounts P db))"
    by (auto simp: drop_accounts_def Let_def)
  with assms show ?thesis unfolding references_ok_def by (auto simp: drop_accounts_def Let_def)
qed

lemma delete_account_inv: "control_inv db \<Longrightarrow> delete_account aid db = Ok (tx, u) \<Longrightarrow> control_inv tx"
  by (rule control_inv_subset [of db])
    (auto simp: delete_account_def and_then_Ok control_inv_def schema_ok_def intro: drop_accounts_keys drop_accounts_refs
      dest: subsetD [OF drop_accounts_simps(3)])

lemma delete_logical_model_inv:
  assumes "control_inv db" "delete_logical_model mid db = Ok (tx, u)"
  shows "control_inv tx"
proof (rule control_inv_subset [OF assms(1)])
  from assms(2) have tx: "tx = db\<lparr>cd_logical_models := filter (\<lambda>m. lm_id m \<noteq> mid) (cd_logical_models db),
      cd_bindings := filter (\<lambda>b. bi_logical_model_id b \<noteq> mid) (cd_bindings db),
      cd_routes := filter (\<lambda>r. ro_logical_model_id r \<noteq> Some mid) (cd_routes db)\<rparr>"
    by (auto simp: delete_logical_model_def and_then_Ok)
  from assms(1) have "keys_ok db" "references_ok db" by (auto simp: control_inv_def schema_ok_def)
  then have "keys_ok tx" "references_ok tx"
    by (simp add: tx keys_ok_def distinct_map_filter, auto simp: tx references_ok_def)
  then show "schema_ok tx" by (simp add: schema_ok_def)
qed (use assms(2) in \<open>auto simp: delete_logical_model_def and_then_Ok\<close>)

lemma delete_source_inv:
  assumes "control_inv db" "delete_source sid db = Ok (tx, u)"
  shows "control_inv tx"
proof (rule control_inv_subset [OF assms(1)])
  let ?d = "drop_accounts (\<lambda>a. ar_source_id a = sid) db"
  from assms(2) have tx: "tx = ?d\<lparr>cd_sources := filter (\<lambda>s. so_id s \<noteq> sid) (cd_sources db),
      cd_source_models := filter (\<lambda>m. sm_source_id m \<noteq> sid) (cd_source_models db),
      cd_capabilities := filter (\<lambda>c. sc_source_id c \<noteq> sid) (cd_capabilities db),
      cd_bindings := filter (\<lambda>b. bi_source_id b \<noteq> sid) (cd_bindings ?d)\<rparr>"
    by (auto simp: delete_source_def and_then_Ok)
  from assms(1) have ok: "keys_ok ?d" "references_ok ?d" "keys_ok db" "references_ok db"
    by (auto simp: control_inv_def schema_ok_def intro: drop_accounts_keys drop_accounts_refs)
  have "keys_ok tx" using ok(1,3) by (simp add: tx keys_ok_def distinct_map_filter)
  moreover have "references_ok tx"
    using ok(2,4) by (auto simp: tx references_ok_def drop_accounts_def Let_def capability_key_def source_model_key_def)
  ultimately show "schema_ok tx" by (simp add: schema_ok_def)
  show "set (cd_bindings tx) \<subseteq> set (cd_bindings db)" using subsetD [OF drop_accounts_simps(3)] by (auto simp: tx)
qed (use assms(2) in \<open>auto simp: delete_source_def and_then_Ok\<close>)

section \<open>Sources\<close>

lemma control_inv_families:
  assumes "control_inv db" "schema_ok db'" "families db' \<subseteq> families db" "cd_routes db' = cd_routes db"
  shows "control_inv db'"
proof -
  from assms routes_inv_cong [OF assms(4)] one_family_mono show ?thesis by (auto simp: control_inv_def)
qed

lemma schema_ok_sources:
  assumes "schema_ok db" "\<And>x. P x \<Longrightarrow> so_id (f x) = so_id x"
  shows "schema_ok (db\<lparr>cd_sources := update_rows P f (cd_sources db)\<rparr>)"
  using assms by (simp add: schema_ok_def keys_ok_def references_ok_def map_update_rows image_update_rows)

lemma families_manual [simp]: "families (manual_transition P e t db) = families db"
  by (simp add: families_def)

lemma replaced_source_inv:
  assumes "control_inv db" "\<exists>s \<in> set (cd_sources db). so_id s = sid \<and> so_provider_preset_id row = so_provider_preset_id s" "so_id row = sid"
  defines "tx \<equiv> db\<lparr>cd_sources := update_rows (\<lambda>s. so_id s = sid) (\<lambda>_. row) (cd_sources db)\<rparr>"
  shows "control_inv tx" "control_inv (manual_transition P e t tx)"
proof -
  have schema: "schema_ok tx" using assms(1,3) unfolding tx_def by (intro schema_ok_sources) (auto simp: control_inv_def)
  have fam: "families tx \<subseteq> families db"
    using assms(2,3) by (intro families_cong) (auto simp: tx_def set_update_rows intro: rev_image_eqI split: if_splits)
  from assms(1) schema fam show "control_inv tx" by (rule control_inv_families) (simp add: tx_def)
  from assms(1) schema_ok_manual [OF schema] show "control_inv (manual_transition P e t tx)"
    by (rule control_inv_families) (use fam in \<open>simp_all add: tx_def\<close>)
qed

lemma update_source_inv: "control_inv db \<Longrightarrow> update_source env now utc sid i db = Ok (tx, s) \<Longrightarrow> control_inv tx"
  by (auto simp: update_source_def and_then_Ok Let_def manual_transition_defs dest!: find_or_Ok
      intro!: replaced_source_inv split: if_splits)

lemma set_source_enabled_inv: "control_inv db \<Longrightarrow> set_source_enabled now utc sid e db = Ok (tx, s) \<Longrightarrow> control_inv tx"
  by (auto simp: set_source_enabled_def and_then_Ok Let_def manual_transition_defs dest!: find_or_Ok
      intro!: replaced_source_inv split: if_splits)

lemma create_source_inv:
  assumes "control_inv db" "create_source env now i db = Ok (tx, s)"
  shows "control_inv tx"
proof -
  from assms(2) have tx: "tx = db\<lparr>cd_sources := cd_sources db @ [s]\<rparr>" "schema_ok tx" "so_id s \<notin> so_id ` set (cd_sources db)"
    by (auto simp: create_source_def and_then_Ok constrained_Ok ensure_Ok Let_def)
  have "so_id s \<noteq> bi_source_id b" if "b \<in> set (cd_bindings db)" for b
  proof -
    from assms(1) have refs: "references_ok db" by (simp add: control_inv_def schema_ok_def)
    from binding_account [OF refs that] obtain a where "a \<in> set (cd_accounts db)" "ar_source_id a = bi_source_id b" by blast
    then have "bi_source_id b \<in> ar_source_id ` set (cd_accounts db)" by (metis imageI)
    moreover from refs have "ar_source_id ` set (cd_accounts db) \<subseteq> so_id ` set (cd_sources db)" by (simp add: references_ok_def)
    ultimately have "bi_source_id b \<in> so_id ` set (cd_sources db)" by blast
    with tx(3) show ?thesis by metis
  qed
  note fresh = this
  have "families tx \<subseteq> families db"
  proof
    fix x
    assume "x \<in> families tx"
    then obtain b t where "b \<in> set (cd_bindings tx)" "live_binding b" "t \<in> set (cd_sources tx)" "so_id t = bi_source_id b"
      "x = (bi_logical_model_id b, so_provider_preset_id t)"
      unfolding families_def by blast
    then have "b \<in> set (cd_bindings db)" "live_binding b" "t = s \<or> t \<in> set (cd_sources db)" "so_id t = bi_source_id b"
      "x = (bi_logical_model_id b, so_provider_preset_id t)" using tx(1) by auto
    note bt = this
    have "t \<noteq> s" using fresh [OF bt(1)] bt(4) by metis
    with bt familiesI [of b db t] show "x \<in> families db" by simp
  qed
  then show ?thesis by (rule control_inv_families [OF assms(1) tx(2)]) (simp add: tx(1))
qed

section \<open>Bindings\<close>

lemma binding_rows_source:
  assumes "validate_binding_reference env db i = Ok ()"
  shows "\<exists>s \<in> set (cd_sources db). so_id s = bw_source_id i"
proof -
  from assms have "binding_validation_rows db i \<noteq> []" by (auto simp: validate_binding_reference_def)
  then obtain row where "row \<in> set (binding_validation_rows db i)" by (meson list.set_sel(1))
  then show ?thesis by (auto simp: binding_validation_rows_def)
qed

text \<open>A validated live binding belongs to the family that already serves its model.\<close>

lemma validated_family:
  assumes "pick_ok env" "keys_ok db" "one_family db" "validate_binding_reference env db i = Ok ()"
    and "bw_status i = CatalogStatus_Confirmed" "bw_enabled i"
    and "s \<in> set (cd_sources db)" "so_id s = bw_source_id i" "(bw_logical_model_id i, f) \<in> families db"
  shows "f = so_provider_preset_id s"
proof -
  from assms(4-6) have fam: "validate_binding_family_constraint env db i = Ok ()"
    by (auto simp: validate_binding_reference_def and_then_Ok split: list.splits if_splits)
  have unique: "t = s" if "t \<in> set (cd_sources db)" "so_id t = so_id s" for t
    using that assms(2,7) by (intro key_unique [of so_id "cd_sources db"]) (simp_all add: keys_ok_def)
  have found: "List.find (\<lambda>t. so_id t = bw_source_id i) (cd_sources db) = Some s"
  proof (cases "List.find (\<lambda>t. so_id t = bw_source_id i) (cd_sources db)")
    case None
    with assms(7,8) show ?thesis by (auto simp: find_None_iff)
  next
    case (Some t)
    then have "t \<in> set (cd_sources db) \<and> so_id t = bw_source_id i" by (auto simp: find_Some_iff)
    with unique assms(8) Some show ?thesis by simp
  qed
  from assms(9) obtain b t where bt: "b \<in> set (cd_bindings db)" "live_binding b" "t \<in> set (cd_sources db)" "so_id t = bi_source_id b"
    "bi_logical_model_id b = bw_logical_model_id i" "f = so_provider_preset_id t"
    by (auto simp: families_def)
  have other: "(bw_logical_model_id i, g) \<in> families db" if g: "g \<in> set (other_families db i)" for g
  proof -
    from g obtain c u where c: "c \<in> set (cd_bindings db)" "bi_logical_model_id c = bw_logical_model_id i" "live_binding c"
      "u \<in> set (cd_sources db)" "so_id u = bi_source_id c" "g = so_provider_preset_id u"
      by (auto simp: other_families_def split: if_splits)
    with familiesI [of c db u] show ?thesis by simp
  qed
  show ?thesis
  proof (cases "bi_source_id b = bw_source_id i")
    case True
    with unique [of t] bt assms(8) show ?thesis by simp
  next
    case False
    with bt have "f \<in> set (other_families db i)" by (auto simp: other_families_def)
    then have "other_families db i \<noteq> []" by auto
    then have g: "limit_one env (other_families db i) = Some (ce_pick env (other_families db i))"
      "ce_pick env (other_families db i) \<in> set (other_families db i)"
      using assms(1) by (simp_all add: limit_one_def pick_ok_def)
    with fam found have "so_provider_preset_id s = ce_pick env (other_families db i)"
      by (auto simp: validate_binding_family_constraint_def split: if_splits)
    with other [OF g(2)] assms(3,9) show ?thesis by (auto simp: one_family_def)
  qed
qed

lemma control_inv_binding:
  assumes "control_inv db" "pick_ok env" "schema_ok tx" "tx = db\<lparr>cd_bindings := bs\<rparr>" "set bs \<subseteq> insert row (set (cd_bindings db))"
    and live: "live_binding row \<Longrightarrow> bw_status i = CatalogStatus_Confirmed \<and> bw_enabled i \<and> validate_binding_reference env db i = Ok ()"
    and same: "bi_logical_model_id row = bw_logical_model_id i" "bi_source_id row = bw_source_id i"
  shows "control_inv tx"
proof -
  from assms(1) have inv: "keys_ok db" "one_family db" by (simp_all add: control_inv_def schema_ok_def)
  have fam: "(m, f) \<in> families db \<or> (live_binding row \<and> m = bw_logical_model_id i \<and>
      (\<exists>s \<in> set (cd_sources db). so_id s = bw_source_id i \<and> f = so_provider_preset_id s))" if "(m, f) \<in> families tx" for m f
  proof -
    from that obtain b s where b: "b \<in> set bs" "live_binding b" "s \<in> set (cd_sources db)" "so_id s = bi_source_id b"
      "m = bi_logical_model_id b" "f = so_provider_preset_id s"
      by (auto simp: families_def assms(4))
    show ?thesis
    proof (cases "b = row")
      case True
      with b same show ?thesis by auto
    next
      case False
      with b(1) assms(5) have "b \<in> set (cd_bindings db)" by auto
      with b familiesI [of b db s] show ?thesis by simp
    qed
  qed
  have "one_family tx" unfolding one_family_def
  proof (intro allI impI)
    fix m f g
    assume fg: "(m, f) \<in> families tx" "(m, g) \<in> families tx"
    show "f = g"
    proof (cases "live_binding row \<and> m = bw_logical_model_id i")
      case True
      with live binding_rows_source obtain s where s: "s \<in> set (cd_sources db)" "so_id s = bw_source_id i" by blast
      have "h = so_provider_preset_id s" if "(m, h) \<in> families tx" for h
      proof -
        from fam [OF that] consider "(bw_logical_model_id i, h) \<in> families db"
          | t where "t \<in> set (cd_sources db)" "so_id t = bw_source_id i" "h = so_provider_preset_id t"
          using True by blast
        then show ?thesis
        proof cases
          case 1
          with live True validated_family [OF assms(2) inv _ _ _ s] show ?thesis by blast
        next
          case 2
          with s inv(1) key_unique [of so_id "cd_sources db" t s] show ?thesis by (simp add: keys_ok_def)
        qed
      qed
      with fg show ?thesis by blast
    next
      case False
      with fam fg inv(2) show ?thesis unfolding one_family_def by blast
    qed
  qed
  with assms(1,3,4) routes_inv_cong [of tx db] show ?thesis by (simp add: control_inv_def)
qed

lemma create_model_binding_inv:
  assumes "control_inv db" "pick_ok env" "create_model_binding env now utc bid i db = Ok (tx, b)"
  shows "control_inv tx"
  using assms by (intro control_inv_binding [of db env tx "cd_bindings db @ [b]" b i])
    (auto simp: create_model_binding_def insert_binding_def and_then_Ok constrained_Ok new_binding_row_def live_binding_def)

lemma replace_binding_Ok:
  assumes "replace_binding env row db = Ok tx"
  shows "schema_ok tx" "tx = db\<lparr>cd_bindings := update_rows (\<lambda>b. bi_id b = bi_id row) (\<lambda>_. row) (cd_bindings db)\<rparr>"
  using assms by (auto simp: replace_binding_def and_then_Ok constrained_Ok)

lemma update_model_binding_inv:
  assumes "control_inv db" "pick_ok env" "update_model_binding env now bid i db = Ok (tx, b)"
  shows "control_inv tx"
proof -
  from assms(3) obtain current where ok: "replace_binding env b db = Ok tx" "b = written_binding now i current"
    "validate_binding_reference env db i = Ok ()"
    by (auto simp: update_model_binding_def and_then_Ok)
  note tx = replace_binding_Ok [OF ok(1)]
  show ?thesis
    by (rule control_inv_binding [OF assms(1,2) tx, of b i])
      (use ok in \<open>auto simp: set_update_rows written_binding_def live_binding_def\<close>)
qed

lemma set_model_binding_enabled_inv:
  assumes "control_inv db" "pick_ok env" "set_model_binding_enabled env now bid e db = Ok (tx, b)"
  shows "control_inv tx"
proof -
  from assms(3) obtain existing where ok: "replace_binding env b db = Ok tx" "b = existing\<lparr>bi_enabled := e, bi_updated_at := now\<rparr>"
    "e \<Longrightarrow> validate_binding_reference env db (binding_write_of e existing) = Ok ()"
    by (auto simp: set_model_binding_enabled_def and_then_Ok Let_def split: if_splits)
  note tx = replace_binding_Ok [OF ok(1)]
  show ?thesis
    by (rule control_inv_binding [OF assms(1,2) tx, of b "binding_write_of e existing"])
      (use ok in \<open>auto simp: set_update_rows binding_write_of_def live_binding_def\<close>)
qed

lemma delete_model_binding_inv: "control_inv db \<Longrightarrow> delete_model_binding bid db = Ok (tx, u) \<Longrightarrow> control_inv tx"
proof (rule control_inv_subset [of db])
  assume "control_inv db" and tx: "delete_model_binding bid db = Ok (tx, u)"
  then have "keys_ok tx" "references_ok tx"
    by (auto simp: delete_model_binding_def and_then_Ok control_inv_def schema_ok_def keys_ok_def distinct_map_filter,
        auto simp: delete_model_binding_def and_then_Ok control_inv_def schema_ok_def references_ok_def)
  then show "schema_ok tx" by (simp add: schema_ok_def)
qed (auto simp: delete_model_binding_def and_then_Ok)

section \<open>Routes\<close>

lemma encoded_protocols [simp]:
  "jsonb_exists (encode_protocols ps) (protocol_to_string p) \<longleftrightarrow> p \<in> set ps"
  "decode_protocols (encode_protocols ps) = Some ps"
proof -
  show "jsonb_exists (encode_protocols ps) (protocol_to_string p) \<longleftrightarrow> p \<in> set ps"
    using protocol_to_string_inj by (auto simp: encode_protocols_def)
  have "protocol_of_name (protocol_to_string q) = Some q" for q
    by (cases q) (simp_all add: protocol_of_name_def protocol_ALL_def)
  then show "decode_protocols (encode_protocols ps) = Some ps"
    by (induction ps) (auto simp: decode_protocols_def encode_protocols_def)
qed

lemma validated_no_conflict:
  assumes "validate_route_reference env db w = Ok ()" "rw_enabled w" "p \<in> set (rw_protocols w)"
  shows "route_conflicts db w p = []"
  using assms by (auto simp: validate_route_reference_def limit_one_def split: if_splits)

lemma control_inv_route:
  assumes "control_inv db" "schema_ok tx" "tx = db\<lparr>cd_routes := rs\<rparr>"
    and rs: "\<And>q. q \<in> set rs \<Longrightarrow> q = row \<or> q \<in> set (cd_routes db) \<and> ro_id q \<noteq> ro_id row"
    and row: "ro_protocols row = encode_protocols (rw_protocols w)" "ro_id row = rw_id w" "ro_logical_model_id row = Some (rw_logical_model_id w)"
    and checked: "ro_enabled row \<Longrightarrow> rw_enabled w \<and> validate_route_reference env db w = Ok ()"
  shows "control_inv tx"
proof -
  have no: "\<not> (ro_enabled row \<and> ro_enabled q \<and> ro_logical_model_id q = ro_logical_model_id row \<and>
      jsonb_exists (ro_protocols row) (protocol_to_string p) \<and> jsonb_exists (ro_protocols q) (protocol_to_string p))"
    if "q \<in> set (cd_routes db)" "ro_id q \<noteq> ro_id row" for q p
  proof
    assume h: "ro_enabled row \<and> ro_enabled q \<and> ro_logical_model_id q = ro_logical_model_id row \<and>
      jsonb_exists (ro_protocols row) (protocol_to_string p) \<and> jsonb_exists (ro_protocols q) (protocol_to_string p)"
    with row have "p \<in> set (rw_protocols w)" by simp
    with h checked have "route_conflicts db w p = []" by (intro validated_no_conflict [of env]) simp_all
    with h that row show False by (auto simp: route_conflicts_def filter_empty_conv)
  qed
  have "routes_disjoint db" using assms(1) by (simp add: control_inv_def)
  have "routes_disjoint tx" unfolding routes_disjoint_def
  proof (intro ballI allI impI)
    fix r q m p
    assume "r \<in> set (cd_routes tx)" "q \<in> set (cd_routes tx)"
      and h: "ro_enabled r" "ro_enabled q" "ro_logical_model_id r = Some m" "ro_logical_model_id q = Some m"
      "jsonb_exists (ro_protocols r) (protocol_to_string p)" "jsonb_exists (ro_protocols q) (protocol_to_string p)"
    with rs assms(3) consider "r = row" "q = row" | "r = row" "q \<in> set (cd_routes db)" "ro_id q \<noteq> ro_id row"
      | "q = row" "r \<in> set (cd_routes db)" "ro_id r \<noteq> ro_id row" | "r \<in> set (cd_routes db)" "q \<in> set (cd_routes db)"
      by auto
    then show "ro_id r = ro_id q"
    proof cases
      case 2
      with no [of q p] h show ?thesis by simp
    next
      case 3
      with no [of r p] h show ?thesis by simp
    next
      case 4
      with \<open>routes_disjoint db\<close> h show ?thesis unfolding routes_disjoint_def by blast
    qed simp
  qed
  moreover have "routes_encoded tx" using assms(1) rs row(1) by (auto simp: control_inv_def routes_encoded_def assms(3))
  moreover have "families tx = families db" by (simp add: families_def assms(3))
  then have "one_family tx" using assms(1) by (simp add: control_inv_def one_family_def)
  ultimately show ?thesis using assms(2) by (simp add: control_inv_def)
qed

lemma create_route_inv:
  assumes "control_inv db" "create_route env now i db = Ok (tx, r)"
  shows "control_inv tx"
proof -
  from assms(2) have ok: "rw_id i \<notin> ro_id ` set (cd_routes db)" "validate_route_reference env db i = Ok ()" "schema_ok tx"
    "tx = db\<lparr>cd_routes := cd_routes db @ [new_route_row now i]\<rparr>"
    by (auto simp: create_route_def and_then_Ok ensure_Ok constrained_Ok)
  have "q = new_route_row now i \<or> q \<in> set (cd_routes db) \<and> ro_id q \<noteq> rw_id i" if "q \<in> set (cd_routes db @ [new_route_row now i])" for q
    using that ok(1) by (metis imageI in_set_conv_decomp rotate1.simps(2) set_ConsD set_rotate1)
  note rows = this
  show ?thesis
    by (rule control_inv_route [OF assms(1) ok(3,4), of "new_route_row now i" i env])
      (use rows ok(2) in \<open>auto simp: new_route_row_def\<close>)
qed

lemma update_route_inv:
  assumes "control_inv db" "update_route env now rid i db = Ok (tx, r)"
  shows "control_inv tx"
proof -
  from assms(2) have ok: "validate_route_reference env db i = Ok ()" "schema_ok tx" "rid = rw_id i"
    "tx = db\<lparr>cd_routes := update_rows (\<lambda>r. ro_id r = rid) (written_route now i) (cd_routes db)\<rparr>" "rid \<in> ro_id ` set (cd_routes db)"
    by (auto simp: update_route_def validate_resource_id_def and_then_Ok ensure_Ok constrained_Ok split: if_splits)
  then obtain old where old: "old \<in> set (cd_routes db)" "ro_id old = rid" by auto
  from assms(1) have "distinct (map ro_id (cd_routes db))" by (simp add: control_inv_def schema_ok_def keys_ok_def)
  note rows = update_rows_single [OF this old, of _ "written_route now i"]
  show ?thesis
    by (rule control_inv_route [OF assms(1) ok(2,4), of "written_route now i old" i env])
      (use ok(1,3) old(2) rows in \<open>simp_all add: written_route_def\<close>)
qed

lemma schema_ok_routes:
  assumes "schema_ok db" "\<And>x. P x \<Longrightarrow> ro_id (f x) = ro_id x \<and> ro_logical_model_id (f x) = ro_logical_model_id x"
  shows "schema_ok (db\<lparr>cd_routes := update_rows P f (cd_routes db)\<rparr>)"
proof -
  have "(\<Union>r \<in> set (update_rows P f (cd_routes db)). set_option (ro_logical_model_id r)) =
      (\<Union>r \<in> set (cd_routes db). set_option (ro_logical_model_id r))"
    using assms(2) by (auto simp: set_update_rows)
  with assms show ?thesis by (simp add: schema_ok_def keys_ok_def references_ok_def map_update_rows)
qed

lemma set_route_enabled_inv:
  assumes "control_inv db" "set_route_enabled env now rid e db = Ok (tx, r)"
  shows "control_inv tx"
proof -
  from assms(2) obtain old where old: "old \<in> set (cd_routes db)" "ro_id old = rid" "ro_logical_model_id old \<noteq> None"
    and checked: "e \<Longrightarrow> \<exists>ps. decode_protocols (ro_protocols old) = Some ps \<and> validate_route_reference env db (route_write_of e ps old) = Ok ()"
    and tx: "tx = db\<lparr>cd_routes := update_rows (\<lambda>r. ro_id r = rid) (\<lambda>r. r\<lparr>ro_enabled := e, ro_updated_at := now\<rparr>) (cd_routes db)\<rparr>"
    by (auto simp: set_route_enabled_def fetch_route_tx_def and_then_Ok ok_or_Ok Let_def dest!: find_or_Ok split: if_splits)
  from assms(1) old(1) obtain ps where ps: "ro_protocols old = encode_protocols ps" by (auto simp: control_inv_def routes_encoded_def)
  from assms(1) have "distinct (map ro_id (cd_routes db))" by (simp add: control_inv_def schema_ok_def keys_ok_def)
  note rows = update_rows_single [OF this old(1,2), of _ "\<lambda>r. r\<lparr>ro_enabled := e, ro_updated_at := now\<rparr>"]
  have schema: "schema_ok tx" unfolding tx using assms(1) by (intro schema_ok_routes) (simp_all add: control_inv_def)
  show ?thesis
    by (rule control_inv_route [OF assms(1) schema tx, of "old\<lparr>ro_enabled := e, ro_updated_at := now\<rparr>" "route_write_of e ps old" env])
      (use old ps rows checked in \<open>auto simp: route_write_of_def\<close>)
qed

lemma delete_route_inv: "control_inv db \<Longrightarrow> delete_route rid db = Ok (tx, u) \<Longrightarrow> control_inv tx"
proof (rule control_inv_subset [of db])
  assume "control_inv db" and tx: "delete_route rid db = Ok (tx, u)"
  then have "keys_ok tx" "references_ok tx"
    by (auto simp: delete_route_def and_then_Ok control_inv_def schema_ok_def keys_ok_def distinct_map_filter,
        auto simp: delete_route_def and_then_Ok control_inv_def schema_ok_def references_ok_def)
  then show "schema_ok tx" by (simp add: schema_ok_def)
qed (auto simp: delete_route_def and_then_Ok)

section \<open>A sample control plane\<close>

text \<open>An environment in which every base URL names one public host.\<close>

definition sample_env :: control_env where
  "sample_env =
     \<lparr>ce_reg = adapter_registry, ce_de = (\<lambda>_. []), ce_le = byte_le, ce_parse_url = (\<lambda>_. Some (sample_url ''x.org'')),
      ce_policy = policy_default, ce_pick = hd, ce_constraint = ''constraint''\<rparr>"

lemma sample_env_urls: "validate_persisted_source_urls sample_env db = Ok ()"
proof -
  have "is_ok (validate_base_url (ce_parse_url sample_env) (ce_policy sample_env) v)" for v
    using sample_url_valid [of "sample_url ''x.org''"]
    by (simp add: validate_base_url_def sample_env_def sample_url_def validate_request_url_def and_then_Ok is_ok_iff)
  then have "(case validate_base_url (ce_parse_url sample_env) (ce_policy sample_env) v of Err e \<Rightarrow> f e | Ok _ \<Rightarrow> []) = []" for v and f :: "source_url_policy_error \<Rightarrow> string list"
    by (metis is_ok_iff sum.case(2))
  then show ?thesis by (simp add: validate_persisted_source_urls_def validation_result_def)
qed

lemma sample_pick: "pick_ok sample_env"
  by (simp add: pick_ok_def sample_env_def)

lemma sample_families: "families sample_control_db \<subseteq> {(''l'', ''custom'')}"
  by (auto simp: families_def sample_control_db_def sample_binding_row_def sample_source_def)

lemma sample_control_inv: "control_inv sample_control_db"
proof -
  have "schema_ok sample_control_db" by code_simp
  moreover have "one_family sample_control_db" using sample_families unfolding one_family_def by blast
  moreover have "routes_disjoint sample_control_db" by (simp add: routes_disjoint_def sample_control_db_def)
  moreover have "ro_protocols r = encode_protocols [OpenAiResponses]" if "r \<in> set (cd_routes sample_control_db)" for r
    using that by (simp add: sample_control_db_def encode_protocols_def)
  then have "routes_encoded sample_control_db" unfolding routes_encoded_def by blast
  ultimately show ?thesis by (simp add: control_inv_def)
qed

end
