(* ===== verification/Control_Routing.thy ===== *)
theory Control_Routing
  imports Control_Invariant
begin

text \<open>
  \<open>src/control_plane/model_routing.rs\<close>: writing the whole routing of a model at once. The write
  compiles an ordered list of upstream lines into the model's bindings, one per protocol the line can
  serve, and one route; the view reads such a list back from the bindings.

  \<open>seq\<close> gives the ids the binding sequence yields, in order; \<open>fresh_route\<close> is the id made from a new
  UUID, used when the model has no route yet.
\<close>

section \<open>Inputs and views\<close>

record routing_line =
  rl_source_id :: string
  rl_account_id :: string
  rl_upstream_model_id :: string

record model_routing_write =
  mr_public_name :: string
  mr_display_name :: string
  mr_enabled :: bool
  mr_lines :: "routing_line list"
  mr_request_timeout_ms :: "i64 option"
  mr_max_retries :: "i32 option"

record routing_line_view =
  lv_line :: routing_line
  lv_protocols :: "protocol list"

record model_routing_view =
  mv_logical_model :: logical_model_row
  mv_lines :: "routing_line_view list"
  mv_protocols :: "protocol list"
  mv_strategy :: string
  mv_request_timeout_ms :: "i64 option"
  mv_max_retries :: "i32 option"

section \<open>Validation\<close>

definition line_label :: "nat \<Rightarrow> string" where
  "line_label position = ''lines['' @ show_nat position @ '']''"

text \<open>The errors of the lines from \<open>position\<close> on, when the lines \<open>seen\<close> came before them.\<close>

fun line_errors :: "routing_line list \<Rightarrow> nat \<Rightarrow> routing_line list \<Rightarrow> string list" where
  "line_errors seen position [] = []"
| "line_errors seen position (line # lines) =
     error_if (trim (rl_source_id line) = [] \<or> trim (rl_account_id line) = [] \<or> trim (rl_upstream_model_id line) = [])
       (line_label position @ '' source, account and upstream model are required'') @
     error_if (line \<in> set seen) (line_label position @ '' duplicates an upstream line'') @
     line_errors (line # seen) (Suc position) lines"

definition routing_model_write :: "string \<Rightarrow> model_routing_write \<Rightarrow> logical_model_write" where
  "routing_model_write mid i =
     \<lparr>lw_id = mid, lw_public_name = mr_public_name i, lw_display_name = mr_display_name i,
      lw_status = CatalogStatus_Confirmed, lw_metadata = JObject [], lw_field_sources = JObject [],
      lw_enabled = mr_enabled i\<rparr>"

definition validate_model_routing :: "string \<Rightarrow> model_routing_write \<Rightarrow> (unit, control_plane_error) result" where
  "validate_model_routing mid i =
     and_then (validate_logical_model_input (routing_model_write mid i)) (\<lambda>_.
       validation_result
        (error_if (mr_enabled i \<and> mr_lines i = []) ''an enabled logical model requires at least one upstream line'' @
         error_if (case mr_request_timeout_ms i of Some v \<Rightarrow> sint v \<le> 0 | None \<Rightarrow> False)
           ''request_timeout_ms must be a positive integer or null'' @
         error_if (case mr_max_retries i of Some v \<Rightarrow> sint v < 0 | None \<Rightarrow> False)
           ''max_retries must be a nonnegative integer or null'' @
         line_errors [] 0 (mr_lines i)))"

section \<open>The view\<close>

definition left_join :: "'a list \<Rightarrow> 'a option list" where
  "left_join xs = (if xs = [] then [None] else map Some xs)"

definition routable_binding ::
  "control_db \<Rightarrow> binding_row \<Rightarrow> source_row \<Rightarrow> account_row \<Rightarrow> source_model_row option \<Rightarrow> capability_row option \<Rightarrow> bool" where
  "routable_binding db b s a sm cap \<longleftrightarrow>
     bi_enabled b \<and> bi_status b = CatalogStatus_Confirmed \<and> so_enabled s \<and> ar_enabled a \<and>
     (case sm of None \<Rightarrow> False
      | Some sm \<Rightarrow> sm_confirmation_status sm = CatalogStatus_Confirmed \<and> sm_availability_status sm = CatalogAvailability_Available) \<and>
     (case cap of None \<Rightarrow> False | Some cap \<Rightarrow> sc_status cap = CatalogStatus_Confirmed \<and> is_routable (sc_mode cap)) \<and>
     (\<exists>r \<in> set (cd_routes db). ro_logical_model_id r = Some (bi_logical_model_id b) \<and> ro_enabled r \<and>
        jsonb_exists (ro_protocols r) (protocol_to_string (bi_protocol b)))"

definition routing_join :: "control_db \<Rightarrow> string \<Rightarrow> (binding_row \<times> bool) list" where
  "routing_join db mid =
     [(b, routable_binding db b s a sm cap).
        b \<leftarrow> cd_bindings db, bi_logical_model_id b = mid,
        s \<leftarrow> cd_sources db, so_id s = bi_source_id b,
        a \<leftarrow> cd_accounts db, ar_id a = bi_account_id b \<and> ar_source_id a = bi_source_id b,
        sm \<leftarrow> left_join (filter (\<lambda>m. source_model_key m = (bi_source_id b, bi_upstream_model_id b)) (cd_source_models db)),
        cap \<leftarrow> left_join (filter (\<lambda>c. capability_key c = (bi_source_id b, bi_upstream_model_id b, bi_protocol b)) (cd_capabilities db))]"

definition routing_le :: "binding_row \<times> bool \<Rightarrow> binding_row \<times> bool \<Rightarrow> bool" where
  "routing_le x y \<longleftrightarrow>
     sint (bi_priority (fst y)) < sint (bi_priority (fst x)) \<or>
     sint (bi_priority (fst x)) = sint (bi_priority (fst y)) \<and> sint (bi_id (fst x)) \<le> sint (bi_id (fst y))"

definition binding_line :: "binding_row \<Rightarrow> routing_line" where
  "binding_line b =
     \<lparr>rl_source_id = bi_source_id b, rl_account_id = bi_account_id b, rl_upstream_model_id = bi_upstream_model_id b\<rparr>"

definition line_protocols_of :: "routing_line \<Rightarrow> routing_line_view list \<Rightarrow> protocol list" where
  "line_protocols_of line lines =
     (case List.find (\<lambda>v. lv_line v = line) lines of Some v \<Rightarrow> lv_protocols v | None \<Rightarrow> [])"

definition push_if_new :: "'a \<Rightarrow> 'a list \<Rightarrow> 'a list" where
  "push_if_new x xs = (if x \<in> set xs then xs else xs @ [x])"

definition add_routing_row ::
  "routing_line_view list \<times> protocol list \<Rightarrow> binding_row \<times> bool \<Rightarrow> routing_line_view list \<times> protocol list" where
  "add_routing_row acc row =
     (let (lines, protocols) = acc; (b, routable) = row;
          add = (\<lambda>v. if routable then v\<lparr>lv_protocols := push_if_new (bi_protocol b) (lv_protocols v)\<rparr> else v)
      in (update_first_or_push (\<lambda>v. lv_line v = binding_line b) add (add \<lparr>lv_line = binding_line b, lv_protocols = []\<rparr>) lines,
          if routable \<and> bi_protocol b \<notin> set (line_protocols_of (binding_line b) lines)
          then push_if_new (bi_protocol b) protocols else protocols))"

definition sort_protocols :: "protocol list \<Rightarrow> protocol list" where
  "sort_protocols = sort_key protocol_to_string"

definition routing_strategy :: "control_env \<Rightarrow> control_db \<Rightarrow> string \<Rightarrow> string" where
  "routing_strategy env db mid =
     (case sort_by (ce_le env) (remdups (map ro_strategy (filter (\<lambda>r. ro_logical_model_id r = Some mid) (cd_routes db)))) of
        [] \<Rightarrow> ''ordered_fallback'' | [s] \<Rightarrow> s | _ \<Rightarrow> ''mixed'')"

definition fetch_model_routing_tx ::
  "control_env \<Rightarrow> string \<Rightarrow> control_db \<Rightarrow> (model_routing_view, control_plane_error) result" where
  "fetch_model_routing_tx env mid db =
     and_then (fetch_logical_model_tx mid db) (\<lambda>lm.
       let (lines, protocols) = foldl add_routing_row ([], []) (sort_by routing_le (routing_join db mid)) in
       Ok \<lparr>mv_logical_model = lm, mv_lines = map (\<lambda>v. v\<lparr>lv_protocols := sort_protocols (lv_protocols v)\<rparr>) lines,
           mv_protocols = sort_protocols protocols, mv_strategy = routing_strategy env db mid,
           mv_request_timeout_ms = lm_request_timeout_ms lm, mv_max_retries = lm_max_retries lm\<rparr>)"

section \<open>The write\<close>

definition line_protocols :: "control_db \<Rightarrow> routing_line \<Rightarrow> protocol list" where
  "line_protocols db line =
     sort [sc_protocol cap.
       cap \<leftarrow> cd_capabilities db, sc_source_id cap = rl_source_id line \<and> sc_upstream_model_id cap = rl_upstream_model_id line \<and>
         sc_status cap = CatalogStatus_Confirmed \<and> is_routable (sc_mode cap),
       sm \<leftarrow> cd_source_models db, source_model_key sm = (sc_source_id cap, sc_upstream_model_id cap) \<and>
         sm_confirmation_status sm = CatalogStatus_Confirmed \<and> sm_availability_status sm = CatalogAvailability_Available,
       s \<leftarrow> cd_sources db, so_id s = sc_source_id cap \<and> so_enabled s,
       a \<leftarrow> cd_accounts db, ar_id a = rl_account_id line \<and> ar_source_id a = so_id s \<and> ar_enabled a]"

definition line_binding :: "string \<Rightarrow> nat \<Rightarrow> routing_line \<Rightarrow> protocol \<Rightarrow> binding_write" where
  "line_binding mid position line p =
     \<lparr>bw_logical_model_id = mid, bw_source_id = rl_source_id line, bw_account_id = rl_account_id line,
      bw_upstream_model_id = rl_upstream_model_id line, bw_protocol = p, bw_status = CatalogStatus_Confirmed,
      bw_enabled = True, bw_priority = - of_nat position\<rparr>"

type_synonym routing_state = "control_db \<times> nat \<times> protocol list"

fun write_protocols ::
  "control_env \<Rightarrow> date_time \<Rightarrow> (nat \<Rightarrow> i64) \<Rightarrow> string \<Rightarrow> nat \<Rightarrow> routing_line \<Rightarrow> protocol list \<Rightarrow> routing_state
   \<Rightarrow> (routing_state, control_plane_error) result" where
  "write_protocols env now seq mid position line [] st = Ok st"
| "write_protocols env now seq mid position line (p # ps) (tx, n, protocols) =
     and_then (validate_binding_reference env tx (line_binding mid position line p)) (\<lambda>_.
     and_then (insert_binding env (new_binding_row now now (seq n) (line_binding mid position line p)) tx) (\<lambda>tx.
       write_protocols env now seq mid position line ps (tx, Suc n, push_if_new p protocols)))"

fun write_lines ::
  "control_env \<Rightarrow> date_time \<Rightarrow> (nat \<Rightarrow> i64) \<Rightarrow> string \<Rightarrow> nat \<Rightarrow> routing_line list \<Rightarrow> routing_state
   \<Rightarrow> (routing_state, control_plane_error) result" where
  "write_lines env now seq mid position [] st = Ok st"
| "write_lines env now seq mid position (line # lines) st =
     (let ps = line_protocols (fst st) line in
      and_then (ensure (ps \<noteq> []) (CpValidation [line_label position @
        '' requires an enabled source/account and a confirmed available source model with a confirmed routable protocol''])) (\<lambda>_.
      and_then (write_protocols env now seq mid position line ps st) (\<lambda>st.
        write_lines env now seq mid (Suc position) lines st)))"

text \<open>
  The status of the model after the write, and the transitions that lead to it: an unavailable model
  with lines is moved to pending first.
\<close>

definition next_model_status :: "model_routing_write \<Rightarrow> catalog_status option \<Rightarrow> catalog_status" where
  "next_model_status i current =
     (if mr_lines i = [] then unwrap_or CatalogStatus_Confirmed current else CatalogStatus_Confirmed)"

definition reconfirm :: "string \<Rightarrow> catalog_status option \<Rightarrow> catalog_status \<Rightarrow> control_db \<Rightarrow> (control_db, control_plane_error) result" where
  "reconfirm mid current next_status db =
     (case current of
        None \<Rightarrow> Ok db
      | Some status \<Rightarrow>
          if status = CatalogStatus_Unavailable \<and> next_status = CatalogStatus_Confirmed
          then and_then (validate_status_transition status CatalogStatus_Pending ''logical model'') (\<lambda>_.
               and_then (validate_status_transition CatalogStatus_Pending next_status ''logical model'') (\<lambda>_.
                 Ok (db\<lparr>cd_logical_models := update_rows (\<lambda>m. lm_id m = mid) (\<lambda>m. m\<lparr>lm_status := CatalogStatus_Pending\<rparr>)
                          (cd_logical_models db)\<rparr>)))
          else and_then (validate_status_transition status next_status ''logical model'') (\<lambda>_. Ok db))"

definition inserted_model :: "date_time \<Rightarrow> string \<Rightarrow> model_routing_write \<Rightarrow> catalog_status \<Rightarrow> logical_model_row" where
  "inserted_model now mid i status =
     \<lparr>lm_id = mid, lm_public_name = mr_public_name i, lm_display_name = mr_display_name i, lm_status = status,
      lm_metadata = JObject [], lm_field_sources = JObject [], lm_enabled = True,
      lm_request_timeout_ms = mr_request_timeout_ms i, lm_max_retries = mr_max_retries i,
      lm_confirmed_at = (if status = CatalogStatus_Confirmed then Some now else None),
      lm_unavailable_at = (if status = CatalogStatus_Unavailable then Some now else None),
      lm_created_at = now, lm_updated_at = now\<rparr>"

definition rewritten_model :: "date_time \<Rightarrow> model_routing_write \<Rightarrow> catalog_status \<Rightarrow> logical_model_row \<Rightarrow> logical_model_row" where
  "rewritten_model now i status m =
     m\<lparr>lm_public_name := mr_public_name i, lm_display_name := mr_display_name i, lm_status := status, lm_enabled := True,
       lm_confirmed_at := confirmed_at_after now status (lm_confirmed_at m),
       lm_unavailable_at := (if status = CatalogStatus_Unavailable then lm_unavailable_at m else None),
       lm_request_timeout_ms := mr_request_timeout_ms i, lm_max_retries := mr_max_retries i, lm_updated_at := now\<rparr>"

definition write_model ::
  "control_env \<Rightarrow> date_time \<Rightarrow> string \<Rightarrow> model_routing_write \<Rightarrow> bool \<Rightarrow> catalog_status \<Rightarrow> control_db \<Rightarrow> (control_db, control_plane_error) result" where
  "write_model env now mid i create status db =
     constrained env (db\<lparr>cd_logical_models :=
       (if create then cd_logical_models db @ [inserted_model now mid i status]
        else update_rows (\<lambda>m. lm_id m = mid) (rewritten_model now i status) (cd_logical_models db))\<rparr>)"

definition clear_routing :: "string \<Rightarrow> control_db \<Rightarrow> control_db" where
  "clear_routing mid db =
     db\<lparr>cd_routes := filter (\<lambda>r. ro_logical_model_id r \<noteq> Some mid) (cd_routes db),
        cd_bindings := filter (\<lambda>b. bi_logical_model_id b \<noteq> mid) (cd_bindings db)\<rparr>"

definition kept_route_id :: "control_env \<Rightarrow> string \<Rightarrow> string \<Rightarrow> control_db \<Rightarrow> string" where
  "kept_route_id env fresh_route mid db =
     (case sort_by (ce_le env) (map ro_id (filter (\<lambda>r. ro_logical_model_id r = Some mid) (cd_routes db))) of
        [] \<Rightarrow> fresh_route | rid # _ \<Rightarrow> rid)"

definition routing_route :: "string \<Rightarrow> string \<Rightarrow> protocol list \<Rightarrow> route_write" where
  "routing_route rid mid protocols =
     \<lparr>rw_id = rid, rw_logical_model_id = mid, rw_protocols = protocols, rw_strategy = ''ordered_fallback'',
      rw_allow_lossy_conversion = False, rw_enabled = True\<rparr>"

definition write_routing_route ::
  "control_env \<Rightarrow> date_time \<Rightarrow> string \<Rightarrow> string \<Rightarrow> protocol list \<Rightarrow> control_db \<Rightarrow> (control_db, control_plane_error) result" where
  "write_routing_route env now rid mid protocols db =
     (if protocols = [] then Ok db
      else and_then (validate_route_reference env db (routing_route rid mid protocols)) (\<lambda>_.
        constrained env (db\<lparr>cd_routes := cd_routes db @ [new_route_row now (routing_route rid mid protocols)]\<rparr>)))"

definition enable_model :: "string \<Rightarrow> bool \<Rightarrow> control_db \<Rightarrow> control_db" where
  "enable_model mid enabled db =
     db\<lparr>cd_logical_models := update_rows (\<lambda>m. lm_id m = mid) (\<lambda>m. m\<lparr>lm_enabled := enabled\<rparr>) (cd_logical_models db)\<rparr>"

definition write_model_routing ::
  "control_env \<Rightarrow> date_time \<Rightarrow> (nat \<Rightarrow> i64) \<Rightarrow> string \<Rightarrow> string \<Rightarrow> model_routing_write \<Rightarrow> bool \<Rightarrow> control_db
   \<Rightarrow> (control_db \<times> model_routing_view, control_plane_error) result" where
  "write_model_routing env now seq fresh_route mid i create db =
     and_then (validate_model_routing mid i) (\<lambda>_.
     let current = map_option lm_status (List.find (\<lambda>m. lm_id m = mid) (cd_logical_models db));
         status = next_model_status i current in
     and_then (ensure (create \<or> current \<noteq> None) (model_missing mid)) (\<lambda>_.
     and_then (reconfirm mid current status db) (\<lambda>tx.
     and_then (write_model env now mid i create status tx) (\<lambda>tx.
     let rid = kept_route_id env fresh_route mid tx in
     and_then (write_lines env now seq mid 0 (mr_lines i) (clear_routing mid tx, 0, [])) (\<lambda>(tx, _, protocols).
     and_then (write_routing_route env now rid mid (sort_protocols protocols) tx) (\<lambda>tx.
     let tx = enable_model mid (mr_enabled i) tx in
     and_then (fetch_model_routing_tx env mid tx) (\<lambda>view. Ok (tx, view))))))))"

definition fresh_route_id :: "string \<Rightarrow> string" where
  "fresh_route_id uuid = ''model-routing-'' @ uuid"

definition create_model_routing ::
  "control_env \<Rightarrow> date_time \<Rightarrow> (nat \<Rightarrow> i64) \<Rightarrow> string \<Rightarrow> string \<Rightarrow> model_routing_write \<Rightarrow> control_db
   \<Rightarrow> (control_db \<times> model_routing_view, control_plane_error) result" where
  "create_model_routing env now seq uuid fresh_route i db =
     write_model_routing env now seq fresh_route (''model-'' @ uuid) i True db"

definition put_model_routing ::
  "control_env \<Rightarrow> date_time \<Rightarrow> (nat \<Rightarrow> i64) \<Rightarrow> string \<Rightarrow> string \<Rightarrow> model_routing_write \<Rightarrow> control_db
   \<Rightarrow> (control_db \<times> model_routing_view, control_plane_error) result" where
  "put_model_routing env now seq fresh_route mid i db = write_model_routing env now seq fresh_route mid i False db"

section \<open>The invariant\<close>

lemma reconfirm_Ok:
  assumes "reconfirm mid current status db = Ok tx"
  shows "\<exists>f. tx = db\<lparr>cd_logical_models := update_rows (\<lambda>m. lm_id m = mid) f (cd_logical_models db)\<rparr> \<and>
    (\<forall>m. lm_id (f m) = lm_id m \<and> lm_public_name (f m) = lm_public_name m)"
proof -
  have "tx = db \<or> tx = db\<lparr>cd_logical_models := update_rows (\<lambda>m. lm_id m = mid) (\<lambda>m. m\<lparr>lm_status := CatalogStatus_Pending\<rparr>)
      (cd_logical_models db)\<rparr>"
    using assms by (auto simp: reconfirm_def and_then_Ok split: option.splits if_splits)
  then show ?thesis
  proof
    assume "tx = db"
    then show ?thesis by (intro exI [of _ id]) (simp add: update_rows_def id_def)
  next
    assume "tx = db\<lparr>cd_logical_models := update_rows (\<lambda>m. lm_id m = mid) (\<lambda>m. m\<lparr>lm_status := CatalogStatus_Pending\<rparr>)
      (cd_logical_models db)\<rparr>"
    then show ?thesis by (intro exI [of _ "\<lambda>m. m\<lparr>lm_status := CatalogStatus_Pending\<rparr>"]) simp
  qed
qed

lemma reconfirm_inv:
  assumes "control_inv db" "reconfirm mid current status db = Ok tx"
  shows "control_inv tx"
proof -
  from reconfirm_Ok [OF assms(2)] obtain f where f: "tx = db\<lparr>cd_logical_models := update_rows (\<lambda>m. lm_id m = mid) f (cd_logical_models db)\<rparr>"
    "\<And>m. lm_id (f m) = lm_id m \<and> lm_public_name (f m) = lm_public_name m" by blast
  show ?thesis
    by (rule control_inv_accounts [OF assms(1)]) (use assms(1) f schema_ok_models [of db _ f] in \<open>simp_all add: control_inv_def\<close>)
qed

lemma write_model_inv: "control_inv db \<Longrightarrow> write_model env now mid i create status db = Ok tx \<Longrightarrow> control_inv tx"
  by (rule control_inv_accounts [of db]) (auto simp: write_model_def constrained_Ok)

lemma clear_routing_inv:
  assumes "control_inv db"
  shows "control_inv (clear_routing mid db)"
proof (rule control_inv_subset [OF assms])
  from assms have "keys_ok db" "references_ok db" by (auto simp: control_inv_def schema_ok_def)
  then have "keys_ok (clear_routing mid db)" "references_ok (clear_routing mid db)"
    by (simp add: clear_routing_def keys_ok_def distinct_map_filter, auto simp: clear_routing_def references_ok_def)
  then show "schema_ok (clear_routing mid db)" by (simp add: schema_ok_def)
qed (auto simp: clear_routing_def)

lemma insert_binding_Ok:
  assumes "insert_binding env row db = Ok tx"
  shows "schema_ok tx" "tx = db\<lparr>cd_bindings := cd_bindings db @ [row]\<rparr>"
  using assms by (auto simp: insert_binding_def and_then_Ok constrained_Ok)

lemma insert_line_inv:
  assumes "control_inv db" "pick_ok env" "validate_binding_reference env db (line_binding mid position line p) = Ok ()"
    and "insert_binding env (new_binding_row now now bid (line_binding mid position line p)) db = Ok tx"
  shows "control_inv tx"
  by (rule control_inv_binding [OF assms(1,2) insert_binding_Ok [OF assms(4)], of "new_binding_row now now bid (line_binding mid position line p)"
        "line_binding mid position line p"])
    (use assms(3) in \<open>auto simp: new_binding_row_def line_binding_def\<close>)

lemma write_protocols_inv:
  assumes "write_protocols env now seq mid position line ps st = Ok st'" "control_inv (fst st)" "pick_ok env"
  shows "control_inv (fst st')"
  using assms
proof (induction env now seq mid position line ps st rule: write_protocols.induct)
  case (2 env now seq mid position line p ps tx n protocols)
  then show ?case by (auto simp: and_then_Ok dest: insert_line_inv)
qed simp

lemma write_lines_inv:
  assumes "write_lines env now seq mid position lines st = Ok st'" "control_inv (fst st)" "pick_ok env"
  shows "control_inv (fst st')"
  using assms
proof (induction lines arbitrary: position st)
  case (Cons line lines)
  then show ?case by (auto simp: and_then_Ok Let_def dest!: write_protocols_inv)
qed simp

lemma write_routing_route_inv:
  assumes "control_inv db" "write_routing_route env now rid mid protocols db = Ok tx"
  shows "control_inv tx"
proof (cases "protocols = []")
  case False
  let ?w = "routing_route rid mid protocols"
  from assms(2) False have ok: "validate_route_reference env db ?w = Ok ()" "schema_ok tx"
    "tx = db\<lparr>cd_routes := cd_routes db @ [new_route_row now ?w]\<rparr>"
    by (auto simp: write_routing_route_def and_then_Ok constrained_Ok)
  then have fresh: "ro_id q \<noteq> rid" if "q \<in> set (cd_routes db)" for q
    using that by (auto simp: schema_ok_def keys_ok_def new_route_row_def routing_route_def)
  show ?thesis
    by (rule control_inv_route [OF assms(1) ok(2,3), of "new_route_row now ?w" ?w env])
      (use ok(1) fresh in \<open>auto simp: new_route_row_def routing_route_def\<close>)
qed (use assms in \<open>simp add: write_routing_route_def\<close>)

lemma enable_model_inv:
  assumes "control_inv db"
  shows "control_inv (enable_model mid e db)"
  by (rule control_inv_accounts [OF assms])
    (use assms schema_ok_models [of db _ "\<lambda>m. m\<lparr>lm_enabled := e\<rparr>"] in \<open>simp_all add: enable_model_def control_inv_def\<close>)

text \<open>The stages of an accepted write.\<close>

lemma write_model_routing_stages:
  assumes "write_model_routing env now seq fresh_route mid i create db = Ok (tx, view)"
  obtains tx1 tx2 tx3 n protocols tx4 status where "validate_model_routing mid i = Ok ()"
    "reconfirm mid (map_option lm_status (List.find (\<lambda>m. lm_id m = mid) (cd_logical_models db))) status db = Ok tx1"
    "write_model env now mid i create status tx1 = Ok tx2"
    "write_lines env now seq mid 0 (mr_lines i) (clear_routing mid tx2, 0, []) = Ok (tx3, n, protocols)"
    "write_routing_route env now (kept_route_id env fresh_route mid tx2) mid (sort_protocols protocols) tx3 = Ok tx4"
    "tx = enable_model mid (mr_enabled i) tx4" "fetch_model_routing_tx env mid tx = Ok view"
    "create \<or> List.find (\<lambda>m. lm_id m = mid) (cd_logical_models db) \<noteq> None"
  using assms by (auto simp: write_model_routing_def and_then_Ok Let_def ensure_Ok)

lemma write_model_routing_inv:
  assumes "control_inv db" "pick_ok env" "write_model_routing env now seq fresh_route mid i create db = Ok (tx, view)"
  shows "control_inv tx"
  using assms(3)
proof (cases rule: write_model_routing_stages)
  case (1 tx1 tx2 tx3 n protocols tx4 status)
  from clear_routing_inv [OF write_model_inv [OF reconfirm_inv [OF assms(1) 1(2)] 1(3)]] write_lines_inv [OF 1(4)] assms(2)
  have "control_inv tx3" by simp
  from enable_model_inv [OF write_routing_route_inv [OF this 1(5)]] 1(6) show ?thesis by simp
qed

section \<open>What is read back\<close>

text \<open>The distinct elements of a list in the order of their first occurrences.\<close>

definition firsts :: "'a list \<Rightarrow> 'a list" where
  "firsts xs = foldl (\<lambda>acc x. push_if_new x acc) [] xs"

lemma firsts_simps [simp]: "firsts [] = []" "firsts (xs @ [x]) = push_if_new x (firsts xs)"
  by (simp_all add: firsts_def)

lemma set_push_if_new [simp]: "set (push_if_new x xs) = insert x (set xs)"
  by (auto simp: push_if_new_def)

lemma set_firsts [simp]: "set (firsts xs) = set xs"
  by (induction xs rule: rev_induct) auto

lemma distinct_push_if_new [simp]: "distinct xs \<Longrightarrow> distinct (push_if_new x xs)"
  by (simp add: push_if_new_def)

lemma distinct_firsts [simp]: "distinct (firsts xs)"
  by (induction xs rule: rev_induct) simp_all

lemma sorted_firsts:
  fixes f :: "'a \<Rightarrow> 'b :: linorder"
  shows "sorted (map f xs) \<Longrightarrow> sorted (map f (firsts xs))"
  by (induction xs rule: rev_induct) (auto simp: push_if_new_def sorted_append)

text \<open>A list ordered by positions shows its distinct elements in the order of the positions.\<close>

lemma firsts_by_position:
  assumes "distinct ys" "set xs = set ys" "sorted (map pos xs)" "\<And>k. k < length ys \<Longrightarrow> pos (ys ! k) = k"
  shows "firsts xs = ys"
proof -
  have map_ys: "map pos ys = [0..<length ys]" using assms(4) by (intro nth_equalityI) simp_all
  then have "distinct (map pos ys)" "sorted (map pos ys)" by simp_all
  then have inj: "inj_on pos (set ys)" by (simp add: distinct_map)
  have "map pos (firsts xs) = map pos ys"
  proof (rule sorted_distinct_set_unique)
    show "distinct (map pos (firsts xs))" using inj assms(2) by (simp add: distinct_map)
  qed (use assms \<open>sorted (map pos ys)\<close> \<open>distinct (map pos ys)\<close> sorted_firsts in simp_all)
  with inj assms(2) show ?thesis by (intro map_inj_on [of pos]) simp_all
qed

text \<open>The lines of the view are those of the rows, each with the protocols of its routable rows.\<close>

lemma routing_fold:
  defines "acc rows \<equiv> foldl add_routing_row ([], []) rows"
  shows "map lv_line (fst (acc rows)) = firsts (map (\<lambda>x. binding_line (fst x)) rows) \<and>
    (\<forall>v \<in> set (fst (acc rows)). distinct (lv_protocols v) \<and>
       set (lv_protocols v) = {bi_protocol b | b. (b, True) \<in> set rows \<and> binding_line b = lv_line v})"
proof (induction rows rule: rev_induct)
  case Nil
  show ?case by (simp add: acc_def)
next
  case (snoc row rows)
  obtain b routable where row: "row = (b, routable)" by (cases row)
  let ?lines = "fst (acc rows)"
  let ?add = "\<lambda>v. if routable then v\<lparr>lv_protocols := push_if_new (bi_protocol b) (lv_protocols v)\<rparr> else v"
  let ?new = "\<lparr>lv_line = binding_line b, lv_protocols = []\<rparr>"
  have dist: "distinct (map lv_line ?lines)" using snoc by simp
  have known: "binding_line b \<in> lv_line ` set ?lines \<longleftrightarrow> binding_line b \<in> (\<lambda>x. binding_line (fst x)) ` set rows"
    using snoc by (metis list.set_map set_firsts)
  have step: "fst (acc (rows @ [row])) =
      (if binding_line b \<in> lv_line ` set ?lines then map (\<lambda>v. if lv_line v = binding_line b then ?add v else v) ?lines
       else ?lines @ [?add ?new])"
  proof -
    have "fst (add_routing_row a (b, routable)) =
        update_first_or_push (\<lambda>v. lv_line v = binding_line b) ?add (?add ?new) (fst a)" for a
      by (cases a) (simp add: add_routing_row_def Let_def)
    then have "fst (acc (rows @ [row])) = update_first_or_push (\<lambda>v. lv_line v = binding_line b) ?add (?add ?new) ?lines"
      by (simp only: acc_def row foldl_append foldl.simps)
    with update_first_or_push_key [OF dist, of "\<lambda>v. lv_line v = binding_line b" "binding_line b" ?add "?add ?new"] show ?thesis by simp
  qed
  have "map lv_line (fst (acc (rows @ [row]))) =
      (if binding_line b \<in> set (map lv_line ?lines) then map lv_line ?lines else map lv_line ?lines @ [binding_line b])"
    by (auto simp: step)
  then have keys: "map lv_line (fst (acc (rows @ [row]))) = firsts (map (\<lambda>x. binding_line (fst x)) (rows @ [row]))"
    using snoc by (simp add: row push_if_new_def)
  have "distinct (lv_protocols v) \<and>
      set (lv_protocols v) = {bi_protocol c | c. (c, True) \<in> set (rows @ [row]) \<and> binding_line c = lv_line v}"
    if v: "v \<in> set (fst (acc (rows @ [row])))" for v
  proof (cases "binding_line b \<in> lv_line ` set ?lines")
    case True
    with v have "v \<in> set (map (\<lambda>v. if lv_line v = binding_line b then ?add v else v) ?lines)" by (simp only: step if_True)
    then obtain u where u: "u \<in> set ?lines" "v = (if lv_line u = binding_line b then ?add u else u)"
      by (simp only: set_map image_iff) blast
    with snoc have "distinct (lv_protocols u)" "set (lv_protocols u) = {bi_protocol c | c. (c, True) \<in> set rows \<and> binding_line c = lv_line u}"
      by blast+
    with u(2) show ?thesis by (cases routable; cases "lv_line u = binding_line b") (auto simp: row)
  next
    case False
    with v have "v \<in> set ?lines \<or> v = ?add ?new" by (auto simp add: step split del: if_split)
    moreover have "lv_line v \<noteq> binding_line b" if "v \<in> set ?lines" using that False by (metis image_eqI)
    ultimately consider "v \<in> set ?lines" "lv_line v \<noteq> binding_line b" | "v = ?add ?new" by blast
    then show ?thesis
    proof cases
      case 1
      with snoc show ?thesis by (auto simp: row)
    next
      case 2
      from False known have "binding_line c \<noteq> binding_line b" if "(c, True) \<in> set rows" for c
        using that by (metis (mono_tags, lifting) fst_conv image_eqI)
      with 2 show ?thesis by (auto simp: row push_if_new_def)
    qed
  qed
  with keys show ?case by blast
qed

text \<open>The bindings a line is compiled to.\<close>

definition compiled :: "string \<Rightarrow> nat \<Rightarrow> routing_line \<Rightarrow> binding_row \<Rightarrow> bool" where
  "compiled mid k line b \<longleftrightarrow>
     bi_logical_model_id b = mid \<and> binding_line b = line \<and> bi_priority b = - of_nat k \<and> live_binding b"

lemma compiled_new [simp]: "compiled mid k line (new_binding_row now utc bid (line_binding mid k line p))"
  by (simp add: compiled_def new_binding_row_def line_binding_def binding_line_def live_binding_def)

lemma new_line_protocol [simp]: "bi_protocol (new_binding_row now utc bid (line_binding mid k line p)) = p"
  by (simp add: new_binding_row_def line_binding_def)

lemma line_protocols_bindings [simp]: "line_protocols (db\<lparr>cd_bindings := bs\<rparr>) line = line_protocols db line"
  by (simp add: line_protocols_def cong: if_cong)

lemma write_protocols_rows:
  assumes "write_protocols env now seq mid k line ps (tx, n, protocols) = Ok (tx', n', protocols')"
  shows "\<exists>rows. tx' = tx\<lparr>cd_bindings := cd_bindings tx @ rows\<rparr> \<and> map bi_protocol rows = ps \<and> list_all (compiled mid k line) rows"
    and "set protocols' = set protocols \<union> set ps"
  using assms
proof (induction ps arbitrary: tx n protocols)
  case (Cons p ps)
  { case 1
    then obtain tx1 where step: "insert_binding env (new_binding_row now now (seq n) (line_binding mid k line p)) tx = Ok tx1"
      "write_protocols env now seq mid k line ps (tx1, Suc n, push_if_new p protocols) = Ok (tx', n', protocols')"
      by (auto simp: and_then_Ok)
    from Cons.IH(1) [OF step(2)] obtain rows where rows: "tx' = tx1\<lparr>cd_bindings := cd_bindings tx1 @ rows\<rparr>"
      "map bi_protocol rows = ps" "list_all (compiled mid k line) rows" by blast
    show ?case
      by (rule exI [of _ "new_binding_row now now (seq n) (line_binding mid k line p) # rows"])
        (use rows insert_binding_Ok(2) [OF step(1)] in simp) }
  { case 2
    then obtain tx1 where "write_protocols env now seq mid k line ps (tx1, Suc n, push_if_new p protocols) = Ok (tx', n', protocols')"
      by (auto simp: and_then_Ok)
    from Cons.IH(2) [OF this] show ?case by auto }
qed simp_all

text \<open>What compiling the lines leaves: new bindings only, all of some line, and all protocols of every line.\<close>

definition lines_compiled :: "control_db \<Rightarrow> string \<Rightarrow> nat \<Rightarrow> routing_line list \<Rightarrow> binding_row list \<Rightarrow> bool" where
  "lines_compiled db mid k lines rows \<longleftrightarrow>
     (\<forall>b \<in> set rows. \<exists>j < length lines. compiled mid (k + j) (lines ! j) b \<and> bi_protocol b \<in> set (line_protocols db (lines ! j))) \<and>
     (\<forall>j < length lines. line_protocols db (lines ! j) \<noteq> [] \<and>
        (\<forall>p \<in> set (line_protocols db (lines ! j)). \<exists>b \<in> set rows. compiled mid (k + j) (lines ! j) b \<and> bi_protocol b = p))"

lemma lines_compiled_Cons:
  assumes "map bi_protocol new = line_protocols db line" "line_protocols db line \<noteq> []" "list_all (compiled mid k line) new"
    and "lines_compiled db mid (Suc k) lines rows"
  shows "lines_compiled db mid k (line # lines) (new @ rows)"
proof -
  have new: "compiled mid k line b \<and> bi_protocol b \<in> set (line_protocols db line)" if "b \<in> set new" for b
    using that assms(1,3) by (metis image_eqI list.pred_set list.set_map)
  have all: "\<exists>b \<in> set new. compiled mid k line b \<and> bi_protocol b = p" if "p \<in> set (line_protocols db line)" for p
    using that new by (metis (no_types, lifting) assms(1) imageE list.set_map)
  show ?thesis
    unfolding lines_compiled_def
  proof (intro conjI ballI allI impI)
    fix b
    assume "b \<in> set (new @ rows)"
    then consider "b \<in> set new" | "b \<in> set rows" by auto
    then show "\<exists>j < length (line # lines). compiled mid (k + j) ((line # lines) ! j) b \<and> bi_protocol b \<in> set (line_protocols db ((line # lines) ! j))"
    proof cases
      case 1
      with new show ?thesis by (intro exI [of _ 0]) simp
    next
      case 2
      with assms(4) obtain j where "j < length lines" "compiled mid (Suc k + j) (lines ! j) b" "bi_protocol b \<in> set (line_protocols db (lines ! j))"
        unfolding lines_compiled_def by blast
      then show ?thesis by (intro exI [of _ "Suc j"]) simp
    qed
  next
    fix j
    assume j: "j < length (line # lines)"
    show "line_protocols db ((line # lines) ! j) \<noteq> []" using j assms(2,4) by (cases j) (auto simp: lines_compiled_def)
    fix p
    assume p: "p \<in> set (line_protocols db ((line # lines) ! j))"
    show "\<exists>b \<in> set (new @ rows). compiled mid (k + j) ((line # lines) ! j) b \<and> bi_protocol b = p"
    proof (cases j)
      case 0
      with all p show ?thesis by auto
    next
      case (Suc i)
      with j p have "i < length lines" "p \<in> set (line_protocols db (lines ! i))" by simp_all
      with assms(4) obtain b where "b \<in> set rows" "compiled mid (Suc k + i) (lines ! i) b" "bi_protocol b = p"
        unfolding lines_compiled_def by blast
      with Suc show ?thesis by auto
    qed
  qed
qed

lemma write_lines_rows:
  assumes "write_lines env now seq mid k lines (tx, n, protocols) = Ok (tx', n', protocols')"
  shows "(\<exists>rows. tx' = tx\<lparr>cd_bindings := cd_bindings tx @ rows\<rparr> \<and> lines_compiled tx mid k lines rows) \<and>
    set protocols' = set protocols \<union> (\<Union>line \<in> set lines. set (line_protocols tx line))"
  using assms
proof (induction lines arbitrary: k tx n protocols)
  case Nil
  then show ?case by (auto simp: lines_compiled_def intro!: exI [of _ "[]"])
next
  case (Cons line lines)
  let ?ps = "line_protocols tx line"
  from Cons.prems obtain tx1 n1 protocols1 where step: "?ps \<noteq> []"
    "write_protocols env now seq mid k line ?ps (tx, n, protocols) = Ok (tx1, n1, protocols1)"
    "write_lines env now seq mid (Suc k) lines (tx1, n1, protocols1) = Ok (tx', n', protocols')"
    by (auto simp: and_then_Ok Let_def ensure_Ok)
  from write_protocols_rows(1) [OF step(2)] obtain new where new: "tx1 = tx\<lparr>cd_bindings := cd_bindings tx @ new\<rparr>"
    "map bi_protocol new = ?ps" "list_all (compiled mid k line) new" by blast
  from Cons.IH [OF step(3)] obtain rows where rows: "tx' = tx1\<lparr>cd_bindings := cd_bindings tx1 @ rows\<rparr>"
    "lines_compiled tx1 mid (Suc k) lines rows"
    "set protocols' = set protocols1 \<union> (\<Union>line \<in> set lines. set (line_protocols tx1 line))" by blast
  have "lines_compiled tx mid (Suc k) lines rows" using rows(2) by (simp add: new(1) lines_compiled_def)
  from lines_compiled_Cons [OF new(2) step(1) new(3) this] rows(1) new(1)
  have "\<exists>rows. tx' = tx\<lparr>cd_bindings := cd_bindings tx @ rows\<rparr> \<and> lines_compiled tx mid k (line # lines) rows"
    by (intro exI [of _ "new @ rows"]) simp
  moreover have "set protocols' = set protocols \<union> (\<Union>line \<in> set (line # lines). set (line_protocols tx line))"
    using rows(3) write_protocols_rows(2) [OF step(2)] by (auto simp: new(1))
  ultimately show ?case by blast
qed

text \<open>A live binding whose line can serve its protocol is routable, as soon as a route lists the protocol.\<close>

lemma line_protocols_member:
  assumes "p \<in> set (line_protocols db line)"
  shows "\<exists>cap sm s a. cap \<in> set (cd_capabilities db) \<and> capability_key cap = (rl_source_id line, rl_upstream_model_id line, p) \<and>
    sc_status cap = CatalogStatus_Confirmed \<and> is_routable (sc_mode cap) \<and>
    sm \<in> set (cd_source_models db) \<and> source_model_key sm = (rl_source_id line, rl_upstream_model_id line) \<and>
    sm_confirmation_status sm = CatalogStatus_Confirmed \<and> sm_availability_status sm = CatalogAvailability_Available \<and>
    s \<in> set (cd_sources db) \<and> so_id s = rl_source_id line \<and> so_enabled s \<and>
    a \<in> set (cd_accounts db) \<and> ar_id a = rl_account_id line \<and> ar_source_id a = rl_source_id line \<and> ar_enabled a"
  using assms by (auto simp: line_protocols_def capability_key_def split: if_splits)

lemma left_join_member: "x \<in> set (left_join (filter P xs)) \<Longrightarrow> y \<in> set xs \<Longrightarrow> P y \<Longrightarrow> \<exists>z. x = Some z \<and> z \<in> set xs \<and> P z"
  by (auto simp: left_join_def filter_empty_conv split: if_splits)

lemma left_join_none: "left_join xs \<noteq> []"
  by (simp add: left_join_def)

lemma routing_join_member:
  "(b, e) \<in> set (routing_join db mid) \<longleftrightarrow> b \<in> set (cd_bindings db) \<and> bi_logical_model_id b = mid \<and>
     (\<exists>s a m c. e = routable_binding db b s a m c \<and> s \<in> set (cd_sources db) \<and> so_id s = bi_source_id b \<and>
        a \<in> set (cd_accounts db) \<and> ar_id a = bi_account_id b \<and> ar_source_id a = bi_source_id b \<and>
        m \<in> set (left_join (filter (\<lambda>m. source_model_key m = (bi_source_id b, bi_upstream_model_id b)) (cd_source_models db))) \<and>
        c \<in> set (left_join (filter (\<lambda>c. capability_key c = (bi_source_id b, bi_upstream_model_id b, bi_protocol b)) (cd_capabilities db))))"
  (is "?l = ?r")
proof
  show ?r if ?l using that unfolding routing_join_def by (auto split: if_splits)
next
  assume ?r
  then obtain s a m c where "b \<in> set (cd_bindings db)" "bi_logical_model_id b = mid" "e = routable_binding db b s a m c"
    "s \<in> set (cd_sources db)" "so_id s = bi_source_id b" "a \<in> set (cd_accounts db)" "ar_id a = bi_account_id b" "ar_source_id a = bi_source_id b"
    "m \<in> set (left_join (filter (\<lambda>m. source_model_key m = (bi_source_id b, bi_upstream_model_id b)) (cd_source_models db)))"
    "c \<in> set (left_join (filter (\<lambda>c. capability_key c = (bi_source_id b, bi_upstream_model_id b, bi_protocol b)) (cd_capabilities db)))"
    by blast
  then show ?l
    unfolding routing_join_def
    by simp (intro bexI [of _ b] bexI [of _ s] bexI [of _ a] bexI [of _ m] image_eqI [of _ _ c]; simp)
qed

lemma routing_join_routable:
  assumes "keys_ok db" "b \<in> set (cd_bindings db)" "live_binding b" "bi_protocol b \<in> set (line_protocols db (binding_line b))"
    and "r \<in> set (cd_routes db)" "ro_logical_model_id r = Some (bi_logical_model_id b)" "ro_enabled r"
    and "jsonb_exists (ro_protocols r) (protocol_to_string (bi_protocol b))"
  shows "(b, e) \<in> set (routing_join db mid) \<Longrightarrow> e"
    and "bi_logical_model_id b = mid \<Longrightarrow> b \<in> fst ` set (routing_join db mid)"
proof -
  from line_protocols_member [OF assms(4)] obtain cap sm s a where
    cap: "cap \<in> set (cd_capabilities db)" "capability_key cap = (bi_source_id b, bi_upstream_model_id b, bi_protocol b)"
      "sc_status cap = CatalogStatus_Confirmed" "is_routable (sc_mode cap)"
    and sm: "sm \<in> set (cd_source_models db)" "source_model_key sm = (bi_source_id b, bi_upstream_model_id b)"
      "sm_confirmation_status sm = CatalogStatus_Confirmed" "sm_availability_status sm = CatalogAvailability_Available"
    and s: "s \<in> set (cd_sources db)" "so_id s = bi_source_id b" "so_enabled s"
    and a: "a \<in> set (cd_accounts db)" "ar_id a = bi_account_id b" "ar_source_id a = bi_source_id b" "ar_enabled a"
    by (auto simp: binding_line_def)
  note keys = assms(1) [unfolded keys_ok_def]
  show e if "(b, e) \<in> set (routing_join db mid)"
  proof -
    from that obtain s' a' m c where e: "e = routable_binding db b s' a' m c" "s' \<in> set (cd_sources db)" "so_id s' = bi_source_id b"
      "a' \<in> set (cd_accounts db)" "ar_id a' = bi_account_id b"
      "m \<in> set (left_join (filter (\<lambda>m. source_model_key m = (bi_source_id b, bi_upstream_model_id b)) (cd_source_models db)))"
      "c \<in> set (left_join (filter (\<lambda>c. capability_key c = (bi_source_id b, bi_upstream_model_id b, bi_protocol b)) (cd_capabilities db)))"
      unfolding routing_join_member by blast
    have "s' = s" using keys e s by (intro key_unique [of so_id, OF _ e(2) s(1)]) simp_all
    moreover have "a' = a" using keys e a by (intro key_unique [of ar_id, OF _ e(4) a(1)]) simp_all
    moreover have "m = Some sm"
    proof -
      from left_join_member [OF e(6) sm(1,2)] obtain z where z: "m = Some z" "z \<in> set (cd_source_models db)"
        "source_model_key z = (bi_source_id b, bi_upstream_model_id b)" by blast
      have "z = sm" using keys z(3) sm(2) by (intro key_unique [of source_model_key, OF _ z(2) sm(1)]) simp_all
      with z(1) show ?thesis by simp
    qed
    moreover have "c = Some cap"
    proof -
      from left_join_member [OF e(7) cap(1,2)] obtain z where z: "c = Some z" "z \<in> set (cd_capabilities db)"
        "capability_key z = (bi_source_id b, bi_upstream_model_id b, bi_protocol b)" by blast
      have "z = cap" using keys z(3) cap(2) by (intro key_unique [of capability_key, OF _ z(2) cap(1)]) simp_all
      with z(1) show ?thesis by simp
    qed
    ultimately show ?thesis
      using assms(3,5-8) cap sm s a by (auto simp: e(1) routable_binding_def live_binding_def)
  qed
  show "b \<in> fst ` set (routing_join db mid)" if "bi_logical_model_id b = mid"
  proof -
    obtain m c where "m \<in> set (left_join (filter (\<lambda>m. source_model_key m = (bi_source_id b, bi_upstream_model_id b)) (cd_source_models db)))"
      "c \<in> set (left_join (filter (\<lambda>c. capability_key c = (bi_source_id b, bi_upstream_model_id b, bi_protocol b)) (cd_capabilities db)))"
      using left_join_none by (meson list.set_sel(1))
    with that assms(2) s a have "(b, routable_binding db b s a m c) \<in> set (routing_join db mid)"
      unfolding routing_join_member by blast
    then show ?thesis by (metis fst_conv image_eqI)
  qed
qed


lemma line_errors_Nil: "line_errors seen k lines = [] \<Longrightarrow> distinct lines \<and> set lines \<inter> set seen = {}"
  by (induction lines arbitrary: seen k) fastforce+

lemma sint_priority: "k < 2 ^ 31 \<Longrightarrow> sint (- of_nat k :: i32) = - int k"
proof -
  assume "k < 2 ^ 31"
  then have "sint (word_of_int (- int k) :: i32) = - int k"
    by (simp add: sint_sbintrunc' signed_take_bit_int_eq_self del: of_int_minus of_int_of_nat_eq)
  then show ?thesis by simp
qed

text \<open>The rows of the written model: all its bindings, all routable, in the order of the lines.\<close>

definition written_routing :: "control_db \<Rightarrow> string \<Rightarrow> routing_line list \<Rightarrow> binding_row list \<Rightarrow> bool" where
  "written_routing tx mid lines rows \<longleftrightarrow>
     keys_ok tx \<and> {b \<in> set (cd_bindings tx). bi_logical_model_id b = mid} = set rows \<and>
     lines_compiled tx mid 0 lines rows \<and> distinct lines \<and> length lines \<le> 2 ^ 31 \<and>
     (lines \<noteq> [] \<longrightarrow> (\<exists>r \<in> set (cd_routes tx). ro_logical_model_id r = Some mid \<and> ro_enabled r \<and>
        (\<forall>b \<in> set rows. jsonb_exists (ro_protocols r) (protocol_to_string (bi_protocol b)))))"

lemma written_routingD:
  assumes "written_routing tx mid lines rows"
  shows "keys_ok tx" and "b \<in> set (cd_bindings tx) \<and> bi_logical_model_id b = mid \<longleftrightarrow> b \<in> set rows"
    and "distinct lines" and "length lines \<le> 2 ^ 31"
    and "lines \<noteq> [] \<Longrightarrow> \<exists>r \<in> set (cd_routes tx). ro_logical_model_id r = Some mid \<and> ro_enabled r \<and>
      (\<forall>b \<in> set rows. jsonb_exists (ro_protocols r) (protocol_to_string (bi_protocol b)))"
  using assms unfolding written_routing_def by auto

lemma written_row:
  assumes "written_routing tx mid lines rows" "b \<in> set rows"
  shows "\<exists>k < length lines. compiled mid k (lines ! k) b \<and> bi_protocol b \<in> set (line_protocols tx (lines ! k))"
  using assms by (auto simp: written_routing_def lines_compiled_def)

lemma line_rows:
  assumes "written_routing tx mid lines rows" "k < length lines"
  shows "line_protocols tx (lines ! k) \<noteq> []"
    and "p \<in> set (line_protocols tx (lines ! k)) \<Longrightarrow> \<exists>b \<in> set rows. compiled mid k (lines ! k) b \<and> bi_protocol b = p"
  using assms by (auto simp: written_routing_def lines_compiled_def)

lemma routing_join_written:
  assumes w: "written_routing tx mid lines rows"
  shows "set (routing_join tx mid) = (\<lambda>b. (b, True)) ` set rows"
proof -
  note bindings = written_routingD(2) [OF w]
  have routable: "((b, e) \<in> set (routing_join tx mid) \<longrightarrow> e) \<and> b \<in> fst ` set (routing_join tx mid)" if b: "b \<in> set rows" for b e
  proof -
    from written_row [OF w b] obtain k where k: "k < length lines" "compiled mid k (lines ! k) b" "bi_protocol b \<in> set (line_protocols tx (lines ! k))"
      by blast
    then have "lines \<noteq> []" by auto
    from written_routingD(5) [OF w this] b obtain r where r: "r \<in> set (cd_routes tx)" "ro_logical_model_id r = Some mid" "ro_enabled r"
      "jsonb_exists (ro_protocols r) (protocol_to_string (bi_protocol b))" by blast
    from b bindings have mem: "b \<in> set (cd_bindings tx)" "bi_logical_model_id b = mid" by blast+
    from k have "live_binding b" "bi_protocol b \<in> set (line_protocols tx (binding_line b))" by (simp_all add: compiled_def)
    with routing_join_routable(1) [OF written_routingD(1) [OF w] mem(1) _ _ r(1) _ r(3,4), of e mid]
      routing_join_routable(2) [OF written_routingD(1) [OF w] mem(1) _ _ r(1) _ r(3,4), of mid] mem(2) r(2) show ?thesis by blast
  qed
  have inside: "b \<in> set rows" if "(b, e) \<in> set (routing_join tx mid)" for b e
    using that bindings [of b] unfolding routing_join_member by blast
  show ?thesis
  proof (intro set_eqI iffI)
    fix x
    assume x: "x \<in> set (routing_join tx mid)"
    obtain b e where be: "x = (b, e)" by (cases x)
    with x inside [of b e] routable [of b e] show "x \<in> (\<lambda>b. (b, True)) ` set rows" by simp
  next
    fix x
    assume "x \<in> (\<lambda>b. (b, True)) ` set rows"
    then obtain b where b: "x = (b, True)" "b \<in> set rows" by blast
    from routable [OF b(2)] have "b \<in> fst ` set (routing_join tx mid)" by blast
    then obtain e where "(b, e) \<in> set (routing_join tx mid)" by force
    with routable [OF b(2), of e] b(1) show "x \<in> set (routing_join tx mid)" by simp
  qed
qed

lemma lines_read:
  assumes w: "written_routing tx mid lines rows"
  shows "firsts (map (\<lambda>x. binding_line (fst x)) (sort_by routing_le (routing_join tx mid))) = lines"
proof (rule firsts_by_position)
  let ?pos = "the_inv_into {..<length lines} ((!) lines)"
  have inj: "inj_on ((!) lines) {..<length lines}" using written_routingD(3) [OF w] by (intro inj_on_nth) simp_all
  show pos: "?pos (lines ! k) = k" if "k < length lines" for k using the_inv_into_f_f [OF inj, of k] that by simp
  show "distinct lines" by (rule written_routingD(3) [OF w])
  have "binding_line ` set rows = set lines"
  proof (intro set_eqI iffI)
    fix l
    assume "l \<in> binding_line ` set rows"
    then obtain b where b: "l = binding_line b" "b \<in> set rows" by blast
    with written_row [OF w b(2)] show "l \<in> set lines" by (auto simp: compiled_def)
  next
    fix l
    assume "l \<in> set lines"
    then obtain k where k: "k < length lines" "lines ! k = l" by (auto simp: in_set_conv_nth)
    with line_rows [OF w k(1)] obtain b where "b \<in> set rows" "compiled mid k l b" by (meson list.set_sel(1))
    then show "l \<in> binding_line ` set rows" by (auto simp: compiled_def)
  qed
  then show "set (map (\<lambda>x. binding_line (fst x)) (sort_by routing_le (routing_join tx mid))) = set lines"
    by (simp add: routing_join_written [OF w] image_image)
  have order: "?pos (binding_line (fst x)) \<le> ?pos (binding_line (fst y))"
    if xy: "x \<in> set (routing_join tx mid)" "y \<in> set (routing_join tx mid)" "routing_le x y" for x y
  proof -
    have at: "\<exists>k < length lines. ?pos (binding_line (fst z)) = k \<and> sint (bi_priority (fst z)) = - int k"
      if "z \<in> set (routing_join tx mid)" for z
    proof -
      from that routing_join_written [OF w] have "fst z \<in> set rows" by auto
      from written_row [OF w this] obtain k where k: "k < length lines" "compiled mid k (lines ! k) (fst z)" by blast
      then have "k < 2 ^ 31" using written_routingD(4) [OF w] by simp
      with k pos [OF k(1)] sint_priority [of k] show ?thesis by (auto simp: compiled_def)
    qed
    from at [OF xy(1)] at [OF xy(2)] xy(3) show ?thesis by (auto simp: routing_le_def)
  qed
  have "query_order routing_le" by unfold_locales (auto simp: routing_le_def)
  from query_order.sort_by_sorted [OF this, of "routing_join tx mid"]
  have "sorted_wrt (\<lambda>x y. ?pos (binding_line (fst x)) \<le> ?pos (binding_line (fst y))) (sort_by routing_le (routing_join tx mid))"
    by (rule sorted_wrt_mono_rel [rotated]) (use order in auto)
  then show "sorted (map ?pos (map (\<lambda>x. binding_line (fst x)) (sort_by routing_le (routing_join tx mid))))"
    by (simp add: sorted_wrt_map)
qed

lemma read_back:
  assumes w: "written_routing tx mid lines rows" and "fetch_model_routing_tx env mid tx = Ok view"
  shows "map lv_line (mv_lines view) = lines"
    and "v \<in> set (mv_lines view) \<Longrightarrow> set (lv_protocols v) = set (line_protocols tx (lv_line v)) \<and> lv_protocols v \<noteq> []"
proof -
  let ?rows = "sort_by routing_le (routing_join tx mid)"
  note fold = routing_fold [of ?rows]
  from assms(2) have view: "mv_lines view = map (\<lambda>v. v\<lparr>lv_protocols := sort_protocols (lv_protocols v)\<rparr>) (fst (foldl add_routing_row ([], []) ?rows))"
    by (auto simp: fetch_model_routing_tx_def and_then_Ok Let_def split_beta)
  then show lines: "map lv_line (mv_lines view) = lines" using fold lines_read [OF w] by (simp add: comp_def)
  assume v: "v \<in> set (mv_lines view)"
  with view obtain u where u: "u \<in> set (fst (foldl add_routing_row ([], []) ?rows))" "v = u\<lparr>lv_protocols := sort_protocols (lv_protocols u)\<rparr>"
    by auto
  with fold have "set (lv_protocols v) = {bi_protocol b | b. (b, True) \<in> set ?rows \<and> binding_line b = lv_line v}"
    by (simp add: sort_protocols_def)
  also have "\<dots> = {bi_protocol b | b. b \<in> set rows \<and> binding_line b = lv_line v}" using routing_join_written [OF w] by auto
  finally have set_v: "set (lv_protocols v) = {bi_protocol b | b. b \<in> set rows \<and> binding_line b = lv_line v}" .
  from v lines have "lv_line v \<in> set lines" by auto
  then obtain k where k: "k < length lines" "lines ! k = lv_line v" by (auto simp: in_set_conv_nth)
  note all = line_rows [OF w k(1), unfolded k(2)]
  have "set (lv_protocols v) = set (line_protocols tx (lv_line v))"
  proof
    show "set (lv_protocols v) \<subseteq> set (line_protocols tx (lv_line v))"
      unfolding set_v using written_row [OF w] by (fastforce simp: compiled_def)
    show "set (line_protocols tx (lv_line v)) \<subseteq> set (lv_protocols v)"
      unfolding set_v using all(2) by (fastforce simp: compiled_def)
  qed
  with all(1) show "set (lv_protocols v) = set (line_protocols tx (lv_line v)) \<and> lv_protocols v \<noteq> []" by auto
qed

lemma model_kept:
  "cd_logical_models (clear_routing mid db) = cd_logical_models db"
  "line_protocols (clear_routing mid db) line = line_protocols db line"
  "line_protocols (enable_model mid e db) line = line_protocols db line"
  by (simp_all add: clear_routing_def enable_model_def line_protocols_def cong: if_cong)

lemma write_model_line_protocols:
  assumes "reconfirm mid current status db = Ok tx1" "write_model env now mid i create status tx1 = Ok tx2"
  shows "line_protocols tx2 line = line_protocols db line"
proof -
  from reconfirm_Ok [OF assms(1)] assms(2) obtain ms where "tx2 = db\<lparr>cd_logical_models := ms\<rparr>"
    by (auto simp: write_model_def constrained_Ok)
  then show ?thesis by (simp add: line_protocols_def cong: if_cong)
qed

lemma write_routing_route_Ok:
  assumes "write_routing_route env now rid mid protocols db = Ok tx"
  shows "\<exists>rs. tx = db\<lparr>cd_routes := cd_routes db @ rs\<rparr> \<and>
    rs = (if protocols = [] then [] else [new_route_row now (routing_route rid mid protocols)])"
  using assms by (auto simp: write_routing_route_def and_then_Ok constrained_Ok)

text \<open>The model an accepted write leaves.\<close>

lemma write_model_row:
  assumes "schema_ok db" "create \<or> List.find (\<lambda>m. lm_id m = mid) (cd_logical_models db) \<noteq> None"
    and "reconfirm mid current status db = Ok tx1" "write_model env now mid i create status tx1 = Ok tx2"
    and "m \<in> set (cd_logical_models (enable_model mid e tx2))" "lm_id m = mid"
  shows "lm_public_name m = mr_public_name i \<and> lm_display_name m = mr_display_name i \<and> lm_enabled m = e \<and>
    lm_request_timeout_ms m = mr_request_timeout_ms i \<and> lm_max_retries m = mr_max_retries i"
proof -
  from reconfirm_Ok [OF assms(3)] obtain f where f: "tx1 = db\<lparr>cd_logical_models := update_rows (\<lambda>m. lm_id m = mid) f (cd_logical_models db)\<rparr>"
    "\<And>m. lm_id (f m) = lm_id m" by blast
  from assms(4) have tx2: "schema_ok tx2" "cd_logical_models tx2 =
       (if create then cd_logical_models tx1 @ [inserted_model now mid i status]
        else update_rows (\<lambda>m. lm_id m = mid) (rewritten_model now i status) (cd_logical_models tx1))"
    by (auto simp: write_model_def constrained_Ok)
  have "lm_public_name q = mr_public_name i \<and> lm_display_name q = mr_display_name i \<and>
      lm_request_timeout_ms q = mr_request_timeout_ms i \<and> lm_max_retries q = mr_max_retries i"
    if q: "q \<in> set (cd_logical_models tx2)" "lm_id q = mid" for q
  proof (cases create)
    case True
    have "inserted_model now mid i status \<in> set (cd_logical_models tx2)" using tx2(2) True by simp
    with q tx2(1) have "q = inserted_model now mid i status"
      by (intro key_unique [of lm_id "cd_logical_models tx2"]) (simp_all add: schema_ok_def keys_ok_def inserted_model_def)
    then show ?thesis by (simp add: inserted_model_def)
  next
    case False
    with q(1) tx2(2) have "q \<in> (\<lambda>m. if lm_id m = mid then rewritten_model now i status m else m) ` set (cd_logical_models tx1)"
      by (simp only: set_update_rows if_False)
    then obtain m where "q = (if lm_id m = mid then rewritten_model now i status m else m)" by blast
    with q(2) show ?thesis by (cases "lm_id m = mid") (simp_all add: rewritten_model_def)
  qed
  moreover from assms(5) have "m \<in> (\<lambda>m. if lm_id m = mid then m\<lparr>lm_enabled := e\<rparr> else m) ` set (cd_logical_models tx2)"
    by (simp add: enable_model_def set_update_rows)
  then obtain q where "q \<in> set (cd_logical_models tx2)" "m = (if lm_id q = mid then q\<lparr>lm_enabled := e\<rparr> else q)" by blast
  ultimately show ?thesis using assms(6) by (cases "lm_id q = mid") simp_all
qed

lemma written_routingI:
  assumes "keys_ok tx" "lines_compiled tx mid 0 lines rows" "distinct lines" "length lines \<le> 2 ^ 31"
    and bindings: "\<And>b. b \<in> set (cd_bindings tx) \<Longrightarrow> b \<notin> set rows \<Longrightarrow> bi_logical_model_id b \<noteq> mid" "set rows \<subseteq> set (cd_bindings tx)"
    and routes: "filter (\<lambda>r. ro_logical_model_id r = Some mid) (cd_routes tx) =
      (if sort_protocols protocols = [] then [] else [new_route_row now (routing_route rid mid (sort_protocols protocols))])"
    and member: "set protocols = (\<Union>line \<in> set lines. set (line_protocols tx line))"
  shows "written_routing tx mid lines rows"
  unfolding written_routing_def
proof (intro conjI impI)
  have "bi_logical_model_id b = mid" if "b \<in> set rows" for b using that assms(2) by (auto simp: lines_compiled_def compiled_def)
  with bindings show "{b \<in> set (cd_bindings tx). bi_logical_model_id b = mid} = set rows" by blast
  let ?r = "new_route_row now (routing_route rid mid (sort_protocols protocols))"
  assume "lines \<noteq> []"
  then have "line_protocols tx (lines ! 0) \<noteq> []" "lines ! 0 \<in> set lines" using assms(2) by (auto simp: lines_compiled_def)
  with member have "protocols \<noteq> []" by (metis UN_I empty_iff last_in_set list.set(1))
  then have "sort_protocols protocols \<noteq> []" by (metis set_sort set_empty sort_protocols_def)
  with routes have r: "?r \<in> set (filter (\<lambda>r. ro_logical_model_id r = Some mid) (cd_routes tx))" by simp
  have "bi_protocol b \<in> set protocols" if "b \<in> set rows" for b
    using assms(2) that member unfolding lines_compiled_def by (metis UN_I nth_mem)
  with r show "\<exists>r \<in> set (cd_routes tx). ro_logical_model_id r = Some mid \<and> ro_enabled r \<and>
      (\<forall>b \<in> set rows. jsonb_exists (ro_protocols r) (protocol_to_string (bi_protocol b)))"
    by (intro bexI [of _ ?r]) (simp_all add: new_route_row_def routing_route_def sort_protocols_def)
qed (use assms in simp_all)

text \<open>What an accepted write leaves.\<close>

lemma write_model_routing_result:
  assumes "control_inv db" "pick_ok env" "length (mr_lines i) \<le> 2 ^ 31"
    and "write_model_routing env now seq fresh_route mid i create db = Ok (tx, view)"
  shows "(\<exists>rows. written_routing tx mid (mr_lines i) rows) \<and> (\<forall>line. line_protocols tx line = line_protocols db line) \<and>
    routing_strategy env tx mid = ''ordered_fallback'' \<and>
    (\<forall>m \<in> set (cd_logical_models tx). lm_id m = mid \<longrightarrow> lm_public_name m = mr_public_name i \<and> lm_enabled m = mr_enabled i \<and>
       lm_request_timeout_ms m = mr_request_timeout_ms i \<and> lm_max_retries m = mr_max_retries i)"
  using assms(4)
proof (cases rule: write_model_routing_stages)
  case (1 tx1 tx2 tx3 n protocols tx4 status)
  from write_lines_rows [OF 1(4)] obtain rows where tx3: "tx3 = (clear_routing mid tx2)\<lparr>cd_bindings := cd_bindings (clear_routing mid tx2) @ rows\<rparr>"
    and rows: "lines_compiled (clear_routing mid tx2) mid 0 (mr_lines i) rows"
    and protocols: "set protocols = (\<Union>line \<in> set (mr_lines i). set (line_protocols (clear_routing mid tx2) line))" by auto
  let ?rs = "if sort_protocols protocols = [] then []
    else [new_route_row now (routing_route (kept_route_id env fresh_route mid tx2) mid (sort_protocols protocols))]"
  from write_routing_route_Ok [OF 1(5)] have tx4: "tx4 = tx3\<lparr>cd_routes := cd_routes tx3 @ ?rs\<rparr>" by simp
  have same: "line_protocols (clear_routing mid tx2) line = line_protocols db line" "line_protocols tx line = line_protocols db line" for line
    using write_model_line_protocols [OF 1(2,3)]
    by (simp_all add: 1(6) model_kept tx4 tx3) (simp add: line_protocols_def clear_routing_def cong: if_cong)
  have inv: "control_inv tx" by (rule write_model_routing_inv [OF assms(1,2,4)])
  have compiled: "lines_compiled tx mid 0 (mr_lines i) rows" using rows by (simp add: lines_compiled_def same)
  have routes: "filter (\<lambda>r. ro_logical_model_id r = Some mid) (cd_routes tx) = ?rs"
    by (simp add: 1(6) enable_model_def tx4 tx3 clear_routing_def new_route_row_def routing_route_def)
  have member: "set protocols = (\<Union>line \<in> set (mr_lines i). set (line_protocols tx line))" using protocols by (simp add: same)
  have w: "written_routing tx mid (mr_lines i) rows"
  proof (rule written_routingI [OF _ compiled _ assms(3) _ _ routes member])
    show "keys_ok tx" using inv by (simp add: control_inv_def schema_ok_def)
    from 1(1) have "line_errors [] 0 (mr_lines i) = []" by (auto simp: validate_model_routing_def and_then_Ok)
    then show "distinct (mr_lines i)" by (simp add: line_errors_Nil)
  qed (auto simp: 1(6) enable_model_def tx4 tx3 clear_routing_def)
  have strategy: "routing_strategy env tx mid = ''ordered_fallback''"
    by (simp add: routing_strategy_def routes new_route_row_def routing_route_def sort_by_def)
  have "cd_logical_models tx = cd_logical_models (enable_model mid (mr_enabled i) tx2)"
    by (simp add: 1(6) enable_model_def tx4 tx3 clear_routing_def)
  with write_model_row [OF _ 1(8,2,3)] assms(1) have "lm_public_name m = mr_public_name i \<and> lm_enabled m = mr_enabled i \<and>
       lm_request_timeout_ms m = mr_request_timeout_ms i \<and> lm_max_retries m = mr_max_retries i"
    if "m \<in> set (cd_logical_models tx)" "lm_id m = mid" for m
    using that by (simp add: control_inv_def)
  with w strategy same(2) show ?thesis by blast
qed

text \<open>
  C28: the routing of a model is read back as it was written. After an accepted write of a model's
  routing, reading it returns the upstream lines in the order given, each with exactly the protocols
  its source can serve (at least one), the strategy of ordered fallback, and the name, switch and
  limits that were written.
\<close>

theorem model_routing_roundtrip:
  assumes "control_inv db" "pick_ok env" "length (mr_lines i) \<le> 2 ^ 31"
    and "write_model_routing env now seq fresh_route mid i create db = Ok (tx, view)"
  shows "fetch_model_routing_tx env mid tx = Ok view \<and> map lv_line (mv_lines view) = mr_lines i \<and>
    (\<forall>v \<in> set (mv_lines view). lv_protocols v \<noteq> [] \<and> set (lv_protocols v) = set (line_protocols db (lv_line v))) \<and>
    mv_strategy view = ''ordered_fallback'' \<and> lm_public_name (mv_logical_model view) = mr_public_name i \<and>
    lm_enabled (mv_logical_model view) = mr_enabled i \<and> mv_request_timeout_ms view = mr_request_timeout_ms i \<and>
    mv_max_retries view = mr_max_retries i"
proof -
  note result = write_model_routing_result [OF assms]
  then obtain rows where w: "written_routing tx mid (mr_lines i) rows" by blast
  from assms(4) have fetch: "fetch_model_routing_tx env mid tx = Ok view" by (cases rule: write_model_routing_stages)
  then obtain lm where lm: "fetch_logical_model_tx mid tx = Ok lm" and view: "mv_logical_model view = lm"
    "mv_request_timeout_ms view = lm_request_timeout_ms lm" "mv_max_retries view = lm_max_retries lm"
    "mv_strategy view = routing_strategy env tx mid"
    by (auto simp: fetch_model_routing_tx_def and_then_Ok Let_def split_beta)
  from find_or_Ok [OF lm [unfolded fetch_logical_model_tx_def]] have "lm \<in> set (cd_logical_models tx)" "lm_id lm = mid" by simp_all
  with result view have "mv_strategy view = ''ordered_fallback'' \<and> lm_public_name (mv_logical_model view) = mr_public_name i \<and>
    lm_enabled (mv_logical_model view) = mr_enabled i \<and> mv_request_timeout_ms view = mr_request_timeout_ms i \<and>
    mv_max_retries view = mr_max_retries i" by simp
  with read_back [OF w fetch] fetch result show ?thesis by simp
qed

lemma routing_ops_inv:
  shows create_model_routing_inv: "control_inv db \<Longrightarrow> pick_ok env \<Longrightarrow>
      create_model_routing env now seq uuid fresh i db = Ok (tx, v) \<Longrightarrow> control_inv tx"
    and put_model_routing_inv: "control_inv db \<Longrightarrow> pick_ok env \<Longrightarrow>
      put_model_routing env now seq fresh mid i db = Ok (tx, v) \<Longrightarrow> control_inv tx"
  by (simp_all add: create_model_routing_def put_model_routing_def write_model_routing_inv)

text \<open>A sample: the routing of the sample model, with its two accounts in the other order.\<close>

definition sample_routing :: model_routing_write where
  "sample_routing =
     \<lparr>mr_public_name = ''m2'', mr_display_name = ''M2'', mr_enabled = True,
      mr_lines = [\<lparr>rl_source_id = ''s'', rl_account_id = ''a'', rl_upstream_model_id = ''u''\<rparr>,
                  \<lparr>rl_source_id = ''s'', rl_account_id = ''b'', rl_upstream_model_id = ''u''\<rparr>],
      mr_request_timeout_ms = Some 1000, mr_max_retries = None\<rparr>"

definition sample_routed :: "control_db \<times> model_routing_view" where
  "sample_routed = projr (put_model_routing sample_env 1 (\<lambda>n. of_nat n + 9) ''route'' ''l'' sample_routing sample_control_db)"

theorem model_routing_roundtrip_witness:
  "map lv_line (mv_lines (snd sample_routed)) = mr_lines sample_routing \<and>
   map rl_account_id (mr_lines sample_routing) = [''a'', ''b''] \<and> mv_request_timeout_ms (snd sample_routed) = Some 1000"
proof -
  have "is_ok (put_model_routing sample_env 1 (\<lambda>n. of_nat n + 9) ''route'' ''l'' sample_routing sample_control_db)" by code_simp
  then have "write_model_routing sample_env 1 (\<lambda>n. of_nat n + 9) ''route'' ''l'' sample_routing False sample_control_db =
      Ok (fst sample_routed, snd sample_routed)"
    by (auto simp: is_ok_iff sample_routed_def put_model_routing_def)
  from model_routing_roundtrip [OF sample_control_inv sample_pick _ this] show ?thesis by (simp add: sample_routing_def)
qed

end
