(* ===== verification/Control_Plane.thy ===== *)
theory Control_Plane
  imports Control_Routing
begin

text \<open>
  The control plane as a whole: its writes as operations, the states any sequence of them reaches, and
  what holds in all of those states.
\<close>

section \<open>Operations\<close>

datatype control_op =
    CreateAccount account_write
  | UpdateAccount string account_write
  | SetAccountEnabled string bool
  | DeleteAccount string
  | RotateAccountCredential string
  | CreateLogicalModel logical_model_write
  | UpdateLogicalModel string logical_model_write
  | SetLogicalModelEnabled string bool
  | DeleteLogicalModel string
  | CreateModelBinding binding_write
  | UpdateModelBinding i64 binding_write
  | SetModelBindingEnabled i64 bool
  | DeleteModelBinding i64
  | CreateRoute route_write
  | UpdateRoute string route_write
  | SetRouteEnabled string bool
  | DeleteRoute string
  | CreateSource source_write
  | UpdateSource string source_write
  | SetSourceEnabled string bool
  | DeleteSource string
  | CreateModelRouting model_routing_write
  | PutModelRouting string model_routing_write

text \<open>What one write takes from its surroundings.\<close>

record write_context =
  wc_now :: date_time
  wc_utc :: date_time
  wc_clock :: date_time
  wc_sequence :: "nat \<Rightarrow> i64"
  wc_uuid :: "nat \<Rightarrow> string"
  wc_crypto :: crypto
  wc_secrets :: secret_resolver
  wc_random :: "string option"
  wc_fault :: db_fault

definition discard :: "(control_db \<times> 'r, 'e) result \<Rightarrow> (control_db \<times> unit, 'e) result" where
  "discard r = and_then r (\<lambda>(tx, _). Ok (tx, ()))"

fun op_body :: "control_env \<Rightarrow> write_context \<Rightarrow> control_op \<Rightarrow> control_db \<Rightarrow> (control_db \<times> unit, control_plane_error) result" where
  "op_body env c (CreateAccount i) db = discard (create_account env (wc_now c) (wc_utc c) i db)"
| "op_body env c (UpdateAccount aid i) db = discard (update_account env (wc_now c) (wc_utc c) aid i db)"
| "op_body env c (SetAccountEnabled aid e) db = discard (set_account_enabled (wc_now c) (wc_utc c) aid e db)"
| "op_body env c (DeleteAccount aid) db = delete_account aid db"
| "op_body env c (RotateAccountCredential aid) db =
     rotate_account_credential (wc_crypto c) (wc_secrets c) (wc_random c) (wc_now c) aid db"
| "op_body env c (CreateLogicalModel i) db = discard (create_logical_model env (wc_now c) (wc_utc c) i db)"
| "op_body env c (UpdateLogicalModel mid i) db = discard (update_logical_model env (wc_now c) mid i db)"
| "op_body env c (SetLogicalModelEnabled mid e) db = discard (set_logical_model_enabled (wc_now c) mid e db)"
| "op_body env c (DeleteLogicalModel mid) db = delete_logical_model mid db"
| "op_body env c (CreateModelBinding i) db = discard (create_model_binding env (wc_now c) (wc_utc c) (wc_sequence c 0) i db)"
| "op_body env c (UpdateModelBinding bid i) db = discard (update_model_binding env (wc_now c) bid i db)"
| "op_body env c (SetModelBindingEnabled bid e) db = discard (set_model_binding_enabled env (wc_now c) bid e db)"
| "op_body env c (DeleteModelBinding bid) db = delete_model_binding bid db"
| "op_body env c (CreateRoute i) db = discard (create_route env (wc_now c) i db)"
| "op_body env c (UpdateRoute rid i) db = discard (update_route env (wc_now c) rid i db)"
| "op_body env c (SetRouteEnabled rid e) db = discard (set_route_enabled env (wc_now c) rid e db)"
| "op_body env c (DeleteRoute rid) db = delete_route rid db"
| "op_body env c (CreateSource i) db = discard (create_source env (wc_now c) i db)"
| "op_body env c (UpdateSource sid i) db = discard (update_source env (wc_now c) (wc_utc c) sid i db)"
| "op_body env c (SetSourceEnabled sid e) db = discard (set_source_enabled (wc_now c) (wc_utc c) sid e db)"
| "op_body env c (DeleteSource sid) db = delete_source sid db"
| "op_body env c (CreateModelRouting i) db =
     discard (create_model_routing env (wc_now c) (wc_sequence c) (wc_uuid c 0) (fresh_route_id (wc_uuid c 1)) i db)"
| "op_body env c (PutModelRouting mid i) db =
     discard (put_model_routing env (wc_now c) (wc_sequence c) (fresh_route_id (wc_uuid c 0)) mid i db)"

definition control_write ::
  "control_env \<Rightarrow> string \<Rightarrow> write_context \<Rightarrow> control_op \<Rightarrow> control_db
   \<Rightarrow> control_db \<times> (unit \<times> runtime_snapshot, control_plane_error) result" where
  "control_write env listen_addr c op db =
     write_transaction env listen_addr (wc_fault c) (wc_clock c) (op_body env c op) db"

lemma discard_Ok: "discard r = Ok (tx, u) \<longleftrightarrow> (\<exists>x. r = Ok (tx, x))"
  by (auto simp: discard_def and_then_Ok)

section \<open>Reachable states\<close>








lemma account_ops_revision:
  "create_account env now utc ia db = Ok (tx, a) \<Longrightarrow> cd_revision tx = cd_revision db"
  "update_account env now utc aid ia db = Ok (tx, a) \<Longrightarrow> cd_revision tx = cd_revision db"
  "set_account_enabled now utc aid e db = Ok (tx, a) \<Longrightarrow> cd_revision tx = cd_revision db"
  "delete_account aid db = Ok (tx, u) \<Longrightarrow> cd_revision tx = cd_revision db"
  "rotate_account_credential cr sec rnd now aid db = Ok (tx, u) \<Longrightarrow> cd_revision tx = cd_revision db"
  subgoal by (auto simp: create_account_def and_then_Ok constrained_Ok Let_def manual_transition_defs manual_transition_def split: if_splits)
  subgoal by (auto simp: update_account_def and_then_Ok constrained_Ok Let_def manual_transition_defs manual_transition_def split: if_splits)
  subgoal by (auto simp: set_account_enabled_def and_then_Ok constrained_Ok Let_def manual_transition_defs manual_transition_def split: if_splits)
  subgoal by (auto simp: delete_account_def drop_accounts_def and_then_Ok constrained_Ok Let_def split: if_splits)
  subgoal by (auto simp: rotate_account_credential_def and_then_Ok constrained_Ok Let_def split: if_splits)
  done

lemma model_ops_revision:
  "create_logical_model env now utc im db = Ok (tx, m) \<Longrightarrow> cd_revision tx = cd_revision db"
  "update_logical_model env now mid im db = Ok (tx, m) \<Longrightarrow> cd_revision tx = cd_revision db"
  "set_logical_model_enabled now mid e db = Ok (tx, m) \<Longrightarrow> cd_revision tx = cd_revision db"
  "delete_logical_model mid db = Ok (tx, u) \<Longrightarrow> cd_revision tx = cd_revision db"
  subgoal by (auto simp: create_logical_model_def and_then_Ok constrained_Ok Let_def split: if_splits)
  subgoal by (auto simp: update_logical_model_def and_then_Ok constrained_Ok Let_def split: if_splits)
  subgoal by (auto simp: set_logical_model_enabled_def and_then_Ok constrained_Ok Let_def split: if_splits)
  subgoal by (auto simp: delete_logical_model_def and_then_Ok constrained_Ok Let_def split: if_splits)
  done

lemma replace_binding_revision: "replace_binding env row db = Ok tx \<Longrightarrow> cd_revision tx = cd_revision db"
  by (drule replace_binding_Ok(2)) simp

lemma binding_ops_revision:
  "create_model_binding env now utc bid ib db = Ok (tx, b) \<Longrightarrow> cd_revision tx = cd_revision db"
  "update_model_binding env now bid ib db = Ok (tx, b) \<Longrightarrow> cd_revision tx = cd_revision db"
  "set_model_binding_enabled env now bid e db = Ok (tx, b) \<Longrightarrow> cd_revision tx = cd_revision db"
  "delete_model_binding bid db = Ok (tx, u) \<Longrightarrow> cd_revision tx = cd_revision db"
  subgoal by (auto simp: create_model_binding_def insert_binding_def and_then_Ok constrained_Ok Let_def split: if_splits)
  subgoal by (auto simp: update_model_binding_def and_then_Ok dest: replace_binding_revision)
  subgoal by (auto simp: set_model_binding_enabled_def and_then_Ok Let_def dest: replace_binding_revision)
  subgoal by (auto simp: delete_model_binding_def and_then_Ok constrained_Ok Let_def split: if_splits)
  done

lemma route_ops_revision:
  "create_route env now ir db = Ok (tx, r) \<Longrightarrow> cd_revision tx = cd_revision db"
  "update_route env now rid ir db = Ok (tx, r) \<Longrightarrow> cd_revision tx = cd_revision db"
  "set_route_enabled env now rid e db = Ok (tx, r) \<Longrightarrow> cd_revision tx = cd_revision db"
  "delete_route rid db = Ok (tx, u) \<Longrightarrow> cd_revision tx = cd_revision db"
  subgoal by (auto simp: create_route_def and_then_Ok constrained_Ok Let_def split: if_splits)
  subgoal by (auto simp: update_route_def and_then_Ok constrained_Ok Let_def split: if_splits)
  subgoal by (auto simp: set_route_enabled_def and_then_Ok constrained_Ok Let_def split: if_splits)
  subgoal by (auto simp: delete_route_def and_then_Ok constrained_Ok Let_def split: if_splits)
  done

lemma source_ops_revision:
  "create_source env now isrc db = Ok (tx, s) \<Longrightarrow> cd_revision tx = cd_revision db"
  "update_source env now utc sid isrc db = Ok (tx, s) \<Longrightarrow> cd_revision tx = cd_revision db"
  "set_source_enabled now utc sid e db = Ok (tx, s) \<Longrightarrow> cd_revision tx = cd_revision db"
  "delete_source sid db = Ok (tx, u) \<Longrightarrow> cd_revision tx = cd_revision db"
  subgoal by (auto simp: create_source_def and_then_Ok constrained_Ok Let_def split: if_splits)
  subgoal by (auto simp: update_source_def and_then_Ok constrained_Ok Let_def manual_transition_defs manual_transition_def split: if_splits)
  subgoal by (auto simp: set_source_enabled_def and_then_Ok constrained_Ok Let_def manual_transition_defs manual_transition_def split: if_splits)
  subgoal by (auto simp: delete_source_def drop_accounts_def and_then_Ok constrained_Ok Let_def split: if_splits)
  done

lemma write_protocols_revision:
  "write_protocols env now seq mid position line ps st = Ok st' \<Longrightarrow> cd_revision (fst st') = cd_revision (fst st)"
  by (induction env now seq mid position line ps st rule: write_protocols.induct)
    (auto simp: and_then_Ok dest!: insert_binding_Ok(2))

lemma write_lines_revision:
  "write_lines env now seq mid position lines st = Ok st' \<Longrightarrow> cd_revision (fst st') = cd_revision (fst st)"
  by (induction lines arbitrary: position st) (auto simp: and_then_Ok Let_def dest!: write_protocols_revision)

lemma write_model_routing_revision:
  assumes "write_model_routing env now seq fresh_route mid i create db = Ok (tx, view)"
  shows "cd_revision tx = cd_revision db"
  using assms
proof (cases rule: write_model_routing_stages)
  case (1 tx1 tx2 tx3 n protocols tx4 status)
  from reconfirm_Ok [OF 1(2)] have "cd_revision tx1 = cd_revision db" by auto
  moreover from 1(3) have "cd_revision tx2 = cd_revision tx1" by (auto simp: write_model_def constrained_Ok)
  moreover from write_lines_revision [OF 1(4)] have "cd_revision tx3 = cd_revision tx2" by (simp add: clear_routing_def)
  moreover from write_routing_route_Ok [OF 1(5)] have "cd_revision tx4 = cd_revision tx3" by auto
  ultimately show ?thesis by (simp add: 1(6) enable_model_def)
qed

lemma routing_ops_revision:
  "create_model_routing env now seq uuid fresh i db = Ok (tx, v) \<Longrightarrow> cd_revision tx = cd_revision db"
  "put_model_routing env now seq fresh mid i db = Ok (tx, v) \<Longrightarrow> cd_revision tx = cd_revision db"
  by (simp_all only: create_model_routing_def put_model_routing_def write_model_routing_revision)

lemmas ops_revision = routing_ops_revision account_ops_revision model_ops_revision binding_ops_revision route_ops_revision source_ops_revision

lemma op_body_revision: "op_body env c op db = Ok (tx, u) \<Longrightarrow> cd_revision tx = cd_revision db"
  by (cases op) (simp_all add: discard_Ok, (blast dest: ops_revision)+)

text \<open>
  C25: control-plane writes are atomic and versioned. A write that is answered with an error leaves
  the database as it was, unless the error is that of the commit itself; a write that succeeds raises
  the revision by one and answers with the snapshot of exactly the state it committed.
\<close>

theorem control_writes_atomic:
  assumes "control_write env listen_addr c op db = (db', res)"
  shows "(case res of
      Ok (_, snapshot) \<Rightarrow> cd_revision db' = cd_revision db + 1 \<and> sn_revision snapshot = cd_revision db' \<and>
        load_snapshot_in_transaction env listen_addr db' = Ok snapshot
    | Err e \<Rightarrow> db' = db \<or> e = commit_error \<and> wc_fault c = FaultAfterCommit)"
proof -
  have fault: "wc_fault c = FaultAfterCommit" if "res = Err commit_error" "db' \<noteq> db"
    using assms that
    by (auto simp: control_write_def write_transaction_def finish_write_def split: sum.splits prod.splits db_fault.splits)
  from assms [unfolded control_write_def] show ?thesis
  proof (cases rule: write_transaction_cases)
    case (committed tx r snapshot)
    from committed(4) have "build_snapshot (ce_reg env) (ce_de env) (ce_le env) db' listen_addr (cd_revision db')
        (cd_snapshot_updated_at db') = Ok snapshot" by (simp add: snapshot_of_def)
    note published = build_snapshot_Ok(6) [OF this]
    from committed(5) show ?thesis
    proof
      assume "res = Ok (r, snapshot)"
      with published committed(2,3) op_body_revision [OF committed(1)] show ?thesis by simp
    next
      assume "res = Err commit_error"
      with fault show ?thesis by auto
    qed
  qed (use fault in \<open>auto split: sum.split\<close>)
qed




section \<open>A sample run\<close>

definition sample_context :: write_context where
  "sample_context =
     \<lparr>wc_now = 1, wc_utc = 2, wc_clock = 3, wc_sequence = (\<lambda>n. of_nat n + 9), wc_uuid = (\<lambda>n. show_nat n), wc_crypto = toy_crypto, wc_secrets = toy_resolver,
      wc_random = None, wc_fault = NoFault\<rparr>"


text \<open>A write: the model is enabled, which it was already; the revision moves on all the same.\<close>

definition sample_tx :: control_db where
  "sample_tx = fst (projr (op_body sample_env sample_context (SetLogicalModelEnabled ''l'' True) sample_control_db))"

definition sample_committed :: "control_db \<times> runtime_snapshot" where
  "sample_committed =
     projr (and_then (next_revision 3 sample_tx) (\<lambda>tx.
       and_then (snapshot_of sample_env ''a:1'' tx) (\<lambda>snapshot. Ok (tx, snapshot))))"

lemma sample_write:
  "control_write sample_env ''a:1'' sample_context (SetLogicalModelEnabled ''l'' True) sample_control_db =
     (fst sample_committed, Ok ((), snd sample_committed))"
  "load_snapshot_in_transaction sample_env ''a:1'' (fst sample_committed) = Ok (snd sample_committed)"
  "cd_revision (fst sample_committed) = 1"
proof -
  have "is_ok (op_body sample_env sample_context (SetLogicalModelEnabled ''l'' True) sample_control_db)" by code_simp
  then have body: "op_body sample_env sample_context (SetLogicalModelEnabled ''l'' True) sample_control_db = Ok (sample_tx, ())"
    by (auto simp: is_ok_iff sample_tx_def)
  have "validate_capability_chains sample_env sample_tx = Ok ()"
    "is_ok (and_then (next_revision 3 sample_tx) (\<lambda>tx. and_then (snapshot_of sample_env ''a:1'' tx) (\<lambda>snapshot. Ok (tx, snapshot))))"
    by code_simp+
  then have fin: "finish_candidate sample_env ''a:1'' 3 sample_tx = Ok (fst sample_committed, snd sample_committed)"
    by (simp add: finish_candidate_def sample_env_urls sample_committed_def is_ok_iff) (metis sum.sel(2))
  with body show "control_write sample_env ''a:1'' sample_context (SetLogicalModelEnabled ''l'' True) sample_control_db =
     (fst sample_committed, Ok ((), snd sample_committed))"
    by (simp only: control_write_def write_transaction_def finish_write_def)
      (simp add: sample_context_def split_beta)
  from finish_candidate_Ok [OF fin] op_body_revision [OF body]
  show "load_snapshot_in_transaction sample_env ''a:1'' (fst sample_committed) = Ok (snd sample_committed)"
    "cd_revision (fst sample_committed) = 1" by (simp_all add: sample_control_db_def)
qed




theorem control_writes_atomic_witness:
  "cd_revision (fst sample_committed) = cd_revision sample_control_db + 1 \<and> sn_revision (snd sample_committed) = 1 \<and>
   load_snapshot_in_transaction sample_env ''a:1'' (fst sample_committed) = Ok (snd sample_committed)"
  using control_writes_atomic [OF sample_write(1)] sample_write(3) by simp





end
