(* ===== verification/Domain_Capabilities.thy ===== *)
theory Domain_Capabilities
  imports Control_Snapshot
begin

text \<open>
  \<open>src/domain/capabilities.rs\<close>: the capability matrix the gateway reports. It is built from the
  published snapshot by resolving every published model over every protocol, one row per upstream line
  and one cell per protocol.

  The \<open>BTreeMap\<close> of rows is an association list that is sorted by key when the rows are taken out.
\<close>

section \<open>Types\<close>

datatype capability_route_status = Routable | Unroutable

datatype binding_selection = Primary | Fallback

record runtime_source_ref =
  srf_source_id :: string
  srf_display_name :: "string option"

record runtime_account_ref =
  arf_account_id :: string
  arf_display_name :: "string option"
  arf_enabled :: "bool option"

record conversion_hop =
  hop_protocol_from :: protocol
  hop_protocol_to :: protocol
  hop_mode :: protocol_mode
  hop_adapter :: "string option"

record effective_protocol_capability =
  ec_protocol_in :: protocol
  ec_status :: capability_route_status
  ec_binding_id :: "i64 option"
  ec_selection :: "binding_selection option"
  ec_selection_rank :: "nat option"
  ec_protocol_upstream :: "protocol option"
  ec_endpoint :: "string option"
  ec_mode :: "protocol_mode option"
  ec_adapter :: "string option"
  ec_conversion_chain :: "conversion_hop list"
  ec_effective_capabilities :: capabilities
  ec_degraded :: bool
  ec_degraded_features :: "string list"
  ec_allow_lossy_conversion :: "bool option"
  ec_error :: "route_resolution_error option"

record route_capability_matrix =
  rm_route_id :: string
  rm_source :: runtime_source_ref
  rm_account :: runtime_account_ref
  rm_model :: string
  rm_model_display_name :: string
  rm_upstream_model_id :: string
  rm_protocols :: "effective_protocol_capability list"

record capability_matrix_response =
  cm_version :: string
  cm_snapshot_revision :: int
  cm_snapshot_generated_at :: date_time
  cm_data :: "route_capability_matrix list"

datatype matrix_build_error =
    NotRuntimeSnapshot
  | MissingRuntimeBindingId string protocol
  | InvalidRuntimeMode string i64 string
  | DuplicateRuntimeBinding string i64 protocol

text \<open>\<open>MatrixKey\<close>: model, route, source, account and upstream model, ordered field by field.\<close>

type_synonym matrix_key = "string \<times> string \<times> string \<times> string \<times> string"

record route_matrix_builder =
  mb_route_id :: string
  mb_source :: runtime_source_ref
  mb_account :: runtime_account_ref
  mb_model :: string
  mb_model_display_name :: string
  mb_upstream_model_id :: string
  mb_protocols :: "(protocol, effective_protocol_capability) hmap"

section \<open>Cells\<close>

definition routable_cell ::
  "protocol \<Rightarrow> resolved_binding \<Rightarrow> binding_selection \<Rightarrow> nat \<Rightarrow> protocol_mode \<Rightarrow> bool \<Rightarrow> effective_protocol_capability" where
  "routable_cell protocol_in b selection rank mode allow_lossy_conversion =
     \<lparr>ec_protocol_in = protocol_in, ec_status = Routable, ec_binding_id = Some (rb_binding_id b),
      ec_selection = Some selection, ec_selection_rank = Some rank, ec_protocol_upstream = Some (rb_protocol_upstream b),
      ec_endpoint = Some (rb_upstream_endpoint b), ec_mode = Some mode, ec_adapter = rb_adapter b,
      ec_conversion_chain = [\<lparr>hop_protocol_from = protocol_in, hop_protocol_to = rb_protocol_upstream b, hop_mode = mode,
        hop_adapter = rb_adapter b\<rparr>],
      ec_effective_capabilities = rb_effective_capabilities b, ec_degraded = (rb_degraded_features b \<noteq> []),
      ec_degraded_features = rb_degraded_features b, ec_allow_lossy_conversion = Some allow_lossy_conversion, ec_error = None\<rparr>"

definition unroutable_cell :: "protocol \<Rightarrow> route_resolution_error \<Rightarrow> effective_protocol_capability" where
  "unroutable_cell protocol_in e =
     \<lparr>ec_protocol_in = protocol_in, ec_status = Unroutable, ec_binding_id = None, ec_selection = None,
      ec_selection_rank = None, ec_protocol_upstream = None, ec_endpoint = None, ec_mode = None, ec_adapter = None,
      ec_conversion_chain = [], ec_effective_capabilities = capabilities_default, ec_degraded = False,
      ec_degraded_features = [], ec_allow_lossy_conversion = None, ec_error = Some e\<rparr>"

definition runtime_mode :: "string \<Rightarrow> i64 \<Rightarrow> string \<Rightarrow> (protocol_mode, matrix_build_error) result" where
  "runtime_mode route_id binding_id mode =
     (if mode = ''native'' then Ok ProtocolMode_Native else if mode = ''adapter'' then Ok ProtocolMode_Adapter
      else Err (InvalidRuntimeMode route_id binding_id mode))"

section \<open>Building\<close>

definition matrix_key :: "published_model \<Rightarrow> string \<Rightarrow> resolved_binding \<Rightarrow> matrix_key" where
  "matrix_key model route_id b = (pb_id model, route_id, rb_source_id b, rb_account_id b, rb_upstream_model_id b)"

definition new_matrix_row :: "gateway_config \<Rightarrow> published_model \<Rightarrow> string \<Rightarrow> resolved_binding \<Rightarrow> route_matrix_builder" where
  "new_matrix_row config model route_id b =
     \<lparr>mb_route_id = route_id,
      mb_source = \<lparr>srf_source_id = rb_source_id b, srf_display_name = map_option pv_name (provider config (rb_source_id b))\<rparr>,
      mb_account = \<lparr>arf_account_id = rb_account_id b,
        arf_display_name = map_option ac_display_name (account config (rb_account_id b)),
        arf_enabled = map_option ac_enabled (account config (rb_account_id b))\<rparr>,
      mb_model = pb_id model, mb_model_display_name = pb_display_name model,
      mb_upstream_model_id = rb_upstream_model_id b, mb_protocols = []\<rparr>"

definition insert_matrix_binding ::
  "gateway_config \<Rightarrow> published_model \<Rightarrow> string \<Rightarrow> protocol \<Rightarrow> bool \<Rightarrow> resolved_binding \<Rightarrow> binding_selection \<Rightarrow> nat
   \<Rightarrow> (matrix_key, route_matrix_builder) hmap \<Rightarrow> ((matrix_key, route_matrix_builder) hmap, matrix_build_error) result" where
  "insert_matrix_binding config model route_id protocol_in lossy b selection rank rows =
     and_then (runtime_mode route_id (rb_binding_id b) (rb_mode b)) (\<lambda>mode.
       let key = matrix_key model route_id b;
           row = (case hget rows key of Some row \<Rightarrow> row | None \<Rightarrow> new_matrix_row config model route_id b);
           cell = routable_cell protocol_in b selection rank mode lossy
       in if hget (mb_protocols row) protocol_in \<noteq> None
          then Err (DuplicateRuntimeBinding route_id (rb_binding_id b) protocol_in)
          else Ok (hinsert key (row\<lparr>mb_protocols := hinsert protocol_in cell (mb_protocols row)\<rparr>) rows))"

text \<open>The fields of a resolved route that describe its primary binding.\<close>

definition primary_binding :: "resolved_route \<Rightarrow> i64 \<Rightarrow> resolved_binding" where
  "primary_binding r binding_id =
     \<lparr>rb_binding_id = binding_id, rb_source_id = rr_source_id r, rb_provider_id = rr_provider_id r,
      rb_account_id = rr_primary_account_id r, rb_upstream_model_id = rr_upstream_model_id r,
      rb_protocol_upstream = rr_protocol_upstream r, rb_upstream_endpoint = rr_upstream_endpoint r, rb_mode = rr_mode r,
      rb_adapter = rr_adapter r, rb_effective_capabilities = rr_effective_capabilities r,
      rb_degraded_features = rr_degraded_features r\<rparr>"

fun insert_fallback_bindings ::
  "gateway_config \<Rightarrow> published_model \<Rightarrow> resolved_route \<Rightarrow> nat \<Rightarrow> resolved_binding list
   \<Rightarrow> (matrix_key, route_matrix_builder) hmap \<Rightarrow> ((matrix_key, route_matrix_builder) hmap, matrix_build_error) result" where
  "insert_fallback_bindings config model r rank [] rows = Ok rows"
| "insert_fallback_bindings config model r rank (b # bs) rows =
     and_then (insert_matrix_binding config model (rr_route_id r) (rr_protocol_in r) (rr_allow_lossy_conversion r) b Fallback rank rows)
       (insert_fallback_bindings config model r (Suc rank) bs)"

definition insert_resolved_route ::
  "gateway_config \<Rightarrow> published_model \<Rightarrow> resolved_route \<Rightarrow> (matrix_key, route_matrix_builder) hmap
   \<Rightarrow> ((matrix_key, route_matrix_builder) hmap, matrix_build_error) result" where
  "insert_resolved_route config model r rows =
     and_then (ok_or (MissingRuntimeBindingId (rr_route_id r) (rr_protocol_in r)) (rr_binding_id r)) (\<lambda>binding_id.
     and_then (insert_matrix_binding config model (rr_route_id r) (rr_protocol_in r) (rr_allow_lossy_conversion r)
                (primary_binding r binding_id) Primary 0 rows)
       (insert_fallback_bindings config model r 1 (rr_fallback_bindings r)))"

type_synonym resolutions = "(string \<times> protocol, route_resolution_error option) hmap"

fun matrix_loop ::
  "adapter_registry \<Rightarrow> gateway_config \<Rightarrow> route_resolver \<Rightarrow> (published_model \<times> protocol) list
   \<Rightarrow> (matrix_key, route_matrix_builder) hmap \<times> resolutions
   \<Rightarrow> ((matrix_key, route_matrix_builder) hmap \<times> resolutions, matrix_build_error) result" where
  "matrix_loop reg config resolver [] st = Ok st"
| "matrix_loop reg config resolver ((model, p) # rest) (rows, resolutions) =
     (case resolve_detailed reg resolver p (pb_id model) of
        Ok resolved \<Rightarrow>
          and_then (insert_resolved_route config model resolved rows) (\<lambda>rows.
            matrix_loop reg config resolver rest (rows, hinsert (pb_id model, p) None resolutions))
      | Err e \<Rightarrow> matrix_loop reg config resolver rest (rows, hinsert (pb_id model, p) (Some e) resolutions))"

definition finish_cell :: "resolutions \<Rightarrow> route_matrix_builder \<Rightarrow> protocol \<Rightarrow> effective_protocol_capability" where
  "finish_cell resolutions row p =
     (case hget (mb_protocols row) p of
        Some cell \<Rightarrow> cell
      | None \<Rightarrow> unroutable_cell p
          (case hget resolutions (mb_model row, p) of
             Some (Some e) \<Rightarrow> e
           | _ \<Rightarrow> \<lparr>re_code = ''runtime_binding_not_available'',
                  re_message = ''runtime snapshot has no confirmed, available binding for source '' @
                    quoted (srf_source_id (mb_source row)) @ '' account '' @ quoted (arf_account_id (mb_account row)) @
                    '' upstream model '' @ quoted (mb_upstream_model_id row) @ '' on '' @ protocol_to_string p,
                  re_route_id = Some (mb_route_id row)\<rparr>))"

definition finish_matrix_row :: "resolutions \<Rightarrow> route_matrix_builder \<Rightarrow> route_capability_matrix" where
  "finish_matrix_row resolutions row =
     \<lparr>rm_route_id = mb_route_id row, rm_source = mb_source row, rm_account = mb_account row, rm_model = mb_model row,
      rm_model_display_name = mb_model_display_name row, rm_upstream_model_id = mb_upstream_model_id row,
      rm_protocols = map (finish_cell resolutions row) protocol_ALL\<rparr>"

definition from_runtime_snapshot ::
  "adapter_registry \<Rightarrow> gateway_config \<Rightarrow> route_resolver \<Rightarrow> published_model list \<Rightarrow> int \<Rightarrow> date_time
   \<Rightarrow> (capability_matrix_response, matrix_build_error) result" where
  "from_runtime_snapshot reg config resolver models revision generated_at =
     (if \<not> is_runtime_snapshot resolver then Err NotRuntimeSnapshot
      else and_then (matrix_loop reg config resolver (List.product models protocol_ALL) ([], [])) (\<lambda>(rows, resolutions).
        Ok \<lparr>cm_version = ''v1'', cm_snapshot_revision = revision, cm_snapshot_generated_at = generated_at,
            cm_data = map (finish_matrix_row resolutions) (map snd (sort_key fst rows))\<rparr>))"

section \<open>What the loop collects\<close>

text \<open>The bindings of a resolved route in the order they are tried, and the cell each one yields.\<close>

definition offered_bindings :: "resolved_route \<Rightarrow> resolved_binding list" where
  "offered_bindings r = primary_binding r (the (rr_binding_id r)) # rr_fallback_bindings r"

definition binding_cell ::
  "protocol \<Rightarrow> resolved_binding \<Rightarrow> binding_selection \<Rightarrow> nat \<Rightarrow> bool \<Rightarrow> effective_protocol_capability" where
  "binding_cell p b selection rank lossy =
     routable_cell p b selection rank (if rb_mode b = ''native'' then ProtocolMode_Native else ProtocolMode_Adapter) lossy"

definition offered_cell :: "resolved_route \<Rightarrow> nat \<Rightarrow> effective_protocol_capability" where
  "offered_cell r i =
     binding_cell (rr_protocol_in r) (offered_bindings r ! i) (if i = 0 then Primary else Fallback) i
       (rr_allow_lossy_conversion r)"

definition cell_at :: "(matrix_key, route_matrix_builder) hmap \<Rightarrow> matrix_key \<Rightarrow> protocol \<Rightarrow> effective_protocol_capability option" where
  "cell_at rows k p = Option.bind (hget rows k) (\<lambda>row. hget (mb_protocols row) p)"

definition known_mode :: "string \<Rightarrow> bool" where
  "known_mode mode \<longleftrightarrow> mode = ''native'' \<or> mode = ''adapter''"

text \<open>A row carries the identity of its key, and only cells of their own protocol.\<close>

definition rows_ok :: "(matrix_key, route_matrix_builder) hmap \<Rightarrow> bool" where
  "rows_ok rows \<longleftrightarrow> hmap_ok rows \<and>
     (\<forall>(k, row) \<in> set rows. k = (mb_model row, mb_route_id row, srf_source_id (mb_source row), arf_account_id (mb_account row),
        mb_upstream_model_id row) \<and>
        (\<forall>p c. hget (mb_protocols row) p = Some c \<longrightarrow> ec_protocol_in c = p \<and> ec_status c = Routable))"

definition cells :: "(matrix_key, route_matrix_builder) hmap \<Rightarrow> (matrix_key \<times> protocol \<times> effective_protocol_capability) set" where
  "cells rows = {(k, p, c). cell_at rows k p = Some c}"

lemma cells_Nil [simp]: "cells [] = {}"
  by (simp add: cells_def cell_at_def)

lemma insert_matrix_binding_ok:
  assumes "rows_ok rows" "known_mode (rb_mode b)" "\<And>c. (matrix_key model rid b, p, c) \<notin> cells rows"
  shows "\<exists>rows'. insert_matrix_binding config model rid p lossy b selection rank rows = Ok rows' \<and> rows_ok rows' \<and>
    cells rows' = insert (matrix_key model rid b, p, binding_cell p b selection rank lossy) (cells rows)"
proof -
  let ?cell = "binding_cell p b selection rank lossy"
  let ?k = "matrix_key model rid b"
  define row where "row = (case hget rows ?k of Some row \<Rightarrow> row | None \<Rightarrow> new_matrix_row config model rid b)"
  have mode: "runtime_mode rid (rb_binding_id b) (rb_mode b) = Ok (if rb_mode b = ''native'' then ProtocolMode_Native else ProtocolMode_Adapter)"
    using assms(2) by (auto simp: known_mode_def runtime_mode_def)
  have row_ok: "?k = (mb_model row, mb_route_id row, srf_source_id (mb_source row), arf_account_id (mb_account row), mb_upstream_model_id row)"
    "\<And>q c. hget (mb_protocols row) q = Some c \<Longrightarrow> ec_protocol_in c = q \<and> ec_status c = Routable"
  proof -
    show "?k = (mb_model row, mb_route_id row, srf_source_id (mb_source row), arf_account_id (mb_account row), mb_upstream_model_id row)"
      using assms(1) by (auto simp: row_def rows_ok_def new_matrix_row_def matrix_key_def split: option.split dest!: hget_set)
    show "ec_protocol_in c = q \<and> ec_status c = Routable" if "hget (mb_protocols row) q = Some c" for q c
    proof (cases "hget rows ?k")
      case (Some r)
      then have "(?k, r) \<in> set rows" "row = r" by (simp_all add: hget_set row_def)
      with assms(1) that show ?thesis by (auto simp: rows_ok_def)
    qed (use that in \<open>simp add: row_def new_matrix_row_def\<close>)
  qed
  have old: "hget (mb_protocols row) q = cell_at rows ?k q" for q
    by (simp add: row_def cell_at_def new_matrix_row_def split: option.split)
  then have free: "hget (mb_protocols row) p = None" using assms(3) by (auto simp: cells_def)
  let ?rows = "hinsert ?k (row\<lparr>mb_protocols := hinsert p ?cell (mb_protocols row)\<rparr>) rows"
  have ins: "insert_matrix_binding config model rid p lossy b selection rank rows = Ok ?rows"
    unfolding insert_matrix_binding_def mode using free by (simp add: row_def [symmetric] binding_cell_def Let_def)
  have "cell_at ?rows k q = (if (k, q) = (?k, p) then Some ?cell else cell_at rows k q)" for k q
    using old by (simp add: cell_at_def)
  note at = this
  have "(k, q, c) \<in> cells ?rows \<longleftrightarrow> (k, q, c) \<in> insert (?k, p, ?cell) (cells rows)" for k q c
    using at [of k q] assms(3) [of c] by (cases "(k, q) = (?k, p)") (auto simp: cells_def)
  then have "cells ?rows = insert (?k, p, ?cell) (cells rows)" by (intro set_eqI) (metis prod_cases3)
  moreover have "rows_ok ?rows"
  proof -
    have "hmap_ok ?rows" using assms(1) by (simp add: rows_ok_def)
    moreover have "k = (mb_model r, mb_route_id r, srf_source_id (mb_source r), arf_account_id (mb_account r), mb_upstream_model_id r) \<and>
        (\<forall>q c. hget (mb_protocols r) q = Some c \<longrightarrow> ec_protocol_in c = q \<and> ec_status c = Routable)" if "(k, r) \<in> set ?rows" for k r
    proof -
      have "hget ?rows k = Some r" using hget_iff [OF \<open>hmap_ok ?rows\<close>, of k r] that by blast
      note found = this
      show ?thesis
      proof (cases "k = ?k")
        case True
        with found have "r = row\<lparr>mb_protocols := hinsert p ?cell (mb_protocols row)\<rparr>" by simp
        with True row_ok show ?thesis by (simp add: binding_cell_def routable_cell_def)
      next
        case False
        with found have "(k, r) \<in> set rows" by (simp add: hget_set)
        with assms(1) show ?thesis by (auto simp: rows_ok_def)
      qed
    qed
    ultimately show ?thesis by (auto simp: rows_ok_def)
  qed
  ultimately show ?thesis using ins by blast
qed

lemma insert_fallback_bindings_ok:
  assumes "rows_ok rows" "list_all (\<lambda>b. known_mode (rb_mode b)) bs" "distinct (map (matrix_key model (rr_route_id r)) bs)"
    and "\<And>b c. b \<in> set bs \<Longrightarrow> (matrix_key model (rr_route_id r) b, rr_protocol_in r, c) \<notin> cells rows"
  shows "\<exists>rows'. insert_fallback_bindings config model r rank bs rows = Ok rows' \<and> rows_ok rows' \<and>
    cells rows' = cells rows \<union> {(matrix_key model (rr_route_id r) (bs ! j), rr_protocol_in r,
       binding_cell (rr_protocol_in r) (bs ! j) Fallback (rank + j) (rr_allow_lossy_conversion r)) | j. j < length bs}"
  using assms
proof (induction bs arbitrary: rank rows)
  case (Cons b bs)
  let ?key = "matrix_key model (rr_route_id r)"
  let ?cell = "\<lambda>b rank. binding_cell (rr_protocol_in r) b Fallback rank (rr_allow_lossy_conversion r)"
  from Cons.prems insert_matrix_binding_ok [where rows = rows and b = b and model = model and rid = "rr_route_id r" and p = "rr_protocol_in r"
      and selection = Fallback and rank = rank and lossy = "rr_allow_lossy_conversion r" and config = config]
  obtain rows1 where rows1: "insert_matrix_binding config model (rr_route_id r) (rr_protocol_in r) (rr_allow_lossy_conversion r) b Fallback rank rows = Ok rows1"
    "rows_ok rows1" "cells rows1 = insert (?key b, rr_protocol_in r, ?cell b rank) (cells rows)" by fastforce
  have "(?key b', rr_protocol_in r, c) \<notin> cells rows1" if "b' \<in> set bs" for b' c
  proof -
    have "?key b' \<noteq> ?key b" using that Cons.prems(3) by (metis distinct.simps(2) image_eqI list.set_map list.simps(9))
    with that Cons.prems(4) rows1(3) show ?thesis by auto
  qed
  with Cons.IH [OF rows1(2), of "Suc rank"] Cons.prems(2,3) obtain rows2 where rows2:
    "insert_fallback_bindings config model r (Suc rank) bs rows1 = Ok rows2" "rows_ok rows2"
    "cells rows2 = cells rows1 \<union> {(?key (bs ! j), rr_protocol_in r, ?cell (bs ! j) (Suc rank + j)) | j. j < length bs}" by auto
  have split: "{(?key ((b # bs) ! j), rr_protocol_in r, ?cell ((b # bs) ! j) (rank + j)) | j. j < length (b # bs)} =
      insert (?key b, rr_protocol_in r, ?cell b rank) {(?key (bs ! j), rr_protocol_in r, ?cell (bs ! j) (Suc rank + j)) | j. j < length bs}"
    (is "?l = ?r")
  proof (intro set_eqI iffI)
    fix x
    assume "x \<in> ?l"
    then obtain j where "j < length (b # bs)" "x = (?key ((b # bs) ! j), rr_protocol_in r, ?cell ((b # bs) ! j) (rank + j))" by blast
    then show "x \<in> ?r" by (cases j) auto
  next
    fix x
    assume "x \<in> ?r"
    then consider "x = (?key b, rr_protocol_in r, ?cell b rank)"
      | j where "j < length bs" "x = (?key (bs ! j), rr_protocol_in r, ?cell (bs ! j) (Suc rank + j))" by blast
    then show "x \<in> ?l"
    proof cases
      case 1
      then show ?thesis by (intro CollectI exI [of _ 0]) simp
    next
      case 2
      then show ?thesis by (intro CollectI exI [of _ "Suc j"]) simp
    qed
  qed
  from rows1 rows2 split show ?case by (intro exI [of _ rows2]) auto
qed auto

text \<open>What a resolved route offers, when its bindings are fit to be reported.\<close>

definition reportable :: "published_model \<Rightarrow> resolved_route \<Rightarrow> bool" where
  "reportable model r \<longleftrightarrow> rr_binding_id r \<noteq> None \<and> list_all (\<lambda>b. known_mode (rb_mode b)) (offered_bindings r) \<and>
     distinct (map (matrix_key model (rr_route_id r)) (offered_bindings r))"

definition offers :: "published_model \<Rightarrow> resolved_route \<Rightarrow> (matrix_key \<times> protocol \<times> effective_protocol_capability) set" where
  "offers model r =
     {(matrix_key model (rr_route_id r) (offered_bindings r ! i), rr_protocol_in r, offered_cell r i) | i. i < length (offered_bindings r)}"

lemma insert_resolved_route_ok:
  assumes "rows_ok rows" "reportable model r" "\<And>b c. b \<in> set (offered_bindings r) \<Longrightarrow> (matrix_key model (rr_route_id r) b, rr_protocol_in r, c) \<notin> cells rows"
  shows "\<exists>rows'. insert_resolved_route config model r rows = Ok rows' \<and> rows_ok rows' \<and> cells rows' = cells rows \<union> offers model r"
proof -
  let ?key = "matrix_key model (rr_route_id r)"
  from assms(2) obtain bid where bid: "rr_binding_id r = Some bid" by (auto simp: reportable_def)
  let ?b = "primary_binding r bid"
  have offered: "offered_bindings r = ?b # rr_fallback_bindings r" by (simp add: offered_bindings_def bid)
  note ok = assms(2) [unfolded reportable_def offered]
  from insert_matrix_binding_ok [OF assms(1), where b = ?b and model = model and rid = "rr_route_id r" and p = "rr_protocol_in r"
      and selection = Primary and rank = 0 and lossy = "rr_allow_lossy_conversion r" and config = config] ok assms(3) offered
  obtain rows1 where rows1: "insert_matrix_binding config model (rr_route_id r) (rr_protocol_in r) (rr_allow_lossy_conversion r) ?b Primary 0 rows = Ok rows1"
    "rows_ok rows1" "cells rows1 = insert (?key ?b, rr_protocol_in r, offered_cell r 0) (cells rows)"
    by (auto simp: offered_cell_def Let_def)
  have "(?key b, rr_protocol_in r, c) \<notin> cells rows1" if "b \<in> set (rr_fallback_bindings r)" for b c
  proof -
    from ok have "?key ?b \<notin> ?key ` set (rr_fallback_bindings r)" by simp
    with that have "?key b \<noteq> ?key ?b" by (metis imageI)
    moreover have "(?key b, rr_protocol_in r, c) \<notin> cells rows" using that assms(3) by (simp add: offered)
    ultimately show ?thesis by (simp add: rows1(3))
  qed
  with insert_fallback_bindings_ok [OF rows1(2), of "rr_fallback_bindings r" model r config 1] ok obtain rows2 where rows2:
    "insert_fallback_bindings config model r 1 (rr_fallback_bindings r) rows1 = Ok rows2" "rows_ok rows2"
    "cells rows2 = cells rows1 \<union> {(?key (rr_fallback_bindings r ! j), rr_protocol_in r, offered_cell r (Suc j)) | j. j < length (rr_fallback_bindings r)}"
    by (auto simp: offered_cell_def offered Let_def)
  have "offers model r = insert (?key ?b, rr_protocol_in r, offered_cell r 0)
      {(?key (rr_fallback_bindings r ! j), rr_protocol_in r, offered_cell r (Suc j)) | j. j < length (rr_fallback_bindings r)}" (is "?l = ?r")
  proof (intro set_eqI iffI)
    fix x
    assume "x \<in> ?l"
    then obtain i where "i < length (offered_bindings r)" "x = (?key (offered_bindings r ! i), rr_protocol_in r, offered_cell r i)"
      by (auto simp: offers_def)
    then show "x \<in> ?r" by (cases i) (auto simp: offered)
  next
    fix x
    assume "x \<in> ?r"
    then consider "x = (?key ?b, rr_protocol_in r, offered_cell r 0)"
      | j where "j < length (rr_fallback_bindings r)" "x = (?key (rr_fallback_bindings r ! j), rr_protocol_in r, offered_cell r (Suc j))" by blast
    then show "x \<in> ?l"
    proof cases
      case 1
      then show ?thesis unfolding offers_def by (intro CollectI exI [of _ 0]) (simp add: offered)
    next
      case 2
      then show ?thesis unfolding offers_def by (intro CollectI exI [of _ "Suc j"]) (simp add: offered)
    qed
  qed
  with rows1 rows2 bid show ?thesis by (auto simp: insert_resolved_route_def)
qed

text \<open>The whole loop: the cells are the offers of all resolved routes.\<close>

lemma offers_key: "(k, q, c) \<in> offers model r \<Longrightarrow> fst k = pb_id model \<and> q = rr_protocol_in r"
  by (auto simp: offers_def matrix_key_def)

lemma matrix_loop_ok:
  assumes "rows_ok rows" "distinct (map (\<lambda>(model, p). (pb_id model, p)) xs)"
    and fit: "\<And>model p r. (model, p) \<in> set xs \<Longrightarrow> resolve_detailed reg resolver p (pb_id model) = Ok r \<Longrightarrow>
      reportable model r \<and> rr_protocol_in r = p"
    and free: "\<And>model p k c. (model, p) \<in> set xs \<Longrightarrow> (k, p, c) \<in> cells rows \<Longrightarrow> fst k \<noteq> pb_id model"
  shows "\<exists>rows' resolutions'. matrix_loop reg config resolver xs (rows, resolutions) = Ok (rows', resolutions') \<and> rows_ok rows' \<and>
    cells rows' = cells rows \<union> {z. \<exists>model p r. (model, p) \<in> set xs \<and> resolve_detailed reg resolver p (pb_id model) = Ok r \<and> z \<in> offers model r}"
  using assms
proof (induction xs arbitrary: rows resolutions)
  case (Cons x xs)
  obtain model p where x: "x = (model, p)" by (cases x)
  show ?case
  proof (cases "resolve_detailed reg resolver p (pb_id model)")
    case (Inl e)
    have "{z. \<exists>m q r. (m, q) \<in> set (x # xs) \<and> resolve_detailed reg resolver q (pb_id m) = Ok r \<and> z \<in> offers m r} =
        {z. \<exists>m q r. (m, q) \<in> set xs \<and> resolve_detailed reg resolver q (pb_id m) = Ok r \<and> z \<in> offers m r}"
      using Inl x by auto
    moreover have "\<exists>rows' resolutions'. matrix_loop reg config resolver xs (rows, hinsert (pb_id model, p) (Some e) resolutions) = Ok (rows', resolutions') \<and>
      rows_ok rows' \<and> cells rows' = cells rows \<union> {z. \<exists>m q r. (m, q) \<in> set xs \<and> resolve_detailed reg resolver q (pb_id m) = Ok r \<and> z \<in> offers m r}"
    proof (rule Cons.IH [OF Cons.prems(1)])
      show "distinct (map (\<lambda>(model, p). (pb_id model, p)) xs)" using Cons.prems(2) by simp
      show "reportable m s \<and> rr_protocol_in s = q" if "(m, q) \<in> set xs" "resolve_detailed reg resolver q (pb_id m) = Ok s" for m q s
        using Cons.prems(3) [of m q s] that by simp
      show "fst k \<noteq> pb_id m" if "(m, q) \<in> set xs" "(k, q, c) \<in> cells rows" for m q k c
        using Cons.prems(4) [of m q k c] that by simp
    qed
    ultimately show ?thesis by (simp add: x Inl)
  next
    case (Inr r)
    from Cons.prems(3) [of model p r] x Inr have r: "reportable model r" "rr_protocol_in r = p" by simp_all
    have "(matrix_key model (rr_route_id r) b, rr_protocol_in r, c) \<notin> cells rows" for b c
      using Cons.prems(4) [of model p "matrix_key model (rr_route_id r) b" c] x r(2) by (auto simp: matrix_key_def)
    from insert_resolved_route_ok [OF Cons.prems(1) r(1) this, of config] obtain rows1 where rows1:
      "insert_resolved_route config model r rows = Ok rows1" "rows_ok rows1" "cells rows1 = cells rows \<union> offers model r" by blast
    have union: "{z. \<exists>m q s. (m, q) \<in> set (x # xs) \<and> resolve_detailed reg resolver q (pb_id m) = Ok s \<and> z \<in> offers m s} =
        offers model r \<union> {z. \<exists>m q s. (m, q) \<in> set xs \<and> resolve_detailed reg resolver q (pb_id m) = Ok s \<and> z \<in> offers m s}"
      using Inr x by auto
    have "\<exists>rows' resolutions'. matrix_loop reg config resolver xs (rows1, hinsert (pb_id model, p) None resolutions) = Ok (rows', resolutions') \<and>
      rows_ok rows' \<and> cells rows' = cells rows1 \<union> {z. \<exists>m q s. (m, q) \<in> set xs \<and> resolve_detailed reg resolver q (pb_id m) = Ok s \<and> z \<in> offers m s}"
    proof (rule Cons.IH [OF rows1(2)])
      show "distinct (map (\<lambda>(model, p). (pb_id model, p)) xs)" using Cons.prems(2) by simp
      show "reportable m s \<and> rr_protocol_in s = q" if "(m, q) \<in> set xs" "resolve_detailed reg resolver q (pb_id m) = Ok s" for m q s
        using Cons.prems(3) [of m q s] that by simp
      show "fst k \<noteq> pb_id m" if m: "(m, q) \<in> set xs" "(k, q, c) \<in> cells rows1" for m q k c
      proof -
        have "(pb_id m, q) \<noteq> (pb_id model, p)"
          using Cons.prems(2) m(1) x by (force simp: image_iff)
        with m(2) rows1(3) offers_key [of k q c model r] Cons.prems(4) [of m q k c] m(1) r(2) show ?thesis by auto
      qed
    qed
    with rows1 union show ?thesis by (auto simp: x Inr Un_assoc)
  qed
qed auto

section \<open>The matrix of a published snapshot\<close>

lemma runtime_offered:
  assumes "resolve_runtime_route routes p m = Ok r"
  shows "\<exists>route. route \<in> set routes \<and> rt_protocol route = p \<and> rt_model route = m \<and> rt_bindings route = offered_bindings r \<and>
    rr_route_id r = rt_route_id route \<and> rr_protocol_in r = p \<and> rr_binding_id r \<noteq> None"
proof -
  from assms obtain route where f: "List.find (\<lambda>route. rt_protocol route = p \<and> rt_model route = m) routes = Some route"
    by (auto simp: resolve_runtime_route_def split: option.splits)
  then have "route \<in> set routes \<and> rt_protocol route = p \<and> rt_model route = m" by (metis (mono_tags, lifting) find_Some_iff nth_mem)
  with assms f show ?thesis
    by (intro exI [of _ route]) (auto simp: resolve_runtime_route_def offered_bindings_def primary_binding_def split: list.splits)
qed

lemma resolve_row_mode:
  assumes "resolve_row reg de x = Ok (e, b)"
  shows "known_mode (rb_mode b)" "rb_upstream_model_id b = bi_upstream_model_id (sr_binding x)"
  using assms by (auto simp: resolve_row_def snapshot_binding_def reject_def ok_or_Ok Let_def and_then_Ok known_mode_def split: if_splits)

lemma published_rows_distinct:
  assumes "keys_ok db"
  shows "distinct (map row_of (published_rows reg de le db))"
proof -
  have "map row_of (accepted_rows reg de xs) = filter (\<lambda>x. is_ok (resolve_row reg de x)) xs" for xs
    by (induction xs rule: rev_induct) (auto split: sum.splits)
  with distinct_join [OF assms] show ?thesis by (simp add: published_rows_def snapshot_rows_def)
qed

lemma published_line_determined:
  assumes "keys_ok db" "y \<in> set (published_rows reg de le db)" "z \<in> set (published_rows reg de le db)"
    and "row_key (row_of y) = row_key (row_of z)" "matrix_key model rid (binding_of y) = matrix_key model rid (binding_of z)"
  shows "row_of y = row_of z"
proof -
  note y = published_row [OF assms(2)] and z = published_row [OF assms(3)]
  note jy = join_row [OF y(1)] and jz = join_row [OF z(1)]
  note keys = assms(1) [unfolded keys_ok_def]
  have route: "sr_route (row_of y) = sr_route (row_of z)"
    using keys assms(4) by (intro key_unique [of ro_id, OF _ jy(1) jz(1)]) (simp_all add: row_key_def)
  have "binding_key (sr_binding (row_of y)) = binding_key (sr_binding (row_of z))"
    using assms(4,5) route jy(7-9,11) jz(7-9,11) resolve_row_binding [OF y(2)] resolve_row_binding [OF z(2)] resolve_row_mode(2) [OF y(2)] resolve_row_mode(2) [OF z(2)]
    by (simp add: binding_key_def matrix_key_def row_key_def)
  then have "sr_binding (row_of y) = sr_binding (row_of z)"
    using keys by (intro key_unique [of binding_key, OF _ jy(3) jz(3)]) simp_all
  with route show ?thesis by (intro join_row_determined [OF assms(1) y(1) z(1)]) simp_all
qed

lemma snapshot_reportable:
  assumes "build_snapshot reg de le db addr revision t = Ok snap" "keys_ok db"
    and "resolve_detailed reg' (sn_resolver snap) p (pb_id model) = Ok r"
  shows "reportable model r" "rr_protocol_in r = p"
proof -
  let ?ys = "published_rows reg de le db"
  from assms(3) build_snapshot_Ok(3) [OF assms(1)] have "resolve_runtime_route (collect_routes ?ys) p (pb_id model) = Ok r"
    by (simp add: resolve_detailed_def from_runtime_def)
  from runtime_offered [OF this] obtain route where route: "route \<in> set (collect_routes ?ys)" "rt_bindings route = offered_bindings r"
    "rr_protocol_in r = p" "rr_binding_id r \<noteq> None" by blast
  let ?zs = "filter (\<lambda>y. row_key (row_of y) = route_key route) ?ys"
  from collect_routes_bindings [OF route(1)] route(2) have offered: "offered_bindings r = map binding_of ?zs" by simp
  have "distinct (map row_of ?zs)" using published_rows_distinct [OF assms(2)] by (simp add: distinct_map_filter)
  then have "distinct ?zs" "inj_on row_of (set ?zs)" by (simp_all add: distinct_map)
  moreover have "inj_on (\<lambda>y. matrix_key model (rr_route_id r) (binding_of y)) (set ?zs)"
  proof (rule inj_onI)
    fix y z
    assume yz: "y \<in> set ?zs" "z \<in> set ?zs" "matrix_key model (rr_route_id r) (binding_of y) = matrix_key model (rr_route_id r) (binding_of z)"
    then have "row_of y = row_of z" by (intro published_line_determined [OF assms(2) _ _ _ yz(3)]) auto
    with yz \<open>inj_on row_of (set ?zs)\<close> show "y = z" by (auto dest: inj_onD)
  qed
  ultimately have "distinct (map (matrix_key model (rr_route_id r)) (offered_bindings r))"
    unfolding offered by (simp add: distinct_map comp_def)
  moreover have "list_all (\<lambda>b. known_mode (rb_mode b)) (offered_bindings r)"
    unfolding offered list_all_iff using resolve_row_mode(1) [OF published_row(2)] by auto
  ultimately show "reportable model r" "rr_protocol_in r = p" using route by (simp_all add: reportable_def)
qed

text \<open>A cell the matrix reports as routable, under the identity of its row.\<close>

definition reports ::
  "capability_matrix_response \<Rightarrow> string \<Rightarrow> string \<Rightarrow> string \<times> string \<times> string \<Rightarrow> effective_protocol_capability \<Rightarrow> bool" where
  "reports response model route_id line cell \<longleftrightarrow>
     (\<exists>row \<in> set (cm_data response). rm_model row = model \<and> rm_route_id row = route_id \<and>
        line = (srf_source_id (rm_source row), arf_account_id (rm_account row), rm_upstream_model_id row) \<and>
        cell \<in> set (rm_protocols row) \<and> ec_status cell = Routable)"

lemma reports_cells:
  assumes "rows_ok rows" "cm_data response = map (finish_matrix_row resolutions) (map snd (sort_key fst rows))"
  shows "reports response m rid (s, a, u) c \<longleftrightarrow> ((m, rid, s, a, u), ec_protocol_in c, c) \<in> cells rows"
proof
  assume "reports response m rid (s, a, u) c"
  then obtain k row where row: "(k, row) \<in> set rows" "mb_model row = m" "mb_route_id row = rid" "srf_source_id (mb_source row) = s"
    "arf_account_id (mb_account row) = a" "mb_upstream_model_id row = u" "c \<in> set (map (finish_cell resolutions row) protocol_ALL)"
    "ec_status c = Routable"
    by (auto simp: reports_def assms(2) finish_matrix_row_def)
  from row(7,8) obtain p where p: "hget (mb_protocols row) p = Some c"
    by (auto simp: finish_cell_def unroutable_cell_def split: option.splits)
  have "hget rows k = Some row" using assms(1) row(1) by (simp add: rows_ok_def hmap_ok_def)
  moreover have "k = (m, rid, s, a, u)" "ec_protocol_in c = p" using assms(1) row(1-6) p by (auto simp: rows_ok_def)
  ultimately show "((m, rid, s, a, u), ec_protocol_in c, c) \<in> cells rows" using p by (simp add: cells_def cell_at_def)
next
  assume "((m, rid, s, a, u), ec_protocol_in c, c) \<in> cells rows"
  then obtain row where row: "hget rows (m, rid, s, a, u) = Some row" "hget (mb_protocols row) (ec_protocol_in c) = Some c"
    by (auto simp: cells_def cell_at_def split: Option.bind_splits)
  then have mem: "((m, rid, s, a, u), row) \<in> set rows" by (simp add: hget_set)
  with assms(1) row(2) have ids: "(m, rid, s, a, u) = (mb_model row, mb_route_id row, srf_source_id (mb_source row),
      arf_account_id (mb_account row), mb_upstream_model_id row)" "ec_status c = Routable" by (auto simp: rows_ok_def)
  have "c \<in> finish_cell resolutions row ` set protocol_ALL"
    using row(2) by (intro image_eqI [of _ _ "ec_protocol_in c"]) (simp_all add: finish_cell_def)
  moreover have "finish_matrix_row resolutions row \<in> set (cm_data response)" using mem by (force simp: assms(2))
  ultimately show "reports response m rid (s, a, u) c"
    using ids unfolding reports_def by (intro bexI [of _ "finish_matrix_row resolutions row"]) (simp_all add: finish_matrix_row_def)
qed

lemma finish_cell_protocol:
  assumes "rows_ok rows" "(k, row) \<in> set rows"
  shows "ec_protocol_in (finish_cell resolutions row p) = p"
  using assms by (auto simp: finish_cell_def unroutable_cell_def rows_ok_def split: option.split)

lemma sn_models_distinct:
  assumes "build_snapshot reg de le db addr revision t = Ok snap"
  shows "distinct (map pb_id (sn_models snap))"
proof -
  let ?acc = "foldl (\<lambda>acc x. snapshot_step reg de x acc) snapshot_acc_empty (snapshot_rows le db)"
  from assms have err: "sa_errors ?acc = []" by (auto simp: build_snapshot_def snapshot_finish_def split: if_splits)
  with assms snapshot_fold(1) [OF err] have "sn_models snap = sort_key pb_id (collect_models (published_rows reg de le db))"
    by (auto simp: build_snapshot_def snapshot_finish_def snapshot_new_def published_rows_def)
  with collect_models_keys [of "published_rows reg de le db"] show ?thesis by (simp add: distinct_map)
qed

lemma resolved_published:
  assumes "build_snapshot reg de le db addr revision t = Ok snap" "resolve_detailed reg' (sn_resolver snap) p m = Ok r"
  shows "\<exists>model \<in> set (sn_models snap). pb_id model = m"
proof -
  let ?ys = "published_rows reg de le db"
  from snapshot_resolves(1) [OF assms] obtain route where "route \<in> set (collect_routes ?ys)" "rt_model route = m" by blast
  then have "route_key route \<in> (\<lambda>y. row_key (row_of y)) ` set ?ys" "rt_model route = m" using collect_routes_keys [of ?ys] by (metis imageI)+
  then obtain y where "y \<in> set ?ys" "lm_public_name (sr_model (row_of y)) = m" by (auto simp: route_key_def row_key_def)
  then have "m \<in> pb_id ` set (collect_models ?ys)" using collect_models_keys [of ?ys] by (metis (mono_tags, lifting) imageI)
  with build_snapshot_Ok(4) [OF assms(1)] show ?thesis by auto
qed

lemma matrix_products: "distinct (map pb_id models) \<Longrightarrow> distinct (map (\<lambda>(model, p). (pb_id model, p)) (List.product models protocol_ALL))"
  by (auto simp: distinct_map inj_on_def distinct_product)

lemma snapshot_matrix_rows:
  assumes "build_snapshot reg de le db addr revision t = Ok snap" "keys_ok db"
  obtains rows resolutions where
    "matrix_loop reg' (sn_config snap) (sn_resolver snap) (List.product (sn_models snap) protocol_ALL) ([], []) = Ok (rows, resolutions)"
    "rows_ok rows"
    "cells rows = {z. \<exists>model p r. model \<in> set (sn_models snap) \<and> resolve_detailed reg' (sn_resolver snap) p (pb_id model) = Ok r \<and> z \<in> offers model r}"
proof -
  have "\<exists>rows resolutions. matrix_loop reg' (sn_config snap) (sn_resolver snap) (List.product (sn_models snap) protocol_ALL) ([], []) = Ok (rows, resolutions) \<and>
      rows_ok rows \<and> cells rows = cells [] \<union> {z. \<exists>model p r. (model, p) \<in> set (List.product (sn_models snap) protocol_ALL) \<and>
        resolve_detailed reg' (sn_resolver snap) p (pb_id model) = Ok r \<and> z \<in> offers model r}"
    by (rule matrix_loop_ok)
      (use snapshot_reportable [OF assms] matrix_products [OF sn_models_distinct [OF assms(1)]] in \<open>auto simp: rows_ok_def hmap_ok_def\<close>)
  with that show thesis by auto
qed

text \<open>
  C29: the capability matrix tells the truth. For every snapshot the control plane builds, the matrix
  builds without error, every row has one cell per protocol, and a cell is reported routable exactly
  when a request for that model and protocol resolves to a route that tries that binding: the cell
  names the binding, its rank in the order of attempts, and the endpoint, mode and features it uses.
\<close>

theorem capability_matrix_faithful:
  assumes "build_snapshot reg de le db addr revision t = Ok snap" "keys_ok db"
  shows "\<exists>response. from_runtime_snapshot reg' (sn_config snap) (sn_resolver snap) (sn_models snap) (sn_revision snap) (sn_generated_at snap) =
      Ok response \<and>
    (\<forall>row \<in> set (cm_data response). map ec_protocol_in (rm_protocols row) = protocol_ALL) \<and>
    (\<forall>m rid line c. reports response m rid line c \<longleftrightarrow>
      (\<exists>r i. resolve_detailed reg' (sn_resolver snap) (ec_protocol_in c) m = Ok r \<and> rid = rr_route_id r \<and> i < length (offered_bindings r) \<and>
         line = (rb_source_id (offered_bindings r ! i), rb_account_id (offered_bindings r ! i), rb_upstream_model_id (offered_bindings r ! i)) \<and>
         c = offered_cell r i))"
proof -
  let ?models = "sn_models snap" and ?res = "resolve_detailed reg' (sn_resolver snap)"
  have fit: "reportable model r \<and> rr_protocol_in r = p" if "?res p (pb_id model) = Ok r" for model p r
    using snapshot_reportable [OF assms that] by simp
  from snapshot_matrix_rows [OF assms, of reg'] obtain rows resolutions where loop:
    "matrix_loop reg' (sn_config snap) (sn_resolver snap) (List.product ?models protocol_ALL) ([], []) = Ok (rows, resolutions)" "rows_ok rows"
    and cells: "cells rows = {z. \<exists>model p r. model \<in> set ?models \<and> ?res p (pb_id model) = Ok r \<and> z \<in> offers model r}" .
  define response where "response = \<lparr>cm_version = ''v1'', cm_snapshot_revision = sn_revision snap, cm_snapshot_generated_at = sn_generated_at snap,
    cm_data = map (finish_matrix_row resolutions) (map snd (sort_key fst rows))\<rparr>"
  have ok: "from_runtime_snapshot reg' (sn_config snap) (sn_resolver snap) ?models (sn_revision snap) (sn_generated_at snap) = Ok response"
    using loop(1) build_snapshot_Ok(3) [OF assms(1)]
    by (simp add: from_runtime_snapshot_def is_runtime_snapshot_def from_runtime_def response_def)
  have rows: "map ec_protocol_in (rm_protocols row) = protocol_ALL" if "row \<in> set (cm_data response)" for row
    using that finish_cell_protocol [OF loop(2)] by (auto simp: response_def finish_matrix_row_def intro!: map_idI)
  have "reports response m rid (s, a, u) c \<longleftrightarrow>
      (\<exists>r i. ?res (ec_protocol_in c) m = Ok r \<and> rid = rr_route_id r \<and> i < length (offered_bindings r) \<and>
         (s, a, u) = (rb_source_id (offered_bindings r ! i), rb_account_id (offered_bindings r ! i), rb_upstream_model_id (offered_bindings r ! i)) \<and>
         c = offered_cell r i)" (is "?l \<longleftrightarrow> ?r") for m rid s a u c
  proof
    assume ?l
    then have "((m, rid, s, a, u), ec_protocol_in c, c) \<in> cells rows" by (subst (asm) reports_cells [OF loop(2), of response resolutions]) (simp_all add: response_def)
    then obtain model p r i where r: "?res p (pb_id model) = Ok r" "i < length (offered_bindings r)" "c = offered_cell r i"
      "(m, rid, s, a, u) = matrix_key model (rr_route_id r) (offered_bindings r ! i)" "ec_protocol_in c = rr_protocol_in r"
      by (auto simp: cells offers_def)
    with fit [OF r(1)] show ?r by (auto simp: matrix_key_def)
  next
    assume ?r
    then obtain r i where r: "?res (ec_protocol_in c) m = Ok r" "rid = rr_route_id r" "i < length (offered_bindings r)"
      "(s, a, u) = (rb_source_id (offered_bindings r ! i), rb_account_id (offered_bindings r ! i), rb_upstream_model_id (offered_bindings r ! i))"
      "c = offered_cell r i" by blast
    obtain model where model: "model \<in> set ?models" "pb_id model = m" using resolved_published [OF assms(1) r(1)] by blast
    with fit r(1) have "rr_protocol_in r = ec_protocol_in c" by blast
    with r model have "((m, rid, s, a, u), ec_protocol_in c, c) \<in> offers model r" by (auto simp: offers_def matrix_key_def)
    with r(1) model have "((m, rid, s, a, u), ec_protocol_in c, c) \<in> cells rows" by (auto simp: cells)
    then show ?l by (subst reports_cells [OF loop(2), of response resolutions]) (simp_all add: response_def)
  qed
  with ok rows show ?thesis by (auto simp del: prod.inject intro!: exI [of _ response])
qed

theorem capability_matrix_faithful_witness:
  "\<exists>response. from_runtime_snapshot adapter_registry (sn_config sample_snapshot) (sn_resolver sample_snapshot) (sn_models sample_snapshot) 1 0 = Ok response \<and>
     reports response ''m'' ''r'' (''s'', ''a'', ''u'') (offered_cell sample_resolved 1) \<and> ec_selection_rank (offered_cell sample_resolved 1) = Some 1"
proof -
  have sample: "sn_revision sample_snapshot = 1" "sn_generated_at sample_snapshot = 0" "rr_route_id sample_resolved = ''r''"
    "length (offered_bindings sample_resolved) = 2" "ec_protocol_in (offered_cell sample_resolved 1) = OpenAiResponses"
    "(rb_source_id (offered_bindings sample_resolved ! 1), rb_account_id (offered_bindings sample_resolved ! 1),
      rb_upstream_model_id (offered_bindings sample_resolved ! 1)) = (''s'', ''a'', ''u'')"
    "ec_selection_rank (offered_cell sample_resolved 1) = Some 1" by code_simp+
  from capability_matrix_faithful [OF sample_snapshot_built sample_keys_ok, of adapter_registry] obtain response where
    "from_runtime_snapshot adapter_registry (sn_config sample_snapshot) (sn_resolver sample_snapshot) (sn_models sample_snapshot) 1 0 = Ok response"
    and reports: "\<And>m rid line c. reports response m rid line c \<longleftrightarrow>
      (\<exists>r i. resolve_detailed adapter_registry (sn_resolver sample_snapshot) (ec_protocol_in c) m = Ok r \<and> rid = rr_route_id r \<and> i < length (offered_bindings r) \<and>
         line = (rb_source_id (offered_bindings r ! i), rb_account_id (offered_bindings r ! i), rb_upstream_model_id (offered_bindings r ! i)) \<and>
         c = offered_cell r i)"
    by (auto simp: sample(1,2))
  moreover have "reports response ''m'' ''r'' (''s'', ''a'', ''u'') (offered_cell sample_resolved 1)"
    unfolding reports using sample_resolves(1) sample(3-6) by (intro exI [of _ sample_resolved] exI [of _ 1]) simp
  ultimately show ?thesis using sample(7) by blast
qed

end
