(* ===== verification/Infra_Events.thy ===== *)
theory Infra_Events
  imports Control_Db Source_Url "HOL-Library.Multiset"
begin

text \<open>
  \<open>src/infra/events.rs\<close> without the outage tracking, and the query parser of \<open>src/api/events.rs\<close>:
  how events are cleaned before they are stored and before they are shown, and how the event list is
  paged.

  The URL library is a parameter: \<open>parse_url\<close> reads a URL, \<open>scrub u q\<close> is its text after user
  information and fragment, and the query where \<open>q\<close> holds, have been removed. The union of the fact
  tables the page query reads is the list \<open>events\<close>; \<open>le\<close> is the collation of the text column that
  breaks ties between events of one microsecond; \<open>micros_ok\<close> tells the microseconds a timestamp of
  the date library can represent and \<open>rfc3339\<close> is its parser. A timestamp is its number of nanoseconds.
\<close>

section \<open>Characters\<close>

text \<open>\<open>str::chars\<close>: the encodings of the characters of a UTF-8 string.\<close>

function utf8_chars :: "string \<Rightarrow> string list" where
  "utf8_chars s = (if s = [] then [] else take (fst (utf8_step s)) s # utf8_chars (drop (fst (utf8_step s)) s))"
  by auto

termination
  by (relation "measure length") (auto simp: utf8_step_pos)

declare utf8_chars.simps [simp del]

text \<open>\<open>char::is_control\<close>: U+0000--U+001F and U+007F--U+009F.\<close>

fun is_control_char :: "string \<Rightarrow> bool" where
  "is_control_char [a] = ((of_char a :: nat) < 32 \<or> (of_char a :: nat) = 127)"
| "is_control_char [a, b] = ((of_char a :: nat) = 194 \<and> 128 \<le> (of_char b :: nat) \<and> (of_char b :: nat) \<le> 159)"
| "is_control_char _ = False"

definition char_count :: "string \<Rightarrow> nat" where
  "char_count s = length (utf8_chars s)"

definition has_infix :: "string \<Rightarrow> string \<Rightarrow> bool" where
  "has_infix s p = list_ex (\<lambda>i. starts_with (drop i s) p) [0..<length s + 1]"

section \<open>Redaction\<close>

definition redacted :: string where
  "redacted = ''[REDACTED]''"

definition event_sensitive_key :: "string \<Rightarrow> bool" where
  "event_sensitive_key key =
     (let key = to_ascii_lowercase key in
      list_ex (has_infix key)
        [''authorization'', ''api_key'', ''api-key'', ''apikey'', ''credential'', ''ciphertext'', ''secret'', ''password'',
         ''token'', ''key_hash'', ''prompt'', ''response'', ''body'', ''thinking'', ''signature''] \<or>
      ends_with key ''_key'')"

definition looks_like_secret :: "string \<Rightarrow> bool" where
  "looks_like_secret value =
     (let value = trim value; lower = to_ascii_lowercase value in
      list_ex (\<lambda>p. has_infix lower p \<and> 16 \<le> length value)
        [''sk-'', ''sk_'', ''ghp_'', ''github_pat_'', ''gw_'', ''gwenc:'', ''bearer ''] \<or>
      list_ex (has_infix lower) [''authorization:'', ''api_key='', ''api-key='', ''password='', ''credential=''])"

definition keep_chars :: "nat \<Rightarrow> string \<Rightarrow> string" where
  "keep_chars limit value = concat (take limit (filter (\<lambda>c. \<not> is_control_char c) (utf8_chars value)))"

definition safe_text :: "string \<Rightarrow> nat \<Rightarrow> string \<Rightarrow> string" where
  "safe_text value limit fallback =
     (let value = keep_chars limit value in
      if trim value = [] then fallback else if looks_like_secret value then redacted else value)"

definition safe_event_type :: "string \<Rightarrow> string" where
  "safe_event_type value =
     (let value = take 128 (filter (\<lambda>c. is_ascii_alphanumeric c \<or> c \<in> {CHR ''.'', CHR ''_'', CHR ''-''}) (to_ascii_lowercase value)) in
      case value of c # _ \<Rightarrow> if is_ascii_alphanumeric c then value else ''system.event'' | [] \<Rightarrow> ''system.event'')"

definition max_details_depth :: nat where "max_details_depth = 6"
definition max_details_fields :: nat where "max_details_fields = 64"
definition max_details_string :: nat where "max_details_string = 512"

record url_library =
  ul_parse :: url_parser
  ul_scrub :: "url \<Rightarrow> bool \<Rightarrow> string"

definition sensitive_query :: "url \<Rightarrow> bool" where
  "sensitive_query u =
     (case url_query u of
        None \<Rightarrow> False
      | Some q \<Rightarrow> list_ex (has_infix (to_ascii_lowercase q)) [''api_key'', ''api-key'', ''apikey'', ''token'', ''secret'', ''password''])"

definition sanitize_detail_string :: "url_library \<Rightarrow> string \<Rightarrow> string" where
  "sanitize_detail_string ul value =
     (let value = safe_text value max_details_string ''[EMPTY]'' in
      case ul_parse ul value of
        None \<Rightarrow> value
      | Some u \<Rightarrow>
          if url_username u \<noteq> [] \<or> url_password u \<noteq> None \<or> sensitive_query u \<or> url_fragment u \<noteq> None
          then ul_scrub ul u (sensitive_query u) else value)"

text \<open>\<open>Map::insert\<close> on the entries in turn.\<close>

definition json_object :: "(string \<times> json) list \<Rightarrow> json" where
  "json_object kvs = JObject (foldl (\<lambda>m (k, v). binsert k v m) [] kvs)"

fun sanitize_details :: "url_library \<Rightarrow> json \<Rightarrow> nat \<Rightarrow> json" where
  "sanitize_details ul (JObject kvs) depth =
     (if max_details_depth \<le> depth then JString ''[TRUNCATED]''
      else json_object (take max_details_fields
        (map (\<lambda>(k, v). (sanitize_detail_string ul k,
                         if event_sensitive_key k then JString redacted else sanitize_details ul v (Suc depth))) kvs)))"
| "sanitize_details ul (JArray vs) depth =
     (if max_details_depth \<le> depth then JString ''[TRUNCATED]''
      else JArray (take max_details_fields (map (\<lambda>v. sanitize_details ul v (Suc depth)) vs)))"
| "sanitize_details ul (JString s) depth =
     (if max_details_depth \<le> depth then JString ''[TRUNCATED]'' else JString (sanitize_detail_string ul s))"
| "sanitize_details ul v depth = (if max_details_depth \<le> depth then JString ''[TRUNCATED]'' else v)"

section \<open>Events\<close>

record event_fields =
  se_occurred_at :: int
  se_category :: string
  se_event_type :: string
  se_level :: string
  se_subject_type :: string
  se_subject_id :: "string option"
  se_correlation_id :: "string option"
  se_message :: string
  se_details :: json

definition system_event_new :: "int \<Rightarrow> string \<Rightarrow> string \<Rightarrow> string \<Rightarrow> string \<Rightarrow> string \<Rightarrow> event_fields" where
  "system_event_new now category event_type level subject_type message =
     \<lparr>se_occurred_at = now, se_category = category, se_event_type = event_type, se_level = level,
      se_subject_type = subject_type, se_subject_id = None, se_correlation_id = None, se_message = message,
      se_details = JObject []\<rparr>"

definition non_empty :: "string \<Rightarrow> string option" where
  "non_empty value = (if trim value = [] then None else Some value)"

definition with_subject_id :: "string \<Rightarrow> event_fields \<Rightarrow> event_fields" where
  "with_subject_id v e = e\<lparr>se_subject_id := non_empty v\<rparr>"

definition with_correlation_id :: "string \<Rightarrow> event_fields \<Rightarrow> event_fields" where
  "with_correlation_id v e = e\<lparr>se_correlation_id := non_empty v\<rparr>"

definition with_details :: "url_library \<Rightarrow> json \<Rightarrow> event_fields \<Rightarrow> event_fields" where
  "with_details ul v e =
     (let d = sanitize_details ul v 0 in e\<lparr>se_details := (if json_as_object d = None then JObject [] else d)\<rparr>)"

definition normalized_event :: "url_library \<Rightarrow> event_fields \<Rightarrow> event_fields" where
  "normalized_event ul e =
     \<lparr>se_occurred_at = se_occurred_at e,
      se_category = (if se_category e \<in> {''lifecycle'', ''configuration'', ''database'', ''security''} then se_category e else ''lifecycle''),
      se_event_type = safe_event_type (se_event_type e),
      se_level = (if se_level e \<in> {''info'', ''warning'', ''error''} then se_level e else ''warning''),
      se_subject_type = safe_text (se_subject_type e) 64 ''gateway'',
      se_subject_id = map_option (\<lambda>v. safe_text v 256 ''unknown'') (se_subject_id e),
      se_correlation_id = map_option (\<lambda>v. safe_text v 256 ''unknown'') (se_correlation_id e),
      se_message = safe_text (se_message e) 256 ''System event'',
      se_details = sanitize_details ul (se_details e) 0\<rparr>"

section \<open>Cursors\<close>

record event_cursor =
  cu_occurred_at :: int
  cu_event_id :: string

text \<open>\<open>timestamp_micros\<close> rounds towards the past; \<open>i64\<close> numbers in decimal.\<close>

definition show_signed :: "int \<Rightarrow> string" where
  "show_signed i = (if i < 0 then CHR ''-'' # show_nat (nat (- i)) else show_nat (nat i))"

definition parse_i64 :: "string \<Rightarrow> int option" where
  "parse_i64 s =
     (let (neg, ds) = (case s of c # r \<Rightarrow> if c = CHR ''-'' then (True, r) else if c = CHR ''+'' then (False, r) else (False, s)
                               | [] \<Rightarrow> (False, s)) in
      if ds = [] then None
      else case parse_digits 0 ds of
             None \<Rightarrow> None
           | Some n \<Rightarrow> let i = (if neg then - int n else int n) in if - (2 ^ 63) \<le> i \<and> i < 2 ^ 63 then Some i else None)"

definition encode_cursor :: "event_cursor \<Rightarrow> string" where
  "encode_cursor c = show_signed (cu_occurred_at c div 1000) @ CHR '':'' # cu_event_id c"

definition decode_cursor :: "(int \<Rightarrow> bool) \<Rightarrow> string \<Rightarrow> event_cursor option" where
  "decode_cursor micros_ok value =
     Option.bind (split_once CHR '':'' value) (\<lambda>(micros, event_id).
       if event_id = [] then None
       else Option.bind (parse_i64 micros) (\<lambda>i.
         if micros_ok i then Some \<lparr>cu_occurred_at = i * 1000, cu_event_id = event_id\<rparr> else None))"

section \<open>Pages\<close>

record event_record =
  ev_event_id :: string
  ev_occurred_at :: int
  ev_category :: string
  ev_event_type :: string
  ev_level :: string
  ev_subject_type :: string
  ev_subject_id :: "string option"
  ev_correlation_id :: "string option"
  ev_message :: string
  ev_details :: json
  ev_source :: string
  ev_redact_subject_id :: bool
  ev_redact_correlation_id :: bool

record event_filter =
  ef_from :: "int option"
  ef_since :: "int option"
  ef_to :: "int option"
  ef_category :: "string option"
  ef_level :: "string option"
  ef_event_type :: "string option"
  ef_subject_type :: "string option"
  ef_subject_id :: "string option"
  ef_correlation_id :: "string option"
  ef_source :: "string option"

definition opt_holds :: "('a \<Rightarrow> bool) \<Rightarrow> 'a option \<Rightarrow> bool" where
  "opt_holds P v = (case v of None \<Rightarrow> True | Some x \<Rightarrow> P x)"

definition event_matches :: "event_filter \<Rightarrow> event_record \<Rightarrow> bool" where
  "event_matches f e \<longleftrightarrow>
     opt_holds (\<lambda>t. t \<le> ev_occurred_at e) (ef_from f) \<and> opt_holds (\<lambda>t. t < ev_occurred_at e) (ef_since f) \<and>
     opt_holds (\<lambda>t. ev_occurred_at e < t) (ef_to f) \<and> opt_holds (\<lambda>v. ev_category e = v) (ef_category f) \<and>
     opt_holds (\<lambda>v. ev_level e = v) (ef_level f) \<and> opt_holds (\<lambda>v. ev_event_type e = v) (ef_event_type f) \<and>
     opt_holds (\<lambda>v. ev_subject_type e = v) (ef_subject_type f) \<and> opt_holds (\<lambda>v. ev_subject_id e = Some v) (ef_subject_id f) \<and>
     opt_holds (\<lambda>v. ev_correlation_id e = Some v) (ef_correlation_id f) \<and> opt_holds (\<lambda>v. ev_source e = v) (ef_source f)"

text \<open>\<open>(occurred_at, event_id) < (t, i)\<close> and the descending order of the page.\<close>

definition before_cursor :: "(string \<Rightarrow> string \<Rightarrow> bool) \<Rightarrow> event_cursor \<Rightarrow> event_record \<Rightarrow> bool" where
  "before_cursor le c e \<longleftrightarrow>
     ev_occurred_at e < cu_occurred_at c \<or>
     ev_occurred_at e = cu_occurred_at c \<and> le (ev_event_id e) (cu_event_id c) \<and> ev_event_id e \<noteq> cu_event_id c"

definition event_le :: "(string \<Rightarrow> string \<Rightarrow> bool) \<Rightarrow> event_record \<Rightarrow> event_record \<Rightarrow> bool" where
  "event_le le x y \<longleftrightarrow>
     ev_occurred_at y < ev_occurred_at x \<or> ev_occurred_at x = ev_occurred_at y \<and> le (ev_event_id y) (ev_event_id x)"

text \<open>The identifiers the page query hides.\<close>

definition projected_event :: "event_record \<Rightarrow> event_record" where
  "projected_event e =
     e\<lparr>ev_subject_id := (if ev_redact_subject_id e \<or>
            ev_redact_correlation_id e \<and> ev_subject_id e \<noteq> None \<and> ev_subject_id e = ev_correlation_id e
          then Some redacted else ev_subject_id e),
       ev_correlation_id := (if ev_redact_correlation_id e then Some redacted else ev_correlation_id e)\<rparr>"

definition shown_event :: "url_library \<Rightarrow> event_record \<Rightarrow> event_record" where
  "shown_event ul e =
     e\<lparr>ev_message := sanitize_detail_string ul (ev_message e), ev_event_type := safe_text (ev_event_type e) 128 ''event'',
       ev_subject_type := safe_text (ev_subject_type e) 64 ''subject'',
       ev_subject_id := map_option (sanitize_detail_string ul) (ev_subject_id e),
       ev_correlation_id := map_option (sanitize_detail_string ul) (ev_correlation_id e),
       ev_details := sanitize_details ul (ev_details e) 0\<rparr>"

record event_page =
  ep_data :: "event_record list"
  ep_next_cursor :: "string option"
  ep_has_more :: bool

definition clamp :: "int \<Rightarrow> int \<Rightarrow> int \<Rightarrow> int" where
  "clamp lo hi i = max lo (min hi i)"

definition page_rows ::
  "(string \<Rightarrow> string \<Rightarrow> bool) \<Rightarrow> event_record list \<Rightarrow> event_filter \<Rightarrow> event_cursor option \<Rightarrow> event_record list" where
  "page_rows le events f cursor =
     sort_by (event_le le) (filter (\<lambda>e. event_matches f e \<and> opt_holds (\<lambda>c. before_cursor le c e) cursor) events)"

definition list_events ::
  "url_library \<Rightarrow> (string \<Rightarrow> string \<Rightarrow> bool) \<Rightarrow> event_record list \<Rightarrow> event_filter \<Rightarrow> int \<Rightarrow> event_cursor option \<Rightarrow> event_page" where
  "list_events ul le events f limit cursor =
     (let limit = nat (clamp 1 500 limit);
          data = map projected_event (take (limit + 1) (page_rows le events f cursor));
          has_more = limit < length data;
          data = (if has_more then take limit data else data);
          next_cursor = (if has_more
            then Some (encode_cursor \<lparr>cu_occurred_at = ev_occurred_at (last data), cu_event_id = ev_event_id (last data)\<rparr>) else None)
      in \<lparr>ep_data = map (shown_event ul) data, ep_next_cursor = next_cursor, ep_has_more = has_more\<rparr>)"

section \<open>Queries\<close>

record event_query =
  eq_filter :: event_filter
  eq_limit :: int
  eq_cursor :: "event_cursor option"

definition event_categories :: "string list" where
  "event_categories =
     [''lifecycle'', ''configuration'', ''database'', ''security'', ''request'', ''health'', ''operation'', ''admin'', ''discovery'']"

definition event_levels :: "string list" where
  "event_levels = [''info'', ''warning'', ''error'']"

definition event_sources :: "string list" where
  "event_sources =
     [''system_events'', ''usage_events'', ''account_health_events'', ''audit_logs'', ''source_discovery_runs'']"

definition parse_time :: "(string \<Rightarrow> int option) \<Rightarrow> (string, string) hmap \<Rightarrow> string \<Rightarrow> (int option, string) result" where
  "parse_time rfc3339 query name =
     (case hget query name of
        None \<Rightarrow> Ok None
      | Some v \<Rightarrow> (case rfc3339 v of Some t \<Rightarrow> Ok (Some t) | None \<Rightarrow> Err (name @ '' must be an RFC3339 timestamp'')))"

definition text_filter :: "(string, string) hmap \<Rightarrow> string \<Rightarrow> nat \<Rightarrow> (string option, string) result" where
  "text_filter query name max_len =
     (case hget query name of
        None \<Rightarrow> Ok None
      | Some v \<Rightarrow>
          let v = trim v in
          if v = [] \<or> max_len < char_count v \<or> list_ex is_control_char (utf8_chars v)
          then Err (name @ '' must be 1..'' @ show_nat max_len @ '' printable characters'') else Ok (Some v))"

definition enum_filter :: "(string, string) hmap \<Rightarrow> string \<Rightarrow> string list \<Rightarrow> (string option, string) result" where
  "enum_filter query name allowed =
     and_then (text_filter query name 64) (\<lambda>v.
       if (case v of Some x \<Rightarrow> x \<notin> set allowed | None \<Rightarrow> False) then Err (''unsupported '' @ name) else Ok v)"

definition parse_limit :: "(string, string) hmap \<Rightarrow> (int, string) result" where
  "parse_limit query =
     (case hget query ''limit'' of
        None \<Rightarrow> Ok 100
      | Some v \<Rightarrow> ok_or ''limit must be between 1 and 500'' (option_filter (\<lambda>i. 1 \<le> i \<and> i \<le> 500) (parse_i64 v)))"

definition parse_event_query ::
  "(string \<Rightarrow> int option) \<Rightarrow> (int \<Rightarrow> bool) \<Rightarrow> (string, string) hmap \<Rightarrow> (event_query, string) result" where
  "parse_event_query rfc3339 micros_ok query =
     and_then (parse_time rfc3339 query ''from'') (\<lambda>from.
     and_then (parse_time rfc3339 query ''since'') (\<lambda>since.
     and_then (parse_time rfc3339 query ''to'') (\<lambda>to.
     and_then (ensure (\<not> (from \<noteq> None \<and> since \<noteq> None)) ''from and since cannot be combined'') (\<lambda>_.
     and_then (ensure (\<not> (case (or_else from since, to) of (Some l, Some t) \<Rightarrow> t \<le> l | _ \<Rightarrow> False))
                ''from/since must be earlier than to'') (\<lambda>_.
     and_then (enum_filter query ''category'' event_categories) (\<lambda>category.
     and_then (enum_filter query ''level'' event_levels) (\<lambda>level.
     and_then (enum_filter query ''source'' event_sources) (\<lambda>source.
     and_then (text_filter query ''event_type'' 128) (\<lambda>event_type.
     and_then (text_filter query ''subject_type'' 64) (\<lambda>subject_type.
     and_then (text_filter query ''subject_id'' 256) (\<lambda>subject_id.
     and_then (text_filter query ''correlation_id'' 256) (\<lambda>correlation.
     and_then (text_filter query ''operation_id'' 256) (\<lambda>operation.
     and_then (ensure (\<not> (correlation \<noteq> None \<and> operation \<noteq> None \<and> correlation \<noteq> operation))
                ''correlation_id and operation_id must match when both are provided'') (\<lambda>_.
     and_then (parse_limit query) (\<lambda>limit.
     and_then (case hget query ''cursor'' of
                 None \<Rightarrow> Ok None
               | Some v \<Rightarrow> and_then (ok_or ''cursor is invalid'' (decode_cursor micros_ok v)) (\<lambda>c. Ok (Some c))) (\<lambda>cursor.
       Ok \<lparr>eq_filter = \<lparr>ef_from = from, ef_since = since, ef_to = to, ef_category = category, ef_level = level,
             ef_event_type = event_type, ef_subject_type = subject_type, ef_subject_id = subject_id,
             ef_correlation_id = or_else correlation operation, ef_source = source\<rparr>,
           eq_limit = limit, eq_cursor = cursor\<rparr>))))))))))))))))"

section \<open>Substrings\<close>

lemma has_infix_chars: "has_infix s p \<Longrightarrow> set p \<subseteq> set s"
proof -
  assume "has_infix s p"
  then obtain i where "starts_with (drop i s) p" unfolding has_infix_def list_ex_iff by blast
  then have "set p \<subseteq> set (drop i s)" unfolding starts_with_def by (metis set_take_subset)
  then show ?thesis using set_drop_subset by fast
qed

section \<open>Cursors are read back\<close>

lemma split_once_append: "d \<notin> set a \<Longrightarrow> split_once d (a @ d # b) = Some (a, b)"
  by (induction a) (auto simp: split_once_def)

lemma show_nat_nonempty [simp]: "show_nat n \<noteq> []"
  by (simp add: show_nat.simps [of n])

lemma parse_i64_show:
  assumes "- (2 ^ 63) \<le> i" "i < 2 ^ 63"
  shows "parse_i64 (show_signed i) = Some i"
proof (cases "i < 0")
  case True
  with assms show ?thesis by (simp add: parse_i64_def show_signed_def parse_show_nat)
next
  case False
  obtain c r where cr: "show_nat (nat i) = c # r" by (cases "show_nat (nat i)") simp_all
  with show_nat_digits [of c "nat i"] have "c \<noteq> CHR ''-''" "c \<noteq> CHR ''+''" by auto
  with False assms cr parse_show_nat [of "nat i"] show ?thesis by (simp add: parse_i64_def show_signed_def)
qed

lemma show_signed_no_colon: "CHR '':'' \<notin> set (show_signed i)"
  using show_nat_digits [of "CHR '':''"] by (auto simp: show_signed_def)

lemma cursor_roundtrip:
  assumes "1000 dvd cu_occurred_at c" "- (2 ^ 63) \<le> cu_occurred_at c div 1000" "cu_occurred_at c div 1000 < 2 ^ 63"
    and "micros_ok (cu_occurred_at c div 1000)" "cu_event_id c \<noteq> []"
  shows "decode_cursor micros_ok (encode_cursor c) = Some c"
  using assms
  by (cases c) (simp add: decode_cursor_def encode_cursor_def split_once_append show_signed_no_colon parse_i64_show)

section \<open>Pages\<close>

text \<open>Two lists of the same elements, both in one antisymmetric order, are equal.\<close>

lemma sorted_wrt_unique:
  assumes "sorted_wrt R xs" "sorted_wrt R ys" "set xs = set ys" "distinct xs" "distinct ys"
    and "\<And>x y. x \<in> set xs \<Longrightarrow> y \<in> set xs \<Longrightarrow> R x y \<Longrightarrow> R y x \<Longrightarrow> x = y"
  shows "xs = ys"
  using assms
proof (induction xs arbitrary: ys)
  case (Cons x xs)
  then obtain y zs where ys: "ys = y # zs" by (cases ys) auto
  have "x = y"
  proof (rule ccontr)
    assume "x \<noteq> y"
    with Cons.prems(3) ys have "x \<in> set zs" "y \<in> set xs" by auto
    with Cons.prems(1,2) ys have "R y x" "R x y" by auto
    with \<open>x \<noteq> y\<close> \<open>y \<in> set xs\<close> Cons.prems(6) show False by auto
  qed
  with Cons.prems(3-5) ys have "insert y (set xs) = insert y (set zs)" "y \<notin> set xs" "y \<notin> set zs" by auto
  then have "set xs = set zs" by (simp add: insert_ident)
  with Cons ys \<open>x = y\<close> show ?case by auto
qed simp

definition event_cursor_of :: "event_record \<Rightarrow> event_cursor" where
  "event_cursor_of e = \<lparr>cu_occurred_at = ev_occurred_at e, cu_event_id = ev_event_id e\<rparr>"

text \<open>What the pages rely on: the collation is a linear order, and an event is identified by its id.\<close>

locale event_order = text_order le for le :: "string \<Rightarrow> string \<Rightarrow> bool"
begin

lemma event_le_order: "query_order (event_le le)"
proof
  fix x y z
  show "event_le le x y \<or> event_le le y x" using le_total by (auto simp: event_le_def)
  show "event_le le x z" if "event_le le x y" "event_le le y z" using that le_trans by (auto simp: event_le_def)
qed

lemma event_antisym:
  assumes ids: "distinct (map ev_event_id events)" and "x \<in> set events" "y \<in> set events" "event_le le x y" "event_le le y x"
  shows "x = y"
proof -
  from assms(4,5) have "ev_event_id x = ev_event_id y" using le_antisym by (auto simp: event_le_def)
  with ids assms(2,3) show ?thesis by (metis key_unique)
qed

lemma before_strict: "before_cursor le (event_cursor_of x) y \<longleftrightarrow> event_le le x y \<and> ev_event_id y \<noteq> ev_event_id x \<or>
    ev_occurred_at y < ev_occurred_at x"
  by (auto simp: before_cursor_def event_cursor_of_def event_le_def)

lemma rows_set: "set (page_rows le events f cursor) = {e \<in> set events. event_matches f e \<and> opt_holds (\<lambda>c. before_cursor le c e) cursor}"
  by (auto simp: page_rows_def)

lemma rows_sorted: "sorted_wrt (event_le le) (page_rows le events f cursor)"
  unfolding page_rows_def by (rule query_order.sort_by_sorted [OF event_le_order])

lemma rows_distinct: "distinct (map ev_event_id events) \<Longrightarrow> distinct (page_rows le events f cursor)"
  by (auto simp: page_rows_def distinct_map)

text \<open>The page after an event shows what follows it.\<close>

lemma next_rows:
  assumes ids: "distinct (map ev_event_id events)" and split: "page_rows le events f None = xs @ x # ys"
  shows "page_rows le events f (Some (event_cursor_of x)) = ys"
proof (rule sorted_wrt_unique [OF rows_sorted])
  let ?all = "xs @ x # ys"
  note all = rows_sorted [of events f None, unfolded split] rows_distinct [OF ids, of f None, unfolded split]
    rows_set [of events f None, unfolded split]
  show "sorted_wrt (event_le le) ys" using all(1) by (simp add: sorted_wrt_append)
  show "distinct (page_rows le events f (Some (event_cursor_of x)))" by (rule rows_distinct [OF ids])
  show "distinct ys" using all(2) by simp
  have mem: "e \<in> set ?all \<longleftrightarrow> e \<in> set events \<and> event_matches f e" for e using all(3) by (auto simp: opt_holds_def)
  have eq: "e = e'" if "e \<in> set ?all" "e' \<in> set ?all" "ev_event_id e = ev_event_id e'" for e e'
    using that mem ids by (metis key_unique)
  have after: "e \<in> set ys \<longleftrightarrow> before_cursor le (event_cursor_of x) e" if e: "e \<in> set ?all" for e
  proof
    assume y: "e \<in> set ys"
    with all(1) have "event_le le x e" by (simp add: sorted_wrt_append)
    moreover have "ev_event_id e \<noteq> ev_event_id x" using eq [of e x] y all(2) e by auto
    ultimately show "before_cursor le (event_cursor_of x) e" by (simp add: before_strict)
  next
    assume before: "before_cursor le (event_cursor_of x) e"
    then have "e \<noteq> x" "event_le le x e" by (auto simp: before_strict event_le_def)
    moreover have "e \<notin> set xs"
    proof
      assume "e \<in> set xs"
      with all(1) have "event_le le e x" by (simp add: sorted_wrt_append)
      with \<open>event_le le x e\<close> event_antisym [OF ids, of x e] mem [of x] mem [of e] e \<open>e \<noteq> x\<close> show False by auto
    qed
    ultimately show "e \<in> set ys" using e by auto
  qed
  show "set (page_rows le events f (Some (event_cursor_of x))) = set ys"
  proof (intro set_eqI iffI)
    fix e
    assume "e \<in> set (page_rows le events f (Some (event_cursor_of x)))"
    then have "e \<in> set ?all" "before_cursor le (event_cursor_of x) e" using mem [of e] by (auto simp: rows_set opt_holds_def)
    with after show "e \<in> set ys" by blast
  next
    fix e
    assume "e \<in> set ys"
    with after [of e] mem [of e] show "e \<in> set (page_rows le events f (Some (event_cursor_of x)))" by (auto simp: rows_set opt_holds_def)
  qed
  show "u = v" if "u \<in> set (page_rows le events f (Some (event_cursor_of x)))" "v \<in> set (page_rows le events f (Some (event_cursor_of x)))"
    "event_le le u v" "event_le le v u" for u v
    using that event_antisym [OF ids] by (auto simp: rows_set)
qed

end

interpretation byte_events: event_order byte_le ..

text \<open>
  Following the cursors: the data of the pages from \<open>cursor\<close> on, for at most \<open>n\<close> requests; \<open>None\<close> when
  they are not enough or a cursor is refused.
\<close>

fun follow_pages ::
  "nat \<Rightarrow> url_library \<Rightarrow> (int \<Rightarrow> bool) \<Rightarrow> (string \<Rightarrow> string \<Rightarrow> bool) \<Rightarrow> event_record list \<Rightarrow> event_filter \<Rightarrow> int \<Rightarrow> event_cursor option
   \<Rightarrow> event_record list option" where
  "follow_pages 0 ul micros_ok le events f limit cursor = None"
| "follow_pages (Suc n) ul micros_ok le events f limit cursor =
     (let page = list_events ul le events f limit cursor in
      case ep_next_cursor page of
        None \<Rightarrow> Some (ep_data page)
      | Some text \<Rightarrow> Option.bind (decode_cursor micros_ok text) (\<lambda>c.
          map_option (\<lambda>rest. ep_data page @ rest) (follow_pages n ul micros_ok le events f limit (Some c))))"

definition readable_event :: "(int \<Rightarrow> bool) \<Rightarrow> event_record \<Rightarrow> bool" where
  "readable_event micros_ok e \<longleftrightarrow> 1000 dvd ev_occurred_at e \<and> - (2 ^ 63) \<le> ev_occurred_at e div 1000 \<and>
     ev_occurred_at e div 1000 < 2 ^ 63 \<and> micros_ok (ev_occurred_at e div 1000) \<and> ev_event_id e \<noteq> []"

lemma projected_keys [simp]:
  "ev_occurred_at (projected_event e) = ev_occurred_at e" "ev_event_id (projected_event e) = ev_event_id e"
  by (simp_all add: projected_event_def)

lemma follow_pages_complete:
  assumes collation: "event_order le" and ids: "distinct (map ev_event_id events)"
    and readable: "\<And>e. e \<in> set events \<Longrightarrow> readable_event micros_ok e"
    and all: "page_rows le events f None = done @ rest" "page_rows le events f cursor = rest" "length rest < n"
  shows "follow_pages n ul micros_ok le events f limit cursor = Some (map (\<lambda>e. shown_event ul (projected_event e)) rest)"
  using all
proof (induction n arbitrary: "done" rest cursor)
  case (Suc n)
  define l where "l = nat (clamp 1 500 limit)"
  have l: "0 < l" by (simp add: l_def clamp_def)
  show ?case
  proof (cases "length rest \<le> l")
    case True
    then show ?thesis by (simp add: list_events_def Let_def Suc.prems(2) l_def [symmetric])
  next
    case False
    obtain x ys where split: "drop (l - 1) rest = x # ys" using False l by (cases "drop (l - 1) rest") auto
    have rest: "rest = take (l - 1) rest @ x # ys" by (simp flip: split)
    have nth: "rest ! (l - 1) = x" using False l arg_cong [OF split, of hd] by (simp add: hd_drop_conv_nth)
    have front: "take l rest = take (l - 1) rest @ [x]"
      using take_Suc_conv_app_nth [of "l - 1" rest] False l nth by simp
    then have last: "last (map projected_event (take l rest)) = projected_event x" by simp
    have ys: "ys = drop l rest" using l split by (metis One_nat_def Suc_pred drop_Suc list.sel(3) tl_drop)
    have page: "list_events ul le events f limit cursor =
        \<lparr>ep_data = map (\<lambda>e. shown_event ul (projected_event e)) (take l rest), ep_next_cursor = Some (encode_cursor (event_cursor_of x)), ep_has_more = True\<rparr>"
      using False last
      by (simp add: list_events_def Let_def Suc.prems(2) l_def [symmetric] event_cursor_of_def take_map comp_def)
    have "x \<in> set rest" using rest by (metis in_set_conv_decomp)
    then have "x \<in> set events" using event_order.rows_set [OF collation, of events f None] Suc.prems(1) by auto
    from readable [OF this] have cur: "decode_cursor micros_ok (encode_cursor (event_cursor_of x)) = Some (event_cursor_of x)"
      by (intro cursor_roundtrip) (simp_all add: readable_event_def event_cursor_of_def)
    have "page_rows le events f None = (done @ take (l - 1) rest) @ x # ys" using Suc.prems(1) rest by (metis append.assoc)
    from event_order.next_rows [OF collation ids this] have next_page: "page_rows le events f (Some (event_cursor_of x)) = ys" .
    have "follow_pages n ul micros_ok le events f limit (Some (event_cursor_of x)) = Some (map (\<lambda>e. shown_event ul (projected_event e)) ys)"
      by (rule Suc.IH [OF _ next_page, of "done @ take l rest"]) (use Suc.prems ys l False in auto)
    then show ?thesis by (simp add: page cur ys flip: map_append)
  qed
qed simp

lemma mset_insert_by: "mset (insert_by le x xs) = add_mset x (mset xs)"
  by (induction xs) auto

lemma mset_sort_by: "mset (sort_by le xs) = mset xs"
  by (induction xs) (simp_all add: sort_by_def mset_insert_by)

text \<open>C30:
  The pages of the event list are complete and disjoint: a client that starts without a cursor and follows
  \<open>next_cursor\<close> reads, after at most one request more than there are events, every event that matches its
  filter exactly once, newest first, whatever page size it asks for. It relies on the collation being a
  linear order, on event ids being unique and not empty, and on event times being microseconds the date
  library can represent.
\<close>

theorem event_pages_complete:
  assumes "event_order le" "distinct (map ev_event_id events)" "\<And>e. e \<in> set events \<Longrightarrow> readable_event micros_ok e"
  shows "\<exists>shown. follow_pages (Suc (length events)) ul micros_ok le events f limit None = Some (map (\<lambda>e. shown_event ul (projected_event e)) shown)
    \<and> mset shown = mset (filter (event_matches f) events) \<and> sorted_wrt (event_le le) shown"
proof -
  let ?rows = "page_rows le events f None"
  have rows: "mset ?rows = mset (filter (event_matches f) events)" by (simp add: page_rows_def opt_holds_def mset_sort_by)
  then have "length ?rows \<le> length events" by (metis length_filter_le mset_eq_length)
  then have "follow_pages (Suc (length events)) ul micros_ok le events f limit None = Some (map (\<lambda>e. shown_event ul (projected_event e)) ?rows)"
    using follow_pages_complete [of le events micros_ok f "[]" ?rows None "Suc (length events)"] assms by simp
  with rows event_order.rows_sorted [OF assms(1)] show ?thesis by blast
qed

definition audit_event :: "string \<Rightarrow> int \<Rightarrow> event_record" where
  "audit_event i t = \<lparr>ev_event_id = i, ev_occurred_at = t, ev_category = ''audit'', ev_event_type = ''source.update'', ev_level = ''info'',
     ev_subject_type = ''source'', ev_subject_id = Some ''s1'', ev_correlation_id = None, ev_message = ''Source updated'',
     ev_details = JObject [], ev_source = ''audit'', ev_redact_subject_id = False, ev_redact_correlation_id = False\<rparr>"

definition any_event :: event_filter where
  "any_event = \<lparr>ef_from = None, ef_since = None, ef_to = None, ef_category = None, ef_level = None, ef_event_type = None,
     ef_subject_type = None, ef_subject_id = None, ef_correlation_id = None, ef_source = None\<rparr>"

definition plain_urls :: url_library where
  "plain_urls = \<lparr>ul_parse = (\<lambda>_. None), ul_scrub = (\<lambda>_ _. [])\<rparr>"

definition audit_events :: "event_record list" where
  "audit_events = [audit_event ''audit:1'' 5000, audit_event ''audit:3'' 9000, audit_event ''audit:2'' 9000]"

lemma audit_events_facts:
  "distinct (map ev_event_id audit_events)" "length audit_events = 3" "filter (event_matches any_event) audit_events = audit_events"
  "e \<in> set audit_events \<Longrightarrow> readable_event (\<lambda>_. True) e"
  by (auto simp: audit_events_def audit_event_def any_event_def event_matches_def opt_holds_def readable_event_def)

theorem event_pages_complete_witness:
  "\<exists>shown. follow_pages (Suc 3) plain_urls (\<lambda>_. True) byte_le audit_events any_event 1 None = Some (map (\<lambda>e. shown_event plain_urls (projected_event e)) shown)
    \<and> mset shown = mset audit_events \<and> sorted_wrt (event_le byte_le) shown"
  using event_pages_complete [OF byte_events.event_order_axioms audit_events_facts(1), of "\<lambda>_. True" plain_urls any_event 1]
  unfolding audit_events_facts(2,3) using audit_events_facts(4) by blast

section \<open>What is stored\<close>

lemma utf8_step_take:
  assumes "snd (utf8_step s)"
  shows "utf8_step (take (fst (utf8_step s)) s @ r) = utf8_step s \<and> fst (utf8_step s) \<le> length s"
proof -
  consider "s = []" | a where "s = [a]" | a b where "s = [a, b]" | a b c where "s = [a, b, c]" | a b c d t where "s = a # b # c # d # t"
    by (metis list.exhaust)
  then show ?thesis
    using assms by cases (simp_all add: Let_def split: if_splits)
qed

text \<open>A character is whole when decoding it, whatever follows, gives it back.\<close>

definition whole_char :: "string \<Rightarrow> bool" where
  "whole_char c \<longleftrightarrow> c \<noteq> [] \<and> (\<forall>r. utf8_step (c @ r) = (length c, True))"

lemma utf8_chars_whole: "is_utf8 s \<Longrightarrow> c \<in> set (utf8_chars s) \<Longrightarrow> whole_char c"
proof (induction s rule: utf8_chars.induct)
  case (1 s)
  show ?case
  proof (cases "s = []")
    case True
    with "1.prems"(2) show ?thesis by (simp add: utf8_chars.simps)
  next
    case False
    with "1.prems" have step: "snd (utf8_step s)" "is_utf8 (drop (fst (utf8_step s)) s)"
      "c = take (fst (utf8_step s)) s \<or> c \<in> set (utf8_chars (drop (fst (utf8_step s)) s))"
      by (simp_all add: is_utf8.simps [of s] utf8_chars.simps [of s])
    from step(3) show ?thesis
    proof
      assume c: "c = take (fst (utf8_step s)) s"
      with step(1) utf8_step_take [of s] utf8_step_pos [of s] False show ?thesis
        by (auto simp: whole_char_def prod_eq_iff)
    qed (use "1.IH" False step(2) in blast)
  qed
qed

lemma utf8_chars_concat: "(\<And>c. c \<in> set cs \<Longrightarrow> whole_char c) \<Longrightarrow> utf8_chars (concat cs) = cs"
proof (induction cs)
  case (Cons c cs)
  then have "whole_char c" "utf8_chars (concat cs) = cs" by simp_all
  then show ?case by (simp add: utf8_chars.simps [of "c @ concat cs"] whole_char_def)
qed (simp add: utf8_chars.simps)

lemma keep_chars_chars:
  assumes "is_utf8 v"
  shows "utf8_chars (keep_chars n v) = take n (filter (\<lambda>c. \<not> is_control_char c) (utf8_chars v))"
  unfolding keep_chars_def using utf8_chars_whole [OF assms] by (intro utf8_chars_concat) (auto dest: in_set_takeD)

text \<open>A text column: between 1 and \<open>n\<close> characters, none of them a control character.\<close>

definition text_column :: "nat \<Rightarrow> string \<Rightarrow> bool" where
  "text_column n s \<longleftrightarrow> s \<noteq> [] \<and> char_count s \<le> n \<and> list_all (\<lambda>c. \<not> is_control_char c) (utf8_chars s)"

lemma trim_Nil: "trim [] = []"
  by code_simp

lemma safe_text_column:
  assumes "is_utf8 v" "text_column n fallback" "text_column n redacted"
  shows "text_column n (safe_text v n fallback)"
proof -
  have "text_column n (keep_chars n v)" if "trim (keep_chars n v) \<noteq> []"
    using that trim_Nil by (auto simp: text_column_def char_count_def keep_chars_chars [OF assms(1)] list_all_iff dest: in_set_takeD)
  with assms(2,3) show ?thesis by (simp add: safe_text_def Let_def)
qed

definition event_type_char :: "char \<Rightarrow> bool" where
  "event_type_char c \<longleftrightarrow> 48 \<le> (of_char c :: nat) \<and> (of_char c :: nat) \<le> 57 \<or> 97 \<le> (of_char c :: nat) \<and> (of_char c :: nat) \<le> 122"

text \<open>The constraints of the table \<open>system_events\<close> (migration 24) and the texts it can hold.\<close>

definition system_event_row_ok :: "event_fields \<Rightarrow> bool" where
  "system_event_row_ok e \<longleftrightarrow>
     se_category e \<in> {''lifecycle'', ''configuration'', ''database'', ''security''} \<and>
     se_event_type e \<noteq> [] \<and> event_type_char (hd (se_event_type e)) \<and> length (se_event_type e) \<le> 128 \<and>
     list_all (\<lambda>c. event_type_char c \<or> c \<in> set ''._-'') (se_event_type e) \<and>
     se_level e \<in> {''info'', ''warning'', ''error''} \<and> text_column 64 (se_subject_type e) \<and>
     opt_holds (text_column 256) (se_subject_id e) \<and> opt_holds (text_column 256) (se_correlation_id e) \<and>
     text_column 256 (se_message e) \<and> json_as_object (se_details e) \<noteq> None"

lemma lower_type_char: "is_ascii_alphanumeric (to_ascii_lowercase_byte c) \<Longrightarrow> event_type_char (to_ascii_lowercase_byte c)"
  by (auto simp: is_ascii_alphanumeric_def event_type_char_def to_ascii_lowercase_byte_def Let_def)

lemma safe_event_type_ok:
  "safe_event_type v \<noteq> [] \<and> event_type_char (hd (safe_event_type v)) \<and> length (safe_event_type v) \<le> 128 \<and>
   list_all (\<lambda>c. event_type_char c \<or> c \<in> set ''._-'') (safe_event_type v)"
proof -
  let ?keep = "\<lambda>c. is_ascii_alphanumeric c \<or> c \<in> {CHR ''.'', CHR ''_'', CHR ''-''}"
  define w where "w = take 128 (filter ?keep (to_ascii_lowercase v))"
  have "c \<in> range to_ascii_lowercase_byte" "?keep c" if "c \<in> set w" for c
    using that in_set_takeD by (fastforce simp: w_def to_ascii_lowercase_def)+
  then have all: "event_type_char c \<or> c \<in> set ''._-''" "is_ascii_alphanumeric c \<Longrightarrow> event_type_char c" if "c \<in> set w" for c
    using that lower_type_char by fastforce+
  have w: "safe_event_type v = (case w of c # _ \<Rightarrow> if is_ascii_alphanumeric c then w else ''system.event'' | [] \<Rightarrow> ''system.event'')"
    by (simp only: safe_event_type_def w_def Let_def)
  have "event_type_char (hd ''system.event'') \<and> length ''system.event'' \<le> 128 \<and> list_all (\<lambda>c. event_type_char c \<or> c \<in> set ''._-'') ''system.event''"
    by code_simp
  moreover have "length w \<le> 128" by (simp add: w_def)
  ultimately show ?thesis using all by (cases w) (auto simp: w list_all_iff)
qed

lemma fallback_columns:
  "text_column 64 ''gateway'' \<and> text_column 64 redacted \<and> text_column 256 redacted \<and> text_column 256 ''unknown'' \<and> text_column 256 ''System event''"
  by code_simp

text \<open>
  Whatever text a caller puts into an event (the Rust strings are valid UTF-8), the normalised event meets
  every constraint of the table it is inserted into, and no text column carries a control character: event
  writes are not lost to a constraint and cannot forge lines in a log.
\<close>

theorem normalized_event_storable:
  assumes "is_utf8 (se_subject_type e)" "is_utf8 (se_message e)" "opt_holds is_utf8 (se_subject_id e)"
    "opt_holds is_utf8 (se_correlation_id e)" "json_as_object (se_details e) \<noteq> None"
  shows "system_event_row_ok (normalized_event ul e)"
proof -
  from assms(5) obtain kvs where "se_details e = JObject kvs" by (cases "se_details e") auto
  moreover have "opt_holds (text_column 256) (map_option (\<lambda>v. safe_text v 256 ''unknown'') x)" if "opt_holds is_utf8 x" for x
    using that fallback_columns safe_text_column by (cases x) (simp_all add: opt_holds_def)
  ultimately show ?thesis
    using assms safe_event_type_ok [of "se_event_type e"] fallback_columns
    by (simp add: system_event_row_ok_def normalized_event_def safe_text_column json_object_def max_details_depth_def)
qed

theorem normalized_event_storable_witness:
  "system_event_row_ok (normalized_event plain_urls (with_subject_id ''gw_0123456789abcdef'' (system_event_new 0 ''database'' ''Connection Failed!'' ''fatal'' [] ''down'')))"
  using normalized_event_storable [of "with_subject_id ''gw_0123456789abcdef'' (system_event_new 0 ''database'' ''Connection Failed!'' ''fatal'' [] ''down'')" plain_urls]
  by (simp add: with_subject_id_def system_event_new_def non_empty_def opt_holds_def is_utf8_ascii is_ascii_def)

section \<open>What is hidden\<close>

text \<open>
  Two documents agree when they differ at most in the values of sensitive keys. What is stored and shown
  depends on nothing else.
\<close>

inductive agree :: "json \<Rightarrow> json \<Rightarrow> bool" where
  agree_refl: "agree v v"
| agree_array: "list_all2 agree vs ws \<Longrightarrow> agree (JArray vs) (JArray ws)"
| agree_object: "list_all2 (\<lambda>x y. fst x = fst y \<and> (event_sensitive_key (fst x) \<or> agree (snd x) (snd y))) xs ys \<Longrightarrow> agree (JObject xs) (JObject ys)"
  monos list.rel_mono_strong list_all2_mono

text \<open>
  Non-interference of event details: two documents that differ only in what they hold under keys recognised as
  sensitive, at any depth, are sanitised to the same document, so nothing of a credential, prompt or
  response body under such a key reaches the event store or the API.
\<close>

theorem sensitive_values_unseen:
  assumes "agree v w"
  shows "sanitize_details ul v depth = sanitize_details ul w depth"
  using assms
proof (induction arbitrary: depth)
  case (agree_array vs ws)
  then have "map (\<lambda>v. sanitize_details ul v (Suc depth)) vs = map (\<lambda>v. sanitize_details ul v (Suc depth)) ws"
    by (auto simp: list_all2_conv_all_nth intro: nth_equalityI)
  then show ?case by simp
next
  case (agree_object xs ys)
  then have "map (\<lambda>(k, v). (sanitize_detail_string ul k, if event_sensitive_key k then JString redacted else sanitize_details ul v (Suc depth))) xs =
     map (\<lambda>(k, v). (sanitize_detail_string ul k, if event_sensitive_key k then JString redacted else sanitize_details ul v (Suc depth))) ys"
    by (intro nth_equalityI) (auto simp: list_all2_conv_all_nth split_beta)
  then show ?case by simp
qed simp

theorem sensitive_values_unseen_witness:
  "sanitize_details plain_urls (JObject [(''headers'', JArray [JObject [(''Authorization'', JString ''Bearer one'')]])]) 0 =
   sanitize_details plain_urls (JObject [(''headers'', JArray [JObject [(''Authorization'', JArray [JNull])]])]) 0"
proof (rule sensitive_values_unseen)
  have key: "event_sensitive_key ''Authorization''" by code_simp
  show "agree (JObject [(''headers'', JArray [JObject [(''Authorization'', JString ''Bearer one'')]])])
     (JObject [(''headers'', JArray [JObject [(''Authorization'', JArray [JNull])]])])"
    by (rule agree_object) (simp add: agree_array agree_object key)
qed

text \<open>
  The keys are compared before control characters are removed from them: a key with one inside a marker is
  not recognised, its value is kept, and the key is stored without the control character.
\<close>

lemma control_char_key_unmasked:
  "sanitize_details plain_urls (JObject [(''pass'' @ [char_of (1 :: nat)] @ ''word'', JString ''hunter2'')]) 0 = JObject [(''password'', JString ''hunter2'')]"
  by code_simp

end
