(* ===== verification/Infra_Incidents.thy ===== *)
theory Infra_Incidents
  imports Infra_Events
begin

text \<open>
  The outage tracking of \<open>src/infra/events.rs\<close> (\<open>EventRepository\<close>): which database errors are outages, the
  incident every component keeps in memory while it is out, and the rows written once it works again.

  \<open>database_recovered\<close> is a sequence of steps of one call: it takes the incident under the lock, writes
  up to two rows without it, and settles or releases the incident under the lock again. Calls of any number
  of tasks interleave at these steps, an insert ends in one of the ways a statement ends at the database,
  and a call may be abandoned between two steps, as a future that is dropped is. Identifiers are
  \<open>uuid n\<close> for the \<open>n\<close>th one drawn.
\<close>

section \<open>Connection errors\<close>

datatype driver_error =
    ErrIo | ErrTls | ErrPoolTimedOut | ErrPoolClosed | ErrWorkerCrashed | ErrDatabase "string option" | ErrOther

definition is_connection_error :: "driver_error \<Rightarrow> bool" where
  "is_connection_error e =
     (case e of
        ErrDatabase code \<Rightarrow>
          (case code of None \<Rightarrow> False | Some c \<Rightarrow> starts_with c ''08'' \<or> c \<in> {''57P01'', ''57P02'', ''57P03''})
      | ErrOther \<Rightarrow> False
      | _ \<Rightarrow> True)"

section \<open>Incidents\<close>

record incident =
  in_id :: string
  in_occurred_at :: int
  in_component :: string
  in_persisted :: bool
  in_recovering :: bool
  in_failed_again :: "int option"

definition new_database_incident :: "string \<Rightarrow> string \<Rightarrow> int \<Rightarrow> incident" where
  "new_database_incident uid component t =
     \<lparr>in_id = uid, in_occurred_at = t, in_component = component, in_persisted = False, in_recovering = False,
      in_failed_again = None\<rparr>"

record tracker =
  tk_incidents :: "(string, incident) hmap"
  tk_flag :: bool
  tk_rows :: "event_fields list"
  tk_drawn :: nat

definition empty_tracker :: tracker where
  "empty_tracker = \<lparr>tk_incidents = [], tk_flag = False, tk_rows = [], tk_drawn = 0\<rparr>"

definition open_incident :: "(nat \<Rightarrow> string) \<Rightarrow> string \<Rightarrow> int \<Rightarrow> tracker \<Rightarrow> tracker" where
  "open_incident uuid component t s =
     s\<lparr>tk_incidents := hinsert component (new_database_incident (uuid (tk_drawn s)) component t) (tk_incidents s),
       tk_drawn := Suc (tk_drawn s)\<rparr>"

definition component_name :: "string \<Rightarrow> string" where
  "component_name component = safe_text component 64 ''database''"

definition remember_database_failure :: "(nat \<Rightarrow> string) \<Rightarrow> int \<Rightarrow> string \<Rightarrow> tracker \<Rightarrow> tracker" where
  "remember_database_failure uuid now component s =
     (let component = component_name component in
      case hget (tk_incidents s) component of
        Some i \<Rightarrow>
          if in_recovering i \<and> in_failed_again i = None
          then s\<lparr>tk_incidents := hinsert component (i\<lparr>in_failed_again := Some now\<rparr>) (tk_incidents s)\<rparr> else s
      | None \<Rightarrow> (open_incident uuid component now s)\<lparr>tk_flag := True\<rparr>)"

definition database_failed :: "(nat \<Rightarrow> string) \<Rightarrow> int \<Rightarrow> string \<Rightarrow> driver_error \<Rightarrow> tracker \<Rightarrow> tracker" where
  "database_failed uuid now component e s =
     (if is_connection_error e then remember_database_failure uuid now component s else s)"

section \<open>The steps of \<open>database_recovered\<close>\<close>

datatype recovery =
    Claiming string
  | WritingFailure string incident
  | WritingRecovery string incident bool
  | Settling string incident
  | Releasing string string bool
  | Returned

definition database_recovered :: "string \<Rightarrow> tracker \<Rightarrow> recovery" where
  "database_recovered component s = (if tk_flag s then Claiming (component_name component) else Returned)"

definition claim_incident :: "string \<Rightarrow> tracker \<Rightarrow> tracker \<times> recovery" where
  "claim_incident component s =
     (case hget (tk_incidents s) component of
        None \<Rightarrow> (s, Returned)
      | Some i \<Rightarrow>
          if in_recovering i then (s, Returned)
          else let i = i\<lparr>in_recovering := True, in_failed_again := None\<rparr>
               in (s\<lparr>tk_incidents := hinsert component i (tk_incidents s)\<rparr>,
                   if in_persisted i then WritingRecovery component i True else WritingFailure component i))"

definition insert_event :: "url_library \<Rightarrow> db_fault \<Rightarrow> event_fields \<Rightarrow> tracker \<Rightarrow> tracker \<times> bool" where
  "insert_event ul fault e s =
     (case fault of
        NoFault \<Rightarrow> (s\<lparr>tk_rows := tk_rows s @ [normalized_event ul e]\<rparr>, True)
      | FaultBeforeCommit \<Rightarrow> (s, False)
      | FaultAfterCommit \<Rightarrow> (s\<lparr>tk_rows := tk_rows s @ [normalized_event ul e]\<rparr>, False))"

definition failure_event :: "url_library \<Rightarrow> incident \<Rightarrow> event_fields" where
  "failure_event ul i =
     (with_details ul (JObject [(''component'', JString (in_component i)), (''error_code'', JString ''database_unavailable''),
          (''recorded_after_recovery'', JBool True)])
       (with_correlation_id (in_id i) (with_subject_id ''postgresql''
         (system_event_new 0 ''database'' ''database.connection_failed'' ''error'' ''database'' ''Database operation became unavailable''))))
     \<lparr>se_occurred_at := in_occurred_at i\<rparr>"

definition recovery_event :: "url_library \<Rightarrow> int \<Rightarrow> string \<Rightarrow> incident \<Rightarrow> event_fields" where
  "recovery_event ul now component i =
     with_details ul (JObject [(''component'', JString component)])
       (with_correlation_id (in_id i) (with_subject_id ''postgresql''
         (system_event_new now ''database'' ''database.connection_recovered'' ''info'' ''database'' ''Database operation recovered'')))"

definition settle_incident :: "(nat \<Rightarrow> string) \<Rightarrow> string \<Rightarrow> incident \<Rightarrow> tracker \<Rightarrow> tracker" where
  "settle_incident uuid component i s =
     (case option_filter (\<lambda>current. in_id current = in_id i) (hget (tk_incidents s) component) of
        None \<Rightarrow> s
      | Some current \<Rightarrow>
          (case in_failed_again current of
             Some t \<Rightarrow> open_incident uuid component t s
           | None \<Rightarrow>
               let rest = hremove component (tk_incidents s)
               in s\<lparr>tk_incidents := rest, tk_flag := (if rest = [] then False else tk_flag s)\<rparr>))"

definition release_database_recovery :: "string \<Rightarrow> string \<Rightarrow> bool \<Rightarrow> tracker \<Rightarrow> tracker" where
  "release_database_recovery component uid persisted s =
     (case option_filter (\<lambda>i. in_id i = uid) (hget (tk_incidents s) component) of
        None \<Rightarrow> s
      | Some i \<Rightarrow> s\<lparr>tk_incidents := hinsert component
          (i\<lparr>in_persisted := (in_persisted i \<or> persisted), in_recovering := False, in_failed_again := None\<rparr>) (tk_incidents s)\<rparr>)"

fun advance :: "url_library \<Rightarrow> (nat \<Rightarrow> string) \<Rightarrow> int \<Rightarrow> db_fault \<Rightarrow> recovery \<Rightarrow> tracker \<Rightarrow> tracker \<times> recovery" where
  "advance ul uuid now fault (Claiming c) s = claim_incident c s"
| "advance ul uuid now fault (WritingFailure c i) s =
     (let (s, ok) = insert_event ul fault (failure_event ul i) s
      in (s, if ok then WritingRecovery c i True else Releasing c (in_id i) False))"
| "advance ul uuid now fault (WritingRecovery c i persisted) s =
     (let (s, ok) = insert_event ul fault (recovery_event ul now c i) s
      in (s, if ok then Settling c i else Releasing c (in_id i) persisted))"
| "advance ul uuid now fault (Settling c i) s = (settle_incident uuid c i s, Returned)"
| "advance ul uuid now fault (Releasing c uid persisted) s = (release_database_recovery c uid persisted s, Returned)"
| "advance ul uuid now fault Returned s = (s, Returned)"

section \<open>Interleavings\<close>

record outages =
  ou_tracker :: tracker
  ou_calls :: "recovery list"

definition no_outages :: outages where
  "no_outages = \<lparr>ou_tracker = empty_tracker, ou_calls = []\<rparr>"

text \<open>\<open>faults\<close> are the ways an insert may end.\<close>

inductive outage_step :: "url_library \<Rightarrow> (nat \<Rightarrow> string) \<Rightarrow> db_fault set \<Rightarrow> outages \<Rightarrow> outages \<Rightarrow> bool"
  for ul uuid faults where
  failed: "outage_step ul uuid faults q (q\<lparr>ou_tracker := database_failed uuid now component e (ou_tracker q)\<rparr>)"
| succeeded: "outage_step ul uuid faults q (q\<lparr>ou_calls := ou_calls q @ [database_recovered component (ou_tracker q)]\<rparr>)"
| advanced: "k < length (ou_calls q) \<Longrightarrow> fault \<in> faults \<Longrightarrow>
    advance ul uuid now fault (ou_calls q ! k) (ou_tracker q) = (s, r) \<Longrightarrow>
    outage_step ul uuid faults q (q\<lparr>ou_tracker := s, ou_calls := (ou_calls q)[k := r]\<rparr>)"
| recorded: "se_event_type r \<notin> {''database.connection_failed'', ''database.connection_recovered''} \<Longrightarrow>
    outage_step ul uuid faults q (q\<lparr>ou_tracker := (ou_tracker q)\<lparr>tk_rows := tk_rows (ou_tracker q) @ [r]\<rparr>\<rparr>)"
| abandoned: "k < length (ou_calls q) \<Longrightarrow> outage_step ul uuid faults q (q\<lparr>ou_calls := (ou_calls q)[k := Returned]\<rparr>)"

inductive outage_reachable :: "url_library \<Rightarrow> (nat \<Rightarrow> string) \<Rightarrow> db_fault set \<Rightarrow> outages \<Rightarrow> bool"
  for ul uuid faults where
  start: "outage_reachable ul uuid faults no_outages"
| step: "outage_reachable ul uuid faults q \<Longrightarrow> outage_step ul uuid faults q q' \<Longrightarrow> outage_reachable ul uuid faults q'"

section \<open>Rows\<close>

definition failed_for :: "string \<Rightarrow> event_fields \<Rightarrow> bool" where
  "failed_for u r \<longleftrightarrow> se_event_type r = ''database.connection_failed'' \<and> se_correlation_id r = Some u"

definition recovered_for :: "string \<Rightarrow> event_fields \<Rightarrow> bool" where
  "recovered_for u r \<longleftrightarrow> se_event_type r = ''database.connection_recovered'' \<and> se_correlation_id r = Some u"

text \<open>The text of an identifier: hexadecimal digits and hyphens.\<close>

definition uuid_text :: "string \<Rightarrow> bool" where
  "uuid_text u \<longleftrightarrow> length u = 36 \<and> set u \<subseteq> set ''0123456789abcdef-''"

text \<open>The first \<open>N\<close> identifiers are different.\<close>

definition uuid_source :: "(nat \<Rightarrow> string) \<Rightarrow> nat \<Rightarrow> bool" where
  "uuid_source uuid N \<longleftrightarrow> inj_on uuid {..<N} \<and> (\<forall>n < N. uuid_text (uuid n))"

lemma uuid_chars: "uuid_text u \<Longrightarrow> c \<in> set u \<Longrightarrow> c \<in> set ''0123456789abcdef-''"
  unfolding uuid_text_def by (meson subsetD)

lemma uuid_ascii: "uuid_text u \<Longrightarrow> c \<in> set u \<Longrightarrow> 32 \<le> (of_char c :: nat) \<and> (of_char c :: nat) < 127 \<and> visible c \<and> to_ascii_lowercase_byte c = c"
proof -
  assume "uuid_text u" "c \<in> set u"
  then have "c \<in> set ''0123456789abcdef-''" by (rule uuid_chars)
  moreover have "list_all (\<lambda>c. 32 \<le> (of_char c :: nat) \<and> (of_char c :: nat) < 127 \<and> visible c \<and> to_ascii_lowercase_byte c = c) ''0123456789abcdef-''"
    by code_simp
  ultimately show ?thesis unfolding list_all_iff by blast
qed

lemma utf8_chars_ascii: "(\<And>c. c \<in> set s \<Longrightarrow> (of_char c :: nat) < 128) \<Longrightarrow> utf8_chars s = map (\<lambda>c. [c]) s"
  by (induction s) (simp_all add: utf8_chars.simps)

lemma concat_singletons: "concat (map (\<lambda>c. [c]) s) = s"
  by (induction s) simp_all

lemma uuid_kept:
  assumes "uuid_text u"
  shows "keep_chars 256 u = u"
proof -
  have "utf8_chars u = map (\<lambda>c. [c]) u" using uuid_ascii [OF assms] by (intro utf8_chars_ascii) force
  moreover have "filter (\<lambda>c. \<not> is_control_char c) (map (\<lambda>c. [c]) u) = map (\<lambda>c. [c]) u"
    using uuid_ascii [OF assms] by (fastforce simp: filter_id_conv)
  ultimately show ?thesis using assms by (simp add: keep_chars_def uuid_text_def concat_singletons)
qed

lemma uuid_trim:
  assumes "uuid_text u"
  shows "trim u = u"
proof (rule trim_visible)
  from assms show "u \<noteq> []" unfolding uuid_text_def by auto
  then show "visible (hd u)" "visible (last u)" using uuid_ascii [OF assms] by simp_all
qed

lemma uuid_no_secret:
  assumes "uuid_text u"
  shows "\<not> looks_like_secret u"
proof -
  have low: "to_ascii_lowercase u = u" using uuid_ascii [OF assms] by (simp add: to_ascii_lowercase_def map_idI)
  have none: "\<not> has_infix u p" if "c \<in> set p" "c \<notin> set ''0123456789abcdef-''" for c p
    using has_infix_chars [of u p] uuid_chars [OF assms, of c] that by blast
  show ?thesis
    using none [of "CHR ''s''"] none [of "CHR ''_''"] none [of "CHR ''g''"] none [of "CHR ''r''"] none [of "CHR '':''"] none [of "CHR ''=''"]
    by (simp add: looks_like_secret_def uuid_trim [OF assms] low)
qed

lemma uuid_safe: "uuid_text u \<Longrightarrow> safe_text u 256 ''unknown'' = u \<and> non_empty u = Some u"
  using uuid_kept [of u] uuid_trim [of u] uuid_no_secret [of u] by (auto simp: safe_text_def non_empty_def uuid_text_def)

lemma row_types: "safe_event_type ''database.connection_failed'' = ''database.connection_failed''"
  "safe_event_type ''database.connection_recovered'' = ''database.connection_recovered''"
  by code_simp+

lemma incident_rows:
  assumes "uuid_text (in_id i)"
  shows "failed_for u (normalized_event ul (failure_event ul i)) \<longleftrightarrow> u = in_id i"
    "\<not> recovered_for u (normalized_event ul (failure_event ul i))"
    "recovered_for u (normalized_event ul (recovery_event ul now c i)) \<longleftrightarrow> u = in_id i"
    "\<not> failed_for u (normalized_event ul (recovery_event ul now c i))"
    "se_occurred_at (normalized_event ul (failure_event ul i)) = in_occurred_at i"
  using uuid_safe [OF assms]
  by (auto simp: failed_for_def recovered_for_def normalized_event_def failure_event_def recovery_event_def with_details_def Let_def
      with_correlation_id_def with_subject_id_def system_event_new_def row_types)

section \<open>What every interleaving keeps\<close>

definition failures :: "tracker \<Rightarrow> string \<Rightarrow> nat" where
  "failures s u = length (filter (failed_for u) (tk_rows s))"

definition recoveries :: "tracker \<Rightarrow> string \<Rightarrow> nat" where
  "recoveries s u = length (filter (recovered_for u) (tk_rows s))"

text \<open>A recovery row comes after a failure row of the same incident.\<close>

definition paired :: "event_fields list \<Rightarrow> bool" where
  "paired rows \<longleftrightarrow> (\<forall>xs r ys u. rows = xs @ r # ys \<longrightarrow> recovered_for u r \<longrightarrow> (\<exists>f \<in> set xs. failed_for u f))"

text \<open>The incident a call has taken.\<close>

fun held :: "recovery \<Rightarrow> (string \<times> string) option" where
  "held (WritingFailure c i) = Some (c, in_id i)"
| "held (WritingRecovery c i persisted) = Some (c, in_id i)"
| "held (Settling c i) = Some (c, in_id i)"
| "held (Releasing c u persisted) = Some (c, u)"
| "held _ = None"

definition owns :: "tracker \<Rightarrow> string \<Rightarrow> string \<Rightarrow> (bool \<Rightarrow> bool) \<Rightarrow> bool" where
  "owns s c u P \<longleftrightarrow> (\<exists>i. hget (tk_incidents s) c = Some i \<and> in_id i = u \<and> in_recovering i \<and> P (in_persisted i))"

text \<open>\<open>sure\<close>: no insert took effect and was reported as failed.\<close>

fun call_ok :: "bool \<Rightarrow> tracker \<Rightarrow> recovery \<Rightarrow> bool" where
  "call_ok sure s (WritingFailure c i) \<longleftrightarrow>
     owns s c (in_id i) Not \<and> (sure \<longrightarrow> failures s (in_id i) = 0 \<and> recoveries s (in_id i) = 0)"
| "call_ok sure s (WritingRecovery c i persisted) \<longleftrightarrow>
     owns s c (in_id i) (\<lambda>_. True) \<and> persisted \<and> 0 < failures s (in_id i) \<and>
     (sure \<longrightarrow> failures s (in_id i) = 1 \<and> recoveries s (in_id i) = 0)"
| "call_ok sure s (Settling c i) \<longleftrightarrow> owns s c (in_id i) (\<lambda>_. True)"
| "call_ok sure s (Releasing c u persisted) \<longleftrightarrow>
     owns s c u (\<lambda>p. p \<longrightarrow> persisted) \<and> (persisted \<longrightarrow> 0 < failures s u) \<and>
     (sure \<longrightarrow> failures s u = of_bool persisted \<and> recoveries s u = 0)"
| "call_ok sure s _ \<longleftrightarrow> True"

definition incident_ok :: "(nat \<Rightarrow> string) \<Rightarrow> bool \<Rightarrow> tracker \<Rightarrow> string \<Rightarrow> incident \<Rightarrow> bool" where
  "incident_ok uuid sure s c i \<longleftrightarrow>
     in_component i = c \<and> in_id i \<in> uuid ` {..<tk_drawn s} \<and> (in_persisted i \<longrightarrow> 0 < failures s (in_id i)) \<and>
     (sure \<and> \<not> in_recovering i \<longrightarrow> failures s (in_id i) = of_bool (in_persisted i) \<and> recoveries s (in_id i) = 0)"

definition tracker_ok :: "(nat \<Rightarrow> string) \<Rightarrow> nat \<Rightarrow> bool \<Rightarrow> tracker \<Rightarrow> bool" where
  "tracker_ok uuid N sure s \<longleftrightarrow>
     hmap_ok (tk_incidents s) \<and> tk_flag s = (tk_incidents s \<noteq> []) \<and>
     (\<forall>c i. hget (tk_incidents s) c = Some i \<longrightarrow> incident_ok uuid sure s c i) \<and>
     (\<forall>c d i j. hget (tk_incidents s) c = Some i \<longrightarrow> hget (tk_incidents s) d = Some j \<longrightarrow> in_id i = in_id j \<longrightarrow> c = d) \<and>
     (\<forall>n. tk_drawn s \<le> n \<longrightarrow> n < N \<longrightarrow> failures s (uuid n) = 0 \<and> recoveries s (uuid n) = 0) \<and>
     (sure \<longrightarrow> (\<forall>u. failures s u \<le> 1 \<and> recoveries s u \<le> 1)) \<and> paired (tk_rows s)"

definition outages_ok :: "(nat \<Rightarrow> string) \<Rightarrow> nat \<Rightarrow> bool \<Rightarrow> outages \<Rightarrow> bool" where
  "outages_ok uuid N sure q \<longleftrightarrow>
     tracker_ok uuid N sure (ou_tracker q) \<and> (\<forall>r \<in> set (ou_calls q). call_ok sure (ou_tracker q) r) \<and>
     (\<forall>k l c u v. k < length (ou_calls q) \<longrightarrow> l < length (ou_calls q) \<longrightarrow> held (ou_calls q ! k) = Some (c, u) \<longrightarrow>
        held (ou_calls q ! l) = Some (c, v) \<longrightarrow> k = l)"

lemma call_ok_owns: "call_ok sure s r \<Longrightarrow> held r = Some (c, u) \<Longrightarrow> owns s c u (\<lambda>_. True)"
  by (cases r) (auto simp: owns_def)

lemma paired_snoc: "paired (xs @ [r]) \<longleftrightarrow> paired xs \<and> (\<forall>u. recovered_for u r \<longrightarrow> (\<exists>f \<in> set xs. failed_for u f))"
  unfolding paired_def by (auto simp: append_eq_append_conv2 append_eq_Cons_conv Cons_eq_append_conv) (metis append_Nil2 append_assoc append_Cons)+

lemma failures_pos: "0 < failures s u \<longleftrightarrow> (\<exists>f \<in> set (tk_rows s). failed_for u f)"
  by (auto simp: failures_def filter_empty_conv)

lemma counts_frame [simp]:
  "failures (s\<lparr>tk_incidents := m\<rparr>) u = failures s u" "recoveries (s\<lparr>tk_incidents := m\<rparr>) u = recoveries s u"
  "failures (s\<lparr>tk_flag := b\<rparr>) u = failures s u" "recoveries (s\<lparr>tk_flag := b\<rparr>) u = recoveries s u"
  "failures (s\<lparr>tk_drawn := n\<rparr>) u = failures s u" "recoveries (s\<lparr>tk_drawn := n\<rparr>) u = recoveries s u"
  by (simp_all add: failures_def recoveries_def)

lemma counts_row:
  "failures (s\<lparr>tk_rows := tk_rows s @ [r]\<rparr>) u = failures s u + of_bool (failed_for u r)"
  "recoveries (s\<lparr>tk_rows := tk_rows s @ [r]\<rparr>) u = recoveries s u + of_bool (recovered_for u r)"
  by (simp_all add: failures_def recoveries_def)

definition same_for :: "tracker \<Rightarrow> tracker \<Rightarrow> string \<Rightarrow> string \<Rightarrow> bool" where
  "same_for s s' c u \<longleftrightarrow>
     (\<forall>P. owns s c u P \<longrightarrow> owns s' c u P) \<and> failures s' u = failures s u \<and> recoveries s' u = recoveries s u"

lemma call_ok_same:
  assumes "call_ok sure s r" "\<And>c u. held r = Some (c, u) \<Longrightarrow> same_for s s' c u"
  shows "call_ok sure s' r"
  using assms by (cases r) (auto simp: same_for_def)

lemma drawn_fresh:
  assumes "uuid_source uuid N" "u \<in> uuid ` {..<n}" "n < N"
  shows "u \<noteq> uuid n"
  using assms by (auto simp: uuid_source_def inj_on_def)

text \<open>A new incident, in the place of an earlier one or not.\<close>

lemma open_incident_ok:
  assumes "uuid_source uuid N" "tracker_ok uuid N sure s" "tk_drawn s < N"
  shows "tracker_ok uuid N sure ((open_incident uuid c t s)\<lparr>tk_flag := True\<rparr>)"
proof -
  let ?i = "new_database_incident (uuid (tk_drawn s)) c t" and ?s = "(open_incident uuid c t s)\<lparr>tk_flag := True\<rparr>"
  have s: "tk_incidents ?s = hinsert c ?i (tk_incidents s)" "tk_drawn ?s = Suc (tk_drawn s)" "tk_rows ?s = tk_rows s" "tk_flag ?s"
    "failures ?s u = failures s u" "recoveries ?s u = recoveries s u" for u
    by (simp_all add: open_incident_def failures_def recoveries_def)
  have old: "incident_ok uuid sure s d j" if "hget (tk_incidents s) d = Some j" for d j
    using assms(2) that by (simp add: tracker_ok_def)
  have fresh: "in_id j \<noteq> uuid (tk_drawn s)" if "hget (tk_incidents s) d = Some j" for d j
    using old [OF that] drawn_fresh [OF assms(1) _ assms(3), of "in_id j"] by (simp add: incident_ok_def)
  have each: "incident_ok uuid sure ?s d j" if "hget (tk_incidents ?s) d = Some j" for d j
  proof (cases "d = c")
    case True
    with that s assms(2,3) show ?thesis by (auto simp: incident_ok_def new_database_incident_def tracker_ok_def)
  next
    case False
    with that s old [of d j] show ?thesis by (auto simp: incident_ok_def)
  qed
  have unique: "d = e" if "hget (tk_incidents ?s) d = Some j" "hget (tk_incidents ?s) e = Some k" "in_id j = in_id k" for d e j k
  proof -
    have new: "in_id l = uuid (tk_drawn s)" if "hget (tk_incidents ?s) c = Some l" for l
      using that by (auto simp: s(1) new_database_incident_def)
    have kept: "hget (tk_incidents s) f = Some l" if "hget (tk_incidents ?s) f = Some l" "f \<noteq> c" for f l
      using that by (simp add: s(1))
    show ?thesis
    proof (cases "d = c \<or> e = c")
      case True
      with that new kept fresh show ?thesis by metis
    next
      case False
      with that(1,2) kept have "hget (tk_incidents s) d = Some j" "hget (tk_incidents s) e = Some k" by blast+
      with assms(2) that(3) show ?thesis unfolding tracker_ok_def by blast
    qed
  qed
  have "hinsert c ?i (tk_incidents s) \<noteq> []" by (cases "(c, ?i, tk_incidents s)" rule: hinsert.cases) auto
  then have "hmap_ok (tk_incidents ?s)" "tk_flag ?s = (tk_incidents ?s \<noteq> [])"
    using assms(2) by (simp_all add: s(1,4) tracker_ok_def)
  moreover have "failures ?s (uuid n) = 0 \<and> recoveries ?s (uuid n) = 0" if "tk_drawn ?s \<le> n" "n < N" for n
    using assms(2) that unfolding s(2,5,6) tracker_ok_def by (meson Suc_leD)
  moreover have "sure \<longrightarrow> (\<forall>u. failures ?s u \<le> 1 \<and> recoveries ?s u \<le> 1)" "paired (tk_rows ?s)"
    using assms(2) unfolding s(3,5,6) tracker_ok_def by blast+
  ultimately show ?thesis unfolding tracker_ok_def using each unique by blast
qed

lemma remember_ok:
  assumes "uuid_source uuid N" "tracker_ok uuid N sure s" "tk_drawn (remember_database_failure uuid now component s) \<le> N"
  shows "tracker_ok uuid N sure (remember_database_failure uuid now component s)"
    "owns s d v (\<lambda>_. True) \<Longrightarrow> same_for s (remember_database_failure uuid now component s) d v"
proof -
  define c where "c = component_name component"
  show "tracker_ok uuid N sure (remember_database_failure uuid now component s)"
  proof (cases "hget (tk_incidents s) c")
    case None
    with assms(3) have "tk_drawn s < N" by (simp add: remember_database_failure_def open_incident_def c_def [symmetric])
    with None open_incident_ok [OF assms(1,2)] show ?thesis by (simp add: remember_database_failure_def c_def [symmetric])
  next
    case (Some i)
    let ?m = "hinsert c (i\<lparr>in_failed_again := Some now\<rparr>) (tk_incidents s)"
    have "?m \<noteq> []" by (cases "(c, i\<lparr>in_failed_again := Some now\<rparr>, tk_incidents s)" rule: hinsert.cases) auto
    moreover have "tk_incidents s \<noteq> []" using Some by auto
    ultimately have "tracker_ok uuid N sure (s\<lparr>tk_incidents := ?m\<rparr>)"
      using assms(2) Some by (simp add: tracker_ok_def incident_ok_def) (metis option.inject)
    with assms(2) Some show ?thesis by (simp add: remember_database_failure_def c_def [symmetric])
  qed
  show "same_for s (remember_database_failure uuid now component s) d v" if "owns s d v (\<lambda>_. True)"
    using that by (auto simp: remember_database_failure_def same_for_def owns_def open_incident_def Let_def split: option.splits)
qed

lemma claim_ok:
  assumes "tracker_ok uuid N sure s" "claim_incident c s = (s', r)"
  shows "tracker_ok uuid N sure s' \<and> call_ok sure s' r" "owns s d v (\<lambda>_. True) \<Longrightarrow> same_for s s' d v"
    "held r = Some (d, v) \<Longrightarrow> \<not> owns s d w (\<lambda>_. True)"
proof -
  show "owns s d v (\<lambda>_. True) \<Longrightarrow> same_for s s' d v" "held r = Some (d, v) \<Longrightarrow> \<not> owns s d w (\<lambda>_. True)"
    using assms(2) by (auto simp: claim_incident_def same_for_def owns_def Let_def split: option.splits if_splits)
  show "tracker_ok uuid N sure s' \<and> call_ok sure s' r"
  proof (cases "\<exists>i. hget (tk_incidents s) c = Some i \<and> \<not> in_recovering i")
    case False
    with assms show ?thesis by (auto simp: claim_incident_def split: option.splits)
  next
    case True
    then obtain i where i: "hget (tk_incidents s) c = Some i" "\<not> in_recovering i" by blast
    define j where "j = i\<lparr>in_recovering := True, in_failed_again := None\<rparr>"
    from i have "claim_incident c s =
        (s\<lparr>tk_incidents := hinsert c j (tk_incidents s)\<rparr>, if in_persisted i then WritingRecovery c j True else WritingFailure c j)"
      by (simp add: claim_incident_def Let_def j_def)
    with assms(2) have s': "s' = s\<lparr>tk_incidents := hinsert c j (tk_incidents s)\<rparr>"
      "r = (if in_persisted i then WritingRecovery c j True else WritingFailure c j)" by (metis prod.inject)+
    have "hinsert c j (tk_incidents s) \<noteq> []" "tk_incidents s \<noteq> []" using i by (cases "(c, j, tk_incidents s)" rule: hinsert.cases; auto)+
    then have "tracker_ok uuid N sure s'" using assms(1) i by (simp add: s' tracker_ok_def incident_ok_def j_def) (metis option.inject)
    moreover have "incident_ok uuid sure s c i" using assms(1) i by (simp add: tracker_ok_def)
    then have "call_ok sure s' r" using i by (auto simp: s' owns_def j_def incident_ok_def)
    ultimately show ?thesis ..
  qed
qed

text \<open>A row about the incident \<open>u\<close> that is being recovered.\<close>

definition row_fits :: "bool \<Rightarrow> tracker \<Rightarrow> string \<Rightarrow> event_fields \<Rightarrow> bool" where
  "row_fits sure s u r \<longleftrightarrow>
     (\<forall>v. failed_for v r \<or> recovered_for v r \<longrightarrow> v = u) \<and> (recovered_for u r \<longrightarrow> 0 < failures s u) \<and>
     (sure \<longrightarrow> failures s u + of_bool (failed_for u r) \<le> 1 \<and> recoveries s u + of_bool (recovered_for u r) \<le> 1)"

lemma row_ok:
  assumes "tracker_ok uuid N sure s" "owns s c u (\<lambda>_. True)" "row_fits sure s u r" "uuid_source uuid N"
  shows "tracker_ok uuid N sure (s\<lparr>tk_rows := tk_rows s @ [r]\<rparr>)"
    "owns s d v (\<lambda>_. True) \<Longrightarrow> d \<noteq> c \<Longrightarrow> same_for s (s\<lparr>tk_rows := tk_rows s @ [r]\<rparr>) d v"
proof -
  let ?s = "s\<lparr>tk_rows := tk_rows s @ [r]\<rparr>"
  obtain i where i: "hget (tk_incidents s) c = Some i" "in_id i = u" "in_recovering i" using assms(2) by (auto simp: owns_def)
  have other: "failures ?s v = failures s v \<and> recoveries ?s v = recoveries s v" if "v \<noteq> u" for v
    using that assms(3) by (auto simp: counts_row row_fits_def)
  have ids: "in_id j \<noteq> u" if "hget (tk_incidents s) d = Some j" "d \<noteq> c" for d j
    using that i assms(1) unfolding tracker_ok_def by metis
  have "incident_ok uuid sure ?s d j" if j: "hget (tk_incidents ?s) d = Some j" for d j
  proof -
    have old: "incident_ok uuid sure s d j" using assms(1) j by (simp add: tracker_ok_def)
    show ?thesis
    proof (cases "d = c")
      case True
      with i j have "j = i" by simp
      with old i show ?thesis by (auto simp: incident_ok_def counts_row)
    next
      case False
      with old other [OF ids, of d j] j show ?thesis by (simp add: incident_ok_def)
    qed
  qed
  moreover have "failures ?s (uuid n) = 0 \<and> recoveries ?s (uuid n) = 0" if "tk_drawn ?s \<le> n" "n < N" for n
  proof -
    have "incident_ok uuid sure s c i" using assms(1) i by (simp add: tracker_ok_def)
    then obtain m where "m < tk_drawn s" "u = uuid m" using i by (auto simp: incident_ok_def)
    then have "uuid n \<noteq> u" using that assms(4) by (auto simp: uuid_source_def dest: inj_onD)
    with other assms(1) that show ?thesis by (simp add: tracker_ok_def)
  qed
  moreover have "sure \<longrightarrow> (\<forall>v. failures ?s v \<le> 1 \<and> recoveries ?s v \<le> 1)"
  proof (intro impI allI)
    fix v
    assume sure
    with assms(1,3) other [of v] show "failures ?s v \<le> 1 \<and> recoveries ?s v \<le> 1"
      by (cases "v = u") (simp_all add: counts_row row_fits_def tracker_ok_def)
  qed
  moreover have "paired (tk_rows ?s)"
    using assms(1,3) by (auto simp: paired_snoc failures_pos tracker_ok_def row_fits_def)
  moreover have "hmap_ok (tk_incidents ?s)" "tk_flag ?s = (tk_incidents ?s \<noteq> [])" using assms(1) by (simp_all add: tracker_ok_def)
  moreover have "d = e" if "hget (tk_incidents ?s) d = Some j" "hget (tk_incidents ?s) e = Some k" "in_id j = in_id k" for d e j k
  proof -
    from that have "hget (tk_incidents s) d = Some j" "hget (tk_incidents s) e = Some k" by simp_all
    with assms(1) that(3) show ?thesis unfolding tracker_ok_def by blast
  qed
  ultimately show "tracker_ok uuid N sure ?s" unfolding tracker_ok_def by blast
  show "same_for s ?s d v" if "owns s d v (\<lambda>_. True)" "d \<noteq> c"
    using that ids other by (auto simp: same_for_def owns_def)
qed

lemma remove_ok:
  assumes "tracker_ok uuid N sure s" "hget (tk_incidents s) c = Some i"
  shows "tracker_ok uuid N sure (s\<lparr>tk_incidents := hremove c (tk_incidents s), tk_flag := (if hremove c (tk_incidents s) = [] then False else tk_flag s)\<rparr>)"
proof -
  have "tk_incidents s \<noteq> []" using assms(2) by auto
  with assms(1) show ?thesis
    by (simp add: tracker_ok_def incident_ok_def)
qed

lemma settle_ok:
  assumes "uuid_source uuid N" "tracker_ok uuid N sure s" "owns s c (in_id i) (\<lambda>_. True)" "tk_drawn (settle_incident uuid c i s) \<le> N"
  shows "tracker_ok uuid N sure (settle_incident uuid c i s)"
    "d \<noteq> c \<Longrightarrow> same_for s (settle_incident uuid c i s) d v"
proof -
  obtain j where j: "hget (tk_incidents s) c = Some j" "in_id j = in_id i" using assms(3) by (auto simp: owns_def)
  then have "tk_incidents s \<noteq> []" by auto
  with assms(2) have flag: "(open_incident uuid c t s)\<lparr>tk_flag := True\<rparr> = open_incident uuid c t s" for t
    by (simp add: open_incident_def tracker_ok_def)
  show "tracker_ok uuid N sure (settle_incident uuid c i s)"
  proof (cases "in_failed_again j")
    case None
    with remove_ok [OF assms(2) j(1)] j show ?thesis by (simp add: settle_incident_def option_filter_def Let_def)
  next
    case (Some t)
    with j have settled: "settle_incident uuid c i s = open_incident uuid c t s" by (simp add: settle_incident_def option_filter_def)
    with assms(4) open_incident_ok [OF assms(1,2), of c t, unfolded flag] show ?thesis by (simp add: open_incident_def)
  qed
  show "same_for s (settle_incident uuid c i s) d v" if "d \<noteq> c"
    using that j by (auto simp: settle_incident_def option_filter_def Let_def same_for_def owns_def open_incident_def failures_def recoveries_def
        split: option.split)
qed

lemma release_ok:
  assumes "tracker_ok uuid N sure s" "call_ok sure s (Releasing c u persisted)"
  shows "tracker_ok uuid N sure (release_database_recovery c u persisted s)"
    "d \<noteq> c \<Longrightarrow> same_for s (release_database_recovery c u persisted s) d v"
proof -
  obtain i where i: "hget (tk_incidents s) c = Some i" "in_id i = u" "in_persisted i \<longrightarrow> persisted" using assms(2) by (auto simp: owns_def)
  define j where "j = i\<lparr>in_persisted := (in_persisted i \<or> persisted), in_recovering := False, in_failed_again := None\<rparr>"
  have released: "release_database_recovery c u persisted s = s\<lparr>tk_incidents := hinsert c j (tk_incidents s)\<rparr>"
    using i by (simp add: release_database_recovery_def option_filter_def j_def)
  have "hinsert c j (tk_incidents s) \<noteq> []" "tk_incidents s \<noteq> []" using i by (cases "(c, j, tk_incidents s)" rule: hinsert.cases; auto)+
  moreover have "incident_ok uuid sure s c j"
    using assms i by (auto simp: tracker_ok_def incident_ok_def j_def)
  ultimately show "tracker_ok uuid N sure (release_database_recovery c u persisted s)"
    using assms(1) i by (simp add: released tracker_ok_def incident_ok_def j_def) (metis option.inject)
  show "same_for s (release_database_recovery c u persisted s) d v" if "d \<noteq> c"
    using that by (simp add: released same_for_def owns_def)
qed

lemma insert_event_ok:
  assumes "uuid_source uuid N" "tracker_ok uuid N sure s" "owns s c u (\<lambda>_. True)" "row_fits sure s u (normalized_event ul e)"
    and "insert_event ul fault e s = (s', ok)"
  shows "tracker_ok uuid N sure s'" "owns s d v (\<lambda>_. True) \<Longrightarrow> d \<noteq> c \<Longrightarrow> same_for s s' d v"
    "owns s' = owns s" "sure \<Longrightarrow> fault \<noteq> FaultAfterCommit \<Longrightarrow> \<not> ok \<Longrightarrow> s' = s"
    "ok \<Longrightarrow> failures s' u = failures s u + of_bool (failed_for u (normalized_event ul e)) \<and>
       recoveries s' u = recoveries s u + of_bool (recovered_for u (normalized_event ul e))"
    "failures s u \<le> failures s' u"
proof -
  have s': "s' = s \<and> \<not> ok \<or> s' = s\<lparr>tk_rows := tk_rows s @ [normalized_event ul e]\<rparr> \<and> (ok \<or> fault = FaultAfterCommit)"
    using assms(5) by (auto simp: insert_event_def split: db_fault.splits)
  note row = row_ok [OF assms(2-4,1)]
  from s' assms(2) row(1) show "tracker_ok uuid N sure s'" by auto
  show "same_for s s' d v" if "owns s d v (\<lambda>_. True)" "d \<noteq> c"
    using s' row(2) [OF that] by (auto simp: same_for_def)
  show "owns s' = owns s" using s' by (auto simp: owns_def fun_eq_iff)
  show "sure \<Longrightarrow> fault \<noteq> FaultAfterCommit \<Longrightarrow> \<not> ok \<Longrightarrow> s' = s" using s' by auto
  show "ok \<Longrightarrow> failures s' u = failures s u + of_bool (failed_for u (normalized_event ul e)) \<and>
       recoveries s' u = recoveries s u + of_bool (recovered_for u (normalized_event ul e))" using s' by (auto simp: counts_row)
  show "failures s u \<le> failures s' u" using s' by (auto simp: counts_row)
qed

lemma owned_uuid:
  assumes "uuid_source uuid N" "tracker_ok uuid N sure s" "tk_drawn s \<le> N" "owns s c u P"
  shows "uuid_text u"
proof -
  obtain i where "hget (tk_incidents s) c = Some i" "in_id i = u" using assms(4) by (auto simp: owns_def)
  with assms(2) have "u \<in> uuid ` {..<tk_drawn s}" by (auto simp: tracker_ok_def incident_ok_def)
  with assms(1,3) show ?thesis by (auto simp: uuid_source_def)
qed

text \<open>One step of a call that has taken an incident.\<close>

definition step_ok :: "(nat \<Rightarrow> string) \<Rightarrow> nat \<Rightarrow> bool \<Rightarrow> tracker \<Rightarrow> string \<Rightarrow> string \<Rightarrow> tracker \<Rightarrow> recovery \<Rightarrow> bool" where
  "step_ok uuid N sure s c u s' r' \<longleftrightarrow>
     tracker_ok uuid N sure s' \<and> call_ok sure s' r' \<and> held r' \<in> {None, Some (c, u)} \<and>
     (\<forall>d v. owns s d v (\<lambda>_. True) \<longrightarrow> d \<noteq> c \<longrightarrow> same_for s s' d v)"

lemma write_failure_ok:
  assumes uu: "uuid_source uuid N" "tk_drawn s \<le> N" "tk_drawn s' \<le> N" and ok: "tracker_ok uuid N sure s" "call_ok sure s (WritingFailure c i)"
    and fault: "sure \<longrightarrow> fault \<noteq> FaultAfterCommit" and step: "advance ul uuid now fault (WritingFailure c i) s = (s', r')"
  shows "step_ok uuid N sure s c (in_id i) s' r'"
proof -
  from ok(2) have zero: "sure \<longrightarrow> failures s (in_id i) = 0 \<and> recoveries s (in_id i) = 0" and own: "owns s c (in_id i) Not" by simp_all
  have own': "owns s c (in_id i) (\<lambda>_. True)" "owns s c (in_id i) (\<lambda>p. p \<longrightarrow> False)" using own by (auto simp: owns_def)
  note rows = incident_rows [OF owned_uuid [OF uu(1) ok(1) uu(2) own]]
  obtain ok' where ins: "insert_event ul fault (failure_event ul i) s = (s', ok')"
    and r': "r' = (if ok' then WritingRecovery c i True else Releasing c (in_id i) False)"
    using step by (auto split: prod.splits)
  have "row_fits sure s (in_id i) (normalized_event ul (failure_event ul i))" using zero by (simp add: row_fits_def rows)
  note I = insert_event_ok [OF uu(1) ok(1) own'(1) this ins]
  have "call_ok sure s' r'" using I(3-6) zero own' fault by (cases ok') (auto simp: r' rows)
  then show ?thesis using I(1,2) zero by (auto simp: step_ok_def r')
qed

lemma write_recovery_ok:
  assumes uu: "uuid_source uuid N" "tk_drawn s \<le> N" "tk_drawn s' \<le> N" and ok: "tracker_ok uuid N sure s" "call_ok sure s (WritingRecovery c i persisted)"
    and fault: "sure \<longrightarrow> fault \<noteq> FaultAfterCommit" and step: "advance ul uuid now fault (WritingRecovery c i persisted) s = (s', r')"
  shows "step_ok uuid N sure s c (in_id i) s' r'"
proof -
  from ok(2) have one: "persisted" "0 < failures s (in_id i)" "sure \<longrightarrow> failures s (in_id i) = 1 \<and> recoveries s (in_id i) = 0"
    and own: "owns s c (in_id i) (\<lambda>_. True)" by simp_all
  note rows = incident_rows [OF owned_uuid [OF uu(1) ok(1) uu(2) own]]
  obtain ok' where ins: "insert_event ul fault (recovery_event ul now c i) s = (s', ok')"
    and r': "r' = (if ok' then Settling c i else Releasing c (in_id i) persisted)"
    using step by (auto split: prod.splits)
  have "row_fits sure s (in_id i) (normalized_event ul (recovery_event ul now c i))" using one by (simp add: row_fits_def rows)
  note I = insert_event_ok [OF uu(1) ok(1) own this ins]
  have "call_ok sure s' r'" using I(3-6) one own fault by (cases ok') (auto simp: r' rows)
  then show ?thesis using I(1,2) one by (auto simp: step_ok_def r')
qed

lemma advance_held:
  assumes uu: "uuid_source uuid N" "tk_drawn s \<le> N" "tk_drawn s' \<le> N" and ok: "tracker_ok uuid N sure s" "call_ok sure s r" and h: "held r = Some (c, u)"
    and fault: "sure \<longrightarrow> fault \<noteq> FaultAfterCommit" and step: "advance ul uuid now fault r s = (s', r')"
  shows "step_ok uuid N sure s c u s' r'"
proof (cases r)
  case (WritingFailure c' i)
  with write_failure_ok [OF uu ok(1) _ fault] ok(2) h step show ?thesis by auto
next
  case (WritingRecovery c' i persisted)
  with write_recovery_ok [OF uu ok(1) _ fault] ok(2) h step show ?thesis by auto
next
  case (Settling c' i)
  with settle_ok [OF uu(1) ok(1), of c i] uu(3) ok(2) h step show ?thesis by (auto simp: step_ok_def)
next
  case (Releasing c' u' persisted)
  with release_ok [OF ok(1), of c u persisted] ok(2) h step show ?thesis by (auto simp: step_ok_def)
qed (use h in simp_all)

lemma other_row_ok:
  assumes "tracker_ok uuid N sure s" "se_event_type r \<notin> {''database.connection_failed'', ''database.connection_recovered''}"
  shows "tracker_ok uuid N sure (s\<lparr>tk_rows := tk_rows s @ [r]\<rparr>)" "same_for s (s\<lparr>tk_rows := tk_rows s @ [r]\<rparr>) c u"
proof -
  have none: "\<not> failed_for v r" "\<not> recovered_for v r" for v using assms(2) by (auto simp: failed_for_def recovered_for_def)
  with assms(1) show "tracker_ok uuid N sure (s\<lparr>tk_rows := tk_rows s @ [r]\<rparr>)"
    by (simp add: tracker_ok_def incident_ok_def counts_row paired_snoc)
  show "same_for s (s\<lparr>tk_rows := tk_rows s @ [r]\<rparr>) c u" using none by (simp add: same_for_def owns_def counts_row)
qed

lemma outages_okD:
  assumes "outages_ok uuid N sure q"
  shows "tracker_ok uuid N sure (ou_tracker q)" "r \<in> set (ou_calls q) \<Longrightarrow> call_ok sure (ou_tracker q) r"
    "k < length (ou_calls q) \<Longrightarrow> l < length (ou_calls q) \<Longrightarrow> held (ou_calls q ! k) = Some (c, u) \<Longrightarrow> held (ou_calls q ! l) = Some (c, v) \<Longrightarrow> k = l"
  using assms unfolding outages_ok_def by blast+

lemma tracker_changed:
  assumes "outages_ok uuid N sure q" "tracker_ok uuid N sure s'" "\<And>c u. owns (ou_tracker q) c u (\<lambda>_. True) \<Longrightarrow> same_for (ou_tracker q) s' c u"
  shows "outages_ok uuid N sure (q\<lparr>ou_tracker := s'\<rparr>)"
proof -
  have "call_ok sure s' r" if "r \<in> set (ou_calls q)" for r
    using call_ok_same [OF outages_okD(2) [OF assms(1) that]] assms(3) call_ok_owns [OF outages_okD(2) [OF assms(1) that]] by blast
  with assms(2) outages_okD(3) [OF assms(1)] show ?thesis by (simp add: outages_ok_def)
qed

text \<open>A call that takes one step; the others keep what they have.\<close>

lemma call_stepped:
  assumes ok: "outages_ok uuid N sure q" and k: "k < length (ou_calls q)" and s': "tracker_ok uuid N sure s'" "call_ok sure s' r'"
    and others: "\<And>l c u. l < length (ou_calls q) \<Longrightarrow> l \<noteq> k \<Longrightarrow> held (ou_calls q ! l) = Some (c, u) \<Longrightarrow>
        same_for (ou_tracker q) s' c u \<and> (\<forall>v. held r' \<noteq> Some (c, v))"
  shows "outages_ok uuid N sure (q\<lparr>ou_tracker := s', ou_calls := (ou_calls q)[k := r']\<rparr>)"
proof -
  have call: "call_ok sure s' ((ou_calls q)[k := r'] ! l)" if "l < length (ou_calls q)" for l
  proof (cases "l = k")
    case False
    with that call_ok_same [OF outages_okD(2) [OF ok nth_mem [OF that]]] others [OF that False] show ?thesis by auto
  qed (use that s'(2) in simp)
  have "l = m" if "l < length (ou_calls q)" "m < length (ou_calls q)" "held ((ou_calls q)[k := r'] ! l) = Some (c, u)"
    "held ((ou_calls q)[k := r'] ! m) = Some (c, v)" for l m c u v
  proof (cases "l = k \<or> m = k")
    case True
    with that k others show ?thesis by (metis nth_list_update)
  next
    case False
    with that outages_okD(3) [OF ok, of l m c u v] show ?thesis by simp
  qed
  with s'(1) call show ?thesis by (simp add: outages_ok_def all_set_conv_all_nth)
qed

lemma advance_drawn: "advance ul uuid now fault r s = (s', r') \<Longrightarrow> tk_drawn s \<le> tk_drawn s'"
  by (cases r) (auto simp: claim_incident_def insert_event_def settle_incident_def release_database_recovery_def open_incident_def Let_def
      split: option.splits prod.splits db_fault.splits if_splits)

lemma outage_step_drawn: "outage_step ul uuid faults q q' \<Longrightarrow> tk_drawn (ou_tracker q) \<le> tk_drawn (ou_tracker q')"
  by (induction rule: outage_step.induct)
    (auto simp: database_failed_def remember_database_failure_def open_incident_def Let_def split: option.split
      intro: advance_drawn)

lemma advance_ok:
  assumes uu: "uuid_source uuid N" "tk_drawn (ou_tracker q) \<le> N" "tk_drawn s' \<le> N" and ok: "outages_ok uuid N sure q" and k: "k < length (ou_calls q)"
    and fault: "sure \<longrightarrow> fault \<noteq> FaultAfterCommit" and step: "advance ul uuid now fault (ou_calls q ! k) (ou_tracker q) = (s', r')"
  shows "outages_ok uuid N sure (q\<lparr>ou_tracker := s', ou_calls := (ou_calls q)[k := r']\<rparr>)"
proof -
  let ?s = "ou_tracker q" and ?r = "ou_calls q ! k"
  have own: "owns ?s c u (\<lambda>_. True)" if "l < length (ou_calls q)" "held (ou_calls q ! l) = Some (c, u)" for l c u
    using call_ok_owns [OF outages_okD(2) [OF ok nth_mem [OF that(1)]] that(2)] .
  note call = outages_okD(2) [OF ok nth_mem [OF k]]
  show ?thesis
  proof (cases "held ?r")
    case (Some cu)
    obtain c u where h: "held ?r = Some (c, u)" using Some by (cases cu) simp
    from advance_held [OF uu outages_okD(1) [OF ok] call h fault step] have S: "step_ok uuid N sure ?s c u s' r'" .
    show ?thesis
    proof (rule call_stepped [OF ok k])
      fix l d v
      assume l: "l < length (ou_calls q)" "l \<noteq> k" "held (ou_calls q ! l) = Some (d, v)"
      with outages_okD(3) [OF ok k _ h, of l v] have "d \<noteq> c" by blast
      with S own [OF l(1,3)] show "same_for ?s s' d v \<and> (\<forall>w. held r' \<noteq> Some (d, w))" by (auto simp: step_ok_def)
    qed (use S in \<open>simp_all add: step_ok_def\<close>)
  next
    case None
    then consider c where "?r = Claiming c" | "?r = Returned" by (cases ?r) simp_all
    then show ?thesis
    proof cases
      case 1
      with step have c: "claim_incident c ?s = (s', r')" by simp
      show ?thesis
        by (rule call_stepped [OF ok k]) (use claim_ok [OF outages_okD(1) [OF ok] c] own in blast)+
    next
      case 2
      with step have "s' = ?s" "r' = Returned" by auto
      then show ?thesis using outages_okD(1) [OF ok] by (intro call_stepped [OF ok k]) (simp_all add: same_for_def)
    qed
  qed
qed

lemma outage_step_ok:
  assumes "outage_step ul uuid faults q q'" "uuid_source uuid N" "tk_drawn (ou_tracker q') \<le> N" "sure \<longrightarrow> FaultAfterCommit \<notin> faults" "outages_ok uuid N sure q"
  shows "outages_ok uuid N sure q'"
  using assms(1)
proof cases
  case (failed now component e)
  show ?thesis
  proof (cases "is_connection_error e")
    case True
    with failed have q': "q' = q\<lparr>ou_tracker := remember_database_failure uuid now component (ou_tracker q)\<rparr>" by (simp add: database_failed_def)
    note R = remember_ok [OF assms(2) outages_okD(1) [OF assms(5)], of now component]
    show ?thesis unfolding q' by (rule tracker_changed [OF assms(5)]) (use R assms(3) q' in simp_all)
  qed (use failed assms(5) in \<open>simp add: database_failed_def\<close>)
next
  case (succeeded component)
  with assms(5) show ?thesis
    by (auto simp: outages_ok_def database_recovered_def nth_append less_Suc_eq split: if_splits)
next
  case (advanced k fault now s r)
  with advance_ok [OF assms(2) _ _ assms(5) advanced(2) _ advanced(4)] assms(3,4) outage_step_drawn [OF assms(1)] show ?thesis by auto
next
  case (recorded r)
  with tracker_changed [OF assms(5) other_row_ok [OF outages_okD(1) [OF assms(5)] recorded(2)]] show ?thesis by simp
next
  case (abandoned k)
  have "outages_ok uuid N sure (q\<lparr>ou_tracker := ou_tracker q, ou_calls := (ou_calls q)[k := Returned]\<rparr>)"
    using outages_okD(1) [OF assms(5)] by (intro call_stepped [OF assms(5) abandoned(2)]) (simp_all add: same_for_def)
  with abandoned show ?thesis by simp
qed

lemma outage_reachable_ok:
  assumes "outage_reachable ul uuid faults q" "uuid_source uuid N" "tk_drawn (ou_tracker q) \<le> N" "sure \<longrightarrow> FaultAfterCommit \<notin> faults"
  shows "outages_ok uuid N sure q"
  using assms(1,3)
proof induction
  case start
  show ?case
    by (simp add: outages_ok_def no_outages_def empty_tracker_def tracker_ok_def hmap_ok_def failures_def recoveries_def paired_def)
next
  case (step q q')
  with outage_step_drawn [OF step.hyps(2)] outage_step_ok [OF step.hyps(2) assms(2) _ assms(4)] show ?case by auto
qed

section \<open>Properties\<close>

text \<open>C31:
  Under every interleaving of failures, successes and recovery calls, abandoned ones included, the lock-free
  flag is set exactly while some component has an open incident (so the fast path never skips one), every
  recovery row follows a failure row with the same incident id, and, unless an insert took effect and was
  reported as failed, no incident has more than one failure row or more than one recovery row.
\<close>

theorem incident_rows_paired:
  assumes "outage_reachable ul uuid faults q" "uuid_source uuid N" "tk_drawn (ou_tracker q) \<le> N"
  shows "tk_flag (ou_tracker q) = (tk_incidents (ou_tracker q) \<noteq> []) \<and> paired (tk_rows (ou_tracker q)) \<and>
    (FaultAfterCommit \<notin> faults \<longrightarrow> failures (ou_tracker q) u \<le> 1 \<and> recoveries (ou_tracker q) u \<le> 1)"
  using outage_reachable_ok [OF assms, of "FaultAfterCommit \<notin> faults"] by (simp add: outages_ok_def tracker_ok_def)

text \<open>
  A success of a component whose incident no call is recovering, with a working database, closes the
  incident: four steps of the call write the failure row, with the time the outage began, unless it was
  written before, then the recovery row, and leave no incident for the component; those of other
  components stay as they are.
\<close>

theorem recovery_closes_incident:
  assumes "outage_reachable ul uuid faults q" "uuid_source uuid N" "tk_drawn (ou_tracker q) \<le> N"
    and "hget (tk_incidents (ou_tracker q)) c = Some i" "\<not> in_recovering i"
  shows "\<exists>s rows recovery. ((\<lambda>(s, r). advance ul uuid now NoFault r s) ^^ 4) (ou_tracker q, Claiming c) = (s, Returned) \<and>
    tk_rows s = tk_rows (ou_tracker q) @ rows @ [recovery] \<and> recovered_for (in_id i) recovery \<and> hget (tk_incidents s) c = None \<and>
    (if in_persisted i then rows = [] else \<exists>f. rows = [f] \<and> failed_for (in_id i) f \<and> se_occurred_at f = in_occurred_at i) \<and>
    (\<forall>d. d \<noteq> c \<longrightarrow> hget (tk_incidents s) d = hget (tk_incidents (ou_tracker q)) d)"
proof -
  let ?s = "ou_tracker q" and ?i = "i\<lparr>in_recovering := True, in_failed_again := None\<rparr>"
  have "incident_ok uuid False ?s c i"
    using outage_reachable_ok [OF assms(1-3), of False] assms(4) by (simp add: outages_ok_def tracker_ok_def)
  then have "uuid_text (in_id ?i)" using assms(2,3) by (auto simp: incident_ok_def uuid_source_def)
  note rows = incident_rows [OF this, simplified]
  show ?thesis
    using assms(4,5) rows
    by (cases "in_persisted i")
      (auto simp: eval_nat_numeral claim_incident_def insert_event_def settle_incident_def option_filter_def Let_def)
qed





section \<open>Witnesses\<close>

definition sample_uuid :: "nat \<Rightarrow> string" where
  "sample_uuid n = replicate n CHR ''1'' @ replicate (36 - n) CHR ''0''"

lemma sample_uuid_source: "uuid_source sample_uuid 2"
proof -
  have "sample_uuid 0 \<noteq> sample_uuid 1" "uuid_text (sample_uuid 0) \<and> uuid_text (sample_uuid 1)" by code_simp+
  then show ?thesis by (auto simp: uuid_source_def inj_on_def less_2_cases_iff)
qed

text \<open>One outage, one recovery call that is abandoned after it took the incident, and one that runs to its end.\<close>

definition sample_outage :: outages where
  "sample_outage = no_outages\<lparr>ou_tracker := database_failed sample_uuid 7 ''health.read'' ErrPoolTimedOut empty_tracker\<rparr>"

definition sample_call :: outages where
  "sample_call = sample_outage\<lparr>ou_calls := [database_recovered ''health.read'' (ou_tracker sample_outage)]\<rparr>"

definition sample_claimed :: outages where
  "sample_claimed = (let (s, r) = advance plain_urls sample_uuid 9 NoFault (hd (ou_calls sample_call)) (ou_tracker sample_call)
     in sample_call\<lparr>ou_tracker := s, ou_calls := [r]\<rparr>)"

definition sample_stuck :: outages where
  "sample_stuck = sample_claimed\<lparr>ou_calls := [Returned]\<rparr>"

lemma sample_outage_step: "outage_step plain_urls sample_uuid {NoFault} no_outages sample_outage"
  using outage_step.failed [of plain_urls sample_uuid "{NoFault}" no_outages 7 "''health.read''" ErrPoolTimedOut]
  by (simp add: sample_outage_def no_outages_def)

lemma sample_call_step: "outage_step plain_urls sample_uuid {NoFault} sample_outage sample_call"
  using outage_step.succeeded [of plain_urls sample_uuid "{NoFault}" sample_outage "''health.read''"]
  by (simp add: sample_call_def sample_outage_def no_outages_def)

lemma sample_claimed_step: "outage_step plain_urls sample_uuid {NoFault} sample_call sample_claimed"
proof -
  obtain s r where step: "advance plain_urls sample_uuid 9 NoFault (hd (ou_calls sample_call)) (ou_tracker sample_call) = (s, r)" by fastforce
  then have "sample_claimed = sample_call\<lparr>ou_tracker := s, ou_calls := (ou_calls sample_call)[0 := r]\<rparr>"
    by (simp add: sample_claimed_def sample_call_def)
  with outage_step.advanced [of 0 sample_call NoFault "{NoFault}" plain_urls sample_uuid 9 s r] step show ?thesis
    by (simp add: sample_call_def)
qed

lemma sample_stuck_step: "outage_step plain_urls sample_uuid {NoFault} sample_claimed sample_stuck"
proof -
  obtain s r where "advance plain_urls sample_uuid 9 NoFault (hd (ou_calls sample_call)) (ou_tracker sample_call) = (s, r)" by fastforce
  then have "ou_calls sample_claimed = [r]" by (simp add: sample_claimed_def)
  with outage_step.abandoned [of 0 sample_claimed plain_urls sample_uuid "{NoFault}"] show ?thesis by (simp add: sample_stuck_def)
qed



lemma sample_outage_reachable:
  "outage_reachable plain_urls sample_uuid {NoFault} sample_outage" "outage_reachable plain_urls sample_uuid {NoFault} sample_stuck"
proof -
  show outage: "outage_reachable plain_urls sample_uuid {NoFault} sample_outage"
    by (rule outage_reachable.step [OF outage_reachable.start sample_outage_step])
  note outage_reachable.step [OF outage sample_call_step]
  note outage_reachable.step [OF this sample_claimed_step]
  from outage_reachable.step [OF this sample_stuck_step] show "outage_reachable plain_urls sample_uuid {NoFault} sample_stuck" .
qed

lemma sample_outage_values:
  "tk_drawn (ou_tracker sample_outage) \<le> 2"
  "hget (tk_incidents (ou_tracker sample_outage)) ''health.read'' = Some (new_database_incident (sample_uuid 0) ''health.read'' 7)"
  by code_simp+



theorem incident_rows_paired_witness:
  "tk_flag (ou_tracker sample_outage) = (tk_incidents (ou_tracker sample_outage) \<noteq> []) \<and> paired (tk_rows (ou_tracker sample_outage)) \<and>
   failures (ou_tracker sample_outage) (sample_uuid 0) \<le> 1"
  using incident_rows_paired [OF sample_outage_reachable(1) sample_uuid_source sample_outage_values(1), of "sample_uuid 0"] by simp

theorem recovery_closes_incident_witness:
  "\<exists>s r. ((\<lambda>(s, r). advance plain_urls sample_uuid 9 NoFault r s) ^^ 4) (ou_tracker sample_outage, Claiming ''health.read'') = (s, Returned) \<and>
     hget (tk_incidents s) ''health.read'' = None \<and> r \<in> set (tk_rows s) \<and> recovered_for (sample_uuid 0) r"
proof -
  have "\<not> in_recovering (new_database_incident (sample_uuid 0) ''health.read'' 7)" by (simp add: new_database_incident_def)
  from recovery_closes_incident [OF sample_outage_reachable(1) sample_uuid_source sample_outage_values this, of 9] obtain s rows r where
    "((\<lambda>(s, r). advance plain_urls sample_uuid 9 NoFault r s) ^^ 4) (ou_tracker sample_outage, Claiming ''health.read'') = (s, Returned)"
    "hget (tk_incidents s) ''health.read'' = None" "tk_rows s = tk_rows (ou_tracker sample_outage) @ rows @ [r]"
    "recovered_for (in_id (new_database_incident (sample_uuid 0) ''health.read'' 7)) r" by blast
  then show ?thesis by (intro exI [of _ s] exI [of _ r]) (simp add: new_database_incident_def)
qed


end
