(* ===== verification/Infra_Backup.thy ===== *)
theory Infra_Backup
  imports Infra_Events
begin

text \<open>
  The control-plane export and restore of \<open>src/infra/ops.rs\<close>: how rows are cleaned on the way out, what a
  restore accepts, and what it writes. A row is the JSON object the database makes of it (\<open>to_jsonb\<close>); the
  URL library is the one of \<open>Infra_Events\<close>; the fingerprint of the runtime snapshot is a parameter, as is the
  time. Reading and writing whole tables as rows is the database's work and is not modelled.
\<close>

section \<open>Errors and texts\<close>

datatype ops_error =
    OpsDatabase
  | OpsJson
  | OpsValidation string
  | OpsNotFound string
  | OpsConflict string
  | OpsSnapshot string

fun ops_error_code :: "ops_error \<Rightarrow> string" where
  "ops_error_code OpsDatabase = ''database_error''"
| "ops_error_code OpsJson = ''invalid_operation''"
| "ops_error_code (OpsValidation _) = ''invalid_operation''"
| "ops_error_code (OpsNotFound _) = ''not_found''"
| "ops_error_code (OpsConflict _) = ''operation_conflict''"
| "ops_error_code (OpsSnapshot _) = ''snapshot_verification_failed''"

fun public_error_message :: "ops_error \<Rightarrow> string" where
  "public_error_message OpsDatabase = ''database operation failed''"
| "public_error_message OpsJson = ''operation payload is invalid''"
| "public_error_message (OpsValidation m) = m"
| "public_error_message (OpsNotFound m) = m"
| "public_error_message (OpsConflict m) = m"
| "public_error_message (OpsSnapshot m) = m"

definition redact_text :: "string \<Rightarrow> string" where
  "redact_text value =
     (if list_ex (has_infix (to_ascii_lowercase value)) [''authorization'', ''bearer '', ''api_key'', ''apikey'', ''secret'', ''password'']
      then ''redacted'' else concat (take 512 (utf8_chars value)))"

definition sanitize_actor :: "string \<Rightarrow> string" where
  "sanitize_actor value = (if trim value = [] then ''system'' else keep_chars 128 (redact_text (trim value)))"

section \<open>Cleaning rows\<close>

definition ops_sensitive_key :: "string \<Rightarrow> bool" where
  "ops_sensitive_key key =
     (let key = to_ascii_lowercase key in
      key \<in> set [''authorization'', ''api_key'', ''apikey'', ''access_token'', ''refresh_token'', ''secret'', ''password'', ''private_key'',
        ''credential'', ''credential_ciphertext'', ''key_hash''] \<or>
      list_ex (ends_with key) [''_secret'', ''_password'', ''-secret'', ''-password'', ''_key'', ''-key''] \<or>
      starts_with key ''x-api-'' \<or> list_ex (has_infix key) [''api_key'', ''api-key'', ''apikey''] \<or>
      key \<in> set [''auth_token'', ''session_token''])"

definition ops_looks_like_secret :: "string \<Rightarrow> bool" where
  "ops_looks_like_secret value =
     (let value = trim value in
      list_ex (\<lambda>(p, n). starts_with value p \<and> n \<le> length value) [(''sk-'', 16), (''sk_'', 16), (''ghp_'', 20), (''Bearer '', 20)])"

definition ops_sensitive_query :: "url \<Rightarrow> bool" where
  "ops_sensitive_query u =
     (case url_query u of
        None \<Rightarrow> False
      | Some q \<Rightarrow> list_ex (has_infix (to_ascii_lowercase q)) [''api_key'', ''apikey'', ''token'', ''secret'', ''password''])"

definition sanitize_string :: "url_library \<Rightarrow> string \<Rightarrow> string" where
  "sanitize_string ul value =
     (if ops_looks_like_secret value then redacted
      else case ul_parse ul value of
        None \<Rightarrow> value
      | Some u \<Rightarrow>
          if url_username u \<noteq> [] \<or> url_password u \<noteq> None \<or> ops_sensitive_query u \<or> url_fragment u \<noteq> None
          then ul_scrub ul u (ops_sensitive_query u) else value)"

fun hide_secret :: "json \<Rightarrow> json" where
  "hide_secret (JString t) = JString (if ops_looks_like_secret t then redacted else t)"
| "hide_secret v = v"

fun sanitize_json :: "url_library \<Rightarrow> json \<Rightarrow> json" where
  "sanitize_json ul (JObject kvs) =
     JObject (map (\<lambda>(k, v). (k, if ops_sensitive_key k then JString redacted else hide_secret (sanitize_json ul v))) kvs)"
| "sanitize_json ul (JArray vs) = JArray (map (sanitize_json ul) vs)"
| "sanitize_json ul (JString s) = JString (sanitize_string ul s)"
| "sanitize_json ul v = v"

text \<open>\<open>Map::remove\<close> and \<open>Map::insert\<close> on the object a row is.\<close>

fun row_remove :: "string \<Rightarrow> json \<Rightarrow> json" where
  "row_remove k (JObject kvs) = JObject (filter (\<lambda>e. fst e \<noteq> k) kvs)"
| "row_remove k v = v"

fun row_insert :: "string \<Rightarrow> json \<Rightarrow> json \<Rightarrow> json" where
  "row_insert k x (JObject kvs) = JObject (binsert k x kvs)"
| "row_insert k x v = v"

definition row_sanitize :: "url_library \<Rightarrow> string \<Rightarrow> json \<Rightarrow> json" where
  "row_sanitize ul key row =
     (case json_get row key of None \<Rightarrow> row | Some v \<Rightarrow> row_insert key (sanitize_json ul v) (row_remove key row))"

definition sanitize_source_row :: "url_library \<Rightarrow> json \<Rightarrow> json" where
  "sanitize_source_row ul row = row_sanitize ul ''provider_preset_snapshot'' (row_sanitize ul ''auth_config'' row)"

definition credential_reference :: "string option \<Rightarrow> bool \<Rightarrow> json" where
  "credential_reference env had_ciphertext =
     (case env of
        Some name \<Rightarrow> if trim name \<noteq> [] then json_object [(''kind'', JString ''secret_ref''), (''name'', JString name)]
                     else json_object [(''kind'', JString ''none'')]
      | None \<Rightarrow> json_object [(''kind'', JString (if had_ciphertext then ''redacted'' else ''none''))])"

definition sanitize_account_row :: "url_library \<Rightarrow> json \<Rightarrow> json" where
  "sanitize_account_row ul row =
     (case row of
        JObject _ \<Rightarrow>
          (let env = Option.bind (json_get row ''credential_env'') json_as_str;
               had_ciphertext = (case json_get row ''credential_ciphertext'' of None \<Rightarrow> False | Some v \<Rightarrow> \<not> json_is_null v)
           in row_sanitize ul ''auth_config'' (row_insert ''credential'' (credential_reference env had_ciphertext) (row_remove ''credential_ciphertext'' row)))
      | _ \<Rightarrow> row)"

definition sanitize_virtual_key_row :: "json \<Rightarrow> json" where
  "sanitize_virtual_key_row row = row_remove ''key_ciphertext'' (row_remove ''key_hash'' row)"

section \<open>Export\<close>

record 'rows control_tables =
  ct_provider_presets :: 'rows
  ct_model_presets :: 'rows
  ct_sources :: 'rows
  ct_accounts :: 'rows
  ct_source_models :: 'rows
  ct_source_model_capabilities :: 'rows
  ct_logical_models :: 'rows
  ct_model_bindings :: 'rows
  ct_routes :: 'rows
  ct_providers :: 'rows
  ct_virtual_keys :: 'rows

record control_plane_export =
  ex_format :: string
  ex_version :: int
  ex_exported_at :: int
  ex_timezone :: string
  ex_schema_version :: int
  ex_migration_version :: int
  ex_revision :: int
  ex_fingerprint :: string
  ex_tables :: "json list control_tables"

definition export_source_row :: "url_library \<Rightarrow> json \<Rightarrow> json" where
  "export_source_row ul row = sanitize_source_row ul (sanitize_json ul row)"

definition export_account_row :: "url_library \<Rightarrow> json \<Rightarrow> json" where
  "export_account_row ul row =
     (let credential_env = unwrap_or JNull (json_get row ''credential_env'')
      in sanitize_account_row ul (row_insert ''credential_env'' credential_env (sanitize_json ul row)))"

definition export_tables :: "url_library \<Rightarrow> json list control_tables \<Rightarrow> json list control_tables" where
  "export_tables ul t =
     \<lparr>ct_provider_presets = map (sanitize_json ul) (ct_provider_presets t), ct_model_presets = map (sanitize_json ul) (ct_model_presets t),
      ct_sources = map (export_source_row ul) (ct_sources t), ct_accounts = map (export_account_row ul) (ct_accounts t),
      ct_source_models = map (sanitize_json ul) (ct_source_models t),
      ct_source_model_capabilities = map (sanitize_json ul) (ct_source_model_capabilities t),
      ct_logical_models = map (sanitize_json ul) (ct_logical_models t), ct_model_bindings = map (sanitize_json ul) (ct_model_bindings t),
      ct_routes = map (sanitize_json ul) (ct_routes t), ct_providers = map (sanitize_json ul) (ct_providers t),
      ct_virtual_keys = map sanitize_virtual_key_row (ct_virtual_keys t)\<rparr>"

definition all_tables :: "'a control_tables \<Rightarrow> 'a list" where
  "all_tables t =
     [ct_provider_presets t, ct_model_presets t, ct_sources t, ct_accounts t, ct_source_models t, ct_source_model_capabilities t,
      ct_logical_models t, ct_model_bindings t, ct_routes t, ct_providers t, ct_virtual_keys t]"

definition max_export_rows :: nat where
  "max_export_rows = 100000"

definition build_control_plane_export ::
  "url_library \<Rightarrow> int \<Rightarrow> int \<Rightarrow> int \<Rightarrow> int \<Rightarrow> string \<Rightarrow> json list control_tables \<Rightarrow> (control_plane_export, ops_error) result" where
  "build_control_plane_export ul now schema migration revision fingerprint tables =
     (let t = export_tables ul tables in
      if list_ex (\<lambda>rows. max_export_rows < length rows) (all_tables t)
      then Err (OpsValidation ''control-plane export exceeds 100000 rows in one table'')
      else Ok \<lparr>ex_format = ''my-ai-gateway.control-plane'', ex_version = 1, ex_exported_at = now, ex_timezone = ''UTC'',
           ex_schema_version = schema, ex_migration_version = migration, ex_revision = revision, ex_fingerprint = fingerprint, ex_tables = t\<rparr>)"

section \<open>Restore\<close>

definition plaintext :: "json \<Rightarrow> bool" where
  "plaintext v = (case json_as_str v of None \<Rightarrow> False | Some t \<Rightarrow> t \<noteq> [] \<and> t \<noteq> ''[REDACTED]'' \<and> t \<noteq> ''redacted'')"

definition plaintext_field :: "string \<Rightarrow> json \<Rightarrow> bool" where
  "plaintext_field key child =
     (to_ascii_lowercase key \<in> set [''credential_ciphertext'', ''authorization'', ''api_key'', ''apikey'', ''password'', ''private_key'',
        ''access_token'', ''refresh_token'', ''credential''] \<and> plaintext child)"

text \<open>Whether \<open>reject_plaintext_secret_fields\<close> finds one: it stops at the first, always with the same error.\<close>

fun has_plaintext_secret :: "json \<Rightarrow> bool" where
  "has_plaintext_secret (JObject kvs) = list_ex (\<lambda>(k, v). plaintext_field k v \<or> has_plaintext_secret v) kvs"
| "has_plaintext_secret (JArray vs) = list_ex has_plaintext_secret vs"
| "has_plaintext_secret _ = False"

definition reject_plaintext_secret_fields :: "json \<Rightarrow> (unit, ops_error) result" where
  "reject_plaintext_secret_fields v =
     (if has_plaintext_secret v then Err (OpsValidation ''control-plane export contains a plaintext credential field'') else Ok ())"

definition is_ascii_hexdigit :: "char \<Rightarrow> bool" where
  "is_ascii_hexdigit c = (c \<in> set ''0123456789abcdefABCDEF'')"

fun check_rows :: "json list \<Rightarrow> (unit, ops_error) result" where
  "check_rows [] = Ok ()"
| "check_rows (row # rows) =
     (if json_as_object row = None then Err (OpsValidation ''control-plane export rows must be JSON objects'')
      else and_then (reject_plaintext_secret_fields row) (\<lambda>_. check_rows rows))"

fun check_tables :: "json list list \<Rightarrow> (unit, ops_error) result" where
  "check_tables [] = Ok ()"
| "check_tables (rows # ts) =
     (if max_export_rows < length rows then Err (OpsValidation ''control-plane export exceeds 100000 rows'')
      else and_then (check_rows rows) (\<lambda>_. check_tables ts))"

definition validate_export_shape :: "control_plane_export \<Rightarrow> (unit, ops_error) result" where
  "validate_export_shape e =
     (if ex_format e \<noteq> ''my-ai-gateway.control-plane'' \<or> ex_version e \<noteq> 1
      then Err (OpsValidation ''unsupported control-plane export format or version'')
      else if ex_timezone e \<noteq> ''UTC'' then Err (OpsValidation ''control-plane exports must use UTC'')
      else if ex_schema_version e \<le> 0 \<or> ex_migration_version e \<le> 0
      then Err (OpsValidation ''control-plane export schema metadata is invalid'')
      else if length (ex_fingerprint e) \<noteq> 64 \<or> \<not> list_all is_ascii_hexdigit (ex_fingerprint e)
      then Err (OpsValidation ''control-plane runtime snapshot fingerprint is invalid'')
      else check_tables (all_tables (ex_tables e)))"

definition restore_row :: "url_library \<Rightarrow> json \<Rightarrow> json" where
  "restore_row ul row = sanitize_json ul row"

definition restore_account_row :: "url_library \<Rightarrow> json \<Rightarrow> json" where
  "restore_account_row ul row =
     (let row = row_insert ''credential_ciphertext'' JNull (row_remove ''credential'' (sanitize_json ul row)) in
      if json_get row ''credential_env'' = Some JNull then row_remove ''credential_env'' row else row)"

section \<open>What leaves the database\<close>

lemma map_binsert: "map (\<lambda>(k, v). (k, f k v)) (binsert k x m) = binsert k (f k x) (map (\<lambda>(k, v). (k, f k v)) m)"
  by (induction k x m rule: binsert.induct) auto

lemma set_binsert_sub: "set (binsert k x m) \<subseteq> insert (k, x) (set m)"
  by (induction k x m rule: binsert.induct) auto





lemma get_other_column: "k \<noteq> k' \<Longrightarrow> json_get (row_insert k x (JObject kvs)) k' = json_get (JObject kvs) k'"
  by (simp add: bget_binsert)




text \<open>
  The kind of credential an account export reports does not depend on the ciphertext either: cleaning the row
  has replaced even a missing ciphertext by a text, so an account without any credential is reported as one
  whose credential was removed.
\<close>

lemma missing_credential_reported_removed:
  "json_get (export_account_row plain_urls (JObject [(''credential_ciphertext'', JNull), (''credential_env'', JNull), (''id'', JString ''a'')])) ''credential'' =
   Some (JObject [(''kind'', JString ''redacted'')])"
  by code_simp

section \<open>What a restore accepts\<close>

lemma rejected_keys_sensitive: "plaintext_field k v \<Longrightarrow> ops_sensitive_key k"
  by (auto simp: plaintext_field_def ops_sensitive_key_def Let_def)

lemma plaintext_redacted: "\<not> plaintext (JString redacted)"
  by (simp add: plaintext_def redacted_def)

lemma has_plaintext_hide [simp]: "has_plaintext_secret (hide_secret v) = has_plaintext_secret v"
  by (cases v) simp_all

lemma sanitized_accepted: "\<not> has_plaintext_secret (sanitize_json ul v)"
proof (induction v rule: sanitize_json.induct)
  case (1 ul kvs)
  show ?case
  proof
    assume "has_plaintext_secret (sanitize_json ul (JObject kvs))"
    then obtain k v where kv: "(k, v) \<in> set kvs"
      and bad: "plaintext_field k (if ops_sensitive_key k then JString redacted else hide_secret (sanitize_json ul v)) \<or>
        has_plaintext_secret (if ops_sensitive_key k then JString redacted else hide_secret (sanitize_json ul v))"
      by (auto simp: list_ex_iff)
    show False
    proof (cases "ops_sensitive_key k")
      case True
      with bad plaintext_redacted show False by (auto simp: plaintext_field_def)
    next
      case False
      with bad rejected_keys_sensitive "1.IH" [OF kv refl] show False by auto
    qed
  qed
qed (auto simp: list_ex_iff)

lemma accepted_insert:
  assumes "\<not> has_plaintext_secret row" "\<not> plaintext_field k x" "\<not> has_plaintext_secret x"
  shows "\<not> has_plaintext_secret (row_insert k x row)"
  using assms set_binsert_sub [of k x] by (cases row) (fastforce simp: list_ex_iff)+

lemma accepted_remove: "\<not> has_plaintext_secret row \<Longrightarrow> \<not> has_plaintext_secret (row_remove k row)"
  by (cases row) (auto simp: list_ex_iff)

lemma accepted_sanitize:
  assumes "\<not> has_plaintext_secret row" "\<not> ops_sensitive_key k"
  shows "\<not> has_plaintext_secret (row_sanitize ul k row)"
proof (cases "json_get row k")
  case (Some v)
  have "\<not> plaintext_field k (sanitize_json ul v)" using rejected_keys_sensitive assms(2) by blast
  from accepted_insert [OF accepted_remove [OF assms(1)] this sanitized_accepted] Some show ?thesis by (simp add: row_sanitize_def)
qed (use assms in \<open>simp add: row_sanitize_def\<close>)

lemma plain_column:
  assumes "CHR ''k'' \<notin> set (to_ascii_lowercase key)"
    and "list_all (\<lambda>w. to_ascii_lowercase key \<noteq> w) [''authorization'', ''access_token'', ''refresh_token'', ''secret'', ''password'', ''credential'',
      ''credential_ciphertext'']"
    and "list_all (\<lambda>w. \<not> ends_with (to_ascii_lowercase key) w) [''_secret'', ''_password'', ''-secret'', ''-password'', ''_key'', ''-key'']"
    and "\<not> starts_with (to_ascii_lowercase key) ''x-api-''"
  shows "\<not> ops_sensitive_key key"
proof -
  have "\<not> has_infix (to_ascii_lowercase key) p" if "CHR ''k'' \<in> set p" for p
    using has_infix_chars [of "to_ascii_lowercase key" p] assms(1) that by blast
  moreover have "to_ascii_lowercase key \<noteq> w" if "CHR ''k'' \<in> set w" for w using assms(1) that by blast
  ultimately show ?thesis using assms(2-4) by (simp add: ops_sensitive_key_def)
qed

lemma plain_columns: "\<not> ops_sensitive_key ''auth_config''" "\<not> ops_sensitive_key ''provider_preset_snapshot''" "\<not> ops_sensitive_key ''credential_env''"
  by (rule plain_column; code_simp)+

lemma plaintext_field_simps [simp]:
  "\<not> plaintext_field k (JObject kvs)" "\<not> plaintext_field ''kind'' v" "\<not> plaintext_field ''name'' v"
  by (simp_all add: plaintext_field_def plaintext_def to_ascii_lowercase_def to_ascii_lowercase_byte_def)

lemma credential_reference_accepted:
  "\<not> plaintext_field ''credential'' (credential_reference env had) \<and> \<not> has_plaintext_secret (credential_reference env had)"
  by (simp add: credential_reference_def json_object_def split: option.split)

text \<open>The columns of an account row and of a virtual key row, as far as the checks look at them.\<close>

definition account_columns :: "json \<Rightarrow> bool" where
  "account_columns row \<longleftrightarrow> (case json_get row ''credential_env'' of None \<Rightarrow> True | Some v \<Rightarrow> json_is_null v \<or> json_as_str v \<noteq> None)"

fun no_objects :: "json \<Rightarrow> bool" where
  "no_objects (JObject _) = False"
| "no_objects (JArray vs) = list_all no_objects vs"
| "no_objects _ = True"

definition virtual_key_columns :: "json \<Rightarrow> bool" where
  "virtual_key_columns row \<longleftrightarrow>
     (case json_as_object row of None \<Rightarrow> False
      | Some kvs \<Rightarrow> list_all (\<lambda>(k, v). (k \<in> {''key_hash'', ''key_ciphertext''} \<or> \<not> ops_sensitive_key k) \<and> no_objects v) kvs)"

lemma no_objects_accepted: "no_objects v \<Longrightarrow> \<not> has_plaintext_secret v"
  by (induction v rule: no_objects.induct) (auto simp: list_ex_iff list_all_iff)

lemma key_columns: "\<not> plaintext_field ''key_hash'' v \<and> \<not> plaintext_field ''key_ciphertext'' v"
  by (simp add: plaintext_field_def to_ascii_lowercase_def to_ascii_lowercase_byte_def)

lemma virtual_key_accepted:
  assumes "virtual_key_columns row"
  shows "\<not> has_plaintext_secret (sanitize_virtual_key_row row)"
proof -
  from assms obtain kvs where kvs: "row = JObject kvs" and
    each: "(k, v) \<in> set kvs \<Longrightarrow> (k \<in> {''key_hash'', ''key_ciphertext''} \<or> \<not> ops_sensitive_key k) \<and> no_objects v" for k v
    by (cases row) (auto simp: virtual_key_columns_def list_all_iff)
  have "\<not> plaintext_field k v \<and> \<not> has_plaintext_secret v" if "(k, v) \<in> set kvs" for k v
    using each [OF that] key_columns rejected_keys_sensitive no_objects_accepted by blast
  then show ?thesis by (auto simp: sanitize_virtual_key_row_def kvs list_ex_iff)
qed

lemma account_row_object:
  "sanitize_account_row ul (JObject kvs) = row_sanitize ul ''auth_config'' (row_insert ''credential'' (credential_reference
     (Option.bind (json_get (JObject kvs) ''credential_env'') json_as_str)
     (case json_get (JObject kvs) ''credential_ciphertext'' of None \<Rightarrow> False | Some v \<Rightarrow> \<not> json_is_null v))
     (row_remove ''credential_ciphertext'' (JObject kvs)))"
  by (simp add: sanitize_account_row_def Let_def)

lemma account_row_other: "\<not> (\<exists>kvs. row = JObject kvs) \<Longrightarrow> sanitize_account_row ul row = row"
  by (cases row) (simp_all add: sanitize_account_row_def)

lemma account_row_accepted:
  assumes "\<not> has_plaintext_secret row"
  shows "\<not> has_plaintext_secret (sanitize_account_row ul row)"
proof -
  have "\<not> has_plaintext_secret (row_sanitize ul ''auth_config'' (row_insert ''credential'' (credential_reference env had) (row_remove ''credential_ciphertext'' row)))" for env had
    using credential_reference_accepted by (intro accepted_sanitize accepted_insert accepted_remove assms plain_columns(1)) blast+
  then show ?thesis using assms by (metis account_row_object account_row_other)
qed

lemma account_accepted:
  assumes "account_columns row"
  shows "\<not> has_plaintext_secret (export_account_row ul row)"
proof -
  let ?env = "unwrap_or JNull (json_get row ''credential_env'')"
  have "\<not> has_plaintext_secret ?env" using assms
    by (cases "json_get row ''credential_env''"; cases "the (json_get row ''credential_env'')") (simp_all add: account_columns_def)
  moreover have "\<not> plaintext_field ''credential_env'' ?env" using plain_columns rejected_keys_sensitive by blast
  ultimately have "\<not> has_plaintext_secret (row_insert ''credential_env'' ?env (sanitize_json ul row))"
    by (intro accepted_insert sanitized_accepted)
  then show ?thesis by (simp add: export_account_row_def account_row_accepted)
qed

lemma check_rows_Ok: "check_rows rows = Ok () \<longleftrightarrow> (\<forall>r \<in> set rows. json_as_object r \<noteq> None \<and> \<not> has_plaintext_secret r)"
  by (induction rows) (auto simp: reject_plaintext_secret_fields_def)

lemma check_tables_Ok: "check_tables ts = Ok () \<longleftrightarrow> (\<forall>rows \<in> set ts. length rows \<le> max_export_rows \<and> check_rows rows = Ok ())"
  by (induction ts) (auto simp: and_then_Ok not_less)

lemma object_kept:
  assumes "json_as_object row \<noteq> None"
  shows "json_as_object (sanitize_json ul row) \<noteq> None" "json_as_object (export_account_row ul row) \<noteq> None"
    "json_as_object (export_source_row ul row) \<noteq> None" "json_as_object (sanitize_virtual_key_row row) \<noteq> None"
proof -
  have ins: "json_as_object (row_insert k x v) \<noteq> None \<longleftrightarrow> json_as_object v \<noteq> None" for k x v by (cases v) simp_all
  have rem: "json_as_object (row_remove k v) \<noteq> None \<longleftrightarrow> json_as_object v \<noteq> None" for k v by (cases v) simp_all
  have san: "json_as_object (row_sanitize ul k v) \<noteq> None \<longleftrightarrow> json_as_object v \<noteq> None" for k v
    using ins rem by (auto simp: row_sanitize_def split: option.split)
  show base: "json_as_object (sanitize_json ul row) \<noteq> None" using assms by (cases row) simp_all
  show "json_as_object (export_source_row ul row) \<noteq> None" using base by (simp add: export_source_row_def sanitize_source_row_def san del: not_None_eq)
  show "json_as_object (sanitize_virtual_key_row row) \<noteq> None" using assms by (simp add: sanitize_virtual_key_row_def rem del: not_None_eq)
  have "json_as_object (sanitize_account_row ul v) \<noteq> None" if "json_as_object v \<noteq> None" for v
    using that by (cases v) (simp_all add: account_row_object san ins rem del: not_None_eq row_insert.simps row_remove.simps)
  with base ins show "json_as_object (export_account_row ul row) \<noteq> None" by (simp add: export_account_row_def del: not_None_eq)
qed

lemma check_mapped:
  assumes "\<forall>r \<in> set rows. json_as_object r \<noteq> None" "\<And>r. json_as_object r \<noteq> None \<Longrightarrow> json_as_object (f r) \<noteq> None"
    and "\<And>r. r \<in> set rows \<Longrightarrow> \<not> has_plaintext_secret (f r)"
  shows "check_rows (map f rows) = Ok ()"
  using assms by (simp add: check_rows_Ok del: not_None_eq)

text \<open>
  The gateway accepts its own exports: whatever the tables hold, an export that was built passes every check a
  restore makes of its shape, provided schema versions are positive and the fingerprint is a hexadecimal
  SHA-256 digest. In particular no cleaned row is refused as carrying a plaintext credential.
\<close>

theorem own_export_accepted:
  assumes "build_control_plane_export ul now schema migration revision fingerprint tables = Ok e"
    and "0 < schema" "0 < migration" "length fingerprint = 64" "list_all is_ascii_hexdigit fingerprint"
    and "list_all (list_all (\<lambda>r. json_as_object r \<noteq> None)) (all_tables tables)"
    and "list_all account_columns (ct_accounts tables)" "list_all virtual_key_columns (ct_virtual_keys tables)"
  shows "validate_export_shape e = Ok ()"
proof -
  let ?t = "export_tables ul tables"
  from assms(1) have e: "ex_format e = ''my-ai-gateway.control-plane''" "ex_version e = 1" "ex_timezone e = ''UTC''" "ex_schema_version e = schema"
    "ex_migration_version e = migration" "ex_fingerprint e = fingerprint" "ex_tables e = ?t"
    and small: "\<forall>rows \<in> set (all_tables ?t). length rows \<le> max_export_rows"
    by (auto simp: build_control_plane_export_def Let_def list_ex_iff not_less split: if_splits)
  have obj: "\<forall>rows \<in> set (all_tables tables). \<forall>r \<in> set rows. json_as_object r \<noteq> None"
    using assms(6) unfolding list_all_iff by blast
  have sources: "\<not> has_plaintext_secret (export_source_row ul r)" for r
    unfolding export_source_row_def sanitize_source_row_def by (intro accepted_sanitize sanitized_accepted plain_columns)
  have accounts: "\<not> has_plaintext_secret (export_account_row ul r)" if "r \<in> set (ct_accounts tables)" for r
    using assms(7) that account_accepted by (simp add: list_all_iff)
  have keys: "\<not> has_plaintext_secret (sanitize_virtual_key_row r)" if "r \<in> set (ct_virtual_keys tables)" for r
    using assms(8) that virtual_key_accepted by (simp add: list_all_iff)
  have "\<forall>rows \<in> set (all_tables ?t). check_rows rows = Ok ()"
    unfolding all_tables_def export_tables_def
    by (auto intro!: check_mapped object_kept sanitized_accepted sources accounts keys simp del: not_None_eq)
      (use obj in \<open>auto simp: all_tables_def\<close>)
  with small have "check_tables (all_tables ?t) = Ok ()" by (simp add: check_tables_Ok)
  with e assms(2-5) show ?thesis by (simp add: validate_export_shape_def)
qed

definition sample_tables :: "json list control_tables" where
  "sample_tables = \<lparr>ct_provider_presets = [], ct_model_presets = [], ct_sources = [JObject [(''id'', JString ''s'')]],
     ct_accounts = [JObject [(''credential_ciphertext'', JString ''gwenc:v1''), (''credential_env'', JNull), (''id'', JString ''a'')]],
     ct_source_models = [], ct_source_model_capabilities = [], ct_logical_models = [], ct_model_bindings = [], ct_routes = [],
     ct_providers = [], ct_virtual_keys = [JObject [(''key_hash'', JString ''h''), (''name'', JString ''n'')]]\<rparr>"

definition sample_export :: control_plane_export where
  "sample_export = (case build_control_plane_export plain_urls 0 28 28 1 (replicate 64 CHR ''a'') sample_tables of
     Inr e \<Rightarrow> e | Inl _ \<Rightarrow> undefined)"

theorem own_export_accepted_witness: "validate_export_shape sample_export = Ok ()"
proof (rule own_export_accepted)
  show "build_control_plane_export plain_urls 0 28 28 1 (replicate 64 CHR ''a'') sample_tables = Ok sample_export"
    by (simp add: sample_export_def build_control_plane_export_def export_tables_def all_tables_def sample_tables_def max_export_rows_def Let_def)
  show "list_all (list_all (\<lambda>r. json_as_object r \<noteq> None)) (all_tables sample_tables)" by (simp add: sample_tables_def all_tables_def)
  show "list_all virtual_key_columns (ct_virtual_keys sample_tables)"
  proof -
    have "\<not> ops_sensitive_key ''name''" by (rule plain_column; code_simp)
    then show ?thesis by (simp add: sample_tables_def virtual_key_columns_def)
  qed
qed (simp_all add: sample_tables_def account_columns_def is_ascii_hexdigit_def list_all_length)

section \<open>What a restore writes\<close>

text \<open>
  What is relied on of the URL library: a URL without user information and fragment, and without its query
  if asked, is read back as such; \<open>[REDACTED]\<close> is no URL; and no cleaned URL looks like a key.
\<close>

definition scrub_settles :: "url_library \<Rightarrow> bool" where
  "scrub_settles ul \<longleftrightarrow>
     ul_parse ul redacted = None \<and>
     (\<forall>u q. \<not> ops_looks_like_secret (ul_scrub ul u q) \<and>
       (\<forall>v. ul_parse ul (ul_scrub ul u q) = Some v \<longrightarrow>
          url_username v = [] \<and> url_password v = None \<and> url_fragment v = None \<and> url_query v = (if q then None else url_query u)))"

lemma redacted_no_secret: "\<not> ops_looks_like_secret redacted"
  by code_simp

lemma sanitize_redacted: "scrub_settles ul \<Longrightarrow> sanitize_string ul redacted = redacted"
  by (simp add: sanitize_string_def redacted_no_secret scrub_settles_def)

lemma sanitize_string_settled:
  assumes "scrub_settles ul"
  shows "sanitize_string ul (sanitize_string ul s) = sanitize_string ul s"
proof (cases "ops_looks_like_secret s")
  case True
  with sanitize_redacted [OF assms] show ?thesis by (simp add: sanitize_string_def)
next
  case False
  show ?thesis
  proof (cases "ul_parse ul s")
    case None
    with False show ?thesis by (simp add: sanitize_string_def)
  next
    case (Some u)
    have "sanitize_string ul (ul_scrub ul u (ops_sensitive_query u)) = ul_scrub ul u (ops_sensitive_query u)"
      using assms by (auto simp: sanitize_string_def scrub_settles_def ops_sensitive_query_def split: option.split)
    with False Some show ?thesis by (simp add: sanitize_string_def)
  qed
qed

lemma sanitize_hide:
  assumes "scrub_settles ul" "sanitize_json ul w = w"
  shows "sanitize_json ul (hide_secret w) = hide_secret w"
  using assms sanitize_redacted [OF assms(1)] by (cases w) auto

lemma hide_hide [simp]: "hide_secret (hide_secret w) = hide_secret w"
  using redacted_no_secret by (cases w) auto

lemma sanitize_json_settled:
  assumes "scrub_settles ul"
  shows "sanitize_json ul (sanitize_json ul v) = sanitize_json ul v"
  using assms
proof (induction ul v rule: sanitize_json.induct)
  case (1 ul kvs)
  have "(if ops_sensitive_key k then JString redacted else hide_secret (sanitize_json ul (if ops_sensitive_key k then JString redacted else hide_secret (sanitize_json ul v)))) =
      (if ops_sensitive_key k then JString redacted else hide_secret (sanitize_json ul v))" if "(k, v) \<in> set kvs" for k v
    using "1.IH" [OF that refl] sanitize_hide "1.prems" by (cases "ops_sensitive_key k") simp_all
  then show ?case by (auto simp: split_beta)
next
  case (3 ul s)
  then show ?case by (simp add: sanitize_string_settled)
qed auto

text \<open>An entry of a settled row is settled, and a settled row is not changed by cleaning a column again.\<close>

lemma settled_entry:
  assumes "sanitize_json ul (JObject kvs) = JObject kvs" "map_of kvs k = Some v" "\<not> ops_sensitive_key k"
  shows "hide_secret (sanitize_json ul v) = v"
proof -
  from assms(2) have "(k, v) \<in> set kvs" by (rule map_of_SomeD)
  then obtain n where n: "n < length kvs" "kvs ! n = (k, v)" by (auto simp: in_set_conv_nth)
  from assms(1) have "map (\<lambda>(k, v). (k, if ops_sensitive_key k then JString redacted else hide_secret (sanitize_json ul v))) kvs ! n = kvs ! n" by simp
  with n assms(3) show ?thesis by simp
qed

lemma settled_row_sanitize:
  assumes "scrub_settles ul" "sanitize_json ul row = row" "\<not> ops_sensitive_key k"
  shows "sanitize_json ul (row_sanitize ul k row) = row_sanitize ul k row"
proof (cases "json_get row k")
  case None
  with assms(2) show ?thesis by (simp add: row_sanitize_def)
next
  case (Some v)
  then obtain kvs where row: "row = JObject kvs" by (cases row) simp_all
  let ?f = "\<lambda>(k, v). (k, if ops_sensitive_key k then JString redacted else hide_secret (sanitize_json ul v))"
  from assms(2) row have map: "map ?f kvs = kvs" by simp
  from settled_entry [OF assms(2) [unfolded row] _ assms(3)] Some row have v: "hide_secret (sanitize_json ul v) = v" by simp
  then have "hide_secret (sanitize_json ul (sanitize_json ul v)) = v" by (simp add: sanitize_json_settled [OF assms(1)])
  moreover have "hide_secret (sanitize_json ul v) = sanitize_json ul v" if "hide_secret (sanitize_json ul v) = v"
    using sanitize_hide [OF assms(1) sanitize_json_settled [OF assms(1)], of v] that by simp
  ultimately have "hide_secret (sanitize_json ul (sanitize_json ul v)) = sanitize_json ul v" using v by simp
  moreover have "map ?f (filter (\<lambda>e. fst e \<noteq> k) kvs) = filter (\<lambda>e. fst e \<noteq> k) kvs"
  proof (rule map_idI)
    fix e
    assume "e \<in> set (filter (\<lambda>e. fst e \<noteq> k) kvs)"
    then have "e \<in> set kvs" by simp
    moreover from map have "map ?f kvs = map (\<lambda>e. e) kvs" by simp
    ultimately show "?f e = e" unfolding map_eq_conv by blast
  qed
  ultimately show ?thesis using Some row assms(3) by (simp add: row_sanitize_def map_binsert)
qed

lemma map_of_filter_out: "map_of (filter (\<lambda>e. fst e \<noteq> k) kvs) j = (if j = k then None else map_of kvs j)"
  by (induction kvs) auto

text \<open>
  A restore writes back what was exported and never a secret: the rows of every exported table but accounts
  and virtual keys are written unchanged, and an account row, exported or edited by hand, is written without
  a ciphertext and without the credential reference.
\<close>

theorem restore_writes_exported:
  assumes "scrub_settles ul" "build_control_plane_export ul now schema migration revision fingerprint tables = Ok e"
    and "rows \<in> set (all_tables ((ex_tables e)\<lparr>ct_accounts := [], ct_virtual_keys := []\<rparr>))"
  shows "map (restore_row ul) rows = rows \<and>
    json_get (restore_account_row ul (JObject kvs)) ''credential_ciphertext'' = Some JNull \<and>
    json_get (restore_account_row ul (JObject kvs)) ''credential'' = None"
proof -
  have e: "ex_tables e = export_tables ul tables"
    using assms(2) by (auto simp: build_control_plane_export_def Let_def split: if_splits)
  have plain: "map (restore_row ul) (map (sanitize_json ul) rs) = map (sanitize_json ul) rs" for rs
    by (simp add: restore_row_def sanitize_json_settled [OF assms(1)])
  have sources: "map (restore_row ul) (map (export_source_row ul) rs) = map (export_source_row ul) rs" for rs
    by (simp add: restore_row_def export_source_row_def sanitize_source_row_def settled_row_sanitize [OF assms(1)] plain_columns
        sanitize_json_settled [OF assms(1)])
  have "map (restore_row ul) rows = rows"
    using assms(3) plain sources unfolding e all_tables_def export_tables_def
    by (auto simp del: map_map)
  moreover have "json_get (restore_account_row ul (JObject kvs)) ''credential_ciphertext'' = Some JNull"
    "json_get (restore_account_row ul (JObject kvs)) ''credential'' = None"
    by (simp_all add: restore_account_row_def map_of_filter_out Let_def)
  ultimately show ?thesis by blast
qed

definition sample_urls :: url_library where
  "sample_urls = \<lparr>ul_parse = (\<lambda>s. if s = ''http://u@h'' then Some \<lparr>url_as_str = s, url_scheme = ''http'', url_username = ''u'', url_password = None,
     url_host_str = Some ''h'', url_port = None, url_port_or_known_default = Some 80, url_path = ''/'', url_query = None, url_fragment = None\<rparr> else None),
     ul_scrub = (\<lambda>_ _. ''http://h'')\<rparr>"

lemma sample_urls_settle: "scrub_settles sample_urls"
proof -
  have "\<not> ops_looks_like_secret ''http://h''" by code_simp
  then show ?thesis by (simp add: scrub_settles_def sample_urls_def redacted_def)
qed

definition sample_source_tables :: "json list control_tables" where
  "sample_source_tables = sample_tables\<lparr>ct_sources := [JObject [(''base_url'', JString ''http://u@h'')]]\<rparr>"

definition sample_source_export :: control_plane_export where
  "sample_source_export = (case build_control_plane_export sample_urls 0 28 28 1 (replicate 64 CHR ''a'') sample_source_tables of
     Inr e \<Rightarrow> e | Inl _ \<Rightarrow> undefined)"

theorem restore_writes_exported_witness:
  "map (restore_row sample_urls) (ct_sources (ex_tables sample_source_export)) = ct_sources (ex_tables sample_source_export)"
proof -
  have "build_control_plane_export sample_urls 0 28 28 1 (replicate 64 CHR ''a'') sample_source_tables = Ok sample_source_export"
    by (simp add: sample_source_export_def build_control_plane_export_def export_tables_def all_tables_def sample_source_tables_def sample_tables_def
        max_export_rows_def Let_def)
  from restore_writes_exported [OF sample_urls_settle this, of "ct_sources (ex_tables sample_source_export)"] show ?thesis
    by (simp add: all_tables_def)
qed

end
