(* ===== verification/Infra_Retention.thy ===== *)
theory Infra_Retention
  imports Infra_Backup
begin

text \<open>
  The retention cleanup of \<open>src/infra/ops.rs\<close>: policies with their cut-offs, cleanup runs that delete
  expired rows in bounded batches, each batch one transaction, and the requests that start, cancel and retry a
  run. A row of a table is its key and its time; an attempt and a usage event also have their request.
  Deleting a usage event deletes its attempts (\<open>ON DELETE CASCADE\<close>). The texts of times are parameters
  (\<open>to_rfc3339\<close>, \<open>parse_from_rfc3339\<close>), and so is the clock. \<open>fault k\<close> is how the \<open>k\<close>th
  statement of an operation ends. A read that fails before the first statement changes nothing and ends its operation with the database error; such
  an operation is not modelled.
\<close>

section \<open>Tables\<close>

record timed_row =
  tr_id :: int
  tr_at :: "int option"

record usage_row =
  ur_id :: int
  ur_request_id :: string
  ur_created_at :: int

record audit_row =
  au_id :: int
  au_operation_id :: string
  au_action :: string
  au_status :: string
  au_actor :: string
  au_details :: json
  au_error_code :: "string option"
  au_error_message :: "string option"
  au_created_at :: int

record retention_policy =
  rp_policy_key :: string
  rp_retention_days :: int
  rp_enabled :: bool

record policy_state =
  ps_retention_days :: int
  ps_enabled :: bool
  ps_cutoff :: int

record cleanup_counts =
  cc_usage_events :: nat
  cc_usage_attempts :: nat
  cc_audit :: nat
  cc_discovery :: nat
  cc_system_events :: nat

definition no_counts :: cleanup_counts where
  "no_counts = \<lparr>cc_usage_events = 0, cc_usage_attempts = 0, cc_audit = 0, cc_discovery = 0, cc_system_events = 0\<rparr>"

definition counts_total :: "cleanup_counts \<Rightarrow> nat" where
  "counts_total c = cc_usage_events c + cc_usage_attempts c + cc_audit c + cc_discovery c + cc_system_events c"

definition add_counts :: "cleanup_counts \<Rightarrow> cleanup_counts \<Rightarrow> cleanup_counts" where
  "add_counts a b = \<lparr>cc_usage_events = cc_usage_events a + cc_usage_events b, cc_usage_attempts = cc_usage_attempts a + cc_usage_attempts b,
     cc_audit = cc_audit a + cc_audit b, cc_discovery = cc_discovery a + cc_discovery b,
     cc_system_events = cc_system_events a + cc_system_events b\<rparr>"

record cleanup_run =
  cr_id :: string
  cr_status :: string
  cr_dry_run :: bool
  cr_batch_size :: int
  cr_max_batches :: int
  cr_requested_by :: string
  cr_policy_snapshot :: json
  cr_cutoff_snapshot :: json
  cr_scanned :: cleanup_counts
  cr_deleted :: cleanup_counts
  cr_batches_completed :: int
  cr_progress :: json
  cr_last_error :: "(string \<times> string) option"
  cr_cancel_requested :: bool
  cr_finished_at :: "int option"

record ops_db =
  od_usage_events :: "usage_row list"
  od_usage_attempts :: "usage_row list"
  od_audit_logs :: "audit_row list"
  od_connection_tests :: "timed_row list"
  od_health_events :: "timed_row list"
  od_discovery_runs :: "timed_row list"
  od_system_events :: "timed_row list"
  od_policies :: "retention_policy list"
  od_runs :: "cleanup_run list"
  od_next_audit :: int

section \<open>Statements\<close>

text \<open>One statement, or one transaction, and how it ends.\<close>

definition execute :: "db_fault \<Rightarrow> (ops_db \<Rightarrow> ops_db) \<Rightarrow> ops_db \<Rightarrow> ops_db \<times> bool" where
  "execute fault f db = (case fault of NoFault \<Rightarrow> (f db, True) | FaultBeforeCommit \<Rightarrow> (db, False) | FaultAfterCommit \<Rightarrow> (f db, False))"

definition append_audit_tx ::
  "url_library \<Rightarrow> int \<Rightarrow> string \<Rightarrow> string \<Rightarrow> string \<Rightarrow> string \<Rightarrow> json \<Rightarrow> (string \<times> string) option \<Rightarrow> ops_db \<Rightarrow> ops_db" where
  "append_audit_tx ul now operation_id action status actor details e db =
     db\<lparr>od_audit_logs := od_audit_logs db @
          [\<lparr>au_id = od_next_audit db, au_operation_id = operation_id, au_action = action, au_status = status, au_actor = sanitize_actor actor,
            au_details = sanitize_json ul details, au_error_code = map_option fst e, au_error_message = map_option (redact_text \<circ> snd) e,
            au_created_at = now\<rparr>],
        od_next_audit := od_next_audit db + 1\<rparr>"

definition get_cleanup :: "string \<Rightarrow> ops_db \<Rightarrow> cleanup_run option" where
  "get_cleanup i db = find (\<lambda>r. cr_id r = i) (od_runs db)"

text \<open>\<open>UPDATE retention_cleanup_runs SET ... WHERE id=$1 AND status ...\<close>\<close>

definition update_run :: "string \<Rightarrow> (string \<Rightarrow> bool) \<Rightarrow> (cleanup_run \<Rightarrow> cleanup_run) \<Rightarrow> ops_db \<Rightarrow> ops_db" where
  "update_run i P f db = db\<lparr>od_runs := map (\<lambda>r. if cr_id r = i \<and> P (cr_status r) then f r else r) (od_runs db)\<rparr>"

text \<open>\<open>DELETE FROM t WHERE id IN (SELECT id FROM t WHERE ... ORDER BY id LIMIT $n)\<close>: the rows left and deleted.\<close>

definition delete_batch :: "('r \<Rightarrow> int) \<Rightarrow> ('r \<Rightarrow> bool) \<Rightarrow> int \<Rightarrow> 'r list \<Rightarrow> 'r list \<times> 'r list" where
  "delete_batch key due limit rows =
     (let ids = take (nat limit) (sort (map key (filter due rows)))
      in (filter (\<lambda>r. key r \<notin> set ids) rows, filter (\<lambda>r. key r \<in> set ids) rows))"

section \<open>Policies\<close>

definition retention_keys :: "string list" where
  "retention_keys = [''usage_events'', ''usage_attempts'', ''audit'', ''discovery'', ''system_events'']"

definition validate_policy_key :: "string \<Rightarrow> (unit, ops_error) result" where
  "validate_policy_key key = (if key \<in> set retention_keys then Ok () else Err (OpsValidation (''unknown retention policy '' @ quoted key)))"

definition validate_retention_days :: "int \<Rightarrow> (unit, ops_error) result" where
  "validate_retention_days days =
     (if 0 \<le> days \<and> days \<le> 36500 then Ok () else Err (OpsValidation ''retention_days must be between 0 and 36500''))"

definition day :: int where
  "day = 86400 * 1000000000"

type_synonym policies = "(string, policy_state) bmap"

definition load_policy_row :: "int \<Rightarrow> retention_policy \<Rightarrow> policy_state" where
  "load_policy_row now row = \<lparr>ps_retention_days = rp_retention_days row, ps_enabled = rp_enabled row, ps_cutoff = now - rp_retention_days row * day\<rparr>"

fun check_selected :: "string list \<Rightarrow> policies \<Rightarrow> (unit, ops_error) result" where
  "check_selected [] policies = Ok ()"
| "check_selected (key # keys) policies =
     and_then (validate_policy_key key) (\<lambda>_.
       if map_of policies key = None then Err (OpsNotFound (''retention policy '' @ quoted key @ '' not found'')) else check_selected keys policies)"

definition load_policy_map :: "int \<Rightarrow> string list option \<Rightarrow> ops_db \<Rightarrow> (policies, ops_error) result" where
  "load_policy_map now selected db =
     (let rows = filter (\<lambda>r. case selected of None \<Rightarrow> True | Some keys \<Rightarrow> rp_policy_key r \<in> set keys) (od_policies db);
          policies = foldl (\<lambda>m r. binsert (rp_policy_key r) (load_policy_row now r) m) [] rows
      in case selected of
           None \<Rightarrow> Ok policies
         | Some keys \<Rightarrow> and_then (check_selected (sort (remdups keys)) policies) (\<lambda>_. Ok policies))"

definition json_of_int :: "int \<Rightarrow> json" where
  "json_of_int i = json_of_i64 (word_of_int i)"

definition policy_snapshot :: "policies \<Rightarrow> json" where
  "policy_snapshot policies =
     JObject (map (\<lambda>(key, s). (key, json_object [(''retention_days'', json_of_int (ps_retention_days s)), (''enabled'', JBool (ps_enabled s))])) policies)"

definition cutoff_snapshot :: "(int \<Rightarrow> string) \<Rightarrow> policies \<Rightarrow> json" where
  "cutoff_snapshot rfc3339 policies =
     JObject (map (\<lambda>(key, s). (key, if ps_enabled s then JString (rfc3339 (ps_cutoff s)) else JNull)) policies)"

definition snapshot_cutoff :: "(string \<Rightarrow> int option) \<Rightarrow> int \<Rightarrow> int \<Rightarrow> json option \<Rightarrow> (int, ops_error) result" where
  "snapshot_cutoff parse_rfc3339 now days v =
     (case v of
        Some (JString t) \<Rightarrow> ok_or (OpsValidation ''cleanup cutoff is invalid'') (parse_rfc3339 t)
      | Some JNull \<Rightarrow> Ok (now - days * day)
      | None \<Rightarrow> Ok (now - days * day)
      | _ \<Rightarrow> Err (OpsValidation ''cleanup cutoff is invalid''))"

definition snapshot_policy ::
  "(string \<Rightarrow> int option) \<Rightarrow> int \<Rightarrow> (string \<times> json) list \<Rightarrow> string \<Rightarrow> json \<Rightarrow> (policy_state, ops_error) result" where
  "snapshot_policy parse_rfc3339 now cutoffs key state =
     and_then (validate_policy_key key) (\<lambda>_.
     and_then (ok_or (OpsValidation ''cleanup policy value must be an object'') (json_as_object state)) (\<lambda>_.
     and_then (ok_or (OpsValidation ''cleanup retention_days is invalid'') (Option.bind (json_get state ''retention_days'') json_as_i64)) (\<lambda>days.
     let days = sint days in
     if days < - (2 ^ 31) \<or> 2 ^ 31 \<le> days then Err (OpsValidation ''cleanup retention_days is invalid'')
     else and_then (validate_retention_days days) (\<lambda>_.
       and_then (snapshot_cutoff parse_rfc3339 now days (map_of cutoffs key)) (\<lambda>cutoff.
         Ok \<lparr>ps_retention_days = days, ps_enabled = unwrap_or True (Option.bind (json_get state ''enabled'') json_as_bool), ps_cutoff = cutoff\<rparr>)))))"

fun snapshot_policies ::
  "(string \<Rightarrow> int option) \<Rightarrow> int \<Rightarrow> (string \<times> json) list \<Rightarrow> (string \<times> json) list \<Rightarrow> (policies, ops_error) result" where
  "snapshot_policies parse_rfc3339 now cutoffs [] = Ok []"
| "snapshot_policies parse_rfc3339 now cutoffs ((key, state) # rest) =
     and_then (snapshot_policy parse_rfc3339 now cutoffs key state) (\<lambda>p.
     and_then (snapshot_policies parse_rfc3339 now cutoffs rest) (\<lambda>ps. Ok ((key, p) # ps)))"

definition policy_map_from_snapshot :: "(string \<Rightarrow> int option) \<Rightarrow> int \<Rightarrow> json \<Rightarrow> json \<Rightarrow> (policies, ops_error) result" where
  "policy_map_from_snapshot parse_rfc3339 now v cutoffs =
     and_then (ok_or (OpsValidation ''cleanup policy_snapshot must be an object'') (json_as_object v)) (\<lambda>states.
     and_then (ok_or (OpsValidation ''cleanup cutoff_snapshot must be an object'') (json_as_object cutoffs)) (\<lambda>cutoffs.
       snapshot_policies parse_rfc3339 now cutoffs states))"

definition active_cutoff :: "policies \<Rightarrow> string \<Rightarrow> int option" where
  "active_cutoff policies key = map_option ps_cutoff (option_filter ps_enabled (map_of policies key))"

section \<open>What is due\<close>

definition before :: "int option \<Rightarrow> int \<Rightarrow> bool" where
  "before cutoff t = (case cutoff of None \<Rightarrow> False | Some c \<Rightarrow> t < c)"

definition row_due :: "int option \<Rightarrow> timed_row \<Rightarrow> bool" where
  "row_due cutoff r = (case tr_at r of None \<Rightarrow> False | Some t \<Rightarrow> before cutoff t)"

text \<open>\<open>attempt_guard\<close>: an event with an attempt that is not itself due is kept.\<close>

definition guarded_by :: "int option \<Rightarrow> usage_row \<Rightarrow> usage_row \<Rightarrow> bool" where
  "guarded_by attempt_cutoff e a \<longleftrightarrow> ur_request_id a = ur_request_id e \<and> \<not> before attempt_cutoff (ur_created_at a)"

definition event_due :: "policies \<Rightarrow> usage_row list \<Rightarrow> usage_row \<Rightarrow> bool" where
  "event_due policies attempts e \<longleftrightarrow>
     before (active_cutoff policies ''usage_events'') (ur_created_at e) \<and>
     \<not> list_ex (guarded_by (active_cutoff policies ''usage_attempts'') e) attempts"

definition attempt_due :: "policies \<Rightarrow> usage_row \<Rightarrow> bool" where
  "attempt_due policies a = before (active_cutoff policies ''usage_attempts'') (ur_created_at a)"

definition log_due :: "policies \<Rightarrow> audit_row \<Rightarrow> bool" where
  "log_due policies r = before (active_cutoff policies ''audit'') (au_created_at r)"

definition count_candidates :: "policies \<Rightarrow> ops_db \<Rightarrow> cleanup_counts" where
  "count_candidates policies db =
     \<lparr>cc_usage_events = length (filter (event_due policies (od_usage_attempts db)) (od_usage_events db)),
      cc_usage_attempts = length (filter (attempt_due policies) (od_usage_attempts db)),
      cc_audit = length (filter (log_due policies) (od_audit_logs db)) +
        length (filter (row_due (active_cutoff policies ''audit'')) (od_connection_tests db)) +
        length (filter (row_due (active_cutoff policies ''audit'')) (od_health_events db)),
      cc_discovery = length (filter (row_due (active_cutoff policies ''discovery'')) (od_discovery_runs db)),
      cc_system_events = length (filter (row_due (active_cutoff policies ''system_events'')) (od_system_events db))\<rparr>"

section \<open>One batch\<close>

definition counts_json :: "cleanup_counts \<Rightarrow> json" where
  "counts_json c = json_object [(''usage_events'', json_of_int (int (cc_usage_events c))), (''usage_attempts'', json_of_int (int (cc_usage_attempts c))),
     (''audit'', json_of_int (int (cc_audit c))), (''discovery'', json_of_int (int (cc_discovery c))),
     (''system_events'', json_of_int (int (cc_system_events c)))]"

definition delete_due :: "policies \<Rightarrow> int \<Rightarrow> ops_db \<Rightarrow> ops_db \<times> cleanup_counts" where
  "delete_due policies limit db =
     (let (attempts, attempts_gone) = delete_batch ur_id (attempt_due policies) limit (od_usage_attempts db);
          (events, events_gone) = delete_batch ur_id (event_due policies attempts) limit (od_usage_events db);
          attempts = filter (\<lambda>a. ur_request_id a \<notin> ur_request_id ` set events_gone) attempts;
          (logs, logs_gone) = delete_batch au_id (log_due policies) limit (od_audit_logs db);
          (tests, tests_gone) = delete_batch tr_id (row_due (active_cutoff policies ''audit'')) limit (od_connection_tests db);
          (health, health_gone) = delete_batch tr_id (row_due (active_cutoff policies ''audit'')) limit (od_health_events db);
          (discovery, discovery_gone) = delete_batch tr_id (row_due (active_cutoff policies ''discovery'')) limit (od_discovery_runs db);
          (system, system_gone) = delete_batch tr_id (row_due (active_cutoff policies ''system_events'')) limit (od_system_events db)
      in (db\<lparr>od_usage_events := events, od_usage_attempts := attempts, od_audit_logs := logs, od_connection_tests := tests,
            od_health_events := health, od_discovery_runs := discovery, od_system_events := system\<rparr>,
          \<lparr>cc_usage_events = length events_gone, cc_usage_attempts = length attempts_gone,
           cc_audit = length logs_gone + length tests_gone + length health_gone, cc_discovery = length discovery_gone,
           cc_system_events = length system_gone\<rparr>))"

datatype batch_result = BatchMissing | BatchStopped bool | BatchDeleted cleanup_counts

record ops_env =
  oe_urls :: url_library
  oe_rfc3339 :: "int \<Rightarrow> string"
  oe_parse_rfc3339 :: "string \<Rightarrow> int option"

text \<open>The transaction of \<open>cleanup_round\<close>.\<close>

definition cleanup_batch :: "ops_env \<Rightarrow> int \<Rightarrow> cleanup_run \<Rightarrow> policies \<Rightarrow> int \<Rightarrow> ops_db \<Rightarrow> ops_db \<times> batch_result" where
  "cleanup_batch env now run policies batch_number db =
     (case get_cleanup (cr_id run) db of
        None \<Rightarrow> (db, BatchMissing)
      | Some current \<Rightarrow>
          if cr_status current \<in> {''completed'', ''failed'', ''cancelled''} then (db, BatchStopped (cr_status current = ''cancelled''))
          else if cr_cancel_requested current \<or> cr_status current = ''cancel_requested'' then
            (append_audit_tx (oe_urls env) now (cr_id run) ''retention.cleanup.cancelled'' ''cancelled'' (cr_requested_by run) (JObject []) None
              (update_run (cr_id run) (\<lambda>_. True) (\<lambda>r. r\<lparr>cr_status := ''cancelled'', cr_finished_at := Some now,
                 cr_progress := json_object [(''phase'', JString ''cancelled''), (''has_more'', JBool True)]\<rparr>) db), BatchStopped True)
          else
            (let (db, deleted) = delete_due policies (cr_batch_size run) db;
                 progress = json_object [(''phase'', JString ''batch''), (''batch'', json_of_int (batch_number + 1)), (''has_more'', JBool True),
                   (''deleted'', counts_json deleted), (''updated_at'', JString (oe_rfc3339 env now))]
             in (append_audit_tx (oe_urls env) now (cr_id run) ''retention.cleanup.progress'' ''progress'' (cr_requested_by run) progress None
                  (update_run (cr_id run) (\<lambda>_. True) (\<lambda>r. r\<lparr>cr_scanned := add_counts (cr_scanned r) deleted, cr_deleted := add_counts (cr_deleted r) deleted,
                     cr_batches_completed := cr_batches_completed r + 1, cr_progress := progress\<rparr>) db), BatchDeleted deleted)))"

definition set_has_more :: "string \<Rightarrow> bool \<Rightarrow> ops_db \<Rightarrow> ops_db" where
  "set_has_more i has_more = update_run i (\<lambda>s. s = ''running'') (\<lambda>r. r\<lparr>cr_progress := row_insert ''has_more'' (JBool has_more) (cr_progress r)\<rparr>)"

definition set_completed :: "int \<Rightarrow> string \<Rightarrow> ops_db \<Rightarrow> ops_db" where
  "set_completed now i = update_run i (\<lambda>s. s = ''running'') (\<lambda>r. r\<lparr>cr_status := ''completed'', cr_finished_at := Some now,
     cr_progress := json_object [(''phase'', JString ''completed''), (''has_more'', JBool False), (''batch'', json_of_int (cr_batches_completed r))]\<rparr>)"

text \<open>What follows the transaction: the statements 1 to 4 of the round.\<close>

definition after_batch :: "ops_env \<Rightarrow> int \<Rightarrow> (nat \<Rightarrow> db_fault) \<Rightarrow> cleanup_run \<Rightarrow> policies \<Rightarrow> ops_db \<Rightarrow> ops_db \<times> bool" where
  "after_batch env now fault run policies db =
     (if fault 1 \<noteq> NoFault then (db, False)
      else let has_more = (0 < counts_total (count_candidates policies db));
               (db, ok) = execute (fault 2) (set_has_more (cr_id run) has_more) db
           in if \<not> ok then (db, False) else if has_more then (db, True)
              else let (db, ok) = execute (fault 3) (set_completed now (cr_id run)) db
                   in if \<not> ok then (db, False)
                      else execute (fault 4) (append_audit_tx (oe_urls env) now (cr_id run) ''retention.cleanup.completed'' ''succeeded''
                             (cr_requested_by run) (JObject []) None) db)"

definition cleanup_round ::
  "ops_env \<Rightarrow> int \<Rightarrow> (nat \<Rightarrow> db_fault) \<Rightarrow> cleanup_run \<Rightarrow> policies \<Rightarrow> int \<Rightarrow> ops_db \<Rightarrow> ops_db \<times> (nat \<times> bool, ops_error) result" where
  "cleanup_round env now fault run policies batch_number db =
     (case cleanup_batch env now run policies batch_number db of
        (_, BatchMissing) \<Rightarrow> (db, Err (OpsNotFound (''cleanup operation '' @ quoted (cr_id run) @ '' not found'')))
      | (db', result) \<Rightarrow>
          let (db, ok) = execute (fault 0) (\<lambda>_. db') db in
          if \<not> ok then (db, Err OpsDatabase)
          else case result of
                 BatchStopped cancelled \<Rightarrow> (db, Ok (0, cancelled))
               | BatchDeleted deleted \<Rightarrow>
                   let (db, ok) = after_batch env now fault run policies db
                   in (db, if ok then Ok (counts_total deleted, False) else Err OpsDatabase)
               | BatchMissing \<Rightarrow> (db, Err OpsDatabase))"

definition mark_cleanup_failed :: "ops_env \<Rightarrow> int \<Rightarrow> (nat \<Rightarrow> db_fault) \<Rightarrow> string \<Rightarrow> ops_error \<Rightarrow> ops_db \<Rightarrow> ops_db" where
  "mark_cleanup_failed env now fault i e db =
     (let code = ops_error_code e; message = public_error_message e;
          db = fst (execute (fault 5) (update_run i (\<lambda>s. s \<notin> {''completed'', ''cancelled''}) (\<lambda>r. r\<lparr>cr_status := ''failed'', cr_last_error := Some (code, message),
             cr_finished_at := Some now, cr_progress := json_object [(''phase'', JString ''failed''), (''has_more'', JBool True)]\<rparr>)) db)
      in fst (execute (fault 6) (append_audit_tx (oe_urls env) now i ''retention.cleanup.failed'' ''failed'' ''system''
           (json_object [(''error_code'', JString code)]) (Some (code, message))) db))"

section \<open>A run\<close>

text \<open>\<open>now k\<close> and \<open>fault k\<close>: the clock and the statements of the \<open>k\<close>th round; the first argument counts down \<open>max_batches\<close>.\<close>

fun cleanup_loop ::
  "nat \<Rightarrow> nat \<Rightarrow> ops_env \<Rightarrow> (nat \<Rightarrow> int) \<Rightarrow> (nat \<Rightarrow> nat \<Rightarrow> db_fault) \<Rightarrow> cleanup_run \<Rightarrow> policies \<Rightarrow> ops_db \<Rightarrow> ops_db \<times> (unit, ops_error) result" where
  "cleanup_loop 0 rounds env now fault run policies db = (db, Ok ())"
| "cleanup_loop (Suc n) rounds env now fault run policies db =
     (case cleanup_round env (now rounds) (fault rounds) run policies (cr_batches_completed run + int rounds) db of
        (db, Inr (deleted, cancelled)) \<Rightarrow>
          if cancelled \<or> deleted = 0 then (db, Ok ()) else cleanup_loop n (Suc rounds) env now fault run policies db
      | (db, Inl e) \<Rightarrow> (mark_cleanup_failed env (now rounds) (fault rounds) (cr_id run) e db, Err e))"

definition cleanup_not_found :: "string \<Rightarrow> ops_error" where
  "cleanup_not_found i = OpsNotFound (''cleanup operation '' @ quoted i @ '' not found'')"

definition finish_dry_run ::
  "ops_env \<Rightarrow> int \<Rightarrow> (nat \<Rightarrow> db_fault) \<Rightarrow> cleanup_run \<Rightarrow> policies \<Rightarrow> ops_db \<Rightarrow> ops_db \<times> (cleanup_run, ops_error) result" where
  "finish_dry_run env now fault run policies db =
     (if cr_status run = ''completed'' then (db, Ok run)
      else if fault 1 \<noteq> NoFault then (db, Err OpsDatabase)
      else
        let counts = count_candidates policies db;
            progress = json_object [(''phase'', JString ''dry_run''), (''has_more'', JBool False), (''dry_run'', JBool True), (''candidates'', counts_json counts)];
            (db, ok) = execute (fault 2) (update_run (cr_id run) (\<lambda>s. s \<notin> {''completed'', ''cancelled''}) (\<lambda>r. r\<lparr>cr_status := ''completed'',
              cr_scanned := counts, cr_progress := progress, cr_finished_at := Some now\<rparr>)) db
        in if \<not> ok then (db, Err OpsDatabase)
           else let (db, ok) = execute (fault 3) (append_audit_tx (oe_urls env) now (cr_id run) ''retention.cleanup.completed'' ''succeeded''
                      (cr_requested_by run) progress None) db
                in (db, if ok then ok_or (cleanup_not_found (cr_id run)) (get_cleanup (cr_id run) db) else Err OpsDatabase))"

definition run_cleanup ::
  "ops_env \<Rightarrow> (nat \<Rightarrow> int) \<Rightarrow> (nat \<Rightarrow> nat \<Rightarrow> db_fault) \<Rightarrow> string \<Rightarrow> ops_db \<Rightarrow> ops_db \<times> (cleanup_run, ops_error) result" where
  "run_cleanup env now fault i db =
     (case get_cleanup i db of
        None \<Rightarrow> (db, Err (cleanup_not_found i))
      | Some run \<Rightarrow>
          (case policy_map_from_snapshot (oe_parse_rfc3339 env) (now 0) (cr_policy_snapshot run) (cr_cutoff_snapshot run) of
             Inl e \<Rightarrow> (db, Err e)
           | Inr policies \<Rightarrow>
               if cr_dry_run run then finish_dry_run env (now 0) (fault 0) run policies db
               else (case cleanup_loop (nat (cr_max_batches run)) 0 env now fault run policies db of
                       (db, Inl e) \<Rightarrow> (db, Err e)
                     | (db, Inr _) \<Rightarrow> (db, ok_or (cleanup_not_found i) (get_cleanup i db)))))"

section \<open>Requests\<close>

record cleanup_request =
  rq_dry_run :: bool
  rq_batch_size :: int
  rq_max_batches :: int
  rq_operation_id :: "string option"
  rq_requested_by :: "string option"
  rq_policy_keys :: "string list option"

definition default_cleanup_request :: cleanup_request where
  "default_cleanup_request = \<lparr>rq_dry_run = False, rq_batch_size = 500, rq_max_batches = 1000, rq_operation_id = None, rq_requested_by = None,
     rq_policy_keys = None\<rparr>"

fun check_policy_keys :: "string list \<Rightarrow> string list \<Rightarrow> (unit, ops_error) result" where
  "check_policy_keys seen [] = Ok ()"
| "check_policy_keys seen (key # keys) =
     and_then (validate_policy_key key) (\<lambda>_.
       if key \<in> set seen then Err (OpsValidation (''duplicate policy key '' @ quoted key)) else check_policy_keys (key # seen) keys)"

definition validate_cleanup_request :: "cleanup_request \<Rightarrow> (unit, ops_error) result" where
  "validate_cleanup_request r =
     (if rq_batch_size r < 1 \<or> 10000 < rq_batch_size r then Err (OpsValidation ''batch_size must be between 1 and 10000'')
      else if rq_max_batches r < 1 \<or> 100000 < rq_max_batches r then Err (OpsValidation ''max_batches must be between 1 and 100000'')
      else if (case rq_operation_id r of None \<Rightarrow> False | Some i \<Rightarrow> trim i = [] \<or> 128 < length i)
      then Err (OpsValidation ''operation_id must be 1..128 characters'')
      else case rq_policy_keys r of None \<Rightarrow> Ok () | Some keys \<Rightarrow> check_policy_keys [] keys)"

definition prepare_cleanup_retry :: "ops_env \<Rightarrow> int \<Rightarrow> (nat \<Rightarrow> db_fault) \<Rightarrow> string \<Rightarrow> string \<Rightarrow> ops_db \<Rightarrow> ops_db \<times> bool" where
  "prepare_cleanup_retry env now fault i actor db =
     (let (db, ok) = execute (fault 0) (update_run i (\<lambda>s. s \<in> {''failed'', ''cancelled'', ''cancel_requested''})
            (\<lambda>r. r\<lparr>cr_status := ''running'', cr_cancel_requested := False, cr_last_error := None, cr_finished_at := None\<rparr>)) db
      in if \<not> ok then (db, False)
         else execute (fault 1) (append_audit_tx (oe_urls env) now i ''retention.cleanup.retry'' ''started'' actor (JObject []) None) db)"

definition same_options :: "cleanup_run \<Rightarrow> cleanup_request \<Rightarrow> bool" where
  "same_options run r \<longleftrightarrow> cr_dry_run run = rq_dry_run r \<and> cr_batch_size run = rq_batch_size r \<and> cr_max_batches run = rq_max_batches r"

definition options_conflict :: ops_error where
  "options_conflict = OpsConflict ''operation_id is already associated with different cleanup options''"

definition new_cleanup_run :: "ops_env \<Rightarrow> string \<Rightarrow> string \<Rightarrow> cleanup_request \<Rightarrow> policies \<Rightarrow> cleanup_run" where
  "new_cleanup_run env i actor r policies =
     \<lparr>cr_id = i, cr_status = ''running'', cr_dry_run = rq_dry_run r, cr_batch_size = rq_batch_size r, cr_max_batches = rq_max_batches r,
      cr_requested_by = actor, cr_policy_snapshot = policy_snapshot policies, cr_cutoff_snapshot = cutoff_snapshot (oe_rfc3339 env) policies,
      cr_scanned = no_counts, cr_deleted = no_counts, cr_batches_completed = 0,
      cr_progress = json_object [(''phase'', JString ''started''), (''has_more'', JBool True)], cr_last_error = None,
      cr_cancel_requested = False, cr_finished_at = None\<rparr>"

text \<open>\<open>others\<close> is what other operations commit between the first look and the insert.\<close>

definition start_cleanup ::
  "ops_env \<Rightarrow> int \<Rightarrow> (nat \<Rightarrow> db_fault) \<Rightarrow> (nat \<Rightarrow> int) \<Rightarrow> (nat \<Rightarrow> nat \<Rightarrow> db_fault) \<Rightarrow> string \<Rightarrow> (ops_db \<Rightarrow> ops_db) \<Rightarrow> cleanup_request \<Rightarrow> ops_db
   \<Rightarrow> ops_db \<times> (cleanup_run, ops_error) result" where
  "start_cleanup env start fault now faults uuid others r db =
     (case validate_cleanup_request r of
        Inl e \<Rightarrow> (db, Err e)
      | Inr _ \<Rightarrow>
          let i = unwrap_or uuid (rq_operation_id r); actor = sanitize_actor (unwrap_or ''admin_api'' (rq_requested_by r))
          in case load_policy_map start (rq_policy_keys r) db of
               Inl e \<Rightarrow> (db, Err e)
             | Inr policies \<Rightarrow>
                 (case get_cleanup i db of
                    Some existing \<Rightarrow>
                      if \<not> same_options existing r then (db, Err options_conflict)
                      else if cr_status existing \<in> {''completed'', ''cancelled''} then (db, Ok existing)
                      else if cr_status existing = ''failed'' then
                        (let (db, ok) = prepare_cleanup_retry env start fault i actor db
                         in if ok then run_cleanup env now faults i db else (db, Err OpsDatabase))
                      else run_cleanup env now faults i db
                  | None \<Rightarrow>
                      let db = others db in
                      case get_cleanup i db of
                        Some existing \<Rightarrow>
                          if \<not> same_options existing r then (db, Err options_conflict)
                          else if cr_status existing \<in> {''completed'', ''cancelled''} then (db, Ok existing)
                          else run_cleanup env now faults i db
                      | None \<Rightarrow>
                          let run = new_cleanup_run env i actor r policies;
                              (db, ok) = execute (fault 2) (\<lambda>db. db\<lparr>od_runs := od_runs db @ [run]\<rparr>) db
                          in if \<not> ok then (db, Err OpsDatabase)
                             else let (db, ok) = execute (fault 3) (append_audit_tx (oe_urls env) start i ''retention.cleanup.started'' ''started'' actor
                                        (json_object [(''dry_run'', JBool (rq_dry_run r)), (''batch_size'', json_of_int (rq_batch_size r)),
                                          (''max_batches'', json_of_int (rq_max_batches r)), (''policy_snapshot'', cr_policy_snapshot run),
                                          (''cutoff_snapshot'', cr_cutoff_snapshot run)]) None) db
                                  in if ok then run_cleanup env now faults i db else (db, Err OpsDatabase)))"

definition cancel_cleanup :: "ops_env \<Rightarrow> int \<Rightarrow> db_fault \<Rightarrow> string \<Rightarrow> string \<Rightarrow> ops_db \<Rightarrow> ops_db \<times> (cleanup_run, ops_error) result" where
  "cancel_cleanup env now fault i actor db =
     (case get_cleanup i db of
        None \<Rightarrow> (db, Err (cleanup_not_found i))
      | Some run \<Rightarrow>
          if cr_status run \<in> {''completed'', ''cancelled'', ''failed''} then (db, Ok run)
          else let (db, ok) = execute fault (\<lambda>db. append_audit_tx (oe_urls env) now i ''retention.cleanup.cancel_requested'' ''cancel_requested''
                      (sanitize_actor actor) (JObject []) None
                      (update_run i (\<lambda>_. True) (\<lambda>r. r\<lparr>cr_cancel_requested := True, cr_status := ''cancel_requested''\<rparr>) db)) db
               in (db, if ok then ok_or (cleanup_not_found i) (get_cleanup i db) else Err OpsDatabase))"

definition retry_cleanup ::
  "ops_env \<Rightarrow> int \<Rightarrow> (nat \<Rightarrow> db_fault) \<Rightarrow> (nat \<Rightarrow> int) \<Rightarrow> (nat \<Rightarrow> nat \<Rightarrow> db_fault) \<Rightarrow> string \<Rightarrow> string \<Rightarrow> ops_db
   \<Rightarrow> ops_db \<times> (cleanup_run, ops_error) result" where
  "retry_cleanup env start fault now faults i actor db =
     (case get_cleanup i db of
        None \<Rightarrow> (db, Err (cleanup_not_found i))
      | Some current \<Rightarrow>
          if cr_status current = ''completed'' then (db, Ok current)
          else let (db, ok) = prepare_cleanup_retry env start fault i (sanitize_actor actor) db
               in if ok then run_cleanup env now faults i db else (db, Err OpsDatabase))"

text \<open>\<open>update_retention_policies\<close>: one transaction over all policies.\<close>

fun write_policies :: "ops_env \<Rightarrow> int \<Rightarrow> string \<Rightarrow> string list \<Rightarrow> retention_policy list \<Rightarrow> ops_db \<Rightarrow> (ops_db, ops_error) result" where
  "write_policies env now actor seen [] db = Ok db"
| "write_policies env now actor seen (p # ps) db =
     and_then (validate_policy_key (rp_policy_key p)) (\<lambda>_.
       if rp_policy_key p \<in> set seen then Err (OpsValidation (''duplicate retention policy '' @ quoted (rp_policy_key p)))
       else and_then (validate_retention_days (rp_retention_days p)) (\<lambda>_.
         if length (filter (\<lambda>r. rp_policy_key r = rp_policy_key p) (od_policies db)) \<noteq> 1
         then Err (OpsNotFound (''retention policy '' @ quoted (rp_policy_key p) @ '' not found''))
         else write_policies env now actor (rp_policy_key p # seen) ps
           (append_audit_tx (oe_urls env) now (''retention-policy:'' @ rp_policy_key p) ''retention.policy.updated'' ''succeeded'' actor
             (json_object [(''policy_key'', JString (rp_policy_key p)), (''retention_days'', json_of_int (rp_retention_days p)), (''enabled'', JBool (rp_enabled p))]) None
             (db\<lparr>od_policies := map (\<lambda>r. if rp_policy_key r = rp_policy_key p then p else r) (od_policies db)\<rparr>))))"

definition update_retention_policies ::
  "ops_env \<Rightarrow> int \<Rightarrow> db_fault \<Rightarrow> string \<Rightarrow> retention_policy list \<Rightarrow> ops_db \<Rightarrow> ops_db \<times> (retention_policy list, ops_error) result" where
  "update_retention_policies env now fault actor ps db =
     (if ps = [] then (db, Err (OpsValidation ''at least one retention policy is required''))
      else case write_policies env now (sanitize_actor actor) [] ps db of
             Inl e \<Rightarrow> (db, Err e)
           | Inr db' \<Rightarrow> let (db, ok) = execute fault (\<lambda>_. db') db in (db, if ok then Ok (sort_key rp_policy_key (od_policies db)) else Err OpsDatabase))"

section \<open>What a cleanup keeps\<close>

text \<open>
  What a run may have removed: rows that are due under its policies. An attempt that is not due survives, and so
  does an event one of whose attempts is not due.
\<close>

definition kept_rows :: "('r \<Rightarrow> bool) \<Rightarrow> 'r list \<Rightarrow> 'r list \<Rightarrow> bool" where
  "kept_rows due rows rows' \<longleftrightarrow> (\<forall>r \<in> set rows. \<not> due r \<longrightarrow> r \<in> set rows')"

definition retained :: "policies \<Rightarrow> ops_db \<Rightarrow> ops_db \<Rightarrow> bool" where
  "retained policies db db' \<longleftrightarrow>
     kept_rows (event_due policies (od_usage_attempts db)) (od_usage_events db) (od_usage_events db') \<and>
     kept_rows (attempt_due policies) (od_usage_attempts db) (od_usage_attempts db') \<and>
     kept_rows (log_due policies) (od_audit_logs db) (od_audit_logs db') \<and>
     kept_rows (row_due (active_cutoff policies ''audit'')) (od_connection_tests db) (od_connection_tests db') \<and>
     kept_rows (row_due (active_cutoff policies ''audit'')) (od_health_events db) (od_health_events db') \<and>
     kept_rows (row_due (active_cutoff policies ''discovery'')) (od_discovery_runs db) (od_discovery_runs db') \<and>
     kept_rows (row_due (active_cutoff policies ''system_events'')) (od_system_events db) (od_system_events db') \<and>
     set (od_usage_attempts db') \<subseteq> set (od_usage_attempts db) \<and> od_policies db' = od_policies db"

lemma kept_rows_trans: "kept_rows due xs ys \<Longrightarrow> kept_rows due ys zs \<Longrightarrow> kept_rows due xs zs"
  by (auto simp: kept_rows_def)

lemma kept_rows_sub: "set xs \<subseteq> set ys \<Longrightarrow> kept_rows due xs ys"
  by (auto simp: kept_rows_def)

text \<open>The keys of every table are unique.\<close>

definition ops_keys :: "ops_db \<Rightarrow> bool" where
  "ops_keys db \<longleftrightarrow>
     distinct (map ur_id (od_usage_events db)) \<and> distinct (map ur_id (od_usage_attempts db)) \<and> distinct (map au_id (od_audit_logs db)) \<and>
     (\<forall>r \<in> set (od_audit_logs db). au_id r < od_next_audit db) \<and>
     distinct (map tr_id (od_connection_tests db)) \<and> distinct (map tr_id (od_health_events db)) \<and> distinct (map tr_id (od_discovery_runs db)) \<and>
     distinct (map tr_id (od_system_events db)) \<and> distinct (map cr_id (od_runs db))"

lemma delete_batch_facts:
  assumes "distinct (map key rows)" "delete_batch key due limit rows = (left, gone)"
  shows "r \<in> set rows \<Longrightarrow> \<not> due r \<Longrightarrow> r \<in> set left" "set left \<subseteq> set rows" "set gone \<subseteq> {r \<in> set rows. due r}"
    "distinct (map key left)" "length gone = min (nat limit) (length (filter due rows))"
    "length (filter due left) = length (filter due rows) - nat limit"
proof -
  define ids where "ids = take (nat limit) (sort (map key (filter due rows)))"
  from assms(2) have left: "left = filter (\<lambda>r. key r \<notin> set ids) rows" and gone: "gone = filter (\<lambda>r. key r \<in> set ids) rows"
    by (simp_all add: delete_batch_def Let_def ids_def)
  have "set ids \<subseteq> set (sort (map key (filter due rows)))" unfolding ids_def by (rule set_take_subset)
  then have ids: "set ids \<subseteq> key ` {r \<in> set rows. due r}" by auto
  have inj: "inj_on key (set rows)" using assms(1) by (simp add: distinct_map)
  have due: "due r" if r: "r \<in> set rows" "key r \<in> set ids" for r
  proof -
    from ids r(2) obtain s where s: "s \<in> set rows" "due s" "key r = key s" by blast
    with inj_onD [OF inj s(3) r(1) s(1)] show ?thesis by simp
  qed
  show "r \<in> set left" if "r \<in> set rows" "\<not> due r" using due that unfolding left by auto
  show "set left \<subseteq> set rows" unfolding left by auto
  show "set gone \<subseteq> {r \<in> set rows. due r}" using due unfolding gone by auto
  show "distinct (map key left)" using assms(1) unfolding left by (rule distinct_map_filter)
  have "distinct (map key (filter due rows))" using assms(1) by (rule distinct_map_filter)
  then have dids: "distinct ids" unfolding ids_def by simp
  have "key ` set gone = set ids" using ids unfolding gone by auto
  moreover have "distinct (map key gone)" using assms(1) unfolding gone by (rule distinct_map_filter)
  ultimately have "length gone = length ids" using distinct_card [OF dids] distinct_card [of "map key gone"] by simp
  then show len: "length gone = min (nat limit) (length (filter due rows))" by (simp add: ids_def)
  have "gone = filter (\<lambda>r. key r \<in> set ids) (filter due rows)" unfolding gone filter_filter using due by (intro filter_cong) auto
  moreover have "filter due left = filter (\<lambda>r. \<not> key r \<in> set ids) (filter due rows)" unfolding left by (simp add: conj_commute)
  ultimately have "length (filter due left) + length gone = length (filter due rows)"
    using sum_length_filter_compl [of "\<lambda>r. key r \<in> set ids" "filter due rows"] by simp
  with len show "length (filter due left) = length (filter due rows) - nat limit" by linarith
qed

lemma event_due_stable:
  assumes "set as' \<subseteq> set as" "\<And>a. a \<in> set as \<Longrightarrow> \<not> attempt_due p a \<Longrightarrow> a \<in> set as'"
  shows "event_due p as' = event_due p as"
proof
  fix e
  have "list_ex (guarded_by (active_cutoff p ''usage_attempts'') e) as' = list_ex (guarded_by (active_cutoff p ''usage_attempts'') e) as"
    using assms unfolding list_ex_iff guarded_by_def attempt_due_def by blast
  then show "event_due p as' e = event_due p as e" by (simp add: event_due_def)
qed

definition due_counts :: "policies \<Rightarrow> ops_db \<Rightarrow> nat list" where
  "due_counts p db =
     [length (filter (event_due p (od_usage_attempts db)) (od_usage_events db)), length (filter (attempt_due p) (od_usage_attempts db)),
      length (filter (log_due p) (od_audit_logs db)), length (filter (row_due (active_cutoff p ''audit'')) (od_connection_tests db)),
      length (filter (row_due (active_cutoff p ''audit'')) (od_health_events db)),
      length (filter (row_due (active_cutoff p ''discovery'')) (od_discovery_runs db)),
      length (filter (row_due (active_cutoff p ''system_events'')) (od_system_events db))]"

lemma counts_due: "counts_total (count_candidates p db) = sum_list (due_counts p db)"
  by (simp add: counts_total_def count_candidates_def due_counts_def)

lemma batch_empty:
  assumes "distinct (map key rows)" "delete_batch key due limit rows = (left, gone)" "0 < limit" "length gone = 0"
  shows "filter due rows = []"
proof -
  have "min (nat limit) (length (filter due rows)) = 0" using delete_batch_facts(5) [OF assms(1,2)] assms(4) by simp
  with assms(3) show ?thesis by (simp add: min_def split: if_splits)
qed

text \<open>The effect of one batch of deletions.\<close>

lemma delete_due_effect:
  assumes keys: "ops_keys db" and step: "delete_due p limit db = (db', d)"
  shows "retained p db db'" "ops_keys db'" "od_runs db' = od_runs db"
    "list_all2 (\<lambda>n' n. n' \<le> n - nat limit) (due_counts p db') (due_counts p db)"
    "0 < limit \<Longrightarrow> counts_total d = 0 \<Longrightarrow> sum_list (due_counts p db) = 0"
proof -
  obtain as ga where A: "delete_batch ur_id (attempt_due p) limit (od_usage_attempts db) = (as, ga)" by fastforce
  obtain es ge where E: "delete_batch ur_id (event_due p as) limit (od_usage_events db) = (es, ge)" by fastforce
  obtain ls gl where L: "delete_batch au_id (log_due p) limit (od_audit_logs db) = (ls, gl)" by fastforce
  obtain ts gt where T: "delete_batch tr_id (row_due (active_cutoff p ''audit'')) limit (od_connection_tests db) = (ts, gt)" by fastforce
  obtain hs gh where H: "delete_batch tr_id (row_due (active_cutoff p ''audit'')) limit (od_health_events db) = (hs, gh)" by fastforce
  obtain ds gd where D: "delete_batch tr_id (row_due (active_cutoff p ''discovery'')) limit (od_discovery_runs db) = (ds, gd)" by fastforce
  obtain ss gs where S: "delete_batch tr_id (row_due (active_cutoff p ''system_events'')) limit (od_system_events db) = (ss, gs)" by fastforce
  define as' where "as' = filter (\<lambda>a. ur_request_id a \<notin> ur_request_id ` set ge) as"
  have db': "od_usage_events db' = es" "od_usage_attempts db' = as'" "od_audit_logs db' = ls" "od_connection_tests db' = ts"
    "od_health_events db' = hs" "od_discovery_runs db' = ds" "od_system_events db' = ss" "od_runs db' = od_runs db" "od_policies db' = od_policies db"
    "od_next_audit db' = od_next_audit db"
    and d: "counts_total d = length ge + length ga + (length gl + length gt + length gh) + length gd + length gs"
    using step by (auto simp: delete_due_def A E L T H D S as'_def counts_total_def)
  from keys have K: "distinct (map ur_id (od_usage_events db))" "distinct (map ur_id (od_usage_attempts db))" "distinct (map au_id (od_audit_logs db))"
    "distinct (map tr_id (od_connection_tests db))" "distinct (map tr_id (od_health_events db))" "distinct (map tr_id (od_discovery_runs db))"
    "distinct (map tr_id (od_system_events db))" by (simp_all add: ops_keys_def)
  note FA = delete_batch_facts [OF K(2) A] and FE = delete_batch_facts [OF K(1) E] and FL = delete_batch_facts [OF K(3) L]
    and FT = delete_batch_facts [OF K(4) T] and FH = delete_batch_facts [OF K(5) H] and FD = delete_batch_facts [OF K(6) D]
    and FS = delete_batch_facts [OF K(7) S]
  have due1: "event_due p as = event_due p (od_usage_attempts db)" using FA(1,2) by (intro event_due_stable) auto
  have kept: "a \<in> set as'" if "a \<in> set (od_usage_attempts db)" "\<not> attempt_due p a" for a
  proof -
    have "a \<in> set as" using FA(1) that by blast
    moreover have "ur_request_id a \<noteq> ur_request_id e" if "e \<in> set ge" for e
    proof -
      have "event_due p as e" using FE(3) that by auto
      with \<open>a \<in> set as\<close> \<open>\<not> attempt_due p a\<close> show ?thesis by (auto simp: event_due_def list_ex_iff guarded_by_def attempt_due_def)
    qed
    ultimately show ?thesis by (auto simp: as'_def)
  qed
  have sub: "set as' \<subseteq> set (od_usage_attempts db)" using FA(2) by (auto simp: as'_def)
  have due2: "event_due p as' = event_due p (od_usage_attempts db)" using kept sub by (intro event_due_stable) auto
  show "od_runs db' = od_runs db" by (rule db')
  show "retained p db db'"
    unfolding retained_def db' kept_rows_def using FE(1) FL(1) FT(1) FH(1) FD(1) FS(1) kept sub by (simp add: due1)
  show "ops_keys db'"
    using keys FA(4) FE(4) FL(2,4) FT(4) FH(4) FD(4) FS(4) distinct_map_filter [OF FA(4)]
    by (auto simp: ops_keys_def db' as'_def)
  have "filter (attempt_due p) as' = filter (\<lambda>a. ur_request_id a \<notin> ur_request_id ` set ge) (filter (attempt_due p) as)"
    by (simp add: as'_def conj_commute)
  then have "length (filter (attempt_due p) as') \<le> length (filter (attempt_due p) (od_usage_attempts db)) - nat limit"
    unfolding FA(6) [symmetric] by (metis length_filter_le)
  then show "list_all2 (\<lambda>n' n. n' \<le> n - nat limit) (due_counts p db') (due_counts p db)"
    using FE(6) FL(6) FT(6) FH(6) FD(6) FS(6) by (simp add: due_counts_def db' due2 due1)
  show "sum_list (due_counts p db) = 0" if "0 < limit" "counts_total d = 0"
  proof -
    from that(2) have "length ge = 0" "length ga = 0" "length gl = 0" "length gt = 0" "length gh = 0" "length gd = 0" "length gs = 0"
      by (simp_all add: d)
    with that(1) have "filter (event_due p as) (od_usage_events db) = []" "filter (attempt_due p) (od_usage_attempts db) = []"
      "filter (log_due p) (od_audit_logs db) = []" "filter (row_due (active_cutoff p ''audit'')) (od_connection_tests db) = []"
      "filter (row_due (active_cutoff p ''audit'')) (od_health_events db) = []"
      "filter (row_due (active_cutoff p ''discovery'')) (od_discovery_runs db) = []"
      "filter (row_due (active_cutoff p ''system_events'')) (od_system_events db) = []"
      using batch_empty [OF K(1) E] batch_empty [OF K(2) A] batch_empty [OF K(3) L] batch_empty [OF K(4) T] batch_empty [OF K(5) H]
        batch_empty [OF K(6) D] batch_empty [OF K(7) S] by blast+
    then show ?thesis by (simp only: due_counts_def due1 list.size sum_list.Cons sum_list.Nil add_0)
  qed
qed

lemma retained_refl: "retained p db db"
  by (simp add: retained_def kept_rows_def)

lemma retained_trans:
  assumes "retained p db db1" "retained p db1 db2"
  shows "retained p db db2"
proof -
  have due: "event_due p (od_usage_attempts db1) = event_due p (od_usage_attempts db)"
    using assms(1) unfolding retained_def kept_rows_def by (intro event_due_stable) blast+
  show ?thesis using assms unfolding retained_def due by (elim conjE, intro conjI) ((erule (1) kept_rows_trans)+, blast, simp)
qed

text \<open>Statements that touch no fact table but the audit log, which they only extend.\<close>

definition only_logs :: "ops_db \<Rightarrow> ops_db \<Rightarrow> bool" where
  "only_logs db db' \<longleftrightarrow>
     od_usage_events db' = od_usage_events db \<and> od_usage_attempts db' = od_usage_attempts db \<and> od_connection_tests db' = od_connection_tests db \<and>
     od_health_events db' = od_health_events db \<and> od_discovery_runs db' = od_discovery_runs db \<and> od_system_events db' = od_system_events db \<and>
     od_policies db' = od_policies db \<and> (\<exists>new. od_audit_logs db' = od_audit_logs db @ new \<and> od_next_audit db' = od_next_audit db + int (length new) \<and>
       map au_id new = map (\<lambda>k. od_next_audit db + int k) [0..<length new]) \<and> map cr_id (od_runs db') = map cr_id (od_runs db)"

lemma only_logs_refl: "only_logs db db"
  by (simp add: only_logs_def)

lemma only_logs_trans:
  assumes "only_logs db db1" "only_logs db1 db2"
  shows "only_logs db db2"
proof -
  from assms obtain new1 new2 where new: "od_audit_logs db1 = od_audit_logs db @ new1" "od_next_audit db1 = od_next_audit db + int (length new1)"
    "map au_id new1 = map (\<lambda>k. od_next_audit db + int k) [0..<length new1]" "od_audit_logs db2 = od_audit_logs db1 @ new2"
    "od_next_audit db2 = od_next_audit db1 + int (length new2)" "map au_id new2 = map (\<lambda>k. od_next_audit db1 + int k) [0..<length new2]"
    unfolding only_logs_def by blast
  have "map au_id (new1 @ new2) = map (\<lambda>k. od_next_audit db + int k) [0..<length (new1 @ new2)]"
    unfolding map_append new(3,6) new(2) by (rule nth_equalityI) (auto simp: nth_append)
  with new assms show ?thesis unfolding only_logs_def by (intro conjI exI [of _ "new1 @ new2"]) simp_all
qed

lemma only_logs_update: "(\<And>r. cr_id (f r) = cr_id r) \<Longrightarrow> only_logs db (update_run i P f db)"
  by (auto simp: only_logs_def update_run_def)

lemma only_logs_audit: "only_logs db (append_audit_tx ul now i a s actor det e db)"
  by (simp add: only_logs_def append_audit_tx_def)

lemma only_logs_execute: "only_logs db (f db) \<Longrightarrow> only_logs db (fst (execute fault f db))"
  by (cases fault) (simp_all add: execute_def only_logs_refl)

lemma only_logs_retained: "only_logs db db' \<Longrightarrow> retained p db db'"
  by (auto simp: only_logs_def retained_def intro: kept_rows_sub)

lemma only_logs_keys:
  assumes "only_logs db db'" "ops_keys db"
  shows "ops_keys db'"
proof -
  from assms(1) obtain new where new: "od_audit_logs db' = od_audit_logs db @ new" "od_next_audit db' = od_next_audit db + int (length new)"
    "map au_id new = map (\<lambda>k. od_next_audit db + int k) [0..<length new]" unfolding only_logs_def by blast
  have fresh: "od_next_audit db \<le> au_id r \<and> au_id r < od_next_audit db'" if "r \<in> set new" for r
  proof -
    from that have "au_id r \<in> set (map au_id new)" by simp
    then show ?thesis unfolding new(3) by (auto simp: new(2))
  qed
  have "distinct (map au_id new)" unfolding new(3) by (simp add: distinct_map inj_on_def)
  moreover have "au_id r \<notin> au_id ` set new" if "r \<in> set (od_audit_logs db)" for r
    using fresh that assms(2) unfolding ops_keys_def by force
  ultimately have "distinct (map au_id (od_audit_logs db'))" using assms(2) unfolding new(1) ops_keys_def by auto
  moreover have "au_id r < od_next_audit db'" if "r \<in> set (od_audit_logs db')" for r
    using that fresh assms(2) new(2) unfolding new(1) ops_keys_def by fastforce
  ultimately show ?thesis using assms unfolding ops_keys_def only_logs_def by simp
qed

lemma cleanup_batch_cases:
  assumes "ops_keys db" "cleanup_batch env now run p k db = (db', result)"
  shows "retained p db db' \<and> ops_keys db'"
proof -
  consider "db' = db" | db1 d where "delete_due p (cr_batch_size run) db = (db1, d)" "only_logs db1 db'" | "only_logs db db'"
    using assms(2) only_logs_trans [OF only_logs_update only_logs_audit]
    by (auto simp: cleanup_batch_def Let_def split: option.splits if_splits prod.splits)
  then show ?thesis
  proof cases
    case 1
    with assms(1) show ?thesis by (simp add: retained_refl)
  next
    case 2
    from delete_due_effect(1,2) [OF assms(1) 2(1)] only_logs_retained [OF 2(2), of p] only_logs_keys [OF 2(2)] retained_trans show ?thesis by blast
  next
    case 3
    with only_logs_retained only_logs_keys assms(1) show ?thesis by blast
  qed
qed

lemma set_run_logs: "only_logs db (set_has_more i b db)" "only_logs db (set_completed now i db)"
  unfolding set_has_more_def set_completed_def by (rule only_logs_update; simp)+

lemma logs_execute:
  assumes "execute fault f db = (db', ok)" "\<And>db. only_logs db (f db)"
  shows "only_logs db db'"
  using assms by (cases fault) (auto simp: execute_def only_logs_refl)

lemma after_batch_logs: "only_logs db (fst (after_batch env now fault run p db))"
proof -
  define more where "more = (0 < counts_total (count_candidates p db))"
  obtain db1 ok1 where e1: "execute (fault 2) (set_has_more (cr_id run) more) db = (db1, ok1)" by fastforce
  obtain db2 ok2 where e2: "execute (fault 3) (set_completed now (cr_id run)) db1 = (db2, ok2)" by fastforce
  obtain db3 ok3 where e3: "execute (fault 4) (append_audit_tx (oe_urls env) now (cr_id run) ''retention.cleanup.completed'' ''succeeded''
     (cr_requested_by run) (JObject []) None) db2 = (db3, ok3)" by fastforce
  have "fst (after_batch env now fault run p db) = db \<or> fst (after_batch env now fault run p db) = db1 \<or>
      fst (after_batch env now fault run p db) = db2 \<or> fst (after_batch env now fault run p db) = db3"
    unfolding after_batch_def Let_def more_def [symmetric] e1 by (simp add: e2 e3)
  moreover have l1: "only_logs db db1" using e1 set_run_logs(1) by (rule logs_execute)
  moreover have l2: "only_logs db db2" using only_logs_trans [OF l1 logs_execute [OF e2 set_run_logs(2)]] .
  moreover have "only_logs db db3" using only_logs_trans [OF l2 logs_execute [OF e3 only_logs_audit]] .
  ultimately show ?thesis using only_logs_refl [of db] by (elim disjE) simp_all
qed

lemma cleanup_round_keeps:
  assumes "ops_keys db" "cleanup_round env now fault run p k db = (db', result)"
  shows "retained p db db' \<and> ops_keys db'"
proof -
  obtain db1 r where batch: "cleanup_batch env now run p k db = (db1, r)" by fastforce
  have one: "retained p db db1 \<and> ops_keys db1" using cleanup_batch_cases [OF assms(1) batch] .
  have tx: "retained p db (fst (execute (fault 0) (\<lambda>_. db1) db)) \<and> ops_keys (fst (execute (fault 0) (\<lambda>_. db1) db))"
    using one assms(1) by (cases "fault 0") (simp_all add: execute_def retained_refl)
  let ?db2 = "fst (execute (fault 0) (\<lambda>_. db1) db)"
  have "db' = db \<or> db' = ?db2 \<or> db' = fst (after_batch env now fault run p ?db2)"
    using assms(2) by (auto simp: cleanup_round_def batch Let_def split: batch_result.splits prod.splits if_splits)
  moreover have "retained p db (fst (after_batch env now fault run p ?db2)) \<and> ops_keys (fst (after_batch env now fault run p ?db2))"
    using tx after_batch_logs [of ?db2] only_logs_retained only_logs_keys retained_trans by blast
  ultimately show ?thesis using tx assms(1) retained_refl by metis
qed

lemma mark_failed_logs: "only_logs db (mark_cleanup_failed env now fault i e db)"
proof -
  let ?f = "update_run i (\<lambda>s. s \<notin> {''completed'', ''cancelled''}) (\<lambda>r. r\<lparr>cr_status := ''failed'', cr_last_error := Some (ops_error_code e, public_error_message e),
             cr_finished_at := Some now, cr_progress := json_object [(''phase'', JString ''failed''), (''has_more'', JBool True)]\<rparr>)"
  have "only_logs db (fst (execute (fault 5) ?f db))" by (rule only_logs_execute, rule only_logs_update) simp
  then show ?thesis unfolding mark_cleanup_failed_def Let_def by (rule only_logs_trans) (rule only_logs_execute, rule only_logs_audit)
qed

lemma cleanup_loop_keeps:
  assumes "ops_keys db" "cleanup_loop n k env now fault run p db = (db', result)"
  shows "retained p db db' \<and> ops_keys db'"
  using assms
proof (induction n arbitrary: k db)
  case 0
  then show ?case by (simp add: retained_refl)
next
  case (Suc n)
  obtain db1 r where round: "cleanup_round env (now k) (fault k) run p (cr_batches_completed run + int k) db = (db1, r)" by fastforce
  have one: "retained p db db1 \<and> ops_keys db1" using cleanup_round_keeps [OF Suc.prems(1) round] .
  show ?case
  proof (cases r)
    case (Inl e)
    with Suc.prems(2) round have "db' = mark_cleanup_failed env (now k) (fault k) (cr_id run) e db1" by simp
    with one mark_failed_logs [of db1] only_logs_retained only_logs_keys retained_trans show ?thesis by metis
  next
    case (Inr x)
    obtain deleted cancelled where x: "x = (deleted, cancelled)" by fastforce
    show ?thesis
    proof (cases "cancelled \<or> deleted = 0")
      case True
      with Suc.prems(2) round Inr x one show ?thesis by simp
    next
      case False
      with Suc.prems(2) round Inr x have "cleanup_loop n (Suc k) env now fault run p db1 = (db', result)" by simp
      with Suc.IH one retained_trans show ?thesis by blast
    qed
  qed
qed

lemma finish_dry_run_logs: "only_logs db (fst (finish_dry_run env now fault run p db))"
proof -
  define counts where "counts = count_candidates p db"
  define progress where "progress = json_object [(''phase'', JString ''dry_run''), (''has_more'', JBool False), (''dry_run'', JBool True), (''candidates'', counts_json counts)]"
  let ?f = "update_run (cr_id run) (\<lambda>s. s \<notin> {''completed'', ''cancelled''}) (\<lambda>r. r\<lparr>cr_status := ''completed'', cr_scanned := counts, cr_progress := progress,
     cr_finished_at := Some now\<rparr>)"
  obtain db1 ok1 where e1: "execute (fault 2) ?f db = (db1, ok1)" by fastforce
  obtain db2 ok2 where e2: "execute (fault 3) (append_audit_tx (oe_urls env) now (cr_id run) ''retention.cleanup.completed'' ''succeeded'' (cr_requested_by run) progress None) db1 = (db2, ok2)"
    by fastforce
  have "fst (finish_dry_run env now fault run p db) = db \<or> fst (finish_dry_run env now fault run p db) = db1 \<or>
      fst (finish_dry_run env now fault run p db) = db2"
    unfolding finish_dry_run_def Let_def counts_def [symmetric] progress_def [symmetric] e1 by (simp add: e2)
  moreover have l1: "only_logs db db1" using e1 by (rule logs_execute) (rule only_logs_update, simp)
  moreover have "only_logs db db2" using only_logs_trans [OF l1 logs_execute [OF e2 only_logs_audit]] .
  ultimately show ?thesis using only_logs_refl [of db] by (elim disjE) simp_all
qed

text \<open>C34:
  A cleanup run deletes nothing that is to be kept: whatever its batches, its statements and the clock do, and
  wherever it stops, every row that is not due under the policies of the run is still there: no row at or
  after its cut-off, none of a policy that is disabled or not part of the run, no attempt that is kept in its own
  right, even when its usage event is deleted, and no usage event one of whose attempts is kept.
\<close>

theorem cleanup_keeps_retained:
  assumes "ops_keys db" "get_cleanup i db = Some run"
    and "policy_map_from_snapshot (oe_parse_rfc3339 env) (now 0) (cr_policy_snapshot run) (cr_cutoff_snapshot run) = Ok p"
    and "run_cleanup env now fault i db = (db', result)"
  shows "retained p db db'"
proof (cases "cr_dry_run run")
  case True
  with assms(2-4) have "db' = fst (finish_dry_run env (now 0) (fault 0) run p db)" by (simp add: run_cleanup_def)
  then show ?thesis using finish_dry_run_logs only_logs_retained by blast
next
  case False
  obtain db1 r where loop: "cleanup_loop (nat (cr_max_batches run)) 0 env now fault run p db = (db1, r)" by fastforce
  with False assms(2-4) have "db' = db1" by (auto simp: run_cleanup_def split: sum.splits)
  with cleanup_loop_keeps [OF assms(1) loop] show ?thesis by simp
qed

section \<open>A run completes\<close>

definition clock_after :: "policies \<Rightarrow> int \<Rightarrow> bool" where
  "clock_after p t \<longleftrightarrow> (case active_cutoff p ''audit'' of None \<Rightarrow> True | Some c \<Rightarrow> c \<le> t)"

lemma due_counts_update [simp]: "due_counts p (update_run i P f db) = due_counts p db"
  by (simp add: due_counts_def update_run_def)

lemma due_counts_audit: "clock_after p now \<Longrightarrow> due_counts p (append_audit_tx ul now i a s actor det e db) = due_counts p db"
  by (auto simp: due_counts_def append_audit_tx_def log_due_def before_def clock_after_def split: option.splits)

lemma get_update:
  assumes "\<And>r. cr_id (f r) = cr_id r"
  shows "get_cleanup i (update_run i P f db) = map_option (\<lambda>r. if P (cr_status r) then f r else r) (get_cleanup i db)"
proof -
  have "find (\<lambda>r. cr_id r = i) (map (\<lambda>r. if cr_id r = i \<and> P (cr_status r) then f r else r) rs) =
      map_option (\<lambda>r. if P (cr_status r) then f r else r) (find (\<lambda>r. cr_id r = i) rs)" for rs
    using assms by (induction rs) auto
  then show ?thesis by (simp add: get_cleanup_def update_run_def)
qed

lemma get_audit [simp]: "get_cleanup i (append_audit_tx ul now j a s actor det e db) = get_cleanup i db"
  by (simp add: get_cleanup_def append_audit_tx_def)

definition nothing_due :: "policies \<Rightarrow> ops_db \<Rightarrow> bool" where
  "nothing_due p db \<longleftrightarrow> sum_list (due_counts p db) = 0"

lemma candidates_left: "0 < counts_total (count_candidates p db) \<longleftrightarrow> \<not> nothing_due p db"
  unfolding counts_due nothing_due_def by (rule neq0_conv [symmetric])

definition run_active :: "string \<Rightarrow> ops_db \<Rightarrow> bool" where
  "run_active i db \<longleftrightarrow> (\<exists>r. get_cleanup i db = Some r \<and> cr_status r = ''running'' \<and> \<not> cr_cancel_requested r)"

definition run_status :: "string \<Rightarrow> string \<Rightarrow> ops_db \<Rightarrow> bool" where
  "run_status i s db \<longleftrightarrow> (\<exists>r. get_cleanup i db = Some r \<and> cr_status r = s)"

lemma batch_progress:
  assumes keys: "ops_keys db" and run: "run_active (cr_id run) db" and clock: "clock_after p now" and size: "0 < cr_batch_size run"
  shows "\<exists>db1 d. cleanup_batch env now run p k db = (db1, BatchDeleted d) \<and> run_active (cr_id run) db1 \<and>
    list_all2 (\<lambda>n' n. n' \<le> n - nat (cr_batch_size run)) (due_counts p db1) (due_counts p db) \<and>
    (counts_total d = 0 \<longrightarrow> nothing_due p db)"
proof -
  obtain current where current: "get_cleanup (cr_id run) db = Some current" "cr_status current = ''running''" "\<not> cr_cancel_requested current"
    using run by (auto simp: run_active_def)
  obtain db0 d where del: "delete_due p (cr_batch_size run) db = (db0, d)" by fastforce
  note D = delete_due_effect [OF keys del]
  define progress where "progress = json_object [(''phase'', JString ''batch''), (''batch'', json_of_int (k + 1)), (''has_more'', JBool True),
       (''deleted'', counts_json d), (''updated_at'', JString (oe_rfc3339 env now))]"
  define f :: "cleanup_run \<Rightarrow> cleanup_run" where "f = (\<lambda>r. r\<lparr>cr_scanned := add_counts (cr_scanned r) d, cr_deleted := add_counts (cr_deleted r) d,
       cr_batches_completed := cr_batches_completed r + 1, cr_progress := progress\<rparr>)"
  define db1 where "db1 = append_audit_tx (oe_urls env) now (cr_id run) ''retention.cleanup.progress'' ''progress'' (cr_requested_by run) progress None
       (update_run (cr_id run) (\<lambda>_. True) f db0)"
  have "cleanup_batch env now run p k db = (db1, BatchDeleted d)"
    using current by (simp add: cleanup_batch_def del Let_def db1_def f_def progress_def)
  moreover have "get_cleanup (cr_id run) db0 = Some current" using current(1) D(3) by (simp add: get_cleanup_def)
  then have "run_active (cr_id run) db1"
    using current(2,3) get_update [of f "cr_id run" "\<lambda>_. True" db0] by (simp add: run_active_def db1_def f_def)
  moreover have "list_all2 (\<lambda>n' n. n' \<le> n - nat (cr_batch_size run)) (due_counts p db1) (due_counts p db)"
    using D(4) clock by (simp add: db1_def due_counts_audit)
  moreover have "counts_total d = 0 \<longrightarrow> nothing_due p db" unfolding nothing_due_def by (rule impI) (rule D(5) [OF size])
  ultimately show ?thesis by (intro exI conjI)
qed

lemma after_batch_progress:
  assumes run: "run_active (cr_id run) db" and clock: "clock_after p now" and "\<And>k. fault k = NoFault"
  shows "\<exists>db1. after_batch env now fault run p db = (db1, True) \<and> due_counts p db1 = due_counts p db \<and>
    (if nothing_due p db then run_status (cr_id run) ''completed'' db1 else run_active (cr_id run) db1)"
proof (cases "nothing_due p db")
  case True
  define db1 where "db1 = append_audit_tx (oe_urls env) now (cr_id run) ''retention.cleanup.completed'' ''succeeded'' (cr_requested_by run) (JObject []) None
      (set_completed now (cr_id run) (set_has_more (cr_id run) False db))"
  have "after_batch env now fault run p db = (db1, True)"
    using True assms(3) by (simp add: after_batch_def candidates_left Let_def execute_def db1_def)
  moreover have "due_counts p db1 = due_counts p db" using clock by (simp add: db1_def due_counts_audit set_completed_def set_has_more_def)
  moreover obtain r where r: "get_cleanup (cr_id run) db = Some r" "cr_status r = ''running''" using run by (auto simp: run_active_def)
  have "run_status (cr_id run) ''completed'' db1"
    unfolding run_status_def db1_def set_completed_def set_has_more_def by (simp add: get_update r)
  ultimately show ?thesis using True by simp
next
  case False
  define db1 where "db1 = set_has_more (cr_id run) True db"
  have "after_batch env now fault run p db = (db1, True)"
    using False assms(3) by (simp add: after_batch_def candidates_left Let_def execute_def db1_def)
  moreover have "due_counts p db1 = due_counts p db" by (simp add: db1_def set_has_more_def)
  moreover obtain r where r: "get_cleanup (cr_id run) db = Some r" "cr_status r = ''running''" "\<not> cr_cancel_requested r"
    using run by (auto simp: run_active_def)
  have "run_active (cr_id run) db1" unfolding run_active_def db1_def set_has_more_def by (simp add: get_update r)
  ultimately show ?thesis using False by simp
qed

lemma round_progress:
  assumes keys: "ops_keys db" and run: "run_active (cr_id run) db" and clock: "clock_after p now" and size: "0 < cr_batch_size run"
    and faults: "\<And>k. fault k = NoFault"
  shows "\<exists>db1 deleted. cleanup_round env now fault run p k db = (db1, Ok (deleted, False)) \<and> ops_keys db1 \<and>
    list_all2 (\<lambda>n' n. n' \<le> n - nat (cr_batch_size run)) (due_counts p db1) (due_counts p db) \<and>
    (if nothing_due p db1 then run_status (cr_id run) ''completed'' db1 else run_active (cr_id run) db1) \<and>
    (deleted = 0 \<longrightarrow> nothing_due p db)"
proof -
  obtain db0 d where B: "cleanup_batch env now run p k db = (db0, BatchDeleted d)" "run_active (cr_id run) db0"
    "list_all2 (\<lambda>n' n. n' \<le> n - nat (cr_batch_size run)) (due_counts p db0) (due_counts p db)" "counts_total d = 0 \<longrightarrow> nothing_due p db"
    using batch_progress [OF keys run clock size, of env k] by (elim exE conjE)
  obtain db1 where A: "after_batch env now fault run p db0 = (db1, True)" "due_counts p db1 = due_counts p db0"
    "if nothing_due p db0 then run_status (cr_id run) ''completed'' db1 else run_active (cr_id run) db1"
    using after_batch_progress [where fault = fault and env = env, OF B(2) clock faults] by (elim exE conjE)
  have round: "cleanup_round env now fault run p k db = (db1, Ok (counts_total d, False))"
    by (simp add: cleanup_round_def B(1) A(1) faults execute_def)
  have "nothing_due p db1 = nothing_due p db0" by (simp only: nothing_due_def A(2))
  with round cleanup_round_keeps [OF keys round] A B show ?thesis by simp
qed

lemma due_zero:
  assumes "list_all2 (\<lambda>n' n. n' \<le> n - b) xs' xs" "\<forall>n \<in> set xs. n \<le> (Suc m) * b"
  shows "\<forall>n \<in> set xs'. n \<le> m * b"
proof
  fix n'
  assume "n' \<in> set xs'"
  then obtain k where k: "k < length xs'" "n' = xs' ! k" by (auto simp: in_set_conv_nth)
  with assms(1) have "n' \<le> xs ! k - b" "k < length xs" by (auto simp: list_all2_conv_all_nth)
  with assms(2) show "n' \<le> m * b" by (auto dest!: nth_mem)
qed

lemma completed_stops:
  assumes "run_status (cr_id run) ''completed'' db" "\<And>k. fault k = NoFault"
  shows "cleanup_round env now fault run p k db = (db, Ok (0, False))"
  using assms by (auto simp: run_status_def cleanup_round_def cleanup_batch_def execute_def)

lemma loop_completes:
  assumes "ops_keys db" "run_active (cr_id run) db" "\<And>k. clock_after p (now k)" "0 < cr_batch_size run" "\<And>k j. fault k j = NoFault"
    and "\<forall>n \<in> set (due_counts p db). n \<le> m * nat (cr_batch_size run)" "0 < m" "m \<le> fuel"
  shows "\<exists>db'. cleanup_loop fuel k env now fault run p db = (db', Ok ()) \<and> run_status (cr_id run) ''completed'' db' \<and> nothing_due p db'"
  using assms(1,2,6-8)
proof (induction m arbitrary: db k fuel)
  case (Suc m)
  then obtain fuel' where fuel: "fuel = Suc fuel'" by (cases fuel) auto
  obtain db1 deleted where R: "cleanup_round env (now k) (fault k) run p (cr_batches_completed run + int k) db = (db1, Ok (deleted, False))" "ops_keys db1"
    "list_all2 (\<lambda>n' n. n' \<le> n - nat (cr_batch_size run)) (due_counts p db1) (due_counts p db)"
    "if nothing_due p db1 then run_status (cr_id run) ''completed'' db1 else run_active (cr_id run) db1" "deleted = 0 \<longrightarrow> nothing_due p db"
    using round_progress [where now = "now k" and fault = "fault k" and env = env and k = "cr_batches_completed run + int k",
        OF Suc.prems(1,2) assms(3,4,5)] by (elim exE conjE)
  have less: "\<forall>n \<in> set (due_counts p db1). n \<le> m * nat (cr_batch_size run)" by (rule due_zero [OF R(3) Suc.prems(3)])
  show ?case
  proof (cases "nothing_due p db1")
    case True
    with R(4) have status: "run_status (cr_id run) ''completed'' db1" by simp
    then have "cleanup_loop fuel' (Suc k) env now fault run p db1 = (db1, Ok ())"
      by (cases fuel') (simp_all add: completed_stops assms(5))
    with R(1) True status show ?thesis by (simp add: fuel)
  next
    case False
    with R(4) have active: "run_active (cr_id run) db1" by simp
    have "deleted \<noteq> 0"
    proof
      assume "deleted = 0"
      with R(5) have "\<forall>n \<in> set (due_counts p db). n = 0" by (simp add: nothing_due_def)
      then have "\<forall>n \<in> set (due_counts p db1). n \<le> 0 * nat (cr_batch_size run)" by (intro due_zero [OF R(3)]) auto
      with False show False by (auto simp: nothing_due_def)
    qed
    moreover have "0 < m" using less False by (cases m) (auto simp: nothing_due_def)
    ultimately show ?thesis using Suc.IH [OF R(2) active less, of fuel' "Suc k"] Suc.prems(5) R(1) by (simp add: fuel)
  qed
qed simp

text \<open>C35:
  A cleanup run ends its work: when every statement succeeds, nobody cancels it, and its batches can hold what is
  due (\<open>m\<close> batches of the run's size cover every table, and the run may take at least \<open>m\<close>), the run returns
  completed and no row that is due under its policies is left, whichever rows expire together: no kept attempt and no
  progress record of the run itself holds it back.
\<close>

theorem cleanup_completes:
  assumes "ops_keys db" "get_cleanup i db = Some run" "cr_status run = ''running''" "\<not> cr_cancel_requested run" "\<not> cr_dry_run run"
    and "policy_map_from_snapshot (oe_parse_rfc3339 env) (now 0) (cr_policy_snapshot run) (cr_cutoff_snapshot run) = Ok p"
    and "\<And>k. clock_after p (now k)" "\<And>k j. fault k j = NoFault" "0 < cr_batch_size run"
    and "\<forall>n \<in> set (due_counts p db). n \<le> m * nat (cr_batch_size run)" "0 < m" "int m \<le> cr_max_batches run"
  shows "\<exists>db' run'. run_cleanup env now fault i db = (db', Ok run') \<and> cr_status run' = ''completed'' \<and> count_candidates p db' = no_counts"
proof -
  have i: "cr_id run = i" using assms(2) by (auto simp: get_cleanup_def find_Some_iff)
  have active: "run_active (cr_id run) db" using assms(2-4) by (simp add: run_active_def i)
  have "m \<le> nat (cr_max_batches run)" using assms(12) by linarith
  from loop_completes [where now = now and fault = fault and k = 0 and env = env, OF assms(1) active assms(7,9,8,10,11) this]
  obtain db' where loop: "cleanup_loop (nat (cr_max_batches run)) 0 env now fault run p db = (db', Ok ())"
    "run_status i ''completed'' db'" "nothing_due p db'" unfolding i by (elim exE conjE)
  from loop(2) obtain run' where run': "get_cleanup i db' = Some run'" "cr_status run' = ''completed''" by (auto simp: run_status_def)
  have "run_cleanup env now fault i db = (db', Ok run')" using assms(2,5,6) loop(1) run'(1) by (simp add: run_cleanup_def)
  moreover have "count_candidates p db' = no_counts"
    using loop(3) by (simp add: nothing_due_def due_counts_def count_candidates_def no_counts_def)
  ultimately show ?thesis using run'(2) by blast
qed

section \<open>A resumed run keeps its cut-offs\<close>

definition policy_row_ok :: "retention_policy \<Rightarrow> bool" where
  "policy_row_ok r \<longleftrightarrow> rp_policy_key r \<in> set retention_keys \<and> 0 \<le> rp_retention_days r \<and> rp_retention_days r \<le> 36500"

definition state_ok :: "string \<times> policy_state \<Rightarrow> bool" where
  "state_ok p \<longleftrightarrow> fst p \<in> set retention_keys \<and> 0 \<le> ps_retention_days (snd p) \<and> ps_retention_days (snd p) \<le> 36500"

text \<open>The cut-off of a disabled policy is not stored; it is never used.\<close>

definition at_time :: "int \<Rightarrow> policy_state \<Rightarrow> policy_state" where
  "at_time now s = (if ps_enabled s then s else s\<lparr>ps_cutoff := now - ps_retention_days s * day\<rparr>)"

text \<open>The times of the policies are read back from their text.\<close>

definition times_read_back :: "(string \<Rightarrow> int option) \<Rightarrow> (int \<Rightarrow> string) \<Rightarrow> policies \<Rightarrow> bool" where
  "times_read_back parse rfc3339 p \<longleftrightarrow> list_all (\<lambda>s. parse (rfc3339 (ps_cutoff (snd s))) = Some (ps_cutoff (snd s))) p"

lemma snapshot_days: "0 \<le> i \<Longrightarrow> i \<le> 36500 \<Longrightarrow> sint (word_of_int i :: i64) = i"
  by (simp add: sint_sbintrunc' signed_take_bit_int_eq_self)

lemma snapshot_policy_stored:
  assumes "state_ok (key, s)" "map_of cutoffs key = Some (if ps_enabled s then JString (rfc3339 (ps_cutoff s)) else JNull)"
    and "parse (rfc3339 (ps_cutoff s)) = Some (ps_cutoff s)"
  shows "snapshot_policy parse now cutoffs key
     (json_object [(''retention_days'', json_of_int (ps_retention_days s)), (''enabled'', JBool (ps_enabled s))]) = Ok (at_time now s)"
  using assms by (simp add: snapshot_policy_def state_ok_def validate_policy_key_def validate_retention_days_def json_object_def json_of_int_def
      snapshot_days snapshot_cutoff_def at_time_def Let_def)

lemma snapshot_policies_stored:
  assumes "list_all state_ok p" "times_read_back parse rfc3339 p"
    and "\<And>key s. (key, s) \<in> set p \<Longrightarrow> map_of cutoffs key = Some (if ps_enabled s then JString (rfc3339 (ps_cutoff s)) else JNull)"
  shows "snapshot_policies parse now cutoffs (map (\<lambda>(key, s). (key,
      json_object [(''retention_days'', json_of_int (ps_retention_days s)), (''enabled'', JBool (ps_enabled s))])) p) = Ok (map (apsnd (at_time now)) p)"
  using assms
proof (induction p)
  case (Cons x p)
  obtain key s where x: "x = (key, s)" by fastforce
  with Cons show ?case using snapshot_policy_stored [of key s cutoffs rfc3339 parse now] by (simp add: times_read_back_def)
qed simp

lemma policy_map_stored:
  assumes "list_all state_ok p" "distinct (map fst p)" "times_read_back parse rfc3339 p"
  shows "policy_map_from_snapshot parse now (policy_snapshot p) (cutoff_snapshot rfc3339 p) = Ok (map (apsnd (at_time now)) p)"
proof -
  have "map_of (map (\<lambda>(key, s). (key, if ps_enabled s then JString (rfc3339 (ps_cutoff s)) else JNull)) p) key =
      Some (if ps_enabled s then JString (rfc3339 (ps_cutoff s)) else JNull)" if "(key, s) \<in> set p" for key s
    using that assms(2) by (intro map_of_is_SomeI) (force simp: o_def case_prod_unfold)+
  from snapshot_policies_stored [OF assms(1,3) this] show ?thesis
    by (simp add: policy_map_from_snapshot_def policy_snapshot_def cutoff_snapshot_def)
qed

lemma active_cutoff_stored: "active_cutoff (map (apsnd (at_time now)) p) = active_cutoff p"
proof
  fix key
  show "active_cutoff (map (apsnd (at_time now)) p) key = active_cutoff p key"
    by (induction p) (auto simp: active_cutoff_def at_time_def option_filter_def)
qed

lemma load_policy_map_ok:
  assumes "list_all policy_row_ok (od_policies db)" "load_policy_map now selected db = Ok p"
  shows "list_all state_ok p" "distinct (map fst p)"
proof -
  have "list_all policy_row_ok rows \<Longrightarrow> bmap_ok m \<Longrightarrow> list_all state_ok m \<Longrightarrow>
      (let q = foldl (\<lambda>m r. binsert (rp_policy_key r) (load_policy_row now r) m) m rows in bmap_ok q \<and> list_all state_ok q)" for rows m
  proof (induction rows arbitrary: m)
    case (Cons r rows)
    have "list_all state_ok (binsert (rp_policy_key r) (load_policy_row now r) m)"
      using Cons.prems by (auto simp: list_all_iff binsert_set state_ok_def policy_row_ok_def load_policy_row_def)
    with Cons show ?case by simp
  qed simp
  note built = this [of "filter (\<lambda>r. case selected of None \<Rightarrow> True | Some keys \<Rightarrow> rp_policy_key r \<in> set keys) (od_policies db)" "[]"]
  from assms(2) have "p = foldl (\<lambda>m r. binsert (rp_policy_key r) (load_policy_row now r) m) []
      (filter (\<lambda>r. case selected of None \<Rightarrow> True | Some keys \<Rightarrow> rp_policy_key r \<in> set keys) (od_policies db))"
    by (auto simp: load_policy_map_def Let_def and_then_Ok split: option.splits)
  with built assms(1) have "bmap_ok p \<and> list_all state_ok p" by (simp add: list_all_iff bmap_ok_def Let_def)
  then show "list_all state_ok p" "distinct (map fst p)" by (simp_all add: bmap_ok_distinct)
qed

text \<open>
  A resumed cleanup deletes under the cut-offs of its start: the policies a run was started with, read back from the
  snapshot stored with it at whatever later time, have the same cut-off for every policy that was enabled and none for the
  others, provided a time that is printed is read back as itself.
\<close>

theorem resumed_run_keeps_cutoffs:
  assumes "list_all policy_row_ok (od_policies db)" "load_policy_map start (rq_policy_keys r) db = Ok p"
    and "times_read_back (oe_parse_rfc3339 env) (oe_rfc3339 env) p"
  shows "\<exists>p'. policy_map_from_snapshot (oe_parse_rfc3339 env) later (cr_policy_snapshot (new_cleanup_run env i actor r p))
      (cr_cutoff_snapshot (new_cleanup_run env i actor r p)) = Ok p' \<and> active_cutoff p' = active_cutoff p"
proof -
  have "policy_map_from_snapshot (oe_parse_rfc3339 env) later (policy_snapshot p) (cutoff_snapshot (oe_rfc3339 env) p) = Ok (map (apsnd (at_time later)) p)"
    using load_policy_map_ok [OF assms(1,2)] assms(3) by (intro policy_map_stored) auto
  then show ?thesis by (simp add: new_cleanup_run_def active_cutoff_stored)
qed

text \<open>
  The details of an audit row pass through \<open>sanitize_json\<close>, which takes a key that ends in \<open>_key\<close> for a
  secret: the row that records a change of a policy says \<open>[REDACTED]\<close> where the policy was to be named.
\<close>

lemma policy_update_audit_redacted:
  "json_get (sanitize_json ul (json_object [(''policy_key'', JString k), (''retention_days'', json_of_int d), (''enabled'', JBool b)])) ''policy_key'' =
     Some (JString redacted)"
proof -
  have "ops_sensitive_key ''policy_key''" "\<not> ops_sensitive_key ''enabled''" "\<not> ops_sensitive_key ''retention_days''" by code_simp+
  then show ?thesis by (simp add: json_object_def json_of_int_def json_of_i64_def)
qed

section \<open>Examples\<close>

definition sample_ops_env :: ops_env where
  "sample_ops_env = \<lparr>oe_urls = plain_urls, oe_rfc3339 = (\<lambda>t. if t = 0 then ''2026-01-01T00:00:00+00:00'' else ''2026-01-02T00:00:00+00:00''),
     oe_parse_rfc3339 = (\<lambda>s. if s = ''2026-01-01T00:00:00+00:00'' then Some 0 else if s = ''2026-01-02T00:00:00+00:00'' then Some day else None)\<rparr>"

text \<open>Events and attempts are kept for a day; the audit policy is disabled. Two events are old, one of them with a recent attempt.\<close>

definition sample_cleanup_request :: cleanup_request where
  "sample_cleanup_request = default_cleanup_request\<lparr>rq_batch_size := 1, rq_max_batches := 3\<rparr>"

definition sample_ops_db :: ops_db where
  "sample_ops_db = \<lparr>od_usage_events = [\<lparr>ur_id = 1, ur_request_id = ''a'', ur_created_at = -5\<rparr>, \<lparr>ur_id = 2, ur_request_id = ''b'', ur_created_at = -4\<rparr>],
     od_usage_attempts = [\<lparr>ur_id = 1, ur_request_id = ''a'', ur_created_at = -5\<rparr>, \<lparr>ur_id = 2, ur_request_id = ''b'', ur_created_at = -3\<rparr>,
       \<lparr>ur_id = 3, ur_request_id = ''b'', ur_created_at = 5\<rparr>],
     od_audit_logs = [], od_connection_tests = [], od_health_events = [\<lparr>tr_id = 1, tr_at = Some (-1)\<rparr>], od_discovery_runs = [], od_system_events = [],
     od_policies = [\<lparr>rp_policy_key = ''audit'', rp_retention_days = 0, rp_enabled = False\<rparr>,
       \<lparr>rp_policy_key = ''usage_attempts'', rp_retention_days = 1, rp_enabled = True\<rparr>, \<lparr>rp_policy_key = ''usage_events'', rp_retention_days = 1, rp_enabled = True\<rparr>],
     od_runs = [], od_next_audit = 1\<rparr>"

definition sample_policy_map :: policies where
  "sample_policy_map = [(''audit'', \<lparr>ps_retention_days = 0, ps_enabled = False, ps_cutoff = day\<rparr>),
     (''usage_attempts'', \<lparr>ps_retention_days = 1, ps_enabled = True, ps_cutoff = 0\<rparr>),
     (''usage_events'', \<lparr>ps_retention_days = 1, ps_enabled = True, ps_cutoff = 0\<rparr>)]"

definition sample_run :: cleanup_run where
  "sample_run = new_cleanup_run sample_ops_env ''op'' ''admin_api'' sample_cleanup_request sample_policy_map"

definition sample_started :: ops_db where
  "sample_started = sample_ops_db\<lparr>od_runs := [sample_run]\<rparr>"

lemma sample_loaded: "load_policy_map day (rq_policy_keys sample_cleanup_request) sample_ops_db = Ok sample_policy_map"
  by code_simp

lemma sample_rows_ok: "list_all policy_row_ok (od_policies sample_ops_db)"
  by code_simp

lemma sample_times: "times_read_back (oe_parse_rfc3339 sample_ops_env) (oe_rfc3339 sample_ops_env) sample_policy_map"
  by code_simp

lemma sample_keys: "ops_keys sample_started"
  by (simp add: ops_keys_def sample_started_def sample_ops_db_def)

lemma sample_found: "get_cleanup ''op'' sample_started = Some sample_run"
  by (simp add: get_cleanup_def sample_started_def sample_run_def new_cleanup_run_def)

lemma sample_stored:
  "policy_map_from_snapshot (oe_parse_rfc3339 sample_ops_env) day (cr_policy_snapshot sample_run) (cr_cutoff_snapshot sample_run) = Ok sample_policy_map"
proof -
  have "map (apsnd (at_time day)) sample_policy_map = sample_policy_map" by (simp add: sample_policy_map_def at_time_def)
  with policy_map_stored [OF load_policy_map_ok [OF sample_rows_ok sample_loaded] sample_times, of day] show ?thesis
    by (simp add: sample_run_def new_cleanup_run_def)
qed

lemma sample_run_options: "cr_status sample_run = ''running''" "\<not> cr_cancel_requested sample_run" "\<not> cr_dry_run sample_run"
  "cr_batch_size sample_run = 1" "cr_max_batches sample_run = 3"
  by (simp_all add: sample_run_def new_cleanup_run_def sample_cleanup_request_def default_cleanup_request_def)

lemma sample_due: "due_counts sample_policy_map sample_started = [1, 2, 0, 0, 0, 0, 0]"
  by (simp add: due_counts_def sample_started_def sample_ops_db_def sample_policy_map_def event_due_def attempt_due_def log_due_def row_due_def
      active_cutoff_def option_filter_def before_def guarded_by_def)

lemma sample_clock: "clock_after sample_policy_map t"
  by (simp add: clock_after_def active_cutoff_def sample_policy_map_def option_filter_def)

theorem cleanup_keeps_retained_witness:
  "retained sample_policy_map sample_started (fst (run_cleanup sample_ops_env (\<lambda>k. day + int k) (\<lambda>k _. if k = 1 then FaultAfterCommit else NoFault) ''op'' sample_started))"
  using cleanup_keeps_retained [OF sample_keys sample_found, of sample_ops_env "\<lambda>k. day + int k" sample_policy_map] sample_stored by (simp add: prod_eq_iff)

theorem cleanup_completes_witness:
  "\<exists>db' run'. run_cleanup sample_ops_env (\<lambda>k. day + int k) (\<lambda>_ _. NoFault) ''op'' sample_started = (db', Ok run') \<and> cr_status run' = ''completed'' \<and>
     count_candidates sample_policy_map db' = no_counts"
  by (rule cleanup_completes [where m = 2, OF sample_keys sample_found sample_run_options(1-3)])
     (use sample_stored in \<open>simp_all add: sample_clock sample_run_options sample_due\<close>)

theorem resumed_run_keeps_cutoffs_witness:
  "\<exists>p'. policy_map_from_snapshot (oe_parse_rfc3339 sample_ops_env) (9 * day) (cr_policy_snapshot sample_run) (cr_cutoff_snapshot sample_run) = Ok p' \<and>
     active_cutoff p' = active_cutoff sample_policy_map"
  using resumed_run_keeps_cutoffs [OF sample_rows_ok sample_loaded sample_times] unfolding sample_run_def .

end
