(* ===== verification/Control_Catalog.thy ===== *)
theory Control_Catalog
  imports Infra_Events
begin

text \<open>
  \<open>src/control_plane/model_catalog.rs\<close>: the catalog of upstream models. A discovery reconciles what an upstream
  lists with the stored models of its source, in one transaction; an operator confirms models and overrides
  their metadata. Metadata is stored as two JSON documents, its values and where each comes from.

  \<open>now\<close> is the \<open>NOW()\<close> of a transaction; \<open>fault\<close> is how a transaction ends. \<open>jsonb\<close> columns give back the
  documents they were given. The repository's reads and the functions only tests call are left out.
\<close>

section \<open>Errors\<close>

datatype repository_error =
    RepoDatabase
  | RepoJson
  | RepoNotFound string
  | RepoInvalidMetadata string
  | RepoInvalidState string
  | RepoImmutableVersionConflict string

fun repository_error_of :: "catalog_error \<Rightarrow> repository_error" where
  "repository_error_of CatalogError_Json = RepoJson"
| "repository_error_of (CatalogError_InvalidMetadata s) = RepoInvalidMetadata s"
| "repository_error_of (CatalogError_InvalidState s) = RepoInvalidState s"

definition map_err :: "('e \<Rightarrow> 'f) \<Rightarrow> ('a, 'e) result \<Rightarrow> ('a, 'f) result" where
  "map_err f r = (case r of Inl e \<Rightarrow> Err (f e) | Inr x \<Rightarrow> Ok x)"

lemma map_err_Ok [simp]: "map_err f r = Ok x \<longleftrightarrow> r = Ok x"
  by (simp add: map_err_def split: sum.split)

lemma map_err_simps [simp]: "map_err f (Inr x) = Ok x" "map_err f (Inl e) = Err (f e)"
  by (simp_all add: map_err_def)

section \<open>Metadata as JSON\<close>

definition metadata_field_of_name :: "string \<Rightarrow> metadata_field option" where
  "metadata_field_of_name s = find (\<lambda>f. metadata_field_name f = s) metadata_field_ALL"

definition metadata_source_of_json :: "json \<Rightarrow> metadata_source option" where
  "metadata_source_of_json v = Option.bind (json_as_str v) (\<lambda>s. case metadata_source_from_str s of Inl _ \<Rightarrow> None | Inr x \<Rightarrow> Some x)"

definition metadata_to_json :: "catalog_metadata \<Rightarrow> json \<times> json" where
  "metadata_to_json m =
     (json_object (map (\<lambda>(f, v). (metadata_field_name f, v)) (cm_values m)),
      json_object (map (\<lambda>(f, s). (metadata_field_name f, JString (metadata_source_to_string s))) (cm_field_sources m)))"

fun decode_fields :: "(json \<Rightarrow> 'v option) \<Rightarrow> (string \<times> json) list \<Rightarrow> (metadata_field, 'v) bmap \<Rightarrow> (metadata_field, 'v) bmap option" where
  "decode_fields decode [] m = Some m"
| "decode_fields decode ((k, v) # kvs) m =
     Option.bind (metadata_field_of_name k) (\<lambda>f. Option.bind (decode v) (\<lambda>x. decode_fields decode kvs (binsert f x m)))"

definition metadata_from_json :: "json \<Rightarrow> json \<Rightarrow> (catalog_metadata, repository_error) result" where
  "metadata_from_json values field_sources =
     (case (Option.bind (json_as_object values) (\<lambda>kvs. decode_fields Some kvs []),
            Option.bind (json_as_object field_sources) (\<lambda>kvs. decode_fields metadata_source_of_json kvs [])) of
        (Some vs, Some fs) \<Rightarrow>
          and_then (map_err repository_error_of (metadata_validate vs)) (\<lambda>_. Ok \<lparr>cm_values = vs, cm_field_sources = fs\<rparr>)
      | _ \<Rightarrow> Err RepoJson)"

section \<open>Tables and inputs\<close>

record model_preset_row =
  mp_id :: string
  mp_version :: i32
  mp_canonical_model_id :: string
  mp_aliases :: json
  mp_metadata :: json
  mp_field_sources :: json

record discovery_diff_entry =
  de_upstream_model_id :: string
  de_changed_fields :: "string list"

record discovery_diff =
  dd_added :: "discovery_diff_entry list"
  dd_changed :: "discovery_diff_entry list"
  dd_missing :: "discovery_diff_entry list"

definition empty_diff :: discovery_diff where
  "empty_diff = \<lparr>dd_added = [], dd_changed = [], dd_missing = []\<rparr>"

record discovery_run_row =
  dr_id :: int
  dr_source_id :: string
  dr_account_id :: "string option"
  dr_provider_preset :: "string \<times> i32"
  dr_status :: string
  dr_raw_snapshot :: "json option"
  dr_diff :: discovery_diff
  dr_discovered_model_count :: int
  dr_http_status :: "int option"
  dr_latency_ms :: int
  dr_error :: "(string \<times> string) option"
  dr_requested_by :: string
  dr_started_at :: int
  dr_completed_at :: int

record connection_test_row =
  ct_source_id :: string
  ct_account_id :: "string option"
  ct_protocol :: protocol
  ct_upstream_protocol :: protocol
  ct_mode :: source_protocol_mode
  ct_status :: string
  ct_http_status :: "int option"
  ct_latency_ms :: int
  ct_error_code :: "string option"
  ct_error_message :: "string option"
  ct_requested_by :: string
  ct_tested_at :: int

record catalog_db =
  cx_control :: control_db
  cx_provider_presets :: "(string \<times> provider_preset_row) list"
  cx_model_presets :: "model_preset_row list"
  cx_discovery_runs :: "discovery_run_row list"
  cx_connection_tests :: "connection_test_row list"

abbreviation cx_models :: "catalog_db \<Rightarrow> source_model_row list" where
  "cx_models db \<equiv> cd_source_models (cx_control db)"

definition with_models :: "source_model_row list \<Rightarrow> catalog_db \<Rightarrow> catalog_db" where
  "with_models rows db = db\<lparr>cx_control := (cx_control db)\<lparr>cd_source_models := rows\<rparr>\<rparr>"

record source_model_refresh =
  rf_source_id :: string
  rf_upstream_model_id :: string
  rf_raw_snapshot :: json
  rf_upstream_metadata :: metadata_values
  rf_matched_preset :: "(string \<times> i32) option"
  rf_preset_metadata :: "metadata_values option"
  rf_discovered_at :: int

record discovery_apply_input =
  da_source_id :: string
  da_account_id :: "string option"
  da_raw_snapshot :: json
  da_models :: "source_model_refresh list"
  da_http_status :: int
  da_latency_ms :: int
  da_requested_by :: string
  da_started_at :: int
  da_completed_at :: int

record discovery_failure_input =
  df_source_id :: string
  df_account_id :: "string option"
  df_status :: string
  df_http_status :: "int option"
  df_latency_ms :: int
  df_error_code :: string
  df_error_message :: string
  df_requested_by :: string
  df_started_at :: int
  df_completed_at :: int

record source_model_confirmation =
  co_upstream_model_id :: string
  co_user_overrides :: metadata_values

section \<open>Refreshing one model\<close>

definition row_metadata :: "source_model_row \<Rightarrow> (catalog_metadata, repository_error) result" where
  "row_metadata r = metadata_from_json (sm_metadata r) (sm_field_sources r)"

definition set_row_metadata :: "catalog_metadata \<Rightarrow> source_model_row \<Rightarrow> source_model_row" where
  "set_row_metadata m r = (let (values, sources) = metadata_to_json m in r\<lparr>sm_metadata := values, sm_field_sources := sources\<rparr>)"

definition find_model :: "string \<Rightarrow> string \<Rightarrow> source_model_row list \<Rightarrow> source_model_row option" where
  "find_model source_id upstream_model_id = find (\<lambda>r. source_model_key r = (source_id, upstream_model_id))"

definition update_model :: "string \<Rightarrow> string \<Rightarrow> (source_model_row \<Rightarrow> source_model_row) \<Rightarrow> source_model_row list \<Rightarrow> source_model_row list" where
  "update_model source_id upstream_model_id = update_rows (\<lambda>r. source_model_key r = (source_id, upstream_model_id))"

definition model_not_found :: "string \<Rightarrow> string \<Rightarrow> repository_error" where
  "model_not_found source_id upstream_model_id = RepoNotFound (''source model '' @ source_id @ ''/'' @ upstream_model_id @ '' not found'')"

definition validate_source_model_refresh :: "source_model_refresh \<Rightarrow> (unit, repository_error) result" where
  "validate_source_model_refresh r =
     (if trim (rf_source_id r) = [] \<or> trim (rf_upstream_model_id r) = []
      then Err (RepoInvalidMetadata ''source and upstream model IDs cannot be empty'')
      else if json_as_object (rf_raw_snapshot r) = None then Err (RepoInvalidMetadata ''source model raw snapshot must be an object'')
      else if (rf_matched_preset r = None) \<noteq> (rf_preset_metadata r = None)
      then Err (RepoInvalidMetadata ''matched model preset reference and metadata must be provided together'')
      else and_then (map_err repository_error_of (metadata_validate (rf_upstream_metadata r))) (\<lambda>_.
             case rf_preset_metadata r of Some m \<Rightarrow> map_err repository_error_of (metadata_validate m) | None \<Rightarrow> Ok ()))"

definition new_model_row :: "int \<Rightarrow> source_model_refresh \<Rightarrow> source_model_row" where
  "new_model_row now r =
     \<lparr>sm_source_id = rf_source_id r, sm_upstream_model_id = rf_upstream_model_id r, sm_confirmation_status = CatalogStatus_Pending,
      sm_availability_status = CatalogAvailability_Available, sm_raw_snapshot = rf_raw_snapshot r, sm_metadata = JNull, sm_field_sources = JNull,
      sm_matched_model_preset = rf_matched_preset r, sm_first_discovered_at = rf_discovered_at r, sm_last_discovered_at = rf_discovered_at r,
      sm_confirmed_at = None, sm_unavailable_at = None, sm_created_at = now, sm_updated_at = now\<rparr>"

definition refreshed_row :: "int \<Rightarrow> source_model_refresh \<Rightarrow> catalog_metadata \<Rightarrow> source_model_row \<Rightarrow> source_model_row" where
  "refreshed_row now r m row =
     (set_row_metadata m row)\<lparr>sm_availability_status := CatalogAvailability_Available, sm_raw_snapshot := rf_raw_snapshot r,
        sm_matched_model_preset := (if sm_confirmation_status row = CatalogStatus_Confirmed then sm_matched_model_preset row else rf_matched_preset r),
        sm_last_discovered_at := rf_discovered_at r, sm_unavailable_at := None, sm_updated_at := now\<rparr>"

definition refresh_source_model_tx ::
  "int \<Rightarrow> source_model_refresh \<Rightarrow> source_model_row list \<Rightarrow> (source_model_row list \<times> source_model_row, repository_error) result" where
  "refresh_source_model_tx now r rows =
     and_then (validate_source_model_refresh r) (\<lambda>_.
     and_then (map_err repository_error_of (metadata_resolve (rf_upstream_metadata r) (rf_preset_metadata r))) (\<lambda>discovered.
       case find_model (rf_source_id r) (rf_upstream_model_id r) rows of
         None \<Rightarrow> let row = set_row_metadata discovered (new_model_row now r) in Ok (rows @ [row], row)
       | Some existing \<Rightarrow>
           and_then (row_metadata existing) (\<lambda>old.
           and_then (map_err repository_error_of (refreshed_preserving_user_fields old (sm_confirmation_status existing = CatalogStatus_Confirmed)
                       (rf_upstream_metadata r) (rf_preset_metadata r))) (\<lambda>m.
             Ok (update_model (rf_source_id r) (rf_upstream_model_id r) (refreshed_row now r m) rows, refreshed_row now r m existing)))))"

section \<open>Applying a discovery\<close>

definition diff_entry :: "string \<Rightarrow> string list \<Rightarrow> discovery_diff_entry" where
  "diff_entry i changed = \<lparr>de_upstream_model_id = i, de_changed_fields = changed\<rparr>"

definition changed_source_model_fields :: "source_model_row \<Rightarrow> source_model_row \<Rightarrow> string list" where
  "changed_source_model_fields before after =
     (if sm_raw_snapshot before \<noteq> sm_raw_snapshot after then [''raw_snapshot''] else []) @
     (if sm_metadata before \<noteq> sm_metadata after then [''metadata''] else []) @
     (if sm_field_sources before \<noteq> sm_field_sources after then [''field_sources''] else []) @
     (if sm_matched_model_preset before \<noteq> sm_matched_model_preset after then [''matched_model_preset''] else []) @
     (if sm_availability_status before \<noteq> sm_availability_status after then [''availability_status''] else [])"

text \<open>What the loops of \<open>apply_discovery\<close> carry.\<close>

record discovery_work =
  dw_rows :: "source_model_row list"
  dw_before :: "(string, source_model_row) bmap"
  dw_diff :: discovery_diff
  dw_records :: "source_model_row list"

definition diff_refresh :: "source_model_row option \<Rightarrow> source_model_row \<Rightarrow> discovery_diff \<Rightarrow> discovery_diff" where
  "diff_refresh previous current diff =
     (case previous of
        None \<Rightarrow> diff\<lparr>dd_added := dd_added diff @ [diff_entry (sm_upstream_model_id current) [''source_model'']]\<rparr>
      | Some previous \<Rightarrow>
          let changed = changed_source_model_fields previous current
          in if changed = [] then diff else diff\<lparr>dd_changed := dd_changed diff @ [diff_entry (sm_upstream_model_id current) changed]\<rparr>)"

fun refresh_models :: "int \<Rightarrow> source_model_refresh list \<Rightarrow> discovery_work \<Rightarrow> (discovery_work, repository_error) result" where
  "refresh_models now [] w = Ok w"
| "refresh_models now (r # rs) w =
     and_then (refresh_source_model_tx now r (dw_rows w)) (\<lambda>(rows, current).
       refresh_models now rs
         \<lparr>dw_rows = rows, dw_before = filter (\<lambda>b. fst b \<noteq> rf_upstream_model_id r) (dw_before w),
          dw_diff = diff_refresh (map_of (dw_before w) (rf_upstream_model_id r)) current (dw_diff w), dw_records = dw_records w @ [current]\<rparr>)"

definition unavailable_row :: "int \<Rightarrow> int \<Rightarrow> source_model_row \<Rightarrow> source_model_row" where
  "unavailable_row now at row = row\<lparr>sm_availability_status := CatalogAvailability_Unavailable, sm_unavailable_at := Some at, sm_updated_at := now\<rparr>"

definition mark_missing :: "int \<Rightarrow> int \<Rightarrow> string \<times> source_model_row \<Rightarrow> discovery_work \<Rightarrow> discovery_work" where
  "mark_missing now at = (\<lambda>(_, previous) w.
     if sm_availability_status previous = CatalogAvailability_Unavailable then w
     else w\<lparr>dw_rows := update_model (sm_source_id previous) (sm_upstream_model_id previous) (unavailable_row now at) (dw_rows w),
            dw_diff := (dw_diff w)\<lparr>dd_missing := dd_missing (dw_diff w) @ [diff_entry (sm_upstream_model_id previous) [''availability_status'']]\<rparr>,
            dw_records := dw_records w @ [unavailable_row now at previous]\<rparr>)"

definition sort_entries :: "discovery_diff_entry list \<Rightarrow> discovery_diff_entry list" where
  "sort_entries es = map (\<lambda>e. e\<lparr>de_changed_fields := sort (de_changed_fields e)\<rparr>) (sort_key de_upstream_model_id es)"

definition sort_discovery_diff :: "discovery_diff \<Rightarrow> discovery_diff" where
  "sort_discovery_diff d =
     \<lparr>dd_added = sort_entries (dd_added d), dd_changed = sort_entries (dd_changed d), dd_missing = sort_entries (dd_missing d)\<rparr>"

definition source_not_found :: "string \<Rightarrow> repository_error" where
  "source_not_found i = RepoNotFound (''source '' @ i @ '' not found'')"

definition get_source :: "string \<Rightarrow> catalog_db \<Rightarrow> (source_row, repository_error) result" where
  "get_source i db = ok_or (source_not_found i) (find (\<lambda>s. so_id s = i) (cd_sources (cx_control db)))"

text \<open>\<open>validate_account_for_source\<close>, and \<open>get_account_credential_ref\<close>: the enabled account of a source.\<close>

definition enabled_account :: "string \<Rightarrow> string \<Rightarrow> catalog_db \<Rightarrow> (account_row, repository_error) result" where
  "enabled_account source_id account_id db =
     ok_or (RepoNotFound (''enabled account '' @ account_id @ '' for source '' @ source_id @ '' not found''))
       (find (\<lambda>a. ar_id a = account_id \<and> ar_source_id a = source_id \<and> ar_enabled a) (cd_accounts (cx_control db)))"

definition check_account :: "string \<Rightarrow> string option \<Rightarrow> catalog_db \<Rightarrow> (unit, repository_error) result" where
  "check_account source_id account_id db =
     (case account_id of None \<Rightarrow> Ok () | Some a \<Rightarrow> and_then (enabled_account source_id a db) (\<lambda>_. Ok ()))"

definition adjacent_equal :: "string list \<Rightarrow> bool" where
  "adjacent_equal xs = list_ex (\<lambda>(x, y). x = y) (zip xs (tl xs))"

definition validate_discovery :: "discovery_apply_input \<Rightarrow> (source_model_refresh list, repository_error) result" where
  "validate_discovery input =
     (if da_http_status input < 200 \<or> 299 < da_http_status input
      then Err (RepoInvalidState ''successful discovery requires a 2xx HTTP status'')
      else if da_latency_ms input < 0 \<or> da_completed_at input < da_started_at input
      then Err (RepoInvalidState ''discovery timing metadata is invalid'')
      else if json_is_null (da_raw_snapshot input) then Err (RepoInvalidMetadata ''discovery raw snapshot cannot be null'')
      else
        let discovered = sort_key rf_upstream_model_id (da_models input) in
        if adjacent_equal (map rf_upstream_model_id discovered)
        then Err (RepoInvalidMetadata ''discovery result contains duplicate model IDs'')
        else and_then (for_each (\<lambda>r. and_then (validate_source_model_refresh r) (\<lambda>_.
               if rf_source_id r \<noteq> da_source_id input
               then Err (RepoInvalidState ''discovery models must belong to the requested source'') else Ok ())) discovered) (\<lambda>_. Ok discovered))"

record discovery_result =
  ds_run :: discovery_run_row
  ds_diff :: discovery_diff
  ds_models :: "source_model_row list"

definition next_id :: "discovery_run_row list \<Rightarrow> int" where
  "next_id rows = foldl max 0 (map dr_id rows) + 1"

definition models_before :: "string \<Rightarrow> source_model_row list \<Rightarrow> (string, source_model_row) bmap" where
  "models_before source_id rows =
     foldl (\<lambda>m r. binsert (sm_upstream_model_id r) r m) [] (filter (\<lambda>r. sm_source_id r = source_id) rows)"

definition reconcile_models ::
  "int \<Rightarrow> int \<Rightarrow> string \<Rightarrow> source_model_refresh list \<Rightarrow> source_model_row list \<Rightarrow> (discovery_work, repository_error) result" where
  "reconcile_models now at source_id discovered rows =
     and_then (refresh_models now discovered \<lparr>dw_rows = rows, dw_before = models_before source_id rows, dw_diff = empty_diff, dw_records = []\<rparr>) (\<lambda>w.
       Ok (fold (mark_missing now at) (dw_before w) w))"

definition discovery_transaction :: "int \<Rightarrow> discovery_apply_input \<Rightarrow> catalog_db \<Rightarrow> (catalog_db \<times> discovery_result, repository_error) result" where
  "discovery_transaction now input db =
     and_then (validate_discovery input) (\<lambda>discovered.
     and_then (get_source (da_source_id input) db) (\<lambda>source.
     and_then (check_account (da_source_id input) (da_account_id input) db) (\<lambda>_.
     and_then (reconcile_models now (da_completed_at input) (da_source_id input) discovered (cx_models db)) (\<lambda>w.
       if 2 ^ 31 \<le> length (da_models input) then Err (RepoInvalidState ''discovery result contains too many models'')
       else
         let diff = sort_discovery_diff (dw_diff w);
             run = \<lparr>dr_id = next_id (cx_discovery_runs db), dr_source_id = da_source_id input, dr_account_id = da_account_id input,
               dr_provider_preset = (so_provider_preset_id source, so_provider_preset_version source), dr_status = ''succeeded'',
               dr_raw_snapshot = Some (da_raw_snapshot input), dr_diff = diff, dr_discovered_model_count = int (length (da_models input)),
               dr_http_status = Some (da_http_status input), dr_latency_ms = da_latency_ms input, dr_error = None,
               dr_requested_by = da_requested_by input, dr_started_at = da_started_at input, dr_completed_at = da_completed_at input\<rparr>
         in Ok ((with_models (dw_rows w) db)\<lparr>cx_discovery_runs := cx_discovery_runs db @ [run]\<rparr>,
                \<lparr>ds_run = run, ds_diff = diff, ds_models = sort_key sm_upstream_model_id (dw_records w)\<rparr>)))))"

text \<open>A transaction whose commit may fail, before or after it takes effect.\<close>

definition catalog_commit :: "db_fault \<Rightarrow> catalog_db \<Rightarrow> (catalog_db \<times> 'a, repository_error) result \<Rightarrow> catalog_db \<times> ('a, repository_error) result" where
  "catalog_commit fault db r =
     (case r of
        Inl e \<Rightarrow> (db, Err e)
      | Inr (db', x) \<Rightarrow> (case fault of NoFault \<Rightarrow> (db', Ok x) | FaultBeforeCommit \<Rightarrow> (db, Err RepoDatabase) | FaultAfterCommit \<Rightarrow> (db', Err RepoDatabase)))"

definition apply_discovery :: "db_fault \<Rightarrow> int \<Rightarrow> discovery_apply_input \<Rightarrow> catalog_db \<Rightarrow> catalog_db \<times> (discovery_result, repository_error) result" where
  "apply_discovery fault now input db = catalog_commit fault db (discovery_transaction now input db)"

definition record_discovery_failure ::
  "db_fault \<Rightarrow> discovery_failure_input \<Rightarrow> catalog_db \<Rightarrow> catalog_db \<times> (discovery_run_row, repository_error) result" where
  "record_discovery_failure fault input db =
     catalog_commit fault db
       (if df_status input \<notin> {''failed'', ''unsupported''} \<or> trim (df_error_code input) = [] \<or> trim (df_error_message input) = [] \<or>
           df_latency_ms input < 0 \<or> df_completed_at input < df_started_at input
        then Err (RepoInvalidState ''invalid discovery failure audit record'')
        else and_then (get_source (df_source_id input) db) (\<lambda>source.
             and_then (check_account (df_source_id input) (df_account_id input) db) (\<lambda>_.
               let run = \<lparr>dr_id = next_id (cx_discovery_runs db), dr_source_id = df_source_id input, dr_account_id = df_account_id input,
                     dr_provider_preset = (so_provider_preset_id source, so_provider_preset_version source), dr_status = df_status input,
                     dr_raw_snapshot = None, dr_diff = empty_diff, dr_discovered_model_count = 0, dr_http_status = df_http_status input,
                     dr_latency_ms = df_latency_ms input, dr_error = Some (df_error_code input, df_error_message input),
                     dr_requested_by = df_requested_by input, dr_started_at = df_started_at input, dr_completed_at = df_completed_at input\<rparr>
               in Ok (db\<lparr>cx_discovery_runs := cx_discovery_runs db @ [run]\<rparr>, run))))"

definition record_connection_test ::
  "db_fault \<Rightarrow> connection_test_row \<Rightarrow> catalog_db \<Rightarrow> catalog_db \<times> (connection_test_row, repository_error) result" where
  "record_connection_test fault input db =
     catalog_commit fault db
       (if ct_status input \<notin> {''succeeded'', ''failed''} \<or> ct_latency_ms input < 0 \<or>
           (ct_status input = ''succeeded'' \<and>
             (\<not> (case ct_http_status input of None \<Rightarrow> False | Some s \<Rightarrow> 200 \<le> s \<and> s < 300) \<or> ct_error_code input \<noteq> None \<or> ct_error_message input \<noteq> None)) \<or>
           (ct_status input = ''failed'' \<and> (ct_error_code input \<in> {None, Some []} \<or> ct_error_message input \<in> {None, Some []}))
        then Err (RepoInvalidState ''invalid connection test audit record'')
        else and_then (get_source (ct_source_id input) db) (\<lambda>_.
             and_then (check_account (ct_source_id input) (ct_account_id input) db) (\<lambda>_.
               Ok (db\<lparr>cx_connection_tests := cx_connection_tests db @ [input]\<rparr>, input))))"

section \<open>Confirming and overriding\<close>

definition override_metadata :: "metadata_values \<Rightarrow> source_model_row \<Rightarrow> (catalog_metadata, repository_error) result" where
  "override_metadata overrides row =
     and_then (row_metadata row) (\<lambda>m. map_err repository_error_of (apply_user_overrides overrides m))"

definition update_source_model_user_overrides ::
  "db_fault \<Rightarrow> int \<Rightarrow> string \<Rightarrow> string \<Rightarrow> metadata_values \<Rightarrow> catalog_db \<Rightarrow> catalog_db \<times> (source_model_row, repository_error) result" where
  "update_source_model_user_overrides fault now source_id upstream_model_id overrides db =
     catalog_commit fault db
       (and_then (ok_or (model_not_found source_id upstream_model_id) (find_model source_id upstream_model_id (cx_models db))) (\<lambda>existing.
        and_then (override_metadata overrides existing) (\<lambda>m.
          let f = (\<lambda>r. (set_row_metadata m r)\<lparr>sm_updated_at := now\<rparr>)
          in Ok (with_models (update_model source_id upstream_model_id f (cx_models db)) db, f existing))))"

definition confirmed_row :: "int \<Rightarrow> catalog_metadata \<Rightarrow> source_model_row \<Rightarrow> source_model_row" where
  "confirmed_row now m r = (set_row_metadata m r)\<lparr>sm_confirmation_status := CatalogStatus_Confirmed,
     sm_confirmed_at := Some (unwrap_or now (sm_confirmed_at r)), sm_updated_at := now\<rparr>"

fun confirm_models ::
  "int \<Rightarrow> string \<Rightarrow> source_model_confirmation list \<Rightarrow> source_model_row list \<Rightarrow> (source_model_row list \<times> source_model_row list, repository_error) result" where
  "confirm_models now source_id [] rows = Ok (rows, [])"
| "confirm_models now source_id (c # cs) rows =
     and_then (ok_or (model_not_found source_id (co_upstream_model_id c)) (find_model source_id (co_upstream_model_id c) rows)) (\<lambda>existing.
       if sm_availability_status existing \<noteq> CatalogAvailability_Available
       then Err (RepoInvalidState (''only an available source model can be confirmed: '' @ co_upstream_model_id c))
       else and_then (override_metadata (co_user_overrides c) existing) (\<lambda>m.
            and_then (confirm_models now source_id cs (update_model source_id (co_upstream_model_id c) (confirmed_row now m) rows)) (\<lambda>(rows, records).
              Ok (rows, confirmed_row now m existing # records))))"

definition confirm_source_models ::
  "db_fault \<Rightarrow> int \<Rightarrow> string \<Rightarrow> source_model_confirmation list \<Rightarrow> catalog_db \<Rightarrow> catalog_db \<times> (source_model_row list, repository_error) result" where
  "confirm_source_models fault now source_id confirmations db =
     catalog_commit fault db
       (if confirmations = [] then Err (RepoInvalidState ''at least one source model confirmation is required'')
        else
          let ordered = sort_key co_upstream_model_id confirmations in
          if adjacent_equal (map co_upstream_model_id ordered) then Err (RepoInvalidState ''source model confirmation IDs must be unique'')
          else and_then (confirm_models now source_id ordered (cx_models db)) (\<lambda>(rows, records). Ok (with_models rows db, records)))"

section \<open>Presets\<close>

definition insert_provider_preset ::
  "string \<Rightarrow> provider_preset_row \<Rightarrow> catalog_db \<Rightarrow> catalog_db \<times> (string \<times> provider_preset_row, repository_error) result" where
  "insert_provider_preset display_name input db =
     (if pp_version input \<le>s 0 \<or> json_as_object (pp_definition input) = None
      then (db, Err (RepoInvalidState ''provider preset version must be positive and definition must be an object''))
      else
        case find (\<lambda>(_, p). pp_id p = pp_id input \<and> pp_version p = pp_version input) (cx_provider_presets db) of
          None \<Rightarrow> (db\<lparr>cx_provider_presets := cx_provider_presets db @ [(display_name, input)]\<rparr>, Ok (display_name, input))
        | Some (name, p) \<Rightarrow>
            (db, if name \<noteq> display_name \<or> pp_definition p \<noteq> pp_definition input
                 then Err (RepoImmutableVersionConflict (''provider preset '' @ pp_id input @ '' version '' @ show_int (sint (pp_version input)) @
                        '' already exists with different content''))
                 else Ok (name, p)))"

definition insert_model_preset ::
  "string \<Rightarrow> i32 \<Rightarrow> string \<Rightarrow> string list \<Rightarrow> catalog_metadata \<Rightarrow> catalog_db \<Rightarrow> catalog_db \<times> (model_preset_row, repository_error) result" where
  "insert_model_preset i version canonical aliases m db =
     (if version \<le>s 0 then (db, Err (RepoInvalidState ''model preset version must be positive''))
      else if list_ex (\<lambda>(_, s). s \<notin> {MetadataSource_Preset, MetadataSource_Unknown}) (cm_field_sources m)
      then (db, Err (RepoInvalidMetadata ''model preset fields may only use preset or unknown sources''))
      else
        let (values, sources) = metadata_to_json m;
            row = \<lparr>mp_id = i, mp_version = version, mp_canonical_model_id = canonical, mp_aliases = JArray (map JString aliases),
              mp_metadata = values, mp_field_sources = sources\<rparr>
        in case find (\<lambda>p. mp_id p = i \<and> mp_version p = version) (cx_model_presets db) of
             None \<Rightarrow> (db\<lparr>cx_model_presets := cx_model_presets db @ [row]\<rparr>, Ok row)
           | Some p \<Rightarrow>
               (db, if p \<noteq> row then Err (RepoImmutableVersionConflict (''model preset '' @ i @ '' version '' @ show_int (sint version) @
                      '' already exists with different content'')) else Ok p))"

text \<open>The \<open>?\<close> operator of \<open>jsonb\<close>: a string that is an element of an array or a key of an object.\<close>

fun jsonb_has :: "json \<Rightarrow> string \<Rightarrow> bool" where
  "jsonb_has (JArray vs) s \<longleftrightarrow> JString s \<in> set vs"
| "jsonb_has (JObject kvs) s \<longleftrightarrow> s \<in> fst ` set kvs"
| "jsonb_has v s \<longleftrightarrow> v = JString s"

text \<open>\<open>ORDER BY version DESC,id LIMIT 1\<close>; \<open>le\<close> is the text order of the database.\<close>

definition match_model_preset :: "(string \<Rightarrow> string \<Rightarrow> bool) \<Rightarrow> string \<Rightarrow> catalog_db \<Rightarrow> model_preset_row option" where
  "match_model_preset le upstream_model_id db =
     (case sort_by (\<lambda>p q. sint (mp_version q) < sint (mp_version p) \<or> mp_version p = mp_version q \<and> le (mp_id p) (mp_id q))
             (filter (\<lambda>p. mp_canonical_model_id p = upstream_model_id \<or> jsonb_has (mp_aliases p) upstream_model_id) (cx_model_presets db)) of
        [] \<Rightarrow> None
      | p # _ \<Rightarrow> Some p)"

section \<open>Changes of a preset\<close>

datatype preset_diff_kind = PresetDiff_Added | PresetDiff_Changed | PresetDiff_Missing

record preset_diff_entry =
  pd_path :: string
  pd_kind :: preset_diff_kind
  pd_before :: "json option"
  pd_after :: "json option"

function diff_json :: "string \<Rightarrow> json option \<Rightarrow> json option \<Rightarrow> preset_diff_entry list" where
  "diff_json path before after =
     (case (before, after) of
        (Some (JObject b), Some (JObject a)) \<Rightarrow>
          concat (map (\<lambda>k. diff_json (path @ ''.'' @ k) (map_of b k) (map_of a k)) (sort (remdups (map fst b @ map fst a))))
      | (Some b, Some a) \<Rightarrow> if b = a then [] else [\<lparr>pd_path = path, pd_kind = PresetDiff_Changed, pd_before = before, pd_after = after\<rparr>]
      | (None, Some a) \<Rightarrow> [\<lparr>pd_path = path, pd_kind = PresetDiff_Added, pd_before = None, pd_after = after\<rparr>]
      | (Some b, None) \<Rightarrow> [\<lparr>pd_path = path, pd_kind = PresetDiff_Missing, pd_before = before, pd_after = None\<rparr>]
      | (None, None) \<Rightarrow> [])"
  by pat_completeness auto

text \<open>A member is smaller than its object.\<close>

definition member_size :: "json option \<Rightarrow> nat" where
  "member_size v = (case v of None \<Rightarrow> 0 | Some j \<Rightarrow> Suc (size j))"

lemma member_size_less: "member_size (map_of kvs k) < member_size (Some (JObject kvs))"
proof (cases "map_of kvs k")
  case (Some v)
  then have "(k, v) \<in> set kvs" by (rule map_of_SomeD)
  then have "size v < size (JObject kvs)" by (induction kvs) auto
  with Some show ?thesis by (simp add: member_size_def)
qed (simp add: member_size_def)

termination diff_json
  by (relation "measure (\<lambda>(_, b, a). member_size b + member_size a)") (auto intro: add_strict_mono member_size_less)

declare diff_json.simps [simp del]

definition provider_preset_diff :: "json \<Rightarrow> json \<Rightarrow> preset_diff_entry list" where
  "provider_preset_diff snapshot definition_of_latest = sort_key pd_path (diff_json ''$'' (Some snapshot) (Some definition_of_latest))"

section \<open>Metadata is read back\<close>

lemma bmap_ext:
  assumes "bmap_ok m" "bmap_ok n" "map_of m = map_of n"
  shows "m = n"
proof -
  have d: "distinct (map fst m)" "distinct (map fst n)" using assms(1,2) by (simp_all add: bmap_ok_distinct)
  then have set: "set m = set n" using assms(3) by (metis map_of_inject_set)
  have s: "sorted (map fst m)" "sorted (map fst n)" using assms(1,2) by (simp_all add: bmap_ok_def strict_sorted_imp_sorted)
  have "inj_on fst (set m \<union> set n)" using d(1) set by (simp add: distinct_map)
  from map_sorted_distinct_set_unique [OF this s(1) d(1) s(2) d(2) set] show ?thesis .
qed

lemma field_of_name [simp]: "metadata_field_of_name (metadata_field_name f) = Some f"
  by (cases f) (simp_all add: metadata_field_of_name_def metadata_field_ALL_def)

lemma field_name_inj: "metadata_field_name f = metadata_field_name g \<Longrightarrow> f = g"
  by (metis field_of_name option.inject)

lemma name_of_field: "metadata_field_of_name k = Some f \<Longrightarrow> metadata_field_name f = k"
  by (auto simp: metadata_field_of_name_def find_Some_iff)

lemma source_of_json [simp]: "metadata_source_of_json (JString (metadata_source_to_string s)) = Some s"
  by (cases s) (simp_all add: metadata_source_of_json_def metadata_source_from_str_def)

text \<open>Decoding reads back what was encoded, in whatever order the object holds it.\<close>

lemma decode_fields_spec:
  assumes "bmap_ok m" "distinct (map fst kvs)" "\<And>k v. (k, v) \<in> set kvs \<Longrightarrow> \<exists>f x. k = metadata_field_name f \<and> decode v = Some x"
  shows "\<exists>m'. decode_fields decode kvs m = Some m' \<and> bmap_ok m' \<and>
    (\<forall>f. map_of m' f = (case map_of kvs (metadata_field_name f) of None \<Rightarrow> map_of m f | Some v \<Rightarrow> decode v))"
  using assms
proof (induction kvs arbitrary: m)
  case (Cons kv kvs)
  obtain k v where kv: "kv = (k, v)" by fastforce
  from Cons.prems(3) [of k v] kv obtain g x where g: "k = metadata_field_name g" "decode v = Some x" by auto
  have "map_of kvs k = None" using Cons.prems(2) kv by (simp add: map_of_eq_None_iff)
  from Cons.IH [of "binsert g x m"] Cons.prems obtain m' where m': "decode_fields decode kvs (binsert g x m) = Some m'" "bmap_ok m'"
    "\<forall>f. map_of m' f = (case map_of kvs (metadata_field_name f) of None \<Rightarrow> map_of (binsert g x m) f | Some v \<Rightarrow> decode v)"
    by auto
  have "map_of m' f = (case map_of (kv # kvs) (metadata_field_name f) of None \<Rightarrow> map_of m f | Some v \<Rightarrow> decode v)" for f
    using m'(3) \<open>map_of kvs k = None\<close> g kv by (cases "f = g") (auto dest: field_name_inj split: option.split)
  with m' g kv show ?case by simp
qed simp

lemma insert_all:
  assumes "distinct (map fst kvs)" "bmap_ok m"
  shows "bmap_ok (foldl (\<lambda>m (k, v). binsert k v m) m kvs)"
    "map_of (foldl (\<lambda>m (k, v). binsert k v m) m kvs) k = (case map_of kvs k of None \<Rightarrow> map_of m k | Some v \<Rightarrow> Some v)"
proof -
  have "bmap_ok (foldl (\<lambda>m (k, v). binsert k v m) m kvs) \<and>
      map_of (foldl (\<lambda>m (k, v). binsert k v m) m kvs) k = (case map_of kvs k of None \<Rightarrow> map_of m k | Some v \<Rightarrow> Some v)"
    using assms
  proof (induction kvs arbitrary: m)
    case (Cons kv kvs)
    obtain a b where kv: "kv = (a, b)" by fastforce
    then have "map_of kvs a = None" using Cons.prems(1) by (simp add: map_of_eq_None_iff)
    with Cons.IH [of "binsert a b m"] Cons.prems kv show ?case by (cases "k = a") (simp_all split: option.splits)
  qed simp
  then show "bmap_ok (foldl (\<lambda>m (k, v). binsert k v m) m kvs)"
    "map_of (foldl (\<lambda>m (k, v). binsert k v m) m kvs) k = (case map_of kvs k of None \<Rightarrow> map_of m k | Some v \<Rightarrow> Some v)" by blast+
qed

lemma decode_fields_encoded:
  assumes "bmap_ok m" "\<And>f x. (f, x) \<in> set m \<Longrightarrow> decode (encode x) = Some x"
  shows "Option.bind (json_as_object (json_object (map (\<lambda>(f, x). (metadata_field_name f, encode x)) m))) (\<lambda>kvs. decode_fields decode kvs []) = Some m"
proof -
  define kvs where "kvs = map (\<lambda>(f, x). (metadata_field_name f, encode x)) m"
  define sorted where "sorted = foldl (\<lambda>m (k, v). binsert k v m) [] kvs"
  have dm: "distinct (map fst m)" using assms(1) by (rule bmap_ok_distinct)
  have "map fst kvs = map metadata_field_name (map fst m)" by (simp add: kvs_def case_prod_unfold)
  moreover have "inj_on metadata_field_name (set (map fst m))" by (auto intro: inj_onI field_name_inj)
  ultimately have dk: "distinct (map fst kvs)" using dm by (metis distinct_map)
  note s = insert_all [OF dk bmap_ok_Nil, folded sorted_def]
  have of: "map_of kvs (metadata_field_name f) = map_option encode (map_of m f)" for f
    unfolding kvs_def by (induction m) (auto dest: field_name_inj)
  have "\<exists>f x. k = metadata_field_name f \<and> decode v = Some x" if "(k, v) \<in> set sorted" for k v
  proof -
    from that s(1) have "map_of sorted k = Some v" by (simp add: bmap_ok_distinct)
    with s(2) have "(k, v) \<in> set kvs" by (auto split: option.splits intro: map_of_SomeD)
    with assms(2) show ?thesis by (auto simp: kvs_def)
  qed
  from decode_fields_spec [where decode = decode, OF bmap_ok_Nil bmap_ok_distinct [OF s(1)] this] obtain m' where m': "decode_fields decode sorted [] = Some m'" "bmap_ok m'"
    "\<forall>f. map_of m' f = (case map_of sorted (metadata_field_name f) of None \<Rightarrow> map_of [] f | Some v \<Rightarrow> decode v)" by blast
  have "map_of m' f = map_of m f" for f
    using m'(3) s(2) of assms(2) by (cases "map_of m f") (auto dest!: map_of_SomeD)
  then have "m' = m" using bmap_ext [OF m'(2) assms(1)] by blast
  with m'(1) show ?thesis by (simp add: json_object_def sorted_def kvs_def)
qed

definition metadata_ok :: "catalog_metadata \<Rightarrow> bool" where
  "metadata_ok m \<longleftrightarrow> bmap_ok (cm_values m) \<and> bmap_ok (cm_field_sources m) \<and> metadata_validate (cm_values m) = Ok ()"

lemma metadata_json_roundtrip:
  assumes "metadata_ok m"
  shows "metadata_from_json (fst (metadata_to_json m)) (snd (metadata_to_json m)) = Ok m"
proof -
  have "Option.bind (json_as_object (fst (metadata_to_json m))) (\<lambda>kvs. decode_fields Some kvs []) = Some (cm_values m)"
    using decode_fields_encoded [of "cm_values m" Some "\<lambda>v. v"] assms by (simp add: metadata_ok_def metadata_to_json_def)
  moreover have "Option.bind (json_as_object (snd (metadata_to_json m))) (\<lambda>kvs. decode_fields metadata_source_of_json kvs []) = Some (cm_field_sources m)"
    using decode_fields_encoded [of "cm_field_sources m" metadata_source_of_json "\<lambda>s. JString (metadata_source_to_string s)"] assms
    by (simp add: metadata_ok_def metadata_to_json_def)
  ultimately show ?thesis using assms by (simp add: metadata_from_json_def metadata_ok_def)
qed

lemma set_row_metadata_read [simp]: "metadata_ok m \<Longrightarrow> row_metadata (set_row_metadata m r) = Ok m"
  using metadata_json_roundtrip [of m] by (simp add: row_metadata_def set_row_metadata_def case_prod_unfold Let_def)

definition values_valid :: "metadata_values \<Rightarrow> bool" where
  "values_valid vs \<longleftrightarrow> (\<forall>p \<in> set vs. metadata_value_valid (fst p) (snd p))"

lemma metadata_validate_iff: "metadata_validate vs = Ok () \<longleftrightarrow> values_valid vs"
  by (auto simp: metadata_validate_def for_each_ok values_valid_def split: if_splits)

lemma metadata_ok_iff: "metadata_ok m \<longleftrightarrow> bmap_ok (cm_values m) \<and> bmap_ok (cm_field_sources m) \<and> values_valid (cm_values m)"
  by (simp add: metadata_ok_def metadata_validate_iff)

lemma values_valid_insert: "values_valid vs \<Longrightarrow> bmap_ok vs \<Longrightarrow> metadata_value_valid f v \<Longrightarrow> values_valid (binsert f v vs)"
  by (auto simp: values_valid_def binsert_set)

lemma values_valid_get: "values_valid vs \<Longrightarrow> map_of vs f = Some v \<Longrightarrow> metadata_value_valid f v"
  unfolding values_valid_def by (metis fst_conv map_of_SomeD snd_conv)

lemma metadata_ok_unknown: "metadata_ok metadata_unknown"
proof -
  have "metadata_value_valid f (unknown_value f)" for f
    by (cases f) (simp_all add: metadata_value_valid_def unknown_value_def is_feature_def)
  then show ?thesis
    by (simp add: metadata_ok_iff values_valid_def metadata_unknown_def bmap_ok_def metadata_field_ALL_def less_metadata_field_def)
qed

lemma metadata_ok_apply: "metadata_ok m \<Longrightarrow> values_valid vs \<Longrightarrow> metadata_ok (apply_values vs source m)"
proof (induction vs arbitrary: m)
  case (Cons p vs)
  then have "metadata_ok (apply_value source p m)"
    by (auto simp: metadata_ok_iff apply_value_def Let_def values_valid_insert values_valid_def [of "p # vs"] split: prod.split)
  with Cons show ?case by (simp add: apply_values_def values_valid_def)
qed (simp add: apply_values_def)

lemma metadata_ok_resolve: "metadata_resolve upstream preset = Ok m \<Longrightarrow> metadata_ok m"
  by (auto simp: metadata_resolve_def and_then_Ok Let_def metadata_validate_iff metadata_ok_unknown metadata_ok_apply split: option.splits)

lemma metadata_ok_keep:
  assumes "metadata_ok old" "metadata_ok m"
  shows "metadata_ok (foldl (\<lambda>m f. keep_user_field old f m) m fs)"
  using assms(2)
proof (induction fs arbitrary: m)
  case (Cons f fs)
  have "metadata_ok (keep_user_field old f m)"
    using assms(1) Cons.prems
    by (auto simp: keep_user_field_def metadata_ok_iff intro: values_valid_insert values_valid_get split: option.split)
  with Cons.IH show ?case by simp
qed simp

lemma metadata_ok_refresh:
  "metadata_ok old \<Longrightarrow> refreshed_preserving_user_fields old confirmed upstream preset = Ok m \<Longrightarrow> metadata_ok m"
  by (auto simp: refreshed_preserving_user_fields_def and_then_Ok metadata_ok_keep metadata_ok_resolve split: if_splits)

lemma metadata_ok_override: "metadata_ok m \<Longrightarrow> apply_user_overrides user m = Ok m' \<Longrightarrow> metadata_ok m'"
  by (auto simp: apply_user_overrides_def and_then_Ok metadata_validate_iff metadata_ok_apply)

lemma decode_fields_ok: "decode_fields decode kvs m = Some m' \<Longrightarrow> bmap_ok m \<Longrightarrow> bmap_ok m'"
  by (induction decode kvs m rule: decode_fields.induct) (auto simp: bind_eq_Some_conv)

lemma metadata_from_json_ok: "metadata_from_json v s = Ok m \<Longrightarrow> metadata_ok m"
  by (auto simp: metadata_from_json_def metadata_ok_def and_then_Ok bind_eq_Some_conv dest: decode_fields_ok split: option.splits)

lemma row_metadata_ok: "row_metadata r = Ok m \<Longrightarrow> metadata_ok m"
  by (simp add: row_metadata_def metadata_from_json_ok)

section \<open>One refresh\<close>

lemma set_row_metadata_simps [simp]:
  "source_model_key (set_row_metadata m r) = source_model_key r" "sm_confirmation_status (set_row_metadata m r) = sm_confirmation_status r"
  "sm_upstream_model_id (set_row_metadata m r) = sm_upstream_model_id r" "sm_source_id (set_row_metadata m r) = sm_source_id r"
  "sm_confirmed_at (set_row_metadata m r) = sm_confirmed_at r" "sm_matched_model_preset (set_row_metadata m r) = sm_matched_model_preset r"
  "sm_availability_status (set_row_metadata m r) = sm_availability_status r" "sm_raw_snapshot (set_row_metadata m r) = sm_raw_snapshot r"
  "sm_metadata (set_row_metadata m r) = fst (metadata_to_json m)" "sm_field_sources (set_row_metadata m r) = snd (metadata_to_json m)"
  by (simp_all add: set_row_metadata_def source_model_key_def case_prod_unfold Let_def)

text \<open>The row a refresh writes, from the row there was.\<close>

definition refresh_result :: "int \<Rightarrow> source_model_refresh \<Rightarrow> source_model_row option \<Rightarrow> (source_model_row, repository_error) result" where
  "refresh_result now r previous =
     and_then (validate_source_model_refresh r) (\<lambda>_.
     and_then (map_err repository_error_of (metadata_resolve (rf_upstream_metadata r) (rf_preset_metadata r))) (\<lambda>discovered.
       case previous of
         None \<Rightarrow> Ok (set_row_metadata discovered (new_model_row now r))
       | Some existing \<Rightarrow>
           and_then (row_metadata existing) (\<lambda>old.
           and_then (map_err repository_error_of (refreshed_preserving_user_fields old (sm_confirmation_status existing = CatalogStatus_Confirmed)
                       (rf_upstream_metadata r) (rf_preset_metadata r))) (\<lambda>m. Ok (refreshed_row now r m existing)))))"

lemma find_model_SomeD: "find_model s i rows = Some row \<Longrightarrow> row \<in> set rows \<and> source_model_key row = (s, i)"
  by (auto simp: find_model_def find_Some_iff)

lemma find_model_append:
  "find_model s i (rows @ [row]) = (case find_model s i rows of Some r \<Rightarrow> Some r | None \<Rightarrow> if source_model_key row = (s, i) then Some row else None)"
  by (induction rows) (auto simp: find_model_def)

lemma find_model_update:
  assumes "\<And>r. source_model_key (f r) = source_model_key r"
  shows "find_model s i (update_model s' i' f rows) = (if s = s' \<and> i = i' then map_option f (find_model s i rows) else find_model s i rows)"
  using assms by (induction rows) (auto simp: find_model_def update_model_def update_rows_def)

lemma refreshed_row_key [simp]: "source_model_key (refreshed_row now r m row) = source_model_key row"
  by (simp add: refreshed_row_def source_model_key_def)

lemma unavailable_row_key [simp]: "source_model_key (unavailable_row now at row) = source_model_key row"
  by (simp add: unavailable_row_def source_model_key_def)

lemma keys_update_model:
  "(\<And>r. source_model_key (f r) = source_model_key r) \<Longrightarrow> map source_model_key (update_model s i f rows) = map source_model_key rows"
  by (simp add: update_model_def map_update_rows)

lemma find_model_None: "find_model s i rows = None \<longleftrightarrow> (s, i) \<notin> source_model_key ` set rows"
  by (simp add: find_model_def find_None_iff image_iff) metis

lemma new_row_key [simp]: "source_model_key (new_model_row now r) = (rf_source_id r, rf_upstream_model_id r)"
  by (simp add: new_model_row_def source_model_key_def)

lemma refresh_effect:
  assumes "refresh_source_model_tx now r rows = Ok (rows', cur)" "distinct (map source_model_key rows)"
  shows "refresh_result now r (find_model (rf_source_id r) (rf_upstream_model_id r) rows) = Ok cur"
    "find_model s i rows' = (if s = rf_source_id r \<and> i = rf_upstream_model_id r then Some cur else find_model s i rows)"
    "distinct (map source_model_key rows')"
proof -
  let ?found = "find_model (rf_source_id r) (rf_upstream_model_id r) rows"
  obtain discovered where d: "validate_source_model_refresh r = Ok ()" "metadata_resolve (rf_upstream_metadata r) (rf_preset_metadata r) = Ok discovered"
    using assms(1) by (auto simp: refresh_source_model_tx_def and_then_Ok)
  have "refresh_result now r ?found = Ok cur \<and>
    find_model s i rows' = (if s = rf_source_id r \<and> i = rf_upstream_model_id r then Some cur else find_model s i rows) \<and>
    distinct (map source_model_key rows')"
  proof (cases ?found)
    case None
    have new: "rows' = rows @ [cur]" "cur = set_row_metadata discovered (new_model_row now r)"
      using assms(1) by (auto simp: refresh_source_model_tx_def Let_def d None)
    then have key: "source_model_key cur = (rf_source_id r, rf_upstream_model_id r)" by simp
    have "refresh_result now r ?found = Ok cur" by (simp add: refresh_result_def d None new(2))
    moreover have "find_model s i rows' = (if s = rf_source_id r \<and> i = rf_upstream_model_id r then Some cur else find_model s i rows)"
      unfolding new(1) find_model_append key using None by (auto split: option.split)
    moreover have "distinct (map source_model_key rows')" using None assms(2) unfolding find_model_None by (simp add: new(1) key)
    ultimately show ?thesis by blast
  next
    case (Some existing)
    from assms(1) have "and_then (row_metadata existing) (\<lambda>old.
        and_then (map_err repository_error_of (refreshed_preserving_user_fields old (sm_confirmation_status existing = CatalogStatus_Confirmed)
           (rf_upstream_metadata r) (rf_preset_metadata r))) (\<lambda>m.
          Ok (update_model (rf_source_id r) (rf_upstream_model_id r) (refreshed_row now r m) rows, refreshed_row now r m existing))) = Ok (rows', cur)"
      by (simp add: refresh_source_model_tx_def d Some)
    then obtain old m where m: "row_metadata existing = Ok old"
      "refreshed_preserving_user_fields old (sm_confirmation_status existing = CatalogStatus_Confirmed) (rf_upstream_metadata r) (rf_preset_metadata r) = Ok m"
      "rows' = update_model (rf_source_id r) (rf_upstream_model_id r) (refreshed_row now r m) rows" "cur = refreshed_row now r m existing"
      unfolding and_then_Ok map_err_Ok by blast
    from m(1,2) have "refresh_result now r ?found = Ok cur" by (simp add: refresh_result_def d Some m(4))
    moreover have "find_model s i rows' = (if s = rf_source_id r \<and> i = rf_upstream_model_id r then Some cur else find_model s i rows)"
      using Some by (auto simp: m(3,4) find_model_update)
    ultimately show ?thesis using assms(2) by (simp add: m(3) keys_update_model)
  qed
  then show "refresh_result now r ?found = Ok cur"
    "find_model s i rows' = (if s = rf_source_id r \<and> i = rf_upstream_model_id r then Some cur else find_model s i rows)"
    "distinct (map source_model_key rows')" by blast+
qed

text \<open>What a refresh leaves of the row it found, and what the row says afterwards.\<close>

lemma refresh_result_row:
  assumes "refresh_result now r previous = Ok cur"
  shows "sm_availability_status cur = CatalogAvailability_Available" "sm_raw_snapshot cur = rf_raw_snapshot r"
    "sm_confirmation_status cur = (case previous of None \<Rightarrow> CatalogStatus_Pending | Some p \<Rightarrow> sm_confirmation_status p)"
    "sm_confirmed_at cur = Option.bind previous sm_confirmed_at"
    "previous = None \<Longrightarrow> sm_upstream_model_id cur = rf_upstream_model_id r"
    "previous = Some p \<Longrightarrow> source_model_key cur = source_model_key p"
proof -
  obtain discovered where d: "validate_source_model_refresh r = Ok ()" "metadata_resolve (rf_upstream_metadata r) (rf_preset_metadata r) = Ok discovered"
    using assms by (auto simp: refresh_result_def and_then_Ok)
  have "(previous = None \<and> cur = set_row_metadata discovered (new_model_row now r)) \<or>
      (\<exists>p m. previous = Some p \<and> cur = refreshed_row now r m p)"
    using assms by (cases previous) (auto simp: refresh_result_def d and_then_Ok)
  then show "sm_availability_status cur = CatalogAvailability_Available" "sm_raw_snapshot cur = rf_raw_snapshot r"
    "sm_confirmation_status cur = (case previous of None \<Rightarrow> CatalogStatus_Pending | Some p \<Rightarrow> sm_confirmation_status p)"
    "sm_confirmed_at cur = Option.bind previous sm_confirmed_at"
    "previous = None \<Longrightarrow> sm_upstream_model_id cur = rf_upstream_model_id r"
    "previous = Some p \<Longrightarrow> source_model_key cur = source_model_key p"
    by (auto simp: refreshed_row_def new_model_row_def source_model_key_def)
qed

section \<open>A whole discovery\<close>

text \<open>Entries of the report, as the loop appends them.\<close>

definition added_entries :: "string \<Rightarrow> source_model_refresh list \<Rightarrow> source_model_row list \<Rightarrow> discovery_diff_entry list" where
  "added_entries s rs rows =
     map (\<lambda>r. diff_entry (rf_upstream_model_id r) [''source_model'']) (filter (\<lambda>r. find_model s (rf_upstream_model_id r) rows = None) rs)"

definition quiet :: "string \<Rightarrow> source_model_row list \<Rightarrow> source_model_row list \<Rightarrow> source_model_refresh \<Rightarrow> bool" where
  "quiet s rows rows' r \<longleftrightarrow> (\<forall>p c. find_model s (rf_upstream_model_id r) rows = Some p \<longrightarrow> find_model s (rf_upstream_model_id r) rows' = Some c \<longrightarrow>
     changed_source_model_fields p c = [])"

definition models_of :: "source_model_refresh list \<Rightarrow> string set" where
  "models_of rs = rf_upstream_model_id ` set rs"

lemma map_of_filter_key: "map_of (filter (\<lambda>b. fst b \<noteq> k) m) x = (if x = k then None else map_of m x)"
  by (induction m) auto

lemma refresh_models_spec:
  assumes "refresh_models now rs w = Ok w'" "distinct (map rf_upstream_model_id rs)" "\<forall>r \<in> set rs. rf_source_id r = s"
    and "\<forall>r \<in> set rs. map_of (dw_before w) (rf_upstream_model_id r) = find_model s (rf_upstream_model_id r) (dw_rows w)"
    and "distinct (map source_model_key (dw_rows w))"
  shows "distinct (map source_model_key (dw_rows w')) \<and>
    dw_before w' = filter (\<lambda>b. fst b \<notin> models_of rs) (dw_before w) \<and>
    (\<forall>r \<in> set rs. \<exists>c. refresh_result now r (find_model s (rf_upstream_model_id r) (dw_rows w)) = Ok c \<and>
       find_model s (rf_upstream_model_id r) (dw_rows w') = Some c) \<and>
    (\<forall>t i. t = s \<and> i \<in> models_of rs \<or> find_model t i (dw_rows w') = find_model t i (dw_rows w)) \<and>
    dd_added (dw_diff w') = dd_added (dw_diff w) @ added_entries s rs (dw_rows w) \<and> dd_missing (dw_diff w') = dd_missing (dw_diff w) \<and>
    ((\<forall>r \<in> set rs. quiet s (dw_rows w) (dw_rows w') r) \<longrightarrow> dd_changed (dw_diff w') = dd_changed (dw_diff w))"
  using assms
proof (induction rs arbitrary: w)
  case Nil
  then show ?case by (simp add: models_of_def added_entries_def)
next
  case (Cons r rs)
  let ?i = "rf_upstream_model_id r"
  obtain rows cur where step: "refresh_source_model_tx now r (dw_rows w) = Ok (rows, cur)"
    using Cons.prems(1) by (auto simp: and_then_Ok)
  define w1 where "w1 = \<lparr>dw_rows = rows, dw_before = filter (\<lambda>b. fst b \<noteq> ?i) (dw_before w),
          dw_diff = diff_refresh (map_of (dw_before w) ?i) cur (dw_diff w), dw_records = dw_records w @ [cur]\<rparr>"
  have rest: "refresh_models now rs w1 = Ok w'" using Cons.prems(1) by (simp add: step w1_def)
  have s: "rf_source_id r = s" using Cons.prems(3) by simp
  note E = refresh_effect [OF step Cons.prems(5), unfolded s]
  have other: "rf_upstream_model_id q \<noteq> ?i" if "q \<in> set rs" for q using Cons.prems(2) that by (metis distinct.simps(2) image_eqI list.set_map list.simps(9))
  have rows1: "find_model t i (dw_rows w1) = (if t = s \<and> i = ?i then Some cur else find_model t i (dw_rows w))" for t i
    using E(2) by (simp add: w1_def)
  have before1: "map_of (dw_before w1) (rf_upstream_model_id q) = find_model s (rf_upstream_model_id q) (dw_rows w1)" if "q \<in> set rs" for q
    using Cons.prems(4) that other [OF that] rows1 by (auto simp: w1_def map_of_filter_key)
  have "distinct (map source_model_key (dw_rows w1))" using E(3) by (simp add: w1_def)
  with Cons.IH [OF rest] Cons.prems(2,3) before1 have IH: "distinct (map source_model_key (dw_rows w'))"
    "dw_before w' = filter (\<lambda>b. fst b \<notin> models_of rs) (dw_before w1)"
    "\<forall>q \<in> set rs. \<exists>c. refresh_result now q (find_model s (rf_upstream_model_id q) (dw_rows w1)) = Ok c \<and>
       find_model s (rf_upstream_model_id q) (dw_rows w') = Some c"
    "\<forall>t i. t = s \<and> i \<in> models_of rs \<or> find_model t i (dw_rows w') = find_model t i (dw_rows w1)"
    "dd_added (dw_diff w') = dd_added (dw_diff w1) @ added_entries s rs (dw_rows w1)" "dd_missing (dw_diff w') = dd_missing (dw_diff w1)"
    "(\<forall>r \<in> set rs. quiet s (dw_rows w1) (dw_rows w') r) \<longrightarrow> dd_changed (dw_diff w') = dd_changed (dw_diff w1)" by simp_all
  have i': "?i \<notin> models_of rs" using other unfolding models_of_def by (metis imageE)
  have cur: "find_model s ?i (dw_rows w') = Some cur" using IH(4) i' rows1 by metis
  have same: "find_model s (rf_upstream_model_id q) (dw_rows w1) = find_model s (rf_upstream_model_id q) (dw_rows w)" if "q \<in> set rs" for q
    using rows1 other [OF that] by simp
  then have entries: "added_entries s rs (dw_rows w1) = added_entries s rs (dw_rows w)" unfolding added_entries_def by (simp cong: filter_cong)
  have b: "map_of (dw_before w) ?i = find_model s ?i (dw_rows w)" using Cons.prems(4) by simp
  have id: "sm_upstream_model_id cur = ?i" using find_model_SomeD [OF cur] by (simp add: source_model_key_def)
  have added: "dd_added (dw_diff w') = dd_added (dw_diff w) @ added_entries s (r # rs) (dw_rows w)"
    unfolding IH(5) entries by (cases "find_model s ?i (dw_rows w)") (simp_all add: w1_def diff_refresh_def b id added_entries_def Let_def)
  have missing: "dd_missing (dw_diff w') = dd_missing (dw_diff w)"
    unfolding IH(6) by (cases "find_model s ?i (dw_rows w)") (simp_all add: w1_def diff_refresh_def b Let_def)
  have changed: "dd_changed (dw_diff w') = dd_changed (dw_diff w)" if q: "\<forall>q \<in> set (r # rs). quiet s (dw_rows w) (dw_rows w') q"
  proof -
    have "\<forall>q \<in> set rs. quiet s (dw_rows w1) (dw_rows w') q" using q same by (auto simp: quiet_def)
    with IH(7) have "dd_changed (dw_diff w') = dd_changed (dw_diff w1)" by blast
    also have "\<dots> = dd_changed (dw_diff w)"
      using q cur by (cases "find_model s ?i (dw_rows w)") (simp_all add: w1_def diff_refresh_def b Let_def quiet_def)
    finally show ?thesis .
  qed
  have before: "dw_before w' = filter (\<lambda>b. fst b \<notin> models_of (r # rs)) (dw_before w)"
    unfolding IH(2) by (simp add: w1_def models_of_def conj_commute)
  have results: "\<exists>c. refresh_result now q (find_model s (rf_upstream_model_id q) (dw_rows w)) = Ok c \<and>
      find_model s (rf_upstream_model_id q) (dw_rows w') = Some c" if "q \<in> set (r # rs)" for q
    using that E(1) cur IH(3) same by auto
  have others: "t = s \<and> i \<in> models_of (r # rs) \<or> find_model t i (dw_rows w') = find_model t i (dw_rows w)" for t i
    using IH(4) rows1 by (auto simp: models_of_def split: if_splits)
  from IH(1) before results others added missing changed show ?case by blast
qed

lemma models_before_spec:
  assumes "distinct (map source_model_key rows)"
  shows "bmap_ok (models_before s rows)" "map_of (models_before s rows) i = find_model s i rows"
proof -
  define own where "own = filter (\<lambda>r. sm_source_id r = s) rows"
  define kvs where "kvs = map (\<lambda>r. (sm_upstream_model_id r, r)) own"
  have "distinct (map source_model_key own)" using assms unfolding own_def by (rule distinct_map_filter)
  moreover have "map source_model_key own = map (Pair s) (map sm_upstream_model_id own)" by (simp add: own_def source_model_key_def)
  ultimately have "distinct (map sm_upstream_model_id own)" by (metis distinct_map)
  then have d: "distinct (map fst kvs)" by (simp add: kvs_def o_def)
  have fold: "models_before s rows = foldl (\<lambda>m (k, v). binsert k v m) [] kvs" by (simp add: models_before_def kvs_def own_def foldl_map)
  show "bmap_ok (models_before s rows)" unfolding fold by (rule insert_all(1) [OF d bmap_ok_Nil])
  have "map_of kvs i = find_model s i rows"
    unfolding kvs_def own_def by (induction rows) (auto simp: find_model_def source_model_key_def)
  then show "map_of (models_before s rows) i = find_model s i rows" unfolding fold insert_all(2) [OF d bmap_ok_Nil] by (simp split: option.split)
qed

text \<open>The models the discovery did not list.\<close>

definition retired :: "int \<Rightarrow> int \<Rightarrow> source_model_row \<Rightarrow> source_model_row" where
  "retired now at p = (if sm_availability_status p = CatalogAvailability_Unavailable then p else unavailable_row now at p)"

definition missing_entries :: "(string \<times> source_model_row) list \<Rightarrow> discovery_diff_entry list" where
  "missing_entries bs = map (\<lambda>(i, p). diff_entry i [''availability_status'']) (filter (\<lambda>(i, p). sm_availability_status p \<noteq> CatalogAvailability_Unavailable) bs)"

lemma mark_missing_spec:
  assumes "distinct (map fst bs)" "\<forall>(i, p) \<in> set bs. find_model s i (dw_rows w) = Some p" "distinct (map source_model_key (dw_rows w))"
  shows "find_model t i (dw_rows (fold (mark_missing now at) bs w)) =
      (if t = s \<and> i \<in> fst ` set bs then map_option (retired now at) (find_model t i (dw_rows w)) else find_model t i (dw_rows w)) \<and>
    distinct (map source_model_key (dw_rows (fold (mark_missing now at) bs w))) \<and>
    dd_added (dw_diff (fold (mark_missing now at) bs w)) = dd_added (dw_diff w) \<and>
    dd_changed (dw_diff (fold (mark_missing now at) bs w)) = dd_changed (dw_diff w) \<and>
    dd_missing (dw_diff (fold (mark_missing now at) bs w)) = dd_missing (dw_diff w) @ missing_entries bs"
  using assms
proof (induction bs arbitrary: w)
  case Nil
  then show ?case by (simp add: missing_entries_def)
next
  case (Cons b bs)
  obtain j p where b: "b = (j, p)" by fastforce
  have p: "find_model s j (dw_rows w) = Some p" using Cons.prems(2) b by simp
  then have key: "sm_source_id p = s" "sm_upstream_model_id p = j" using find_model_SomeD by (fastforce simp: source_model_key_def)+
  define w1 where "w1 = mark_missing now at b w"
  have rows1: "find_model t i (dw_rows w1) = (if t = s \<and> i = j then Some (retired now at p) else find_model t i (dw_rows w))" for t i
    using p by (auto simp: w1_def mark_missing_def b key find_model_update retired_def)
  have keys1: "distinct (map source_model_key (dw_rows w1))" using Cons.prems(3) by (simp add: w1_def mark_missing_def b keys_update_model)
  have j: "j \<notin> fst ` set bs" using Cons.prems(1) b by simp
  have prems: "\<forall>(i, q) \<in> set bs. find_model s i (dw_rows w1) = Some q"
  proof clarify
    fix i q
    assume q: "(i, q) \<in> set bs"
    with j have "i \<noteq> j" by (metis fst_conv image_eqI)
    moreover from q Cons.prems(2) have "find_model s i (dw_rows w) = Some q" by fastforce
    ultimately show "find_model s i (dw_rows w1) = Some q" using rows1 by simp
  qed
  have diff1: "dd_added (dw_diff w1) = dd_added (dw_diff w)" "dd_changed (dw_diff w1) = dd_changed (dw_diff w)"
    "dd_missing (dw_diff w1) @ missing_entries bs = dd_missing (dw_diff w) @ missing_entries (b # bs)"
    by (simp_all add: w1_def mark_missing_def b key missing_entries_def)
  note IH = Cons.IH [OF _ prems keys1]
  have fold: "fold (mark_missing now at) (b # bs) w = fold (mark_missing now at) bs w1" by (simp add: w1_def)
  show ?case unfolding fold using IH Cons.prems(1) rows1 j p diff1 b by (auto split: if_splits)
qed

text \<open>
  What a discovery promises about the models of its source: for every name the confirmation and the availability.
\<close>

type_synonym catalog_view = "string \<Rightarrow> (catalog_status \<times> catalog_availability) option"

definition model_view :: "string \<Rightarrow> catalog_db \<Rightarrow> catalog_view" where
  "model_view s db i = map_option (\<lambda>r. (sm_confirmation_status r, sm_availability_status r)) (find_model s i (cx_models db))"

definition reconcile :: "string set \<Rightarrow> catalog_view \<Rightarrow> catalog_view" where
  "reconcile listed v i =
     (if i \<in> listed then Some (case v i of None \<Rightarrow> CatalogStatus_Pending | Some (c, _) \<Rightarrow> c, CatalogAvailability_Available)
      else map_option (\<lambda>(c, _). (c, CatalogAvailability_Unavailable)) (v i))"

lemma validate_discovery_facts:
  assumes "validate_discovery input = Ok discovered"
  shows "discovered = sort_key rf_upstream_model_id (da_models input)" "distinct (map rf_upstream_model_id discovered)"
    "\<forall>r \<in> set discovered. rf_source_id r = da_source_id input"
proof -
  from assms show d: "discovered = sort_key rf_upstream_model_id (da_models input)"
    by (auto simp: validate_discovery_def Let_def and_then_Ok split: if_splits)
  from assms have "\<not> adjacent_equal (map rf_upstream_model_id discovered)"
    by (auto simp: validate_discovery_def Let_def and_then_Ok d split: if_splits)
  moreover have "sorted (map rf_upstream_model_id discovered)" by (simp add: d)
  moreover have "distinct xs" if "\<not> adjacent_equal xs" "sorted xs" for xs :: "string list"
    using that by (induction xs rule: induct_list012) (auto simp: adjacent_equal_def)
  ultimately show "distinct (map rf_upstream_model_id discovered)" by blast
  from assms show "\<forall>r \<in> set discovered. rf_source_id r = da_source_id input"
    unfolding validate_discovery_def Let_def d [symmetric]
    by (auto simp: and_then_Ok for_each_ok split: if_splits)
qed

lemma reconcile_models_spec:
  assumes run: "reconcile_models now at s rs rows = Ok w" and names: "distinct (map rf_upstream_model_id rs)"
    and source: "\<forall>r \<in> set rs. rf_source_id r = s" and keys: "distinct (map source_model_key rows)"
  shows "distinct (map source_model_key (dw_rows w))"
    "r \<in> set rs \<Longrightarrow> \<exists>c. refresh_result now r (find_model s (rf_upstream_model_id r) rows) = Ok c \<and> find_model s (rf_upstream_model_id r) (dw_rows w) = Some c"
    "i \<notin> models_of rs \<Longrightarrow> find_model s i (dw_rows w) = map_option (retired now at) (find_model s i rows)"
    "t \<noteq> s \<Longrightarrow> find_model t i (dw_rows w) = find_model t i rows"
    "dd_added (dw_diff w) = added_entries s rs rows"
    "dd_missing (dw_diff w) = missing_entries (filter (\<lambda>b. fst b \<notin> models_of rs) (models_before s rows))"
    "\<forall>r \<in> set rs. quiet s rows (dw_rows w) r \<Longrightarrow> dd_changed (dw_diff w) = []"
proof -
  define w0 where "w0 = \<lparr>dw_rows = rows, dw_before = models_before s rows, dw_diff = empty_diff, dw_records = []\<rparr>"
  obtain w1 where w1: "refresh_models now rs w0 = Ok w1" and w: "w = fold (mark_missing now at) (dw_before w1) w1"
    using run by (auto simp: reconcile_models_def and_then_Ok w0_def)
  note B = models_before_spec [OF keys, of s]
  have w0: "dw_rows w0 = rows" "dw_before w0 = models_before s rows" "dw_diff w0 = empty_diff" by (simp_all add: w0_def)
  have "\<forall>r \<in> set rs. map_of (dw_before w0) (rf_upstream_model_id r) = find_model s (rf_upstream_model_id r) (dw_rows w0)" by (simp add: w0 B(2))
  from refresh_models_spec [OF w1 names source this, unfolded w0, OF keys]
  have R: "distinct (map source_model_key (dw_rows w1))" "dw_before w1 = filter (\<lambda>b. fst b \<notin> models_of rs) (models_before s rows)"
    "\<forall>r \<in> set rs. \<exists>c. refresh_result now r (find_model s (rf_upstream_model_id r) rows) = Ok c \<and> find_model s (rf_upstream_model_id r) (dw_rows w1) = Some c"
    "\<forall>t i. t = s \<and> i \<in> models_of rs \<or> find_model t i (dw_rows w1) = find_model t i rows"
    "dd_added (dw_diff w1) = added_entries s rs rows" "dd_missing (dw_diff w1) = []"
    "(\<forall>r \<in> set rs. quiet s rows (dw_rows w1) r) \<longrightarrow> dd_changed (dw_diff w1) = []" by (simp_all add: empty_diff_def)
  have db: "distinct (map fst (dw_before w1))" unfolding R(2) by (rule distinct_map_filter) (rule bmap_ok_distinct [OF B(1)])
  have found: "\<forall>(i, p) \<in> set (dw_before w1). find_model s i (dw_rows w1) = Some p"
  proof clarify
    fix i p
    assume "(i, p) \<in> set (dw_before w1)"
    then have i: "i \<notin> models_of rs" "(i, p) \<in> set (models_before s rows)" by (auto simp: R(2))
    then have "find_model s i rows = Some p" using B by (metis bmap_ok_distinct map_of_eq_Some_iff)
    with R(4) i(1) show "find_model s i (dw_rows w1) = Some p" by metis
  qed
  have named: "i \<in> fst ` set (dw_before w1) \<longleftrightarrow> i \<notin> models_of rs \<and> find_model s i rows \<noteq> None" for i
  proof -
    have "i \<in> fst ` set (models_before s rows) \<longleftrightarrow> find_model s i rows \<noteq> None" using B(2) by (metis map_of_eq_None_iff)
    then show ?thesis unfolding R(2) by force
  qed
  note M = mark_missing_spec [OF db found R(1), of _ _ now at, folded w]
  have listed: "find_model s (rf_upstream_model_id r) (dw_rows w) = find_model s (rf_upstream_model_id r) (dw_rows w1)" if "r \<in> set rs" for r
    using M named that by (auto simp: models_of_def)
  show "distinct (map source_model_key (dw_rows w))" using M by blast
  show "\<exists>c. refresh_result now r (find_model s (rf_upstream_model_id r) rows) = Ok c \<and> find_model s (rf_upstream_model_id r) (dw_rows w) = Some c"
    if "r \<in> set rs" using R(3) listed that by simp
  show "find_model s i (dw_rows w) = map_option (retired now at) (find_model s i rows)" if i: "i \<notin> models_of rs"
  proof -
    have same: "find_model s i (dw_rows w1) = find_model s i rows" using R(4) i by blast
    show ?thesis using M [of s i] named [of i] i unfolding same by (cases "find_model s i rows") auto
  qed
  show "find_model t i (dw_rows w) = find_model t i rows" if "t \<noteq> s" using M [of t i] R(4) that by auto
  show "dd_added (dw_diff w) = added_entries s rs rows" using M R(5) by simp
  show "dd_missing (dw_diff w) = missing_entries (filter (\<lambda>b. fst b \<notin> models_of rs) (models_before s rows))" using M R(2,6) by simp
  show "dd_changed (dw_diff w) = []" if "\<forall>r \<in> set rs. quiet s rows (dw_rows w) r"
    using M R(7) that listed by (auto simp: quiet_def)
qed

lemma apply_discovery_done:
  assumes "apply_discovery fault now input db = (db', Ok result)"
  obtains w where "reconcile_models now (da_completed_at input) (da_source_id input) (sort_key rf_upstream_model_id (da_models input)) (cx_models db) = Ok w"
    "cx_models db' = dw_rows w" "ds_diff result = sort_discovery_diff (dw_diff w)" "validate_discovery input = Ok (sort_key rf_upstream_model_id (da_models input))"
    "ds_run result = last (cx_discovery_runs db')" "dr_diff (ds_run result) = ds_diff result" "cx_discovery_runs db' = cx_discovery_runs db @ [ds_run result]"
proof -
  from assms have tx: "discovery_transaction now input db = Ok (db', result)"
    by (auto simp: apply_discovery_def catalog_commit_def split: sum.splits db_fault.splits)
  from tx obtain discovered where d: "validate_discovery input = Ok discovered" by (auto simp: discovery_transaction_def and_then_Ok)
  note facts = validate_discovery_facts(1) [OF d]
  from tx obtain w source where w: "reconcile_models now (da_completed_at input) (da_source_id input) discovered (cx_models db) = Ok w"
    "get_source (da_source_id input) db = Ok source" "check_account (da_source_id input) (da_account_id input) db = Ok ()"
    by (auto simp: discovery_transaction_def and_then_Ok d)
  from tx have "cx_models db' = dw_rows w \<and> ds_diff result = sort_discovery_diff (dw_diff w) \<and> dr_diff (ds_run result) = ds_diff result \<and>
      cx_discovery_runs db' = cx_discovery_runs db @ [ds_run result]"
    by (auto simp: discovery_transaction_def d w with_models_def Let_def split: if_splits)
  with w d facts show ?thesis by (intro that [of w]) simp_all
qed

lemma names_of_entries [simp]:
  "de_upstream_model_id ` set (sort_entries es) = de_upstream_model_id ` set es"
  "de_upstream_model_id ` set (added_entries s rs rows) = {i \<in> models_of rs. find_model s i rows = None}"
  by (auto simp: sort_entries_def image_image added_entries_def diff_entry_def models_of_def)

lemma names_missing:
  assumes "distinct (map source_model_key rows)"
  shows "de_upstream_model_id ` set (missing_entries (filter (\<lambda>b. fst b \<notin> models_of rs) (models_before s rows))) =
    {i. i \<notin> models_of rs \<and> (\<exists>p. find_model s i rows = Some p \<and> sm_availability_status p \<noteq> CatalogAvailability_Unavailable)}"
proof -
  note B = models_before_spec [OF assms, of s]
  have mem: "(i, p) \<in> set (models_before s rows) \<longleftrightarrow> find_model s i rows = Some p" for i p
    using B by (metis bmap_ok_distinct map_of_eq_Some_iff)
  show ?thesis by (auto simp: missing_entries_def diff_entry_def image_iff mem)
qed

lemma discovery_view:
  assumes "distinct (map source_model_key (cx_models db))" "apply_discovery fault now input db = (db', Ok result)"
  shows "model_view (da_source_id input) db' = reconcile (models_of (da_models input)) (model_view (da_source_id input) db)"
proof
  let ?s = "da_source_id input" and ?rs = "sort_key rf_upstream_model_id (da_models input)"
  obtain w where w: "reconcile_models now (da_completed_at input) ?s ?rs (cx_models db) = Ok w" "cx_models db' = dw_rows w"
    "validate_discovery input = Ok ?rs" using apply_discovery_done [OF assms(2)] by metis
  note S = reconcile_models_spec [OF w(1) validate_discovery_facts(2,3) [OF w(3)] assms(1)]
  have listed: "models_of ?rs = models_of (da_models input)" by (simp add: models_of_def)
  fix i
  show "model_view ?s db' i = reconcile (models_of (da_models input)) (model_view ?s db) i"
  proof (cases "i \<in> models_of ?rs")
    case True
    then obtain r where r: "r \<in> set ?rs" "i = rf_upstream_model_id r" by (auto simp: models_of_def)
    from S(2) [OF r(1)] obtain c where c: "refresh_result now r (find_model ?s i (cx_models db)) = Ok c" "find_model ?s i (dw_rows w) = Some c"
      unfolding r(2) by blast
    from refresh_result_row(1,3) [OF c(1)] True c(2) show ?thesis by (auto simp: model_view_def reconcile_def w(2) listed split: option.split)
  next
    case False
    from S(3) [OF False] False show ?thesis
      by (cases "find_model ?s i (cx_models db)") (auto simp: model_view_def reconcile_def w(2) listed retired_def unavailable_row_def)
  qed
qed

lemma discovery_run_status:
  assumes "apply_discovery fault now input db = (db', Ok result)"
  shows "dr_status (ds_run result) = ''succeeded''"
  using assms by (auto simp: apply_discovery_def catalog_commit_def discovery_transaction_def and_then_Ok Let_def split: sum.splits db_fault.splits if_splits)

text \<open>C36:
  A discovery reconciles: when it succeeds, the models of its source are what the specification \<open>reconcile\<close>
  says: every listed model is available, pending when it is new and otherwise with the confirmation it had; every other
  model is still stored, with its confirmation, and unavailable. The report names as added exactly the listed models
  that were not stored, and as missing exactly the stored ones that were not yet unavailable and are not listed. The
  models of other sources are untouched, and one run with this report is recorded.
\<close>

theorem discovery_reconciles:
  assumes "distinct (map source_model_key (cx_models db))" "apply_discovery fault now input db = (db', Ok result)"
  shows "model_view (da_source_id input) db' = reconcile (models_of (da_models input)) (model_view (da_source_id input) db) \<and>
    (s \<noteq> da_source_id input \<longrightarrow> find_model s i (cx_models db') = find_model s i (cx_models db)) \<and>
    de_upstream_model_id ` set (dd_added (ds_diff result)) = {i \<in> models_of (da_models input). model_view (da_source_id input) db i = None} \<and>
    de_upstream_model_id ` set (dd_missing (ds_diff result)) =
      {i. i \<notin> models_of (da_models input) \<and> (\<exists>c a. model_view (da_source_id input) db i = Some (c, a) \<and> a \<noteq> CatalogAvailability_Unavailable)} \<and>
    cx_discovery_runs db' = cx_discovery_runs db @ [ds_run result] \<and> dr_diff (ds_run result) = ds_diff result"
proof -
  let ?s = "da_source_id input" and ?rs = "sort_key rf_upstream_model_id (da_models input)"
  obtain w where w: "reconcile_models now (da_completed_at input) ?s ?rs (cx_models db) = Ok w" "cx_models db' = dw_rows w"
    "ds_diff result = sort_discovery_diff (dw_diff w)" "validate_discovery input = Ok ?rs" "dr_diff (ds_run result) = ds_diff result"
    "cx_discovery_runs db' = cx_discovery_runs db @ [ds_run result]" using apply_discovery_done [OF assms(2)] by metis
  note S = reconcile_models_spec [OF w(1) validate_discovery_facts(2,3) [OF w(4)] assms(1)]
  have listed: "models_of ?rs = models_of (da_models input)" by (simp add: models_of_def)
  note view = discovery_view [OF assms]
  have missing: "de_upstream_model_id ` set (dd_missing (ds_diff result)) =
      {i. i \<notin> models_of (da_models input) \<and> (\<exists>c a. model_view ?s db i = Some (c, a) \<and> a \<noteq> CatalogAvailability_Unavailable)}"
    by (auto simp: w(3) sort_discovery_diff_def S(6) names_missing [OF assms(1)] listed model_view_def)
  have added: "de_upstream_model_id ` set (dd_added (ds_diff result)) = {i \<in> models_of (da_models input). model_view ?s db i = None}"
    by (simp add: w(3) sort_discovery_diff_def S(5) listed model_view_def)
  show ?thesis using view missing added S(4) w(2,5,6) by (intro conjI impI) simp_all
qed

section \<open>Decisions of the operator\<close>

lemma metadata_ext:
  assumes "metadata_ok m" "metadata_ok n" "\<And>f. field_state m f = field_state n f"
  shows "m = n"
proof -
  have "cm_values m = cm_values n" "cm_field_sources m = cm_field_sources n"
    using assms by (auto intro!: bmap_ext simp: metadata_ok_def field_state_def fun_eq_iff)
  then show ?thesis by simp
qed

lemma refresh_again:
  assumes "metadata_ok m" "field_state m f = (if snd (field_state old f) = Some MetadataSource_User \<and> fst (field_state old f) \<noteq> None then field_state old f else field_state r f)"
  shows "(if snd (field_state m f) = Some MetadataSource_User \<and> fst (field_state m f) \<noteq> None then field_state m f else field_state r f) = field_state m f"
  using assms by auto

lemma refreshed_field:
  assumes "refreshed_preserving_user_fields old False up pre = Ok m" "metadata_resolve up pre = Ok r"
  shows "field_state m f = (if snd (field_state old f) = Some MetadataSource_User \<and> fst (field_state old f) \<noteq> None then field_state old f else field_state r f)"
  using assms by (auto simp: refreshed_preserving_user_fields_def keep_user_fields metadata_field_ALL_all)

lemma refreshed_twice:
  assumes "metadata_ok old" "refreshed_preserving_user_fields old confirmed up pre = Ok m" "refreshed_preserving_user_fields m confirmed up pre = Ok n"
  shows "n = m"
proof (cases confirmed)
  case True
  with assms(2,3) show ?thesis by (simp add: refreshed_preserving_user_fields_def)
next
  case False
  from assms(2) False obtain r where r: "metadata_resolve up pre = Ok r" by (auto simp: refreshed_preserving_user_fields_def and_then_Ok)
  have ok: "metadata_ok m" using assms(1,2) by (rule metadata_ok_refresh)
  have two: "refreshed_preserving_user_fields old False up pre = Ok m" "refreshed_preserving_user_fields m False up pre = Ok n"
    using assms(2,3) False by simp_all
  have "field_state n f = field_state m f" for f
    using refreshed_field [OF two(2) r, of f] refresh_again [OF ok refreshed_field [OF two(1) r]] by simp
  then show ?thesis using metadata_ext [OF metadata_ok_refresh [OF ok assms(3)] ok] by blast
qed

lemma resolved_refreshed:
  assumes "metadata_resolve up pre = Ok m" "refreshed_preserving_user_fields m False up pre = Ok n"
  shows "n = m"
proof -
  have ok: "metadata_ok m" using assms(1) by (rule metadata_ok_resolve)
  have "field_state n f = field_state m f" for f using refreshed_field [OF assms(2,1), of f] by simp
  then show ?thesis using metadata_ext [OF metadata_ok_refresh [OF ok assms(2)] ok] by blast
qed

text \<open>The two shapes of a refresh.\<close>

lemma refresh_result_cases:
  assumes "refresh_result now r previous = Ok cur"
  obtains m where "previous = None" "metadata_resolve (rf_upstream_metadata r) (rf_preset_metadata r) = Ok m" "cur = set_row_metadata m (new_model_row now r)"
  | p old m where "previous = Some p" "row_metadata p = Ok old"
      "refreshed_preserving_user_fields old (sm_confirmation_status p = CatalogStatus_Confirmed) (rf_upstream_metadata r) (rf_preset_metadata r) = Ok m"
      "cur = refreshed_row now r m p"
proof -
  obtain discovered where d: "validate_source_model_refresh r = Ok ()" "metadata_resolve (rf_upstream_metadata r) (rf_preset_metadata r) = Ok discovered"
    using assms by (auto simp: refresh_result_def and_then_Ok)
  show ?thesis using assms that by (cases previous) (auto simp: refresh_result_def d and_then_Ok)
qed

lemma refreshed_row_metadata [simp]: "metadata_ok m \<Longrightarrow> row_metadata (refreshed_row now r m p) = Ok m"
  using set_row_metadata_read [of m p] by (simp add: refreshed_row_def row_metadata_def)

text \<open>Refreshing with what is already stored changes nothing the report is about.\<close>

lemma refresh_unchanged:
  assumes "refresh_result now r previous = Ok c" "refresh_result now' (r\<lparr>rf_discovered_at := t\<rparr>) (Some c) = Ok c'"
  shows "changed_source_model_fields c c' = []"
  using assms(2)
proof (cases rule: refresh_result_cases)
  case (2 p old m)
  have c: "p = c" using 2(1) by simp
  have "old = m \<and> sm_matched_model_preset c' = sm_matched_model_preset c \<and>
      (sm_metadata c, sm_field_sources c) = metadata_to_json m"
    using assms(1)
  proof (cases rule: refresh_result_cases)
    case (1 n)
    then have "old = n" using 2(2) metadata_ok_resolve by (auto simp: c)
    moreover have "m = n" using resolved_refreshed [OF 1(2)] 2(3) \<open>old = n\<close> by (simp add: c 1(3) new_model_row_def)
    ultimately show ?thesis using 1(3) 2(4) by (simp add: c refreshed_row_def new_model_row_def)
  next
    case prev: (2 q old' n)
    have n: "metadata_ok n" using metadata_ok_refresh [OF row_metadata_ok [OF prev(2)] prev(3)] .
    then have "old = n" using 2(2) prev(4) by (simp add: c)
    moreover have "m = n" using refreshed_twice [OF row_metadata_ok [OF prev(2)] prev(3)] 2(3) \<open>old = n\<close> by (simp add: c prev(4) refreshed_row_def)
    ultimately show ?thesis using prev(4) 2(4) by (simp add: c refreshed_row_def)
  qed
  then show ?thesis using 2(4) refresh_result_row(1,2) [OF assms(1)]
    by (simp add: c changed_source_model_fields_def refreshed_row_def prod_eq_iff)
qed simp

text \<open>C38:
  Discovery is stable: applying the same list of models again, at whatever later time, reports nothing added, nothing
  changed and nothing missing, whatever the catalog held before the first time and whatever the operator had overridden
  or confirmed.
\<close>

theorem repeated_discovery_quiet:
  assumes "distinct (map source_model_key (cx_models db))" "apply_discovery fault now input db = (db1, Ok result)"
    and "apply_discovery fault' now' again db1 = (db2, Ok result')" "da_source_id again = da_source_id input"
    and "da_models again = map (\<lambda>r. r\<lparr>rf_discovered_at := t\<rparr>) (da_models input)"
  shows "ds_diff result' = empty_diff"
proof -
  let ?s = "da_source_id input" and ?rs = "sort_key rf_upstream_model_id (da_models input)"
  let ?rs' = "sort_key rf_upstream_model_id (da_models again)"
  obtain w where w: "reconcile_models now (da_completed_at input) ?s ?rs (cx_models db) = Ok w" "cx_models db1 = dw_rows w"
    "validate_discovery input = Ok ?rs" using apply_discovery_done [OF assms(2)] by metis
  obtain w' where w': "reconcile_models now' (da_completed_at again) ?s ?rs' (cx_models db1) = Ok w'"
    "ds_diff result' = sort_discovery_diff (dw_diff w')" "validate_discovery again = Ok ?rs'"
    using apply_discovery_done [OF assms(3)] unfolding assms(4) by metis
  note S = reconcile_models_spec [OF w(1) validate_discovery_facts(2,3) [OF w(3)] assms(1)]
  note S' = reconcile_models_spec [OF w'(1) validate_discovery_facts(2) [OF w'(3)] validate_discovery_facts(3) [OF w'(3), unfolded assms(4)], unfolded w(2), OF S(1)]
  have set: "set ?rs' = (\<lambda>r. r\<lparr>rf_discovered_at := t\<rparr>) ` set ?rs" by (simp add: assms(5))
  have listed: "models_of ?rs' = models_of ?rs" unfolding models_of_def set image_image by simp
  have "find_model ?s (rf_upstream_model_id q) (dw_rows w) \<noteq> None" if "q \<in> set ?rs'" for q
  proof -
    from that set obtain r where "r \<in> set ?rs" "rf_upstream_model_id q = rf_upstream_model_id r" by auto
    with S(2) show ?thesis by fastforce
  qed
  then have "dd_added (dw_diff w') = []" unfolding S'(5) added_entries_def by (auto simp: filter_empty_conv)
  moreover have "filter (\<lambda>(i, p). sm_availability_status p \<noteq> CatalogAvailability_Unavailable)
      (filter (\<lambda>b. fst b \<notin> models_of ?rs') (models_before ?s (dw_rows w))) = []"
  proof -
    have "sm_availability_status p = CatalogAvailability_Unavailable" if b: "(i, p) \<in> set (models_before ?s (dw_rows w))" "i \<notin> models_of ?rs" for i p
    proof -
      have "find_model ?s i (dw_rows w) = Some p"
        using b(1) models_before_spec [OF S(1), of ?s] by (metis bmap_ok_distinct map_of_eq_Some_iff)
      with S(3) [OF b(2)] show ?thesis by (cases "find_model ?s i (cx_models db)") (auto simp: retired_def unavailable_row_def)
    qed
    then show ?thesis by (auto simp: filter_empty_conv listed)
  qed
  then have "dd_missing (dw_diff w') = []" by (simp add: S'(6) missing_entries_def)
  moreover have "quiet ?s (dw_rows w) (dw_rows w') q" if q: "q \<in> set ?rs'" for q
  proof -
    from q set obtain r where r: "r \<in> set ?rs" "q = r\<lparr>rf_discovered_at := t\<rparr>" by auto
    from S(2) [OF r(1)] obtain c where c: "refresh_result now r (find_model ?s (rf_upstream_model_id r) (cx_models db)) = Ok c"
      "find_model ?s (rf_upstream_model_id r) (dw_rows w) = Some c" by blast
    from S'(2) [OF q] c(2) r(2) obtain c' where c': "refresh_result now' (r\<lparr>rf_discovered_at := t\<rparr>) (Some c) = Ok c'"
      "find_model ?s (rf_upstream_model_id r) (dw_rows w') = Some c'" by auto
    from refresh_unchanged [OF c(1) c'(1)] c(2) c'(2) r(2) show ?thesis by (simp add: quiet_def)
  qed
  then have "dd_changed (dw_diff w') = []" using S'(7) by blast
  ultimately show ?thesis by (simp add: w'(2) sort_discovery_diff_def empty_diff_def sort_entries_def)
qed

text \<open>Discoveries of any source, one after the other, whatever they list and however their transactions end.\<close>

inductive discovery_step :: "catalog_db \<Rightarrow> catalog_db \<Rightarrow> bool" where
  "apply_discovery fault now input db = (db', r) \<Longrightarrow> discovery_step db db'"

inductive_cases discovery_stepE: "discovery_step db db'"

text \<open>A model with the confirmation and, for one field, the value the operator gave it.\<close>

definition decided :: "string \<Rightarrow> string \<Rightarrow> metadata_field \<Rightarrow> json \<Rightarrow> catalog_db \<Rightarrow> bool" where
  "decided s i f v db \<longleftrightarrow> (\<exists>p m. find_model s i (cx_models db) = Some p \<and> row_metadata p = Ok m \<and> field_state m f = (Some v, Some MetadataSource_User))"

definition confirmed_as :: "string \<Rightarrow> string \<Rightarrow> catalog_metadata \<Rightarrow> (string \<times> i32) option \<Rightarrow> int option \<Rightarrow> catalog_db \<Rightarrow> bool" where
  "confirmed_as s i m preset at db \<longleftrightarrow> (\<exists>p. find_model s i (cx_models db) = Some p \<and> sm_confirmation_status p = CatalogStatus_Confirmed \<and>
     row_metadata p = Ok m \<and> sm_matched_model_preset p = preset \<and> sm_confirmed_at p = at)"

lemma discovery_step_cases:
  assumes "discovery_step db db'"
  obtains "db' = db" | now input result where "apply_discovery NoFault now input db = (db', Ok result)"
proof -
  from assms obtain fault now input r where "apply_discovery fault now input db = (db', r)" by (rule discovery_stepE)
  then have "db' = db \<or> (\<exists>result. apply_discovery NoFault now input db = (db', Ok result))"
    by (cases "discovery_transaction now input db") (auto simp: apply_discovery_def catalog_commit_def split: db_fault.splits)
  with that show ?thesis by blast
qed

lemma discovery_step_keys:
  assumes "discovery_step db db'" "distinct (map source_model_key (cx_models db))"
  shows "distinct (map source_model_key (cx_models db'))"
  using assms(1)
proof (cases rule: discovery_step_cases)
  case (2 now input result)
  obtain w where w: "reconcile_models now (da_completed_at input) (da_source_id input) (sort_key rf_upstream_model_id (da_models input)) (cx_models db) = Ok w"
    "cx_models db' = dw_rows w" "validate_discovery input = Ok (sort_key rf_upstream_model_id (da_models input))" using apply_discovery_done [OF 2] by metis
  from reconcile_models_spec(1) [OF w(1) validate_discovery_facts(2,3) [OF w(3)] assms(2)] show ?thesis by (simp add: w(2))
qed (use assms(2) in simp)

lemma discovery_step_row:
  assumes "discovery_step db db'" "distinct (map source_model_key (cx_models db))" "find_model s i (cx_models db) = Some p"
  shows "\<exists>p'. find_model s i (cx_models db') = Some p' \<and>
    (p' = p \<or> (\<exists>now at. p' = unavailable_row now at p) \<or> (\<exists>now r. refresh_result now r (Some p) = Ok p'))"
  using assms(1)
proof (cases rule: discovery_step_cases)
  case (2 now input result)
  let ?s = "da_source_id input" and ?rs = "sort_key rf_upstream_model_id (da_models input)"
  obtain w where w: "reconcile_models now (da_completed_at input) ?s ?rs (cx_models db) = Ok w" "cx_models db' = dw_rows w"
    "validate_discovery input = Ok ?rs" using apply_discovery_done [OF 2] by metis
  note S = reconcile_models_spec [OF w(1) validate_discovery_facts(2,3) [OF w(3)] assms(2)]
  consider "s \<noteq> ?s" | "s = ?s" "i \<notin> models_of ?rs" | r where "s = ?s" "r \<in> set ?rs" "i = rf_upstream_model_id r" by (auto simp: models_of_def)
  then show ?thesis
  proof cases
    case 1
    with S(4) assms(3) show ?thesis by (simp add: w(2))
  next
    case 2
    with S(3) [OF 2(2)] assms(3) show ?thesis by (auto simp: w(2) retired_def)
  next
    case 3
    with S(2) [OF 3(2)] assms(3) show ?thesis by (auto simp: w(2))
  qed
qed (use assms(3) in blast)

lemma unavailable_row_metadata [simp]: "row_metadata (unavailable_row now at p) = row_metadata p"
  by (simp add: unavailable_row_def row_metadata_def)

lemma refresh_result_metadata:
  assumes "refresh_result now r (Some p) = Ok p'" "row_metadata p = Ok m"
  shows "\<exists>m'. row_metadata p' = Ok m' \<and> refresh_step m m'"
  using assms(1)
proof (cases rule: refresh_result_cases)
  case (2 q old n)
  then have "metadata_ok n" using metadata_ok_refresh row_metadata_ok by blast
  with 2 assms(2) show ?thesis by (auto intro!: refresh_step.intros)
qed simp

lemma confirmed_refresh:
  assumes "refresh_result now r (Some p) = Ok p'" "sm_confirmation_status p = CatalogStatus_Confirmed" "row_metadata p = Ok m"
  shows "sm_confirmation_status p' = CatalogStatus_Confirmed \<and> row_metadata p' = Ok m \<and> sm_matched_model_preset p' = sm_matched_model_preset p \<and>
    sm_confirmed_at p' = sm_confirmed_at p"
  using assms(1)
proof (cases rule: refresh_result_cases)
  case (2 q old n)
  then have "n = m" using assms(2,3) by (simp add: refreshed_preserving_user_fields_def)
  with 2(1,4) assms(2) row_metadata_ok [OF assms(3)] show ?thesis by (simp add: refreshed_row_def [of now r m q]) (simp add: refreshed_row_def row_metadata_def metadata_json_roundtrip)
qed simp

text \<open>C37:
  What the operator decided stays: whatever discoveries of whatever sources follow, including refused ones and ones
  whose commit fails, a field the operator overrode keeps the operator's value and origin, and a model that was
  confirmed stays confirmed with the same metadata, preset and time, even while its upstream no longer lists it.
\<close>

theorem operator_decisions_survive:
  assumes "distinct (map source_model_key (cx_models db))" "discovery_step\<^sup>*\<^sup>* db db'"
  shows "(decided s i f v db \<longrightarrow> decided s i f v db') \<and> (confirmed_as s i m preset at db \<longrightarrow> confirmed_as s i m preset at db')"
proof -
  have "distinct (map source_model_key (cx_models db')) \<and>
      (decided s i f v db \<longrightarrow> decided s i f v db') \<and> (confirmed_as s i m preset at db \<longrightarrow> confirmed_as s i m preset at db')"
    using assms(2)
  proof (induction rule: rtranclp_induct)
    case base
    with assms(1) show ?case by blast
  next
    case (step db1 db2)
    note row = discovery_step_row [OF step(2)]
    have keys: "distinct (map source_model_key (cx_models db1))" using step.IH by blast
    have keys2: "distinct (map source_model_key (cx_models db2))"
      using step(2) keys by (rule discovery_step_keys)
    have "decided s i f v db2" if d: "decided s i f v db1"
    proof -
      from d obtain p m where p: "find_model s i (cx_models db1) = Some p" "row_metadata p = Ok m" "field_state m f = (Some v, Some MetadataSource_User)"
        by (auto simp: decided_def)
      from row [OF keys p(1)] obtain p' where p': "find_model s i (cx_models db2) = Some p'"
        "p' = p \<or> (\<exists>now at. p' = unavailable_row now at p) \<or> (\<exists>now r. refresh_result now r (Some p) = Ok p')" by blast
      from p'(2) p(2) obtain m' where "row_metadata p' = Ok m'" "m' = m \<or> refresh_step m m'"
        using refresh_result_metadata by (elim disjE) (auto, blast)
      with p'(1) p(3) refresh_keeps_user_field [of m m' f v] show ?thesis by (auto simp: decided_def)
    qed
    moreover have "confirmed_as s i m preset at db2" if c: "confirmed_as s i m preset at db1"
    proof -
      from c obtain p where p: "find_model s i (cx_models db1) = Some p" "sm_confirmation_status p = CatalogStatus_Confirmed"
        "row_metadata p = Ok m" "sm_matched_model_preset p = preset" "sm_confirmed_at p = at" by (auto simp: confirmed_as_def)
      from row [OF keys p(1)] obtain p' where p': "find_model s i (cx_models db2) = Some p'"
        "p' = p \<or> (\<exists>now at. p' = unavailable_row now at p) \<or> (\<exists>now r. refresh_result now r (Some p) = Ok p')" by blast
      from p'(2) p confirmed_refresh [OF _ p(2,3)] have "sm_confirmation_status p' = CatalogStatus_Confirmed \<and> row_metadata p' = Ok m \<and>
          sm_matched_model_preset p' = preset \<and> sm_confirmed_at p' = at"
        by (elim disjE exE) (simp_all add: unavailable_row_def row_metadata_def)
      with p'(1) show ?thesis by (auto simp: confirmed_as_def)
    qed
    ultimately show ?case using step.IH keys2 by blast
  qed
  then show ?thesis by blast
qed

section \<open>A valid discovery is accepted\<close>

definition readable :: "source_model_row list \<Rightarrow> bool" where
  "readable rows \<longleftrightarrow> (\<forall>p \<in> set rows. \<exists>m. row_metadata p = Ok m)"

lemma refresh_total:
  assumes "validate_source_model_refresh r = Ok ()" "readable rows"
  shows "\<exists>rows' c. refresh_source_model_tx now r rows = Ok (rows', c) \<and> readable rows'"
proof -
  from assms(1) have "metadata_validate (rf_upstream_metadata r) = Ok ()" "case rf_preset_metadata r of Some p \<Rightarrow> metadata_validate p = Ok () | None \<Rightarrow> True"
    by (auto simp: validate_source_model_refresh_def and_then_Ok split: if_splits option.splits)
  then obtain d where d: "metadata_resolve (rf_upstream_metadata r) (rf_preset_metadata r) = Ok d"
    by (auto simp: metadata_resolve_def Let_def split: option.splits)
  show ?thesis
  proof (cases "find_model (rf_source_id r) (rf_upstream_model_id r) rows")
    case None
    then show ?thesis using assms d metadata_ok_resolve [OF d] by (auto simp: refresh_source_model_tx_def Let_def readable_def)
  next
    case (Some p)
    then obtain old where old: "row_metadata p = Ok old" using assms(2) find_model_SomeD [OF Some] by (auto simp: readable_def)
    obtain m where m: "refreshed_preserving_user_fields old (sm_confirmation_status p = CatalogStatus_Confirmed) (rf_upstream_metadata r) (rf_preset_metadata r) = Ok m"
      using d by (cases "sm_confirmation_status p = CatalogStatus_Confirmed") (simp_all add: refreshed_preserving_user_fields_def)
    have ok: "metadata_ok m" using metadata_ok_refresh [OF row_metadata_ok [OF old] m] .
    have "readable (update_model (rf_source_id r) (rf_upstream_model_id r) (refreshed_row now r m) rows)"
      using assms(2) ok by (auto simp: readable_def update_model_def set_update_rows)
    then show ?thesis using assms(1) d Some old m by (simp add: refresh_source_model_tx_def)
  qed
qed

lemma refresh_models_total:
  assumes "\<forall>r \<in> set rs. validate_source_model_refresh r = Ok ()" "readable (dw_rows w)"
  shows "\<exists>w'. refresh_models now rs w = Ok w' \<and> readable (dw_rows w')"
  using assms
proof (induction rs arbitrary: w)
  case (Cons r rs)
  from Cons.prems refresh_total [of r "dw_rows w" now] obtain rows c where "refresh_source_model_tx now r (dw_rows w) = Ok (rows, c)" "readable rows" by auto
  with Cons show ?case by simp
qed simp

lemma mark_missing_readable: "readable (dw_rows w) \<Longrightarrow> readable (dw_rows (fold (mark_missing now at) bs w))"
proof (induction bs arbitrary: w)
  case (Cons b bs)
  have "readable (dw_rows (mark_missing now at b w))"
    using Cons.prems by (auto simp: mark_missing_def readable_def update_model_def set_update_rows split: prod.split)
  with Cons.IH show ?case by simp
qed simp

lemma discovery_accepted:
  assumes "validate_discovery input = Ok rs" "get_source (da_source_id input) db = Ok source" "check_account (da_source_id input) (da_account_id input) db = Ok ()"
    and "readable (cx_models db)" "length (da_models input) < 2 ^ 31"
  shows "\<exists>db' result. apply_discovery NoFault now input db = (db', Ok result) \<and> readable (cx_models db') \<and>
    cd_sources (cx_control db') = cd_sources (cx_control db) \<and> cd_accounts (cx_control db') = cd_accounts (cx_control db)"
proof -
  let ?w0 = "\<lparr>dw_rows = cx_models db, dw_before = models_before (da_source_id input) (cx_models db), dw_diff = empty_diff, dw_records = []\<rparr>"
  have "\<forall>r \<in> set rs. validate_source_model_refresh r = Ok ()"
    using assms(1) by (auto simp: validate_discovery_def Let_def and_then_Ok for_each_ok split: if_splits)
  then obtain w where w: "refresh_models now rs ?w0 = Ok w" "readable (dw_rows w)" using refresh_models_total [of rs ?w0 now] assms(4) by auto
  with mark_missing_readable [OF w(2)] assms show ?thesis
    by (simp add: apply_discovery_def discovery_transaction_def reconcile_models_def catalog_commit_def with_models_def Let_def)
qed

section \<open>A report of changes is complete\<close>

text \<open>Documents as the parser builds them: the keys of every object are unique and in order.\<close>

fun canonical :: "json \<Rightarrow> bool" where
  "canonical (JObject kvs) \<longleftrightarrow> bmap_ok kvs \<and> (\<forall>p \<in> set kvs. canonical (snd p))"
| "canonical (JArray vs) \<longleftrightarrow> (\<forall>v \<in> set vs. canonical v)"
| "canonical v \<longleftrightarrow> True"

lemma canonical_member: "canonical (JObject kvs) \<Longrightarrow> map_of kvs k = Some v \<Longrightarrow> canonical v"
  by (metis canonical.simps(1) map_of_SomeD snd_conv)

lemma diff_json_exact:
  assumes "\<And>v. before = Some v \<Longrightarrow> canonical v" "\<And>v. after = Some v \<Longrightarrow> canonical v"
  shows "diff_json path before after = [] \<longleftrightarrow> before = after"
  using assms
proof (induction path before after rule: diff_json.induct)
  case (1 path before after)
  show ?case
  proof (cases "\<exists>b a. before = Some (JObject b) \<and> after = Some (JObject a)")
    case True
    then obtain b a where ba: "before = Some (JObject b)" "after = Some (JObject a)" by blast
    let ?keys = "sort (remdups (map fst b @ map fst a))"
    have can: "canonical (JObject b)" "canonical (JObject a)" using 1(2,3) ba by simp_all
    have "diff_json path before after = [] \<longleftrightarrow> (\<forall>k \<in> set ?keys. diff_json (path @ ''.'' @ k) (map_of b k) (map_of a k) = [])"
      by (subst diff_json.simps) (simp add: ba)
    also have "\<dots> \<longleftrightarrow> (\<forall>k \<in> set ?keys. map_of b k = map_of a k)"
      using 1(1) [OF refl ba(1) refl ba(2) refl] can canonical_member by blast
    also have "\<dots> \<longleftrightarrow> map_of b = map_of a"
    proof
      assume same: "\<forall>k \<in> set ?keys. map_of b k = map_of a k"
      show "map_of b = map_of a"
      proof
        fix k
        show "map_of b k = map_of a k"
        proof (cases "k \<in> set ?keys")
          case False
          then have "map_of b k = None" "map_of a k = None" by (auto simp: map_of_eq_None_iff)
          then show ?thesis by simp
        qed (use same in blast)
      qed
    qed simp
    also have "\<dots> \<longleftrightarrow> before = after" using can bmap_ext [of b a] by (auto simp: ba)
    finally show ?thesis .
  next
    case False
    then show ?thesis by (subst diff_json.simps) (auto split: option.split json.split)
  qed
qed

lemma preset_diff_exact:
  assumes "canonical snapshot" "canonical latest"
  shows "provider_preset_diff snapshot latest = [] \<longleftrightarrow> snapshot = latest"
proof -
  have "provider_preset_diff snapshot latest = [] \<longleftrightarrow> diff_json ''$'' (Some snapshot) (Some latest) = []"
    unfolding provider_preset_diff_def by (metis length_0_conv length_sort)
  also have "\<dots> \<longleftrightarrow> snapshot = latest" using diff_json_exact [of "Some snapshot" "Some latest"] assms by simp
  finally show ?thesis .
qed

section \<open>Examples\<close>

definition catalog_source :: source_row where
  "catalog_source = \<lparr>so_id = ''s'', so_display_name = ''S'', so_provider_preset_id = ''kimi'', so_provider_preset_version = 1,
     so_provider_preset_snapshot = JObject [], so_base_url = ''https://a.example'', so_endpoints = JObject [], so_auth_config = JObject [],
     so_protocol_capabilities = JObject [], so_enabled = True, so_created_at = 0, so_updated_at = 0\<rparr>"

definition listed_model :: "string \<Rightarrow> source_model_refresh" where
  "listed_model i = \<lparr>rf_source_id = ''s'', rf_upstream_model_id = i, rf_raw_snapshot = JObject [(''id'', JString i)],
     rf_upstream_metadata = [(DisplayName, JString i)], rf_matched_preset = None, rf_preset_metadata = None, rf_discovered_at = 5\<rparr>"

text \<open>One stored model, confirmed under a name of the operator's own, that the list no longer has.\<close>

definition named_metadata :: catalog_metadata where
  "named_metadata = apply_values [(DisplayName, JString ''mine'')] MetadataSource_User metadata_unknown"

definition stored_model :: source_model_row where
  "stored_model = set_row_metadata named_metadata ((new_model_row 0 (listed_model ''old''))\<lparr>sm_confirmation_status := CatalogStatus_Confirmed, sm_confirmed_at := Some 1\<rparr>)"

definition sample_catalog :: catalog_db where
  "sample_catalog = \<lparr>cx_control = \<lparr>cd_presets = [], cd_sources = [catalog_source], cd_accounts = [], cd_source_models = [stored_model], cd_capabilities = [],
       cd_logical_models = [], cd_bindings = [], cd_routes = [], cd_health_events = [], cd_revision = 0, cd_snapshot_updated_at = 0\<rparr>,
     cx_provider_presets = [], cx_model_presets = [], cx_discovery_runs = [], cx_connection_tests = []\<rparr>"

definition sample_discovery :: discovery_apply_input where
  "sample_discovery = \<lparr>da_source_id = ''s'', da_account_id = None, da_raw_snapshot = JObject [], da_models = [listed_model ''b'', listed_model ''a''],
     da_http_status = 200, da_latency_ms = 3, da_requested_by = ''admin_api'', da_started_at = 4, da_completed_at = 5\<rparr>"

definition sample_repeat :: discovery_apply_input where
  "sample_repeat = sample_discovery\<lparr>da_models := map (\<lambda>r. r\<lparr>rf_discovered_at := 8\<rparr>) (da_models sample_discovery), da_completed_at := 8\<rparr>"

lemma sample_catalog_keys: "distinct (map source_model_key (cx_models sample_catalog))"
  by (simp add: sample_catalog_def)

lemma sample_catalog_models: "find_model ''s'' ''old'' (cx_models sample_catalog) = Some stored_model"
  by (simp add: sample_catalog_def find_model_def stored_model_def source_model_key_def new_model_row_def listed_model_def)

lemma named_metadata_ok: "metadata_ok named_metadata"
proof -
  have "values_valid [(DisplayName, JString ''mine'')]" by (simp add: values_valid_def) code_simp
  then show ?thesis unfolding named_metadata_def by (rule metadata_ok_apply [OF metadata_ok_unknown])
qed

lemma sample_discovery_ok:
  "\<exists>db1 result db2 result'. apply_discovery NoFault 5 sample_discovery sample_catalog = (db1, Ok result) \<and>
     apply_discovery NoFault 9 sample_repeat db1 = (db2, Ok result')"
proof -
  have source: "get_source ''s'' sample_catalog = Ok catalog_source" by (simp add: get_source_def sample_catalog_def catalog_source_def)
  have readable: "readable (cx_models sample_catalog)"
    using named_metadata_ok by (auto simp: readable_def sample_catalog_def stored_model_def)
  have valid: "is_ok (validate_discovery sample_discovery)" "is_ok (validate_discovery sample_repeat)" by code_simp+
  then obtain rs rs' where rs: "validate_discovery sample_discovery = Ok rs" "validate_discovery sample_repeat = Ok rs'" by (auto simp: is_ok_iff)
  have data: "da_source_id sample_discovery = ''s''" "da_source_id sample_repeat = ''s''" "da_account_id sample_discovery = None"
    "da_account_id sample_repeat = None" "length (da_models sample_discovery) < 2 ^ 31" "length (da_models sample_repeat) < 2 ^ 31"
    by (simp_all add: sample_discovery_def sample_repeat_def)
  have account: "check_account ''s'' None db = Ok ()" for db by (simp add: check_account_def)
  obtain db1 result where
    db1: "apply_discovery NoFault 5 sample_discovery sample_catalog = (db1, Ok result)" "readable (cx_models db1)"
    "cd_sources (cx_control db1) = cd_sources (cx_control sample_catalog)"
    using discovery_accepted [OF rs(1), of sample_catalog catalog_source 5, unfolded data(1,3), OF source account readable data(5)] by blast
  have source1: "get_source ''s'' db1 = Ok catalog_source" using source db1(3) by (simp add: get_source_def)
  from discovery_accepted [OF rs(2), of db1 catalog_source 9, unfolded data(2,4), OF source1 account db1(2) data(6)] db1(1) show ?thesis by blast
qed

theorem discovery_reconciles_witness:
  "\<exists>db' result. apply_discovery NoFault 5 sample_discovery sample_catalog = (db', Ok result) \<and>
     model_view ''s'' db' = reconcile {''a'', ''b''} (model_view ''s'' sample_catalog) \<and>
     model_view ''s'' db' ''old'' = Some (CatalogStatus_Confirmed, CatalogAvailability_Unavailable) \<and>
     model_view ''s'' db' ''a'' = Some (CatalogStatus_Pending, CatalogAvailability_Available)"
proof -
  obtain db' result where run: "apply_discovery NoFault 5 sample_discovery sample_catalog = (db', Ok result)" using sample_discovery_ok by blast
  have "models_of (da_models sample_discovery) = {''a'', ''b''}" "da_source_id sample_discovery = ''s''"
    by (auto simp: models_of_def sample_discovery_def listed_model_def)
  with discovery_reconciles [OF sample_catalog_keys run] have "model_view ''s'' db' = reconcile {''a'', ''b''} (model_view ''s'' sample_catalog)" by simp
  moreover have "model_view ''s'' sample_catalog ''old'' = Some (CatalogStatus_Confirmed, CatalogAvailability_Available)"
    "model_view ''s'' sample_catalog ''a'' = None"
    by (simp_all add: model_view_def sample_catalog_def find_model_def stored_model_def source_model_key_def new_model_row_def listed_model_def)
  ultimately show ?thesis using run by (intro exI [of _ db'] exI [of _ result]) (simp add: reconcile_def)
qed

theorem repeated_discovery_quiet_witness:
  "\<exists>db1 result db2 result'. apply_discovery NoFault 5 sample_discovery sample_catalog = (db1, Ok result) \<and>
     apply_discovery NoFault 9 sample_repeat db1 = (db2, Ok result') \<and> ds_diff result' = empty_diff"
proof -
  obtain db1 result db2 result' where run: "apply_discovery NoFault 5 sample_discovery sample_catalog = (db1, Ok result)"
    "apply_discovery NoFault 9 sample_repeat db1 = (db2, Ok result')" using sample_discovery_ok by blast
  from repeated_discovery_quiet [OF sample_catalog_keys run, of 8] run show ?thesis by (simp add: sample_repeat_def)
qed

theorem operator_decisions_survive_witness:
  "\<exists>db'. discovery_step sample_catalog db' \<and> decided ''s'' ''old'' DisplayName (JString ''mine'') db' \<and>
     confirmed_as ''s'' ''old'' named_metadata None (Some 1) db'"
proof -
  obtain db' result where run: "apply_discovery NoFault 5 sample_discovery sample_catalog = (db', Ok result)" using sample_discovery_ok by blast
  then have step: "discovery_step sample_catalog db'" by (rule discovery_step.intros)
  have row: "row_metadata stored_model = Ok named_metadata" by (simp add: stored_model_def named_metadata_ok)
  have "field_state named_metadata DisplayName = (Some (JString ''mine''), Some MetadataSource_User)"
    by (simp add: named_metadata_def apply_values_field merge_field_def)
  then have "decided ''s'' ''old'' DisplayName (JString ''mine'') sample_catalog" using row sample_catalog_models by (auto simp: decided_def)
  moreover have "confirmed_as ''s'' ''old'' named_metadata None (Some 1) sample_catalog"
    using row sample_catalog_models by (simp add: confirmed_as_def) (simp add: stored_model_def new_model_row_def listed_model_def)
  ultimately show ?thesis using operator_decisions_survive [OF sample_catalog_keys r_into_rtranclp [of discovery_step, OF step]] step by blast
qed

end
