(* ===== verification/Control_Discovery.thy ===== *)
theory Control_Discovery
  imports Control_Catalog
begin

text \<open>
  \<open>src/control_plane/model_discovery.rs\<close>: asking an upstream for its models and testing a connection, and the rules
  of \<open>src/domain/provider_preset.rs\<close> for the preset that says how. Every attempt that gets as far as the upstream, or
  that lacks a credential, is recorded; what is recorded of a failure is a fixed code and text.

  The derived decoders of \<open>serde\<close>, the URL parser, the test of a header name, the environment and the HTTP client are
  parameters (\<open>discovery_env\<close>). \<open>others\<close> is what other requests commit while the upstream is asked.
\<close>

section \<open>Presets\<close>

datatype http_method = HttpMethod_Get | HttpMethod_Post

record credential_header_template =
  ch_header :: string
  ch_prefix :: string

record source_auth_config =
  sa_credential_header :: credential_header_template
  sa_default_headers :: "(string, string) bmap"

record connection_test_template =
  te_method :: http_method
  te_default_model :: string
  te_body :: json

record protocol_preset =
  pr_endpoint :: string
  pr_mode :: source_protocol_mode
  pr_source_protocol :: "protocol option"
  pr_adapter :: "string option"
  pr_headers :: "(string, string) bmap"
  pr_connection_test :: connection_test_template

record source_protocol_capability =
  sp_mode :: source_protocol_mode
  sp_source_protocol :: "protocol option"

record discovery_parser =
  dp_list_path :: string
  dp_id_path :: string
  dp_metadata_paths :: "(metadata_field, string) bmap"

datatype discovery_preset = DiscoveryPreset_Supported http_method string discovery_parser | DiscoveryPreset_Unsupported string

record provider_preset_definition =
  pf_schema_version :: nat
  pf_default_base_url :: string
  pf_credential_header :: credential_header_template
  pf_default_headers :: "(string, string) bmap"
  pf_protocols :: "(protocol, protocol_preset) bmap"
  pf_discovery :: discovery_preset

definition validate_relative_endpoint :: "string \<Rightarrow> (unit, catalog_error) result" where
  "validate_relative_endpoint endpoint =
     (if \<not> starts_with endpoint ''/'' \<or> starts_with endpoint ''//''
      then Err (CatalogError_InvalidState (''provider preset endpoint '' @ quoted endpoint @ '' must be an absolute path'')) else Ok ())"

definition plain_http_url :: "url \<Rightarrow> bool" where
  "plain_http_url u \<longleftrightarrow> url_scheme u \<in> {''http'', ''https''} \<and> url_host_str u \<noteq> None \<and> url_username u = [] \<and> url_password u = None \<and>
     url_query u = None \<and> url_fragment u = None"

definition validate_protocol_preset :: "provider_preset_definition \<Rightarrow> protocol \<Rightarrow> (unit, catalog_error) result" where
  "validate_protocol_preset d protocol =
     (let invalid = (\<lambda>text. Err (CatalogError_InvalidState (''provider preset protocol '' @ protocol_to_string protocol @ text))) in
      and_then (ok_or (CatalogError_InvalidState (''provider preset must declare protocol '' @ protocol_to_string protocol)) (map_of (pf_protocols d) protocol)) (\<lambda>p.
      and_then (validate_relative_endpoint (pr_endpoint p)) (\<lambda>_.
        if json_as_object (te_body (pr_connection_test p)) = None \<or> trim (te_default_model (pr_connection_test p)) = []
        then invalid '' requires an object test body and default model''
        else if pr_mode p = SourceProtocolMode_Adapter then
          if pr_source_protocol p = None \<or> pr_adapter p \<in> {None, Some []} then invalid '' adapter requires source_protocol and adapter'' else Ok ()
        else if pr_source_protocol p \<noteq> None \<or> pr_adapter p \<noteq> None then invalid '' may only set adapter fields in adapter mode''
        else Ok ())))"

definition preset_validate :: "url_parser \<Rightarrow> provider_preset_definition \<Rightarrow> (unit, catalog_error) result" where
  "preset_validate parse_url d =
     (let invalid = (\<lambda>text. Err (CatalogError_InvalidState text)) in
      if pf_schema_version d \<noteq> 1 then invalid (''unsupported provider preset schema version '' @ show_nat (pf_schema_version d))
      else and_then (ok_or (CatalogError_InvalidState ''provider preset default_base_url is invalid'') (parse_url (pf_default_base_url d))) (\<lambda>u.
        if \<not> plain_http_url u
        then invalid ''provider preset default_base_url must be an http(s) origin without credentials, query, or fragment''
        else if trim (ch_header (pf_credential_header d)) = [] then invalid ''provider preset credential header cannot be empty''
        else and_then (for_each (validate_protocol_preset d) [OpenAiChatCompletions, OpenAiResponses, AnthropicMessages]) (\<lambda>_.
          case pf_discovery d of
            DiscoveryPreset_Supported m endpoint parser \<Rightarrow>
              if m \<noteq> HttpMethod_Get then invalid ''model discovery currently requires GET''
              else and_then (validate_relative_endpoint endpoint) (\<lambda>_.
                if trim (dp_list_path parser) = [] \<or> trim (dp_id_path parser) = [] then invalid ''model discovery parser paths cannot be empty'' else Ok ())
          | DiscoveryPreset_Unsupported _ \<Rightarrow> Ok ())))"

section \<open>Errors\<close>

datatype discovery_service_error =
    DiscoveryCatalog repository_error
  | InvalidPreset
  | InvalidSourceUrl
  | DiscoverySourceUrlBlocked
  | InvalidHeaderTemplate
  | AccountCredentialUnavailable

fun discovery_error_code :: "discovery_service_error \<Rightarrow> string" where
  "discovery_error_code (DiscoveryCatalog (RepoNotFound _)) = ''not_found''"
| "discovery_error_code (DiscoveryCatalog (RepoInvalidMetadata _)) = ''invalid_catalog_state''"
| "discovery_error_code (DiscoveryCatalog (RepoInvalidState _)) = ''invalid_catalog_state''"
| "discovery_error_code (DiscoveryCatalog _) = ''database_error''"
| "discovery_error_code InvalidPreset = ''invalid_provider_preset''"
| "discovery_error_code InvalidSourceUrl = ''invalid_source_url''"
| "discovery_error_code DiscoverySourceUrlBlocked = ''source_url_blocked''"
| "discovery_error_code InvalidHeaderTemplate = ''invalid_header_template''"
| "discovery_error_code AccountCredentialUnavailable = ''credential_unavailable''"

fun discovery_public_message :: "discovery_service_error \<Rightarrow> string" where
  "discovery_public_message (DiscoveryCatalog (RepoNotFound message)) = message"
| "discovery_public_message (DiscoveryCatalog (RepoInvalidMetadata message)) = message"
| "discovery_public_message (DiscoveryCatalog (RepoInvalidState message)) = message"
| "discovery_public_message (DiscoveryCatalog _) = ''catalog database operation failed''"
| "discovery_public_message InvalidPreset = ''source provider preset snapshot is invalid''"
| "discovery_public_message InvalidSourceUrl = ''source base URL or endpoint is invalid''"
| "discovery_public_message DiscoverySourceUrlBlocked = ''source URL is blocked by server policy''"
| "discovery_public_message InvalidHeaderTemplate = ''source header template is invalid''"
| "discovery_public_message AccountCredentialUnavailable = ''account credential environment variable is unavailable''"

definition discovery_error_of_policy :: "source_url_policy_error \<Rightarrow> discovery_service_error" where
  "discovery_error_of_policy e = (if e = InvalidUrl then InvalidSourceUrl else DiscoverySourceUrlBlocked)"

text \<open>An error of the HTTP client: the policy errors in its chain of sources, and what kind it is.\<close>

record client_error =
  ce_sources :: "source_url_policy_error option list"
  ce_timeout :: bool
  ce_connect :: bool

record safe_failure =
  sf_code :: string
  sf_message :: string
  sf_http_status :: "int option"

definition failure_transport :: "client_error \<Rightarrow> safe_failure" where
  "failure_transport e =
     (if reqwest_error_is_policy_violation (ce_sources e)
      then \<lparr>sf_code = ''source_url_blocked'', sf_message = ''source URL is blocked by server policy'', sf_http_status = None\<rparr>
      else if ce_timeout e then \<lparr>sf_code = ''upstream_timeout'', sf_message = ''upstream request timed out'', sf_http_status = None\<rparr>
      else if ce_connect e then \<lparr>sf_code = ''upstream_connect_failed'', sf_message = ''upstream connection failed'', sf_http_status = None\<rparr>
      else \<lparr>sf_code = ''upstream_request_failed'', sf_message = ''upstream request failed'', sf_http_status = None\<rparr>)"

definition failure_http :: "nat \<Rightarrow> safe_failure" where
  "failure_http status = \<lparr>sf_code = ''upstream_http_error'', sf_message = ''upstream returned a non-success HTTP status'', sf_http_status = Some (int status)\<rparr>"

definition credential_failure :: safe_failure where
  "credential_failure = \<lparr>sf_code = ''credential_unavailable'', sf_message = ''account credential environment variable is unavailable'', sf_http_status = None\<rparr>"

definition unsupported_failure :: safe_failure where
  "unsupported_failure = \<lparr>sf_code = ''protocol_unsupported'', sf_message = ''source preset does not provide this protocol'', sf_http_status = None\<rparr>"

section \<open>Reading a list of models\<close>


definition invalid_shape :: safe_failure where
  "invalid_shape = \<lparr>sf_code = ''invalid_discovery_shape'', sf_message = ''upstream model-list response did not match the preset parser'', sf_http_status = Some 200\<rparr>"

definition duplicate_model :: safe_failure where
  "duplicate_model = \<lparr>sf_code = ''duplicate_discovered_model'', sf_message = ''upstream model-list response contained duplicate model IDs'', sf_http_status = Some 200\<rparr>"

definition invalid_metadata :: safe_failure where
  "invalid_metadata = \<lparr>sf_code = ''invalid_discovery_metadata'', sf_message = ''upstream model metadata did not match the preset parser'', sf_http_status = Some 200\<rparr>"




text \<open>A response is its status, its declared length and its chunks, the last of which may be an error.\<close>

record discovery_response =
  rs_status :: nat
  rs_content_length :: "nat option"
  rs_chunks :: "(string, client_error) result list"

definition max_discovery_response_bytes :: nat where
  "max_discovery_response_bytes = 2 * 1024 * 1024"

definition too_large :: "nat \<Rightarrow> safe_failure" where
  "too_large status = \<lparr>sf_code = ''discovery_response_too_large'', sf_message = ''upstream model-list response exceeded the size limit'', sf_http_status = Some (int status)\<rparr>"

definition invalid_json :: "nat \<Rightarrow> safe_failure" where
  "invalid_json status = \<lparr>sf_code = ''invalid_discovery_json'', sf_message = ''upstream model-list response was not valid JSON'', sf_http_status = Some (int status)\<rparr>"

fun read_chunks :: "nat \<Rightarrow> string \<Rightarrow> (string, client_error) result list \<Rightarrow> (string, safe_failure) result" where
  "read_chunks status body [] = Ok body"
| "read_chunks status body (Inl e # chunks) = Err (failure_transport e)"
| "read_chunks status body (Inr chunk # chunks) =
     (if max_discovery_response_bytes < length body + length chunk then Err (too_large status) else read_chunks status (body @ chunk) chunks)"


section \<open>The service\<close>

record discovery_request =
  dq_method :: http_method
  dq_url :: url
  dq_headers :: "(string \<times> string) list"
  dq_body :: "json option"
  dq_timeout_secs :: "nat option"

record discovery_env =
  dv_parse_url :: url_parser
  dv_policy :: source_url_policy
  dv_decode_preset :: "json \<Rightarrow> provider_preset_definition option"
  dv_decode_auth :: "json \<Rightarrow> source_auth_config option"
  dv_decode_capabilities :: "json \<Rightarrow> (protocol, source_protocol_capability) bmap option"
  dv_decode_endpoints :: "json \<Rightarrow> (protocol, string) bmap option"
  dv_header_name :: "string \<Rightarrow> bool"
  dv_variable :: "string \<Rightarrow> string option"
  dv_send :: "discovery_request \<Rightarrow> (discovery_response, client_error) result"
  dv_parse_json :: json_parser
  dv_text_le :: "string \<Rightarrow> string \<Rightarrow> bool"

text \<open>The clocks of one call: when it started and ended, and how long it took.\<close>

record call_clock =
  cl_started_at :: int
  cl_completed_at :: int
  cl_latency_ms :: int

definition parse_preset :: "discovery_env \<Rightarrow> source_row \<Rightarrow> (provider_preset_definition, discovery_service_error) result" where
  "parse_preset env source =
     and_then (ok_or InvalidPreset (dv_decode_preset env (so_provider_preset_snapshot source))) (\<lambda>d.
     and_then (map_err (\<lambda>_. InvalidPreset) (preset_validate (dv_parse_url env) d)) (\<lambda>_. Ok d))"

definition source_auth :: "discovery_env \<Rightarrow> source_row \<Rightarrow> (source_auth_config, discovery_service_error) result" where
  "source_auth env source = ok_or InvalidPreset (dv_decode_auth env (so_auth_config source))"

definition source_protocol_capabilities ::
  "discovery_env \<Rightarrow> source_row \<Rightarrow> ((protocol, source_protocol_capability) bmap, discovery_service_error) result" where
  "source_protocol_capabilities env source = ok_or InvalidPreset (dv_decode_capabilities env (so_protocol_capabilities source))"

definition source_endpoint :: "discovery_env \<Rightarrow> source_row \<Rightarrow> protocol \<Rightarrow> string \<Rightarrow> (string, discovery_service_error) result" where
  "source_endpoint env source protocol fallback =
     and_then (ok_or InvalidPreset (dv_decode_endpoints env (so_endpoints source))) (\<lambda>endpoints.
       Ok (unwrap_or fallback (option_filter (\<lambda>e. trim e \<noteq> []) (map_of endpoints protocol))))"

definition source_url :: "url_parser \<Rightarrow> string \<Rightarrow> string \<Rightarrow> (url, discovery_service_error) result" where
  "source_url parse_url base_url endpoint =
     and_then (ok_or InvalidSourceUrl (parse_url base_url)) (\<lambda>base.
       if \<not> plain_http_url base \<or> \<not> starts_with endpoint ''/'' \<or> starts_with endpoint ''//'' then Err InvalidSourceUrl
       else ok_or InvalidSourceUrl (parse_url (trim_end_matches (CHR ''/'') (url_as_str base) @ endpoint)))"

definition request_builder ::
  "discovery_env \<Rightarrow> http_method \<Rightarrow> url \<Rightarrow> credential_header_template \<Rightarrow> string \<Rightarrow> (string \<times> string) list \<Rightarrow> (discovery_request, discovery_service_error) result" where
  "request_builder env m u template credential headers =
     and_then (map_err discovery_error_of_policy (client_request (dv_policy env) u)) (\<lambda>u.
     and_then (for_each (\<lambda>h. if dv_header_name env (fst h) then Ok () else Err InvalidHeaderTemplate) headers) (\<lambda>_.
       if \<not> dv_header_name env (ch_header template) then Err InvalidHeaderTemplate
       else Ok \<lparr>dq_method = m, dq_url = u, dq_headers = headers @ [(ch_header template, ch_prefix template @ credential)], dq_body = None,
              dq_timeout_secs = None\<rparr>))"

fun render_template :: "json \<Rightarrow> string \<Rightarrow> json" where
  "render_template (JString s) model = (if s = ''{{model}}'' then JString model else JString s)"
| "render_template (JArray vs) model = JArray (map (\<lambda>v. render_template v model) vs)"
| "render_template (JObject kvs) model = JObject (map (\<lambda>(k, v). (k, render_template v model)) kvs)"
| "render_template v model = v"

definition normalized_actor :: "string \<Rightarrow> string" where
  "normalized_actor v = (if trim v = [] then ''admin_api'' else concat (take 128 (utf8_chars (trim v))))"

definition resolve_credential :: "discovery_env \<Rightarrow> string \<Rightarrow> string \<Rightarrow> catalog_db \<Rightarrow> (string, discovery_service_error) result" where
  "resolve_credential env source_id account_id db =
     and_then (map_err DiscoveryCatalog (enabled_account source_id account_id db)) (\<lambda>account.
     and_then (ok_or AccountCredentialUnavailable (ar_credential_env account)) (\<lambda>name.
       ok_or AccountCredentialUnavailable (option_filter (\<lambda>c. c \<noteq> []) (dv_variable env name))))"










section \<open>Testing a connection\<close>

definition tested ::
  "call_clock \<Rightarrow> string \<Rightarrow> string \<Rightarrow> protocol \<Rightarrow> protocol \<Rightarrow> source_protocol_mode \<Rightarrow> string \<Rightarrow> (nat, safe_failure) result \<Rightarrow> connection_test_row" where
  "tested clock source_id account_id protocol upstream m requested_by outcome =
     \<lparr>ct_source_id = source_id, ct_account_id = Some account_id, ct_protocol = protocol, ct_upstream_protocol = upstream, ct_mode = m,
      ct_status = (case outcome of Inr _ \<Rightarrow> ''succeeded'' | Inl _ \<Rightarrow> ''failed''),
      ct_http_status = (case outcome of Inr s \<Rightarrow> Some (int s) | Inl f \<Rightarrow> sf_http_status f), ct_latency_ms = cl_latency_ms clock,
      ct_error_code = (case outcome of Inr _ \<Rightarrow> None | Inl f \<Rightarrow> Some (sf_code f)),
      ct_error_message = (case outcome of Inr _ \<Rightarrow> None | Inl f \<Rightarrow> Some (sf_message f)),
      ct_requested_by = normalized_actor requested_by, ct_tested_at = cl_started_at clock\<rparr>"

definition connection_request ::
  "discovery_env \<Rightarrow> source_row \<Rightarrow> source_auth_config \<Rightarrow> protocol \<Rightarrow> protocol_preset \<Rightarrow> string option \<Rightarrow> string \<Rightarrow> (discovery_request, discovery_service_error) result" where
  "connection_request env source auth protocol preset model credential =
     and_then (source_endpoint env source protocol (pr_endpoint preset)) (\<lambda>endpoint.
     and_then (source_url (dv_parse_url env) (so_base_url source) endpoint) (\<lambda>u.
     and_then (request_builder env (te_method (pr_connection_test preset)) u (sa_credential_header auth) credential (sa_default_headers auth @ pr_headers preset)) (\<lambda>request.
       let model = unwrap_or (te_default_model (pr_connection_test preset)) (option_filter (\<lambda>m. trim m \<noteq> []) model)
       in Ok (request\<lparr>dq_body := Some (render_template (te_body (pr_connection_test preset)) model), dq_timeout_secs := Some 120\<rparr>))))"

definition connection_outcome :: "discovery_env \<Rightarrow> discovery_request \<Rightarrow> (nat, safe_failure) result" where
  "connection_outcome env request =
     and_then (map_err failure_transport (dv_send env request)) (\<lambda>response.
       if rs_status response < 200 \<or> 300 \<le> rs_status response then Err (failure_http (rs_status response)) else Ok (rs_status response))"

definition test_connection ::
  "discovery_env \<Rightarrow> db_fault \<Rightarrow> call_clock \<Rightarrow> (catalog_db \<Rightarrow> catalog_db) \<Rightarrow> string \<Rightarrow> string \<Rightarrow> protocol \<Rightarrow> string option \<Rightarrow> string \<Rightarrow> catalog_db
   \<Rightarrow> catalog_db \<times> (connection_test_row, discovery_service_error) result" where
  "test_connection env fault clock others source_id account_id protocol model requested_by db =
     (let prepared = and_then (map_err DiscoveryCatalog (get_source source_id db)) (\<lambda>source.
            and_then (parse_preset env source) (\<lambda>preset.
            and_then (ok_or InvalidPreset (map_of (pf_protocols preset) protocol)) (\<lambda>p.
            and_then (source_protocol_capabilities env source) (\<lambda>capabilities.
            and_then (ok_or InvalidPreset (map_of capabilities protocol)) (\<lambda>c.
            and_then (source_auth env source) (\<lambda>auth. Ok (source, p, c, auth)))))))
      in case prepared of
           Inl e \<Rightarrow> (db, Err e)
         | Inr (source, p, c, auth) \<Rightarrow>
             let record = (\<lambda>outcome db.
                   let (db, r) = record_connection_test fault
                         (tested clock source_id account_id protocol (unwrap_or protocol (sp_source_protocol c)) (sp_mode c) requested_by outcome) db
                   in (db, map_err DiscoveryCatalog r))
             in if sp_mode c \<in> {SourceProtocolMode_Unknown, SourceProtocolMode_Unsupported} then record (Err unsupported_failure) db
                else case resolve_credential env source_id account_id db of
                       Inl e \<Rightarrow> if e = AccountCredentialUnavailable then record (Err credential_failure) db else (db, Err e)
                     | Inr credential \<Rightarrow>
                         (case connection_request env source auth protocol p model credential of
                            Inl e \<Rightarrow> (db, Err e)
                          | Inr request \<Rightarrow> record (connection_outcome env request) (others db)))"

section \<open>What is parsed\<close>




lemma read_chunks_bounded: "read_chunks status body chunks = Ok b \<Longrightarrow> length body \<le> max_discovery_response_bytes \<Longrightarrow> length b \<le> max_discovery_response_bytes"
  by (induction status body chunks rule: read_chunks.induct) (auto split: if_splits)

lemma read_chunks_all: "read_chunks status body (map Inr chunks) = Ok b \<Longrightarrow> b = body @ concat chunks"
proof (induction chunks arbitrary: body)
  case (Cons chunk chunks)
  from Cons.prems have "read_chunks status (body @ chunk) (map Inr chunks) = Ok b" by (simp split: if_splits)
  from Cons.IH [OF this] show ?case by simp
qed simp

section \<open>What is recorded of a failure\<close>

definition public_failures :: "(string \<times> string) list" where
  "public_failures =
     [(''source_url_blocked'', ''source URL is blocked by server policy''), (''upstream_timeout'', ''upstream request timed out''),
      (''upstream_connect_failed'', ''upstream connection failed''), (''upstream_request_failed'', ''upstream request failed''),
      (''upstream_http_error'', ''upstream returned a non-success HTTP status''),
      (''credential_unavailable'', ''account credential environment variable is unavailable''),
      (''protocol_unsupported'', ''source preset does not provide this protocol''),
      (''invalid_discovery_shape'', ''upstream model-list response did not match the preset parser''),
      (''duplicate_discovered_model'', ''upstream model-list response contained duplicate model IDs''),
      (''invalid_discovery_metadata'', ''upstream model metadata did not match the preset parser''),
      (''discovery_response_too_large'', ''upstream model-list response exceeded the size limit''),
      (''invalid_discovery_json'', ''upstream model-list response was not valid JSON'')]"

definition public_failure :: "safe_failure \<Rightarrow> bool" where
  "public_failure f \<longleftrightarrow> (sf_code f, sf_message f) \<in> set public_failures"

lemma public_constants [simp]:
  "public_failure (failure_transport e)" "public_failure (failure_http s)" "public_failure credential_failure" "public_failure unsupported_failure"
  "public_failure invalid_shape" "public_failure duplicate_model" "public_failure invalid_metadata" "public_failure (too_large s)"
  "public_failure (invalid_json s)"
  by (simp_all add: public_failure_def public_failures_def failure_transport_def failure_http_def credential_failure_def unsupported_failure_def
      invalid_shape_def duplicate_model_def invalid_metadata_def too_large_def invalid_json_def)

lemma map_err_Err: "map_err f r = Err e \<longleftrightarrow> (\<exists>x. r = Err x \<and> e = f x)"
  by (cases r) auto












text \<open>The same holds for connection tests.\<close>

lemma connection_failures_public:
  assumes "test_connection env fault clock others s a protocol model by' db = (db', r)" "t \<in> set (cx_connection_tests db')"
  shows "t \<in> set (cx_connection_tests db) \<or> t \<in> set (cx_connection_tests (others db)) \<or> (ct_error_code t = None \<and> ct_error_message t = None) \<or>
    (\<exists>(c, m) \<in> set public_failures. ct_error_code t = Some c \<and> ct_error_message t = Some m)"
proof -
  have rec: "t \<in> set (cx_connection_tests db0) \<or> t = tested clock s a protocol u m by' o'"
    if "record_connection_test fault (tested clock s a protocol u m by' o') db0 = (db', q)" for u m o' db0 q
    using that assms(2) by (auto simp: record_connection_test_def catalog_commit_def and_then_def split: if_splits sum.splits db_fault.splits)
  have out: "public_failure f" if "connection_outcome env request = Err f" for request f
    using that by (auto simp: connection_outcome_def and_then_Err map_err_Err split: if_splits)
  have "t \<in> set (cx_connection_tests db) \<or> t \<in> set (cx_connection_tests (others db)) \<or>
      (\<exists>u m o'. t = tested clock s a protocol u m by' o' \<and> (\<forall>f. o' = Err f \<longrightarrow> public_failure f))"
    using assms rec out
    by (auto simp: test_connection_def Let_def split: sum.splits prod.splits if_splits)
       (metis public_constants(3,4) sum.inject(1))+
  then show ?thesis by (auto simp: tested_def public_failure_def split: sum.splits) 
qed

section \<open>Examples\<close>

















end
