(* ===== verification/Spec2Isabelle.thy ===== *)
theory Spec2Isabelle
  imports Health_Breaker Proxy_Requests Control_Plane Domain_Capabilities Infra_Incidents Infra_Retention Control_Discovery
begin

text \<open>
  A verification development of an AI gateway: a proxy that offers the OpenAI Chat Completions, OpenAI Responses and
  Anthropic Messages protocols to clients and forwards each request to one of several upstream accounts. File names
  below are under \<open>src/src/\<close>.

  \<^bold>\<open>The program.\<close> The \<^emph>\<open>control plane\<close> keeps sources, accounts, models, bindings and routes in a database; every write
  validates its input, changes the tables and builds a runtime snapshot in one transaction, and the snapshot that
  was committed is published. \<^emph>\<open>Discovery\<close> asks upstreams which models they have and reconciles the catalog with the answer.
  The \<^emph>\<open>data plane\<close> authenticates a request, resolves its model and protocol on the published snapshot to a route,
  tries the accounts of the route in turn as the health registry and the fallback policy allow, forwards the answer,
  buffered or as a stream of server-sent events, and settles its usage after the response has ended. \<^emph>\<open>Operations\<close> record
  system events, delete what is past its retention, and export and restore the control plane.

  \<^bold>\<open>Theories.\<close> A struct is a \<open>record\<close>, an enum a \<open>datatype\<close>, a handler one definition with its early returns as branches.
    \<^item> \<open>Gateway_Prelude\<close>: results, the parts of Rust's standard library that are used (byte strings, UTF-8, durations,
      saturating and checked integers) and the shared lemmas; \<open>Json_Value\<close>: \<open>serde_json::Value\<close>; \<open>Net_Addr\<close>: \<open>std::net\<close>.
    \<^item> \<open>Domain_Protocol\<close>, \<open>Domain_Config\<close>, \<open>Domain_Routing\<close>, \<open>Domain_Catalog\<close>, \<open>Domain_Capabilities\<close>: the files of \<open>domain/\<close> of the
      same names. Both resolvers return the most preferred matching route that resolves; a validated native route
      resolves; model metadata is merged by the promised precedence; the reported capability matrix says of a
      cell exactly what a request would experience.
    \<^item> \<open>Breaker_Spec\<close>, \<open>Infra_Db_Health\<close>, \<open>Infra_Health\<close>, \<open>Health_Breaker\<close>: the circuit breaker of an account
      (\<open>infra/health.rs\<close>, \<open>infra/db/health.rs\<close>). The locale \<open>breaker_impl\<close> is its contract; the in-memory state and the
      database row both implement it, on whole histories, and a lockout is bounded in every reachable registry.
    \<^item> \<open>Infra_Virtual_Keys\<close>, \<open>Auth\<close>, \<open>Infra_Secrets\<close>, \<open>Source_Url\<close>: \<open>infra/db/virtual_keys.rs\<close>, \<open>auth.rs\<close>, \<open>infra/secrets.rs\<close>,
      \<open>source_url.rs\<close> and \<open>http.rs\<close>. Ended keys never authenticate again, the data plane fails closed, envelopes are
      opened to what was sealed, and no forbidden address is contacted.
    \<^item> \<open>Proxy_Usage\<close>, \<open>Proxy_Stream\<close>, \<open>Stream_Tracker\<close>, \<open>Proxy_Native\<close>, \<open>Proxy_Observation\<close>: \<open>proxy/usage.rs\<close> and
      \<open>proxy/stream.rs\<close>. Chunks pass unchanged and in order, the tracker does not depend on how the
      bytes are cut and is bounded, a stream ends with at most one gateway failure and within its total timeout.
    \<^item> \<open>Gateway_World\<close>, \<open>Http_Response\<close>, \<open>Proxy_Transport\<close>, \<open>Proxy_Attempt\<close>, \<open>Proxy_Candidates\<close>, \<open>Infra_Db_Usage\<close>,
      \<open>Proxy_Completion\<close>, \<open>Proxy_Settlement\<close>, \<open>Proxy_Service\<close>, \<open>Proxy_Requests\<close>: the other files of \<open>proxy/\<close>, \<open>http/response.rs\<close>
      and the usage table. The two fallback policies try what they should, client credentials stay
      with the gateway, rejections come before any upstream is contacted, usage is written once, and
      admission and drain hold under every interleaving.
    \<^item> \<open>Control_Db\<close>, \<open>Control_Snapshot\<close>, \<open>Control_Validation\<close>, \<open>Control_Service\<close>, \<open>Control_Writes\<close>, \<open>Control_Invariant\<close>,
      \<open>Control_Routing\<close>, \<open>Control_Plane\<close>: the tables of \<open>migrations/\<close> and the files of \<open>control_plane/\<close>. The database
      invariant is kept by every write; from it follow, for every reachable state, that a restart loads, that a
      published snapshot serves what the tables say, that fallback stays within a provider family and that
      no two routes compete. A routing is read back as it was written; a refused write changes nothing.
    \<^item> \<open>Control_Catalog\<close>, \<open>Control_Discovery\<close>: \<open>control_plane/model_catalog.rs\<close>, \<open>control_plane/model_discovery.rs\<close> and the rules
      of \<open>domain/provider_preset.rs\<close>. A discovery refines the abstract \<open>reconcile\<close>, repeated discoveries are quiet,
      decisions of the operator survive, and what is recorded of a failure is public.
    \<^item> \<open>Infra_Events\<close>, \<open>Infra_Incidents\<close>, \<open>Infra_Backup\<close>, \<open>Infra_Retention\<close>: \<open>infra/events.rs\<close>, \<open>api/events.rs\<close> and
      \<open>infra/ops.rs\<close>. Event pages are complete, the outage tracker pairs its rows under every interleaving, exports
      hide secrets, and a cleanup deletes all that is due and nothing else.

  \<^bold>\<open>Interfaces.\<close> \<open>backoff_schedule\<close> and \<open>breaker_impl\<close> are met by both health stores for every clock of \<open>health_clock\<close>, which the
  default configuration interprets; \<open>query_order\<close>, \<open>text_order\<close> and \<open>event_order\<close> are what queries need of the order the
  database gives texts and rows, interpreted by the order of bytes.

  \<^bold>\<open>Concurrency, time and faults.\<close> An \<open>await\<close> lets others run: handlers take what others do as a function applied between
  their reads (\<open>pl_tick\<close>, \<open>others\<close>), and the settlement manager, the key table, the health registry and the outage tracker
  are step relations over atomic steps. Instants are counts of nanoseconds given as arguments. A
  transaction ends as a \<open>db_fault\<close> says: committed, failed, or failed after it took effect.

  \<^bold>\<open>Loops.\<close> All definitions are total. Loops over data recurse on it; the loops of a stream recurse on the events the runtime
  delivers, and the bound on the iterations past a deadline is proved; the retry loops count the attempts
  their configuration allows; a cleanup counts down the batches its request allows, and that enough batches
  complete it is proved. No other fuel is used.

  \<^bold>\<open>Parameters.\<close> Code outside the repository is an argument: the HTTP client, name resolution, the parsers of URLs, networks and
  JSON text, the decoders \<open>serde\<close> derives, digests, ciphers and base64, the tokenizer, random choices, the
  environment variables and the collation of the database. Laws a statement needs of them are its hypotheses,
  and its witness instantiates them.

  \<^bold>\<open>Not modelled.\<close> Start-up and wiring (\<open>app.rs\<close>, \<open>runtime.rs\<close>, \<open>state.rs\<close>), the HTTP layer of \<open>api/\<close> around the modelled
  services, read-only reports and quota views (\<open>control_plane/quota/\<close>, floating point), the one-off import
  of a legacy configuration, the rows of the admin audit, metrics and logs, the built-in preset tables, and the
  network probe of the health registry. They do I/O, only read, or hold data.
\<close>

end
